(* ===== verification/Prelude.thy ===== *)
theory Prelude
  imports
    Main
    "HOL-Library.Word"
    "HOL-Library.Char_ord"
    "HOL-Library.List_Lexorder"
    "HOL-Library.Option_ord"
    "HOL-Library.Product_Lexorder"
    "HOL-Library.Multiset"
begin

section \<open>Prelude: Rust's integers, results, ordered containers and decimal text\<close>

text \<open>
  What the component theories share.

  \<^item> Machine integers. Unsigned integers are words (\<open>u8\<close>, \<open>u32\<close>, \<open>u64\<close>, \<open>u128\<close>); signed
    integers (\<open>i64\<close>, \<open>i128\<close>) are \<^typ>\<open>int\<close> with their range written out, because the code
    reaches them only through \<open>checked_*\<close> operations and \<open>try_from\<close>.
  \<^item> \<open>Result\<close> is a sum with the error on the left; \<open>res_bind\<close> is the \<open>?\<close> operator and
    \<open>res_fold\<close> a \<open>for\<close> loop whose body may return early with an error.
  \<^item> \<open>BTreeSet\<close> is a strictly sorted list (\<open>btree_insert\<close>, \<open>btree_of_list\<close>), \<open>HashMap\<close> an
    association list that holds each key once.
  \<^item> Times are \<^typ>\<open>int\<close>: nanoseconds since an epoch. \<open>Duration\<close> is a number of nanoseconds.
  \<^item> \<open>String\<close> is \<^typ>\<open>string\<close>, compared lexicographically as Rust compares bytes.
\<close>

named_theorems rust_int "definitions of the fixed-width integer operations"

subsection \<open>Machine integers\<close>

type_synonym u8 = "8 word"
type_synonym u32 = "32 word"
type_synonym u64 = "64 word"
type_synonym u128 = "128 word"
type_synonym time = int

definition in_i64 :: "int \<Rightarrow> bool" where
  [rust_int]: "in_i64 x \<longleftrightarrow> - (2 ^ 63) \<le> x \<and> x < 2 ^ 63"

definition in_i128 :: "int \<Rightarrow> bool" where
  [rust_int]: "in_i128 x \<longleftrightarrow> - (2 ^ 127) \<le> x \<and> x < 2 ^ 127"

definition i64_try_from :: "int \<Rightarrow> int option" where
  [rust_int]: "i64_try_from x = (if in_i64 x then Some x else None)"

definition i128_try_from :: "int \<Rightarrow> int option" where
  [rust_int]: "i128_try_from x = (if in_i128 x then Some x else None)"

definition u128_try_from :: "int \<Rightarrow> u128 option" where
  [rust_int]: "u128_try_from x = (if 0 \<le> x \<and> x < 2 ^ 128 then Some (word_of_int x) else None)"

definition checked_add_i128 :: "int \<Rightarrow> int \<Rightarrow> int option" where
  [rust_int]: "checked_add_i128 x y = i128_try_from (x + y)"

definition checked_sub_i128 :: "int \<Rightarrow> int \<Rightarrow> int option" where
  [rust_int]: "checked_sub_i128 x y = i128_try_from (x - y)"

definition checked_add_u :: "'a::len word \<Rightarrow> 'a word \<Rightarrow> 'a word option" where
  [rust_int]: "checked_add_u x y = (if unat x + unat y < 2 ^ LENGTH('a) then Some (x + y) else None)"

definition checked_mul_u :: "'a::len word \<Rightarrow> 'a word \<Rightarrow> 'a word option" where
  [rust_int]: "checked_mul_u x y = (if unat x * unat y < 2 ^ LENGTH('a) then Some (x * y) else None)"

definition saturating_add_u :: "'a::len word \<Rightarrow> 'a word \<Rightarrow> 'a word" where
  [rust_int]: "saturating_add_u x y = (if unat x + unat y < 2 ^ LENGTH('a) then x + y else - 1)"

definition saturating_sub_u :: "'a::len word \<Rightarrow> 'a word \<Rightarrow> 'a word" where
  [rust_int]: "saturating_sub_u x y = (if y \<le> x then x - y else 0)"

lemma unat_add_no_overflow:
  fixes x y :: "'a::len word"
  shows "unat x + unat y < 2 ^ LENGTH('a) \<Longrightarrow> unat (x + y) = unat x + unat y"
  by (simp add: unat_word_ariths)

lemma unat_mul_no_overflow:
  fixes x y :: "'a::len word"
  shows "unat x * unat y < 2 ^ LENGTH('a) \<Longrightarrow> unat (x * y) = unat x * unat y"
  by (simp add: unat_word_ariths)

lemma checked_add_u_Some [simp]:
  fixes x y :: "'a::len word"
  shows "checked_add_u x y = Some z \<longleftrightarrow> unat z = unat x + unat y"
proof
  assume "checked_add_u x y = Some z"
  then show "unat z = unat x + unat y"
    by (auto simp: rust_int unat_add_no_overflow split: if_splits)
next
  assume z: "unat z = unat x + unat y"
  then have "unat x + unat y < 2 ^ LENGTH('a)"
    by (metis unsigned_less)
  with z show "checked_add_u x y = Some z"
    by (simp add: checked_add_u_def unat_add_no_overflow word_unat_eq_iff)
qed

lemma checked_add_u_None [simp]:
  fixes x y :: "'a::len word"
  shows "checked_add_u x y = None \<longleftrightarrow> 2 ^ LENGTH('a) \<le> unat x + unat y"
  by (auto simp: rust_int)

lemma checked_mul_u_Some:
  fixes x y :: "'a::len word"
  shows "checked_mul_u x y = Some z \<Longrightarrow> unat z = unat x * unat y"
  by (auto simp: rust_int unat_mul_no_overflow split: if_splits)

lemma unat_saturating_add_u:
  fixes x y :: "'a::len word"
  shows "unat (saturating_add_u x y) = min (unat x + unat y) (2 ^ LENGTH('a) - 1)"
  by (auto simp: saturating_add_u_def unat_add_no_overflow min_def unsigned_minus_1_eq_mask
      mask_eq_exp_minus_1)

lemma unat_saturating_sub_u [simp]:
  fixes x y :: "'a::len word"
  shows "unat (saturating_sub_u x y) = unat x - unat y"
  by (auto simp: rust_int word_le_nat_alt unat_sub)

lemma i64_try_from_Some [simp]: "i64_try_from x = Some y \<longleftrightarrow> in_i64 x \<and> y = x"
  by (auto simp: i64_try_from_def)

lemma i64_try_from_None [simp]: "i64_try_from x = None \<longleftrightarrow> \<not> in_i64 x"
  by (auto simp: i64_try_from_def)

lemma i128_try_from_Some [simp]: "i128_try_from x = Some y \<longleftrightarrow> in_i128 x \<and> y = x"
  by (auto simp: i128_try_from_def)

lemma i128_try_from_None [simp]: "i128_try_from x = None \<longleftrightarrow> \<not> in_i128 x"
  by (auto simp: i128_try_from_def)

lemma uint_u128_of_int: "0 \<le> x \<Longrightarrow> x < 2 ^ 128 \<Longrightarrow> uint (word_of_int x :: u128) = x"
  by (simp add: uint_word_of_int)

lemma u128_try_from_Some [simp]: "u128_try_from x = Some y \<longleftrightarrow> uint y = x"
proof
  assume "u128_try_from x = Some y"
  then show "uint y = x" by (auto simp: u128_try_from_def uint_u128_of_int split: if_splits)
next
  assume "uint y = x"
  moreover have "0 \<le> uint y \<and> uint y < 2 ^ 128" using uint_lt2p [of y] by simp
  ultimately show "u128_try_from x = Some y" by (auto simp: u128_try_from_def)
qed

lemma unat_eq_nat_iff: "0 \<le> x \<Longrightarrow> unat (a :: u128) = nat x \<longleftrightarrow> uint a = x"
  by (metis eq_nat_nat_iff nat_uint_eq uint_ge_0)

lemma unat_u128_of_int: "0 \<le> x \<Longrightarrow> x < 2 ^ 128 \<Longrightarrow> unat (word_of_int x :: u128) = nat x"
  by (metis nat_uint_eq uint_u128_of_int)

lemma in_i64_imp_in_i128: "in_i64 x \<Longrightarrow> in_i128 x"
  by (simp add: rust_int)

lemma checked_add_i128_Some [simp]: "checked_add_i128 x y = Some z \<longleftrightarrow> in_i128 (x + y) \<and> z = x + y"
  by (simp add: checked_add_i128_def)

lemma checked_sub_i128_Some [simp]: "checked_sub_i128 x y = Some z \<longleftrightarrow> in_i128 (x - y) \<and> z = x - y"
  by (simp add: checked_sub_i128_def)

lemma checked_add_i128_None [simp]: "checked_add_i128 x y = None \<longleftrightarrow> \<not> in_i128 (x + y)"
  by (simp add: checked_add_i128_def)

lemma checked_sub_i128_None [simp]: "checked_sub_i128 x y = None \<longleftrightarrow> \<not> in_i128 (x - y)"
  by (simp add: checked_sub_i128_def)

subsection \<open>Results\<close>

fun res_bind :: "'e + 'a \<Rightarrow> ('a \<Rightarrow> 'e + 'b) \<Rightarrow> 'e + 'b" where
  "res_bind (Inl e) f = Inl e"
| "res_bind (Inr x) f = f x"

fun ok_or :: "'e \<Rightarrow> 'a option \<Rightarrow> 'e + 'a" where
  "ok_or e None = Inl e"
| "ok_or e (Some x) = Inr x"

fun res_map :: "('a \<Rightarrow> 'b) \<Rightarrow> 'e + 'a \<Rightarrow> 'e + 'b" where
  "res_map f (Inl e) = Inl e"
| "res_map f (Inr x) = Inr (f x)"

fun map_err :: "('e \<Rightarrow> 'f) \<Rightarrow> 'e + 'a \<Rightarrow> 'f + 'a" where
  "map_err g (Inl e) = Inl (g e)"
| "map_err g (Inr x) = Inr x"

fun is_ok :: "'e + 'a \<Rightarrow> bool" where
  "is_ok (Inl e) = False"
| "is_ok (Inr x) = True"

fun res_fold :: "('s \<Rightarrow> 'a \<Rightarrow> 'e + 's) \<Rightarrow> 's \<Rightarrow> 'a list \<Rightarrow> 'e + 's" where
  "res_fold f s [] = Inr s"
| "res_fold f s (x # xs) = res_bind (f s x) (\<lambda>s'. res_fold f s' xs)"

fun res_mapM :: "('a \<Rightarrow> 'e + 'b) \<Rightarrow> 'a list \<Rightarrow> 'e + 'b list" where
  "res_mapM f [] = Inr []"
| "res_mapM f (x # xs) = res_bind (f x) (\<lambda>y. res_bind (res_mapM f xs) (\<lambda>ys. Inr (y # ys)))"

lemma res_bind_Inr_iff [simp]: "res_bind r f = Inr y \<longleftrightarrow> (\<exists>x. r = Inr x \<and> f x = Inr y)"
  by (cases r) auto

lemma res_bind_Inl_iff: "res_bind r f = Inl e \<longleftrightarrow> r = Inl e \<or> (\<exists>x. r = Inr x \<and> f x = Inl e)"
  by (cases r) auto

lemma ok_or_Inr_iff [simp]: "ok_or e v = Inr x \<longleftrightarrow> v = Some x"
  by (cases v) auto

lemma ok_or_Inl_iff [simp]: "ok_or e v = Inl e' \<longleftrightarrow> v = None \<and> e' = e"
  by (cases v) auto

lemma res_map_Inr_iff [simp]: "res_map f r = Inr y \<longleftrightarrow> (\<exists>x. r = Inr x \<and> y = f x)"
  by (cases r) auto

lemma map_err_Inr_iff [simp]: "map_err g r = Inr x \<longleftrightarrow> r = Inr x"
  by (cases r) auto

lemma map_err_Inl_iff [simp]: "map_err g r = Inl e \<longleftrightarrow> (\<exists>d. r = Inl d \<and> e = g d)"
  by (cases r) auto

lemma is_ok_iff: "is_ok r \<longleftrightarrow> (\<exists>x. r = Inr x)"
  by (cases r) auto

lemma res_fold_append:
  "res_fold f s (xs @ ys) = res_bind (res_fold f s xs) (\<lambda>s'. res_fold f s' ys)"
proof (induction xs arbitrary: s)
  case (Cons x xs)
  then show ?case by (cases "f s x") auto
qed simp

text \<open>The loop rule of \<open>res_fold\<close>: an invariant every successful step keeps holds at the end.\<close>

lemma res_fold_invariant:
  assumes "res_fold f s xs = Inr t" and "P s"
    and "\<And>s x s'. P s \<Longrightarrow> x \<in> set xs \<Longrightarrow> f s x = Inr s' \<Longrightarrow> P s'"
  shows "P t"
  using assms
proof (induction xs arbitrary: s)
  case (Cons x xs)
  from Cons.prems(1) obtain s' where s': "f s x = Inr s'" and t: "res_fold f s' xs = Inr t" by auto
  have P: "P s'" by (rule Cons.prems(3) [OF Cons.prems(2) _ s']) simp
  have step: "P u'" if "P u" "y \<in> set xs" "f u y = Inr u'" for u y u'
    by (rule Cons.prems(3) [OF that(1) _ that(3)]) (simp add: that(2))
  show ?case by (rule Cons.IH [OF t P step])
qed simp

lemma res_mapM_Inr_iff: "res_mapM f xs = Inr ys \<longleftrightarrow> list_all2 (\<lambda>x y. f x = Inr y) xs ys"
  by (induction xs arbitrary: ys) (auto simp: list_all2_Cons1)

text \<open>An \<open>UPDATE ... WHERE P\<close> that keeps \<open>P\<close> maps the selected rows and leaves the others.\<close>

lemma filter_map_update:
  "(\<And>x. P (f x) = P x) \<Longrightarrow> filter P (map (\<lambda>x. if P x then f x else x) xs) = map f (filter P xs)"
  by (induction xs) simp_all

lemma filter_map_update_other:
  "(\<And>x. P (f x) = P x) \<Longrightarrow>
     filter (\<lambda>x. \<not> P x) (map (\<lambda>x. if P x then f x else x) xs) = filter (\<lambda>x. \<not> P x) xs"
  by (induction xs) simp_all

lemma list_all2_mem2: "list_all2 P xs ys \<Longrightarrow> y \<in> set ys \<Longrightarrow> \<exists>x \<in> set xs. P x y"
  by (induction rule: list_all2_induct) auto

subsection \<open>Ordered sets as strictly sorted lists\<close>

fun btree_insert :: "'a::linorder \<Rightarrow> 'a list \<Rightarrow> 'a list" where
  "btree_insert x [] = [x]"
| "btree_insert x (y # ys) =
     (if x < y then x # y # ys else if x = y then y # ys else y # btree_insert x ys)"

definition btree_of_list :: "'a::linorder list \<Rightarrow> 'a list" where
  "btree_of_list xs = fold btree_insert xs []"

lemma set_btree_insert [simp]: "set (btree_insert x xs) = insert x (set xs)"
  by (induction xs) auto

lemma strict_sorted_btree_insert [simp]:
  "sorted_wrt (<) xs \<Longrightarrow> sorted_wrt (<) (btree_insert x xs)"
  by (induction xs) auto

lemma length_btree_insert: "length (btree_insert x xs) \<le> Suc (length xs)"
  by (induction xs) auto

lemma fold_btree_insert:
  "sorted_wrt (<) ys \<Longrightarrow>
    set (fold btree_insert xs ys) = set xs \<union> set ys \<and> sorted_wrt (<) (fold btree_insert xs ys)"
  by (induction xs arbitrary: ys) auto

lemma set_btree_of_list [simp]: "set (btree_of_list xs) = set xs"
  by (simp add: btree_of_list_def fold_btree_insert)

lemma strict_sorted_btree_of_list [simp]: "sorted_wrt (<) (btree_of_list xs)"
  by (simp add: btree_of_list_def fold_btree_insert)

lemma distinct_btree_of_list [simp]: "distinct (btree_of_list xs)"
  using strict_sorted_btree_of_list strict_sorted_iff by blast

subsection \<open>Hash maps as association lists\<close>

text \<open>\<open>map.entry(k).or_insert(d)\<close> followed by an update of the value that may fail.\<close>

fun entry_modify :: "'k \<Rightarrow> 'v \<Rightarrow> ('v \<Rightarrow> 'e + 'v) \<Rightarrow> ('k \<times> 'v) list \<Rightarrow> 'e + ('k \<times> 'v) list" where
  "entry_modify k d f [] = res_map (\<lambda>v. [(k, v)]) (f d)"
| "entry_modify k d f ((j, v) # m) =
     (if j = k then res_map (\<lambda>v'. (j, v') # m) (f v)
      else res_map (\<lambda>m'. (j, v) # m') (entry_modify k d f m))"

lemma entry_modify_spec:
  assumes "entry_modify k d f m = Inr m'" and "distinct (map fst m)"
  shows "distinct (map fst m') \<and> set (map fst m') = insert k (set (map fst m)) \<and>
    (\<exists>v'. f (case map_of m k of None \<Rightarrow> d | Some v \<Rightarrow> v) = Inr v' \<and> map_of m' = (map_of m)(k \<mapsto> v'))"
  using assms
proof (induction m arbitrary: m')
  case (Cons p m)
  obtain j v where p: "p = (j, v)" by (cases p)
  show ?case
  proof (cases "j = k")
    case False
    with Cons.prems p obtain n where n: "entry_modify k d f m = Inr n" "m' = (j, v) # n" by auto
    have "distinct (map fst m)" using Cons.prems(2) by simp
    note IH = Cons.IH [OF n(1) this]
    have "j \<notin> set (map fst m)" using Cons.prems(2) p by simp
    then have "distinct (map fst m')" using IH n(2) False by auto
    moreover have "set (map fst m') = insert k (set (map fst (p # m)))" using IH n p by auto
    moreover obtain v' where "f (case map_of m k of None \<Rightarrow> d | Some v \<Rightarrow> v) = Inr v'" "map_of n = (map_of m)(k \<mapsto> v')"
      using IH by blast
    then have "f (case map_of (p # m) k of None \<Rightarrow> d | Some v \<Rightarrow> v) = Inr v' \<and> map_of m' = (map_of (p # m))(k \<mapsto> v')"
      using n(2) p False by (simp add: fun_upd_twist)
    ultimately show ?thesis by blast
  qed (use Cons.prems p in \<open>auto simp: fun_eq_iff\<close>)
qed auto

lemma map_of_entries_distinct: "distinct (map fst m) \<Longrightarrow> set m = {(k, v). map_of m k = Some v}"
  by (auto dest: map_of_SomeD)

lemma in_set_map_filter: "y \<in> set (List.map_filter f xs) \<longleftrightarrow> (\<exists>x \<in> set xs. f x = Some y)"
  by (induction xs) (auto simp: List.map_filter_simps split: option.splits)

subsection \<open>First minimum by key\<close>

text \<open>\<open>Iterator::min_by_key\<close> returns the first of the elements whose key is least.\<close>

fun min_by_key :: "('a \<Rightarrow> 'k::linorder) \<Rightarrow> 'a list \<Rightarrow> 'a option" where
  "min_by_key k [] = None"
| "min_by_key k (x # xs) =
     (case min_by_key k xs of None \<Rightarrow> Some x | Some y \<Rightarrow> Some (if k x \<le> k y then x else y))"

lemma min_by_key_None [simp]: "min_by_key k xs = None \<longleftrightarrow> xs = []"
  by (cases xs) (auto split: option.splits)

lemma min_by_key_Some:
  "min_by_key k xs = Some x \<Longrightarrow> x \<in> set xs \<and> (\<forall>y \<in> set xs. k x \<le> k y)"
proof (induction xs arbitrary: x)
  case (Cons a xs)
  then show ?case
    by (cases "min_by_key k xs") (fastforce split: if_splits)+
qed simp

text \<open>\<open>Iterator::position\<close>.\<close>

fun position :: "('a \<Rightarrow> bool) \<Rightarrow> 'a list \<Rightarrow> nat option" where
  "position P [] = None"
| "position P (x # xs) = (if P x then Some 0 else map_option Suc (position P xs))"

lemma position_Some: "position P xs = Some i \<Longrightarrow> i < length xs \<and> P (xs ! i) \<and> (\<forall>j < i. \<not> P (xs ! j))"
proof (induction xs arbitrary: i)
  case (Cons x xs)
  then show ?case by (auto split: if_splits simp: nth_Cons split: nat.splits)
qed simp

lemma position_None: "position P xs = None \<longleftrightarrow> (\<forall>x \<in> set xs. \<not> P x)"
  by (induction xs) auto

text \<open>A join of two tables, as the SQL queries of the program have it: rows \<open>x\<close> with \<open>P x\<close> and rows \<open>y\<close> with \<open>Q x y\<close>.\<close>

lemma join_member:
  assumes "x \<in> set xs" and "P x" and "y \<in> set ys" and "Q x y"
  shows "f y \<in> set [f y. x \<leftarrow> xs, P x, y \<leftarrow> ys, Q x y]"
proof -
  have inner: "f y \<in> set [f y. y \<leftarrow> ys, Q x y]" using assms(3,4) by (induction ys) auto
  have "(if P x then concat (map (\<lambda>y. if Q x y then [f y] else []) ys) else []) \<in>
      set (map (\<lambda>x. if P x then concat (map (\<lambda>y. if Q x y then [f y] else []) ys) else []) xs)"
    using assms(1) by simp
  then show ?thesis unfolding set_concat by (rule UN_I) (simp only: assms(2) if_True inner)
qed

lemma head_option: "(case l of [] \<Rightarrow> None | h # _ \<Rightarrow> Some h) \<noteq> None \<longleftrightarrow> l \<noteq> []"
  by (cases l) auto

lemma join_nonempty: "[f y. x \<leftarrow> xs, P x, y \<leftarrow> ys, Q x y] \<noteq> [] \<longleftrightarrow> (\<exists>x \<in> set xs. P x \<and> (\<exists>y \<in> set ys. Q x y))"
proof -
  have inner: "[f y. y \<leftarrow> ys, Q x y] \<noteq> [] \<longleftrightarrow> (\<exists>y \<in> set ys. Q x y)" for x by (induction ys) auto
  show ?thesis
  proof (induction xs)
    case (Cons x xs)
    have "[f y. x \<leftarrow> x # xs, P x, y \<leftarrow> ys, Q x y] = (if P x then [f y. y \<leftarrow> ys, Q x y] else []) @ [f y. x \<leftarrow> xs, P x, y \<leftarrow> ys, Q x y]"
      by simp
    then show ?case using Cons inner [of x] by (cases "P x") (simp_all only: append_is_Nil_conv if_True if_False list.set insert_iff bex_simps, blast+)
  qed simp
qed

subsection \<open>Decimal text\<close>

definition digit_char :: "nat \<Rightarrow> char" where
  "digit_char d = char_of (48 + d)"

definition char_digit :: "char \<Rightarrow> nat" where
  "char_digit c = of_char c - 48"

text \<open>\<open>u128::to_string\<close>.\<close>

fun nat_to_string :: "nat \<Rightarrow> string" where
  "nat_to_string n =
     (if n < 10 then [digit_char n] else nat_to_string (n div 10) @ [digit_char (n mod 10)])"

declare nat_to_string.simps [simp del]

definition dec_value :: "string \<Rightarrow> nat" where
  "dec_value s = foldl (\<lambda>acc c. 10 * acc + char_digit c) 0 s"

definition int_to_string :: "int \<Rightarrow> string" where
  "int_to_string x = (if x < 0 then ''-'' @ nat_to_string (nat (- x)) else nat_to_string (nat x))"

text \<open>The \<open>Debug\<close> text of an \<open>Option<i64>\<close>.\<close>

definition debug_option_int :: "int option \<Rightarrow> string" where
  "debug_option_int v = (case v of None \<Rightarrow> ''None'' | Some x \<Rightarrow> ''Some('' @ int_to_string x @ '')'')"

lemma char_digit_digit_char [simp]: "d < 10 \<Longrightarrow> char_digit (digit_char d) = d"
  by (simp add: char_digit_def digit_char_def)

lemma dec_value_Nil [simp]: "dec_value [] = 0"
  by (simp add: dec_value_def)

lemma dec_value_snoc [simp]: "dec_value (s @ [c]) = 10 * dec_value s + char_digit c"
  by (simp add: dec_value_def)

lemma dec_value_append: "dec_value (s @ t) = dec_value s * 10 ^ length t + dec_value t"
  by (induction t rule: rev_induct) (simp_all add: algebra_simps flip: append_assoc)

lemma char_digit_zero [simp]: "char_digit (CHR ''0'') = 0"
  by (simp add: char_digit_def)

lemma dec_value_zeros [simp]: "dec_value (replicate k (CHR ''0'')) = 0"
  by (induction k) (simp_all add: replicate_append_same [symmetric])

theorem dec_value_nat_to_string [simp]: "dec_value (nat_to_string n) = n"
proof (induction n rule: nat_to_string.induct)
  case (1 n)
  show ?case
  proof (cases "n < 10")
    case True
    then show ?thesis
      using dec_value_snoc [of "[]"] by (simp add: nat_to_string.simps [of n])
  next
    case False
    with "1.IH" show ?thesis by (simp add: nat_to_string.simps [of n])
  qed
qed

lemma nat_to_string_not_Nil [simp]: "nat_to_string n \<noteq> []"
  by (subst nat_to_string.simps) simp

section \<open>State machines\<close>

text \<open>
  The interface of a component that is a state machine: its initial states, its steps, and an invariant that the initial
  states have and every step keeps. What is proved once is that the invariant holds wherever the machine can get to, and
  that a quantity no step increases is bounded by its value at the start.
\<close>

locale state_machine =
  fixes init :: "'s \<Rightarrow> bool" and step :: "'s \<Rightarrow> 's \<Rightarrow> bool" and inv :: "'s \<Rightarrow> bool"
  assumes init_inv: "init s \<Longrightarrow> inv s"
    and step_inv: "inv s \<Longrightarrow> step s t \<Longrightarrow> inv t"
begin

lemma run_inv: "step\<^sup>*\<^sup>* s t \<Longrightarrow> inv s \<Longrightarrow> inv t"
  by (induction rule: rtranclp_induct) (auto intro: step_inv)

lemma reachable_inv: "init s \<Longrightarrow> step\<^sup>*\<^sup>* s t \<Longrightarrow> inv t"
  using run_inv init_inv by blast

end

end
