(* ===== verification/Amounts.thy ===== *)
theory Amounts
  imports Prelude
begin

section \<open>Amounts and their two-column storage\<close>

text \<open>
  \<open>src/src/amounts/mod.rs\<close>, \<open>src/src/db/amount_storage.rs\<close> and the amount helpers of
  \<open>src/src/db/account_transactions/types.rs\<close>.

  An amount is a \<open>u128\<close> in the asset's smallest unit. SQLite has 64-bit integers only, so an
  amount is stored as two columns, \<open>hi * 10^18 + lo\<close>; a signed balance change is stored as a
  magnitude and a sign flag. The lemmas show that storing and loading are inverse to each other,
  which amounts do not fit, that the columns can be summed by SQL before they are decoded, and
  that the printed form denotes the amount exactly.
\<close>

subsection \<open>Amounts\<close>

datatype AmountError =
    NegativeNotAllowed int
  | ParseError string string
  | InvalidSplitHi int
  | InvalidSplitLo int int
  | Overflow

type_synonym UnsignedAmount = u128

definition try_from_i64 :: "int \<Rightarrow> AmountError + UnsignedAmount" where
  "try_from_i64 v = (if v < 0 then Inl (NegativeNotAllowed v) else Inr (word_of_int v))"

definition raw_string :: "UnsignedAmount \<Rightarrow> string" where
  "raw_string a = nat_to_string (unat a)"

definition amount_checked_add :: "UnsignedAmount \<Rightarrow> UnsignedAmount \<Rightarrow> AmountError + UnsignedAmount" where
  "amount_checked_add a b = ok_or Overflow (checked_add_u a b)"

subsection \<open>Splitting an amount\<close>

definition GLOBAL_SPLIT_DIVISOR :: int where
  "GLOBAL_SPLIT_DIVISOR = 1000000000000000000"

record AmountSplitConfig =
  divisor :: int

record AmountSplitParts =
  split_hi :: int
  split_lo :: int

definition global_split_config :: AmountSplitConfig where
  "global_split_config = \<lparr>divisor = GLOBAL_SPLIT_DIVISOR\<rparr>"

definition encode_unsigned :: "AmountSplitConfig \<Rightarrow> UnsignedAmount \<Rightarrow> AmountError + AmountSplitParts" where
  "encode_unsigned cfg amount =
     (let divisor_u128 = word_of_int (divisor cfg);
          hi_u128 = amount div divisor_u128;
          lo_u128 = amount mod divisor_u128
      in res_bind (ok_or Overflow (i64_try_from (uint hi_u128))) (\<lambda>hi.
         res_bind (ok_or Overflow (i64_try_from (uint lo_u128))) (\<lambda>lo.
         Inr \<lparr>split_hi = hi, split_lo = lo\<rparr>)))"

definition decode_unsigned :: "AmountSplitConfig \<Rightarrow> int \<Rightarrow> int \<Rightarrow> AmountError + UnsignedAmount" where
  "decode_unsigned cfg hi lo =
     (if hi < 0 then Inl (InvalidSplitHi hi)
      else if \<not> (0 \<le> lo \<and> lo < divisor cfg) then Inl (InvalidSplitLo lo (divisor cfg))
      else ok_or Overflow
        (Option.bind (checked_mul_u (word_of_int hi) (word_of_int (divisor cfg)))
          (\<lambda>base. checked_add_u base (word_of_int lo))))"

subsection \<open>Printing an amount\<close>

definition trim_end_zeros :: "string \<Rightarrow> string" where
  "trim_end_zeros s = rev (dropWhile (\<lambda>c. c = CHR ''0'') (rev s))"

definition format_unsigned_amount :: "UnsignedAmount \<Rightarrow> u8 \<Rightarrow> string" where
  "format_unsigned_amount value scale =
     (if value = 0 then ''0''
      else if scale = 0 then raw_string value
      else
        let raw = raw_string value; scale_len = unat scale in
        if length raw \<le> scale_len then
          let fraction = replicate (scale_len - length raw) (CHR ''0'') @ raw;
              trimmed_fraction = trim_end_zeros fraction
          in if trimmed_fraction = [] then ''0'' else ''0.'' @ trimmed_fraction
        else
          let split_at = length raw - scale_len;
              whole = take split_at raw;
              fraction = drop split_at raw;
              trimmed_fraction = trim_end_zeros fraction
          in if trimmed_fraction = [] then whole else whole @ ''.'' @ trimmed_fraction)"

definition format_unsigned_amount_fixed :: "UnsignedAmount \<Rightarrow> u8 \<Rightarrow> string" where
  "format_unsigned_amount_fixed value scale =
     (if scale = 0 then raw_string value
      else
        let raw = raw_string value; scale_len = unat scale in
        if length raw \<le> scale_len then
          ''0.'' @ (replicate (scale_len - length raw) (CHR ''0'') @ raw)
        else
          let split_at = length raw - scale_len
          in take split_at raw @ ''.'' @ drop split_at raw)"

fun amount_error_display :: "AmountError \<Rightarrow> string" where
  "amount_error_display (NegativeNotAllowed v) = ''amount must be non-negative, got '' @ int_to_string v"
| "amount_error_display (ParseError input reason) =
     ''failed to parse amount '' @ [CHR 0x27] @ input @ [CHR 0x27] @ '': '' @ reason"
| "amount_error_display (InvalidSplitHi hi) = ''split hi must be non-negative, got '' @ int_to_string hi"
| "amount_error_display (InvalidSplitLo lo d) =
     ''split lo must be in range [0, '' @ int_to_string d @ ''), got '' @ int_to_string lo"
| "amount_error_display Overflow = ''amount overflow''"

subsection \<open>Column storage\<close>

text \<open>A \<open>DbError\<close> made by \<open>DbError::new\<close> carries its message.\<close>

datatype DbError = DbError string

definition split_unsigned_amount_parts :: "UnsignedAmount \<Rightarrow> AmountError + AmountSplitParts" where
  "split_unsigned_amount_parts amount = encode_unsigned global_split_config amount"

definition parse_split_amount_parts :: "int \<Rightarrow> int \<Rightarrow> AmountError + UnsignedAmount" where
  "parse_split_amount_parts hi lo = decode_unsigned global_split_config hi lo"

fun parse_optional_split_amount_parts :: "int option \<Rightarrow> int option \<Rightarrow> AmountError + UnsignedAmount option" where
  "parse_optional_split_amount_parts None None = Inr None"
| "parse_optional_split_amount_parts (Some hi) (Some lo) =
     res_map Some (parse_split_amount_parts hi lo)"
| "parse_optional_split_amount_parts hi lo =
     Inl (ParseError (''hi='' @ debug_option_int hi @ '',lo='' @ debug_option_int lo)
       ''split amount parts must be both present or both absent'')"

definition normalize_split_sums :: "int \<Rightarrow> int \<Rightarrow> AmountError + AmountSplitParts" where
  "normalize_split_sums hi_sum lo_sum =
     (if hi_sum < 0 then Inl (InvalidSplitHi hi_sum)
      else if lo_sum < 0 then Inl (InvalidSplitLo lo_sum GLOBAL_SPLIT_DIVISOR)
      else
        let carry = lo_sum div GLOBAL_SPLIT_DIVISOR in
        res_bind (ok_or Overflow (checked_add_i128 hi_sum carry)) (\<lambda>normalized_hi.
        let normalized_lo = lo_sum mod GLOBAL_SPLIT_DIVISOR in
        res_bind (ok_or Overflow (i64_try_from normalized_hi)) (\<lambda>hi.
        res_bind (ok_or Overflow (i64_try_from normalized_lo)) (\<lambda>lo.
        Inr \<lparr>split_hi = hi, split_lo = lo\<rparr>))))"

definition parse_split_sum :: "int \<Rightarrow> int \<Rightarrow> AmountError + UnsignedAmount" where
  "parse_split_sum hi_sum lo_sum =
     res_bind (normalize_split_sums hi_sum lo_sum) (\<lambda>normalized.
       parse_split_amount_parts (split_hi normalized) (split_lo normalized))"

definition split_unsigned_amount :: "UnsignedAmount \<Rightarrow> string \<Rightarrow> DbError + AmountSplitParts" where
  "split_unsigned_amount amount field_name =
     map_err (\<lambda>err. DbError (''Failed to split '' @ field_name @ '': '' @ amount_error_display err))
       (split_unsigned_amount_parts amount)"

definition parse_split_amount :: "int \<Rightarrow> int \<Rightarrow> string \<Rightarrow> DbError + UnsignedAmount" where
  "parse_split_amount hi lo field_name =
     map_err (\<lambda>err. DbError (''Invalid '' @ field_name @ '' split amount from DB: '' @ amount_error_display err))
       (parse_split_amount_parts hi lo)"

definition parse_optional_split_amount :: "int option \<Rightarrow> int option \<Rightarrow> string \<Rightarrow> DbError + UnsignedAmount option" where
  "parse_optional_split_amount hi lo field_name =
     map_err (\<lambda>err. DbError (''Invalid '' @ field_name @ '' split amount from DB: '' @ amount_error_display err))
       (parse_optional_split_amount_parts hi lo)"

definition parse_split_sum_amount :: "int \<Rightarrow> int \<Rightarrow> string \<Rightarrow> DbError + UnsignedAmount" where
  "parse_split_sum_amount hi_sum lo_sum field_name =
     map_err (\<lambda>err. DbError (''Invalid '' @ field_name @ '' split sum from DB: '' @ amount_error_display err))
       (parse_split_sum hi_sum lo_sum)"

subsection \<open>Signed balance changes\<close>

definition to_signed_amount :: "UnsignedAmount \<Rightarrow> string \<Rightarrow> DbError + int" where
  "to_signed_amount value field_name =
     ok_or (DbError (''Amount '' @ field_name @ '' exceeds i128 range'')) (i128_try_from (uint value))"

text \<open>The magnitude of an \<open>i128\<close>, \<open>i128::unsigned_abs\<close>, is a \<open>u128\<close> also for \<open>i128::MIN\<close>.\<close>

definition split_signed_balance_delta :: "int \<Rightarrow> DbError + AmountSplitParts \<times> bool" where
  "split_signed_balance_delta delta =
     (let negative = delta < 0;
          magnitude = word_of_int \<bar>delta\<bar> :: u128
      in res_bind (split_unsigned_amount magnitude ''balance_delta'') (\<lambda>parts.
         Inr (parts, negative)))"

definition signed_balance_delta_from_split :: "int \<Rightarrow> int \<Rightarrow> bool \<Rightarrow> DbError + int" where
  "signed_balance_delta_from_split hi lo negative =
     res_bind (parse_split_amount hi lo ''balance_delta'') (\<lambda>magnitude.
       if negative \<and> uint magnitude = 2 ^ 127 then Inr (- (2 ^ 127))
       else res_bind
         (ok_or (DbError ''balance_delta magnitude exceeds i128 range'') (i128_try_from (uint magnitude)))
         (\<lambda>as_i128. Inr (if negative then - as_i128 else as_i128)))"

definition apply_signed_delta :: "int \<Rightarrow> int \<Rightarrow> string \<Rightarrow> DbError + int" where
  "apply_signed_delta running_total delta field_name =
     ok_or (DbError (''Signed overflow while updating '' @ field_name)) (checked_add_i128 running_total delta)"

definition non_negative_signed_to_unsigned :: "int \<Rightarrow> DbError + UnsignedAmount" where
  "non_negative_signed_to_unsigned v =
     (if v \<le> 0 then Inr 0
      else ok_or (DbError ''Failed to convert signed amount'') (u128_try_from v))"

definition add_amount :: "UnsignedAmount \<Rightarrow> UnsignedAmount \<Rightarrow> string \<Rightarrow> DbError + UnsignedAmount" where
  "add_amount accumulator value field_name =
     map_err (\<lambda>err. DbError (''Overflow while summing '' @ field_name @ '': '' @ amount_error_display err))
       (amount_checked_add accumulator value)"

subsection \<open>Storing and loading\<close>

lemma uint_split_divisor [simp]: "uint (word_of_int GLOBAL_SPLIT_DIVISOR :: u128) = GLOBAL_SPLIT_DIVISOR"
  by (simp add: GLOBAL_SPLIT_DIVISOR_def)

lemma split_quotient_nonneg: "0 \<le> uint (a :: u128) div GLOBAL_SPLIT_DIVISOR"
  by (simp add: GLOBAL_SPLIT_DIVISOR_def pos_imp_zdiv_nonneg_iff)

lemma split_remainder_i64: "in_i64 (x mod GLOBAL_SPLIT_DIVISOR)"
proof -
  have "x mod GLOBAL_SPLIT_DIVISOR < 2 ^ 63"
    by (rule less_le_trans [OF pos_mod_bound]) (simp_all add: GLOBAL_SPLIT_DIVISOR_def)
  moreover have "- (2 ^ 63) \<le> x mod GLOBAL_SPLIT_DIVISOR"
    by (rule order_trans [OF _ pos_mod_sign]) (simp_all add: GLOBAL_SPLIT_DIVISOR_def)
  ultimately show ?thesis by (simp add: in_i64_def)
qed

lemma encode_global:
  "encode_unsigned global_split_config a = Inr p \<longleftrightarrow>
     uint a < 2 ^ 63 * GLOBAL_SPLIT_DIVISOR \<and>
     p = \<lparr>split_hi = uint a div GLOBAL_SPLIT_DIVISOR, split_lo = uint a mod GLOBAL_SPLIT_DIVISOR\<rparr>"
proof -
  have hi: "in_i64 (uint a div GLOBAL_SPLIT_DIVISOR) \<longleftrightarrow> uint a < 2 ^ 63 * GLOBAL_SPLIT_DIVISOR"
    using split_quotient_nonneg [of a] by (auto simp: rust_int GLOBAL_SPLIT_DIVISOR_def)
  show ?thesis
    using hi split_remainder_i64
    by (auto simp: encode_unsigned_def global_split_config_def Let_def uint_div uint_mod)
qed

lemma decode_global:
  assumes "in_i64 hi"
  shows "decode_unsigned global_split_config hi lo = Inr a \<longleftrightarrow>
     0 \<le> hi \<and> 0 \<le> lo \<and> lo < GLOBAL_SPLIT_DIVISOR \<and> uint a = hi * GLOBAL_SPLIT_DIVISOR + lo"
proof (cases "0 \<le> hi \<and> 0 \<le> lo \<and> lo < GLOBAL_SPLIT_DIVISOR")
  case True
  have small: "hi < 2 ^ 128" "lo < 2 ^ 128" "hi * GLOBAL_SPLIT_DIVISOR + lo < 2 ^ 128"
    using True assms by (auto simp: rust_int GLOBAL_SPLIT_DIVISOR_def)
  have u: "unat (word_of_int hi :: u128) = nat hi" "unat (word_of_int lo :: u128) = nat lo"
    using True small by (simp_all add: unat_u128_of_int)
  have d: "unat (word_of_int GLOBAL_SPLIT_DIVISOR :: u128) = nat GLOBAL_SPLIT_DIVISOR"
    by (simp add: unat_u128_of_int GLOBAL_SPLIT_DIVISOR_def)
  have mul: "nat hi * nat GLOBAL_SPLIT_DIVISOR < 2 ^ 128"
  proof -
    have "nat hi * nat GLOBAL_SPLIT_DIVISOR = nat (hi * GLOBAL_SPLIT_DIVISOR)"
      using True by (simp add: nat_mult_distrib)
    moreover have "hi * GLOBAL_SPLIT_DIVISOR < 2 ^ 128" using True small(3) by linarith
    ultimately show ?thesis by simp
  qed
  then have prod: "unat (word_of_int hi * word_of_int GLOBAL_SPLIT_DIVISOR :: u128) =
      nat hi * nat GLOBAL_SPLIT_DIVISOR"
    by (simp add: unat_mul_no_overflow u d)
  have "decode_unsigned global_split_config hi lo = Inr a \<longleftrightarrow>
      unat a = nat hi * nat GLOBAL_SPLIT_DIVISOR + nat lo"
    using True mul by (simp add: decode_unsigned_def global_split_config_def checked_mul_u_def u d prod)
  also have "\<dots> \<longleftrightarrow> uint a = hi * GLOBAL_SPLIT_DIVISOR + lo"
  proof -
    have "0 \<le> hi * GLOBAL_SPLIT_DIVISOR + lo" using True by (simp add: GLOBAL_SPLIT_DIVISOR_def)
    moreover have "nat hi * nat GLOBAL_SPLIT_DIVISOR + nat lo = nat (hi * GLOBAL_SPLIT_DIVISOR + lo)"
      using True by (simp add: nat_add_distrib nat_mult_distrib GLOBAL_SPLIT_DIVISOR_def)
    ultimately show ?thesis by (simp add: unat_eq_nat_iff)
  qed
  finally show ?thesis using True by simp
qed (auto simp: decode_unsigned_def global_split_config_def)

lemma parse_split_iff:
  assumes "in_i64 hi"
  shows "parse_split_amount hi lo g = Inr a \<longleftrightarrow> split_unsigned_amount a f = Inr \<lparr>split_hi = hi, split_lo = lo\<rparr>"
proof -
  have "(0 \<le> hi \<and> 0 \<le> lo \<and> lo < GLOBAL_SPLIT_DIVISOR \<and> uint a = hi * GLOBAL_SPLIT_DIVISOR + lo) \<longleftrightarrow>
      (uint a < 2 ^ 63 * GLOBAL_SPLIT_DIVISOR \<and> hi = uint a div GLOBAL_SPLIT_DIVISOR \<and> lo = uint a mod GLOBAL_SPLIT_DIVISOR)"
    using assms split_quotient_nonneg [of a] by (auto simp: rust_int GLOBAL_SPLIT_DIVISOR_def)
  then show ?thesis
    by (simp add: parse_split_amount_def parse_split_amount_parts_def split_unsigned_amount_def
        split_unsigned_amount_parts_def decode_global [OF assms] encode_global)
qed

lemma parse_split_amount_value:
  assumes "in_i64 hi" "0 \<le> hi" "0 \<le> lo" "lo < 1000000000000000000"
  shows "parse_split_amount hi lo f = Inr (word_of_int (hi * 1000000000000000000 + lo))"
proof -
  have "uint (word_of_int (hi * 1000000000000000000 + lo) :: u128) = hi * 1000000000000000000 + lo"
    using assms by (intro uint_u128_of_int) (auto simp: rust_int)
  then show ?thesis
    using assms by (simp add: parse_split_amount_def parse_split_amount_parts_def decode_global GLOBAL_SPLIT_DIVISOR_def)
qed

lemma parse_optional_split_amount_Some:
  "parse_optional_split_amount (Some hi) (Some lo) f = res_map Some (parse_split_amount hi lo f)"
  by (cases "parse_split_amount_parts hi lo") (simp_all add: parse_optional_split_amount_def parse_split_amount_def)

lemma parse_optional_split_amount_None [simp]: "parse_optional_split_amount None None f = Inr None"
  by (simp add: parse_optional_split_amount_def)

text \<open>
  Loading is the inverse of storing: for every pair of 64-bit columns, the pair decodes to the
  amount \<open>a\<close> exactly when \<open>a\<close> encodes to that pair. So every stored amount loads back as itself, and no
  two pairs of columns hold the same amount.
\<close>

theorem parse_split_amount_inverse:
  assumes "in_i64 hi"
  shows "parse_split_amount hi lo g = Inr a \<longleftrightarrow>
    split_unsigned_amount a f = Inr \<lparr>split_hi = hi, split_lo = lo\<rparr>"
  using assms by (rule parse_split_iff)

theorem parse_split_amount_inverse_witness:
  "in_i64 1 \<and> parse_split_amount 1 5 ''v'' = Inr 1000000000000000005"
proof -
  have h: "in_i64 1" by (simp add: in_i64_def)
  have "split_unsigned_amount 1000000000000000005 ''w'' = Inr \<lparr>split_hi = 1, split_lo = 5\<rparr>"
    by (simp add: split_unsigned_amount_def split_unsigned_amount_parts_def encode_global GLOBAL_SPLIT_DIVISOR_def)
  with h parse_split_amount_inverse [OF h, of 5 "''v''" 1000000000000000005 "''w''"] show ?thesis by simp
qed

lemma split_unsigned_amount_cases:
  "case split_unsigned_amount a f of
     Inr p \<Rightarrow> uint a < 2 ^ 63 * 10 ^ 18 \<and> in_i64 (split_hi p) \<and> 0 \<le> split_hi p \<and>
       0 \<le> split_lo p \<and> split_lo p < 10 ^ 18 \<and> uint a = split_hi p * 10 ^ 18 + split_lo p
   | Inl e \<Rightarrow> 2 ^ 63 * 10 ^ 18 \<le> uint a \<and> e = DbError (''Failed to split '' @ f @ '': amount overflow'')"
proof (cases "uint a < 2 ^ 63 * GLOBAL_SPLIT_DIVISOR")
  case True
  have "in_i64 (uint a div GLOBAL_SPLIT_DIVISOR)"
    using True split_quotient_nonneg [of a] by (auto simp: rust_int GLOBAL_SPLIT_DIVISOR_def)
  with True split_quotient_nonneg [of a] show ?thesis
    by (simp add: split_unsigned_amount_def split_unsigned_amount_parts_def
        encode_global [THEN iffD2, OF conjI [OF True refl]] GLOBAL_SPLIT_DIVISOR_def)
next
  case False
  then have "\<not> in_i64 (uint a div GLOBAL_SPLIT_DIVISOR)"
    by (auto simp: rust_int GLOBAL_SPLIT_DIVISOR_def)
  then have "encode_unsigned global_split_config a = Inl Overflow"
    by (simp add: encode_unsigned_def global_split_config_def Let_def uint_div i64_try_from_def)
  with False show ?thesis
    by (simp add: split_unsigned_amount_def split_unsigned_amount_parts_def GLOBAL_SPLIT_DIVISOR_def)
qed

text \<open>
  Which amounts can be stored: encoding succeeds exactly below \<open>2^63 * 10^18\<close>, and both columns
  are then valid 64-bit values with a non-negative \<open>lo\<close> below the divisor. Larger \<open>u128\<close> amounts are
  refused with an error, never truncated.
\<close>

theorem split_unsigned_amount_range:
  "case split_unsigned_amount a f of
     Inr p \<Rightarrow> uint a < 2 ^ 63 * 10 ^ 18 \<and> in_i64 (split_hi p) \<and> 0 \<le> split_hi p \<and>
       0 \<le> split_lo p \<and> split_lo p < 10 ^ 18 \<and> uint a = split_hi p * 10 ^ 18 + split_lo p
   | Inl e \<Rightarrow> 2 ^ 63 * 10 ^ 18 \<le> uint a \<and> e = DbError (''Failed to split '' @ f @ '': amount overflow'')"
  by (rule split_unsigned_amount_cases)

subsection \<open>Summing columns\<close>

lemma parse_split_sum_value:
  assumes "in_i64 hi_sum" "0 \<le> hi_sum" "in_i64 lo_sum" "0 \<le> lo_sum"
  shows "parse_split_sum hi_sum lo_sum =
    (if hi_sum * GLOBAL_SPLIT_DIVISOR + lo_sum < 2 ^ 63 * GLOBAL_SPLIT_DIVISOR
     then Inr (word_of_int (hi_sum * GLOBAL_SPLIT_DIVISOR + lo_sum)) else Inl Overflow)"
proof -
  let ?q = "lo_sum div GLOBAL_SPLIT_DIVISOR" and ?r = "lo_sum mod GLOBAL_SPLIT_DIVISOR"
  let ?v = "hi_sum * GLOBAL_SPLIT_DIVISOR + lo_sum"
  have v: "?v = (hi_sum + ?q) * GLOBAL_SPLIT_DIVISOR + ?r" by (simp add: algebra_simps)
  have q0: "0 \<le> ?q" using assms by (simp add: GLOBAL_SPLIT_DIVISOR_def pos_imp_zdiv_nonneg_iff)
  have r: "0 \<le> ?r" "?r < GLOBAL_SPLIT_DIVISOR" by (simp_all add: GLOBAL_SPLIT_DIVISOR_def)
  have "?q \<le> ?q * GLOBAL_SPLIT_DIVISOR" using q0 by (simp add: GLOBAL_SPLIT_DIVISOR_def)
  moreover have "?q * GLOBAL_SPLIT_DIVISOR + ?r = lo_sum" by simp
  ultimately have q: "0 \<le> ?q" "?q \<le> lo_sum" using q0 r by linarith+
  have "in_i128 (hi_sum + ?q)" using assms q by (simp add: rust_int)
  moreover have "in_i64 (hi_sum + ?q) \<longleftrightarrow> ?v < 2 ^ 63 * GLOBAL_SPLIT_DIVISOR"
    using assms q r unfolding v by (auto simp: rust_int GLOBAL_SPLIT_DIVISOR_def)
  moreover have "in_i64 ?r" by (rule split_remainder_i64)
  moreover have "decode_unsigned global_split_config (hi_sum + ?q) ?r = Inr (word_of_int ?v)"
    if "?v < 2 ^ 63 * GLOBAL_SPLIT_DIVISOR" "in_i64 (hi_sum + ?q)"
  proof -
    have "uint (word_of_int ?v :: u128) = ?v"
      using that(1) assms by (intro uint_u128_of_int) (simp_all add: GLOBAL_SPLIT_DIVISOR_def)
    with v q r assms show ?thesis by (simp add: decode_global [OF that(2)])
  qed
  ultimately show ?thesis
    using assms
    by (auto simp: parse_split_sum_def normalize_split_sums_def parse_split_amount_parts_def Let_def
        checked_add_i128_def i128_try_from_def i64_try_from_def)
qed

lemma parse_split_sum_amount_exact:
  assumes "in_i64 hi_sum" "in_i64 lo_sum" "parse_split_sum_amount hi_sum lo_sum f = Inr a"
  shows "uint a = hi_sum * 10 ^ 18 + lo_sum"
proof -
  from assms(3) have p: "parse_split_sum hi_sum lo_sum = Inr a" by (simp add: parse_split_sum_amount_def)
  then have nn: "0 \<le> hi_sum" "0 \<le> lo_sum"
    by (auto simp: parse_split_sum_def normalize_split_sums_def split: if_splits)
  have a: "a = word_of_int (hi_sum * GLOBAL_SPLIT_DIVISOR + lo_sum)"
    and lt: "hi_sum * GLOBAL_SPLIT_DIVISOR + lo_sum < 2 ^ 63 * GLOBAL_SPLIT_DIVISOR"
    using p parse_split_sum_value [OF assms(1) nn(1) assms(2) nn(2)] by (auto split: if_splits)
  have "uint a = hi_sum * GLOBAL_SPLIT_DIVISOR + lo_sum"
    unfolding a using nn lt by (intro uint_u128_of_int) (simp_all add: GLOBAL_SPLIT_DIVISOR_def)
  then show ?thesis by (simp add: GLOBAL_SPLIT_DIVISOR_def)
qed

lemma list_all2_split_sums:
  assumes "list_all2 (\<lambda>a p. split_unsigned_amount a f = Inr p) as ps"
  shows "sum_list (map uint as) =
      sum_list (map split_hi ps) * GLOBAL_SPLIT_DIVISOR + sum_list (map split_lo ps) \<and>
    0 \<le> sum_list (map split_hi ps) \<and> 0 \<le> sum_list (map split_lo ps)"
  using assms
proof (induction rule: list_all2_induct)
  case (Cons a as p ps)
  then have "uint a = split_hi p * GLOBAL_SPLIT_DIVISOR + split_lo p \<and> 0 \<le> split_hi p \<and> 0 \<le> split_lo p"
    using split_quotient_nonneg [of a]
    by (simp add: split_unsigned_amount_def split_unsigned_amount_parts_def encode_global)
       (simp add: GLOBAL_SPLIT_DIVISOR_def)
  with Cons show ?case by (simp add: algebra_simps)
qed simp

text \<open>
  Summing in SQL before decoding is sound: when amounts are stored in two columns, and the sums of
  the \<open>hi\<close> column and of the \<open>lo\<close> column stay in 64 bits, decoding the two sums gives the sum of the
  amounts, or an overflow error exactly when that sum is too large to be stored.
\<close>

theorem parse_split_sum_amount_of_columns:
  assumes "list_all2 (\<lambda>a p. split_unsigned_amount a f = Inr p) as ps"
    and "in_i64 (sum_list (map split_hi ps))" and "in_i64 (sum_list (map split_lo ps))"
  shows "parse_split_sum_amount (sum_list (map split_hi ps)) (sum_list (map split_lo ps)) g =
    (if sum_list (map uint as) < 2 ^ 63 * 10 ^ 18 then Inr (word_of_int (sum_list (map uint as)))
     else Inl (DbError (''Invalid '' @ g @ '' split sum from DB: amount overflow'')))"
proof -
  note sums = list_all2_split_sums [OF assms(1)]
  show ?thesis
    using sums by (simp add: parse_split_sum_amount_def parse_split_sum_value assms(2,3) GLOBAL_SPLIT_DIVISOR_def)
qed

theorem parse_split_sum_amount_of_columns_witness:
  "parse_split_sum_amount 1 1800000000000000000 ''total'' = Inr 2800000000000000000"
proof -
  let ?as = "[900000000000000000, 1900000000000000000 :: u128]"
  let ?ps = "[\<lparr>split_hi = 0, split_lo = 900000000000000000\<rparr>, \<lparr>split_hi = 1, split_lo = 900000000000000000\<rparr>]"
  have "list_all2 (\<lambda>a p. split_unsigned_amount a ''v'' = Inr p) ?as ?ps"
    by (simp add: split_unsigned_amount_def split_unsigned_amount_parts_def encode_global GLOBAL_SPLIT_DIVISOR_def)
  moreover have "in_i64 (sum_list (map split_hi ?ps))" "in_i64 (sum_list (map split_lo ?ps))"
    by (simp_all add: in_i64_def)
  ultimately show ?thesis
    using parse_split_sum_amount_of_columns [of "''v''" ?as ?ps "''total''"] by simp
qed

lemma signed_balance_delta_stored:
  assumes "in_i128 delta" and "split_signed_balance_delta delta = Inr (p, negative)"
  shows "signed_balance_delta_from_split (split_hi p) (split_lo p) negative = Inr delta \<and>
    (negative \<longleftrightarrow> delta < 0)"
proof -
  have mag: "uint (word_of_int \<bar>delta\<bar> :: u128) = \<bar>delta\<bar>"
    using assms(1) by (intro uint_u128_of_int) (auto simp: rust_int)
  from assms(2) have split: "split_unsigned_amount (word_of_int \<bar>delta\<bar>) ''balance_delta'' = Inr p"
    and neg: "negative \<longleftrightarrow> delta < 0"
    by (auto simp: split_signed_balance_delta_def Let_def)
  from split_unsigned_amount_cases [of "word_of_int \<bar>delta\<bar>" "''balance_delta''"] split mag
  have hi: "in_i64 (split_hi p)" and small: "\<bar>delta\<bar> < 2 ^ 63 * 10 ^ 18" by simp_all
  from parse_split_iff [OF hi, of "split_lo p" "''balance_delta''" _ "''balance_delta''"] split
  have "parse_split_amount (split_hi p) (split_lo p) ''balance_delta'' = Inr (word_of_int \<bar>delta\<bar>)"
    by simp
  then show ?thesis
    using mag small neg by (auto simp: signed_balance_delta_from_split_def i128_try_from_def in_i128_def)
qed

text \<open>
  A signed balance change that can be stored is read back unchanged, sign included, and zero is
  never stored as negative.
\<close>

theorem signed_balance_delta_roundtrip:
  assumes "in_i128 delta" and "split_signed_balance_delta delta = Inr (p, negative)"
  shows "signed_balance_delta_from_split (split_hi p) (split_lo p) negative = Inr delta \<and>
    (negative \<longleftrightarrow> delta < 0)"
  by (rule signed_balance_delta_stored [OF assms])

theorem signed_balance_delta_roundtrip_witness:
  "signed_balance_delta_from_split 0 888 True = Inr (- 888)"
proof -
  have "split_signed_balance_delta (- 888) = Inr (\<lparr>split_hi = 0, split_lo = 888\<rparr>, True)"
    by (simp add: split_signed_balance_delta_def split_unsigned_amount_def split_unsigned_amount_parts_def
        encode_global GLOBAL_SPLIT_DIVISOR_def)
  then show ?thesis
    using signed_balance_delta_roundtrip [of "- 888"] by (simp add: in_i128_def)
qed

subsection \<open>Printed amounts denote the amount\<close>

lemma dec_value_take_drop:
  assumes "k \<le> length s"
  shows "dec_value (take (length s - k) s) * 10 ^ k + dec_value (drop (length s - k) s) = dec_value s"
  using assms dec_value_append [of "take (length s - k) s" "drop (length s - k) s"] by simp

lemma trim_end_zeros_split: "\<exists>n. s = trim_end_zeros s @ replicate n (CHR ''0'')"
proof -
  let ?z = "\<lambda>c. c = CHR ''0''"
  have "rev s = takeWhile ?z (rev s) @ dropWhile ?z (rev s)" by simp
  then have s: "s = rev (dropWhile ?z (rev s)) @ rev (takeWhile ?z (rev s))"
    by (metis rev_append rev_rev_ident)
  have "replicate (length (takeWhile ?z (rev s))) (CHR ''0'') = takeWhile ?z (rev s)"
    by (rule replicate_length_same) (auto dest: set_takeWhileD)
  then have "rev (takeWhile ?z (rev s)) = replicate (length (takeWhile ?z (rev s))) (CHR ''0'')"
    by (metis rev_replicate)
  with s show ?thesis unfolding trim_end_zeros_def by metis
qed

lemma last_trim_end_zeros: "trim_end_zeros s \<noteq> [] \<Longrightarrow> last (trim_end_zeros s) \<noteq> CHR ''0''"
  using hd_dropWhile [of "\<lambda>c. c = CHR ''0''" "rev s"]
  by (simp add: trim_end_zeros_def last_rev del: dropWhile_eq_Nil_conv)

lemma dec_value_trim_end_zeros:
  "length (trim_end_zeros s) \<le> length s \<and>
   dec_value (trim_end_zeros s) * 10 ^ (length s - length (trim_end_zeros s)) = dec_value s"
proof -
  obtain n where n: "s = trim_end_zeros s @ replicate n (CHR ''0'')" using trim_end_zeros_split by blast
  then have len: "length s = length (trim_end_zeros s) + n" by (metis length_append length_replicate)
  have "dec_value s = dec_value (trim_end_zeros s @ replicate n (CHR ''0''))" using n by simp
  also have "\<dots> = dec_value (trim_end_zeros s) * 10 ^ n" by (simp add: dec_value_append)
  finally show ?thesis using len by simp
qed

text \<open>
  The fixed-scale text of an amount has exactly \<open>scale\<close> digits after the point, and whole part and
  fraction together denote the amount: nothing is rounded or lost.
\<close>

theorem format_unsigned_amount_fixed_exact:
  assumes "scale \<noteq> 0"
  shows "\<exists>whole fraction. format_unsigned_amount_fixed a scale = whole @ ''.'' @ fraction \<and>
    whole \<noteq> [] \<and> length fraction = unat scale \<and>
    dec_value whole * 10 ^ unat scale + dec_value fraction = unat a"
    (is "\<exists>whole fraction. ?P whole fraction")
proof (cases "length (raw_string a) \<le> unat scale")
  case True
  let ?f = "replicate (unat scale - length (raw_string a)) (CHR ''0'') @ raw_string a"
  have "format_unsigned_amount_fixed a scale = ''0'' @ ''.'' @ ?f"
    using assms True by (simp add: format_unsigned_amount_fixed_def Let_def)
  moreover have "dec_value ''0'' = 0" using dec_value_snoc [of "[]" "CHR ''0''"] by simp
  moreover have "dec_value ?f = unat a" by (simp add: dec_value_append raw_string_def)
  ultimately have "?P ''0'' ?f" using True by simp
  then show ?thesis by blast
next
  case False
  let ?w = "take (length (raw_string a) - unat scale) (raw_string a)"
  let ?f = "drop (length (raw_string a) - unat scale) (raw_string a)"
  have "format_unsigned_amount_fixed a scale = ?w @ ''.'' @ ?f"
    using assms False by (simp add: format_unsigned_amount_fixed_def Let_def)
  moreover have "dec_value ?w * 10 ^ unat scale + dec_value ?f = unat a"
    using False dec_value_take_drop [of "unat scale" "raw_string a"] by (simp add: raw_string_def)
  ultimately have "?P ?w ?f" using False by (simp add: raw_string_def)
  then show ?thesis by blast
qed

theorem format_unsigned_amount_fixed_exact_witness:
  "\<exists>whole fraction. format_unsigned_amount_fixed 10 8 = whole @ ''.'' @ fraction \<and>
    whole \<noteq> [] \<and> length fraction = 8 \<and> dec_value whole * 10 ^ 8 + dec_value fraction = 10"
  using format_unsigned_amount_fixed_exact [of 8 10] by simp

text \<open>
  The trimmed text of an amount denotes it exactly and is canonical: at most \<open>scale\<close> digits after
  the point, no point without digits after it, and no trailing zero in the fraction.
\<close>

theorem format_unsigned_amount_exact:
  "\<exists>whole fraction. format_unsigned_amount a scale = whole @ (if fraction = [] then [] else ''.'' @ fraction) \<and>
    whole \<noteq> [] \<and> length fraction \<le> unat scale \<and> (fraction = [] \<or> last fraction \<noteq> CHR ''0'') \<and>
    dec_value whole * 10 ^ unat scale + dec_value fraction * 10 ^ (unat scale - length fraction) = unat a"
    (is "\<exists>whole fraction. ?P whole fraction")
proof -
  have z: "dec_value ''0'' = 0" using dec_value_snoc [of "[]" "CHR ''0''"] by simp
  let ?raw = "raw_string a" and ?k = "unat scale"
  consider "a = 0" | "a \<noteq> 0" "scale = 0" | "a \<noteq> 0" "scale \<noteq> 0" "length ?raw \<le> ?k"
    | "a \<noteq> 0" "scale \<noteq> 0" "?k < length ?raw" by linarith
  then show ?thesis
  proof cases
    case 1
    then have "?P ''0'' []" by (simp add: format_unsigned_amount_def z)
    then show ?thesis by blast
  next
    case 2
    then have "?P ?raw []" by (simp add: format_unsigned_amount_def raw_string_def)
    then show ?thesis by blast
  next
    case 3
    let ?f = "replicate (?k - length ?raw) (CHR ''0'') @ ?raw"
    have len: "length ?f = ?k" using 3 by simp
    have val: "dec_value ?f = unat a" by (simp add: dec_value_append raw_string_def)
    have "?P ''0'' (trim_end_zeros ?f)"
      using 3 len val dec_value_trim_end_zeros [of ?f] last_trim_end_zeros [of ?f]
      by (auto simp: format_unsigned_amount_def Let_def z)
    then show ?thesis by blast
  next
    case 4
    let ?w = "take (length ?raw - ?k) ?raw" and ?f = "drop (length ?raw - ?k) ?raw"
    have len: "length ?f = ?k" using 4 by simp
    have val: "dec_value ?w * 10 ^ ?k + dec_value ?f = unat a"
      using 4 dec_value_take_drop [of ?k ?raw] by (simp add: raw_string_def)
    have "?P ?w (trim_end_zeros ?f)"
      using 4 len val dec_value_trim_end_zeros [of ?f] last_trim_end_zeros [of ?f]
      by (auto simp: format_unsigned_amount_def Let_def)
    then show ?thesis by blast
  qed
qed

theorem format_unsigned_amount_exact_witness:
  "\<exists>whole fraction. format_unsigned_amount 150 8 = whole @ (if fraction = [] then [] else ''.'' @ fraction) \<and>
    length fraction \<le> 8 \<and> dec_value whole * 10 ^ 8 + dec_value fraction * 10 ^ (8 - length fraction) = 150"
proof -
  have "unat (8 :: u8) = 8" "unat (150 :: u128) = 150" by simp_all
  with format_unsigned_amount_exact [of 150 8] show ?thesis by metis
qed

end
