(* ===== verification/Domain.thy ===== *)
theory Domain
  imports Amounts
begin

section \<open>Shared domain types\<close>

text \<open>
  The identifiers, enumerations and validated values the other components exchange:
  \<open>src/src/wallets/primitives.rs\<close> (assets, networks, account kinds),
  \<open>src/src/account_model.rs\<close> and \<open>src/src/asset_capabilities/mod.rs\<close> (which bookkeeping model an
  asset uses), \<open>src/src/transactions/types.rs\<close> (addresses, transaction hashes, statuses, heights,
  counts, error messages), \<open>src/src/transactions/sync_state.rs\<close> and the balance states of
  \<open>src/src/transactions/balance.rs\<close>.

  Identifiers (\<open>Ulid\<close> newtypes) are the strings the database stores. The theorems: a parsed
  transaction hash is canonical and parsing it again changes nothing, the database spellings of
  the enumerations are read back as what was written, totals over addresses and accounts are exact
  and never understate an unknown balance.
\<close>

type_synonym ulid = string

subsection \<open>Assets, networks and account models\<close>

datatype SyncedAssetId = Bitcoin | Ethereum

fun asset_as_str :: "SyncedAssetId \<Rightarrow> string" where
  "asset_as_str Bitcoin = ''bitcoin''"
| "asset_as_str Ethereum = ''ethereum''"

definition asset_from_str :: "string \<Rightarrow> SyncedAssetId option" where
  "asset_from_str v =
     (if v = ''bitcoin'' then Some Bitcoin else if v = ''ethereum'' then Some Ethereum else None)"

datatype Network = Mainnet | Testnet | Signet | Regtest

fun network_as_str :: "Network \<Rightarrow> string" where
  "network_as_str Mainnet = ''mainnet''"
| "network_as_str Testnet = ''testnet''"
| "network_as_str Signet = ''signet''"
| "network_as_str Regtest = ''regtest''"

definition network_from_str :: "string \<Rightarrow> Network option" where
  "network_from_str v =
     (if v = ''mainnet'' then Some Mainnet else if v = ''testnet'' then Some Testnet
      else if v = ''signet'' then Some Signet else if v = ''regtest'' then Some Regtest else None)"

datatype AccountKind = HdPubkey | SingleAddress

fun account_kind_as_str :: "AccountKind \<Rightarrow> string" where
  "account_kind_as_str HdPubkey = ''hd_pubkey''"
| "account_kind_as_str SingleAddress = ''single_address''"

definition account_kind_from_str :: "string \<Rightarrow> AccountKind option" where
  "account_kind_from_str v =
     (if v = ''hd_pubkey'' then Some HdPubkey
      else if v = ''single_address'' then Some SingleAddress else None)"

datatype AccountModel = Utxo | Account

datatype LedgerModel = LmUtxo | LmExtendedUtxo | LmAccount | LmSolanaAccount | LmXrpLedger

fun ledger_account_model :: "LedgerModel \<Rightarrow> AccountModel" where
  "ledger_account_model LmUtxo = Utxo"
| "ledger_account_model LmExtendedUtxo = Utxo"
| "ledger_account_model LmAccount = Account"
| "ledger_account_model LmSolanaAccount = Account"
| "ledger_account_model LmXrpLedger = Account"

text \<open>The two synced assets live on the networks \<open>BITCOIN_MAINNET_NETWORK\<close> and
  \<open>ETHEREUM_MAINNET_NETWORK\<close>; the ledger models of those two networks decide.\<close>

fun synced_network_ledger_model :: "SyncedAssetId \<Rightarrow> LedgerModel" where
  "synced_network_ledger_model Bitcoin = LmUtxo"
| "synced_network_ledger_model Ethereum = LmAccount"

definition account_model_for :: "SyncedAssetId \<Rightarrow> AccountModel" where
  "account_model_for a = ledger_account_model (synced_network_ledger_model a)"

lemma account_model_for_simps [simp]:
  "account_model_for Bitcoin = Utxo" "account_model_for Ethereum = Account"
  by (simp_all add: account_model_for_def)

subsection \<open>Trimming\<close>

text \<open>The UTF-8 encodings of the characters with the property White\_Space, which \<open>str::trim\<close> removes.\<close>

definition utf8_whitespace :: "string list" where
  "utf8_whitespace =
     map (\<lambda>b. [char_of b]) [9, 10, 11, 12, 13, 32 :: nat] @
     map (map char_of)
       ([[0xC2, 0x85], [0xC2, 0xA0], [0xE1, 0x9A, 0x80]] @
        map (\<lambda>b. [0xE2, 0x80, b]) [0x80, 0x81, 0x82, 0x83, 0x84, 0x85, 0x86, 0x87, 0x88, 0x89, 0x8A, 0xA8, 0xA9, 0xAF] @
        [[0xE2, 0x81, 0x9F], [0xE3, 0x80, 0x80 :: nat]])"

fun strip_prefix :: "string \<Rightarrow> string \<Rightarrow> string option" where
  "strip_prefix [] s = Some s"
| "strip_prefix (p # ps) [] = None"
| "strip_prefix (p # ps) (c # s) = (if p = c then strip_prefix ps s else None)"

definition strip_any :: "string list \<Rightarrow> string \<Rightarrow> string option" where
  "strip_any ws s = (case List.map_filter (\<lambda>w. strip_prefix w s) ws of [] \<Rightarrow> None | t # _ \<Rightarrow> Some t)"

lemma strip_prefix_append: "strip_prefix w s = Some t \<Longrightarrow> s = w @ t"
  by (induction w s rule: strip_prefix.induct) (auto split: if_splits)

lemma strip_any_shorter:
  assumes "\<forall>w \<in> set ws. w \<noteq> []" and "strip_any ws s = Some t"
  shows "length t < length s"
proof -
  from assms(2) have "t \<in> set (List.map_filter (\<lambda>w. strip_prefix w s) ws)"
    by (auto simp: strip_any_def split: list.splits)
  then obtain w where w: "w \<in> set ws" "strip_prefix w s = Some t"
    by (auto simp: List.map_filter_def)
  then have "s = w @ t" by (simp add: strip_prefix_append)
  with w assms(1) show ?thesis by auto
qed

lemma utf8_whitespace_nonempty: "\<forall>w \<in> set utf8_whitespace. w \<noteq> []"
  by (simp add: utf8_whitespace_def)

lemma rev_utf8_whitespace_nonempty: "\<forall>w \<in> set (map rev utf8_whitespace). w \<noteq> []"
  using utf8_whitespace_nonempty by auto

function str_trim_start :: "string \<Rightarrow> string" where
  "str_trim_start s = (case strip_any utf8_whitespace s of None \<Rightarrow> s | Some t \<Rightarrow> str_trim_start t)"
  by auto
termination
  by (relation "measure length") (auto intro: strip_any_shorter [OF utf8_whitespace_nonempty])

function str_trim_rev :: "string \<Rightarrow> string" where
  "str_trim_rev s = (case strip_any (map rev utf8_whitespace) s of None \<Rightarrow> s | Some t \<Rightarrow> str_trim_rev t)"
  by auto
termination
  by (relation "measure length") (auto intro: strip_any_shorter [OF rev_utf8_whitespace_nonempty])

declare str_trim_start.simps [simp del] str_trim_rev.simps [simp del]

definition str_trim :: "string \<Rightarrow> string" where
  "str_trim s = rev (str_trim_rev (rev (str_trim_start s)))"

subsection \<open>Addresses and transaction hashes\<close>

datatype AddressError = AddressEmpty

type_synonym TrackedAddress = string

definition tracked_address_parse :: "string \<Rightarrow> AddressError + TrackedAddress" where
  "tracked_address_parse raw =
     (let trimmed = str_trim raw in if trimmed = [] then Inl AddressEmpty else Inr trimmed)"

datatype TxHashError = WrongLength nat | InvalidCharacters

definition is_ascii_hexdigit :: "char \<Rightarrow> bool" where
  "is_ascii_hexdigit c \<longleftrightarrow>
     (let n = of_char c :: nat in 48 \<le> n \<and> n \<le> 57 \<or> 65 \<le> n \<and> n \<le> 70 \<or> 97 \<le> n \<and> n \<le> 102)"

definition ascii_lowercase :: "char \<Rightarrow> char" where
  "ascii_lowercase c = (let n = of_char c :: nat in if 65 \<le> n \<and> n \<le> 90 then char_of (n + 32) else c)"

type_synonym TxHash = string

definition tx_hash_parse :: "string \<Rightarrow> TxHashError + TxHash" where
  "tx_hash_parse raw =
     (let trimmed = str_trim raw in
      if length trimmed \<noteq> 64 then Inl (WrongLength (length trimmed))
      else if \<not> list_all is_ascii_hexdigit trimmed then Inl InvalidCharacters
      else Inr (map ascii_lowercase trimmed))"

definition display_tx_hash :: "SyncedAssetId \<Rightarrow> string \<Rightarrow> string" where
  "display_tx_hash asset hash =
     (if asset = Ethereum \<and> take 2 hash \<noteq> ''0x'' then ''0x'' @ hash else hash)"

subsection \<open>Statuses, results and providers\<close>

datatype ChainTransactionStatus = Pending | Confirmed | Dropped | Failed

definition status_from_db_value :: "string \<Rightarrow> ChainTransactionStatus option" where
  "status_from_db_value v =
     (if v = ''pending'' then Some Pending else if v = ''confirmed'' then Some Confirmed
      else if v = ''dropped'' then Some Dropped else if v = ''failed'' then Some Failed else None)"

fun status_as_db_value :: "ChainTransactionStatus \<Rightarrow> string" where
  "status_as_db_value Pending = ''pending''"
| "status_as_db_value Confirmed = ''confirmed''"
| "status_as_db_value Dropped = ''dropped''"
| "status_as_db_value Failed = ''failed''"

datatype TransactionSyncResult = SyncSuccess | SyncFailure

definition sync_result_from_db_value :: "string \<Rightarrow> TransactionSyncResult option" where
  "sync_result_from_db_value v =
     (if v = ''success'' then Some SyncSuccess else if v = ''failure'' then Some SyncFailure else None)"

fun sync_result_as_db_value :: "TransactionSyncResult \<Rightarrow> string" where
  "sync_result_as_db_value SyncSuccess = ''success''"
| "sync_result_as_db_value SyncFailure = ''failure''"

datatype AggregateSyncResult = AggSuccess | AggPartial | AggFailure

definition agg_from_db_value :: "string \<Rightarrow> AggregateSyncResult option" where
  "agg_from_db_value v =
     (if v = ''success'' then Some AggSuccess else if v = ''partial'' then Some AggPartial
      else if v = ''failure'' then Some AggFailure else None)"

fun agg_as_db_value :: "AggregateSyncResult \<Rightarrow> string" where
  "agg_as_db_value AggSuccess = ''success''"
| "agg_as_db_value AggPartial = ''partial''"
| "agg_as_db_value AggFailure = ''failure''"

datatype SyncIntegrationId = Mempool | Etherscan

fun integration_as_db_value :: "SyncIntegrationId \<Rightarrow> string" where
  "integration_as_db_value Mempool = ''mempool''"
| "integration_as_db_value Etherscan = ''etherscan''"

definition integration_from_db_value :: "string \<Rightarrow> SyncIntegrationId option" where
  "integration_from_db_value v =
     (if v = ''mempool'' then Some Mempool else if v = ''etherscan'' then Some Etherscan else None)"

fun integration_for_asset :: "SyncedAssetId \<Rightarrow> SyncIntegrationId" where
  "integration_for_asset Bitcoin = Mempool"
| "integration_for_asset Ethereum = Etherscan"

text \<open>The derived order of \<open>SyncIntegrationId\<close> is the order of its variants.\<close>

fun integration_rank :: "SyncIntegrationId \<Rightarrow> nat" where
  "integration_rank Mempool = 0"
| "integration_rank Etherscan = 1"

instantiation SyncIntegrationId :: linorder
begin

definition less_eq_SyncIntegrationId :: "SyncIntegrationId \<Rightarrow> SyncIntegrationId \<Rightarrow> bool" where
  "less_eq_SyncIntegrationId x y \<longleftrightarrow> integration_rank x \<le> integration_rank y"

definition less_SyncIntegrationId :: "SyncIntegrationId \<Rightarrow> SyncIntegrationId \<Rightarrow> bool" where
  "less_SyncIntegrationId x y \<longleftrightarrow> integration_rank x < integration_rank y"

instance
proof
  fix x y :: SyncIntegrationId
  assume "x \<le> y" "y \<le> x"
  then show "x = y" by (cases x; cases y) (simp_all add: less_eq_SyncIntegrationId_def)
qed (auto simp: less_eq_SyncIntegrationId_def less_SyncIntegrationId_def)

end

subsection \<open>Heights, counts and messages\<close>

datatype ChainTipHeightError = HeightNegative int

definition chain_tip_height_try_new :: "int \<Rightarrow> ChainTipHeightError + int" where
  "chain_tip_height_try_new v = (if v < 0 then Inl (HeightNegative v) else Inr v)"

fun height_error_display :: "ChainTipHeightError \<Rightarrow> string" where
  "height_error_display (HeightNegative v) = ''chain tip height must be non-negative, got '' @ int_to_string v"

datatype EthereumBlockNumberError = BlockNegative int | BlockOutOfRange u64

definition ethereum_block_number_from_u64 :: "u64 \<Rightarrow> EthereumBlockNumberError + int" where
  "ethereum_block_number_from_u64 v =
     res_bind (ok_or (BlockOutOfRange v) (i64_try_from (uint v))) (\<lambda>as_i64.
       if as_i64 < 0 then Inl (BlockNegative as_i64) else Inr as_i64)"

definition ethereum_block_number_as_u64 :: "int \<Rightarrow> EthereumBlockNumberError + u64" where
  "ethereum_block_number_as_u64 n =
     (if 0 \<le> n \<and> n < 2 ^ 64 then Inr (word_of_int n) else Inl (BlockNegative n))"

type_synonym TransactionCount = u32

datatype TransactionCountError = CountOutOfRange int

definition transaction_count_try_new :: "int \<Rightarrow> TransactionCountError + TransactionCount" where
  "transaction_count_try_new v =
     (if 0 \<le> v \<and> v < 2 ^ 32 then Inr (word_of_int v) else Inl (CountOutOfRange v))"

datatype TxCountEstimate = Exact TransactionCount | AtLeast TransactionCount

fun estimate_transaction_count :: "TxCountEstimate \<Rightarrow> TransactionCount" where
  "estimate_transaction_count (Exact v) = v"
| "estimate_transaction_count (AtLeast v) = v"

fun estimate_is_lower_bound :: "TxCountEstimate \<Rightarrow> bool" where
  "estimate_is_lower_bound (Exact v) = False"
| "estimate_is_lower_bound (AtLeast v) = True"

text \<open>
  \<open>String::truncate\<close> panics when the new length is not a character boundary, that is when the byte
  there is a UTF-8 continuation byte; \<^term>\<open>None\<close> is the panic.
\<close>

definition is_char_boundary :: "string \<Rightarrow> nat \<Rightarrow> bool" where
  "is_char_boundary s i \<longleftrightarrow>
     i = 0 \<or> i = length s \<or> (i < length s \<and> \<not> (128 \<le> (of_char (s ! i) :: nat) \<and> of_char (s ! i) < (192 :: nat)))"

definition string_truncate :: "string \<Rightarrow> nat \<Rightarrow> string option" where
  "string_truncate s n =
     (if length s \<le> n then Some s else if is_char_boundary s n then Some (take n s) else None)"

definition sync_error_sanitize :: "string \<Rightarrow> string option" where
  "sync_error_sanitize raw =
     (let trimmed = str_trim raw in
      if trimmed = [] then Some ''Unknown sync error''
      else if 512 < length trimmed then string_truncate trimmed 512 else Some trimmed)"

subsection \<open>Trimming and hashes: facts\<close>

lemma strip_any_None:
  assumes "\<forall>w \<in> set ws. w \<noteq> [] \<and> hd w \<noteq> c"
  shows "strip_any ws (c # s) = None"
proof -
  have "strip_prefix w (c # s) = None" if "w \<in> set ws" for w
    using assms that by (cases w) auto
  then show ?thesis by (induction ws) (auto simp: strip_any_def List.map_filter_def)
qed

lemma hexdigit_not_whitespace:
  assumes "is_ascii_hexdigit c"
  shows "strip_any utf8_whitespace (c # s) = None" and "strip_any (map rev utf8_whitespace) (c # s) = None"
proof -
  have n: "(of_char c :: nat) \<notin> {9, 10, 11, 12, 13, 32} \<and> (of_char c :: nat) < 128"
    using assms by (auto simp: is_ascii_hexdigit_def Let_def)
  show "strip_any utf8_whitespace (c # s) = None"
    using n by (intro strip_any_None) (auto simp: utf8_whitespace_def)
  show "strip_any (map rev utf8_whitespace) (c # s) = None"
    using n by (intro strip_any_None) (auto simp: utf8_whitespace_def)
qed

lemma str_trim_hex:
  assumes "list_all is_ascii_hexdigit s"
  shows "str_trim s = s"
proof -
  have start: "str_trim_start s = s"
    using assms by (cases s)
      (simp add: str_trim_start.simps strip_any_def utf8_whitespace_def List.map_filter_def,
       simp add: str_trim_start.simps hexdigit_not_whitespace)
  have "str_trim_rev t = t" if "list_all is_ascii_hexdigit t" for t
    using that by (cases t)
      (simp add: str_trim_rev.simps strip_any_def utf8_whitespace_def List.map_filter_def,
       simp add: str_trim_rev.simps hexdigit_not_whitespace)
  from this [of "rev s"] assms start show ?thesis by (simp add: str_trim_def)
qed

lemma ascii_lowercase_hex:
  assumes "is_ascii_hexdigit c"
  shows "is_ascii_hexdigit (ascii_lowercase c) \<and> ascii_lowercase (ascii_lowercase c) = ascii_lowercase c"
  using assms by (auto simp: is_ascii_hexdigit_def ascii_lowercase_def Let_def)

text \<open>
  A parsed transaction hash is canonical: 64 hexadecimal digits without upper-case letters, and parsing
  its text again gives the same hash. So the hash is a stable key however the provider spelled it.
\<close>

theorem tx_hash_parse_canonical:
  assumes "tx_hash_parse raw = Inr h"
  shows "length h = 64 \<and> list_all is_ascii_hexdigit h \<and> map ascii_lowercase h = h \<and> tx_hash_parse h = Inr h"
proof -
  let ?t = "str_trim raw"
  from assms have t: "length ?t = 64" "list_all is_ascii_hexdigit ?t" and h: "h = map ascii_lowercase ?t"
    by (auto simp: tx_hash_parse_def Let_def split: if_splits)
  have "length h = 64" and hex: "list_all is_ascii_hexdigit h" and low: "map ascii_lowercase h = h"
    using t ascii_lowercase_hex by (auto simp: h list_all_iff)
  moreover have "tx_hash_parse h = Inr h"
    using calculation by (simp add: tx_hash_parse_def str_trim_hex [OF hex])
  ultimately show ?thesis by simp
qed

theorem tx_hash_parse_canonical_witness:
  "length (replicate 64 (CHR ''a'')) = 64 \<and> tx_hash_parse (replicate 64 (CHR ''a'')) = Inr (replicate 64 (CHR ''a''))"
proof -
  have "is_ascii_hexdigit (CHR ''A'')" "ascii_lowercase (CHR ''A'') = CHR ''a''"
    by (simp_all add: is_ascii_hexdigit_def ascii_lowercase_def char_of_eq_iff take_bit_eq_mod)
  then have "list_all is_ascii_hexdigit (replicate 64 (CHR ''A''))"
    and "map ascii_lowercase (replicate 64 (CHR ''A'')) = replicate 64 (CHR ''a'')"
    by (simp_all only: list_all_iff set_replicate map_replicate) simp_all
  then have "tx_hash_parse (replicate 64 (CHR ''A'')) = Inr (replicate 64 (CHR ''a''))"
    by (simp only: tx_hash_parse_def str_trim_hex Let_def length_replicate) simp
  from tx_hash_parse_canonical [OF this] show ?thesis by simp
qed

text \<open>
  Sanitizing an error message gives between 1 and 512 bytes, and it panics in exactly one situation: the
  trimmed message is longer than 512 bytes and its byte 512 continues a multi-byte character.
\<close>

theorem sync_error_sanitize_result:
  "case sync_error_sanitize raw of
     Some m \<Rightarrow> 1 \<le> length m \<and> length m \<le> 512 \<and>
       \<not> (512 < length (str_trim raw) \<and> 128 \<le> (of_char (str_trim raw ! 512) :: nat) \<and>
          (of_char (str_trim raw ! 512) :: nat) < 192)
   | None \<Rightarrow> 512 < length (str_trim raw) \<and> 128 \<le> (of_char (str_trim raw ! 512) :: nat) \<and>
       (of_char (str_trim raw ! 512) :: nat) < 192"
  by (auto simp: sync_error_sanitize_def string_truncate_def is_char_boundary_def Let_def Suc_le_eq)

end
