(* ===== verification/Balances.thy ===== *)
theory Balances
  imports Domain
begin

section \<open>Address and account balances\<close>

text \<open>
  \<open>src/src/transactions/balance.rs\<close>: the balance state of an address or an account
  (\<open>NativeBalanceState\<close>), the sum over the addresses of one account (\<open>sum_address_balances\<close>) and
  the totals per asset and network over all accounts (\<open>aggregate_address_balances\<close>).
  The lemmas show that a total is the exact sum of its parts, that one unknown part makes exactly
  its own group unknown, and that every failure is an error value.
\<close>

datatype NativeBalanceState = KnownAmount UnsignedAmount | CanonicalZero | Unknown

datatype AccountTransactionDirection = Incoming | Outgoing | SelfTransfer

record AddressBalanceSummary =
  abs_asset_id :: SyncedAssetId
  confirmed :: NativeBalanceState

definition summary_known :: "SyncedAssetId \<Rightarrow> UnsignedAmount \<Rightarrow> AddressBalanceSummary" where
  "summary_known asset amount = \<lparr>abs_asset_id = asset, confirmed = KnownAmount amount\<rparr>"

definition summary_unknown :: "SyncedAssetId \<Rightarrow> AddressBalanceSummary" where
  "summary_unknown asset = \<lparr>abs_asset_id = asset, confirmed = Unknown\<rparr>"

record AccountBalanceEntry =
  abe_account_id :: ulid
  abe_asset_id :: SyncedAssetId
  abe_network :: Network
  account_balance :: AddressBalanceSummary

record AssetNetworkTotal =
  ant_asset_id :: SyncedAssetId
  ant_network :: Network
  ant_confirmed :: NativeBalanceState

definition canonical_zero_error :: AmountError where
  "canonical_zero_error =
     ParseError ''canonical_zero'' ''canonical zero is only valid at historical boundaries''"

text \<open>The loop body that adds the next known amount; the two other states are unreachable there, because
  they are handled before the loop starts.\<close>

fun add_known :: "UnsignedAmount \<Rightarrow> NativeBalanceState \<Rightarrow> AmountError + UnsignedAmount" where
  "add_known acc (KnownAmount a) = amount_checked_add acc a"
| "add_known acc CanonicalZero = undefined"
| "add_known acc Unknown = undefined"

definition sum_address_balances ::
  "SyncedAssetId \<Rightarrow> AddressBalanceSummary list \<Rightarrow> AmountError + AddressBalanceSummary" where
  "sum_address_balances asset balances =
     (case find (\<lambda>b. abs_asset_id b \<noteq> asset) balances of
        Some b \<Rightarrow> Inl (ParseError (asset_as_str (abs_asset_id b))
          (''sum_address_balances expected asset '' @ asset_as_str asset @ '', got '' @ asset_as_str (abs_asset_id b)))
      | None \<Rightarrow>
          if list_ex (\<lambda>b. confirmed b = CanonicalZero) balances then Inl canonical_zero_error
          else if list_ex (\<lambda>b. confirmed b = Unknown) balances then Inr (summary_unknown asset)
          else res_map (summary_known asset) (res_fold (\<lambda>t b. add_known t (confirmed b)) 0 balances))"

subsection \<open>Totals per asset and network\<close>

definition account_entry_error :: "AccountBalanceEntry \<Rightarrow> AmountError option" where
  "account_entry_error account =
     (if abs_asset_id (account_balance account) \<noteq> abe_asset_id account then
        Some (ParseError (asset_as_str (abs_asset_id (account_balance account)))
          (''account balance asset '' @ asset_as_str (abs_asset_id (account_balance account)) @
           '' does not match account asset '' @ asset_as_str (abe_asset_id account)))
      else if confirmed (account_balance account) = CanonicalZero then Some canonical_zero_error
      else None)"

definition account_group :: "AccountBalanceEntry \<Rightarrow> SyncedAssetId \<times> Network" where
  "account_group a = (abe_asset_id a, abe_network a)"

definition total_group :: "AssetNetworkTotal \<Rightarrow> SyncedAssetId \<times> Network" where
  "total_group t = (ant_asset_id t, ant_network t)"

definition unknown_groups :: "AccountBalanceEntry list \<Rightarrow> (SyncedAssetId \<times> Network) list" where
  "unknown_groups accounts =
     foldl (\<lambda>groups account.
       if confirmed (account_balance account) = Unknown \<and> account_group account \<notin> set groups
       then groups @ [account_group account] else groups) [] accounts"

text \<open>Adding one account to the first total of its group, or a new total at the end.\<close>

fun add_to_totals :: "(SyncedAssetId \<times> Network) list \<Rightarrow> AccountBalanceEntry \<Rightarrow>
    AssetNetworkTotal list \<Rightarrow> AmountError + AssetNetworkTotal list" where
  "add_to_totals unknown account [] =
     Inr [\<lparr>ant_asset_id = abe_asset_id account, ant_network = abe_network account,
            ant_confirmed = (if account_group account \<in> set unknown then Unknown
                             else confirmed (account_balance account))\<rparr>]"
| "add_to_totals unknown account (t # ts) =
     (if ant_asset_id t = abe_asset_id account \<and> ant_network t = abe_network account then
        if account_group account \<in> set unknown then Inr (t # ts)
        else (case (ant_confirmed t, confirmed (account_balance account)) of
                (KnownAmount left, KnownAmount right) \<Rightarrow>
                  res_map (\<lambda>s. t\<lparr>ant_confirmed := KnownAmount s\<rparr> # ts) (amount_checked_add left right)
              | _ \<Rightarrow> undefined)
      else res_map (\<lambda>us. t # us) (add_to_totals unknown account ts))"

definition aggregate_address_balances ::
  "AccountBalanceEntry list \<Rightarrow> AmountError + AssetNetworkTotal list" where
  "aggregate_address_balances accounts =
     (case List.map_filter account_entry_error accounts of
        e # _ \<Rightarrow> Inl e
      | [] \<Rightarrow> res_fold (\<lambda>totals account. add_to_totals (unknown_groups accounts) account totals) [] accounts)"

subsection \<open>Sums of known amounts\<close>

definition known_value :: "NativeBalanceState \<Rightarrow> nat" where
  "known_value s = (case s of KnownAmount a \<Rightarrow> unat a | _ \<Rightarrow> 0)"

definition is_known :: "NativeBalanceState \<Rightarrow> bool" where
  "is_known s = (case s of KnownAmount a \<Rightarrow> True | _ \<Rightarrow> False)"

lemma is_known_iff: "is_known s \<longleftrightarrow> s \<noteq> CanonicalZero \<and> s \<noteq> Unknown"
  by (cases s) (simp_all add: is_known_def)

lemma amount_checked_add_exact:
  "amount_checked_add a b =
     (if unat a + unat b < 2 ^ 128 then Inr (a + b) else Inl Overflow)"
  by (simp add: amount_checked_add_def checked_add_u_def)

lemma res_fold_add_known:
  assumes "list_all (\<lambda>b. is_known (confirmed b)) bs"
  shows "res_fold (\<lambda>t b. add_known t (confirmed b)) t0 bs =
    (if unat t0 + (\<Sum>b\<leftarrow>bs. known_value (confirmed b)) < 2 ^ 128
     then Inr (word_of_nat (unat t0 + (\<Sum>b\<leftarrow>bs. known_value (confirmed b)))) else Inl Overflow)"
  using assms
proof (induction bs arbitrary: t0)
  case Nil
  have "unat t0 < 2 ^ 128" using unsigned_less [of t0] by simp
  then show ?case by simp
next
  case (Cons b bs)
  then obtain a where a: "confirmed b = KnownAmount a"
    by (auto simp: is_known_def split: NativeBalanceState.splits)
  show ?case
  proof (cases "unat t0 + unat a < 2 ^ 128")
    case True
    then have "unat (t0 + a) = unat t0 + unat a" by (simp add: unat_add_no_overflow)
    with Cons True a show ?thesis by (simp add: amount_checked_add_exact known_value_def add.assoc)
  next
    case False
    with a show ?thesis by (simp add: amount_checked_add_exact known_value_def)
  qed
qed

text \<open>
  The balance of an account over its addresses. When every address is of the account's asset and none
  carries the boundary-only zero, the result is unknown exactly when some address is unknown, and
  otherwise the exact sum, or an overflow error when the sum does not fit 128 bits.
\<close>

theorem sum_address_balances_exact:
  assumes "\<forall>b \<in> set bs. abs_asset_id b = asset \<and> confirmed b \<noteq> CanonicalZero"
  shows "sum_address_balances asset bs =
    (if \<exists>b \<in> set bs. confirmed b = Unknown then Inr (summary_unknown asset)
     else if (\<Sum>b\<leftarrow>bs. known_value (confirmed b)) < 2 ^ 128
     then Inr (summary_known asset (word_of_nat (\<Sum>b\<leftarrow>bs. known_value (confirmed b))))
     else Inl Overflow)"
proof -
  have f: "find (\<lambda>b. abs_asset_id b \<noteq> asset) bs = None"
    using assms by (simp add: find_None_iff)
  have z: "\<not> list_ex (\<lambda>b. confirmed b = CanonicalZero) bs" using assms by (simp add: list_ex_iff)
  show ?thesis
  proof (cases "list_ex (\<lambda>b. confirmed b = Unknown) bs")
    case True
    with f z show ?thesis by (simp add: sum_address_balances_def list_ex_iff)
  next
    case False
    then have "list_all (\<lambda>b. is_known (confirmed b)) bs"
      using assms by (simp add: list_all_iff list_ex_iff is_known_iff)
    with f z False show ?thesis
      by (simp add: sum_address_balances_def list_ex_iff res_fold_add_known)
  qed
qed

theorem sum_address_balances_exact_witness:
  "sum_address_balances Bitcoin [summary_known Bitcoin 50000, summary_known Bitcoin 30000] =
     Inr (summary_known Bitcoin 80000)"
  using sum_address_balances_exact [of "[summary_known Bitcoin 50000, summary_known Bitcoin 30000]" Bitcoin]
  by (simp add: summary_known_def known_value_def)

subsection \<open>Totals are exact per group\<close>

definition entry_value :: "AccountBalanceEntry \<Rightarrow> nat" where
  "entry_value a = known_value (confirmed (account_balance a))"

definition group_sum :: "AccountBalanceEntry list \<Rightarrow> SyncedAssetId \<times> Network \<Rightarrow> nat" where
  "group_sum accounts g = (\<Sum>a\<leftarrow>filter (\<lambda>a. account_group a = g) accounts. entry_value a)"

definition total_ok :: "(SyncedAssetId \<times> Network) set \<Rightarrow> (SyncedAssetId \<times> Network \<Rightarrow> nat) \<Rightarrow> AssetNetworkTotal \<Rightarrow> bool" where
  "total_ok u f t \<longleftrightarrow>
     (if total_group t \<in> u then ant_confirmed t = Unknown
      else \<exists>a. ant_confirmed t = KnownAmount a \<and> unat a = f (total_group t))"

lemma set_unknown_groups:
  "set (unknown_groups accounts) = account_group ` {a \<in> set accounts. confirmed (account_balance a) = Unknown}"
proof -
  have "set (foldl (\<lambda>groups account.
      if confirmed (account_balance account) = Unknown \<and> account_group account \<notin> set groups
      then groups @ [account_group account] else groups) gs accounts) =
    set gs \<union> account_group ` {a \<in> set accounts. confirmed (account_balance a) = Unknown}" for gs
    by (induction accounts arbitrary: gs) auto
  from this [of "[]"] show ?thesis by (simp add: unknown_groups_def)
qed

lemma total_ok_other: "total_group t \<noteq> g \<Longrightarrow> total_ok u (f(g := n)) t \<longleftrightarrow> total_ok u f t"
  by (simp add: total_ok_def)

lemma total_ok_unknown: "total_group t \<in> u \<Longrightarrow> total_ok u f t \<longleftrightarrow> ant_confirmed t = Unknown"
  by (simp add: total_ok_def)

lemma group_match:
  "ant_asset_id t = abe_asset_id a \<and> ant_network t = abe_network a \<longleftrightarrow> total_group t = account_group a"
  by (auto simp: total_group_def account_group_def)

lemma add_to_totals_step:
  fixes a :: AccountBalanceEntry
  defines "g \<equiv> account_group a"
  assumes "\<forall>t \<in> set ts. total_ok (set u) f t" and "distinct (map total_group ts)"
    and "g \<notin> set u \<longrightarrow> is_known (confirmed (account_balance a))"
    and "g \<notin> total_group ` set ts \<longrightarrow> f g = 0"
  shows "case add_to_totals u a ts of
      Inr ts' \<Rightarrow> map total_group ts' = (if g \<in> total_group ` set ts then map total_group ts else map total_group ts @ [g]) \<and>
        (\<forall>t \<in> set ts'. total_ok (set u) (f(g := f g + entry_value a)) t)
    | Inl e \<Rightarrow> e = Overflow \<and> g \<notin> set u \<and> 2 ^ 128 \<le> f g + entry_value a"
  using assms(2-)
proof (induction ts)
  case Nil
  then show ?case
    by (auto simp: g_def total_ok_def total_group_def account_group_def entry_value_def known_value_def is_known_def
        split: NativeBalanceState.splits)
next
  case (Cons t ts)
  have rest: "\<forall>s \<in> set ts. total_group s \<noteq> total_group t" using Cons.prems(2) by (auto simp: image_iff)
  show ?case
  proof (cases "total_group t = g")
    case True
    have others: "\<forall>s \<in> set ts. total_ok (set u) (f(g := n)) s" for n
      using Cons.prems(1) rest True by (simp add: total_ok_other)
    show ?thesis
    proof (cases "g \<in> set u")
      case u: True
      have "ant_confirmed t = Unknown" using Cons.prems(1) True u by (simp add: total_ok_def)
      then have "total_ok (set u) (f(g := n)) t" for n using True u by (simp add: total_ok_unknown)
      with True u others show ?thesis by (simp add: g_def group_match)
    next
      case u: False
      then obtain l where l: "ant_confirmed t = KnownAmount l" "unat l = f g"
        using Cons.prems(1) True by (auto simp: total_ok_def)
      obtain r where r: "confirmed (account_balance a) = KnownAmount r"
        using Cons.prems(3) u by (auto simp: is_known_def split: NativeBalanceState.splits)
      have v: "entry_value a = unat r" by (simp add: entry_value_def known_value_def r)
      have grp: "total_group (t\<lparr>ant_confirmed := s\<rparr>) = g" for s using True by (simp add: total_group_def)
      have add: "add_to_totals u a (t # ts) =
          res_map (\<lambda>s. t\<lparr>ant_confirmed := KnownAmount s\<rparr> # ts) (amount_checked_add l r)"
        using True u l r by (simp add: g_def group_match)
      show ?thesis
      proof (cases "f g + unat r < 2 ^ 128")
        case fits: True
        then have "unat (l + r) = f g + unat r" using l by (simp add: unat_add_no_overflow)
        then have "total_ok (set u) (f(g := f g + unat r)) (t\<lparr>ant_confirmed := KnownAmount (l + r)\<rparr>)"
          using u grp by (simp add: total_ok_def)
        with add fits l v others grp True show ?thesis by (simp add: amount_checked_add_exact)
      next
        case False
        with add l v u show ?thesis by (simp add: amount_checked_add_exact)
      qed
    qed
  next
    case False
    have t: "total_ok (set u) (f(g := n)) t" for n using Cons.prems(1) False by (simp add: total_ok_other)
    have "add_to_totals u a (t # ts) = res_map (\<lambda>us. t # us) (add_to_totals u a ts)"
      using False by (simp add: g_def group_match)
    with Cons.IH Cons.prems False t show ?thesis
      by (cases "add_to_totals u a ts") (auto simp: image_iff)
  qed
qed

lemma group_sum_snoc:
  "group_sum (as @ [a]) = (group_sum as)(account_group a := group_sum as (account_group a) + entry_value a)"
  by (rule ext) (simp add: group_sum_def)

lemma group_sum_absent: "g \<notin> account_group ` set as \<Longrightarrow> group_sum as g = 0"
proof -
  assume "g \<notin> account_group ` set as"
  then have "filter (\<lambda>a. account_group a = g) as = []" by (auto simp: filter_empty_conv)
  then show ?thesis by (simp add: group_sum_def)
qed

lemma group_sum_mono: "group_sum as g \<le> group_sum (as @ bs) g"
  by (simp add: group_sum_def)

lemma res_fold_add_to_totals:
  assumes "\<forall>a \<in> set as. account_group a \<notin> set u \<longrightarrow> is_known (confirmed (account_balance a))"
  shows "case res_fold (\<lambda>totals account. add_to_totals u account totals) [] as of
      Inr ts \<Rightarrow> distinct (map total_group ts) \<and> total_group ` set ts = account_group ` set as \<and>
        (\<forall>t \<in> set ts. total_ok (set u) (group_sum as) t)
    | Inl e \<Rightarrow> e = Overflow \<and> (\<exists>g. g \<notin> set u \<and> 2 ^ 128 \<le> group_sum as g)"
  using assms
proof (induction as rule: rev_induct)
  case (snoc a as)
  let ?f = "\<lambda>totals account. add_to_totals u account totals"
  show ?case
  proof (cases "res_fold ?f [] as")
    case (Inl e)
    with snoc obtain g where "e = Overflow" "g \<notin> set u" "2 ^ 128 \<le> group_sum as g" by auto
    moreover from this have "2 ^ 128 \<le> group_sum (as @ [a]) g" using group_sum_mono order_trans by blast
    ultimately show ?thesis using Inl by (cases g) (auto simp: res_fold_append)
  next
    case (Inr ts)
    with snoc have ts: "distinct (map total_group ts)" "total_group ` set ts = account_group ` set as"
      "\<forall>t \<in> set ts. total_ok (set u) (group_sum as) t" by auto
    have "account_group a \<notin> total_group ` set ts \<longrightarrow> group_sum as (account_group a) = 0"
      using ts(2) by (simp add: group_sum_absent)
    from add_to_totals_step [OF ts(3,1) _ this] snoc.prems Inr ts show ?thesis
    proof (cases "add_to_totals u a ts")
      case (Inr us)
      have step: "map total_group us = (if account_group a \<in> total_group ` set ts then map total_group ts
            else map total_group ts @ [account_group a])"
          "\<forall>t \<in> set us. total_ok (set u) (group_sum (as @ [a])) t"
        using add_to_totals_step [OF ts(3,1), of a] ts(2) snoc.prems Inr
        by (auto simp: group_sum_snoc group_sum_absent)
      then have "distinct (map total_group us)" using ts(1) by auto
      moreover have "total_group ` set us = account_group ` set (as @ [a])"
        using arg_cong [OF step(1), of set] ts(2) by (auto split: if_splits)
      ultimately show ?thesis
        using step \<open>res_fold ?f [] as = Inr ts\<close> Inr by (simp add: res_fold_append)
    qed (auto simp: res_fold_append group_sum_snoc simp del: split_paired_Ex intro!: exI [of _ "account_group a"])
  qed
qed (simp add: group_sum_def)

text \<open>
  The totals over all accounts. When no account entry is malformed, the totals hold each
  (asset, network) group of the accounts exactly once; a group's total is unknown exactly when one of
  its accounts is, and otherwise the exact sum of its accounts; the only error is an overflow, and
  only when the accounts of a fully known group really sum to \<open>2^128\<close> or more.
\<close>

theorem aggregate_address_balances_exact:
  assumes "\<forall>a \<in> set as. account_entry_error a = None"
  shows "case aggregate_address_balances as of
      Inr ts \<Rightarrow> distinct (map total_group ts) \<and> total_group ` set ts = account_group ` set as \<and>
        (\<forall>t \<in> set ts.
          if \<exists>a \<in> set as. account_group a = total_group t \<and> confirmed (account_balance a) = Unknown
          then ant_confirmed t = Unknown
          else \<exists>v. ant_confirmed t = KnownAmount v \<and> unat v = group_sum as (total_group t))
    | Inl e \<Rightarrow> e = Overflow \<and> (\<exists>g. (\<forall>a \<in> set as. account_group a = g \<longrightarrow> is_known (confirmed (account_balance a))) \<and>
        2 ^ 128 \<le> group_sum as g)"
proof -
  let ?u = "unknown_groups as"
  have none: "List.map_filter account_entry_error as = []"
    using assms by (simp add: List.map_filter_def filter_empty_conv)
  have z: "confirmed (account_balance a) \<noteq> CanonicalZero" if "a \<in> set as" for a
    using assms that by (auto simp: account_entry_error_def split: if_splits)
  have u: "g \<in> set ?u \<longleftrightarrow> (\<exists>a \<in> set as. account_group a = g \<and> confirmed (account_balance a) = Unknown)" for g
    by (auto simp: set_unknown_groups)
  have known: "\<forall>a \<in> set as. account_group a \<notin> set ?u \<longrightarrow> is_known (confirmed (account_balance a))"
    using z by (auto simp: u is_known_iff)
  have iff: "(\<forall>a \<in> set as. account_group a = g \<longrightarrow> is_known (confirmed (account_balance a))) \<longleftrightarrow> g \<notin> set ?u" for g
    using z by (auto simp: u is_known_iff)
  show ?thesis
    using res_fold_add_to_totals [OF known] none
    by (simp add: aggregate_address_balances_def total_ok_def iff u [symmetric] split: sum.splits)
qed

theorem aggregate_address_balances_exact_witness:
  "\<exists>ts. aggregate_address_balances
      [\<lparr>abe_account_id = ''a'', abe_asset_id = Bitcoin, abe_network = Mainnet, account_balance = summary_known Bitcoin 5\<rparr>,
       \<lparr>abe_account_id = ''b'', abe_asset_id = Bitcoin, abe_network = Mainnet, account_balance = summary_known Bitcoin 7\<rparr>] = Inr ts \<and>
    total_group ` set ts = {(Bitcoin, Mainnet)}"
proof -
  let ?as = "[\<lparr>abe_account_id = ''a'', abe_asset_id = Bitcoin, abe_network = Mainnet, account_balance = summary_known Bitcoin 5\<rparr>,
       \<lparr>abe_account_id = ''b'', abe_asset_id = Bitcoin, abe_network = Mainnet, account_balance = summary_known Bitcoin 7\<rparr>]"
  have ok: "\<forall>a \<in> set ?as. account_entry_error a = None"
    by (simp add: account_entry_error_def summary_known_def)
  have "\<exists>ts. aggregate_address_balances ?as = Inr ts"
    by (simp add: aggregate_address_balances_def account_entry_error_def summary_known_def List.map_filter_def
        amount_checked_add_exact unknown_groups_def)
  then obtain ts where ts: "aggregate_address_balances ?as = Inr ts" by blast
  have "total_group ` set ts = account_group ` set ?as"
    using aggregate_address_balances_exact [OF ok] unfolding ts by simp
  with ts show ?thesis by (auto simp: account_group_def)
qed

end
