(* ===== verification/Ledger_Schema.thy ===== *)
theory Ledger_Schema
  imports Balances
begin

section \<open>The user database tables the ledger reads and writes\<close>

text \<open>
  The tables of the per-user SQLite database that \<open>src/src/db/account_transactions\<close> and
  \<open>src/src/db/transaction_sync\<close> use for the ledger, one record per row type with the columns the
  code reads, and one list per table in a \<open>UserDb\<close>. Text columns are strings compared bytewise,
  \<open>NULL\<close> is \<^term>\<open>None\<close>, and \<open>INTEGER\<close> columns are \<^typ>\<open>int\<close>. Timestamps are stored as text; turning
  text into a time (\<open>parse_datetime\<close>, a chrono call) and a time into text (\<open>to_rfc3339\<close>) are
  parameters of the operations that need them.
\<close>

record AddressRow =
  da_id :: ulid
  da_account_id :: "ulid option"
  da_address :: string

record AccountRow =
  daa_id :: ulid
  daa_wallet_id :: ulid
  daa_asset_id :: string
  daa_network :: string
  daa_label :: "string option"
  daa_account_kind :: string

record WalletRow =
  w_id :: ulid
  w_label :: string

record ChainTransactionRow =
  ct_id :: ulid
  ct_asset_id :: string
  ct_network :: string
  ct_tx_hash :: string
  ct_status :: string
  ct_block_height :: "int option"
  ct_block_hash :: "string option"
  ct_block_time :: "string option"
  ct_nonce :: "int option"
  ct_fee_amount_hi :: "int option"
  ct_fee_amount_lo :: "int option"
  ct_created_at :: string
  ct_updated_at :: string

record AccountTransferRow =
  at_chain_transaction_id :: ulid
  at_asset_id :: string
  at_network :: string
  at_tx_hash :: string
  at_transfer_index :: int
  at_provider_transfer_key :: string
  at_transfer_kind :: string
  at_from_address :: "string option"
  at_from_address_id :: "ulid option"
  at_to_address :: "string option"
  at_to_address_id :: "ulid option"
  at_value_amount_hi :: int
  at_value_amount_lo :: int

record TransactionInputRow =
  ti_tx_id :: ulid
  ti_input_index :: int
  ti_prev_tx_hash :: string
  ti_prev_output_index :: int
  ti_address_id :: ulid
  ti_value_amount_hi :: "int option"
  ti_value_amount_lo :: "int option"

record TransactionOutputRow =
  txo_tx_id :: ulid
  txo_output_index :: int
  txo_address_id :: ulid
  txo_raw_address :: "string option"
  txo_script_pubkey_hex :: string
  txo_value_amount_hi :: int
  txo_value_amount_lo :: int

record UtxoRow =
  ut_asset_id :: string
  ut_network :: string
  ut_tx_hash :: string
  ut_output_index :: int
  ut_address_id :: ulid
  ut_value_amount_hi :: int
  ut_value_amount_lo :: int
  ut_status :: string
  ut_replaced_by_tx_hash :: "string option"
  ut_spent_by_tx_hash :: "string option"
  ut_spent_at :: "string option"

record TransactionSyncStateRow =
  tss_scope :: string
  tss_address_id :: ulid
  tss_api_balance_observed_at :: "string option"
  tss_api_balance_hi :: "int option"
  tss_api_balance_lo :: "int option"
  tss_backfill_cursor_txid :: "string option"
  tss_complete_tx_count :: "int option"
  tss_complete_height :: "int option"
  tss_scan_start_run_id :: "ulid option"
  tss_last_run_id :: ulid
  tss_last_started_at :: string
  tss_last_completed_at :: "string option"
  tss_last_result :: string
  tss_last_error :: "string option"
  tss_last_tip_height :: "int option"
  tss_new_tx_count :: int
  tss_updated_tx_count :: int
  tss_expected_tx_count :: "int option"
  tss_reported_tx_count :: "int option"
  tss_consecutive_failure_count :: int
  tss_created_at :: string
  tss_updated_at :: string
  tss_etherscan_start_block :: "int option"
  tss_etherscan_end_block :: "int option"
  tss_etherscan_history_status :: "string option"
  tss_etherscan_checkpoint_version :: "int option"
  tss_etherscan_tip_height :: "int option"

record AccountSyncStateDbRow =
  ass_account_id :: ulid
  ass_last_scanned_height :: "int option"
  ass_last_scanned_time :: "string option"
  ass_last_derived_external_index :: "int option"
  ass_last_derived_internal_index :: "int option"
  ass_next_address_id :: "ulid option"
  ass_updated_at :: string

record HdChainSyncStateRow =
  hcs_account_id :: ulid
  hcs_derivation_change :: int

record AccountIntegrationSyncStateRow =
  ais_account_id :: ulid
  ais_integration_id :: string
  ais_last_started_at :: "string option"
  ais_last_completed_at :: "string option"
  ais_last_result :: "string option"

record LedgerRow =
  ld_account_id :: ulid
  ld_chain_transaction_id :: ulid
  ld_asset_id :: string
  ld_network :: string
  ld_tx_hash :: string
  ld_status :: string
  ld_occurred_at :: string
  ld_first_seen_at :: string
  ld_block_height :: "int option"
  ld_nonce :: "int option"
  ld_min_transfer_index :: "int option"
  ld_tx_type :: string
  ld_from_addresses :: "string list"
  ld_to_addresses :: "string list"
  ld_value_hi :: int
  ld_value_lo :: int
  ld_fee_hi :: "int option"
  ld_fee_lo :: "int option"
  ld_closing_balance_hi :: "int option"
  ld_closing_balance_lo :: "int option"
  ld_balance_delta_hi :: int
  ld_balance_delta_lo :: int
  ld_balance_delta_negative :: int
  ld_created_at :: string
  ld_updated_at :: string

record UserDb =
  wallets :: "WalletRow list"
  digital_asset_accounts :: "AccountRow list"
  digital_asset_addresses :: "AddressRow list"
  chain_transactions :: "ChainTransactionRow list"
  account_transfers :: "AccountTransferRow list"
  transaction_inputs :: "TransactionInputRow list"
  transaction_outputs :: "TransactionOutputRow list"
  utxos :: "UtxoRow list"
  transaction_sync_state :: "TransactionSyncStateRow list"
  account_sync_state :: "AccountSyncStateDbRow list"
  hd_account_chain_sync_state :: "HdChainSyncStateRow list"
  account_integration_sync_state :: "AccountIntegrationSyncStateRow list"
  account_transaction_ledger :: "LedgerRow list"

text \<open>\<open>parse_datetime\<close> returns the time or the text of its error.\<close>

type_synonym parse_datetime = "string \<Rightarrow> string + time"

definition parse_datetime_field :: "parse_datetime \<Rightarrow> string \<Rightarrow> string \<Rightarrow> DbError + time" where
  "parse_datetime_field pd field raw =
     map_err (\<lambda>err. DbError (''Invalid '' @ field @ '' in DB: '' @ err)) (pd raw)"

definition parse_optional_datetime_field :: "parse_datetime \<Rightarrow> string \<Rightarrow> string option \<Rightarrow> DbError + time option" where
  "parse_optional_datetime_field pd field raw =
     (case raw of None \<Rightarrow> Inr None | Some r \<Rightarrow> res_map Some (parse_datetime_field pd field r))"

definition owns_address :: "UserDb \<Rightarrow> ulid \<Rightarrow> ulid \<Rightarrow> bool" where
  "owns_address db account_id address_id =
     list_ex (\<lambda>da. da_account_id da = Some account_id \<and> da_id da = address_id) (digital_asset_addresses db)"

definition owns_optional_address :: "UserDb \<Rightarrow> ulid \<Rightarrow> ulid option \<Rightarrow> bool" where
  "owns_optional_address db account_id a = (case a of None \<Rightarrow> False | Some i \<Rightarrow> owns_address db account_id i)"

subsection \<open>Reading enumerations back\<close>

definition parse_chain_status :: "string \<Rightarrow> DbError + ChainTransactionStatus" where
  "parse_chain_status raw =
     ok_or (DbError (''Invalid transaction status in DB: '' @ raw)) (status_from_db_value raw)"

definition parse_asset_id :: "string \<Rightarrow> DbError + SyncedAssetId" where
  "parse_asset_id raw = ok_or (DbError (''Invalid asset_id in DB: '' @ raw)) (asset_from_str raw)"

definition parse_network :: "string \<Rightarrow> DbError + Network" where
  "parse_network raw = ok_or (DbError (''Invalid network in DB: '' @ raw)) (network_from_str raw)"

definition parse_direction :: "string \<Rightarrow> DbError + AccountTransactionDirection" where
  "parse_direction raw =
     (if raw = ''receive'' then Inr Incoming
      else if raw = ''send'' then Inr Outgoing
      else if raw = ''self_transfer'' then Inr SelfTransfer
      else Inl (DbError (''Invalid tx_type in DB: '' @ raw)))"

fun direction_to_db_value :: "AccountTransactionDirection \<Rightarrow> string" where
  "direction_to_db_value Incoming = ''receive''"
| "direction_to_db_value Outgoing = ''send''"
| "direction_to_db_value SelfTransfer = ''self_transfer''"

record AccountMeta =
  meta_wallet_id :: ulid
  meta_asset_id :: SyncedAssetId
  meta_network :: Network
  meta_label :: "string option"
  meta_wallet_label :: string

text \<open>The identifier of a wallet is checked to be a ULID by \<open>WalletId::from_str\<close>, a call into the \<open>ulid\<close>
  package that the parameter \<open>parse_ulid\<close> stands for: it gives the identifier or the text of its error.\<close>

definition load_account_meta :: "(string \<Rightarrow> string + ulid) \<Rightarrow> UserDb \<Rightarrow> ulid \<Rightarrow> DbError + AccountMeta" where
  "load_account_meta parse_ulid db account_id =
     (case [(daa, w). daa \<leftarrow> digital_asset_accounts db, daa_id daa = account_id,
                      w \<leftarrow> wallets db, w_id w = daa_wallet_id daa] of
        [] \<Rightarrow> Inl (DbError ''Account not found'')
      | (daa, w) # _ \<Rightarrow>
          res_bind (map_err (\<lambda>err. DbError (''Invalid wallet_id in DB: '' @ err)) (parse_ulid (daa_wallet_id daa))) (\<lambda>wallet_id.
          res_bind (parse_asset_id (daa_asset_id daa)) (\<lambda>asset_id.
          res_bind (parse_network (daa_network daa)) (\<lambda>network.
          Inr \<lparr>meta_wallet_id = wallet_id, meta_asset_id = asset_id, meta_network = network,
               meta_label = daa_label daa, meta_wallet_label = w_label w\<rparr>))))"

text \<open>
  What is written to a text column of an enumeration is read back as the same value, for statuses,
  directions, assets, networks, account kinds, results and providers.
\<close>

theorem db_enumerations_roundtrip:
  "parse_chain_status (status_as_db_value s) = Inr s \<and> parse_direction (direction_to_db_value d) = Inr d \<and>
   parse_asset_id (asset_as_str a) = Inr a \<and> parse_network (network_as_str n) = Inr n \<and>
   account_kind_from_str (account_kind_as_str k) = Some k \<and>
   sync_result_from_db_value (sync_result_as_db_value r) = Some r \<and>
   agg_from_db_value (agg_as_db_value g) = Some g \<and>
   integration_from_db_value (integration_as_db_value i) = Some i"
proof (intro conjI)
  show "parse_chain_status (status_as_db_value s) = Inr s"
    by (cases s) (simp_all add: parse_chain_status_def status_from_db_value_def)
  show "parse_direction (direction_to_db_value d) = Inr d"
    by (cases d) (simp_all add: parse_direction_def)
  show "parse_asset_id (asset_as_str a) = Inr a"
    by (cases a) (simp_all add: parse_asset_id_def asset_from_str_def)
  show "parse_network (network_as_str n) = Inr n"
    by (cases n) (simp_all add: parse_network_def network_from_str_def)
  show "account_kind_from_str (account_kind_as_str k) = Some k"
    by (cases k) (simp_all add: account_kind_from_str_def)
  show "sync_result_from_db_value (sync_result_as_db_value r) = Some r"
    by (cases r) (simp_all add: sync_result_from_db_value_def)
  show "agg_from_db_value (agg_as_db_value g) = Some g"
    by (cases g) (simp_all add: agg_from_db_value_def)
  show "integration_from_db_value (integration_as_db_value i) = Some i"
    by (cases i) (simp_all add: integration_from_db_value_def)
qed

end
