(* ===== verification/Ledger_Entries.thy ===== *)
theory Ledger_Entries
  imports Ledger_Schema
begin

section \<open>Ledger entries from chain data\<close>

text \<open>
  The first half of \<open>src/src/db/account_transactions/ledger_rebuild.rs\<close>: turning the rows of an
  account into one \<open>LedgerBuildEntry\<close> per transaction, for account-model assets
  (\<open>account_model_entries\<close>) and for UTXO assets (\<open>utxo_model_entries\<close>).

  The order in which a \<open>HashMap\<close> yields its values is a parameter \<open>iter\<close> of the account-model
  operation, of which the theorems assume only that it permutes. The lemmas show that the balance
  change of every entry is the exact signed sum over the rows of its transaction.
\<close>

record LedgerBuildEntry =
  le_chain_transaction_id :: ulid
  le_tx_hash :: string
  le_status :: ChainTransactionStatus
  le_occurred_at :: time
  le_first_seen_at :: time
  le_block_height :: "int option"
  le_nonce :: "int option"
  le_min_transfer_index :: "int option"
  le_direction :: AccountTransactionDirection
  le_value :: UnsignedAmount
  le_fee :: "UnsignedAmount option"
  le_balance_delta :: int
  le_closing_balance :: "UnsignedAmount option"
  le_same_block_parent_hashes :: "string list"
  le_from_addresses :: "string list"
  le_to_addresses :: "string list"

record ClassifiedLedgerFlow =
  flow_direction :: AccountTransactionDirection
  flow_value :: UnsignedAmount

definition classify_utxo_ledger_flow ::
  "UnsignedAmount \<Rightarrow> UnsignedAmount \<Rightarrow> UnsignedAmount option \<Rightarrow> ClassifiedLedgerFlow" where
  "classify_utxo_ledger_flow owned_input_total owned_output_total fee =
     (let has_owned_input = owned_input_total > 0;
          has_owned_output = owned_output_total > 0;
          account_outflow_value = saturating_sub_u owned_input_total owned_output_total;
          fee_value = (case fee of None \<Rightarrow> 0 | Some v \<Rightarrow> v);
          external_outflow_value = saturating_sub_u account_outflow_value fee_value
      in if has_owned_input \<and> (external_outflow_value > 0 \<or> \<not> has_owned_output)
         then \<lparr>flow_direction = Outgoing, flow_value = external_outflow_value\<rparr>
         else if has_owned_input \<and> has_owned_output
         then \<lparr>flow_direction = SelfTransfer, flow_value = owned_output_total\<rparr>
         else \<lparr>flow_direction = Incoming, flow_value = owned_output_total\<rparr>)"

subsection \<open>Account-model assets\<close>

record AggregatedAccountTx =
  agg_chain_transaction_id :: ulid
  agg_tx_hash :: string
  agg_status :: ChainTransactionStatus
  agg_block_height :: "int option"
  agg_block_time :: "time option"
  agg_nonce :: "int option"
  agg_first_seen_at :: time
  agg_updated_at :: time
  agg_min_transfer_index :: "int option"
  has_from_owned :: bool
  has_owned_normal_sender :: bool
  has_to_owned :: bool
  incoming_total :: UnsignedAmount
  outgoing_total :: UnsignedAmount
  self_transfer_total :: UnsignedAmount
  agg_fee :: "UnsignedAmount option"
  agg_from_addresses :: "string list"
  agg_to_addresses :: "string list"

type_synonym transfer_row = "ChainTransactionRow \<times> AccountTransferRow"

text \<open>The query: the transfers of the asset and network that touch an address of the account, joined with
  their transactions, ordered by creation time, hash and transfer index.\<close>

definition account_model_rows :: "UserDb \<Rightarrow> ulid \<Rightarrow> SyncedAssetId \<Rightarrow> Network \<Rightarrow> transfer_row list" where
  "account_model_rows db account_id asset network =
     sort_key (\<lambda>(ct, atr). (ct_created_at ct, ct_tx_hash ct, at_transfer_index atr))
       [(ct, atr). atr \<leftarrow> account_transfers db, ct \<leftarrow> chain_transactions db,
          ct_id ct = at_chain_transaction_id atr,
          at_asset_id atr = asset_as_str asset \<and> at_network atr = network_as_str network \<and>
          (owns_optional_address db account_id (at_from_address_id atr) \<or>
           owns_optional_address db account_id (at_to_address_id atr))]"

definition is_normal_sender_transfer :: "AccountTransferRow \<Rightarrow> bool" where
  "is_normal_sender_transfer atr \<longleftrightarrow>
     at_provider_transfer_key atr = ''normal'' \<or>
     (at_provider_transfer_key atr = ''legacy:0'' \<and> at_transfer_kind atr = ''normal'')"

definition insert_address :: "string option \<Rightarrow> string list \<Rightarrow> string list" where
  "insert_address a xs =
     (case a of None \<Rightarrow> xs | Some s \<Rightarrow> if str_trim s = [] then xs else btree_insert s xs)"

text \<open>The update of one aggregated transaction by one transfer row.\<close>

definition absorb_transfer ::
  "bool \<Rightarrow> bool \<Rightarrow> UnsignedAmount \<Rightarrow> AccountTransferRow \<Rightarrow> AggregatedAccountTx \<Rightarrow> DbError + AggregatedAccountTx" where
  "absorb_transfer from_owned to_owned value atr agg =
     (let transfer_index = at_transfer_index atr;
          agg1 = agg\<lparr>
            agg_min_transfer_index := Some (case agg_min_transfer_index agg of
              Some existing \<Rightarrow> min existing transfer_index | None \<Rightarrow> transfer_index),
            has_from_owned := has_from_owned agg \<or> from_owned,
            has_owned_normal_sender := has_owned_normal_sender agg \<or> (from_owned \<and> is_normal_sender_transfer atr),
            has_to_owned := has_to_owned agg \<or> to_owned\<rparr>
      in res_bind (if to_owned then add_amount (incoming_total agg) value ''incoming_total''
                   else Inr (incoming_total agg)) (\<lambda>incoming.
         res_bind (if from_owned then add_amount (outgoing_total agg) value ''outgoing_total''
                   else Inr (outgoing_total agg)) (\<lambda>outgoing.
         res_bind (if from_owned \<and> to_owned then add_amount (self_transfer_total agg) value ''self_transfer_total''
                   else Inr (self_transfer_total agg)) (\<lambda>self_transfer.
         Inr (agg1\<lparr>incoming_total := incoming, outgoing_total := outgoing, self_transfer_total := self_transfer,
           agg_from_addresses := insert_address (at_from_address atr) (agg_from_addresses agg),
           agg_to_addresses := insert_address (at_to_address atr) (agg_to_addresses agg)\<rparr>)))))"

definition aggregate_transfer_row ::
  "parse_datetime \<Rightarrow> UserDb \<Rightarrow> ulid \<Rightarrow> (string \<times> AggregatedAccountTx) list \<Rightarrow> transfer_row \<Rightarrow>
     DbError + (string \<times> AggregatedAccountTx) list" where
  "aggregate_transfer_row pd db account_id by_hash row =
     (case row of (ct, atr) \<Rightarrow>
        if str_trim (ct_tx_hash ct) = [] then Inl (DbError ''Invalid account model ledger row: empty tx_hash'')
        else
          res_bind (parse_chain_status (ct_status ct)) (\<lambda>status.
          res_bind (parse_optional_datetime_field pd ''block_time'' (ct_block_time ct)) (\<lambda>block_time.
          res_bind (parse_datetime_field pd ''created_at'' (ct_created_at ct)) (\<lambda>first_seen_at.
          res_bind (parse_datetime_field pd ''updated_at'' (ct_updated_at ct)) (\<lambda>updated_at.
          res_bind (parse_split_amount (at_value_amount_hi atr) (at_value_amount_lo atr) ''value_amount'') (\<lambda>value.
          res_bind (parse_optional_split_amount (ct_fee_amount_hi ct) (ct_fee_amount_lo ct) ''fee_amount'') (\<lambda>fee.
          entry_modify (ct_tx_hash ct)
            \<lparr>agg_chain_transaction_id = ct_id ct, agg_tx_hash = ct_tx_hash ct, agg_status = status,
             agg_block_height = ct_block_height ct, agg_block_time = block_time, agg_nonce = ct_nonce ct,
             agg_first_seen_at = first_seen_at, agg_updated_at = updated_at,
             agg_min_transfer_index = Some (at_transfer_index atr),
             has_from_owned = False, has_owned_normal_sender = False, has_to_owned = False,
             incoming_total = 0, outgoing_total = 0, self_transfer_total = 0, agg_fee = fee,
             agg_from_addresses = [], agg_to_addresses = []\<rparr>
            (absorb_transfer (owns_optional_address db account_id (at_from_address_id atr))
               (owns_optional_address db account_id (at_to_address_id atr)) value atr)
            by_hash)))))))"

definition occurred_at_of :: "ChainTransactionStatus \<Rightarrow> time option \<Rightarrow> time \<Rightarrow> time \<Rightarrow> time" where
  "occurred_at_of status block_time updated_at first_seen_at =
     (if status = Confirmed \<or> status = Failed
      then (case block_time of Some t \<Rightarrow> t | None \<Rightarrow> updated_at) else first_seen_at)"

definition account_entry_of :: "AggregatedAccountTx \<Rightarrow> DbError + LedgerBuildEntry" where
  "account_entry_of agg =
     (let direction = (if has_from_owned agg \<and> has_to_owned agg then SelfTransfer
                       else if has_from_owned agg then Outgoing else Incoming);
          value = (case direction of Incoming \<Rightarrow> incoming_total agg | Outgoing \<Rightarrow> outgoing_total agg
                   | SelfTransfer \<Rightarrow> self_transfer_total agg);
          fee = (if has_owned_normal_sender agg then agg_fee agg else None)
      in res_bind (to_signed_amount (incoming_total agg) ''incoming_total'') (\<lambda>incoming_signed.
         res_bind (to_signed_amount (outgoing_total agg) ''outgoing_total'') (\<lambda>outgoing_signed.
         res_bind (case fee of None \<Rightarrow> Inr 0 | Some v \<Rightarrow> to_signed_amount v ''fee_amount'') (\<lambda>fee_signed.
         res_bind (if has_owned_normal_sender agg \<and> agg_status agg \<noteq> Failed
                   then ok_or (DbError ''Signed underflow while applying account fee'')
                          (checked_sub_i128 (incoming_signed - outgoing_signed) fee_signed)
                   else Inr (incoming_signed - outgoing_signed)) (\<lambda>delta.
         let balance_delta = (if agg_status agg = Failed
                              then if has_owned_normal_sender agg then - fee_signed else 0
                              else delta)
         in Inr \<lparr>le_chain_transaction_id = agg_chain_transaction_id agg, le_tx_hash = agg_tx_hash agg,
                 le_status = agg_status agg,
                 le_occurred_at = occurred_at_of (agg_status agg) (agg_block_time agg) (agg_updated_at agg) (agg_first_seen_at agg),
                 le_first_seen_at = agg_first_seen_at agg, le_block_height = agg_block_height agg,
                 le_nonce = agg_nonce agg, le_min_transfer_index = agg_min_transfer_index agg,
                 le_direction = direction, le_value = value, le_fee = fee, le_balance_delta = balance_delta,
                 le_closing_balance = None, le_same_block_parent_hashes = [],
                 le_from_addresses = agg_from_addresses agg, le_to_addresses = agg_to_addresses agg\<rparr>)))))"

definition account_model_entries ::
  "(AggregatedAccountTx list \<Rightarrow> AggregatedAccountTx list) \<Rightarrow> parse_datetime \<Rightarrow> UserDb \<Rightarrow> ulid \<Rightarrow>
     SyncedAssetId \<Rightarrow> Network \<Rightarrow> DbError + LedgerBuildEntry list" where
  "account_model_entries iter pd db account_id asset network =
     res_bind (res_fold (aggregate_transfer_row pd db account_id) []
                 (account_model_rows db account_id asset network)) (\<lambda>by_hash.
       res_mapM account_entry_of (iter (map snd by_hash)))"

subsection \<open>What an account-model entry says about its rows\<close>

definition row_hash :: "transfer_row \<Rightarrow> string" where
  "row_hash r = ct_tx_hash (fst r)"

definition row_from_owned :: "UserDb \<Rightarrow> ulid \<Rightarrow> transfer_row \<Rightarrow> bool" where
  "row_from_owned db account_id r = owns_optional_address db account_id (at_from_address_id (snd r))"

definition row_to_owned :: "UserDb \<Rightarrow> ulid \<Rightarrow> transfer_row \<Rightarrow> bool" where
  "row_to_owned db account_id r = owns_optional_address db account_id (at_to_address_id (snd r))"

definition row_pays_fee :: "UserDb \<Rightarrow> ulid \<Rightarrow> transfer_row \<Rightarrow> bool" where
  "row_pays_fee db account_id r \<longleftrightarrow> row_from_owned db account_id r \<and> is_normal_sender_transfer (snd r)"

definition row_value :: "transfer_row \<Rightarrow> nat" where
  "row_value r =
     (case parse_split_amount (at_value_amount_hi (snd r)) (at_value_amount_lo (snd r)) ''value_amount'' of
        Inr v \<Rightarrow> unat v | Inl e \<Rightarrow> 0)"

definition rows_received :: "UserDb \<Rightarrow> ulid \<Rightarrow> transfer_row list \<Rightarrow> nat" where
  "rows_received db account_id rs = (\<Sum>r\<leftarrow>rs. if row_to_owned db account_id r then row_value r else 0)"

definition rows_sent :: "UserDb \<Rightarrow> ulid \<Rightarrow> transfer_row list \<Rightarrow> nat" where
  "rows_sent db account_id rs = (\<Sum>r\<leftarrow>rs. if row_from_owned db account_id r then row_value r else 0)"

definition rows_moved_within :: "UserDb \<Rightarrow> ulid \<Rightarrow> transfer_row list \<Rightarrow> nat" where
  "rows_moved_within db account_id rs =
     (\<Sum>r\<leftarrow>rs. if row_from_owned db account_id r \<and> row_to_owned db account_id r then row_value r else 0)"

definition rows_of :: "string \<Rightarrow> transfer_row list \<Rightarrow> transfer_row list" where
  "rows_of h rows = filter (\<lambda>r. row_hash r = h) rows"

definition tx_header_ok :: "transfer_row \<Rightarrow> AggregatedAccountTx \<Rightarrow> bool" where
  "tx_header_ok r agg \<longleftrightarrow>
     parse_chain_status (ct_status (fst r)) = Inr (agg_status agg) \<and>
     parse_optional_split_amount (ct_fee_amount_hi (fst r)) (ct_fee_amount_lo (fst r)) ''fee_amount'' = Inr (agg_fee agg)"

definition agg_ok :: "UserDb \<Rightarrow> ulid \<Rightarrow> transfer_row list \<Rightarrow> AggregatedAccountTx \<Rightarrow> bool" where
  "agg_ok db account_id rs agg \<longleftrightarrow>
     (has_from_owned agg \<longleftrightarrow> (\<exists>r \<in> set rs. row_from_owned db account_id r)) \<and>
     (has_to_owned agg \<longleftrightarrow> (\<exists>r \<in> set rs. row_to_owned db account_id r)) \<and>
     (has_owned_normal_sender agg \<longleftrightarrow> (\<exists>r \<in> set rs. row_pays_fee db account_id r)) \<and>
     unat (incoming_total agg) = rows_received db account_id rs \<and>
     unat (outgoing_total agg) = rows_sent db account_id rs \<and>
     unat (self_transfer_total agg) = rows_moved_within db account_id rs"

lemma add_amount_exact: "add_amount a b f = Inr c \<Longrightarrow> unat c = unat a + unat b"
  by (simp add: add_amount_def amount_checked_add_def)

lemma absorb_transfer_ok:
  assumes "absorb_transfer (row_from_owned db acc r) (row_to_owned db acc r) v (snd r) agg = Inr agg'"
    and "agg_ok db acc rs agg" and "row_value r = unat v"
  shows "agg_ok db acc (rs @ [r]) agg' \<and> agg_tx_hash agg' = agg_tx_hash agg \<and>
    agg_status agg' = agg_status agg \<and> agg_fee agg' = agg_fee agg"
proof -
  from assms(1) obtain i out m where
    i: "(if row_to_owned db acc r then add_amount (incoming_total agg) v ''incoming_total'' else Inr (incoming_total agg)) = Inr i"
    and out: "(if row_from_owned db acc r then add_amount (outgoing_total agg) v ''outgoing_total'' else Inr (outgoing_total agg)) = Inr out"
    and m: "(if row_from_owned db acc r \<and> row_to_owned db acc r
        then add_amount (self_transfer_total agg) v ''self_transfer_total'' else Inr (self_transfer_total agg)) = Inr m"
    and agg': "incoming_total agg' = i" "outgoing_total agg' = out" "self_transfer_total agg' = m"
      "has_from_owned agg' = (has_from_owned agg \<or> row_from_owned db acc r)"
      "has_to_owned agg' = (has_to_owned agg \<or> row_to_owned db acc r)"
      "has_owned_normal_sender agg' = (has_owned_normal_sender agg \<or> row_pays_fee db acc r)"
      "agg_tx_hash agg' = agg_tx_hash agg" "agg_status agg' = agg_status agg" "agg_fee agg' = agg_fee agg"
    unfolding absorb_transfer_def Let_def res_bind_Inr_iff row_pays_fee_def by fastforce
  have "unat i = rows_received db acc (rs @ [r])"
    using i assms(2,3) by (auto simp: rows_received_def agg_ok_def add_amount_exact split: if_splits)
  moreover have "unat out = rows_sent db acc (rs @ [r])"
    using out assms(2,3) by (auto simp: rows_sent_def agg_ok_def add_amount_exact split: if_splits)
  moreover have "unat m = rows_moved_within db acc (rs @ [r])"
    using m assms(2,3) by (auto simp: rows_moved_within_def agg_ok_def add_amount_exact split: if_splits)
  ultimately show ?thesis using agg' assms(2) by (simp add: agg_ok_def disj_commute)
qed

text \<open>The state of the aggregation loop after a prefix of the rows.\<close>

definition by_hash_ok :: "UserDb \<Rightarrow> ulid \<Rightarrow> transfer_row list \<Rightarrow> (string \<times> AggregatedAccountTx) list \<Rightarrow> bool" where
  "by_hash_ok db acc rows m \<longleftrightarrow>
     distinct (map fst m) \<and> set (map fst m) = row_hash ` set rows \<and>
     (\<forall>h agg. map_of m h = Some agg \<longrightarrow>
        agg_tx_hash agg = h \<and> tx_header_ok (hd (rows_of h rows)) agg \<and> agg_ok db acc (rows_of h rows) agg)"

lemma rows_of_snoc: "rows_of h (rows @ [r]) = rows_of h rows @ (if row_hash r = h then [r] else [])"
  by (simp add: rows_of_def)

lemma rows_of_empty: "h \<notin> row_hash ` set rows \<longleftrightarrow> rows_of h rows = []"
  by (auto simp: rows_of_def filter_empty_conv)

lemma aggregate_transfer_row_ok:
  assumes "aggregate_transfer_row pd db acc m r = Inr m'" and "by_hash_ok db acc rows m"
  shows "by_hash_ok db acc (rows @ [r]) m'"
proof -
  obtain ct atr where r: "r = (ct, atr)" by (cases r)
  from assms(1) r obtain status v fee d where
    st: "parse_chain_status (ct_status ct) = Inr status"
    and v: "parse_split_amount (at_value_amount_hi atr) (at_value_amount_lo atr) ''value_amount'' = Inr v"
    and fee: "parse_optional_split_amount (ct_fee_amount_hi ct) (ct_fee_amount_lo ct) ''fee_amount'' = Inr fee"
    and em: "entry_modify (row_hash r) d (absorb_transfer (row_from_owned db acc r) (row_to_owned db acc r) v (snd r)) m = Inr m'"
    and d: "agg_tx_hash d = row_hash r" "agg_status d = status" "agg_fee d = fee" "agg_ok db acc [] d"
    by (auto simp: aggregate_transfer_row_def row_hash_def row_from_owned_def row_to_owned_def agg_ok_def
        rows_received_def rows_sent_def rows_moved_within_def split: if_splits)
  let ?h = "row_hash r"
  let ?old = "case map_of m ?h of None \<Rightarrow> d | Some agg \<Rightarrow> agg"
  have rv: "row_value r = unat v" using v r by (simp add: row_value_def)
  have dist: "distinct (map fst m)" and keys: "set (map fst m) = row_hash ` set rows"
    and old: "\<And>h agg. map_of m h = Some agg \<Longrightarrow>
      agg_tx_hash agg = h \<and> tx_header_ok (hd (rows_of h rows)) agg \<and> agg_ok db acc (rows_of h rows) agg"
    using assms(2) by (auto simp: by_hash_ok_def)
  from entry_modify_spec [OF em dist] obtain agg' where
    m': "distinct (map fst m')" "set (map fst m') = insert ?h (set (map fst m))"
    and ab: "absorb_transfer (row_from_owned db acc r) (row_to_owned db acc r) v (snd r) ?old = Inr agg'"
    and mo: "map_of m' = (map_of m)(?h \<mapsto> agg')" by blast
  have olds: "agg_ok db acc (rows_of ?h rows) ?old \<and> agg_tx_hash ?old = ?h \<and> tx_header_ok (hd (rows_of ?h (rows @ [r]))) ?old"
  proof (cases "map_of m ?h")
    case None
    then have "rows_of ?h rows = []" using keys by (metis map_of_eq_None_iff rows_of_empty set_map)
    with None d st fee r show ?thesis by (simp add: rows_of_snoc tx_header_ok_def)
  next
    case (Some agg)
    then have "?h \<in> set (map fst m)" by (metis map_of_eq_None_iff option.distinct(1) set_map)
    then have "rows_of ?h rows \<noteq> []" using keys rows_of_empty by metis
    with Some old [OF Some] show ?thesis by (simp add: rows_of_snoc)
  qed
  have new: "agg_ok db acc (rows_of ?h (rows @ [r])) agg' \<and> agg_tx_hash agg' = ?h \<and>
      tx_header_ok (hd (rows_of ?h (rows @ [r]))) agg'"
    using absorb_transfer_ok [OF ab conjunct1 [OF olds] rv] olds by (simp add: rows_of_snoc tx_header_ok_def)
  have "agg_tx_hash agg = h \<and> tx_header_ok (hd (rows_of h (rows @ [r]))) agg \<and> agg_ok db acc (rows_of h (rows @ [r])) agg"
    if "map_of m' h = Some agg" for h agg
  proof (cases "h = ?h")
    case True
    with that new mo show ?thesis by simp
  next
    case False
    with that mo have "map_of m h = Some agg" by simp
    from old [OF this] False show ?thesis by (simp add: rows_of_snoc)
  qed
  with m' keys show ?thesis by (simp add: by_hash_ok_def)
qed

lemma aggregate_rows_ok:
  assumes "res_fold (aggregate_transfer_row pd db acc) [] rows = Inr m"
  shows "by_hash_ok db acc rows m"
  using assms
proof (induction rows arbitrary: m rule: rev_induct)
  case Nil
  then show ?case by (simp add: by_hash_ok_def)
next
  case (snoc r rows)
  then obtain n where "res_fold (aggregate_transfer_row pd db acc) [] rows = Inr n"
    and "aggregate_transfer_row pd db acc n r = Inr m" by (auto simp: res_fold_append)
  with snoc.IH aggregate_transfer_row_ok show ?case by blast
qed

definition amount_or_zero :: "UnsignedAmount option \<Rightarrow> int" where
  "amount_or_zero a = (case a of None \<Rightarrow> 0 | Some v \<Rightarrow> uint v)"

lemma account_entry_of_delta:
  assumes "account_entry_of agg = Inr e"
  shows "le_tx_hash e = agg_tx_hash agg \<and> le_status e = agg_status agg \<and>
    le_fee e = (if has_owned_normal_sender agg then agg_fee agg else None) \<and>
    le_balance_delta e =
      (if agg_status agg = Failed then 0 else uint (incoming_total agg) - uint (outgoing_total agg)) -
      amount_or_zero (le_fee e) \<and>
    le_direction e = (if has_from_owned agg \<and> has_to_owned agg then SelfTransfer
       else if has_from_owned agg then Outgoing else Incoming) \<and>
    le_value e = (case le_direction e of Incoming \<Rightarrow> incoming_total agg | Outgoing \<Rightarrow> outgoing_total agg
       | SelfTransfer \<Rightarrow> self_transfer_total agg)"
  using assms
  by (auto simp: account_entry_of_def Let_def to_signed_amount_def amount_or_zero_def
      split: if_splits option.splits)

text \<open>
  C32. The entries of an account-model account (Ethereum). There is one entry per transaction that has a
  transfer touching the account, and its balance change is the exact sum: what the account's addresses
  received, minus what they sent, minus the fee when one of them is the sender of the normal transfer.
  A failed transaction moves nothing but still costs the sender the fee. Transfers between the
  account's own addresses cancel.
\<close>

theorem account_model_entries_delta:
  assumes "\<And>xs. mset (iter xs) = mset xs"
    and "account_model_entries iter pd db acc asset network = Inr es"
  defines "rows \<equiv> account_model_rows db acc asset network"
  shows "distinct (map le_tx_hash es) \<and> le_tx_hash ` set es = row_hash ` set rows \<and>
    (\<forall>e \<in> set es. let rs = rows_of (le_tx_hash e) rows in
      (le_fee e \<noteq> None \<longrightarrow> (\<exists>r \<in> set rs. row_pays_fee db acc r)) \<and>
      ((\<exists>r \<in> set rs. row_pays_fee db acc r) \<longrightarrow>
         parse_optional_split_amount (ct_fee_amount_hi (fst (hd rs))) (ct_fee_amount_lo (fst (hd rs))) ''fee_amount'' = Inr (le_fee e)) \<and>
      le_balance_delta e =
        (if le_status e = Failed then 0 else int (rows_received db acc rs) - int (rows_sent db acc rs)) -
        amount_or_zero (le_fee e))"
proof -
  from assms(2) obtain m where m: "res_fold (aggregate_transfer_row pd db acc) [] rows = Inr m"
    and es: "res_mapM account_entry_of (iter (map snd m)) = Inr es"
    by (auto simp: account_model_entries_def rows_def)
  have ok: "by_hash_ok db acc rows m" by (rule aggregate_rows_ok [OF m])
  then have dist: "distinct (map fst m)" by (simp add: by_hash_ok_def)
  have hash: "agg_tx_hash a = h" if "(h, a) \<in> set m" for h a
    using ok that dist by (simp add: by_hash_ok_def)
  have all2: "list_all2 (\<lambda>a e. account_entry_of a = Inr e) (iter (map snd m)) es"
    using es by (simp add: res_mapM_Inr_iff)
  then have hashes: "map le_tx_hash es = map agg_tx_hash (iter (map snd m))"
    by (induction rule: list_all2_induct) (auto dest: account_entry_of_delta)
  have "mset (map agg_tx_hash (iter (map snd m))) = mset (map agg_tx_hash (map snd m))"
    by (simp only: mset_map assms(1))
  also have "map agg_tx_hash (map snd m) = map fst m" using hash by (auto simp: map_eq_conv)
  finally have ms: "mset (map le_tx_hash es) = mset (map fst m)" unfolding hashes .
  have "distinct (map le_tx_hash es)" using mset_eq_imp_distinct_iff [OF ms] dist by blast
  moreover have "le_tx_hash ` set es = row_hash ` set rows"
    using mset_eq_setD [OF ms] ok by (simp add: by_hash_ok_def)
  moreover have "let rs = rows_of (le_tx_hash e) rows in
      (le_fee e \<noteq> None \<longrightarrow> (\<exists>r \<in> set rs. row_pays_fee db acc r)) \<and>
      ((\<exists>r \<in> set rs. row_pays_fee db acc r) \<longrightarrow>
         parse_optional_split_amount (ct_fee_amount_hi (fst (hd rs))) (ct_fee_amount_lo (fst (hd rs))) ''fee_amount'' = Inr (le_fee e)) \<and>
      le_balance_delta e =
        (if le_status e = Failed then 0 else int (rows_received db acc rs) - int (rows_sent db acc rs)) -
        amount_or_zero (le_fee e)" if "e \<in> set es" for e
  proof -
    from list_all2_mem2 [OF all2 that] obtain a where a: "a \<in> set (iter (map snd m))" "account_entry_of a = Inr e"
      by blast
    have "a \<in> set (map snd m)" using a(1) mset_eq_setD [OF assms(1)] by blast
    then obtain h where "(h, a) \<in> set m" by auto
    then have "map_of m h = Some a" using dist by simp
    with ok have aok: "agg_tx_hash a = h" "tx_header_ok (hd (rows_of h rows)) a" "agg_ok db acc (rows_of h rows) a"
      by (simp_all add: by_hash_ok_def)
    have e: "le_tx_hash e = h" using account_entry_of_delta [OF a(2)] aok(1) by simp
    have u: "uint (x :: u128) = int (unat x)" for x by simp
    show ?thesis
      using account_entry_of_delta [OF a(2)] aok
      unfolding e Let_def u by (auto simp: agg_ok_def tx_header_ok_def)
  qed
  ultimately show ?thesis by blast
qed

text \<open>A database with one confirmed outgoing transfer of 100 and a fee of 21, to run the operations on.\<close>

definition sample_eth_db :: UserDb where
  "sample_eth_db = \<lparr>wallets = [], digital_asset_accounts = [],
    digital_asset_addresses = [\<lparr>da_id = ''d1'', da_account_id = Some ''acc'', da_address = ''0xa''\<rparr>],
    chain_transactions = [\<lparr>ct_id = ''t1'', ct_asset_id = ''ethereum'', ct_network = ''mainnet'', ct_tx_hash = ''h1'',
      ct_status = ''confirmed'', ct_block_height = Some 5, ct_block_hash = None, ct_block_time = None, ct_nonce = Some 0,
      ct_fee_amount_hi = Some 0, ct_fee_amount_lo = Some 21, ct_created_at = ''a'', ct_updated_at = ''b''\<rparr>],
    account_transfers = [\<lparr>at_chain_transaction_id = ''t1'', at_asset_id = ''ethereum'', at_network = ''mainnet'', at_tx_hash = ''h1'',
      at_transfer_index = 0, at_provider_transfer_key = ''normal'', at_transfer_kind = ''normal'',
      at_from_address = Some ''0xa'', at_from_address_id = Some ''d1'', at_to_address = None, at_to_address_id = None,
      at_value_amount_hi = 0, at_value_amount_lo = 100\<rparr>],
    transaction_inputs = [], transaction_outputs = [], utxos = [], transaction_sync_state = [], account_sync_state = [],
    hd_account_chain_sync_state = [], account_integration_sync_state = [], account_transaction_ledger = []\<rparr>"

lemma sample_eth_rows:
  "account_model_rows sample_eth_db ''acc'' Ethereum Mainnet =
     [(hd (chain_transactions sample_eth_db), hd (account_transfers sample_eth_db))]"
  by (simp add: account_model_rows_def sample_eth_db_def owns_optional_address_def owns_address_def)

lemma str_trim_h1: "str_trim ''h1'' \<noteq> []"
  by (simp add: str_trim_def str_trim_start.simps str_trim_rev.simps strip_any_def utf8_whitespace_def
      List.map_filter_def char_of_eq_iff take_bit_eq_mod)

lemma sample_eth_entries:
  "\<exists>es. account_model_entries id (\<lambda>s. Inr 0) sample_eth_db ''acc'' Ethereum Mainnet = Inr es \<and>
     map le_balance_delta es = [- 121]"
  unfolding account_model_entries_def sample_eth_rows
  using str_trim_h1
  by (simp add: sample_eth_db_def aggregate_transfer_row_def parse_chain_status_def status_from_db_value_def
    parse_optional_datetime_field_def parse_datetime_field_def parse_split_amount_value in_i64_def parse_optional_split_amount_Some
    absorb_transfer_def owns_optional_address_def owns_address_def is_normal_sender_transfer_def add_amount_def amount_checked_add_exact
    account_entry_of_def to_signed_amount_def i128_try_from_def in_i128_def checked_sub_i128_def Let_def)

theorem account_model_entries_delta_witness:
  "\<exists>es. account_model_entries id (\<lambda>s. Inr 0) sample_eth_db ''acc'' Ethereum Mainnet = Inr es \<and>
     map le_balance_delta es = [- 121] \<and> distinct (map le_tx_hash es) \<and> le_tx_hash ` set es = {''h1''}"
proof -
  obtain es where es: "account_model_entries id (\<lambda>s. Inr 0) sample_eth_db ''acc'' Ethereum Mainnet = Inr es"
    and d: "map le_balance_delta es = [- 121]" using sample_eth_entries by metis
  have "mset (id xs) = mset xs" for xs :: "AggregatedAccountTx list" by simp
  from account_model_entries_delta [OF this es] have dist: "distinct (map le_tx_hash es)"
    and hashes: "le_tx_hash ` set es = row_hash ` set (account_model_rows sample_eth_db ''acc'' Ethereum Mainnet)"
    by blast+
  have "row_hash ` set (account_model_rows sample_eth_db ''acc'' Ethereum Mainnet) = {''h1''}"
    unfolding sample_eth_rows by (simp add: sample_eth_db_def row_hash_def)
  with hashes have "le_tx_hash ` set es = {''h1''}" by simp
  with es d dist show ?thesis by metis
qed

subsection \<open>UTXO assets\<close>

text \<open>\<open>SUM\<close> over an \<open>INTEGER\<close> column: \<open>NULL\<close> values are skipped, an overflow of the 64-bit running
  sum makes the query fail.\<close>

definition sql_sum :: "int list \<Rightarrow> int option" where
  "sql_sum xs = foldl (\<lambda>acc x. Option.bind acc (\<lambda>a. i64_try_from (a + x))) (Some 0) xs"

definition owned_outputs :: "UserDb \<Rightarrow> ulid \<Rightarrow> ulid \<Rightarrow> TransactionOutputRow list" where
  "owned_outputs db account_id tx_id =
     filter (\<lambda>txo. txo_tx_id txo = tx_id \<and> owns_address db account_id (txo_address_id txo)) (transaction_outputs db)"

definition owned_inputs :: "UserDb \<Rightarrow> ulid \<Rightarrow> ulid \<Rightarrow> TransactionInputRow list" where
  "owned_inputs db account_id tx_id =
     filter (\<lambda>ti. ti_tx_id ti = tx_id \<and> owns_address db account_id (ti_address_id ti)) (transaction_inputs db)"

definition touches_account :: "UserDb \<Rightarrow> ulid \<Rightarrow> ulid \<Rightarrow> bool" where
  "touches_account db account_id tx_id \<longleftrightarrow>
     owned_inputs db account_id tx_id \<noteq> [] \<or> owned_outputs db account_id tx_id \<noteq> []"

definition load_utxo_owned_addresses_for_tx :: "UserDb \<Rightarrow> ulid \<Rightarrow> ulid \<Rightarrow> string \<Rightarrow> DbError + string list" where
  "load_utxo_owned_addresses_for_tx db account_id tx_id source_table =
     (let addresses_of = (\<lambda>ids. btree_of_list
            [da_address da. i \<leftarrow> ids, da \<leftarrow> digital_asset_addresses db,
               da_id da = i \<and> da_account_id da = Some account_id])
      in if source_table = ''inputs'' then
           Inr (filter (\<lambda>a. str_trim a \<noteq> [])
             (addresses_of [ti_address_id ti. ti \<leftarrow> transaction_inputs db, ti_tx_id ti = tx_id]))
         else if source_table = ''outputs'' then
           Inr (filter (\<lambda>a. str_trim a \<noteq> [])
             (addresses_of [txo_address_id txo. txo \<leftarrow> transaction_outputs db, txo_tx_id txo = tx_id]))
         else Inl (DbError ''Invalid UTXO source table for address lookup''))"

text \<open>The distinct pairs of a confirmed transaction of the account and a confirmed transaction of the
  account in the same block whose output it spends, ordered; then grouped by the spending transaction.\<close>

definition same_block_dependency_rows :: "UserDb \<Rightarrow> ulid \<Rightarrow> SyncedAssetId \<Rightarrow> Network \<Rightarrow> (ulid \<times> string) list" where
  "same_block_dependency_rows db account_id asset network =
     btree_of_list
       [(ct_id child, ti_prev_tx_hash ti).
          child \<leftarrow> chain_transactions db, ti \<leftarrow> transaction_inputs db, ti_tx_id ti = ct_id child,
          parent \<leftarrow> chain_transactions db,
          ct_asset_id parent = ct_asset_id child \<and> ct_network parent = ct_network child \<and>
          ct_tx_hash parent = ti_prev_tx_hash ti \<and>
          ct_asset_id child = asset_as_str asset \<and> ct_network child = network_as_str network \<and>
          ct_status child = ''confirmed'' \<and> ct_status parent = ''confirmed'' \<and>
          ct_block_height parent \<noteq> None \<and> ct_block_height parent = ct_block_height child \<and>
          touches_account db account_id (ct_id parent) \<and> touches_account db account_id (ct_id child)]"

definition load_same_block_parent_hashes_for_account ::
  "UserDb \<Rightarrow> ulid \<Rightarrow> SyncedAssetId \<Rightarrow> Network \<Rightarrow> (ulid \<times> string list) list" where
  "load_same_block_parent_hashes_for_account db account_id asset network =
     fold (\<lambda>(child_id, parent_hash) by_child.
       case map_of by_child child_id of
         None \<Rightarrow> by_child @ [(child_id, [parent_hash])]
       | Some hs \<Rightarrow> map (\<lambda>(k, v). if k = child_id then (k, v @ [parent_hash]) else (k, v)) by_child)
       (same_block_dependency_rows db account_id asset network) []"

text \<open>The query: the transactions of the asset and network with an owned input or output, ordered by creation
  time and hash, each with the sums of its owned output and input columns.\<close>

definition utxo_model_rows :: "UserDb \<Rightarrow> ulid \<Rightarrow> SyncedAssetId \<Rightarrow> Network \<Rightarrow> ChainTransactionRow list" where
  "utxo_model_rows db account_id asset network =
     sort_key (\<lambda>ct. (ct_created_at ct, ct_tx_hash ct))
       (filter (\<lambda>ct. ct_asset_id ct = asset_as_str asset \<and> ct_network ct = network_as_str network \<and>
                     touches_account db account_id (ct_id ct)) (chain_transactions db))"

record OwnedSums =
  output_hi :: int
  output_lo :: int
  input_hi :: int
  input_lo :: int

definition owned_sums :: "UserDb \<Rightarrow> ulid \<Rightarrow> ulid \<Rightarrow> OwnedSums option" where
  "owned_sums db account_id tx_id =
     (let outs = owned_outputs db account_id tx_id; ins = owned_inputs db account_id tx_id
      in Option.bind (sql_sum (map txo_value_amount_hi outs)) (\<lambda>ohi.
         Option.bind (sql_sum (map txo_value_amount_lo outs)) (\<lambda>olo.
         Option.bind (sql_sum (List.map_filter ti_value_amount_hi ins)) (\<lambda>ihi.
         Option.bind (sql_sum (List.map_filter ti_value_amount_lo ins)) (\<lambda>ilo.
         Some \<lparr>output_hi = ohi, output_lo = olo, input_hi = ihi, input_lo = ilo\<rparr>)))))"

definition utxo_entry_step ::
  "parse_datetime \<Rightarrow> UserDb \<Rightarrow> ulid \<Rightarrow> LedgerBuildEntry list \<times> (ulid \<times> string list) list \<Rightarrow>
     ChainTransactionRow \<times> OwnedSums \<Rightarrow> DbError + LedgerBuildEntry list \<times> (ulid \<times> string list) list" where
  "utxo_entry_step pd db account_id st row =
     (case (st, row) of ((entries, parents), (ct, sums)) \<Rightarrow>
        if str_trim (ct_tx_hash ct) = [] then Inl (DbError ''Invalid UTXO ledger row: empty tx_hash'')
        else
          res_bind (parse_chain_status (ct_status ct)) (\<lambda>status.
          res_bind (parse_optional_datetime_field pd ''block_time'' (ct_block_time ct)) (\<lambda>block_time.
          res_bind (parse_datetime_field pd ''created_at'' (ct_created_at ct)) (\<lambda>first_seen_at.
          res_bind (parse_datetime_field pd ''updated_at'' (ct_updated_at ct)) (\<lambda>updated_at.
          res_bind (parse_split_sum_amount (output_hi sums) (output_lo sums) ''owned_output_total'') (\<lambda>owned_output_total.
          res_bind (parse_split_sum_amount (input_hi sums) (input_lo sums) ''owned_input_total'') (\<lambda>owned_input_total.
          res_bind (if owned_input_total > 0
                    then parse_optional_split_amount (ct_fee_amount_hi ct) (ct_fee_amount_lo ct) ''fee_amount''
                    else Inr None) (\<lambda>fee.
          let classified = classify_utxo_ledger_flow owned_input_total owned_output_total fee in
          res_bind (to_signed_amount owned_output_total ''owned_output_total'') (\<lambda>incoming_signed.
          res_bind (to_signed_amount owned_input_total ''owned_input_total'') (\<lambda>outgoing_signed.
          res_bind (ok_or (DbError ''Signed underflow while building UTXO balance delta'')
                     (checked_sub_i128 incoming_signed outgoing_signed)) (\<lambda>delta.
          let balance_delta = (if status = Failed then 0 else delta) in
          res_bind (load_utxo_owned_addresses_for_tx db account_id (ct_id ct) ''inputs'') (\<lambda>from_addresses.
          res_bind (load_utxo_owned_addresses_for_tx db account_id (ct_id ct) ''outputs'') (\<lambda>to_addresses.
          Inr (entries @
                 [\<lparr>le_chain_transaction_id = ct_id ct, le_tx_hash = ct_tx_hash ct, le_status = status,
                   le_occurred_at = occurred_at_of status block_time updated_at first_seen_at,
                   le_first_seen_at = first_seen_at, le_block_height = ct_block_height ct, le_nonce = ct_nonce ct,
                   le_min_transfer_index = None, le_direction = flow_direction classified,
                   le_value = flow_value classified, le_fee = fee, le_balance_delta = balance_delta,
                   le_closing_balance = None,
                   le_same_block_parent_hashes = (case map_of parents (ct_id ct) of None \<Rightarrow> [] | Some hs \<Rightarrow> hs),
                   le_from_addresses = from_addresses, le_to_addresses = to_addresses\<rparr>],
               filter (\<lambda>(k, v). k \<noteq> ct_id ct) parents))))))))))))))"

definition utxo_model_entries ::
  "parse_datetime \<Rightarrow> UserDb \<Rightarrow> ulid \<Rightarrow> SyncedAssetId \<Rightarrow> Network \<Rightarrow> DbError + LedgerBuildEntry list" where
  "utxo_model_entries pd db account_id asset network =
     (let parents = load_same_block_parent_hashes_for_account db account_id asset network in
      res_bind (res_mapM (\<lambda>ct. res_map (Pair ct)
                  (ok_or (DbError ''Failed to map UTXO ledger row: integer overflow'')
                    (owned_sums db account_id (ct_id ct))))
                 (utxo_model_rows db account_id asset network)) (\<lambda>rows.
      res_map fst (res_fold (utxo_entry_step pd db account_id) ([], parents) rows)))"

definition collect_entries_for_account ::
  "(AggregatedAccountTx list \<Rightarrow> AggregatedAccountTx list) \<Rightarrow> parse_datetime \<Rightarrow> UserDb \<Rightarrow> ulid \<Rightarrow>
     SyncedAssetId \<Rightarrow> Network \<Rightarrow> DbError + LedgerBuildEntry list" where
  "collect_entries_for_account iter pd db account_id asset network =
     (case account_model_for asset of
        Account \<Rightarrow> account_model_entries iter pd db account_id asset network
      | Utxo \<Rightarrow> utxo_model_entries pd db account_id asset network)"

subsection \<open>What a UTXO entry says about its rows\<close>

text \<open>
  The direction, value and fee of a UTXO entry account for its balance change. When the account funds
  the whole transaction, or none of it, the change is plus the value for an incoming transaction, minus value and
  fee for an outgoing one, and minus the fee for a transfer within the account.
\<close>

theorem classify_utxo_ledger_flow_accounts_for_delta:
  assumes "i = 0 \<longrightarrow> fee = None"
    and "i \<noteq> 0 \<longrightarrow> uint out + amount_or_zero fee \<le> uint i"
  shows "uint out - uint i =
    (case flow_direction (classify_utxo_ledger_flow i out fee) of
       Incoming \<Rightarrow> uint (flow_value (classify_utxo_ledger_flow i out fee))
     | Outgoing \<Rightarrow> - (uint (flow_value (classify_utxo_ledger_flow i out fee)) + amount_or_zero fee)
     | SelfTransfer \<Rightarrow> - amount_or_zero fee)"
proof -
  define f where "f = (case fee of None \<Rightarrow> 0 | Some v \<Rightarrow> v)"
  have fee: "amount_or_zero fee = int (unat f)" by (simp add: f_def amount_or_zero_def split: option.splits)
  have pos: "x > 0 \<longleftrightarrow> unat x > 0" for x :: u128 by (simp add: word_less_nat_alt)
  have f0: "i = 0 \<longrightarrow> unat f = 0" using assms(1) by (simp add: f_def)
  have le: "i \<noteq> 0 \<longrightarrow> unat out + unat f \<le> unat i"
  proof
    assume "i \<noteq> 0"
    with assms(2) have "int (unat out) + int (unat f) \<le> int (unat i)" by (simp add: fee)
    then show "unat out + unat f \<le> unat i" by linarith
  qed
  have i0: "i = 0 \<longleftrightarrow> unat i = 0" by (simp add: unat_eq_0)
  have "int (unat out) - int (unat i) =
    (case flow_direction (classify_utxo_ledger_flow i out fee) of
       Incoming \<Rightarrow> int (unat (flow_value (classify_utxo_ledger_flow i out fee)))
     | Outgoing \<Rightarrow> - (int (unat (flow_value (classify_utxo_ledger_flow i out fee))) + int (unat f))
     | SelfTransfer \<Rightarrow> - int (unat f))"
    using le f0 unfolding i0 classify_utxo_ledger_flow_def Let_def f_def [symmetric] pos
    by (cases "unat i = 0") (auto simp del: of_nat_unat)
  then show ?thesis unfolding fee uint_nat .
qed

theorem classify_utxo_ledger_flow_accounts_for_delta_witness:
  "uint (60 :: u128) - uint (100 :: u128) = - (uint (flow_value (classify_utxo_ledger_flow 100 60 (Some 3))) + 3)"
proof -
  have d: "flow_direction (classify_utxo_ledger_flow 100 60 (Some 3)) = Outgoing"
    by (simp add: classify_utxo_ledger_flow_def saturating_sub_u_def)
  show ?thesis
    using classify_utxo_ledger_flow_accounts_for_delta [of 100 "Some 3" 60]
    unfolding d by (simp add: amount_or_zero_def)
qed

lemma sql_sum_Some: "sql_sum xs = Some s \<Longrightarrow> s = sum_list xs \<and> in_i64 s"
proof (induction xs arbitrary: s rule: rev_induct)
  case Nil
  then show ?case by (simp add: sql_sum_def in_i64_def)
next
  case (snoc x xs)
  then obtain a where "sql_sum xs = Some a" "in_i64 (a + x)" "s = a + x"
    by (auto simp: sql_sum_def split: bind_splits)
  with snoc.IH show ?case by simp
qed

definition owned_output_value :: "UserDb \<Rightarrow> ulid \<Rightarrow> ulid \<Rightarrow> int" where
  "owned_output_value db account_id tx_id =
     (\<Sum>txo\<leftarrow>owned_outputs db account_id tx_id. txo_value_amount_hi txo * 10 ^ 18 + txo_value_amount_lo txo)"

definition owned_input_value :: "UserDb \<Rightarrow> ulid \<Rightarrow> ulid \<Rightarrow> int" where
  "owned_input_value db account_id tx_id =
     (\<Sum>ti\<leftarrow>owned_inputs db account_id tx_id.
        (case ti_value_amount_hi ti of None \<Rightarrow> 0 | Some hi \<Rightarrow> hi * 10 ^ 18) +
        (case ti_value_amount_lo ti of None \<Rightarrow> 0 | Some lo \<Rightarrow> lo))"

lemma sum_list_map_filter:
  "(\<Sum>x\<leftarrow>List.map_filter f xs. c * x) = (\<Sum>x\<leftarrow>xs. case f x of None \<Rightarrow> 0 | Some y \<Rightarrow> c * (y :: int))"
  by (induction xs) (auto simp: List.map_filter_simps split: option.splits)

lemma owned_sums_value:
  assumes "owned_sums db acc tx = Some s"
  shows "output_hi s * 10 ^ 18 + output_lo s = owned_output_value db acc tx \<and>
    input_hi s * 10 ^ 18 + input_lo s = owned_input_value db acc tx \<and>
    in_i64 (output_hi s) \<and> in_i64 (output_lo s) \<and> in_i64 (input_hi s) \<and> in_i64 (input_lo s)"
proof -
  let ?outs = "owned_outputs db acc tx" and ?ins = "owned_inputs db acc tx"
  from assms have s: "sql_sum (map txo_value_amount_hi ?outs) = Some (output_hi s)"
      "sql_sum (map txo_value_amount_lo ?outs) = Some (output_lo s)"
      "sql_sum (List.map_filter ti_value_amount_hi ?ins) = Some (input_hi s)"
      "sql_sum (List.map_filter ti_value_amount_lo ?ins) = Some (input_lo s)"
    by (auto simp: owned_sums_def Let_def split: bind_splits)
  note v = s [THEN sql_sum_Some]
  have "input_hi s * 10 ^ 18 = (\<Sum>x\<leftarrow>List.map_filter ti_value_amount_hi ?ins. 10 ^ 18 * x)"
    using v(3) by (simp add: sum_list_const_mult)
  moreover have "input_lo s = (\<Sum>x\<leftarrow>List.map_filter ti_value_amount_lo ?ins. 1 * x)"
    using v(4) by simp
  ultimately have "input_hi s * 10 ^ 18 + input_lo s = owned_input_value db acc tx"
    unfolding sum_list_map_filter owned_input_value_def
    by (simp add: sum_list_addf mult.commute cong: option.case_cong)
  moreover have "output_hi s * 10 ^ 18 + output_lo s = owned_output_value db acc tx"
    using v(1,2) by (simp add: owned_output_value_def sum_list_addf sum_list_mult_const)
  ultimately show ?thesis using v by blast
qed

text \<open>What the loop establishes of the entry it appends for one transaction.\<close>

definition utxo_entry_ok :: "UserDb \<Rightarrow> ulid \<Rightarrow> ChainTransactionRow \<Rightarrow> LedgerBuildEntry \<Rightarrow> bool" where
  "utxo_entry_ok db account_id ct e \<longleftrightarrow>
     le_chain_transaction_id e = ct_id ct \<and> le_tx_hash e = ct_tx_hash ct \<and> le_block_height e = ct_block_height ct \<and>
     parse_chain_status (ct_status ct) = Inr (le_status e) \<and>
     le_balance_delta e =
       (if le_status e = Failed then 0
        else owned_output_value db account_id (ct_id ct) - owned_input_value db account_id (ct_id ct)) \<and>
     le_closing_balance e = None \<and>
     (owned_input_value db account_id (ct_id ct) = 0 \<longrightarrow>
        le_direction e = Incoming \<and> le_fee e = None \<and> uint (le_value e) = owned_output_value db account_id (ct_id ct))"

lemma utxo_entry_step_ok:
  assumes "utxo_entry_step pd db acc (entries, parents) (ct, sums) = Inr (entries', parents')"
    and "owned_sums db acc (ct_id ct) = Some sums"
  shows "\<exists>e. entries' = entries @ [e] \<and> utxo_entry_ok db acc ct e"
proof -
  note v = owned_sums_value [OF assms(2)]
  have nt: "str_trim (ct_tx_hash ct) \<noteq> []" using assms(1) by (auto simp: utxo_entry_step_def)
  note step = assms(1) [unfolded utxo_entry_step_def Let_def prod.case if_not_P [OF nt] res_bind_Inr_iff]
  obtain status where st: "parse_chain_status (ct_status ct) = Inr status" using step by blast
  obtain bt where bt: "parse_optional_datetime_field pd ''block_time'' (ct_block_time ct) = Inr bt" using step by blast
  obtain fs where fs: "parse_datetime_field pd ''created_at'' (ct_created_at ct) = Inr fs" using step by blast
  obtain ua where ua: "parse_datetime_field pd ''updated_at'' (ct_updated_at ct) = Inr ua" using step by blast
  obtain out where out: "parse_split_sum_amount (output_hi sums) (output_lo sums) ''owned_output_total'' = Inr out"
    using step by blast
  obtain i where i: "parse_split_sum_amount (input_hi sums) (input_lo sums) ''owned_input_total'' = Inr i"
    using step by blast
  obtain fee where feq: "(if i > 0 then parse_optional_split_amount (ct_fee_amount_hi ct) (ct_fee_amount_lo ct) ''fee_amount''
        else Inr None) = Inr fee" using step unfolding st bt fs ua out i by auto
  from assms(1) nt st bt fs ua out i feq obtain e where
    e: "entries' = entries @ [e]" "le_chain_transaction_id e = ct_id ct" "le_tx_hash e = ct_tx_hash ct"
      "le_block_height e = ct_block_height ct" "le_status e = status"
      "le_balance_delta e = (if status = Failed then 0 else uint out - uint i)" "le_closing_balance e = None"
      "le_fee e = fee" "le_direction e = flow_direction (classify_utxo_ledger_flow i out fee)"
      "le_value e = flow_value (classify_utxo_ledger_flow i out fee)"
    by (fastforce simp add: utxo_entry_step_def Let_def to_signed_amount_def)
  have fee: "i = 0 \<longrightarrow> fee = None" using feq by auto
  have "uint out = owned_output_value db acc (ct_id ct)"
    using parse_split_sum_amount_exact [OF _ _ out] v by simp
  moreover have iv: "uint i = owned_input_value db acc (ct_id ct)"
    using parse_split_sum_amount_exact [OF _ _ i] v by simp
  moreover have "flow_direction (classify_utxo_ledger_flow i out fee) = Incoming \<and>
      flow_value (classify_utxo_ledger_flow i out fee) = out" if "i = 0"
    using that by (simp add: classify_utxo_ledger_flow_def Let_def)
  moreover have "i = 0" if "owned_input_value db acc (ct_id ct) = 0"
    using that iv by (simp add: uint_0_iff)
  ultimately have "utxo_entry_ok db acc ct e" using e st fee by (auto simp: utxo_entry_ok_def)
  with e(1) show ?thesis by blast
qed

lemma utxo_entry_fold_ok:
  assumes "res_fold (utxo_entry_step pd db acc) (entries, parents) rows = Inr (entries', parents')"
    and "\<forall>(ct, sums) \<in> set rows. owned_sums db acc (ct_id ct) = Some sums"
  shows "\<exists>new. entries' = entries @ new \<and> list_all2 (utxo_entry_ok db acc) (map fst rows) new"
  using assms
proof (induction rows arbitrary: entries parents)
  case (Cons r rows)
  obtain ct sums where r: "r = (ct, sums)" by (cases r)
  from Cons.prems(1) obtain es ps where step: "utxo_entry_step pd db acc (entries, parents) (ct, sums) = Inr (es, ps)"
    and rest: "res_fold (utxo_entry_step pd db acc) (es, ps) rows = Inr (entries', parents')"
    by (auto simp: r)
  have "owned_sums db acc (ct_id ct) = Some sums" using Cons.prems(2) r by simp
  from utxo_entry_step_ok [OF step this] obtain e where e: "es = entries @ [e]" "utxo_entry_ok db acc ct e" by blast
  from Cons.IH [OF rest] Cons.prems(2) obtain new where "entries' = es @ new" "list_all2 (utxo_entry_ok db acc) (map fst rows) new"
    by auto
  with e r show ?case by (intro exI [of _ "e # new"]) simp
qed simp

lemma utxo_model_entries_all2:
  assumes "utxo_model_entries pd db acc asset network = Inr es"
  shows "list_all2 (utxo_entry_ok db acc) (utxo_model_rows db acc asset network) es"
proof -
  let ?rows = "utxo_model_rows db acc asset network"
  let ?f = "\<lambda>ct. res_map (Pair ct) (ok_or (DbError ''Failed to map UTXO ledger row: integer overflow'')
                    (owned_sums db acc (ct_id ct)))"
  from assms obtain rows parents parents' where rows: "res_mapM ?f ?rows = Inr rows"
    and fold: "res_fold (utxo_entry_step pd db acc) ([], parents) rows = Inr (es, parents')"
    by (auto simp: utxo_model_entries_def Let_def)
  from rows have "list_all2 (\<lambda>ct r. ?f ct = Inr r) ?rows rows" by (simp add: res_mapM_Inr_iff)
  then have "map fst rows = ?rows \<and> (\<forall>(ct, sums) \<in> set rows. owned_sums db acc (ct_id ct) = Some sums)"
    by (induction rule: list_all2_induct) auto
  with utxo_entry_fold_ok [OF fold] show ?thesis by simp
qed

text \<open>
  C33. The entries of a UTXO account (Bitcoin). There is exactly one entry per transaction that spends or funds
  an address of the account, in the order of the query; its balance change is the sum of the owned outputs minus the
  sum of the owned inputs, and zero for a failed transaction. A transaction without owned input value is incoming,
  carries no fee and its value is what was received.
\<close>

theorem utxo_model_entries_delta:
  assumes "utxo_model_entries pd db acc asset network = Inr es"
  shows "map le_tx_hash es = map ct_tx_hash (utxo_model_rows db acc asset network) \<and>
    (\<forall>e \<in> set es. \<exists>ct \<in> set (utxo_model_rows db acc asset network).
      le_chain_transaction_id e = ct_id ct \<and>
      le_balance_delta e =
        (if le_status e = Failed then 0
         else owned_output_value db acc (ct_id ct) - owned_input_value db acc (ct_id ct)) \<and>
      (owned_input_value db acc (ct_id ct) = 0 \<longrightarrow>
        le_direction e = Incoming \<and> le_fee e = None \<and> uint (le_value e) = owned_output_value db acc (ct_id ct)))"
proof -
  note all2 = utxo_model_entries_all2 [OF assms]
  then have "map le_tx_hash es = map ct_tx_hash (utxo_model_rows db acc asset network)"
    by (induction rule: list_all2_induct) (auto simp: utxo_entry_ok_def)
  with list_all2_mem2 [OF all2] show ?thesis by (fastforce simp: utxo_entry_ok_def)
qed

text \<open>A Bitcoin account with one confirmed transaction that pays 50 to it.\<close>

definition sample_btc_db :: UserDb where
  "sample_btc_db = \<lparr>wallets = [], digital_asset_accounts = [],
    digital_asset_addresses = [\<lparr>da_id = ''d1'', da_account_id = Some ''acc'', da_address = ''h1''\<rparr>],
    chain_transactions = [\<lparr>ct_id = ''t1'', ct_asset_id = ''bitcoin'', ct_network = ''mainnet'', ct_tx_hash = ''h1'',
      ct_status = ''confirmed'', ct_block_height = Some 5, ct_block_hash = None, ct_block_time = None, ct_nonce = None,
      ct_fee_amount_hi = None, ct_fee_amount_lo = None, ct_created_at = ''a'', ct_updated_at = ''b''\<rparr>],
    account_transfers = [], transaction_inputs = [],
    transaction_outputs = [\<lparr>txo_tx_id = ''t1'', txo_output_index = 0, txo_address_id = ''d1'', txo_raw_address = Some ''h1'',
      txo_script_pubkey_hex = ''00'', txo_value_amount_hi = 0, txo_value_amount_lo = 50\<rparr>],
    utxos = [], transaction_sync_state = [], account_sync_state = [], hd_account_chain_sync_state = [],
    account_integration_sync_state = [], account_transaction_ledger = []\<rparr>"

lemma sample_btc_rows: "utxo_model_rows sample_btc_db ''acc'' Bitcoin Mainnet = chain_transactions sample_btc_db"
  by (simp add: utxo_model_rows_def sample_btc_db_def touches_account_def owned_outputs_def owned_inputs_def owns_address_def)

lemma sample_btc_sums:
  "owned_sums sample_btc_db ''acc'' ''t1'' = Some \<lparr>output_hi = 0, output_lo = 50, input_hi = 0, input_lo = 0\<rparr>"
  by (simp add: owned_sums_def sample_btc_db_def owned_outputs_def owned_inputs_def owns_address_def sql_sum_def
      i64_try_from_def in_i64_def List.map_filter_simps)

lemma sample_split_sums: "parse_split_sum_amount 0 50 f = Inr 50" "parse_split_sum_amount 0 0 f = Inr 0"
  using parse_split_sum_value [of 0 50] parse_split_sum_value [of 0 0]
  by (simp_all add: parse_split_sum_amount_def in_i64_def GLOBAL_SPLIT_DIVISOR_def)

lemma sample_btc_entries:
  "\<exists>e. utxo_model_entries (\<lambda>s. Inr 0) sample_btc_db ''acc'' Bitcoin Mainnet = Inr [e] \<and>
     le_balance_delta e = 50 \<and> le_status e = Confirmed \<and> le_block_height e = Some 5 \<and>
     le_same_block_parent_hashes e = [] \<and> le_tx_hash e = ''h1''"
proof -
  have parents: "load_same_block_parent_hashes_for_account sample_btc_db ''acc'' Bitcoin Mainnet = []"
    by (simp add: load_same_block_parent_hashes_for_account_def same_block_dependency_rows_def sample_btc_db_def
        btree_of_list_def)
  have sums: "owned_sums sample_btc_db ''acc'' (ct_id (hd (chain_transactions sample_btc_db))) =
      Some \<lparr>output_hi = 0, output_lo = 50, input_hi = 0, input_lo = 0\<rparr>"
    using sample_btc_sums by (simp add: sample_btc_db_def)
  have cts: "chain_transactions sample_btc_db = [hd (chain_transactions sample_btc_db)]"
    by (simp add: sample_btc_db_def)
  have step: "\<exists>e. utxo_entry_step (\<lambda>s. Inr 0) sample_btc_db ''acc'' ([], [])
      (hd (chain_transactions sample_btc_db), \<lparr>output_hi = 0, output_lo = 50, input_hi = 0, input_lo = 0\<rparr>) = Inr ([e], []) \<and>
      le_balance_delta e = 50 \<and> le_status e = Confirmed \<and> le_block_height e = Some 5 \<and>
      le_same_block_parent_hashes e = [] \<and> le_tx_hash e = ''h1''"
    using str_trim_h1
    by (simp add: sample_btc_db_def utxo_entry_step_def parse_chain_status_def status_from_db_value_def
        parse_optional_datetime_field_def parse_datetime_field_def sample_split_sums to_signed_amount_def
        i128_try_from_def in_i128_def checked_sub_i128_def load_utxo_owned_addresses_for_tx_def Let_def)
  then show ?thesis
    unfolding utxo_model_entries_def parents sample_btc_rows Let_def
    by (subst cts) (auto simp: sums)
qed

theorem utxo_model_entries_delta_witness:
  "\<exists>es. utxo_model_entries (\<lambda>s. Inr 0) sample_btc_db ''acc'' Bitcoin Mainnet = Inr es \<and>
     map le_tx_hash es = [''h1''] \<and> map le_balance_delta es = [50]"
proof -
  obtain e where e: "utxo_model_entries (\<lambda>s. Inr 0) sample_btc_db ''acc'' Bitcoin Mainnet = Inr [e]"
    and d: "le_balance_delta e = 50" using sample_btc_entries by metis
  have "map le_tx_hash [e] = map ct_tx_hash (utxo_model_rows sample_btc_db ''acc'' Bitcoin Mainnet)"
    using utxo_model_entries_delta [OF e] by (rule conjunct1)
  also have "\<dots> = [''h1'']" unfolding sample_btc_rows by (simp add: sample_btc_db_def)
  finally show ?thesis using e d by (intro exI [of _ "[e]"]) simp
qed

end
