(* ===== verification/Ledger_Order.thy ===== *)
theory Ledger_Order
  imports Ledger_Entries
begin

section \<open>The order of confirmed Bitcoin transactions\<close>

text \<open>
  \<open>order_confirmed_bitcoin_entries\<close> of \<open>src/src/db/account_transactions/ledger_rebuild.rs\<close>: the indices of
  the confirmed entries, by ascending block height, and within a block in an order in which a
  transaction comes after the transactions whose outputs it spends (Kahn's algorithm with the ready
  transactions in a \<open>BTreeSet\<close>, so that ties are broken by hash).

  \<open>HashMap<&str, usize>\<close> (\<open>by_hash\<close>) and \<open>children\<close> are maps, \<open>indegree\<close> is an association list because the
  loop's termination argument sums its values. The theorems: the result is a permutation of the
  confirmed entries, ordered by height, with every parent before its child, and the algorithm
  succeeds exactly when heights are present, dependencies resolved, hashes unique and the dependencies acyclic.
\<close>

subsection \<open>The algorithm\<close>

fun btree_map_push :: "'k::linorder \<Rightarrow> 'v \<Rightarrow> ('k \<times> 'v list) list \<Rightarrow> ('k \<times> 'v list) list" where
  "btree_map_push k v [] = [(k, [v])]"
| "btree_map_push k v ((j, vs) # m) =
     (if k < j then (k, [v]) # (j, vs) # m
      else if k = j then (j, vs @ [v]) # m else (j, vs) # btree_map_push k v m)"

definition group_by_height :: "LedgerBuildEntry list \<Rightarrow> DbError + (int \<times> nat list) list" where
  "group_by_height entries =
     res_fold (\<lambda>by_height (index, entry).
       if le_status entry \<noteq> Confirmed then Inr by_height
       else res_bind (ok_or (DbError (''Confirmed Bitcoin transaction '' @ le_tx_hash entry @ '' has no block height''))
                       (le_block_height entry)) (\<lambda>height.
            Inr (btree_map_push height index by_height)))
       [] (enumerate 0 entries)"

fun alist_set :: "'k \<Rightarrow> 'v \<Rightarrow> ('k \<times> 'v) list \<Rightarrow> ('k \<times> 'v) list" where
  "alist_set k v [] = [(k, v)]"
| "alist_set k v ((j, w) # m) = (if j = k then (j, v) # m else (j, w) # alist_set k v m)"

type_synonym children_map = "string \<Rightarrow> string list option"
type_synonym indegree_map = "(string \<times> nat) list"

definition children_of :: "children_map \<Rightarrow> string \<Rightarrow> string list" where
  "children_of children h = (case children h of None \<Rightarrow> [] | Some cs \<Rightarrow> cs)"

definition add_dependency ::
  "(string \<Rightarrow> nat option) \<Rightarrow> int \<Rightarrow> LedgerBuildEntry \<Rightarrow> children_map \<times> indegree_map \<Rightarrow> string \<Rightarrow>
     DbError + children_map \<times> indegree_map" where
  "add_dependency by_hash height entry st parent_hash =
     (case st of (children, indegree) \<Rightarrow>
        if by_hash parent_hash = None then
          Inl (DbError (''Unresolved same-block Bitcoin dependency '' @ parent_hash @ '' for '' @
                        le_tx_hash entry @ '' at height '' @ int_to_string height))
        else
          let children' = children(parent_hash \<mapsto> children_of children parent_hash @ [le_tx_hash entry]) in
          (case map_of indegree (le_tx_hash entry) of
             None \<Rightarrow> Inl (DbError ''Missing Bitcoin dependency node'')
           | Some d \<Rightarrow> Inr (children', alist_set (le_tx_hash entry) (d + 1) indegree)))"

definition build_dependencies ::
  "LedgerBuildEntry list \<Rightarrow> int \<Rightarrow> nat list \<Rightarrow> (string \<Rightarrow> nat option) \<Rightarrow> indegree_map \<Rightarrow>
     DbError + children_map \<times> indegree_map" where
  "build_dependencies entries height indices by_hash indegree0 =
     res_fold (\<lambda>st index.
       res_fold (add_dependency by_hash height (entries ! index)) st
         (btree_of_list (le_same_block_parent_hashes (entries ! index))))
       (Map.empty, indegree0) indices"

text \<open>The update for one dependent of a transaction that has been placed.\<close>

definition release_dependent :: "indegree_map \<times> string list \<Rightarrow> string \<Rightarrow> DbError + indegree_map \<times> string list" where
  "release_dependent st dependent =
     (case st of (indegree, ready) \<Rightarrow>
        (case map_of indegree dependent of
           None \<Rightarrow> Inl (DbError ''Missing Bitcoin dependent transaction'')
         | Some degree \<Rightarrow>
             if degree = 0 then Inl (DbError ''Invalid Bitcoin dependency count'')
             else Inr (alist_set dependent (degree - 1) indegree,
                       if degree - 1 = 0 then btree_insert dependent ready else ready)))"

lemma sum_alist_set:
  "map_of m k = Some d \<Longrightarrow> sum_list (map snd (alist_set k v m)) + d = sum_list (map snd m) + (v :: nat)"
  by (induction m) (auto split: if_splits)

lemma release_dependents_measure:
  "res_fold release_dependent (indegree, ready) deps = Inr (indegree', ready') \<Longrightarrow>
     length ready' + sum_list (map snd indegree') \<le> length ready + sum_list (map snd indegree)"
proof (induction deps arbitrary: indegree ready)
  case (Cons d deps)
  then obtain i r where step: "release_dependent (indegree, ready) d = Inr (i, r)"
    and rest: "res_fold release_dependent (i, r) deps = Inr (indegree', ready')" by auto
  from step obtain n where n: "map_of indegree d = Some n" "n \<noteq> 0" "i = alist_set d (n - 1) indegree"
    "r = (if n - 1 = 0 then btree_insert d ready else ready)"
    by (auto simp: release_dependent_def split: option.splits if_splits)
  have "sum_list (map snd i) + 1 = sum_list (map snd indegree)"
    using sum_alist_set [OF n(1), of "n - 1"] n(2,3) by simp
  moreover have "length r \<le> Suc (length ready)" using n(4) length_btree_insert [of d ready] by simp
  ultimately show ?case using Cons.IH [OF rest] by simp
qed simp

function place_ready ::
  "(string \<Rightarrow> nat option) \<Rightarrow> children_map \<Rightarrow> indegree_map \<Rightarrow> string list \<Rightarrow> nat list \<Rightarrow> nat \<Rightarrow>
     DbError + nat list \<times> nat" where
  "place_ready by_hash children indegree [] ordered height_ordered = Inr (ordered, height_ordered)"
| "place_ready by_hash children indegree (hash # ready) ordered height_ordered =
     (case by_hash hash of
        None \<Rightarrow> Inl (DbError ''Missing ready Bitcoin transaction'')
      | Some index \<Rightarrow>
          (case res_fold release_dependent (indegree, ready) (children_of children hash) of
             Inl e \<Rightarrow> Inl e
           | Inr (indegree', ready') \<Rightarrow>
               place_ready by_hash children indegree' ready' (ordered @ [index]) (height_ordered + 1)))"
  by pat_completeness auto
termination
proof (relation "measure (\<lambda>(bh, ch, indegree, ready, ord, n). length ready + sum_list (map snd indegree))")
  fix bh ch and indegree :: indegree_map and hash :: string and ready ord n index st indegree' ready'
  assume "res_fold release_dependent (indegree, ready) (children_of ch hash) = Inr st" "(indegree', ready') = st"
  then have "length ready' + sum_list (map snd indegree') \<le> length ready + sum_list (map snd indegree)"
    using release_dependents_measure by metis
  then show "((bh, ch, indegree', ready', ord @ [index], n + 1), (bh, ch, indegree, hash # ready, ord, n)) \<in>
      measure (\<lambda>(bh, ch, indegree, ready, ord, n). length ready + sum_list (map snd indegree))" by simp
qed simp

definition order_height :: "LedgerBuildEntry list \<Rightarrow> nat list \<Rightarrow> int \<times> nat list \<Rightarrow> DbError + nat list" where
  "order_height entries ordered grp =
     (case grp of (height, indices) \<Rightarrow>
        let hashes = map (\<lambda>i. le_tx_hash (entries ! i)) indices;
            by_hash = map_of (rev (zip hashes indices));
            indegree0 = map (\<lambda>h. (h, 0)) (remdups hashes)
        in res_bind (build_dependencies entries height indices by_hash indegree0) (\<lambda>(children, indegree).
           let ready = btree_of_list (map fst (filter (\<lambda>(h, d). d = 0) indegree)) in
           res_bind (place_ready by_hash children indegree ready ordered 0) (\<lambda>(ordered', height_ordered).
             if height_ordered \<noteq> length indices
             then Inl (DbError (''Cycle in same-block Bitcoin dependencies at height '' @ int_to_string height))
             else Inr ordered')))"

definition order_confirmed_bitcoin_entries :: "LedgerBuildEntry list \<Rightarrow> DbError + nat list" where
  "order_confirmed_bitcoin_entries entries =
     res_bind (group_by_height entries) (\<lambda>by_height. res_fold (order_height entries) [] by_height)"

subsection \<open>Grouping by height\<close>

definition lookup_list :: "('k \<times> 'v list) list \<Rightarrow> 'k \<Rightarrow> 'v list" where
  "lookup_list m k = (case map_of m k of None \<Rightarrow> [] | Some vs \<Rightarrow> vs)"

lemma set_btree_map_push [simp]: "set (map fst (btree_map_push k v m)) = insert k (set (map fst m))"
  by (induction k v m rule: btree_map_push.induct) (simp_all add: insert_commute)

lemma sorted_btree_map_push:
  "sorted_wrt (<) (map fst m) \<Longrightarrow> sorted_wrt (<) (map fst (btree_map_push k v m))"
proof (induction m)
  case (Cons p m)
  obtain j vs where p: "p = (j, vs)" by (cases p)
  have "x \<in> fst ` set (btree_map_push k v m) \<Longrightarrow> x = k \<or> x \<in> fst ` set m" for x
    using set_btree_map_push [of k v m] by auto
  then show ?case using Cons p by (fastforce simp: image_iff)
qed simp

lemma lookup_btree_map_push:
  assumes "sorted_wrt (<) (map fst m)"
  shows "lookup_list (btree_map_push k v m) j = lookup_list m j @ (if j = k then [v] else [])"
  using assms
proof (induction m)
  case (Cons p m)
  obtain i vs where p: "p = (i, vs)" by (cases p)
  have "map_of m k = None" if "k < i"
    using Cons.prems that p by (fastforce simp: map_of_eq_None_iff)
  then show ?case using Cons p by (auto simp: lookup_list_def)
qed (simp add: lookup_list_def)

definition confirmed_at :: "LedgerBuildEntry list \<Rightarrow> int \<Rightarrow> nat list" where
  "confirmed_at entries h =
     filter (\<lambda>i. le_status (entries ! i) = Confirmed \<and> le_block_height (entries ! i) = Some h) [0..<length entries]"

definition groups_ok :: "LedgerBuildEntry list \<Rightarrow> (int \<times> nat list) list \<Rightarrow> bool" where
  "groups_ok entries groups \<longleftrightarrow>
     sorted_wrt (<) (map fst groups) \<and> (\<forall>h. lookup_list groups h = confirmed_at entries h) \<and>
     (\<forall>(h, is) \<in> set groups. is \<noteq> []) \<and>
     (\<forall>e \<in> set entries. le_status e = Confirmed \<longrightarrow> le_block_height e \<noteq> None)"

lemma confirmed_at_snoc:
  "confirmed_at (es @ [e]) h = confirmed_at es h @
     (if le_status e = Confirmed \<and> le_block_height e = Some h then [length es] else [])"
  by (auto simp: confirmed_at_def nth_append intro!: filter_cong)

lemma btree_map_push_nonempty:
  "\<forall>(h, is) \<in> set m. is \<noteq> [] \<Longrightarrow> \<forall>(h, is) \<in> set (btree_map_push k v m). is \<noteq> []"
  by (induction m) (auto split: if_splits)

lemma group_by_height_ok:
  assumes "group_by_height entries = Inr groups"
  shows "groups_ok entries groups"
  using assms
proof (induction entries arbitrary: groups rule: rev_induct)
  case Nil
  then show ?case by (simp add: group_by_height_def groups_ok_def lookup_list_def confirmed_at_def)
next
  case (snoc e es)
  let ?step = "\<lambda>by_height (index, entry).
       if le_status entry \<noteq> Confirmed then Inr by_height
       else res_bind (ok_or (DbError (''Confirmed Bitcoin transaction '' @ le_tx_hash entry @ '' has no block height''))
                       (le_block_height entry)) (\<lambda>height.
            Inr (btree_map_push height index by_height))"
  have "enumerate 0 (es @ [e]) = enumerate 0 es @ [(length es, e)]" by (simp add: enumerate_append_eq)
  with snoc.prems obtain gs where gs: "group_by_height es = Inr gs" and step: "?step gs (length es, e) = Inr groups"
    by (auto simp: group_by_height_def res_fold_append)
  note ok = snoc.IH [OF gs, unfolded groups_ok_def]
  show ?case
  proof (cases "le_status e = Confirmed")
    case True
    with step obtain h where h: "le_block_height e = Some h" "groups = btree_map_push h (length es) gs" by auto
    have "\<forall>(h, is) \<in> set groups. is \<noteq> []" unfolding h(2) using ok by (intro btree_map_push_nonempty) blast
    with ok True h show ?thesis
      by (simp add: groups_ok_def sorted_btree_map_push lookup_btree_map_push confirmed_at_snoc)
  next
    case False
    with step ok show ?thesis by (auto simp: groups_ok_def confirmed_at_snoc)
  qed
qed

lemma group_by_height_total:
  assumes "\<forall>e \<in> set entries. le_status e = Confirmed \<longrightarrow> le_block_height e \<noteq> None"
  shows "\<exists>groups. group_by_height entries = Inr groups"
  using assms
proof (induction entries rule: rev_induct)
  case (snoc e es)
  then obtain gs where "group_by_height es = Inr gs" by auto
  with snoc.prems show ?case
    by (cases "le_status e = Confirmed") (auto simp: group_by_height_def enumerate_append_eq res_fold_append)
qed (simp add: group_by_height_def)

subsection \<open>Building the dependency graph\<close>

definition entry_hash :: "LedgerBuildEntry list \<Rightarrow> nat \<Rightarrow> string" where
  "entry_hash entries i = le_tx_hash (entries ! i)"

definition entry_parents :: "LedgerBuildEntry list \<Rightarrow> nat \<Rightarrow> string list" where
  "entry_parents entries i = le_same_block_parent_hashes (entries ! i)"

text \<open>The dependency edges (parent, child) in the order in which the code visits them.\<close>

definition dependency_edges :: "LedgerBuildEntry list \<Rightarrow> nat list \<Rightarrow> (string \<times> string) list" where
  "dependency_edges entries indices =
     concat (map (\<lambda>i. map (\<lambda>p. (p, entry_hash entries i)) (btree_of_list (entry_parents entries i))) indices)"

definition edge_children :: "(string \<times> string) list \<Rightarrow> string \<Rightarrow> string list" where
  "edge_children E h = map snd (filter (\<lambda>(p, c). p = h) E)"

definition open_edges :: "(string \<times> string) list \<Rightarrow> string set \<Rightarrow> string \<Rightarrow> nat" where
  "open_edges E P k = length (filter (\<lambda>(p, c). c = k \<and> p \<notin> P) E)"

definition graph_ok :: "string list \<Rightarrow> (string \<times> string) list \<Rightarrow> children_map \<times> indegree_map \<Rightarrow> bool" where
  "graph_ok N E st \<longleftrightarrow>
     (\<forall>h. children_of (fst st) h = edge_children E h) \<and> map fst (snd st) = N \<and>
     (\<forall>k \<in> set N. map_of (snd st) k = Some (open_edges E {} k))"

lemma map_of_alist_set: "map_of (alist_set k v m) = (map_of m)(k \<mapsto> v)"
  by (induction m) (auto simp: fun_eq_iff)

lemma fst_alist_set: "k \<in> fst ` set m \<Longrightarrow> map fst (alist_set k v m) = map fst m"
  by (induction m) (auto simp: rev_image_eqI)

lemma add_dependency_ok:
  assumes "graph_ok N E st" and "le_tx_hash e \<in> set N"
  shows "if by_hash p = None then \<exists>err. add_dependency by_hash height e st p = Inl err
    else \<exists>st'. add_dependency by_hash height e st p = Inr st' \<and> graph_ok N (E @ [(p, le_tx_hash e)]) st'"
proof (cases "by_hash p = None")
  case True
  then show ?thesis by (simp add: add_dependency_def split: prod.splits)
next
  case False
  obtain ch ind where st: "st = (ch, ind)" by (cases st)
  let ?c = "le_tx_hash e" and ?E = "E @ [(p, le_tx_hash e)]"
  from assms have d: "map_of ind ?c = Some (open_edges E {} ?c)" and N: "map fst ind = N"
    and ch: "\<And>h. children_of ch h = edge_children E h"
    and ks: "\<And>k. k \<in> set N \<Longrightarrow> map_of ind k = Some (open_edges E {} k)"
    by (simp_all add: graph_ok_def st)
  let ?st = "(ch(p \<mapsto> children_of ch p @ [?c]), alist_set ?c (open_edges E {} ?c + 1) ind)"
  have "add_dependency by_hash height e st p = Inr ?st"
    using False d by (auto simp: add_dependency_def st)
  moreover have "?c \<in> fst ` set ind" using assms(2) N by (metis set_map)
  then have "map fst (alist_set ?c (open_edges E {} ?c + 1) ind) = N" using N by (simp add: fst_alist_set)
  then have "graph_ok N ?E ?st"
    using ch ks
    by (auto simp: graph_ok_def map_of_alist_set open_edges_def edge_children_def children_of_def)
  ultimately show ?thesis using False by auto
qed

lemma res_fold_nested:
  "res_fold (\<lambda>st i. res_fold (f i) st (g i)) st is =
     res_fold (\<lambda>st (i, y). f i st y) st (concat (map (\<lambda>i. map (Pair i) (g i)) is))"
proof (induction "is" arbitrary: st)
  case (Cons i "is")
  have "res_fold (\<lambda>st (i, y). f i st y) st (map (Pair i) ys) = res_fold (f i) st ys" for st ys
  proof (induction ys arbitrary: st)
    case (Cons y ys)
    then show ?case by (cases "f i st y") simp_all
  qed simp
  with Cons show ?case by (simp add: res_fold_append)
qed simp

lemma build_dependencies_ok:
  assumes "\<forall>i \<in> set indices. entry_hash entries i \<in> set N" and "distinct N"
  shows "if \<forall>(p, c) \<in> set (dependency_edges entries indices). by_hash p \<noteq> None
    then \<exists>st. build_dependencies entries height indices by_hash (map (\<lambda>h. (h, 0)) N) = Inr st \<and>
      graph_ok N (dependency_edges entries indices) st
    else \<exists>err. build_dependencies entries height indices by_hash (map (\<lambda>h. (h, 0)) N) = Inl err"
proof -
  let ?visits = "concat (map (\<lambda>i. map (Pair i) (btree_of_list (entry_parents entries i))) indices)"
  let ?f = "\<lambda>st (i, p). add_dependency by_hash height (entries ! i) st p"
  let ?st0 = "(Map.empty, map (\<lambda>h. (h, 0 :: nat)) N)"
  have edges: "dependency_edges entries indices = map (\<lambda>(i, p). (p, entry_hash entries i)) ?visits"
    by (induction indices) (simp_all add: dependency_edges_def)
  have build: "build_dependencies entries height indices by_hash (map (\<lambda>h. (h, 0)) N) = res_fold ?f ?st0 ?visits"
    by (simp add: build_dependencies_def res_fold_nested entry_parents_def)
  have "map_of (map (\<lambda>h. (h, 0 :: nat)) N) k = Some 0" if "k \<in> set N" for k
    using that by (induction N) auto
  then have init: "graph_ok N [] ?st0"
    by (auto simp: graph_ok_def children_of_def edge_children_def open_edges_def comp_def)
  have "\<forall>(i, p) \<in> set vs. entry_hash entries i \<in> set N \<Longrightarrow>
      if \<forall>(i, p) \<in> set vs. by_hash p \<noteq> None
      then \<exists>st. res_fold ?f ?st0 vs = Inr st \<and> graph_ok N (map (\<lambda>(i, p). (p, entry_hash entries i)) vs) st
      else \<exists>err. res_fold ?f ?st0 vs = Inl err" for vs
  proof (induction vs rule: rev_induct)
    case (snoc v vs)
    obtain i p where v: "v = (i, p)" by (cases v)
    have h: "le_tx_hash (entries ! i) \<in> set N" using snoc.prems v by (simp add: entry_hash_def)
    show ?case
    proof (cases "\<forall>(i, p) \<in> set vs. by_hash p \<noteq> None")
      case True
      with snoc obtain st where "res_fold ?f ?st0 vs = Inr st"
        and "graph_ok N (map (\<lambda>(i, p). (p, entry_hash entries i)) vs) st" by auto
      with add_dependency_ok [OF this(2) h, of by_hash p height] v True show ?thesis
        by (auto simp: res_fold_append entry_hash_def split: if_splits)
    next
      case False
      have "\<forall>(i, p) \<in> set vs. entry_hash entries i \<in> set N" using snoc.prems by simp
      from snoc.IH [OF this, unfolded if_not_P [OF False]] obtain err where "res_fold ?f ?st0 vs = Inl err" by blast
      moreover have "\<not> (\<forall>(i, p) \<in> set (vs @ [v]). by_hash p \<noteq> None)" using False by auto
      ultimately show ?thesis by (simp only: res_fold_append res_bind.simps if_False) simp
    qed
  qed (use init in simp)
  moreover have "\<forall>(i, p) \<in> set ?visits. entry_hash entries i \<in> set N" using assms(1) by auto
  ultimately show ?thesis unfolding build edges by fastforce
qed

subsection \<open>Placing the transactions of one block\<close>

text \<open>
  The state of the loop: \<open>P\<close> are the hashes already placed, \<open>deps\<close> the dependents still to release, and the
  indegree of a hash counts its edges from hashes not yet placed; a hash has indegree zero exactly when it is
  placed or ready.
\<close>

definition release_inv :: "string list \<Rightarrow> (string \<times> string) list \<Rightarrow> string set \<Rightarrow> string list \<Rightarrow>
    indegree_map \<times> string list \<Rightarrow> bool" where
  "release_inv N E P deps st \<longleftrightarrow>
     map fst (fst st) = N \<and> sorted_wrt (<) (snd st) \<and> P \<inter> set (snd st) = {} \<and> P \<union> set (snd st) \<subseteq> set N \<and>
     (\<forall>k \<in> set N. map_of (fst st) k = Some (open_edges E P k + count_list deps k) \<and>
        (open_edges E P k + count_list deps k = 0 \<longleftrightarrow> k \<in> P \<union> set (snd st)))"

lemma release_dependent_inv:
  assumes "release_inv N E P (d # deps) st" and "d \<in> set N"
  shows "\<exists>st'. release_dependent st d = Inr st' \<and> release_inv N E P deps st'"
proof -
  obtain ind ready where st: "st = (ind, ready)" by (cases st)
  let ?n = "open_edges E P d + count_list deps d"
  from assms have N: "map fst ind = N" and sorted: "sorted_wrt (<) ready" and disj: "P \<inter> set ready = {}"
    and sub: "P \<union> set ready \<subseteq> set N" and deg: "map_of ind d = Some (Suc ?n)" and dnot: "d \<notin> P \<union> set ready"
    and ks: "\<And>k. k \<in> set N \<Longrightarrow> map_of ind k = Some (open_edges E P k + count_list (d # deps) k) \<and>
        (open_edges E P k + count_list (d # deps) k = 0 \<longleftrightarrow> k \<in> P \<union> set ready)"
    by (auto simp: release_inv_def st)
  let ?st = "(alist_set d ?n ind, if ?n = 0 then btree_insert d ready else ready)"
  have "release_dependent st d = Inr ?st" using deg by (simp add: release_dependent_def st)
  moreover have f1: "map fst (fst ?st) = N"
    using N assms(2) fst_alist_set [of d ind] by (simp flip: set_map)
  have f2: "map_of (fst ?st) k = Some (open_edges E P k + count_list deps k) \<and>
      (open_edges E P k + count_list deps k = 0 \<longleftrightarrow> k \<in> P \<union> set (snd ?st))" if "k \<in> set N" for k
  proof (cases "k = d")
    case True
    then show ?thesis using dnot by (simp add: map_of_alist_set)
  next
    case False
    then show ?thesis using ks [OF that] by (auto simp: map_of_alist_set)
  qed
  have f3: "P \<inter> set (snd ?st) = {}" "P \<union> set (snd ?st) \<subseteq> set N" "sorted_wrt (<) (snd ?st)"
    using sorted disj sub dnot assms(2) by auto
  have "release_inv N E P deps ?st"
    unfolding release_inv_def
    by (intro conjI ballI f1 f3 f2 [THEN conjunct1] f2 [THEN conjunct2])
  ultimately show ?thesis by blast
qed

lemma release_dependents_inv:
  assumes "release_inv N E P deps st" and "set deps \<subseteq> set N"
  shows "\<exists>st'. res_fold release_dependent st deps = Inr st' \<and> release_inv N E P [] st'"
  using assms
proof (induction deps arbitrary: st)
  case (Cons d deps)
  from release_dependent_inv [OF Cons.prems(1)] Cons.prems(2) obtain st1
    where "release_dependent st d = Inr st1" "release_inv N E P deps st1" by auto
  with Cons show ?case by simp
qed simp

lemma open_edges_insert:
  "h \<notin> P \<Longrightarrow> open_edges E P k = open_edges E (insert h P) k + count_list (edge_children E h) k"
  by (induction E) (auto simp: open_edges_def edge_children_def)

definition parents_first :: "(string \<times> string) list \<Rightarrow> string list \<Rightarrow> bool" where
  "parents_first E placed \<longleftrightarrow>
     (\<forall>i < length placed. \<forall>p. (p, placed ! i) \<in> set E \<longrightarrow> p \<in> set (take i placed))"

lemma open_edges_0: "open_edges E P k = 0 \<longleftrightarrow> (\<forall>p. (p, k) \<in> set E \<longrightarrow> p \<in> P)"
  by (auto simp: open_edges_def filter_empty_conv)

lemma place_ready_spec:
  assumes "release_inv N E (set placed) [] (indegree, ready)" and "distinct placed" and "parents_first E placed"
    and "\<forall>h. children_of children h = edge_children E h" and "\<forall>(p, c) \<in> set E. c \<in> set N"
    and "\<forall>h \<in> set N. by_hash h \<noteq> None"
  shows "\<exists>new indegree'. place_ready by_hash children indegree ready ordered n =
      Inr (ordered @ map (the \<circ> by_hash) new, n + length new) \<and>
    distinct (placed @ new) \<and> parents_first E (placed @ new) \<and> release_inv N E (set (placed @ new)) [] (indegree', [])"
  using assms
proof (induction by_hash children indegree ready ordered n arbitrary: placed rule: place_ready.induct)
  case (1 by_hash children indegree ordered n)
  then show ?case by (intro exI [of _ "[]"] exI [of _ indegree]) simp
next
  case (2 by_hash children indegree h ready ordered n)
  let ?deps = "edge_children E h"
  have hN: "h \<in> set N" and hnot: "h \<notin> set placed" "h \<notin> set ready" and h0: "open_edges E (set placed) h = 0"
    using "2.prems"(1) by (auto simp: release_inv_def)
  obtain i where i: "by_hash h = Some i" using "2.prems"(6) hN by auto
  have start: "release_inv N E (insert h (set placed)) ?deps (indegree, ready)"
    using "2.prems"(1) hnot by (auto simp: release_inv_def open_edges_insert [OF hnot(1)])
  have "set ?deps \<subseteq> set N" using "2.prems"(5) by (auto simp: edge_children_def)
  from release_dependents_inv [OF start this] obtain ind' ready' where
    rel: "res_fold release_dependent (indegree, ready) ?deps = Inr (ind', ready')"
    and inv: "release_inv N E (set (placed @ [h])) [] (ind', ready')" by auto
  have pf: "parents_first E (placed @ [h])"
    using "2.prems"(3) h0 by (auto simp: parents_first_def open_edges_0 nth_append less_Suc_eq)
  have dist: "distinct (placed @ [h])" using "2.prems"(2) hnot(1) by simp
  have rel': "res_fold release_dependent (indegree, ready) (children_of children h) = Inr (ind', ready')"
    using rel "2.prems"(4) by simp
  from "2.IH" [OF i rel' refl inv dist pf "2.prems"(4,5,6)] obtain new indegree' where
    new: "place_ready by_hash children ind' ready' (ordered @ [i]) (n + 1) =
      Inr ((ordered @ [i]) @ map (the \<circ> by_hash) new, n + 1 + length new)"
    "distinct ((placed @ [h]) @ new)" "parents_first E ((placed @ [h]) @ new)"
    "release_inv N E (set ((placed @ [h]) @ new)) [] (indegree', [])" by blast
  have "place_ready by_hash children indegree (h # ready) ordered n =
      Inr (ordered @ map (the \<circ> by_hash) (h # new), n + length (h # new))"
    using i rel' new(1) by simp
  with new(2-4) show ?case by (intro exI [of _ "h # new"] exI [of _ indegree']) simp
qed

subsection \<open>One block\<close>

definition block_hashes :: "LedgerBuildEntry list \<Rightarrow> nat list \<Rightarrow> string list" where
  "block_hashes entries indices = map (entry_hash entries) indices"

definition block_index :: "LedgerBuildEntry list \<Rightarrow> nat list \<Rightarrow> string \<Rightarrow> nat option" where
  "block_index entries indices = map_of (rev (zip (block_hashes entries indices) indices))"

lemma dom_block_index: "block_index entries indices h \<noteq> None \<longleftrightarrow> h \<in> set (block_hashes entries indices)"
proof -
  have "map fst (zip (block_hashes entries indices) indices) = block_hashes entries indices"
    by (simp add: block_hashes_def)
  then have "fst ` set (rev (zip (block_hashes entries indices) indices)) = set (block_hashes entries indices)"
    by (metis set_map set_rev)
  then show ?thesis unfolding block_index_def by (metis map_of_eq_None_iff)
qed

lemma order_height_unfold:
  "order_height entries ordered (height, indices) =
     res_bind (build_dependencies entries height indices (block_index entries indices)
                (map (\<lambda>h. (h, 0)) (remdups (block_hashes entries indices)))) (\<lambda>(children, indegree).
     res_bind (place_ready (block_index entries indices) children indegree
                (btree_of_list (map fst (filter (\<lambda>(h, d). d = 0) indegree))) ordered 0) (\<lambda>(ordered', height_ordered).
       if height_ordered \<noteq> length indices
       then Inl (DbError (''Cycle in same-block Bitcoin dependencies at height '' @ int_to_string height))
       else Inr ordered'))"
  by (simp only: order_height_def block_index_def block_hashes_def entry_hash_def [abs_def] Let_def prod.case)

lemma block_index_Some:
  "block_index entries indices h = Some i \<Longrightarrow> i \<in> set indices \<and> entry_hash entries i = h"
  by (auto simp: block_index_def block_hashes_def set_zip dest!: map_of_SomeD)

lemma initial_ready:
  assumes "graph_ok N E (children, indegree)" and "distinct N"
  shows "release_inv N E {} [] (indegree, btree_of_list (map fst (filter (\<lambda>(h, d). d = 0) indegree)))"
proof -
  have N: "map fst indegree = N" using assms(1) by (simp add: graph_ok_def)
  have "k \<in> fst ` {x \<in> set indegree. case x of (h, d) \<Rightarrow> d = 0} \<longleftrightarrow> map_of indegree k = Some 0" for k
    using assms(2) N by (auto simp: image_iff dest: map_of_SomeD)
  then show ?thesis using assms(1) N by (auto simp: release_inv_def graph_ok_def rev_image_eqI)
qed

text \<open>
  The run on one block: with every dependency resolved, the loop places a list of distinct hashes, parents first,
  and leaves out only hashes that still wait for a hash it left out.
\<close>

lemma order_height_run:
  fixes entries indices
  defines "E \<equiv> dependency_edges entries indices" and "H \<equiv> block_hashes entries indices"
  shows "if \<forall>(p, c) \<in> set E. p \<in> set H
    then \<exists>placed. distinct placed \<and> parents_first E placed \<and> set placed \<subseteq> set H \<and>
      (\<forall>k \<in> set H - set placed. \<exists>p. (p, k) \<in> set E \<and> p \<notin> set placed) \<and>
      order_height entries ordered (height, indices) =
        (if length placed \<noteq> length indices
         then Inl (DbError (''Cycle in same-block Bitcoin dependencies at height '' @ int_to_string height))
         else Inr (ordered @ map (the \<circ> block_index entries indices) placed))
    else \<exists>err. order_height entries ordered (height, indices) = Inl err"
proof -
  let ?N = "remdups H"
  have hs: "\<forall>i \<in> set indices. entry_hash entries i \<in> set ?N" by (simp add: H_def block_hashes_def)
  have dom: "(\<forall>(p, c) \<in> set E. block_index entries indices p \<noteq> None) \<longleftrightarrow> (\<forall>(p, c) \<in> set E. p \<in> set H)"
    unfolding H_def dom_block_index ..
  note build = build_dependencies_ok [OF hs distinct_remdups, of "block_index entries indices" height, folded E_def, unfolded dom]
  show ?thesis
  proof (cases "\<forall>(p, c) \<in> set E. p \<in> set H")
    case True
    with build obtain children indegree where
      b: "build_dependencies entries height indices (block_index entries indices) (map (\<lambda>h. (h, 0)) ?N) = Inr (children, indegree)"
      and g: "graph_ok ?N E (children, indegree)" by auto
    let ?ready = "btree_of_list (map fst (filter (\<lambda>(h, d). d = 0) indegree))"
    have E: "\<forall>(p, c) \<in> set E. c \<in> set ?N" by (auto simp: E_def dependency_edges_def H_def block_hashes_def)
    have ch: "\<forall>h. children_of children h = edge_children E h" using g by (simp add: graph_ok_def)
    have bh: "\<forall>h \<in> set ?N. block_index entries indices h \<noteq> None"
      using dom_block_index [of entries indices] unfolding H_def set_remdups by blast
    have init: "release_inv ?N E (set []) [] (indegree, ?ready)" using initial_ready [OF g] by simp
    have "parents_first E []" by (simp add: parents_first_def)
    from place_ready_spec [OF init distinct.simps(1) [THEN iffD2, OF TrueI] this ch E bh, of ordered 0]
    obtain placed ind' where
      p: "place_ready (block_index entries indices) children indegree ?ready ordered 0 =
          Inr (ordered @ map (the \<circ> block_index entries indices) placed, length placed)"
      and d: "distinct placed" "parents_first E placed"
      and fin: "release_inv ?N E (set placed) [] (ind', [])" by auto
    have "order_height entries ordered (height, indices) =
        (if length placed \<noteq> length indices
         then Inl (DbError (''Cycle in same-block Bitcoin dependencies at height '' @ int_to_string height))
         else Inr (ordered @ map (the \<circ> block_index entries indices) placed))"
      unfolding order_height_unfold H_def [symmetric] using b p by simp
    moreover have "set placed \<subseteq> set H" using fin by (auto simp: release_inv_def)
    moreover have "\<forall>k \<in> set H - set placed. \<exists>p. (p, k) \<in> set E \<and> p \<notin> set placed"
      using fin open_edges_0 [of E "set placed"] by (auto simp: release_inv_def)
    ultimately show ?thesis using True d by auto
  next
    case False
    with build obtain err where
      "build_dependencies entries height indices (block_index entries indices) (map (\<lambda>h. (h, 0)) ?N) = Inl err" by auto
    then have "order_height entries ordered (height, indices) = Inl err"
      unfolding order_height_unfold H_def [symmetric] by simp
    with False show ?thesis by auto
  qed
qed

text \<open>What it takes for a block to have an order: unique hashes, dependencies inside the block, and no cycle.\<close>

definition block_orderable :: "LedgerBuildEntry list \<Rightarrow> nat list \<Rightarrow> bool" where
  "block_orderable entries indices \<longleftrightarrow>
     distinct (block_hashes entries indices) \<and>
     (\<forall>i \<in> set indices. set (entry_parents entries i) \<subseteq> set (block_hashes entries indices)) \<and>
     acyclic {(p, c). \<exists>i \<in> set indices. p \<in> set (entry_parents entries i) \<and> c = entry_hash entries i}"

text \<open>In a sequence of entries, every entry comes after the entries whose outputs it spends in its block.\<close>

definition spends_after :: "LedgerBuildEntry list \<Rightarrow> nat list \<Rightarrow> bool" where
  "spends_after entries ord \<longleftrightarrow>
     (\<forall>xs i ys. ord = xs @ i # ys \<longrightarrow>
        (\<forall>p \<in> set (entry_parents entries i). \<exists>j \<in> set xs. entry_hash entries j = p))"

lemma set_dependency_edges:
  "set (dependency_edges entries indices) =
     {(p, c). \<exists>i \<in> set indices. p \<in> set (entry_parents entries i) \<and> c = entry_hash entries i}"
  by (auto simp: dependency_edges_def)

lemma parents_first_acyclic:
  assumes "distinct placed" and "parents_first E placed" and "\<forall>(p, c) \<in> set E. c \<in> set placed"
  shows "acyclic (set E)"
proof -
  have d: "placed ! r = placed ! q \<longleftrightarrow> r = q" if "r < length placed" "q < length placed" for r q
    using that assms(1) by (simp add: nth_eq_iff_index_eq)
  define pos where "pos h = (LEAST q. q < length placed \<and> placed ! q = h)" for h
  have pos: "pos (placed ! q) = q" if "q < length placed" for q
    unfolding pos_def using that d by (intro Least_equality) auto
  have "pos p < pos c" if "(p, c) \<in> set E" for p c
  proof -
    from that assms(3) obtain q where q: "q < length placed" "c = placed ! q" by (fastforce simp: in_set_conv_nth)
    with assms(2) that have "p \<in> set (take q placed)" by (simp add: parents_first_def)
    then obtain r where "r < q" "p = placed ! r" using q(1) by (auto simp: in_set_conv_nth)
    with q pos show ?thesis by simp
  qed
  then have "set E \<subseteq> measure pos" by auto
  then show ?thesis by (rule acyclic_subset [OF wf_acyclic [OF wf_measure]])
qed

lemma placed_all:
  assumes "acyclic (set E)" and "\<forall>(p, c) \<in> set E. p \<in> H"
    and "\<forall>k \<in> H - P. \<exists>p. (p, k) \<in> set E \<and> p \<notin> P" and "P \<subseteq> H"
  shows "P = H"
proof -
  have wf: "wf (set E)" using assms(1) finite_acyclic_wf by blast
  have "k \<in> H \<longrightarrow> k \<in> P" for k
  proof (induction k rule: wf_induct_rule [OF wf])
    case (1 k)
    then show ?case using assms(2,3) by blast
  qed
  then show ?thesis using assms(4) by blast
qed

lemma order_height_ok:
  assumes "distinct indices"
  shows "if block_orderable entries indices
    then \<exists>idx. order_height entries ordered (height, indices) = Inr (ordered @ idx) \<and>
      mset idx = mset indices \<and> spends_after entries idx
    else \<exists>err. order_height entries ordered (height, indices) = Inl err"
proof -
  let ?E = "dependency_edges entries indices" and ?H = "block_hashes entries indices"
  have res: "(\<forall>(p, c) \<in> set ?E. p \<in> set ?H) \<longleftrightarrow> (\<forall>i \<in> set indices. set (entry_parents entries i) \<subseteq> set ?H)"
    by (auto simp: set_dependency_edges)
  show ?thesis
  proof (cases "\<forall>(p, c) \<in> set ?E. p \<in> set ?H")
    case False
    then have "\<not> block_orderable entries indices" using res by (auto simp: block_orderable_def)
    with False order_height_run [of entries indices ordered height] show ?thesis by auto
  next
    case True
    with order_height_run [of entries indices ordered height] obtain placed where
      d: "distinct placed" and pf: "parents_first ?E placed" and sub: "set placed \<subseteq> set ?H"
      and left: "\<forall>k \<in> set ?H - set placed. \<exists>p. (p, k) \<in> set ?E \<and> p \<notin> set placed"
      and run: "order_height entries ordered (height, indices) =
        (if length placed \<noteq> length indices
         then Inl (DbError (''Cycle in same-block Bitcoin dependencies at height '' @ int_to_string height))
         else Inr (ordered @ map (the \<circ> block_index entries indices) placed))" by auto
    have lenH: "length ?H = length indices" by (simp add: block_hashes_def)
    have orderable: "block_orderable entries indices \<longleftrightarrow> length placed = length indices"
    proof
      assume bo: "block_orderable entries indices"
      then have "acyclic (set ?E)" by (simp add: block_orderable_def set_dependency_edges)
      then have "set placed = set ?H" using True left sub by (rule placed_all)
      then have "card (set placed) = card (set ?H)" by simp
      then show "length placed = length indices"
        using d bo lenH by (simp add: block_orderable_def distinct_card)
    next
      assume len: "length placed = length indices"
      have "card (set ?H) \<ge> card (set placed)" using sub by (simp add: card_mono)
      then have card: "card (set ?H) = length ?H" using d len lenH card_length [of ?H] by (simp add: distinct_card)
      then have dH: "distinct ?H" by (simp add: card_distinct)
      have "set placed = set ?H" using sub card d len lenH
        by (intro card_subset_eq) (simp_all add: distinct_card)
      then have "\<forall>(p, c) \<in> set ?E. c \<in> set placed"
        by (auto simp: set_dependency_edges block_hashes_def)
      from parents_first_acyclic [OF d pf this] dH True res show "block_orderable entries indices"
        by (simp add: block_orderable_def set_dependency_edges)
    qed
    show ?thesis
    proof (cases "block_orderable entries indices")
      case bo: False
      with orderable run show ?thesis by auto
    next
      case bo: True
      let ?idx = "map (the \<circ> block_index entries indices) placed"
      have len: "length placed = length indices" using orderable bo by simp
      have idx: "the (block_index entries indices h) \<in> set indices \<and>
          entry_hash entries (the (block_index entries indices h)) = h" if "h \<in> set placed" for h
        using that sub dom_block_index [of entries indices h] block_index_Some [of entries indices h] by auto
      then have hashes: "map (entry_hash entries) ?idx = placed" by (simp add: map_idI)
      then have dist: "distinct ?idx" using d by (metis distinct_map)
      have "set ?idx \<subseteq> set indices" using idx by auto
      moreover have "card (set ?idx) = card (set indices)"
        using distinct_card [OF dist] distinct_card [OF assms] len by simp
      ultimately have "set ?idx = set indices" by (intro card_subset_eq) simp_all
      then have "mset ?idx = mset indices" using dist assms set_eq_iff_mset_eq_distinct by blast
      moreover have "spends_after entries ?idx"
        unfolding spends_after_def
      proof (intro allI impI ballI)
        fix xs i ys p
        assume split: "?idx = xs @ i # ys" and p: "p \<in> set (entry_parents entries i)"
        have q: "length xs < length placed" using arg_cong [OF split, of length] by simp
        have pl: "placed = map (entry_hash entries) xs @ entry_hash entries i # map (entry_hash entries) ys"
          using hashes split by simp
        have "i \<in> set indices" using \<open>set ?idx = set indices\<close> split by (metis in_set_conv_decomp)
        then have "(p, placed ! length xs) \<in> set ?E"
          using p by (subst pl) (auto simp: set_dependency_edges nth_append)
        with pf q have "p \<in> set (take (length xs) placed)" by (simp add: parents_first_def)
        then show "\<exists>j \<in> set xs. entry_hash entries j = p" by (subst (asm) pl) auto
      qed
      ultimately show ?thesis using bo run len by auto
    qed
  qed
qed

subsection \<open>All blocks\<close>

definition height_of :: "LedgerBuildEntry list \<Rightarrow> nat \<Rightarrow> int" where
  "height_of entries i = the (le_block_height (entries ! i))"

lemma spends_after_append:
  assumes "spends_after entries xs" and "spends_after entries ys"
  shows "spends_after entries (xs @ ys)"
  unfolding spends_after_def
proof (intro allI impI ballI)
  fix us i vs p
  assume eq: "xs @ ys = us @ i # vs" and p: "p \<in> set (entry_parents entries i)"
  then consider ws where "xs = us @ i # ws" | ws where "us = xs @ ws" "ys = ws @ i # vs"
    by (auto simp: append_eq_append_conv2 Cons_eq_append_conv append_eq_Cons_conv)
  then show "\<exists>j \<in> set us. entry_hash entries j = p"
  proof cases
    case 1
    with assms(1) p show ?thesis unfolding spends_after_def by blast
  next
    case (2 ws)
    with assms(2) p have "\<exists>j \<in> set ws. entry_hash entries j = p" unfolding spends_after_def by blast
    with 2 show ?thesis by auto
  qed
qed

lemma groups_in:
  assumes "groups_ok entries groups"
  shows "distinct (map fst groups) \<and> (\<forall>(h, is) \<in> set groups. is = confirmed_at entries h)"
proof -
  have d: "distinct (map fst groups)" using assms strict_sorted_iff by (auto simp: groups_ok_def)
  have "is = confirmed_at entries h" if "(h, is) \<in> set groups" for h "is"
  proof -
    have "map_of groups h = Some is" using d that by simp
    then show ?thesis using assms by (simp add: groups_ok_def lookup_list_def) (metis option.simps(5))
  qed
  with d show ?thesis by auto
qed

lemma distinct_confirmed_at [simp]: "distinct (confirmed_at entries h)"
  by (simp add: confirmed_at_def)

lemma order_heights_ok:
  assumes "\<forall>(h, is) \<in> set groups. is = confirmed_at entries h" and "sorted_wrt (<) (map fst groups)"
  shows "if \<forall>(h, is) \<in> set groups. block_orderable entries is
    then \<exists>idx. res_fold (order_height entries) ordered groups = Inr (ordered @ idx) \<and>
      mset idx = mset (concat (map snd groups)) \<and> spends_after entries idx \<and>
      sorted_wrt (\<lambda>i j. height_of entries i \<le> height_of entries j) idx
    else \<exists>err. res_fold (order_height entries) ordered groups = Inl err"
  using assms
proof (induction groups arbitrary: ordered)
  case (Cons g groups)
  obtain h "is" where g: "g = (h, is)" by (cases g)
  then have "is": "is = confirmed_at entries h" using Cons.prems(1) by simp
  then have "distinct is" by simp
  note block = order_height_ok [OF this, of entries ordered h]
  show ?case
  proof (cases "block_orderable entries is")
    case False
    with block g show ?thesis by auto
  next
    case True
    with block obtain idx where idx: "order_height entries ordered (h, is) = Inr (ordered @ idx)"
      "mset idx = mset is" "spends_after entries idx" by auto
    have prem: "\<forall>(h, is) \<in> set groups. is = confirmed_at entries h" "sorted_wrt (<) (map fst groups)"
      using Cons.prems by auto
    note rest = Cons.IH [OF prem, of "ordered @ idx"]
    show ?thesis
    proof (cases "\<forall>(h, is) \<in> set groups. block_orderable entries is")
      case False
      with rest idx g show ?thesis by auto
    next
      case all: True
      with rest obtain idx' where idx': "res_fold (order_height entries) (ordered @ idx) groups = Inr ((ordered @ idx) @ idx')"
        "mset idx' = mset (concat (map snd groups))" "spends_after entries idx'"
        "sorted_wrt (\<lambda>i j. height_of entries i \<le> height_of entries j) idx'" by auto
      have here: "height_of entries i = h" if "i \<in> set idx" for i
        using that mset_eq_setD [OF idx(2)] "is" by (auto simp: confirmed_at_def height_of_def)
      have later: "h \<le> height_of entries j" if "j \<in> set idx'" for j
      proof -
        from that mset_eq_setD [OF idx'(2)] obtain k ks where "(k, ks) \<in> set groups" "j \<in> set ks" by auto
        with prem(1) Cons.prems(2) g have "j \<in> set (confirmed_at entries k)" "h < k" by auto
        then show ?thesis by (simp add: confirmed_at_def height_of_def)
      qed
      have "sorted_wrt (\<lambda>i j. height_of entries i \<le> height_of entries j) idx"
        using here by (simp add: sorted_wrt_iff_nth_less)
      then have "sorted_wrt (\<lambda>i j. height_of entries i \<le> height_of entries j) (idx @ idx')"
        using here later idx'(4) by (auto simp: sorted_wrt_append)
      moreover have "res_fold (order_height entries) ordered (g # groups) = Inr (ordered @ (idx @ idx'))"
        using idx(1) idx'(1) g by simp
      moreover have "mset (idx @ idx') = mset (concat (map snd (g # groups)))" using idx idx' g by simp
      moreover have "\<forall>(h, is) \<in> set (g # groups). block_orderable entries is" using True all g by simp
      ultimately show ?thesis using spends_after_append [OF idx(3) idx'(3)] by auto
    qed
  qed
qed (simp add: spends_after_def)

lemma set_concat_groups:
  assumes "groups_ok entries groups"
  shows "distinct (concat (map snd groups)) \<and>
    set (concat (map snd groups)) = {i. i < length entries \<and> le_status (entries ! i) = Confirmed}"
proof -
  note g = groups_in [OF assms]
  have heights: "\<forall>e \<in> set entries. le_status e = Confirmed \<longrightarrow> le_block_height e \<noteq> None"
    and look: "\<And>h. lookup_list groups h = confirmed_at entries h" using assms by (auto simp: groups_ok_def)
  have disj: "set is \<inter> set js = {}" if "(h, is) \<in> set groups" "(k, js) \<in> set groups" "h \<noteq> k" for h k "is" js
  proof -
    have "is = confirmed_at entries h" "js = confirmed_at entries k" using g that(1,2) by auto
    with that(3) show ?thesis by (auto simp: confirmed_at_def)
  qed
  have "distinct (concat (map snd gs))" if "set gs \<subseteq> set groups" "distinct (map fst gs)" for gs
    using that
  proof (induction gs)
    case (Cons x gs)
    obtain h "is" where x: "x = (h, is)" by (cases x)
    have "distinct is" using g Cons.prems x by auto
    moreover have "set is \<inter> set js = {}" if "(k, js) \<in> set gs" for k js
    proof (rule disj)
      show "(h, is) \<in> set groups" "(k, js) \<in> set groups" using Cons.prems(1) x that by auto
      show "h \<noteq> k" using Cons.prems(2) x that by (auto simp: rev_image_eqI)
    qed
    then have "set is \<inter> set (concat (map snd gs)) = {}" by fastforce
    ultimately show ?case using Cons x by simp
  qed simp
  then have "distinct (concat (map snd groups))" using g by simp
  moreover have "i \<in> set (concat (map snd groups)) \<longleftrightarrow> i < length entries \<and> le_status (entries ! i) = Confirmed" for i
  proof
    assume "i \<in> set (concat (map snd groups))"
    then obtain h "is" where "(h, is) \<in> set groups" "i \<in> set is" by auto
    with g have "i \<in> set (confirmed_at entries h)" by auto
    then show "i < length entries \<and> le_status (entries ! i) = Confirmed" by (simp add: confirmed_at_def)
  next
    assume i: "i < length entries \<and> le_status (entries ! i) = Confirmed"
    then obtain h where "le_block_height (entries ! i) = Some h" using heights by fastforce
    with i have "i \<in> set (lookup_list groups h)" unfolding look by (simp add: confirmed_at_def)
    then obtain "is" where "map_of groups h = Some is" "i \<in> set is"
      by (cases "map_of groups h") (auto simp: lookup_list_def)
    then show "i \<in> set (concat (map snd groups))" by (auto dest!: map_of_SomeD intro!: bexI [of _ "(h, is)"])
  qed
  ultimately show ?thesis by blast
qed

lemma order_confirmed_cases:
  "if (\<forall>e \<in> set entries. le_status e = Confirmed \<longrightarrow> le_block_height e \<noteq> None) \<and>
      (\<forall>h. block_orderable entries (confirmed_at entries h))
   then \<exists>ord. order_confirmed_bitcoin_entries entries = Inr ord \<and> distinct ord \<and>
     set ord = {i. i < length entries \<and> le_status (entries ! i) = Confirmed} \<and>
     sorted_wrt (\<lambda>i j. height_of entries i \<le> height_of entries j) ord \<and> spends_after entries ord
   else \<exists>err. order_confirmed_bitcoin_entries entries = Inl err"
proof (cases "group_by_height entries")
  case (Inl e)
  with group_by_height_total [of entries]
  have "\<not> (\<forall>e \<in> set entries. le_status e = Confirmed \<longrightarrow> le_block_height e \<noteq> None)"
    by (metis sum.distinct(1))
  with Inl show ?thesis by (auto simp: order_confirmed_bitcoin_entries_def)
next
  case (Inr groups)
  note ok = group_by_height_ok [OF Inr]
  note g = groups_in [OF ok] and c = set_concat_groups [OF ok]
  have heights: "\<forall>e \<in> set entries. le_status e = Confirmed \<longrightarrow> le_block_height e \<noteq> None"
    and sorted: "sorted_wrt (<) (map fst groups)" and look: "\<And>h. lookup_list groups h = confirmed_at entries h"
    using ok by (auto simp: groups_ok_def)
  have "block_orderable entries []" by (simp add: block_orderable_def block_hashes_def wf_acyclic)
  then have all: "(\<forall>(h, is) \<in> set groups. block_orderable entries is) \<longleftrightarrow> (\<forall>h. block_orderable entries (confirmed_at entries h))"
    using g look by (fastforce simp: lookup_list_def split: option.splits dest: map_of_SomeD)
  have run: "order_confirmed_bitcoin_entries entries = res_fold (order_height entries) [] groups"
    by (simp add: order_confirmed_bitcoin_entries_def Inr)
  note steps = order_heights_ok [OF conjunct2 [OF g] sorted, of "[]", folded run]
  show ?thesis
  proof (cases "\<forall>h. block_orderable entries (confirmed_at entries h)")
    case True
    with steps all obtain idx where idx: "order_confirmed_bitcoin_entries entries = Inr idx"
      "mset idx = mset (concat (map snd groups))" "spends_after entries idx"
      "sorted_wrt (\<lambda>i j. height_of entries i \<le> height_of entries j) idx" by auto
    have "distinct idx" using mset_eq_imp_distinct_iff [OF idx(2)] c by simp
    moreover have "set idx = {i. i < length entries \<and> le_status (entries ! i) = Confirmed}"
      using mset_eq_setD [OF idx(2)] c by simp
    ultimately show ?thesis using True heights idx by simp
  next
    case False
    with steps all show ?thesis by auto
  qed
qed

text \<open>
  C1. The order of confirmed transactions. When ordering succeeds, the result lists every confirmed entry exactly
  once and nothing else, block heights never decrease, and an entry comes after each entry of its block whose
  outputs it spends.
\<close>

theorem order_confirmed_bitcoin_entries_correct:
  assumes "order_confirmed_bitcoin_entries entries = Inr ord"
  shows "distinct ord \<and> set ord = {i. i < length entries \<and> le_status (entries ! i) = Confirmed} \<and>
    sorted_wrt (\<lambda>i j. height_of entries i \<le> height_of entries j) ord \<and> spends_after entries ord"
  using order_confirmed_cases [of entries] assms by (auto split: if_splits)

text \<open>
  C39. Ordering succeeds exactly when it can: every confirmed entry has a height, and in every block the hashes are
  unique, the recorded parents are in the block and the dependencies are acyclic. In all other cases it is an error,
  never a partial or wrong order; the loop always ends.
\<close>

theorem order_confirmed_bitcoin_entries_succeeds_iff:
  "(\<exists>ord. order_confirmed_bitcoin_entries entries = Inr ord) \<longleftrightarrow>
     (\<forall>e \<in> set entries. le_status e = Confirmed \<longrightarrow> le_block_height e \<noteq> None) \<and>
     (\<forall>h. block_orderable entries (confirmed_at entries h))"
  using order_confirmed_cases [of entries] by (auto split: if_splits)

text \<open>An entry for the witnesses: confirmed at a height, with its same-block parents and its balance change.\<close>

definition sample_entry :: "string \<Rightarrow> ChainTransactionStatus \<Rightarrow> int option \<Rightarrow> string list \<Rightarrow> int \<Rightarrow> LedgerBuildEntry" where
  "sample_entry h st height parents delta =
     \<lparr>le_chain_transaction_id = h, le_tx_hash = h, le_status = st, le_occurred_at = 0, le_first_seen_at = 0,
      le_block_height = height, le_nonce = None, le_min_transfer_index = None, le_direction = Incoming, le_value = 0,
      le_fee = None, le_balance_delta = delta, le_closing_balance = None, le_same_block_parent_hashes = parents,
      le_from_addresses = [], le_to_addresses = []\<rparr>"

lemma sample_order:
  "order_confirmed_bitcoin_entries
     [sample_entry ''a'' Confirmed (Some 7) [''b''] (- 30), sample_entry ''b'' Confirmed (Some 7) [] 50,
      sample_entry ''c'' Pending None [] 5] = Inr [1, 0]"
  by (simp add: order_confirmed_bitcoin_entries_def group_by_height_def sample_entry_def order_height_def
      build_dependencies_def add_dependency_def btree_of_list_def children_of_def release_dependent_def)

theorem order_confirmed_bitcoin_entries_correct_witness:
  "\<exists>ord. order_confirmed_bitcoin_entries
     [sample_entry ''a'' Confirmed (Some 7) [''b''] (- 30), sample_entry ''b'' Confirmed (Some 7) [] 50,
      sample_entry ''c'' Pending None [] 5] = Inr ord \<and> distinct ord \<and> set ord = {0, 1}"
  using order_confirmed_bitcoin_entries_correct [OF sample_order] sample_order by auto

theorem order_confirmed_bitcoin_entries_succeeds_iff_witness:
  "\<not> (\<exists>ord. order_confirmed_bitcoin_entries [sample_entry ''a'' Confirmed None [] 5] = Inr ord)"
  unfolding order_confirmed_bitcoin_entries_succeeds_iff by (simp add: sample_entry_def)

end
