(* ===== verification/Ledger_Balances.thy ===== *)
theory Ledger_Balances
  imports Ledger_Order
begin

section \<open>Closing balances\<close>

text \<open>
  The second half of the ledger build in \<open>src/src/db/account_transactions/ledger_rebuild.rs\<close>: the closing
  balance of every entry, for account-model assets (\<open>assign_closing_balances\<close>) and for Bitcoin
  (\<open>assign_bitcoin_closing_balances\<close>), and the balance a Bitcoin account whose history is incomplete starts
  from (\<open>compute_incomplete_bitcoin_basis_from_inputs\<close>).

  The code updates a slice in place; here the slice is a list and an assignment is a list update. The Bitcoin
  operation leaves balances behind when its loop stops with an error and then clears them all, so both it and its
  body return the entries beside the result.
  The theorems: a closing balance is the running sum of the balance changes up to the entry, it does not depend on
  the order in which the entries were collected, a Bitcoin closing balance is never negative, and the incomplete
  basis makes the last closing balance the balance the provider reported.
\<close>

definition SQL_MAX_I64 :: int where
  "SQL_MAX_I64 = 9223372036854775807"

type_synonym OpeningBalance = UnsignedAmount

definition set_closing :: "UnsignedAmount option \<Rightarrow> LedgerBuildEntry \<Rightarrow> LedgerBuildEntry" where
  "set_closing c e = e\<lparr>le_closing_balance := c\<rparr>"

subsection \<open>Bitcoin\<close>

definition bitcoin_confirmed_step ::
  "int \<times> LedgerBuildEntry list \<Rightarrow> nat \<Rightarrow> DbError + int \<times> LedgerBuildEntry list" where
  "bitcoin_confirmed_step st index =
     (case st of (running, entries) \<Rightarrow>
        res_bind (ok_or (DbError ''Signed overflow while updating Bitcoin closing balance'')
                   (checked_add_i128 running (le_balance_delta (entries ! index)))) (\<lambda>running'.
        if running' < 0
        then Inl (DbError (''Bitcoin closing balance became negative at '' @ le_tx_hash (entries ! index)))
        else res_bind (ok_or (DbError ''Failed to convert Bitcoin closing balance'') (u128_try_from running')) (\<lambda>amount.
             Inr (running', entries[index := set_closing (Some amount) (entries ! index)]))))"

definition bitcoin_failed_step ::
  "nat list \<Rightarrow> UnsignedAmount \<Rightarrow> LedgerBuildEntry list \<Rightarrow> nat \<Rightarrow> LedgerBuildEntry list" where
  "bitcoin_failed_step confirmed_order basis_amount entries index =
     (if le_status (entries ! index) \<noteq> Failed then entries
      else entries[index := set_closing
        (case find (\<lambda>c. le_occurred_at (entries ! c) \<le> le_occurred_at (entries ! index)) (rev confirmed_order) of
           Some c \<Rightarrow> le_closing_balance (entries ! c)
         | None \<Rightarrow> Some basis_amount) (entries ! index)])"

fun basis_amount :: "NativeBalanceState \<Rightarrow> UnsignedAmount option" where
  "basis_amount CanonicalZero = Some 0"
| "basis_amount (KnownAmount a) = Some a"
| "basis_amount Unknown = None"

text \<open>The loop over the confirmed entries changes the slice as it goes: what it assigned before an error is still there.\<close>

fun bitcoin_confirmed_loop ::
  "nat list \<Rightarrow> int \<Rightarrow> LedgerBuildEntry list \<Rightarrow> (DbError + unit) \<times> LedgerBuildEntry list" where
  "bitcoin_confirmed_loop [] running entries = (Inr (), entries)"
| "bitcoin_confirmed_loop (index # order) running entries =
     (case bitcoin_confirmed_step (running, entries) index of
        Inl err \<Rightarrow> (Inl err, entries)
      | Inr (running', entries') \<Rightarrow> bitcoin_confirmed_loop order running' entries')"

definition bitcoin_closing_balances_in_place ::
  "LedgerBuildEntry list \<Rightarrow> NativeBalanceState \<Rightarrow> (DbError + unit) \<times> LedgerBuildEntry list" where
  "bitcoin_closing_balances_in_place entries basis =
     (case basis_amount basis of
        None \<Rightarrow> (Inr (), entries)
      | Some amount \<Rightarrow>
          (case i128_try_from (uint amount) of
             None \<Rightarrow> (Inl (DbError ''Bitcoin balance basis exceeds the supported signed range''), entries)
           | Some running \<Rightarrow>
               (case order_confirmed_bitcoin_entries entries of
                  Inl err \<Rightarrow> (Inl err, entries)
                | Inr confirmed_order \<Rightarrow>
                    (case bitcoin_confirmed_loop confirmed_order running entries of
                       (Inl err, entries1) \<Rightarrow> (Inl err, entries1)
                     | (Inr _, entries1) \<Rightarrow>
                         (Inr (), foldl (bitcoin_failed_step confirmed_order amount) entries1 [0..<length entries1])))))"

definition assign_bitcoin_closing_balances ::
  "LedgerBuildEntry list \<Rightarrow> NativeBalanceState \<Rightarrow> (DbError + unit) \<times> LedgerBuildEntry list" where
  "assign_bitcoin_closing_balances entries basis =
     (case bitcoin_closing_balances_in_place (map (set_closing None) entries) basis of
        (Inl err, entries') \<Rightarrow> (Inl err, map (set_closing None) entries')
      | (Inr _, entries') \<Rightarrow> (Inr (), entries'))"

text \<open>The same computed without changing anything on the way, for reasoning.\<close>

definition bitcoin_closing_balances ::
  "LedgerBuildEntry list \<Rightarrow> NativeBalanceState \<Rightarrow> DbError + LedgerBuildEntry list" where
  "bitcoin_closing_balances entries basis =
     (case basis_amount basis of
        None \<Rightarrow> Inr entries
      | Some amount \<Rightarrow>
          res_bind (ok_or (DbError ''Bitcoin balance basis exceeds the supported signed range'')
                     (i128_try_from (uint amount))) (\<lambda>running.
          res_bind (order_confirmed_bitcoin_entries entries) (\<lambda>confirmed_order.
          res_bind (res_fold bitcoin_confirmed_step (running, entries) confirmed_order) (\<lambda>(_, entries1).
          Inr (foldl (bitcoin_failed_step confirmed_order amount) entries1 [0..<length entries1])))))"

subsection \<open>Account-model assets\<close>

definition is_settled :: "LedgerBuildEntry \<Rightarrow> bool" where
  "is_settled e \<longleftrightarrow> le_status e = Confirmed \<or> le_status e = Failed"

definition is_pending :: "LedgerBuildEntry \<Rightarrow> bool" where
  "is_pending e \<longleftrightarrow> le_status e = Pending \<or> le_status e = Dropped"

definition or_max :: "int option \<Rightarrow> int" where
  "or_max v = (case v of None \<Rightarrow> SQL_MAX_I64 | Some x \<Rightarrow> x)"

definition settled_key :: "LedgerBuildEntry \<Rightarrow> time \<times> int \<times> int \<times> int \<times> string" where
  "settled_key e = (le_occurred_at e, or_max (le_block_height e), or_max (le_nonce e),
     or_max (le_min_transfer_index e), le_tx_hash e)"

definition pending_key :: "LedgerBuildEntry \<Rightarrow> time \<times> int \<times> string" where
  "pending_key e = (le_first_seen_at e, or_max (le_nonce e), le_tx_hash e)"

definition settle_step ::
  "string \<Rightarrow> int \<times> LedgerBuildEntry list \<Rightarrow> nat \<Rightarrow> DbError + int \<times> LedgerBuildEntry list" where
  "settle_step field st index =
     (case st of (running, entries) \<Rightarrow>
        res_bind (apply_signed_delta running (le_balance_delta (entries ! index)) field) (\<lambda>running'.
        res_bind (non_negative_signed_to_unsigned running') (\<lambda>c.
        Inr (running', entries[index := set_closing (Some c) (entries ! index)]))))"

definition pending_step :: "int \<times> LedgerBuildEntry list \<Rightarrow> nat \<Rightarrow> DbError + int \<times> LedgerBuildEntry list" where
  "pending_step st index =
     (case st of (provisional, entries) \<Rightarrow>
        if le_status (entries ! index) = Pending then settle_step ''pending closing balance'' st index
        else Inr (provisional, entries[index := set_closing None (entries ! index)]))"

definition assign_closing_balances ::
  "LedgerBuildEntry list \<Rightarrow> OpeningBalance option \<Rightarrow> DbError + LedgerBuildEntry list" where
  "assign_closing_balances entries opening_balance =
     (let settled_indices = sort_key (\<lambda>i. settled_key (entries ! i))
            (filter (\<lambda>i. is_settled (entries ! i)) [0..<length entries]);
          running = (case opening_balance of
            None \<Rightarrow> 0
          | Some amount \<Rightarrow> (case i128_try_from (uint amount) of None \<Rightarrow> 0 | Some v \<Rightarrow> v))
      in res_bind (res_fold (settle_step ''confirmed resulting balance'') (running, entries) settled_indices)
           (\<lambda>(running', entries1).
         let pending_indices = sort_key (\<lambda>i. pending_key (entries1 ! i))
               (filter (\<lambda>i. is_pending (entries1 ! i)) [0..<length entries1])
         in res_map snd (res_fold pending_step (running', entries1) pending_indices)))"

subsection \<open>The basis of an incomplete Bitcoin history\<close>

record AddressApiConfirmedBalanceRow =
  api_address_id :: ulid
  api_observed_at :: "time option"
  api_confirmed_balance :: "UnsignedAmount option"

fun sum_api_balances :: "UnsignedAmount \<Rightarrow> AddressApiConfirmedBalanceRow list \<Rightarrow> DbError + UnsignedAmount option" where
  "sum_api_balances acc [] = Inr (Some acc)"
| "sum_api_balances acc (row # rows) =
     (case api_confirmed_balance row of
        None \<Rightarrow> Inr None
      | Some balance \<Rightarrow>
          res_bind (add_amount acc balance ''authoritative_api_confirmed_balance_total'') (\<lambda>acc'.
            sum_api_balances acc' rows))"

definition sum_complete_api_confirmed_balance ::
  "AddressApiConfirmedBalanceRow list \<Rightarrow> DbError + UnsignedAmount option" where
  "sum_complete_api_confirmed_balance api_balances =
     (if api_balances = [] then Inr None else sum_api_balances 0 api_balances)"

definition sum_confirmed_balance_deltas :: "LedgerBuildEntry list \<Rightarrow> DbError + int" where
  "sum_confirmed_balance_deltas entries =
     res_fold (\<lambda>acc entry.
       ok_or (DbError ''Signed overflow while summing confirmed ledger balance deltas'')
         (checked_add_i128 acc (le_balance_delta entry)))
       0 (filter (\<lambda>e. le_status e = Confirmed) entries)"

definition compute_incomplete_bitcoin_basis_from_inputs ::
  "AddressApiConfirmedBalanceRow list \<Rightarrow> LedgerBuildEntry list \<Rightarrow> DbError + NativeBalanceState" where
  "compute_incomplete_bitcoin_basis_from_inputs api_balances entries =
     res_bind (sum_complete_api_confirmed_balance api_balances) (\<lambda>authoritative.
       case authoritative of
         None \<Rightarrow> Inr Unknown
       | Some authoritative_total \<Rightarrow>
           res_bind (sum_confirmed_balance_deltas entries) (\<lambda>confirmed_delta_total.
           res_bind (to_signed_amount authoritative_total ''authoritative_api_confirmed_balance_total'') (\<lambda>authoritative_signed.
           res_bind (ok_or (DbError ''Signed underflow while computing synthetic Bitcoin balance basis'')
                      (checked_sub_i128 authoritative_signed confirmed_delta_total)) (\<lambda>opening.
           if opening < 0 then Inr Unknown
           else res_map KnownAmount
                  (ok_or (DbError ''Synthetic Bitcoin balance basis exceeded u128 range'') (u128_try_from opening))))))"

definition compute_utxo_opening_balance_from_inputs ::
  "AddressApiConfirmedBalanceRow list \<Rightarrow> LedgerBuildEntry list \<Rightarrow> DbError + OpeningBalance option" where
  "compute_utxo_opening_balance_from_inputs api_balances entries =
     res_map (\<lambda>basis. case basis of KnownAmount amount \<Rightarrow> Some amount | _ \<Rightarrow> None)
       (compute_incomplete_bitcoin_basis_from_inputs api_balances entries)"

subsection \<open>Running balances\<close>

abbreviation delta_at :: "LedgerBuildEntry list \<Rightarrow> nat \<Rightarrow> int" where
  "delta_at entries i \<equiv> le_balance_delta (entries ! i)"

text \<open>The balance after the first \<open>k + 1\<close> entries of a sequence of indices, when an entry contributes \<open>contrib\<close>.\<close>

definition prefix_total :: "(LedgerBuildEntry \<Rightarrow> int) \<Rightarrow> int \<Rightarrow> LedgerBuildEntry list \<Rightarrow> nat list \<Rightarrow> nat \<Rightarrow> int" where
  "prefix_total contrib r es is k = r + (\<Sum>i\<leftarrow>take (Suc k) is. contrib (es ! i))"

abbreviation prefix_balance :: "int \<Rightarrow> LedgerBuildEntry list \<Rightarrow> nat list \<Rightarrow> nat \<Rightarrow> int" where
  "prefix_balance \<equiv> prefix_total le_balance_delta"

lemmas prefix_balance_def = prefix_total_def [of le_balance_delta]

text \<open>
  What the three loops over ordered entries have in common: a step adds what its entry contributes to the running
  balance and stores what is to be shown of the new balance as the closing balance of that entry and of no other.
\<close>

locale running_balance =
  fixes step :: "int \<times> LedgerBuildEntry list \<Rightarrow> nat \<Rightarrow> DbError + int \<times> LedgerBuildEntry list"
    and contrib :: "LedgerBuildEntry \<Rightarrow> int"
    and shown :: "LedgerBuildEntry \<Rightarrow> int \<Rightarrow> UnsignedAmount option"
    and allowed :: "LedgerBuildEntry \<Rightarrow> int \<Rightarrow> bool"
  assumes step_spec: "step (r, es) i = Inr st \<longleftrightarrow>
    allowed (es ! i) (r + contrib (es ! i)) \<and>
    st = (r + contrib (es ! i), es[i := set_closing (shown (es ! i) (r + contrib (es ! i))) (es ! i)])"
begin

lemma run_spec:
  assumes "distinct is" and "\<forall>i \<in> set is. i < length es"
  shows "res_fold step (r, es) is = Inr (r', es') \<longrightarrow>
    r' = r + (\<Sum>i\<leftarrow>is. contrib (es ! i)) \<and> length es' = length es \<and>
    (\<forall>i < length es. i \<notin> set is \<longrightarrow> es' ! i = es ! i) \<and>
    (\<forall>k < length is. allowed (es ! (is ! k)) (prefix_total contrib r es is k) \<and>
       es' ! (is ! k) = set_closing (shown (es ! (is ! k)) (prefix_total contrib r es is k)) (es ! (is ! k)))"
  using assms
proof (induction "is" arbitrary: r' es' rule: rev_induct)
  case (snoc j "is")
  show ?case
  proof
    assume "res_fold step (r, es) (is @ [j]) = Inr (r', es')"
    then obtain r1 es1 where one: "res_fold step (r, es) is = Inr (r1, es1)" and two: "step (r1, es1) j = Inr (r', es')"
      by (auto simp: res_fold_append)
    have IH: "r1 = r + (\<Sum>i\<leftarrow>is. contrib (es ! i))" "length es1 = length es"
      "\<forall>i < length es. i \<notin> set is \<longrightarrow> es1 ! i = es ! i"
      "\<forall>k < length is. allowed (es ! (is ! k)) (prefix_total contrib r es is k) \<and>
         es1 ! (is ! k) = set_closing (shown (es ! (is ! k)) (prefix_total contrib r es is k)) (es ! (is ! k))"
      using snoc.IH one snoc.prems by auto
    have j: "j < length es" "j \<notin> set is" "es1 ! j = es ! j" using snoc.prems IH(3) by auto
    let ?b = "r1 + contrib (es ! j)"
    have st: "allowed (es ! j) ?b" "r' = ?b" "es' = es1[j := set_closing (shown (es ! j) ?b) (es ! j)]"
      using two j(3) by (auto simp: step_spec)
    have b: "prefix_total contrib r es (is @ [j]) (length is) = ?b" using IH(1) by (simp add: prefix_total_def)
    have p: "prefix_total contrib r es (is @ [j]) k = prefix_total contrib r es is k" if "k < length is" for k
      using that by (simp add: prefix_total_def)
    have ne: "is ! k \<noteq> j" if "k < length is" for k using that j(2) by (metis nth_mem)
    have "allowed (es ! ((is @ [j]) ! k)) (prefix_total contrib r es (is @ [j]) k) \<and> es' ! ((is @ [j]) ! k) =
        set_closing (shown (es ! ((is @ [j]) ! k)) (prefix_total contrib r es (is @ [j]) k)) (es ! ((is @ [j]) ! k))"
      if "k < length (is @ [j])" for k
    proof (cases "k = length is")
      case True
      then show ?thesis using st b j IH(2) by simp
    next
      case False
      then have k: "k < length is" using that by simp
      then show ?thesis using p [OF k] ne [OF k] IH(4) st(3) by (simp add: nth_append)
    qed
    with st IH j show "r' = r + (\<Sum>i\<leftarrow>is @ [j]. contrib (es ! i)) \<and> length es' = length es \<and>
        (\<forall>i < length es. i \<notin> set (is @ [j]) \<longrightarrow> es' ! i = es ! i) \<and>
        (\<forall>k < length (is @ [j]). allowed (es ! ((is @ [j]) ! k)) (prefix_total contrib r es (is @ [j]) k) \<and>
          es' ! ((is @ [j]) ! k) =
            set_closing (shown (es ! ((is @ [j]) ! k)) (prefix_total contrib r es (is @ [j]) k)) (es ! ((is @ [j]) ! k)))"
      by simp
  qed
qed simp

text \<open>The run succeeds as long as every running balance is allowed.\<close>

lemma run_succeeds:
  assumes "distinct is" and "\<forall>i \<in> set is. i < length es"
    and "\<forall>k < length is. allowed (es ! (is ! k)) (prefix_total contrib r es is k)"
  shows "\<exists>st. res_fold step (r, es) is = Inr st"
  using assms
proof (induction "is" rule: rev_induct)
  case (snoc j "is")
  have p: "prefix_total contrib r es (is @ [j]) k = prefix_total contrib r es is k" if "k < length is" for k
    using that by (simp add: prefix_total_def)
  have "\<forall>k < length is. allowed (es ! (is ! k)) (prefix_total contrib r es is k)"
  proof (intro allI impI)
    fix k assume k: "k < length is"
    with snoc.prems(3) [rule_format, of k] p [OF k]
    show "allowed (es ! (is ! k)) (prefix_total contrib r es is k)" by (simp add: nth_append)
  qed
  with snoc obtain r1 es1 where one: "res_fold step (r, es) is = Inr (r1, es1)" by auto
  have run: "r1 = r + (\<Sum>i\<leftarrow>is. contrib (es ! i))" "es1 ! j = es ! j"
    using run_spec [of "is" es r r1 es1] one snoc.prems by auto
  have "allowed (es ! j) (r1 + contrib (es ! j))"
    using snoc.prems(3) [rule_format, of "length is"] run by (simp add: prefix_total_def add.assoc)
  with run have "step (r1, es1) j =
      Inr (r1 + contrib (es ! j), es1[j := set_closing (shown (es ! j) (r1 + contrib (es ! j))) (es1 ! j)])"
    by (simp add: step_spec)
  with one show ?case by (auto simp: res_fold_append)
qed simp

end

lemma word_of_non_negative: "0 \<le> v \<Longrightarrow> in_i128 v \<Longrightarrow> u128_try_from v = Some (word_of_int v)"
  by (simp add: u128_try_from_def in_i128_def)

interpretation bitcoin: running_balance bitcoin_confirmed_step le_balance_delta
  "\<lambda>e b. Some (word_of_int b)" "\<lambda>e b. in_i128 b \<and> 0 \<le> b"
proof
  fix r es i st
  show "bitcoin_confirmed_step (r, es) i = Inr st \<longleftrightarrow>
      (in_i128 (r + delta_at es i) \<and> 0 \<le> r + delta_at es i) \<and>
      st = (r + delta_at es i, es[i := set_closing (Some (word_of_int (r + delta_at es i))) (es ! i)])"
    using word_of_non_negative [of "r + delta_at es i"]
    by (auto simp: bitcoin_confirmed_step_def simp del: u128_try_from_Some)
qed

lemma non_negative_signed_to_unsigned_in_range:
  "in_i128 v \<Longrightarrow> non_negative_signed_to_unsigned v = Inr (word_of_int (max 0 v))"
  using word_of_non_negative [of v] by (simp add: non_negative_signed_to_unsigned_def max_def del: u128_try_from_Some)

interpretation settled: running_balance "settle_step field" le_balance_delta
  "\<lambda>e b. Some (word_of_int (max 0 b))" "\<lambda>e. in_i128" for field
proof
  fix r es i st
  show "settle_step field (r, es) i = Inr st \<longleftrightarrow> in_i128 (r + delta_at es i) \<and>
      st = (r + delta_at es i, es[i := set_closing (Some (word_of_int (max 0 (r + delta_at es i)))) (es ! i)])"
    using non_negative_signed_to_unsigned_in_range [of "r + delta_at es i"]
    by (auto simp: settle_step_def apply_signed_delta_def)
qed

text \<open>In the last loop a dropped transaction contributes nothing and shows nothing.\<close>

definition pending_contrib :: "LedgerBuildEntry \<Rightarrow> int" where
  "pending_contrib e = (if le_status e = Pending then le_balance_delta e else 0)"

definition pending_shown :: "LedgerBuildEntry \<Rightarrow> int \<Rightarrow> UnsignedAmount option" where
  "pending_shown e b = (if le_status e = Pending then Some (word_of_int (max 0 b)) else None)"

interpretation pending: running_balance pending_step pending_contrib pending_shown
  "\<lambda>e b. le_status e = Pending \<longrightarrow> in_i128 b"
proof
  fix r es i st
  show "pending_step (r, es) i = Inr st \<longleftrightarrow>
      (le_status (es ! i) = Pending \<longrightarrow> in_i128 (r + pending_contrib (es ! i))) \<and>
      st = (r + pending_contrib (es ! i),
            es[i := set_closing (pending_shown (es ! i) (r + pending_contrib (es ! i))) (es ! i)])"
    using settled.step_spec [of "''pending closing balance''" r es i st]
    by (auto simp: pending_step_def pending_contrib_def pending_shown_def)
qed

subsection \<open>Bitcoin closing balances\<close>

lemma set_closing_simps [simp]:
  "le_status (set_closing c e) = le_status e" "le_balance_delta (set_closing c e) = le_balance_delta e"
  "le_occurred_at (set_closing c e) = le_occurred_at e" "le_tx_hash (set_closing c e) = le_tx_hash e"
  "le_closing_balance (set_closing c e) = c" "set_closing c (set_closing c' e) = set_closing c e"
  "le_block_height (set_closing c e) = le_block_height e" "le_first_seen_at (set_closing c e) = le_first_seen_at e"
  "le_nonce (set_closing c e) = le_nonce e" "le_min_transfer_index (set_closing c e) = le_min_transfer_index e"
  by (simp_all add: set_closing_def)

lemma set_closing_self: "set_closing (le_closing_balance e) e = e"
  by (cases e) (simp add: set_closing_def)

text \<open>The closing balance a failed transaction shows: that of the last confirmed transaction not after it.\<close>

definition failed_closing :: "nat list \<Rightarrow> UnsignedAmount \<Rightarrow> LedgerBuildEntry list \<Rightarrow> nat \<Rightarrow> UnsignedAmount option" where
  "failed_closing ord amount entries i =
     (case find (\<lambda>c. le_occurred_at (entries ! c) \<le> le_occurred_at (entries ! i)) (rev ord) of
        Some c \<Rightarrow> le_closing_balance (entries ! c)
      | None \<Rightarrow> Some amount)"

lemma find_cong_set: "(\<And>x. x \<in> set xs \<Longrightarrow> P x = Q x) \<Longrightarrow> find P xs = find Q xs"
  by (induction xs) auto

lemma find_Some_in: "find P xs = Some x \<Longrightarrow> x \<in> set xs \<and> P x"
  by (induction xs) (auto split: if_splits)

lemma failed_closing_cong:
  assumes "\<forall>c \<in> set ord. es' ! c = es ! c" and "le_occurred_at (es' ! i) = le_occurred_at (es ! i)"
  shows "failed_closing ord amount es' i = failed_closing ord amount es i"
proof -
  have "find (\<lambda>c. le_occurred_at (es' ! c) \<le> le_occurred_at (es' ! i)) (rev ord) =
      find (\<lambda>c. le_occurred_at (es ! c) \<le> le_occurred_at (es ! i)) (rev ord)"
    using assms by (intro find_cong_set) auto
  then show ?thesis
    using assms(1)
    by (cases "find (\<lambda>c. le_occurred_at (es ! c) \<le> le_occurred_at (es ! i)) (rev ord)")
       (auto simp: failed_closing_def dest: find_Some_in)
qed

lemma failed_fold_spec:
  assumes "\<forall>c \<in> set ord. c < length es \<and> le_status (es ! c) \<noteq> Failed" and "m \<le> length es"
  shows "length (foldl (bitcoin_failed_step ord amount) es [0..<m]) = length es \<and>
    (\<forall>i < length es. foldl (bitcoin_failed_step ord amount) es [0..<m] ! i =
      (if i < m \<and> le_status (es ! i) = Failed then set_closing (failed_closing ord amount es i) (es ! i) else es ! i))"
  using assms(2)
proof (induction m)
  case (Suc m)
  let ?es = "foldl (bitcoin_failed_step ord amount) es [0..<m]"
  have IH: "length ?es = length es" "\<forall>i < length es. ?es ! i =
      (if i < m \<and> le_status (es ! i) = Failed then set_closing (failed_closing ord amount es i) (es ! i) else es ! i)"
    using Suc by auto
  have m: "m < length es" "?es ! m = es ! m" using Suc.prems IH(2) by auto
  have ge: "?es ! c = es ! c" if "c \<in> set ord" for c
    using IH(2) assms(1) that by simp
  have "failed_closing ord amount ?es m = failed_closing ord amount es m"
    using ge m(2) by (intro failed_closing_cong) auto
  then have "bitcoin_failed_step ord amount ?es m =
      (if le_status (es ! m) = Failed then ?es[m := set_closing (failed_closing ord amount es m) (es ! m)] else ?es)"
    by (simp add: bitcoin_failed_step_def failed_closing_def m(2))
  then show ?case using IH m by (auto simp: nth_list_update less_Suc_eq)
qed simp

lemma clear_unchanged: "length xs = length ys \<Longrightarrow>
    (\<And>i. i < length ys \<Longrightarrow> \<exists>c. xs ! i = set_closing c (ys ! i)) \<Longrightarrow> map (set_closing None) xs = map (set_closing None) ys"
  by (rule nth_equalityI) fastforce+

lemma clear_after_set: "map (set_closing None) (es[i := set_closing c (es ! i)]) = map (set_closing None) es"
proof (cases "i < length es")
  case True
  then show ?thesis by (auto simp: list_eq_iff_nth_eq nth_list_update set_closing_def)
qed (simp add: list_update_beyond)

lemma bitcoin_confirmed_loop_fold:
  "case res_fold bitcoin_confirmed_step (running, es) order of
     Inl err \<Rightarrow> \<exists>es'. bitcoin_confirmed_loop order running es = (Inl err, es') \<and>
       map (set_closing None) es' = map (set_closing None) es
   | Inr (running', es') \<Rightarrow> bitcoin_confirmed_loop order running es = (Inr (), es')"
proof (induction order arbitrary: running es)
  case (Cons i order)
  show ?case
  proof (cases "bitcoin_confirmed_step (running, es) i")
    case (Inr st)
    obtain running1 es1 where st: "st = (running1, es1)" by fastforce
    have "map (set_closing None) es1 = map (set_closing None) es"
      using Inr st clear_after_set by (auto simp: bitcoin_confirmed_step_def split: if_splits)
    with Inr st Cons.IH [of running1 es1] show ?thesis by (auto split: sum.splits)
  qed simp
qed simp

text \<open>What the operation leaves behind: the balances it computed, or, after an error at any point, none.\<close>

lemma assign_bitcoin_closing_balances_eq:
  "assign_bitcoin_closing_balances entries basis =
     (let cleared = map (set_closing None) entries in
      case bitcoin_closing_balances cleared basis of
        Inl err \<Rightarrow> (Inl err, cleared)
      | Inr entries' \<Rightarrow> (Inr (), entries'))"
proof -
  let ?es = "map (set_closing None) entries"
  have cc: "map (set_closing None) ?es = ?es" by (simp add: set_closing_def)
  show ?thesis
  proof (cases "basis_amount basis")
    case None
    then show ?thesis
      by (simp add: assign_bitcoin_closing_balances_def bitcoin_closing_balances_in_place_def bitcoin_closing_balances_def)
  next
    case (Some amount)
    note defs = assign_bitcoin_closing_balances_def bitcoin_closing_balances_in_place_def bitcoin_closing_balances_def
      Let_def i128_try_from_def
    show ?thesis
    proof (cases "i128_try_from (uint amount)")
      case None
      with Some cc show ?thesis by (simp add: defs)
    next
      case running: (Some running)
      show ?thesis
      proof (cases "order_confirmed_bitcoin_entries ?es")
        case (Inl err)
        with Some running cc show ?thesis by (simp add: defs)
      next
        case (Inr order)
        with Some running cc bitcoin_confirmed_loop_fold [where running = running and es = ?es and order = order] show ?thesis
          by (auto simp: defs split: sum.splits)
      qed
    qed
  qed
qed

lemma bitcoin_closing_balances_spec:
  assumes "bitcoin_closing_balances es basis = Inr es'" and "basis_amount basis = Some amount"
    and "\<forall>e \<in> set es. le_closing_balance e = None"
  shows "\<exists>ord. order_confirmed_bitcoin_entries es = Inr ord \<and> length es' = length es \<and>
    (\<forall>k < length ord. in_i128 (prefix_balance (uint amount) es ord k) \<and> 0 \<le> prefix_balance (uint amount) es ord k \<and>
       es' ! (ord ! k) = set_closing (Some (word_of_int (prefix_balance (uint amount) es ord k))) (es ! (ord ! k))) \<and>
    (\<forall>i < length es. le_status (es ! i) = Failed \<longrightarrow> es' ! i = set_closing (failed_closing ord amount es' i) (es ! i)) \<and>
    (\<forall>i < length es. is_pending (es ! i) \<longrightarrow> es' ! i = es ! i)"
proof -
  from assms(1,2) obtain ord running es1 where ord: "order_confirmed_bitcoin_entries es = Inr ord"
    and run: "res_fold bitcoin_confirmed_step (uint amount, es) ord = Inr (running, es1)"
    and es': "es' = foldl (bitcoin_failed_step ord amount) es1 [0..<length es1]"
    by (auto simp: bitcoin_closing_balances_def)
  have mem: "\<And>i. i \<in> set ord \<longleftrightarrow> i < length es \<and> le_status (es ! i) = Confirmed"
    and dist: "distinct ord"
    using order_confirmed_cases [of es] ord by (auto split: if_splits)
  have inb: "\<forall>i \<in> set ord. i < length es" using mem by blast
  have r: "length es1 = length es" "\<forall>i < length es. i \<notin> set ord \<longrightarrow> es1 ! i = es ! i"
    "\<forall>k < length ord. (in_i128 (prefix_balance (uint amount) es ord k) \<and> 0 \<le> prefix_balance (uint amount) es ord k) \<and>
       es1 ! (ord ! k) = set_closing (Some (word_of_int (prefix_balance (uint amount) es ord k))) (es ! (ord ! k))"
    using bitcoin.run_spec [OF dist inb, of "uint amount" running es1] run by auto
  have st: "le_status (es1 ! i) = le_status (es ! i)" if "i < length es" for i
  proof (cases "i \<in> set ord")
    case True
    then obtain k where "k < length ord" "i = ord ! k" by (auto simp: in_set_conv_nth)
    with r(3) show ?thesis by simp
  qed (use r(2) that in simp)
  have conf: "\<forall>c \<in> set ord. c < length es1 \<and> le_status (es1 ! c) \<noteq> Failed" using mem st r(1) by simp
  note f = failed_fold_spec [OF conf order_refl, of amount, folded es']
  have nf: "es' ! i = es1 ! i" if "i < length es" "le_status (es ! i) \<noteq> Failed" for i
    using f that st r(1) by auto
  have "es' ! (ord ! k) = es1 ! (ord ! k)" if "k < length ord" for k
    using nf mem that by (metis ChainTransactionStatus.distinct(9) nth_mem)
  moreover have "es' ! i = set_closing (failed_closing ord amount es' i) (es ! i)"
    if i: "i < length es" "le_status (es ! i) = Failed" for i
  proof -
    have e: "es' ! i = set_closing (failed_closing ord amount es1 i) (es1 ! i)" using f i st r(1) by simp
    have "es1 ! i = es ! i" using r(2) i mem by auto
    moreover have "failed_closing ord amount es' i = failed_closing ord amount es1 i"
      using nf mem e by (intro failed_closing_cong) auto
    ultimately show ?thesis using e by simp
  qed
  moreover have "es' ! i = es ! i" if "i < length es" "is_pending (es ! i)" for i
    using nf [OF that(1)] r(2) that mem by (auto simp: is_pending_def)
  ultimately show ?thesis using ord r f by auto
qed

lemma clear_closing [simp]: "\<forall>e \<in> set (map (set_closing None) es). le_closing_balance e = None"
  by simp

text \<open>
  C2. Bitcoin closing balances from a known basis. When the assignment succeeds, the closing balance of the
  \<open>k\<close>-th confirmed entry, in ledger order, is the basis plus the balance changes of the first \<open>k + 1\<close> confirmed
  entries, and it is never negative; a failed transaction shows the balance of the last confirmed one not after it,
  or the basis; pending and dropped entries show none. Nothing but closing balances changes.
\<close>

theorem assign_bitcoin_closing_balances_running:
  assumes "assign_bitcoin_closing_balances entries basis = (Inr (), es')" and "basis_amount basis = Some amount"
  defines "es \<equiv> map (set_closing None) entries"
  shows "map (set_closing None) es' = es \<and>
    (\<exists>ord. order_confirmed_bitcoin_entries es = Inr ord \<and>
      (\<forall>k < length ord. 0 \<le> prefix_balance (uint amount) es ord k \<and>
         le_closing_balance (es' ! (ord ! k)) = Some (word_of_int (prefix_balance (uint amount) es ord k)) \<and>
         uint (word_of_int (prefix_balance (uint amount) es ord k) :: u128) = prefix_balance (uint amount) es ord k) \<and>
      (\<forall>i < length es. le_status (es ! i) = Failed \<longrightarrow> le_closing_balance (es' ! i) = failed_closing ord amount es' i) \<and>
      (\<forall>i < length es. is_pending (es ! i) \<longrightarrow> le_closing_balance (es' ! i) = None))"
proof -
  have run: "bitcoin_closing_balances es basis = Inr es'"
    using assms(1) by (auto simp: assign_bitcoin_closing_balances_eq es_def Let_def split: sum.splits)
  have none: "\<forall>e \<in> set es. le_closing_balance e = None" by (simp add: es_def)
  from bitcoin_closing_balances_spec [OF run assms(2) none] obtain ord where
    ord: "order_confirmed_bitcoin_entries es = Inr ord" and len: "length es' = length es"
    and conf: "\<forall>k < length ord. in_i128 (prefix_balance (uint amount) es ord k) \<and> 0 \<le> prefix_balance (uint amount) es ord k \<and>
       es' ! (ord ! k) = set_closing (Some (word_of_int (prefix_balance (uint amount) es ord k))) (es ! (ord ! k))"
    and failed: "\<forall>i < length es. le_status (es ! i) = Failed \<longrightarrow> es' ! i = set_closing (failed_closing ord amount es' i) (es ! i)"
    and pend: "\<forall>i < length es. is_pending (es ! i) \<longrightarrow> es' ! i = es ! i" by auto
  have mem: "set ord = {i. i < length es \<and> le_status (es ! i) = Confirmed}"
    using order_confirmed_cases [of es] ord by (auto split: if_splits)
  have "\<exists>c. es' ! i = set_closing c (es ! i)" if i: "i < length es" for i
  proof (cases "le_status (es ! i)")
    case Confirmed
    with i mem have "i \<in> set ord" by simp
    then obtain k where "k < length ord" "i = ord ! k" by (auto simp: in_set_conv_nth)
    with conf have "es' ! i = set_closing (Some (word_of_int (prefix_balance (uint amount) es ord k))) (es ! i)" by simp
    then show ?thesis by (rule exI)
  next
    case Failed
    with failed i have "es' ! i = set_closing (failed_closing ord amount es' i) (es ! i)" by simp
    then show ?thesis by (rule exI)
  next
    case Pending
    with pend i have "es' ! i = es ! i" by (simp add: is_pending_def)
    then show ?thesis by (metis set_closing_self)
  next
    case Dropped
    with pend i have "es' ! i = es ! i" by (simp add: is_pending_def)
    then show ?thesis by (metis set_closing_self)
  qed
  then have "map (set_closing None) es' = map (set_closing None) es" by (intro clear_unchanged len) auto
  moreover have "map (set_closing None) es = es" by (simp add: es_def)
  moreover have "0 \<le> prefix_balance (uint amount) es ord k \<and>
      le_closing_balance (es' ! (ord ! k)) = Some (word_of_int (prefix_balance (uint amount) es ord k)) \<and>
      uint (word_of_int (prefix_balance (uint amount) es ord k) :: u128) = prefix_balance (uint amount) es ord k"
    if "k < length ord" for k
  proof -
    have "uint (word_of_int (prefix_balance (uint amount) es ord k) :: u128) = prefix_balance (uint amount) es ord k"
      using conf that by (intro uint_u128_of_int) (auto simp: in_i128_def)
    with conf that show ?thesis by simp
  qed
  moreover have "\<forall>i < length es. is_pending (es ! i) \<longrightarrow> le_closing_balance (es' ! i) = None"
    using pend none by simp
  moreover have "\<forall>i < length es. le_status (es ! i) = Failed \<longrightarrow> le_closing_balance (es' ! i) = failed_closing ord amount es' i"
    using failed by (metis set_closing_simps(5))
  ultimately show ?thesis using ord by auto
qed

text \<open>Two confirmed transactions of one block, the second listed spending the first, for the witnesses.\<close>

definition sample_entries :: "LedgerBuildEntry list" where
  "sample_entries = [sample_entry ''a'' Confirmed (Some 7) [''b''] (- 30), sample_entry ''b'' Confirmed (Some 7) [] 50,
     sample_entry ''c'' Pending None [] 5]"

lemma sample_entries_clear: "map (set_closing None) sample_entries = sample_entries"
  by (simp add: sample_entries_def sample_entry_def set_closing_def)

lemma sample_entries_order: "order_confirmed_bitcoin_entries sample_entries = Inr [1, 0]"
  unfolding sample_entries_def by (rule sample_order)

lemma sample_entries_assign:
  assumes "basis_amount basis = Some a" and "uint a < 100"
  shows "\<exists>es'. assign_bitcoin_closing_balances sample_entries basis = (Inr (), es')"
proof -
  have "\<exists>st. res_fold bitcoin_confirmed_step (uint a, sample_entries) [1, 0] = Inr st"
    using assms(2)
    by (intro bitcoin.run_succeeds)
       (auto simp: sample_entries_def sample_entry_def prefix_balance_def in_i128_def less_Suc_eq numeral_2_eq_2)
  then obtain r es1 where "res_fold bitcoin_confirmed_step (uint a, sample_entries) [1, 0] = Inr (r, es1)" by auto
  moreover have "in_i128 (uint a)"
    unfolding in_i128_def using assms(2) by (auto intro: order_trans [of _ 0])
  ultimately show ?thesis
    unfolding assign_bitcoin_closing_balances_eq sample_entries_clear bitcoin_closing_balances_def assms(1)
    by (auto simp: sample_entries_order i128_try_from_def simp del: res_fold.simps)
qed

theorem assign_bitcoin_closing_balances_running_witness:
  "\<exists>es'. assign_bitcoin_closing_balances sample_entries CanonicalZero = (Inr (), es') \<and>
     le_closing_balance (es' ! 1) = Some 50 \<and> le_closing_balance (es' ! 0) = Some 20 \<and> le_closing_balance (es' ! 2) = None"
proof -
  obtain es' where es': "assign_bitcoin_closing_balances sample_entries CanonicalZero = (Inr (), es')"
    using sample_entries_assign [of CanonicalZero 0] by auto
  have len: "length sample_entries = 3" by (simp add: sample_entries_def)
  have pend: "is_pending (sample_entries ! 2)" by (simp add: sample_entries_def sample_entry_def is_pending_def)
  have b: "prefix_balance 0 sample_entries [1, 0] 0 = 50" "prefix_balance 0 sample_entries [1, 0] (Suc 0) = 20"
    by (simp_all add: prefix_balance_def sample_entries_def sample_entry_def)
  from assign_bitcoin_closing_balances_running [OF es', of 0, unfolded sample_entries_clear sample_entries_order] len pend
  have "\<forall>k < 2. le_closing_balance (es' ! ([1, 0] ! k)) = Some (word_of_int (prefix_balance 0 sample_entries [1, 0] k))"
    and "le_closing_balance (es' ! 2) = None" by auto
  then show ?thesis using es' b by (auto simp: numeral_2_eq_2 less_Suc_eq all_conj_distrib)
qed

text \<open>
  C35. A Bitcoin ledger without a sound balance shows none. If the assignment fails, at whatever point of its loop over
  the confirmed entries, or the basis is unknown, then no entry keeps a closing balance: neither one it had before
  nor one the loop had already assigned. Everything else is unchanged.
\<close>

theorem assign_bitcoin_closing_balances_clears:
  assumes "assign_bitcoin_closing_balances entries basis = (r, es')" and "r \<noteq> Inr () \<or> basis = Unknown"
  shows "es' = map (set_closing None) entries \<and> (basis = Unknown \<longrightarrow> r = Inr ())"
  using assms
  by (auto simp: assign_bitcoin_closing_balances_eq bitcoin_closing_balances_def Let_def split: sum.splits)

theorem assign_bitcoin_closing_balances_clears_witness:
  "\<exists>err partial.
     bitcoin_closing_balances_in_place [sample_entry ''a'' Confirmed (Some 1) [] 5,
       sample_entry ''b'' Confirmed (Some 2) [] (- 9)] CanonicalZero = (Inl err, partial) \<and>
     map le_closing_balance partial = [Some 5, None] \<and>
     assign_bitcoin_closing_balances [sample_entry ''a'' Confirmed (Some 1) [] 5,
       set_closing (Some 9) (sample_entry ''b'' Confirmed (Some 2) [] (- 9))] CanonicalZero =
     (Inl err, [sample_entry ''a'' Confirmed (Some 1) [] 5, sample_entry ''b'' Confirmed (Some 2) [] (- 9)])"
proof -
  let ?a = "sample_entry ''a'' Confirmed (Some 1) [] 5" and ?b = "sample_entry ''b'' Confirmed (Some 2) [] (- 9)"
  let ?es = "[?a, set_closing (Some 9) ?b]"
  have clear: "map (set_closing None) ?es = [?a, ?b]" by (simp add: sample_entry_def set_closing_def)
  have order: "order_confirmed_bitcoin_entries [?a, ?b] = Inr [0, Suc 0]" by code_simp
  have body: "bitcoin_closing_balances_in_place [?a, ?b] CanonicalZero =
      (case bitcoin_confirmed_loop [0, Suc 0] 0 [?a, ?b] of
         (Inl err, entries1) \<Rightarrow> (Inl err, entries1)
       | (Inr _, entries1) \<Rightarrow> (Inr (), foldl (bitcoin_failed_step [0, Suc 0] 0) entries1 [0..<length entries1]))"
    by (simp add: bitcoin_closing_balances_in_place_def order i128_try_from_def in_i128_def)
  obtain err partial where p: "bitcoin_closing_balances_in_place [?a, ?b] CanonicalZero = (Inl err, partial)"
    and l: "map le_closing_balance partial = [Some 5, None]"
    unfolding body
    by (simp add: bitcoin_confirmed_step_def sample_entry_def set_closing_def i128_try_from_def checked_add_i128_def
        u128_try_from_def in_i128_def)
  obtain es' where r: "assign_bitcoin_closing_balances ?es CanonicalZero = (Inl err, es')"
    unfolding assign_bitcoin_closing_balances_def clear p by simp
  from assign_bitcoin_closing_balances_clears [OF r] clear have "es' = [?a, ?b]" by simp
  with p l r show ?thesis by simp
qed

subsection \<open>The incomplete basis reconciles the ledger with the provider\<close>

definition reported_total :: "AddressApiConfirmedBalanceRow list \<Rightarrow> int" where
  "reported_total rows = (\<Sum>r\<leftarrow>rows. case api_confirmed_balance r of None \<Rightarrow> 0 | Some a \<Rightarrow> uint a)"

lemma sum_api_balances_spec:
  "sum_api_balances acc rows = Inr (Some t) \<Longrightarrow>
     (\<forall>r \<in> set rows. api_confirmed_balance r \<noteq> None) \<and> uint t = uint acc + reported_total rows"
proof (induction rows arbitrary: acc)
  case (Cons r rows)
  then obtain a acc' where a: "api_confirmed_balance r = Some a"
    "add_amount acc a ''authoritative_api_confirmed_balance_total'' = Inr acc'"
    "sum_api_balances acc' rows = Inr (Some t)" by (auto split: option.splits)
  have "int (unat acc') = int (unat acc) + int (unat a)" using add_amount_exact [OF a(2)] by (simp only: of_nat_add)
  with Cons.IH [OF a(3)] a(1) show ?case by (simp add: reported_total_def)
qed (simp add: reported_total_def)

lemma sum_confirmed_balance_deltas_spec:
  assumes "sum_confirmed_balance_deltas es = Inr d"
  shows "d = (\<Sum>e\<leftarrow>filter (\<lambda>e. le_status e = Confirmed) es. le_balance_delta e)"
proof -
  have "res_fold (\<lambda>acc entry. ok_or err (checked_add_i128 acc (le_balance_delta entry))) acc xs = Inr d \<Longrightarrow>
      d = acc + (\<Sum>e\<leftarrow>xs. le_balance_delta e)" for err :: DbError and acc xs
  proof (induction xs arbitrary: acc)
    case (Cons x xs)
    from Cons.prems have "res_fold (\<lambda>acc entry. ok_or err (checked_add_i128 acc (le_balance_delta entry)))
        (acc + le_balance_delta x) xs = Inr d" by simp
    from Cons.IH [OF this] show ?case by simp
  qed simp
  with assms show ?thesis by (fastforce simp: sum_confirmed_balance_deltas_def)
qed

lemma incomplete_basis_amount:
  assumes "compute_incomplete_bitcoin_basis_from_inputs api es = Inr (KnownAmount a)"
  shows "api \<noteq> [] \<and> (\<forall>r \<in> set api. api_confirmed_balance r \<noteq> None) \<and>
    uint a + (\<Sum>e\<leftarrow>filter (\<lambda>e. le_status e = Confirmed) es. le_balance_delta e) = reported_total api"
proof -
  from assms obtain t d where t: "sum_complete_api_confirmed_balance api = Inr (Some t)"
    and d: "sum_confirmed_balance_deltas es = Inr d" and a: "uint a = uint t - d"
    by (auto simp: compute_incomplete_bitcoin_basis_from_inputs_def to_signed_amount_def split: option.splits if_splits)
  from t have "api \<noteq> []" "sum_api_balances 0 api = Inr (Some t)"
    by (auto simp: sum_complete_api_confirmed_balance_def split: if_splits)
  with sum_api_balances_spec [OF this(2)] sum_confirmed_balance_deltas_spec [OF d] a show ?thesis by simp
qed

lemma confirmed_sum_over_order:
  assumes "distinct ord" and "set ord = {i. i < length es \<and> le_status (es ! i) = Confirmed}"
  shows "(\<Sum>i\<leftarrow>ord. delta_at es i) = (\<Sum>e\<leftarrow>filter (\<lambda>e. le_status e = Confirmed) es. le_balance_delta e)"
proof -
  let ?is = "filter (\<lambda>i. le_status (es ! i) = Confirmed) [0..<length es]"
  have "set ord = set ?is" using assms(2) by auto
  then have "mset ord = mset ?is" using assms(1) set_eq_iff_mset_eq_distinct [of ord ?is] by simp
  then have "mset (map (delta_at es) ord) = mset (map (delta_at es) ?is)" by simp
  then have "(\<Sum>i\<leftarrow>ord. delta_at es i) = (\<Sum>i\<leftarrow>?is. delta_at es i)" by (metis sum_mset_sum_list)
  also have "map (delta_at es) ?is = map le_balance_delta (filter (\<lambda>e. le_status e = Confirmed) (map ((!) es) [0..<length es]))"
    by (simp add: filter_map comp_def)
  finally show ?thesis by (simp add: map_nth)
qed

text \<open>
  C36. The synthetic basis of an incomplete Bitcoin history. It is known only when every address of the account has a
  balance reported by the provider; then basis plus all confirmed balance changes is exactly the reported total, so
  the ledger built on it ends, at its last confirmed entry, with the balance the provider reports.
\<close>

theorem incomplete_bitcoin_basis_reconciles:
  assumes "compute_incomplete_bitcoin_basis_from_inputs api entries = Inr (KnownAmount a)"
    and "assign_bitcoin_closing_balances entries (KnownAmount a) = (Inr (), es')"
    and "order_confirmed_bitcoin_entries (map (set_closing None) entries) = Inr ord" and "ord \<noteq> []"
  shows "(\<forall>r \<in> set api. api_confirmed_balance r \<noteq> None) \<and>
    (\<exists>w. le_closing_balance (es' ! last ord) = Some w \<and> uint w = reported_total api)"
proof -
  let ?es = "map (set_closing None) entries" and ?k = "length ord - 1"
  have run: "bitcoin_closing_balances ?es (KnownAmount a) = Inr es'"
    using assms(2) by (auto simp: assign_bitcoin_closing_balances_eq Let_def split: sum.splits)
  from bitcoin_closing_balances_spec [OF run _ clear_closing, of a] assms(3,4) have
    b: "in_i128 (prefix_balance (uint a) ?es ord ?k)" "0 \<le> prefix_balance (uint a) ?es ord ?k"
      "le_closing_balance (es' ! (ord ! ?k)) = Some (word_of_int (prefix_balance (uint a) ?es ord ?k))" by auto
  have o: "distinct ord" "set ord = {i. i < length ?es \<and> le_status (?es ! i) = Confirmed}"
    using order_confirmed_cases [of ?es] assms(3) by (auto split: if_splits)
  have "prefix_balance (uint a) ?es ord ?k = uint a + (\<Sum>i\<leftarrow>ord. delta_at ?es i)"
    using assms(4) by (simp add: prefix_balance_def)
  also have "\<dots> = uint a + (\<Sum>e\<leftarrow>filter (\<lambda>e. le_status e = Confirmed) entries. le_balance_delta e)"
    unfolding confirmed_sum_over_order [OF o] by (simp add: filter_map comp_def)
  also have "\<dots> = reported_total api" using incomplete_basis_amount [OF assms(1)] by simp
  finally have total: "prefix_balance (uint a) ?es ord ?k = reported_total api" .
  have "uint (word_of_int (reported_total api) :: u128) = reported_total api"
    using b total by (intro uint_u128_of_int) (auto simp: in_i128_def)
  with b total incomplete_basis_amount [OF assms(1)] assms(4) show ?thesis by (simp add: last_conv_nth)
qed

theorem incomplete_bitcoin_basis_reconciles_witness:
  "\<exists>es' w. assign_bitcoin_closing_balances sample_entries (KnownAmount 5) = (Inr (), es') \<and>
     le_closing_balance (es' ! 0) = Some w \<and> uint w = 25"
proof -
  let ?api = "[\<lparr>api_address_id = ''x'', api_observed_at = None, api_confirmed_balance = Some 25\<rparr>]"
  have basis: "compute_incomplete_bitcoin_basis_from_inputs ?api sample_entries = Inr (KnownAmount 5)"
    by (simp add: compute_incomplete_bitcoin_basis_from_inputs_def sum_complete_api_confirmed_balance_def add_amount_def
        amount_checked_add_exact sum_confirmed_balance_deltas_def sample_entries_def sample_entry_def to_signed_amount_def
        checked_add_i128_def checked_sub_i128_def i128_try_from_def in_i128_def u128_try_from_def)
  obtain es' where es': "assign_bitcoin_closing_balances sample_entries (KnownAmount 5) = (Inr (), es')"
    using sample_entries_assign [of "KnownAmount 5" 5] by auto
  have ord: "order_confirmed_bitcoin_entries (map (set_closing None) sample_entries) = Inr [1, 0]"
    unfolding sample_entries_clear by (rule sample_entries_order)
  from incomplete_bitcoin_basis_reconciles [OF basis es' ord] es' show ?thesis by (auto simp: reported_total_def)
qed

subsection \<open>Account-model closing balances\<close>

definition opening_value :: "OpeningBalance option \<Rightarrow> int" where
  "opening_value opening =
     (case opening of None \<Rightarrow> 0
      | Some amount \<Rightarrow> (case i128_try_from (uint amount) of None \<Rightarrow> 0 | Some v \<Rightarrow> v))"

text \<open>The balance after a settled entry, and after a pending one, as sums over the entries that come no later.\<close>

definition settled_balance :: "int \<Rightarrow> LedgerBuildEntry list \<Rightarrow> LedgerBuildEntry \<Rightarrow> int" where
  "settled_balance opening es e =
     opening + (\<Sum>x\<leftarrow>filter (\<lambda>x. is_settled x \<and> settled_key x \<le> settled_key e) es. le_balance_delta x)"

definition pending_balance :: "int \<Rightarrow> LedgerBuildEntry list \<Rightarrow> LedgerBuildEntry \<Rightarrow> int" where
  "pending_balance opening es e =
     opening + (\<Sum>x\<leftarrow>filter is_settled es. le_balance_delta x) +
     (\<Sum>x\<leftarrow>filter (\<lambda>x. is_pending x \<and> pending_key x \<le> pending_key e) es. pending_contrib x)"

definition closing_of :: "int \<Rightarrow> LedgerBuildEntry list \<Rightarrow> LedgerBuildEntry \<Rightarrow> UnsignedAmount option" where
  "closing_of opening es e =
     (if is_settled e then Some (word_of_int (max 0 (settled_balance opening es e)))
      else pending_shown e (pending_balance opening es e))"

definition balances_in_range :: "int \<Rightarrow> LedgerBuildEntry list \<Rightarrow> bool" where
  "balances_in_range opening es \<longleftrightarrow>
     (\<forall>e \<in> set es. (is_settled e \<longrightarrow> in_i128 (settled_balance opening es e)) \<and>
        (le_status e = Pending \<longrightarrow> in_i128 (pending_balance opening es e)))"

lemma filter_sorted_prefix:
  assumes "sorted (map K xs)" and "distinct (map K xs)" and "k < length xs"
  shows "filter (\<lambda>x. K x \<le> K (xs ! k)) xs = take (Suc k) xs"
proof -
  have s: "K (xs ! a) < K (xs ! b)" if "a < b" "b < length xs" for a b
    using strict_sorted_iff [of "map K xs"] assms(1,2) that by (auto simp: sorted_wrt_iff_nth_less)
  have "filter (\<lambda>x. K x \<le> K (xs ! k)) (take (Suc k) xs) = take (Suc k) xs"
    using less_imp_le [OF s [OF _ assms(3)]] by (intro filter_True) (auto simp: in_set_conv_nth less_Suc_eq)
  moreover have "filter (\<lambda>x. K x \<le> K (xs ! k)) (drop (Suc k) xs) = []"
    using s by (auto simp: filter_empty_conv in_set_conv_nth not_le)
  ultimately show ?thesis by (metis append_Nil2 append_take_drop_id filter_append)
qed

text \<open>Prefix sums along indices sorted by a key are sums over the entries with a key no larger.\<close>

lemma prefix_total_sorted:
  fixes K :: "LedgerBuildEntry \<Rightarrow> 'k::linorder"
  defines "ixs es P \<equiv> sort_key (\<lambda>i. K (es ! i)) (filter (\<lambda>i. P (es ! i)) [0..<length es])"
  assumes "distinct (map K es)" and "k < length (ixs es P)"
  shows "prefix_total contrib r es (ixs es P) k =
    r + (\<Sum>x\<leftarrow>filter (\<lambda>x. P x \<and> K x \<le> K (es ! (ixs es P ! k))) es. contrib x)"
proof -
  let ?is = "ixs es P" and ?b = "K (es ! (ixs es P ! k))"
  have inj: "inj_on (\<lambda>i. K (es ! i)) {0..<length es}"
    using assms(2) by (fastforce simp: inj_on_def distinct_conv_nth)
  have set: "set ?is \<subseteq> {0..<length es}" and dist: "distinct ?is" by (auto simp: ixs_def)
  have "distinct (map (\<lambda>i. K (es ! i)) ?is)"
    using dist inj_on_subset [OF inj set] by (simp add: distinct_map)
  then have "filter (\<lambda>i. K (es ! i) \<le> ?b) ?is = take (Suc k) ?is"
    using filter_sorted_prefix [of "\<lambda>i. K (es ! i)" ?is k] assms(3) by (simp add: ixs_def)
  then have "(\<Sum>i\<leftarrow>take (Suc k) ?is. contrib (es ! i)) = (\<Sum>i\<leftarrow>filter (\<lambda>i. K (es ! i) \<le> ?b) ?is. contrib (es ! i))"
    by simp
  also have "\<dots> = (\<Sum>i\<leftarrow>filter (\<lambda>i. K (es ! i) \<le> ?b) (filter (\<lambda>i. P (es ! i)) [0..<length es]). contrib (es ! i))"
    unfolding sum_mset_sum_list [symmetric] mset_map mset_filter by (simp add: ixs_def)
  also have "\<dots> = (\<Sum>x\<leftarrow>filter (\<lambda>x. P x \<and> K x \<le> ?b) (map ((!) es) [0..<length es]). contrib x)"
    by (simp add: filter_map comp_def conj_commute)
  finally show ?thesis by (simp add: prefix_total_def map_nth)
qed

lemma distinct_keys:
  assumes "distinct (map le_tx_hash es)"
  shows "distinct (map settled_key es)" and "distinct (map pending_key es)"
  using assms by (auto simp: distinct_map inj_on_def settled_key_def pending_key_def)

text \<open>The balance after an entry, in the order of a key, over the entries a loop visits.\<close>

definition key_total :: "(LedgerBuildEntry \<Rightarrow> int) \<Rightarrow> (LedgerBuildEntry \<Rightarrow> bool) \<Rightarrow> (LedgerBuildEntry \<Rightarrow> 'k::linorder) \<Rightarrow>
    int \<Rightarrow> LedgerBuildEntry list \<Rightarrow> LedgerBuildEntry \<Rightarrow> int" where
  "key_total contrib P K r es e = r + (\<Sum>x\<leftarrow>filter (\<lambda>x. P x \<and> K x \<le> K e) es. contrib x)"

definition key_order :: "(LedgerBuildEntry \<Rightarrow> bool) \<Rightarrow> (LedgerBuildEntry \<Rightarrow> 'k::linorder) \<Rightarrow> LedgerBuildEntry list \<Rightarrow> nat list" where
  "key_order P K es = sort_key (\<lambda>i. K (es ! i)) (filter (\<lambda>i. P (es ! i)) [0..<length es])"

lemma sum_over_selected:
  "(\<Sum>i\<leftarrow>key_order P K es. contrib (es ! i)) = (\<Sum>x\<leftarrow>filter P es. (contrib x :: int))"
proof -
  have "(\<Sum>i\<leftarrow>key_order P K es. contrib (es ! i)) = (\<Sum>i\<leftarrow>filter (\<lambda>i. P (es ! i)) [0..<length es]. contrib (es ! i))"
    unfolding sum_mset_sum_list [symmetric] mset_map by (simp add: key_order_def)
  also have "\<dots> = (\<Sum>x\<leftarrow>filter P (map ((!) es) [0..<length es]). contrib x)"
    by (simp add: filter_map comp_def)
  finally show ?thesis by (simp add: map_nth)
qed

context running_balance
begin

lemma run_sorted:
  fixes K :: "LedgerBuildEntry \<Rightarrow> 'k::linorder"
  assumes "distinct (map K es)"
  shows "if \<forall>e \<in> set es. P e \<longrightarrow> allowed e (key_total contrib P K r es e)
    then res_fold step (r, es) (key_order P K es) =
      Inr (r + (\<Sum>x\<leftarrow>filter P es. contrib x),
           map (\<lambda>e. if P e then set_closing (shown e (key_total contrib P K r es e)) e else e) es)
    else \<exists>err. res_fold step (r, es) (key_order P K es) = Inl err"
proof -
  let ?is = "key_order P K es" and ?g = "\<lambda>e. if P e then set_closing (shown e (key_total contrib P K r es e)) e else e"
  have ixs: "distinct ?is" "\<forall>i \<in> set ?is. i < length es" "set ?is = {i. i < length es \<and> P (es ! i)}"
    by (auto simp: key_order_def)
  have pre: "prefix_total contrib r es ?is k = key_total contrib P K r es (es ! (?is ! k))" if "k < length ?is" for k
    using prefix_total_sorted [OF assms, of k P contrib r] that by (simp add: key_order_def key_total_def)
  have "(\<forall>k < length ?is. allowed (es ! (?is ! k)) (prefix_total contrib r es ?is k)) \<longleftrightarrow>
      (\<forall>i \<in> set ?is. allowed (es ! i) (key_total contrib P K r es (es ! i)))"
    using pre by (simp add: all_set_conv_all_nth)
  also have "\<dots> \<longleftrightarrow> (\<forall>e \<in> set es. P e \<longrightarrow> allowed e (key_total contrib P K r es e))"
    unfolding ixs(3) all_set_conv_all_nth by auto
  finally have range: "(\<forall>k < length ?is. allowed (es ! (?is ! k)) (prefix_total contrib r es ?is k)) \<longleftrightarrow>
      (\<forall>e \<in> set es. P e \<longrightarrow> allowed e (key_total contrib P K r es e))" .
  show ?thesis
  proof (cases "res_fold step (r, es) ?is")
    case (Inl err)
    with run_succeeds [OF ixs(1,2), of r] range show ?thesis by auto
  next
    case (Inr st)
    then obtain r' es1 where run: "res_fold step (r, es) ?is = Inr (r', es1)" by (cases st) auto
    note spec = run_spec [OF ixs(1,2), of r r' es1, rule_format, OF run]
    have "es1 ! i = ?g (es ! i)" if "i < length es" for i
    proof (cases "i \<in> set ?is")
      case True
      then obtain k where k: "k < length ?is" "i = ?is ! k" by (auto simp: in_set_conv_nth)
      moreover have "P (es ! i)" using True ixs(3) by simp
      ultimately show ?thesis using spec pre [OF k(1)] by simp
    next
      case False
      then show ?thesis using spec that ixs(3) by simp
    qed
    then have "es1 = map ?g es" using spec by (intro nth_equalityI) auto
    moreover have "r' = r + (\<Sum>x\<leftarrow>filter P es. contrib x)" using spec sum_over_selected by simp
    moreover have "\<forall>e \<in> set es. P e \<longrightarrow> allowed e (key_total contrib P K r es e)" using spec range by blast
    ultimately show ?thesis using run by simp
  qed
qed

end

lemma balance_key_total:
  "settled_balance r es e = key_total le_balance_delta is_settled settled_key r es e"
  "pending_balance r es e =
     key_total pending_contrib is_pending pending_key (r + (\<Sum>x\<leftarrow>filter is_settled es. le_balance_delta x)) es e"
  by (simp_all add: settled_balance_def pending_balance_def key_total_def)

lemma is_settled_or_pending: "is_pending e \<longleftrightarrow> \<not> is_settled e"
  by (cases "le_status e") (simp_all add: is_settled_def is_pending_def)

lemma filter_map_unchanged:
  assumes "\<And>e. Q (g e) \<longleftrightarrow> Q e" and "\<And>e. Q e \<Longrightarrow> g e = e"
  shows "filter Q (map g es) = filter Q es"
  using assms by (induction es) auto

lemma assign_closing_balances_cases:
  assumes "distinct (map le_tx_hash es)"
  shows "if balances_in_range (opening_value opening) es
    then assign_closing_balances es opening =
      Inr (map (\<lambda>e. set_closing (closing_of (opening_value opening) es e) e) es)
    else \<exists>err. assign_closing_balances es opening = Inl err"
proof -
  let ?o = "opening_value opening" and ?total = "\<Sum>x\<leftarrow>filter is_settled es. le_balance_delta x"
  let ?g = "\<lambda>e. if is_settled e then set_closing (Some (word_of_int (max 0 (settled_balance ?o es e)))) e else e"
  let ?es1 = "map ?g es"
  note one = settled.run_sorted [OF distinct_keys(1) [OF assms], of is_settled ?o "''confirmed resulting balance''",
      folded balance_key_total]
  have code: "assign_closing_balances es opening =
      res_bind (res_fold (settle_step ''confirmed resulting balance'') (?o, es) (key_order is_settled settled_key es))
        (\<lambda>(r, es1). res_map snd (res_fold pending_step (r, es1) (key_order is_pending pending_key es1)))"
    by (simp add: assign_closing_balances_def opening_value_def key_order_def Let_def)
  show ?thesis
  proof (cases "\<forall>e \<in> set es. is_settled e \<longrightarrow> in_i128 (settled_balance ?o es e)")
    case False
    then have "\<not> balances_in_range ?o es" by (auto simp: balances_in_range_def)
    with one False show ?thesis by (auto simp: code)
  next
    case True
    then have first: "res_fold (settle_step ''confirmed resulting balance'') (?o, es) (key_order is_settled settled_key es) =
        Inr (?o + ?total, ?es1)" using one by simp
    have g: "is_pending (?g e) \<longleftrightarrow> is_pending e" "pending_key (?g e) = pending_key e" "is_pending e \<Longrightarrow> ?g e = e" for e
      by (auto simp: is_settled_or_pending) (simp_all add: is_settled_def pending_key_def)
    have "map le_tx_hash ?es1 = map le_tx_hash es" by simp
    then have "distinct (map le_tx_hash ?es1)" using assms by (simp only:)
    note two = pending.run_sorted [OF distinct_keys(2) [OF this], of is_pending "?o + ?total"]
    have tot: "key_total pending_contrib is_pending pending_key (?o + ?total) ?es1 e = pending_balance ?o es e" for e
      unfolding key_total_def balance_key_total(2) by (subst filter_map_unchanged) (simp_all only: g refl)
    have keyg: "pending_balance ?o es (?g e) = pending_balance ?o es e" for e
      by (simp only: pending_balance_def g(2))
    have pend: "(\<forall>e \<in> set ?es1. is_pending e \<longrightarrow> le_status e = Pending \<longrightarrow> in_i128 (pending_balance ?o es e)) \<longleftrightarrow>
        (\<forall>e \<in> set es. le_status e = Pending \<longrightarrow> in_i128 (pending_balance ?o es e))"
      using keyg by (auto simp: is_pending_def is_settled_def)
    have final: "map (\<lambda>e. if is_pending e then set_closing (pending_shown e (pending_balance ?o es e)) e else e) ?es1 =
        map (\<lambda>e. set_closing (closing_of ?o es e) e) es"
      using g(1,3) by (auto simp: closing_of_def is_settled_or_pending)
    have rng: "balances_in_range ?o es \<longleftrightarrow> (\<forall>e \<in> set es. le_status e = Pending \<longrightarrow> in_i128 (pending_balance ?o es e))"
      using True by (auto simp: balances_in_range_def)
    have code2: "assign_closing_balances es opening =
        res_map snd (res_fold pending_step (?o + ?total, ?es1) (key_order is_pending pending_key ?es1))"
      by (simp only: code first res_bind.simps prod.case)
    show ?thesis
    proof (cases "balances_in_range ?o es")
      case in_range: True
      from two [unfolded tot pend final, folded rng, unfolded if_P [OF in_range]] in_range show ?thesis
        by (simp only: code2 res_map.simps if_True snd_conv)
    next
      case out: False
      from two [unfolded tot pend final, folded rng, unfolded if_not_P [OF out]] obtain err where
        "res_fold pending_step (?o + ?total, ?es1) (key_order is_pending pending_key ?es1) = Inl err" by (rule exE)
      with out show ?thesis by (simp only: code2 res_map.simps if_False) blast
    qed
  qed
qed

text \<open>
  C34. Account-model closing balances. With unique hashes, the closing balance of a confirmed or failed entry is the
  opening balance plus the changes of the settled entries that come no later in ledger order, shown as zero when
  negative; a pending entry adds to the whole settled balance the pending changes up to it; a dropped entry shows
  none. It is an error exactly when one of these sums leaves the \<open>i128\<close> range. Since the sums range over the
  entries as a whole, the result does not depend on the order in which they were collected.
\<close>

theorem assign_closing_balances_exact:
  assumes "distinct (map le_tx_hash es)"
  shows "if balances_in_range (opening_value opening) es
    then assign_closing_balances es opening =
      Inr (map (\<lambda>e. set_closing (closing_of (opening_value opening) es e) e) es)
    else \<exists>err. assign_closing_balances es opening = Inl err"
  by (rule assign_closing_balances_cases [OF assms])

lemma sample_eth_settled:
  "balances_in_range 0 [sample_entry ''b'' Confirmed (Some 9) [] (- 30), sample_entry ''a'' Confirmed (Some 8) [] 50] \<and>
   settled_balance 0 [sample_entry ''b'' Confirmed (Some 9) [] (- 30), sample_entry ''a'' Confirmed (Some 8) [] 50]
     (sample_entry ''b'' Confirmed (Some 9) [] (- 30)) = 20"
  by (simp add: balances_in_range_def settled_balance_def is_settled_def settled_key_def or_max_def sample_entry_def in_i128_def)

theorem assign_closing_balances_exact_witness:
  "\<exists>es'. assign_closing_balances
      [sample_entry ''b'' Confirmed (Some 9) [] (- 30), sample_entry ''a'' Confirmed (Some 8) [] 50] None = Inr es' \<and>
    le_closing_balance (es' ! 0) = Some 20"
proof -
  let ?es = "[sample_entry ''b'' Confirmed (Some 9) [] (- 30), sample_entry ''a'' Confirmed (Some 8) [] 50]"
  have "distinct (map le_tx_hash ?es)" by (simp add: sample_entry_def)
  from assign_closing_balances_exact [OF this, of None] sample_eth_settled
  have "assign_closing_balances ?es None = Inr (map (\<lambda>e. set_closing (closing_of 0 ?es e) e) ?es)"
    by (simp add: opening_value_def)
  moreover have "closing_of 0 ?es (sample_entry ''b'' Confirmed (Some 9) [] (- 30)) = Some 20"
    using sample_eth_settled by (simp add: closing_of_def is_settled_def sample_entry_def)
  ultimately show ?thesis by simp
qed

text \<open>
  The account-model ledger does not depend on the iteration order of the hash map the entries were collected
  in: two permutations of the same entries both fail or give the same entries with the same closing balances.
\<close>

theorem assign_closing_balances_order_independent:
  assumes "distinct (map le_tx_hash es)" and "mset es = mset fs"
  shows "case (assign_closing_balances es opening, assign_closing_balances fs opening) of
      (Inr es', Inr fs') \<Rightarrow> mset es' = mset fs'
    | (Inl _, Inl _) \<Rightarrow> True
    | _ \<Rightarrow> False"
proof -
  let ?o = "opening_value opening"
  have "mset (map le_tx_hash es) = mset (map le_tx_hash fs)" using assms(2) by simp
  then have dist: "distinct (map le_tx_hash fs)" using assms(1) mset_eq_imp_distinct_iff by blast
  have sums: "(\<Sum>x\<leftarrow>filter P es. c x) = (\<Sum>x\<leftarrow>filter P fs. (c x :: int))" for P c
    unfolding sum_mset_sum_list [symmetric] mset_map mset_filter assms(2) ..
  have closing: "closing_of ?o es = closing_of ?o fs"
    by (rule ext) (simp add: closing_of_def settled_balance_def pending_balance_def sums)
  have range: "balances_in_range ?o es \<longleftrightarrow> balances_in_range ?o fs"
    using mset_eq_setD [OF assms(2)] by (simp add: balances_in_range_def settled_balance_def pending_balance_def sums)
  have "mset (map (\<lambda>e. set_closing (closing_of ?o fs e) e) es) = mset (map (\<lambda>e. set_closing (closing_of ?o fs e) e) fs)"
    using assms(2) by simp
  then show ?thesis
    using assign_closing_balances_cases [OF assms(1), of "opening"] assign_closing_balances_cases [OF dist, of "opening"] range closing
    by (auto split: if_splits)
qed

theorem assign_closing_balances_order_independent_witness:
  "case (assign_closing_balances [sample_entry ''b'' Confirmed (Some 9) [] (- 30), sample_entry ''a'' Confirmed (Some 8) [] 50] None,
         assign_closing_balances [sample_entry ''a'' Confirmed (Some 8) [] 50, sample_entry ''b'' Confirmed (Some 9) [] (- 30)] None) of
      (Inr es', Inr fs') \<Rightarrow> mset es' = mset fs'
    | (Inl _, Inl _) \<Rightarrow> True
    | _ \<Rightarrow> False"
  by (rule assign_closing_balances_order_independent) (simp_all add: sample_entry_def add_mset_commute)

end
