(* ===== verification/Ledger_Publish.thy ===== *)
theory Ledger_Publish
  imports Ledger_Balances
begin

section \<open>Rebuilding and publishing the ledger\<close>

text \<open>
  The operations of \<open>src/src/db/account_transactions/ledger_rebuild.rs\<close> that read and write the user database:
  the coverage of a Bitcoin account's history, the build of the ledger, its replacement in one SQL transaction, and the
  publication of a completed Bitcoin history, with the writes of \<open>src/src/db/transaction_sync\<close> they call
  (\<open>publish_mempool_history_proof_conn\<close>, \<open>publish_strict_mempool_history_proof_conn\<close>,
  \<open>complete_hd_account_discovery_conn\<close>, \<open>load_api_confirmed_balances_for_account_conn\<close>).

  An operation on a connection takes and returns the \<open>UserDb\<close>. A SQL transaction that is dropped before its commit
  leaves the database as it was, so an operation inside a transaction returns either an error or the new
  database. Failures of SQLite itself (a full disk, a locked file) are not modelled; the uniqueness constraint of the
  ledger table is. What is not in the repository (parsing and printing of times and ULIDs, the iteration order of a
  hash map) is the environment record.
\<close>

record Env =
  env_iter :: "AggregatedAccountTx list \<Rightarrow> AggregatedAccountTx list"
  env_parse_datetime :: parse_datetime
  env_parse_ulid :: "string \<Rightarrow> string + ulid"
  env_to_rfc3339 :: "time \<Rightarrow> string"

datatype BitcoinAccountHistoryCoverage = Unscanned | Syncing | Limited | Complete int

record BitcoinCoverageCandidate =
  coverage :: BitcoinAccountHistoryCoverage
  repair_pending :: bool

record MempoolHistoryProof =
  proof_confirmed_tx_count :: TransactionCount
  proof_complete_height :: int

record BitcoinAddressProofPublication =
  pub_address_id :: ulid
  pub_proof :: MempoolHistoryProof
  pub_scan_start_run_id :: "ulid option"

record BitcoinHdDiscoveryPublication =
  external_last_index :: "u32 option"
  internal_last_index :: "u32 option"
  completed_tip :: int
  completed_at :: time

record BitcoinAccountCompletionPublication =
  pub_account_id :: ulid
  final_address_proof :: "BitcoinAddressProofPublication option"
  completed_hd_discovery :: "BitcoinHdDiscoveryPublication option"
  observed_at :: time

subsection \<open>Reading provider balances\<close>

definition parse_optional_api_confirmed_balance :: "int option \<Rightarrow> int option \<Rightarrow> DbError + UnsignedAmount option" where
  "parse_optional_api_confirmed_balance hi lo =
     map_err (\<lambda>err. DbError (''Invalid api_confirmed_balance in DB: '' @ amount_error_display err))
       (parse_optional_split_amount_parts hi lo)"

definition ADDRESS_SYNC_SCOPE :: string where
  "ADDRESS_SYNC_SCOPE = ''address''"

definition account_addresses :: "UserDb \<Rightarrow> ulid \<Rightarrow> AddressRow list" where
  "account_addresses db account_id =
     sort_key da_id (filter (\<lambda>da. da_account_id da = Some account_id) (digital_asset_addresses db))"

definition address_sync_rows :: "UserDb \<Rightarrow> ulid \<Rightarrow> TransactionSyncStateRow list" where
  "address_sync_rows db address_id =
     filter (\<lambda>tss. tss_address_id tss = address_id \<and> tss_scope tss = ADDRESS_SYNC_SCOPE) (transaction_sync_state db)"

text \<open>The left join of the addresses of an account with their sync state, ordered by address id.\<close>

definition addresses_with_sync_state :: "UserDb \<Rightarrow> ulid \<Rightarrow> (ulid \<times> TransactionSyncStateRow option) list" where
  "addresses_with_sync_state db account_id =
     concat (map (\<lambda>da. case address_sync_rows db (da_id da) of
                     [] \<Rightarrow> [(da_id da, None)]
                   | rows \<Rightarrow> map (\<lambda>tss. (da_id da, Some tss)) rows) (account_addresses db account_id))"

definition load_api_confirmed_balances_for_account_conn ::
  "Env \<Rightarrow> UserDb \<Rightarrow> ulid \<Rightarrow> DbError + AddressApiConfirmedBalanceRow list" where
  "load_api_confirmed_balances_for_account_conn env db account_id =
     res_mapM (\<lambda>(id_raw, tss).
       let observed_raw = Option.bind tss tss_api_balance_observed_at;
           hi = Option.bind tss tss_api_balance_hi;
           lo = Option.bind tss tss_api_balance_lo
       in res_bind (map_err (\<lambda>err. DbError (''Invalid address id in DB: '' @ err)) (env_parse_ulid env id_raw)) (\<lambda>address_id.
          res_bind (parse_optional_datetime_field (env_parse_datetime env) ''api_confirmed_balance_observed_at'' observed_raw) (\<lambda>obs.
          res_bind (case (hi, lo) of
                      (Some h, Some l) \<Rightarrow> parse_optional_api_confirmed_balance (Some h) (Some l)
                    | _ \<Rightarrow> Inr None) (\<lambda>balance.
          Inr \<lparr>api_address_id = address_id, api_observed_at = obs, api_confirmed_balance = balance\<rparr>))))
       (addresses_with_sync_state db account_id)"

subsection \<open>Coverage of a Bitcoin history\<close>

definition load_bitcoin_history_repair_pending :: "UserDb \<Rightarrow> ulid \<Rightarrow> bool" where
  "load_bitcoin_history_repair_pending db account_id =
     list_ex (\<lambda>da. da_account_id da = Some account_id \<and>
       list_ex (\<lambda>tss. tss_scan_start_run_id tss \<noteq> None) (address_sync_rows db (da_id da)))
       (digital_asset_addresses db)"

text \<open>The height at which the discovery of an HD account completed, if no frontier and no resume point remains.\<close>

definition hd_discovery_height :: "UserDb \<Rightarrow> ulid \<Rightarrow> int option" where
  "hd_discovery_height db account_id =
     (case filter (\<lambda>ass. ass_account_id ass = account_id \<and> ass_last_scanned_height ass \<noteq> None \<and>
                  ass_last_scanned_time ass \<noteq> None \<and> ass_next_address_id ass = None \<and>
                  \<not> list_ex (\<lambda>h. hcs_account_id h = ass_account_id ass \<and> hcs_derivation_change h \<in> {0, 1})
                      (hd_account_chain_sync_state db)) (account_sync_state db) of
        [] \<Rightarrow> None
      | ass # _ \<Rightarrow> ass_last_scanned_height ass)"

definition canonical_tx_count :: "UserDb \<Rightarrow> Network \<Rightarrow> ulid \<Rightarrow> int" where
  "canonical_tx_count db network address_id =
     int (length (btree_of_list
       [ct_tx_hash ct. ct \<leftarrow> chain_transactions db,
          ct_asset_id ct = ''bitcoin'' \<and> ct_network ct = network_as_str network \<and> ct_status ct = ''confirmed'' \<and>
          (list_ex (\<lambda>ti. ti_tx_id ti = ct_id ct \<and> ti_address_id ti = address_id) (transaction_inputs db) \<or>
           list_ex (\<lambda>txo. txo_tx_id txo = ct_id ct \<and> txo_address_id txo = address_id) (transaction_outputs db))]))"

text \<open>The loop over the addresses: \<^term>\<open>Inl c\<close> is an early return with coverage \<open>c\<close>, \<^term>\<open>Inr h\<close> the coverage
  height so far.\<close>

definition address_coverage_step ::
  "UserDb \<Rightarrow> Network \<Rightarrow> bool \<Rightarrow> int option \<Rightarrow> ulid \<times> TransactionSyncStateRow option \<Rightarrow>
     BitcoinAccountHistoryCoverage + int option" where
  "address_coverage_step db network any_proof height row =
     (case (Option.bind (snd row) tss_complete_tx_count, Option.bind (snd row) tss_complete_height) of
        (Some proof_count, Some proof_height) \<Rightarrow>
          if proof_count \<noteq> canonical_tx_count db network (fst row) then Inl Syncing
          else Inr (Some (case height of None \<Rightarrow> proof_height | Some current \<Rightarrow> min current proof_height))
      | _ \<Rightarrow> Inl (if any_proof then Syncing else Unscanned))"

definition load_candidate_bitcoin_history_coverage ::
  "UserDb \<Rightarrow> ulid \<Rightarrow> Network \<Rightarrow> LedgerBuildEntry list \<Rightarrow> bool \<Rightarrow> DbError + BitcoinCoverageCandidate" where
  "load_candidate_bitcoin_history_coverage db account_id network entries mask_pending_repair =
     (let repair = load_bitcoin_history_repair_pending db account_id;
          candidate = (\<lambda>c. \<lparr>coverage = c, repair_pending = repair\<rparr>);
          rows = addresses_with_sync_state db account_id
      in if list_ex (\<lambda>e. le_status e = Confirmed \<and> le_block_height e = None) entries then Inr (candidate Syncing)
      else (case filter (\<lambda>daa. daa_id daa = account_id \<and> daa_asset_id daa = ''bitcoin'') (digital_asset_accounts db) of
          [] \<Rightarrow> Inl (DbError ''Failed to load Bitcoin account kind: Query returned no rows'')
        | daa # _ \<Rightarrow>
            let is_hd = daa_account_kind daa = ''hd_pubkey'';
                discovery = hd_discovery_height db account_id
            in if is_hd \<and> discovery = None then Inr (candidate Syncing)
            else if repair \<and> mask_pending_repair then Inr (candidate Syncing)
            else if rows = [] then Inr (candidate Unscanned)
            else if list_ex (\<lambda>(i, tss). Option.bind tss tss_backfill_cursor_txid \<noteq> None) rows then Inr (candidate Syncing)
            else
              let any_proof = list_ex (\<lambda>(i, tss). Option.bind tss tss_complete_tx_count \<noteq> None \<and>
                                                  Option.bind tss tss_complete_height \<noteq> None) rows
              in (case res_fold (address_coverage_step db network any_proof) (if is_hd then discovery else None) rows of
                    Inl c \<Rightarrow> Inr (candidate c)
                  | Inr None \<Rightarrow> Inl (DbError ''Complete Bitcoin coverage has no proof height'')
                  | Inr (Some height) \<Rightarrow>
                      res_map (\<lambda>h. candidate (Complete h))
                        (map_err (\<lambda>err. DbError (''Invalid Bitcoin coverage height: '' @ height_error_display err))
                          (chain_tip_height_try_new height)))))"

definition has_current_mempool_account_integration_success :: "Env \<Rightarrow> UserDb \<Rightarrow> ulid \<Rightarrow> DbError + bool" where
  "has_current_mempool_account_integration_success env db account_id =
     (case filter (\<lambda>r. ais_account_id r = account_id \<and> ais_integration_id r = integration_as_db_value Mempool)
             (account_integration_sync_state db) of
        [] \<Rightarrow> Inr False
      | r # _ \<Rightarrow>
          (case (ais_last_started_at r, ais_last_completed_at r, ais_last_result r) of
             (Some started_raw, Some completed_raw, Some result) \<Rightarrow>
               if result \<noteq> agg_as_db_value AggSuccess then Inr False
               else
                 res_bind (map_err (\<lambda>err. DbError (''Invalid Mempool account start time: '' @ err))
                             (env_parse_datetime env started_raw)) (\<lambda>started.
                 res_bind (map_err (\<lambda>err. DbError (''Invalid Mempool account completion time: '' @ err))
                             (env_parse_datetime env completed_raw)) (\<lambda>completed.
                 Inr (completed \<ge> started)))
           | _ \<Rightarrow> Inr False))"

definition load_meta :: "Env \<Rightarrow> UserDb \<Rightarrow> ulid \<Rightarrow> DbError + AccountMeta" where
  "load_meta env = load_account_meta (env_parse_ulid env)"

definition collect_entries :: "Env \<Rightarrow> UserDb \<Rightarrow> ulid \<Rightarrow> AccountMeta \<Rightarrow> DbError + LedgerBuildEntry list" where
  "collect_entries env db account_id meta =
     collect_entries_for_account (env_iter env) (env_parse_datetime env) db account_id (meta_asset_id meta) (meta_network meta)"

definition load_bitcoin_account_history_coverage ::
  "Env \<Rightarrow> UserDb \<Rightarrow> ulid \<Rightarrow> DbError + BitcoinAccountHistoryCoverage option" where
  "load_bitcoin_account_history_coverage env db account_id =
     (case filter (\<lambda>daa. daa_id daa = account_id) (digital_asset_accounts db) of
        [] \<Rightarrow> Inr None
      | daa # _ \<Rightarrow>
          if daa_asset_id daa \<noteq> asset_as_str Bitcoin then Inr None
          else
            res_bind (load_meta env db account_id) (\<lambda>meta.
            res_bind (collect_entries env db account_id meta) (\<lambda>entries.
            res_bind (load_candidate_bitcoin_history_coverage db account_id (meta_network meta) entries True) (\<lambda>candidate.
            case coverage candidate of
              Complete h \<Rightarrow>
                res_bind (has_current_mempool_account_integration_success env db account_id) (\<lambda>ok.
                Inr (Some (if \<not> ok then Syncing else Complete h)))
            | c \<Rightarrow> Inr (Some c)))))"

definition bitcoin_account_has_complete_history_proof_for_repair :: "Env \<Rightarrow> UserDb \<Rightarrow> ulid \<Rightarrow> DbError + bool" where
  "bitcoin_account_has_complete_history_proof_for_repair env db account_id =
     res_bind (load_meta env db account_id) (\<lambda>meta.
     res_bind (collect_entries env db account_id meta) (\<lambda>entries.
     res_bind (load_candidate_bitcoin_history_coverage db account_id (meta_network meta) entries False) (\<lambda>candidate.
     case coverage candidate of
       Complete h \<Rightarrow> has_current_mempool_account_integration_success env db account_id
     | _ \<Rightarrow> Inr False)))"

subsection \<open>Building the ledger\<close>

definition bitcoin_basis :: "Env \<Rightarrow> UserDb \<Rightarrow> ulid \<Rightarrow> AccountMeta \<Rightarrow> LedgerBuildEntry list \<Rightarrow> DbError + NativeBalanceState" where
  "bitcoin_basis env db account_id meta entries =
     res_bind (load_candidate_bitcoin_history_coverage db account_id (meta_network meta) entries True) (\<lambda>candidate.
       case coverage candidate of
         Complete h \<Rightarrow> Inr CanonicalZero
       | _ \<Rightarrow>
           if repair_pending candidate then Inr Unknown
           else res_bind (load_api_confirmed_balances_for_account_conn env db account_id) (\<lambda>balances.
                compute_incomplete_bitcoin_basis_from_inputs balances entries))"

definition build_account_transaction_ledger ::
  "Env \<Rightarrow> UserDb \<Rightarrow> ulid \<Rightarrow> NativeBalanceState option \<Rightarrow> DbError + AccountMeta \<times> LedgerBuildEntry list" where
  "build_account_transaction_ledger env db account_id bitcoin_basis_override =
     res_bind (load_meta env db account_id) (\<lambda>meta.
     res_bind (collect_entries env db account_id meta) (\<lambda>entries.
     case account_model_for (meta_asset_id meta) of
       Account \<Rightarrow> res_map (Pair meta) (assign_closing_balances entries None)
     | Utxo \<Rightarrow>
         res_bind (case bitcoin_basis_override of
                     Some basis \<Rightarrow> Inr basis
                   | None \<Rightarrow> bitcoin_basis env db account_id meta entries) (\<lambda>basis.
         case assign_bitcoin_closing_balances entries basis of
           (Inl err, _) \<Rightarrow> Inl err
         | (Inr _, entries') \<Rightarrow> Inr (meta, entries'))))"

subsection \<open>Writing the ledger\<close>

definition clear_closing_row :: "string \<Rightarrow> LedgerRow \<Rightarrow> LedgerRow" where
  "clear_closing_row now_raw r =
     r\<lparr>ld_closing_balance_hi := None, ld_closing_balance_lo := None, ld_updated_at := now_raw\<rparr>"

lemma clear_closing_row_simps [simp]:
  "ld_account_id (clear_closing_row now_raw r) = ld_account_id r"
  "ld_closing_balance_hi (clear_closing_row now_raw r) = None" "ld_closing_balance_lo (clear_closing_row now_raw r) = None"
  by (simp_all add: clear_closing_row_def)

definition clear_account_closing_balances :: "Env \<Rightarrow> UserDb \<Rightarrow> ulid \<Rightarrow> time \<Rightarrow> UserDb" where
  "clear_account_closing_balances env db account_id observed =
     db\<lparr>account_transaction_ledger := map (\<lambda>r.
       if ld_account_id r = account_id
       then clear_closing_row (env_to_rfc3339 env observed) r else r) (account_transaction_ledger db)\<rparr>"

definition split_optional_amount :: "UnsignedAmount option \<Rightarrow> string \<Rightarrow> DbError + int option \<times> int option" where
  "split_optional_amount a field =
     (case a of
        None \<Rightarrow> Inr (None, None)
      | Some v \<Rightarrow> res_map (\<lambda>p. (Some (split_hi p), Some (split_lo p))) (split_unsigned_amount v field))"

definition ledger_row_of :: "Env \<Rightarrow> ulid \<Rightarrow> AccountMeta \<Rightarrow> time \<Rightarrow> LedgerBuildEntry \<Rightarrow> DbError + LedgerRow" where
  "ledger_row_of env account_id meta observed row =
     (let now_raw = env_to_rfc3339 env observed in
      res_bind (split_unsigned_amount (le_value row) ''value_amount'') (\<lambda>value_parts.
      res_bind (split_optional_amount (le_fee row) ''fee_amount'') (\<lambda>(fee_hi, fee_lo).
      res_bind (split_optional_amount (le_closing_balance row) ''closing_balance'') (\<lambda>(closing_hi, closing_lo).
      res_bind (split_signed_balance_delta (le_balance_delta row)) (\<lambda>(delta_parts, delta_negative).
      Inr \<lparr>ld_account_id = account_id, ld_chain_transaction_id = le_chain_transaction_id row,
           ld_asset_id = asset_as_str (meta_asset_id meta), ld_network = network_as_str (meta_network meta),
           ld_tx_hash = le_tx_hash row, ld_status = status_as_db_value (le_status row),
           ld_occurred_at = env_to_rfc3339 env (le_occurred_at row),
           ld_first_seen_at = env_to_rfc3339 env (le_first_seen_at row),
           ld_block_height = le_block_height row, ld_nonce = le_nonce row,
           ld_min_transfer_index = le_min_transfer_index row,
           ld_tx_type = direction_to_db_value (le_direction row),
           ld_from_addresses = le_from_addresses row, ld_to_addresses = le_to_addresses row,
           ld_value_hi = split_hi value_parts, ld_value_lo = split_lo value_parts,
           ld_fee_hi = fee_hi, ld_fee_lo = fee_lo,
           ld_closing_balance_hi = closing_hi, ld_closing_balance_lo = closing_lo,
           ld_balance_delta_hi = split_hi delta_parts, ld_balance_delta_lo = split_lo delta_parts,
           ld_balance_delta_negative = (if delta_negative then 1 else 0),
           ld_created_at = now_raw, ld_updated_at = now_raw\<rparr>)))))"

definition ledger_key :: "LedgerRow \<Rightarrow> ulid \<times> string \<times> string \<times> string" where
  "ledger_key r = (ld_account_id r, ld_asset_id r, ld_network r, ld_tx_hash r)"

text \<open>An \<open>INSERT\<close> under the constraint \<open>UNIQUE(account_id, asset_id, network, tx_hash)\<close>.\<close>

definition insert_ledger_row :: "UserDb \<Rightarrow> LedgerRow \<Rightarrow> DbError + UserDb" where
  "insert_ledger_row db r =
     (if ledger_key r \<in> ledger_key ` set (account_transaction_ledger db)
      then Inl (DbError ''Failed to insert account transaction ledger row: UNIQUE constraint failed'')
      else Inr (db\<lparr>account_transaction_ledger := account_transaction_ledger db @ [r]\<rparr>))"

definition replace_account_transaction_ledger_entries_conn ::
  "Env \<Rightarrow> UserDb \<Rightarrow> ulid \<Rightarrow> AccountMeta \<Rightarrow> time \<Rightarrow> LedgerBuildEntry list \<Rightarrow> DbError + UserDb" where
  "replace_account_transaction_ledger_entries_conn env db account_id meta observed entries =
     (let deleted = db\<lparr>account_transaction_ledger :=
            filter (\<lambda>r. ld_account_id r \<noteq> account_id) (account_transaction_ledger db)\<rparr>
      in res_fold (\<lambda>d e. res_bind (ledger_row_of env account_id meta observed e) (insert_ledger_row d)) deleted entries)"

text \<open>The transaction around it: on an error the transaction is dropped and the database is the one before.\<close>

definition replace_account_transaction_ledger_entries ::
  "Env \<Rightarrow> UserDb \<Rightarrow> ulid \<Rightarrow> AccountMeta \<Rightarrow> time \<Rightarrow> LedgerBuildEntry list \<Rightarrow> (DbError + unit) \<times> UserDb" where
  "replace_account_transaction_ledger_entries env db account_id meta observed entries =
     (case replace_account_transaction_ledger_entries_conn env db account_id meta observed entries of
        Inl err \<Rightarrow> (Inl err, db)
      | Inr db' \<Rightarrow> (Inr (), db'))"

definition rebuild_account_transaction_ledger_conn_with_basis ::
  "Env \<Rightarrow> UserDb \<Rightarrow> ulid \<Rightarrow> time \<Rightarrow> NativeBalanceState option \<Rightarrow> (DbError + unit) \<times> UserDb" where
  "rebuild_account_transaction_ledger_conn_with_basis env db account_id observed override =
     (case build_account_transaction_ledger env db account_id override of
        Inr (meta, entries) \<Rightarrow>
          (case replace_account_transaction_ledger_entries env db account_id meta observed entries of
             (Inl err, db1) \<Rightarrow>
               if meta_asset_id meta = Bitcoin \<and> account_model_for (meta_asset_id meta) = Utxo
               then (Inl err, clear_account_closing_balances env db1 account_id observed)
               else (Inl err, db1)
           | (Inr _, db1) \<Rightarrow> (Inr (), db1))
      | Inl err \<Rightarrow>
          (case load_meta env db account_id of
             Inr meta \<Rightarrow>
               if account_model_for (meta_asset_id meta) = Utxo
               then (Inl err, clear_account_closing_balances env db account_id observed)
               else (Inl err, db)
           | Inl _ \<Rightarrow> (Inl err, db)))"

definition rebuild_account_transaction_ledger_conn :: "Env \<Rightarrow> UserDb \<Rightarrow> ulid \<Rightarrow> time \<Rightarrow> (DbError + unit) \<times> UserDb" where
  "rebuild_account_transaction_ledger_conn env db account_id observed =
     rebuild_account_transaction_ledger_conn_with_basis env db account_id observed None"

definition rebuild_account_transaction_ledger_with_unknown_bitcoin_basis ::
  "Env \<Rightarrow> UserDb \<Rightarrow> ulid \<Rightarrow> time \<Rightarrow> (DbError + unit) \<times> UserDb" where
  "rebuild_account_transaction_ledger_with_unknown_bitcoin_basis env db account_id observed =
     rebuild_account_transaction_ledger_conn_with_basis env db account_id observed (Some Unknown)"

definition rebuild_account_transaction_ledger_tx :: "Env \<Rightarrow> UserDb \<Rightarrow> ulid \<Rightarrow> time \<Rightarrow> DbError + UserDb" where
  "rebuild_account_transaction_ledger_tx env db account_id observed =
     res_bind (build_account_transaction_ledger env db account_id None) (\<lambda>(meta, entries).
       replace_account_transaction_ledger_entries_conn env db account_id meta observed entries)"

subsection \<open>Publishing a completed Bitcoin history\<close>

text \<open>An \<open>UPDATE\<close> of the address-scoped sync state: the new rows and the number of rows changed.\<close>

definition update_sync_state ::
  "UserDb \<Rightarrow> (TransactionSyncStateRow \<Rightarrow> bool) \<Rightarrow> (TransactionSyncStateRow \<Rightarrow> TransactionSyncStateRow) \<Rightarrow> UserDb \<times> nat" where
  "update_sync_state db P f =
     (db\<lparr>transaction_sync_state := map (\<lambda>r. if P r then f r else r) (transaction_sync_state db)\<rparr>,
      length (filter P (transaction_sync_state db)))"

definition publish_mempool_history_proof_conn ::
  "UserDb \<Rightarrow> ulid \<Rightarrow> MempoolHistoryProof \<Rightarrow> string \<Rightarrow> DbError + UserDb" where
  "publish_mempool_history_proof_conn db address_id prf updated_at =
     (case update_sync_state db
             (\<lambda>r. tss_scope r = ADDRESS_SYNC_SCOPE \<and> tss_address_id r = address_id)
             (\<lambda>r. r\<lparr>tss_complete_tx_count := Some (uint (proof_confirmed_tx_count prf)),
                    tss_complete_height := Some (proof_complete_height prf), tss_updated_at := updated_at\<rparr>) of
        (db', changed) \<Rightarrow>
          if changed = 0 then Inl (DbError ''Failed to publish mempool history proof: sync state row missing'')
          else Inr db')"

definition publish_strict_mempool_history_proof_conn ::
  "UserDb \<Rightarrow> ulid \<Rightarrow> ulid \<Rightarrow> MempoolHistoryProof \<Rightarrow> string \<Rightarrow> DbError + UserDb" where
  "publish_strict_mempool_history_proof_conn db address_id scan_start_run_id prf updated_at =
     (case update_sync_state db
             (\<lambda>r. tss_scope r = ADDRESS_SYNC_SCOPE \<and> tss_address_id r = address_id \<and>
                  tss_scan_start_run_id r = Some scan_start_run_id)
             (\<lambda>r. r\<lparr>tss_complete_tx_count := Some (uint (proof_confirmed_tx_count prf)),
                    tss_complete_height := Some (proof_complete_height prf),
                    tss_scan_start_run_id := None, tss_updated_at := updated_at\<rparr>) of
        (db', changed) \<Rightarrow>
          if changed = 0 then Inl (DbError ''Failed to publish strict mempool history proof: scan start did not match'')
          else Inr db')"

definition complete_hd_account_discovery_conn ::
  "Env \<Rightarrow> UserDb \<Rightarrow> ulid \<Rightarrow> u32 option \<Rightarrow> u32 option \<Rightarrow> int \<Rightarrow> time \<Rightarrow> DbError + UserDb" where
  "complete_hd_account_discovery_conn env db account_id external internal tip completed =
     (if list_ex (\<lambda>h. hcs_account_id h = account_id \<and> hcs_derivation_change h \<in> {0, 1}) (hd_account_chain_sync_state db)
      then Inl (DbError ''Cannot complete HD discovery while a branch frontier remains'')
      else
        let rows = account_sync_state db;
            updated = length (filter (\<lambda>r. ass_account_id r = account_id) rows);
            db' = db\<lparr>account_sync_state := map (\<lambda>r. if ass_account_id r = account_id
                 then r\<lparr>ass_last_scanned_height := Some tip,
                        ass_last_scanned_time := Some (env_to_rfc3339 env completed),
                        ass_last_derived_external_index := map_option uint external,
                        ass_last_derived_internal_index := map_option uint internal,
                        ass_updated_at := env_to_rfc3339 env completed\<rparr>
                 else r) rows\<rparr>
        in if updated \<noteq> 1 then Inl (DbError ''Cannot complete HD discovery without an account sync state'')
           else Inr db')"

definition publish_address_proof :: "Env \<Rightarrow> UserDb \<Rightarrow> BitcoinAccountCompletionPublication \<Rightarrow> DbError + UserDb" where
  "publish_address_proof env db pub =
     (case final_address_proof pub of
        None \<Rightarrow> Inr db
      | Some ap \<Rightarrow>
          if \<not> owns_address db (pub_account_id pub) (pub_address_id ap)
          then Inl (DbError ''Bitcoin proof address does not belong to completion account'')
          else
            let updated_at = env_to_rfc3339 env (observed_at pub) in
            (case pub_scan_start_run_id ap of
               Some run_id \<Rightarrow> publish_strict_mempool_history_proof_conn db (pub_address_id ap) run_id (pub_proof ap) updated_at
             | None \<Rightarrow> publish_mempool_history_proof_conn db (pub_address_id ap) (pub_proof ap) updated_at))"

definition publish_hd_discovery :: "Env \<Rightarrow> UserDb \<Rightarrow> BitcoinAccountCompletionPublication \<Rightarrow> DbError + UserDb" where
  "publish_hd_discovery env db pub =
     (case completed_hd_discovery pub of
        None \<Rightarrow> Inr db
      | Some d \<Rightarrow> complete_hd_account_discovery_conn env db (pub_account_id pub) (external_last_index d)
                    (internal_last_index d) (completed_tip d) (completed_at d))"

definition publish_bitcoin_account_completion_tx ::
  "Env \<Rightarrow> UserDb \<Rightarrow> BitcoinAccountCompletionPublication \<Rightarrow> DbError + bool \<times> UserDb" where
  "publish_bitcoin_account_completion_tx env db pub =
     (if final_address_proof pub = None \<and> completed_hd_discovery pub = None
      then Inl (DbError ''Bitcoin completion publication requires proof or discovery'')
      else
        res_bind (load_meta env db (pub_account_id pub)) (\<lambda>meta.
        if meta_asset_id meta \<noteq> Bitcoin
        then Inl (DbError ''Bitcoin completion publication requires a Bitcoin account'')
        else
          res_bind (collect_entries env db (pub_account_id pub) meta) (\<lambda>entries.
          res_bind (publish_address_proof env db pub) (\<lambda>db1.
          res_bind (publish_hd_discovery env db1 pub) (\<lambda>db2.
          res_bind (load_candidate_bitcoin_history_coverage db2 (pub_account_id pub) (meta_network meta) entries True) (\<lambda>candidate.
          case coverage candidate of
            Complete h \<Rightarrow>
              (case assign_bitcoin_closing_balances entries CanonicalZero of
                 (Inl err, _) \<Rightarrow> Inl err
               | (Inr _, entries') \<Rightarrow>
                   res_map (Pair True)
                     (replace_account_transaction_ledger_entries_conn env db2 (pub_account_id pub) meta (observed_at pub) entries'))
          | _ \<Rightarrow> Inr (False, db2)))))))"

definition publish_bitcoin_account_completion ::
  "Env \<Rightarrow> UserDb \<Rightarrow> BitcoinAccountCompletionPublication \<Rightarrow> (DbError + bool) \<times> UserDb" where
  "publish_bitcoin_account_completion env db pub =
     (let clear_on_failure = (case load_meta env db (pub_account_id pub) of
            Inl _ \<Rightarrow> False
          | Inr meta \<Rightarrow> meta_asset_id meta = Bitcoin \<and> account_model_for (meta_asset_id meta) = Utxo)
      in case publish_bitcoin_account_completion_tx env db pub of
           Inr (complete, db') \<Rightarrow> (Inr complete, db')
         | Inl err \<Rightarrow>
             (Inl err,
              if clear_on_failure then clear_account_closing_balances env db (pub_account_id pub) (observed_at pub) else db))"

subsection \<open>Complete coverage is backed by proofs\<close>

text \<open>What a proof-carrying address is: no backfill in progress, and a proof that counts its confirmed transactions.\<close>

definition address_proved :: "UserDb \<Rightarrow> Network \<Rightarrow> int \<Rightarrow> ulid \<times> TransactionSyncStateRow option \<Rightarrow> bool" where
  "address_proved db network h row \<longleftrightarrow>
     (\<exists>tss ph. snd row = Some tss \<and> tss_complete_tx_count tss = Some (canonical_tx_count db network (fst row)) \<and>
        tss_complete_height tss = Some ph \<and> h \<le> ph)"

lemma address_proved_mono: "address_proved db network h row \<Longrightarrow> k \<le> h \<Longrightarrow> address_proved db network k row"
  by (force simp: address_proved_def)

lemma address_coverage_step_Inr:
  assumes "address_coverage_step db network any_proof h0 row = Inr h1"
  shows "\<exists>h. h1 = Some h \<and> address_proved db network h row \<and> (\<forall>d. h0 = Some d \<longrightarrow> h \<le> d)"
proof -
  let ?h = "\<lambda>ph. case h0 of None \<Rightarrow> ph | Some d \<Rightarrow> min d ph"
  obtain tss where tss: "snd row = Some tss"
    using assms by (cases "snd row") (auto simp: address_coverage_step_def)
  obtain ph where ph: "tss_complete_height tss = Some ph"
    using assms tss
    by (cases "tss_complete_height tss") (auto simp: address_coverage_step_def split: option.splits)
  have row: "snd row = Some tss" "tss_complete_height tss = Some ph"
    "tss_complete_tx_count tss = Some (canonical_tx_count db network (fst row))" and h1: "h1 = Some (?h ph)"
    using assms tss ph
    by (cases "tss_complete_tx_count tss"; auto simp: address_coverage_step_def split: if_splits)+
  have "?h ph \<le> ph" by (simp split: option.splits)
  with row have "address_proved db network (?h ph) row" by (auto simp: address_proved_def)
  moreover have "\<forall>d. h0 = Some d \<longrightarrow> ?h ph \<le> d" by auto
  ultimately show ?thesis using h1 by blast
qed

lemma address_coverage_fold_Inl:
  "res_fold (address_coverage_step db network any_proof) h0 rows = Inl c \<Longrightarrow> c = Syncing \<or> c = Unscanned"
proof (induction rows arbitrary: h0)
  case (Cons row rows)
  show ?case
  proof (cases "address_coverage_step db network any_proof h0 row")
    case (Inl a)
    with Cons.prems have "address_coverage_step db network any_proof h0 row = Inl c" by simp
    then show ?thesis by (auto simp: address_coverage_step_def split: option.splits if_splits)
  next
    case (Inr h1)
    with Cons.prems show ?thesis by (intro Cons.IH [of h1]) simp
  qed
qed simp

lemma address_coverage_fold:
  assumes "res_fold (address_coverage_step db network any_proof) h0 rows = Inr (Some h)"
  shows "(\<forall>row \<in> set rows. address_proved db network h row) \<and> (\<forall>d. h0 = Some d \<longrightarrow> h \<le> d)"
  using assms
proof (induction rows arbitrary: h0)
  case (Cons row rows)
  then obtain h1 where step: "address_coverage_step db network any_proof h0 row = Inr h1"
    and rest: "res_fold (address_coverage_step db network any_proof) h1 rows = Inr (Some h)" by auto
  from address_coverage_step_Inr [OF step] obtain k where
    k: "h1 = Some k" "address_proved db network k row" "\<forall>d. h0 = Some d \<longrightarrow> k \<le> d" by blast
  from Cons.IH [OF rest] k address_proved_mono [OF k(2)] show ?case by fastforce
qed simp

lemma candidate_complete:
  assumes "load_candidate_bitcoin_history_coverage db account_id network entries masked = Inr c" and "coverage c = Complete h"
  shows "0 \<le> h \<and> (\<forall>e \<in> set entries. le_status e = Confirmed \<longrightarrow> le_block_height e \<noteq> None) \<and>
    (masked \<longrightarrow> \<not> load_bitcoin_history_repair_pending db account_id) \<and>
    addresses_with_sync_state db account_id \<noteq> [] \<and>
    (\<forall>row \<in> set (addresses_with_sync_state db account_id).
       address_proved db network h row \<and> Option.bind (snd row) tss_backfill_cursor_txid = None) \<and>
    (\<exists>daa \<in> set (digital_asset_accounts db). daa_id daa = account_id \<and> daa_asset_id daa = ''bitcoin'' \<and>
       (daa_account_kind daa = ''hd_pubkey'' \<longrightarrow> (\<exists>d. hd_discovery_height db account_id = Some d \<and> h \<le> d)))"
proof -
  let ?rows = "addresses_with_sync_state db account_id"
  let ?accs = "filter (\<lambda>daa. daa_id daa = account_id \<and> daa_asset_id daa = ''bitcoin'') (digital_asset_accounts db)"
  have heights: "\<not> list_ex (\<lambda>e. le_status e = Confirmed \<and> le_block_height e = None) entries"
    using assms by (auto simp: load_candidate_bitcoin_history_coverage_def Let_def)
  obtain daa rest where accs: "?accs = daa # rest"
    using assms heights by (cases ?accs) (auto simp: load_candidate_bitcoin_history_coverage_def Let_def)
  let ?hd = "daa_account_kind daa = ''hd_pubkey''" and ?disc = "hd_discovery_height db account_id"
  note load = assms(1) [unfolded load_candidate_bitcoin_history_coverage_def Let_def accs list.case if_not_P [OF heights]]
  have hd: "\<not> (?hd \<and> ?disc = None)" and repair: "\<not> (load_bitcoin_history_repair_pending db account_id \<and> masked)"
    and rows: "?rows \<noteq> []" and cur: "\<not> list_ex (\<lambda>(i, tss). Option.bind tss tss_backfill_cursor_txid \<noteq> None) ?rows"
    using load assms(2) by (auto split: if_splits)
  from load assms(2) obtain any_proof where
    "res_fold (address_coverage_step db network any_proof) (if ?hd then ?disc else None) ?rows = Inr (Some h) \<and> 0 \<le> h"
    using hd repair rows cur
    by (auto simp: chain_tip_height_try_new_def dest: address_coverage_fold_Inl split: sum.splits option.splits if_splits)
  then have fold: "res_fold (address_coverage_step db network any_proof) (if ?hd then ?disc else None) ?rows = Inr (Some h)"
    and h: "0 \<le> h" by auto
  note proved = address_coverage_fold [OF fold]
  have daa: "daa \<in> set (digital_asset_accounts db)" "daa_id daa = account_id" "daa_asset_id daa = ''bitcoin''"
    using arg_cong [OF accs, of set] by auto
  have disc: "?hd \<longrightarrow> (\<exists>d. ?disc = Some d \<and> h \<le> d)" using proved hd by auto
  have "\<forall>row \<in> set ?rows. Option.bind (snd row) tss_backfill_cursor_txid = None"
    using cur by (auto simp: list_ex_iff)
  with proved h heights repair rows disc daa show ?thesis by (auto simp: list_ex_iff)
qed

text \<open>
  C38. A complete Bitcoin history is backed by proofs. Coverage is reported as complete only when no confirmed entry lacks
  a height, the account has addresses, every one of them has no backfill in progress and a proof whose count equals the
  number of confirmed transactions stored for it, the coverage height is no larger than any proof height (nor, for an HD
  account, the height of its finished discovery), and, where pending repairs mask coverage, no repair is pending.
\<close>

theorem complete_coverage_is_proved:
  assumes "load_candidate_bitcoin_history_coverage db account_id network entries masked = Inr c" and "coverage c = Complete h"
  shows "0 \<le> h \<and> (\<forall>e \<in> set entries. le_status e = Confirmed \<longrightarrow> le_block_height e \<noteq> None) \<and>
    (masked \<longrightarrow> \<not> load_bitcoin_history_repair_pending db account_id) \<and>
    addresses_with_sync_state db account_id \<noteq> [] \<and>
    (\<forall>row \<in> set (addresses_with_sync_state db account_id).
       address_proved db network h row \<and> Option.bind (snd row) tss_backfill_cursor_txid = None) \<and>
    (\<exists>daa \<in> set (digital_asset_accounts db). daa_id daa = account_id \<and> daa_asset_id daa = ''bitcoin'' \<and>
       (daa_account_kind daa = ''hd_pubkey'' \<longrightarrow> (\<exists>d. hd_discovery_height db account_id = Some d \<and> h \<le> d)))"
  by (rule candidate_complete [OF assms])

text \<open>The Bitcoin sample with a wallet, an account and the proof of its one transaction.\<close>

definition sample_sync_row :: TransactionSyncStateRow where
  "sample_sync_row = \<lparr>tss_scope = ''address'', tss_address_id = ''d1'', tss_api_balance_observed_at = None,
     tss_api_balance_hi = None, tss_api_balance_lo = None, tss_backfill_cursor_txid = None,
     tss_complete_tx_count = Some 1, tss_complete_height = Some 9, tss_scan_start_run_id = None,
     tss_last_run_id = ''r'', tss_last_started_at = ''s'', tss_last_completed_at = None, tss_last_result = ''success'',
     tss_last_error = None, tss_last_tip_height = None, tss_new_tx_count = 0, tss_updated_tx_count = 0,
     tss_expected_tx_count = None, tss_reported_tx_count = None, tss_consecutive_failure_count = 0, tss_created_at = ''s'',
     tss_updated_at = ''u'', tss_etherscan_start_block = None, tss_etherscan_end_block = None,
     tss_etherscan_history_status = None, tss_etherscan_checkpoint_version = None, tss_etherscan_tip_height = None\<rparr>"

definition sample_proved_db :: UserDb where
  "sample_proved_db = sample_btc_db\<lparr>wallets := [\<lparr>w_id = ''w'', w_label = ''W''\<rparr>],
     digital_asset_accounts := [\<lparr>daa_id = ''acc'', daa_wallet_id = ''w'', daa_asset_id = ''bitcoin'', daa_network = ''mainnet'',
       daa_label = None, daa_account_kind = ''single_address''\<rparr>],
     transaction_sync_state := [sample_sync_row]\<rparr>"

lemma sample_proved_rows: "addresses_with_sync_state sample_proved_db ''acc'' = [(''d1'', Some sample_sync_row)]"
  by (simp add: addresses_with_sync_state_def account_addresses_def address_sync_rows_def sample_proved_db_def sample_btc_db_def
      sample_sync_row_def ADDRESS_SYNC_SCOPE_def)

lemma sample_proved_count: "canonical_tx_count sample_proved_db Mainnet ''d1'' = 1"
  by (simp add: canonical_tx_count_def sample_proved_db_def sample_btc_db_def btree_of_list_def)

lemma sample_no_repair: "\<not> load_bitcoin_history_repair_pending sample_proved_db ''acc''"
  by (simp add: load_bitcoin_history_repair_pending_def address_sync_rows_def sample_proved_db_def sample_btc_db_def
      sample_sync_row_def)

lemma sample_proved_coverage:
  "\<forall>e \<in> set es. le_status e = Confirmed \<longrightarrow> le_block_height e \<noteq> None \<Longrightarrow>
   load_candidate_bitcoin_history_coverage sample_proved_db ''acc'' Mainnet es True =
     Inr \<lparr>coverage = Complete 9, repair_pending = False\<rparr>"
proof -
  assume "\<forall>e \<in> set es. le_status e = Confirmed \<longrightarrow> le_block_height e \<noteq> None"
  then have h: "\<not> list_ex (\<lambda>e. le_status e = Confirmed \<and> le_block_height e = None) es" by (auto simp: list_ex_iff)
  have accs: "filter (\<lambda>daa. daa_id daa = ''acc'' \<and> daa_asset_id daa = ''bitcoin'') (digital_asset_accounts sample_proved_db) =
      digital_asset_accounts sample_proved_db"
    and kind: "digital_asset_accounts sample_proved_db = [hd (digital_asset_accounts sample_proved_db)]"
      "daa_account_kind (hd (digital_asset_accounts sample_proved_db)) = ''single_address''"
    by (simp_all add: sample_proved_db_def)
  have step: "address_coverage_step sample_proved_db Mainnet b None (''d1'', Some sample_sync_row) = Inr (Some 9)" for b
    using sample_proved_count by (simp add: address_coverage_step_def sample_sync_row_def)
  show ?thesis
    unfolding load_candidate_bitcoin_history_coverage_def Let_def accs if_not_P [OF h] sample_proved_rows
    by (subst kind(1)) (simp add: kind(2) sample_no_repair step chain_tip_height_try_new_def, simp add: sample_sync_row_def)
qed

theorem complete_coverage_is_proved_witness:
  "load_candidate_bitcoin_history_coverage sample_proved_db ''acc'' Mainnet [sample_entry ''t'' Confirmed (Some 1) [] 5] True =
     Inr \<lparr>coverage = Complete 9, repair_pending = False\<rparr> \<and>
   address_proved sample_proved_db Mainnet 9 (''d1'', Some sample_sync_row)"
proof -
  have loaded: "load_candidate_bitcoin_history_coverage sample_proved_db ''acc'' Mainnet
      [sample_entry ''t'' Confirmed (Some 1) [] 5] True = Inr \<lparr>coverage = Complete 9, repair_pending = False\<rparr>"
    by (rule sample_proved_coverage) (simp add: sample_entry_def)
  from complete_coverage_is_proved [OF this, of 9] loaded show ?thesis by (simp add: sample_proved_rows)
qed

subsection \<open>Stored rows load back\<close>

lemma split_optional_roundtrip:
  assumes "split_optional_amount a f = Inr (hi, lo)"
  shows "parse_optional_split_amount hi lo g = Inr a"
proof (cases a)
  case None
  with assms show ?thesis by (auto simp: split_optional_amount_def)
next
  case (Some v)
  with assms obtain p where p: "split_unsigned_amount v f = Inr p" "hi = Some (split_hi p)" "lo = Some (split_lo p)"
    by (auto simp: split_optional_amount_def)
  from split_unsigned_amount_cases [of v f] p(1) have "in_i64 (split_hi p)" by simp
  from parse_split_iff [OF this, of "split_lo p" g v f] p Some show ?thesis
    by (simp add: parse_optional_split_amount_Some)
qed

text \<open>
  C40. A ledger row that is written loads back as what was written: the value, the optional fee, the optional closing
  balance, the signed balance change, the status and the direction.
\<close>

theorem ledger_row_roundtrip:
  assumes "ledger_row_of env account_id meta observed e = Inr r" and "in_i128 (le_balance_delta e)"
  shows "parse_split_amount (ld_value_hi r) (ld_value_lo r) f = Inr (le_value e) \<and>
    parse_optional_split_amount (ld_fee_hi r) (ld_fee_lo r) f = Inr (le_fee e) \<and>
    parse_optional_split_amount (ld_closing_balance_hi r) (ld_closing_balance_lo r) f = Inr (le_closing_balance e) \<and>
    signed_balance_delta_from_split (ld_balance_delta_hi r) (ld_balance_delta_lo r) (ld_balance_delta_negative r = 1) =
      Inr (le_balance_delta e) \<and>
    parse_chain_status (ld_status r) = Inr (le_status e) \<and> parse_direction (ld_tx_type r) = Inr (le_direction e)"
proof -
  from assms(1) obtain vp fh fl ch cl dp neg where
    v: "split_unsigned_amount (le_value e) ''value_amount'' = Inr vp"
    and fee: "split_optional_amount (le_fee e) ''fee_amount'' = Inr (fh, fl)"
    and cl: "split_optional_amount (le_closing_balance e) ''closing_balance'' = Inr (ch, cl)"
    and d: "split_signed_balance_delta (le_balance_delta e) = Inr (dp, neg)"
    and r: "ld_value_hi r = split_hi vp" "ld_value_lo r = split_lo vp" "ld_fee_hi r = fh" "ld_fee_lo r = fl"
      "ld_closing_balance_hi r = ch" "ld_closing_balance_lo r = cl" "ld_balance_delta_hi r = split_hi dp"
      "ld_balance_delta_lo r = split_lo dp" "ld_balance_delta_negative r = (if neg then 1 else 0)"
      "ld_status r = status_as_db_value (le_status e)" "ld_tx_type r = direction_to_db_value (le_direction e)"
    by (fastforce simp: ledger_row_of_def Let_def)
  from split_unsigned_amount_cases [of "le_value e" "''value_amount''"] v have "in_i64 (split_hi vp)" by simp
  from parse_split_iff [OF this, of "split_lo vp" f "le_value e" "''value_amount''"] v r
  have "parse_split_amount (ld_value_hi r) (ld_value_lo r) f = Inr (le_value e)" by simp
  moreover have "(ld_balance_delta_negative r = 1) = neg" using r by simp
  moreover have "parse_chain_status (ld_status r) = Inr (le_status e)" unfolding r
    by (cases "le_status e") (simp_all add: parse_chain_status_def status_from_db_value_def)
  moreover have "parse_direction (ld_tx_type r) = Inr (le_direction e)" unfolding r
    by (cases "le_direction e") (simp_all add: parse_direction_def)
  ultimately show ?thesis
    using conjunct1 [OF signed_balance_delta_stored [OF assms(2) d]] split_optional_roundtrip [OF fee, of f] split_optional_roundtrip [OF cl, of f] r
    by simp
qed

definition sample_env :: Env where
  "sample_env = \<lparr>env_iter = id, env_parse_datetime = (\<lambda>s. Inr 0), env_parse_ulid = Inr, env_to_rfc3339 = (\<lambda>t. ''t'')\<rparr>"

definition sample_meta :: AccountMeta where
  "sample_meta = \<lparr>meta_wallet_id = ''w'', meta_asset_id = Bitcoin, meta_network = Mainnet, meta_label = None, meta_wallet_label = ''W''\<rparr>"

lemma split_unsigned_amount_small:
  "uint a < 1000000000000000000 \<Longrightarrow> split_unsigned_amount a f = Inr \<lparr>split_hi = 0, split_lo = uint a\<rparr>"
  by (simp add: split_unsigned_amount_def split_unsigned_amount_parts_def encode_global GLOBAL_SPLIT_DIVISOR_def)

lemma split_small_delta:
  "0 \<le> d \<Longrightarrow> d < 1000000000000000000 \<Longrightarrow>
     split_signed_balance_delta d = Inr (\<lparr>split_hi = 0, split_lo = d\<rparr>, False)"
  using split_unsigned_amount_small [of "word_of_int d" "''balance_delta''"] uint_u128_of_int [of d]
  by (simp add: split_signed_balance_delta_def)

theorem ledger_row_roundtrip_witness:
  "\<exists>r. ledger_row_of sample_env ''acc'' sample_meta 0 (set_closing (Some 50) (sample_entry ''h1'' Confirmed (Some 5) [] 50)) = Inr r \<and>
     parse_optional_split_amount (ld_closing_balance_hi r) (ld_closing_balance_lo r) ''closing_balance'' = Inr (Some 50) \<and>
     signed_balance_delta_from_split (ld_balance_delta_hi r) (ld_balance_delta_lo r) (ld_balance_delta_negative r = 1) = Inr 50"
proof -
  let ?e = "set_closing (Some 50) (sample_entry ''h1'' Confirmed (Some 5) [] 50)"
  have "\<exists>r. ledger_row_of sample_env ''acc'' sample_meta 0 ?e = Inr r"
    by (simp add: ledger_row_of_def sample_entry_def set_closing_def split_optional_amount_def split_unsigned_amount_small
        split_small_delta Let_def)
  then obtain r where r: "ledger_row_of sample_env ''acc'' sample_meta 0 ?e = Inr r" by metis
  have "in_i128 (le_balance_delta ?e)" by (simp add: sample_entry_def in_i128_def)
  from ledger_row_roundtrip [OF r this, of "''closing_balance''"] r show ?thesis
    by (intro exI [of _ r]) (simp add: sample_entry_def)
qed

subsection \<open>What a rebuild changes\<close>

definition other_rows :: "ulid \<Rightarrow> UserDb \<Rightarrow> LedgerRow list" where
  "other_rows account_id db = filter (\<lambda>r. ld_account_id r \<noteq> account_id) (account_transaction_ledger db)"

definition own_rows :: "ulid \<Rightarrow> UserDb \<Rightarrow> LedgerRow list" where
  "own_rows account_id db = filter (\<lambda>r. ld_account_id r = account_id) (account_transaction_ledger db)"

text \<open>Two databases that differ in the ledger rows of one account only.\<close>

definition same_but_ledger :: "ulid \<Rightarrow> UserDb \<Rightarrow> UserDb \<Rightarrow> bool" where
  "same_but_ledger account_id db db' \<longleftrightarrow>
     db' = db\<lparr>account_transaction_ledger := account_transaction_ledger db'\<rparr> \<and> other_rows account_id db' = other_rows account_id db"

lemma same_but_ledger_refl [simp]: "same_but_ledger account_id db db"
  by (simp add: same_but_ledger_def)

lemma clear_account_ok:
  "same_but_ledger account_id db (clear_account_closing_balances env db account_id observed)"
  "own_rows account_id (clear_account_closing_balances env db account_id observed) =
     map (clear_closing_row (env_to_rfc3339 env observed)) (own_rows account_id db)"
  by (simp_all add: same_but_ledger_def other_rows_def own_rows_def clear_account_closing_balances_def
      filter_map_update filter_map_update_other)

lemma insert_ledger_row_Inr:
  "insert_ledger_row d r = Inr d' \<Longrightarrow> d' = d\<lparr>account_transaction_ledger := account_transaction_ledger d @ [r]\<rparr>"
  by (simp add: insert_ledger_row_def split: if_splits)

lemma ledger_row_of_account: "ledger_row_of env account_id meta observed e = Inr r \<Longrightarrow> ld_account_id r = account_id"
  by (auto simp: ledger_row_of_def Let_def)

lemma replace_conn_ok:
  assumes "replace_account_transaction_ledger_entries_conn env db account_id meta observed entries = Inr db'"
  shows "same_but_ledger account_id db db' \<and>
    list_all2 (\<lambda>e r. ledger_row_of env account_id meta observed e = Inr r) entries (own_rows account_id db')"
proof -
  let ?step = "\<lambda>d e. res_bind (ledger_row_of env account_id meta observed e) (insert_ledger_row d)"
  have "res_fold ?step d es = Inr d' \<Longrightarrow>
      d' = d\<lparr>account_transaction_ledger := account_transaction_ledger d'\<rparr> \<and> other_rows account_id d' = other_rows account_id d \<and>
      (\<exists>rs. own_rows account_id d' = own_rows account_id d @ rs \<and>
         list_all2 (\<lambda>e r. ledger_row_of env account_id meta observed e = Inr r) es rs)" for d d' es
  proof (induction es arbitrary: d)
    case (Cons e es)
    then obtain r d1 where r: "ledger_row_of env account_id meta observed e = Inr r" "insert_ledger_row d r = Inr d1"
      and "res_fold ?step d1 es = Inr d'" by auto
    then have rest: "res_fold ?step (d\<lparr>account_transaction_ledger := account_transaction_ledger d @ [r]\<rparr>) es = Inr d'"
      using insert_ledger_row_Inr by blast
    from Cons.IH [OF rest] obtain rs where IH:
      "d' = d\<lparr>account_transaction_ledger := account_transaction_ledger d'\<rparr>"
      "other_rows account_id d' = other_rows account_id (d\<lparr>account_transaction_ledger := account_transaction_ledger d @ [r]\<rparr>)"
      "own_rows account_id d' = own_rows account_id (d\<lparr>account_transaction_ledger := account_transaction_ledger d @ [r]\<rparr>) @ rs"
      "list_all2 (\<lambda>e r. ledger_row_of env account_id meta observed e = Inr r) es rs" by auto
    with r(1) ledger_row_of_account [OF r(1)] show ?case
      by (intro conjI exI [of _ "r # rs"]) (simp_all add: other_rows_def own_rows_def)
  qed simp
  from this [OF assms [unfolded replace_account_transaction_ledger_entries_conn_def Let_def]] show ?thesis
    by (auto simp: same_but_ledger_def other_rows_def own_rows_def)
qed


text \<open>The accounts whose closing balances are cleared when a rebuild fails.\<close>

definition is_utxo_account :: "Env \<Rightarrow> UserDb \<Rightarrow> ulid \<Rightarrow> bool" where
  "is_utxo_account env db account_id =
     (case load_meta env db account_id of Inl _ \<Rightarrow> False | Inr meta \<Rightarrow> account_model_for (meta_asset_id meta) = Utxo)"

definition cleared_on_failure :: "Env \<Rightarrow> UserDb \<Rightarrow> ulid \<Rightarrow> time \<Rightarrow> UserDb \<Rightarrow> bool" where
  "cleared_on_failure env db account_id observed db' \<longleftrightarrow>
     same_but_ledger account_id db db' \<and>
     own_rows account_id db' = (if is_utxo_account env db account_id
       then map (clear_closing_row (env_to_rfc3339 env observed)) (own_rows account_id db) else own_rows account_id db)"

lemma cleared_on_failure_intros:
  "is_utxo_account env db account_id \<Longrightarrow>
     cleared_on_failure env db account_id observed (clear_account_closing_balances env db account_id observed)"
  "\<not> is_utxo_account env db account_id \<Longrightarrow> cleared_on_failure env db account_id observed db"
  by (simp_all add: cleared_on_failure_def clear_account_ok)

lemma utxo_iff_bitcoin: "account_model_for a = Utxo \<longleftrightarrow> a = Bitcoin"
  by (cases a) (simp_all add: account_model_for_def)

lemma build_ledger_meta:
  assumes "build_account_transaction_ledger env db account_id override = Inr (meta, entries)"
  shows "load_meta env db account_id = Inr meta"
proof -
  from assms obtain m es where m: "load_meta env db account_id = Inr m" and es: "collect_entries env db account_id m = Inr es"
    by (auto simp: build_account_transaction_ledger_def)
  have "m = meta"
  proof (cases "account_model_for (meta_asset_id m)")
    case Account
    with assms m es show ?thesis by (auto simp: build_account_transaction_ledger_def)
  next
    case Utxo
    with assms m es obtain basis where
      b: "(case assign_bitcoin_closing_balances es basis of (Inl err, _) \<Rightarrow> Inl err | (Inr _, es') \<Rightarrow> Inr (m, es')) = Inr (meta, entries)"
      by (auto simp: build_account_transaction_ledger_def)
    then show ?thesis
      by (cases "assign_bitcoin_closing_balances es basis"; cases "fst (assign_bitcoin_closing_balances es basis)") auto
  qed
  with m show ?thesis by simp
qed

text \<open>
  C37. A rebuild of an account's ledger writes nothing but that account's ledger rows. When it succeeds they are, in order,
  the rows of the entries that were built; when it fails no row is added or removed, and an account of the UTXO model has
  all its closing balances cleared rather than left stale.
\<close>

theorem rebuild_account_transaction_ledger_effect:
  "case rebuild_account_transaction_ledger_conn_with_basis env db account_id observed override of
     (Inr _, db') \<Rightarrow> same_but_ledger account_id db db' \<and>
       (\<exists>meta entries. build_account_transaction_ledger env db account_id override = Inr (meta, entries) \<and>
          list_all2 (\<lambda>e r. ledger_row_of env account_id meta observed e = Inr r) entries (own_rows account_id db'))
   | (Inl _, db') \<Rightarrow> cleared_on_failure env db account_id observed db'"
proof (cases "build_account_transaction_ledger env db account_id override")
  case (Inl err)
  then show ?thesis
    by (auto simp: rebuild_account_transaction_ledger_conn_with_basis_def is_utxo_account_def
        intro!: cleared_on_failure_intros split: sum.split)
next
  case (Inr me)
  obtain meta entries where me: "me = (meta, entries)" by (cases me)
  have meta: "load_meta env db account_id = Inr meta" using Inr me build_ledger_meta by simp
  show ?thesis
  proof (cases "replace_account_transaction_ledger_entries_conn env db account_id meta observed entries")
    case (Inl err)
    with Inr me meta show ?thesis
      by (auto simp: rebuild_account_transaction_ledger_conn_with_basis_def replace_account_transaction_ledger_entries_def
          is_utxo_account_def utxo_iff_bitcoin intro!: cleared_on_failure_intros)
  next
    case repl: (Inr db')
    with Inr me replace_conn_ok [OF repl] show ?thesis
      by (simp add: rebuild_account_transaction_ledger_conn_with_basis_def replace_account_transaction_ledger_entries_def)
  qed
qed

subsection \<open>Publishing is atomic and sound\<close>

lemma publish_address_proof_ledger:
  "publish_address_proof env db pub = Inr db' \<Longrightarrow> account_transaction_ledger db' = account_transaction_ledger db"
  by (auto simp: publish_address_proof_def publish_mempool_history_proof_conn_def publish_strict_mempool_history_proof_conn_def
      update_sync_state_def Let_def split: option.splits if_splits)

lemma publish_hd_discovery_ledger:
  "publish_hd_discovery env db pub = Inr db' \<Longrightarrow> account_transaction_ledger db' = account_transaction_ledger db"
  by (auto simp: publish_hd_discovery_def complete_hd_account_discovery_conn_def Let_def split: option.splits if_splits)

text \<open>Coverage does not read the ledger table.\<close>

lemma canonical_tx_count_reads_no_ledger:
  "canonical_tx_count (db\<lparr>account_transaction_ledger := l\<rparr>) = canonical_tx_count db"
  by (intro ext) (simp add: canonical_tx_count_def)

lemma coverage_reads_no_ledger:
  "load_bitcoin_history_repair_pending (db\<lparr>account_transaction_ledger := l\<rparr>) = load_bitcoin_history_repair_pending db"
  "addresses_with_sync_state (db\<lparr>account_transaction_ledger := l\<rparr>) = addresses_with_sync_state db"
  "hd_discovery_height (db\<lparr>account_transaction_ledger := l\<rparr>) = hd_discovery_height db"
  "address_coverage_step (db\<lparr>account_transaction_ledger := l\<rparr>) = address_coverage_step db"
  by (intro ext, simp add: load_bitcoin_history_repair_pending_def address_sync_rows_def
      addresses_with_sync_state_def account_addresses_def hd_discovery_height_def)+
    (unfold address_coverage_step_def [abs_def] canonical_tx_count_reads_no_ledger, rule refl)

lemma candidate_ledger_irrelevant:
  "load_candidate_bitcoin_history_coverage (db\<lparr>account_transaction_ledger := l\<rparr>) = load_candidate_bitcoin_history_coverage db"
proof -
  have "digital_asset_accounts (db\<lparr>account_transaction_ledger := l\<rparr>) = digital_asset_accounts db" by simp
  then show ?thesis
    unfolding load_candidate_bitcoin_history_coverage_def [abs_def] coverage_reads_no_ledger by (simp only:)
qed

lemma replace_conn_candidate:
  "replace_account_transaction_ledger_entries_conn env db account_id meta observed entries = Inr db' \<Longrightarrow>
     load_candidate_bitcoin_history_coverage db' = load_candidate_bitcoin_history_coverage db"
  using replace_conn_ok [of env db account_id meta observed entries db'] candidate_ledger_irrelevant [of "account_transaction_ledger db'" db]
  by (simp add: same_but_ledger_def)

text \<open>The state a publication leaves when it reports the history complete.\<close>

definition completion_published :: "Env \<Rightarrow> UserDb \<Rightarrow> BitcoinAccountCompletionPublication \<Rightarrow> UserDb \<Rightarrow> bool" where
  "completion_published env db pub db' \<longleftrightarrow>
     (\<exists>meta entries entries' c h.
        load_meta env db (pub_account_id pub) = Inr meta \<and> meta_asset_id meta = Bitcoin \<and>
        collect_entries env db (pub_account_id pub) meta = Inr entries \<and>
        load_candidate_bitcoin_history_coverage db' (pub_account_id pub) (meta_network meta) entries True = Inr c \<and>
        coverage c = Complete h \<and>
        assign_bitcoin_closing_balances entries CanonicalZero = (Inr (), entries') \<and>
        list_all2 (\<lambda>e r. ledger_row_of env (pub_account_id pub) meta (observed_at pub) e = Inr r)
          entries' (own_rows (pub_account_id pub) db'))"

lemma publish_tx_cases:
  assumes "publish_bitcoin_account_completion_tx env db pub = Inr (complete, db')"
  obtains meta entries db2 c where
    "load_meta env db (pub_account_id pub) = Inr meta" "meta_asset_id meta = Bitcoin"
    "collect_entries env db (pub_account_id pub) meta = Inr entries"
    "account_transaction_ledger db2 = account_transaction_ledger db"
    "load_candidate_bitcoin_history_coverage db2 (pub_account_id pub) (meta_network meta) entries True = Inr c"
    "(case coverage c of
        Complete h \<Rightarrow>
          (case assign_bitcoin_closing_balances entries CanonicalZero of
             (Inl err, _) \<Rightarrow> Inl err
           | (Inr _, entries') \<Rightarrow>
               res_map (Pair True)
                 (replace_account_transaction_ledger_entries_conn env db2 (pub_account_id pub) meta (observed_at pub) entries'))
      | _ \<Rightarrow> Inr (False, db2)) = Inr (complete, db')"
proof -
  note tx = assms [unfolded publish_bitcoin_account_completion_tx_def]
  from tx obtain meta where meta: "load_meta env db (pub_account_id pub) = Inr meta" "meta_asset_id meta = Bitcoin"
    by (auto split: if_splits)
  with tx obtain entries db1 db2 c where
    steps: "collect_entries env db (pub_account_id pub) meta = Inr entries" "publish_address_proof env db pub = Inr db1"
      "publish_hd_discovery env db1 pub = Inr db2"
      "load_candidate_bitcoin_history_coverage db2 (pub_account_id pub) (meta_network meta) entries True = Inr c"
    and last: "(case coverage c of
        Complete h \<Rightarrow>
          (case assign_bitcoin_closing_balances entries CanonicalZero of
             (Inl err, _) \<Rightarrow> Inl err
           | (Inr _, entries') \<Rightarrow>
               res_map (Pair True)
                 (replace_account_transaction_ledger_entries_conn env db2 (pub_account_id pub) meta (observed_at pub) entries'))
      | _ \<Rightarrow> Inr (False, db2)) = Inr (complete, db')"
    by (auto split: if_splits)
  from steps publish_address_proof_ledger publish_hd_discovery_ledger
  have "account_transaction_ledger db2 = account_transaction_ledger db" by simp
  with meta steps last show ?thesis by (intro that)
qed

lemma publish_tx_complete:
  assumes "publish_bitcoin_account_completion_tx env db pub = Inr (True, db')"
  shows "other_rows (pub_account_id pub) db' = other_rows (pub_account_id pub) db \<and> completion_published env db pub db'"
  using assms
proof (rule publish_tx_cases)
  fix meta entries db2 c
  assume pre: "load_meta env db (pub_account_id pub) = Inr meta" "meta_asset_id meta = Bitcoin"
      "collect_entries env db (pub_account_id pub) meta = Inr entries"
      "load_candidate_bitcoin_history_coverage db2 (pub_account_id pub) (meta_network meta) entries True = Inr c"
    and led: "account_transaction_ledger db2 = account_transaction_ledger db"
    and last: "(case coverage c of
        Complete h \<Rightarrow>
          (case assign_bitcoin_closing_balances entries CanonicalZero of
             (Inl err, _) \<Rightarrow> Inl err
           | (Inr _, entries') \<Rightarrow>
               res_map (Pair True)
                 (replace_account_transaction_ledger_entries_conn env db2 (pub_account_id pub) meta (observed_at pub) entries'))
      | _ \<Rightarrow> Inr (False, db2)) = Inr (True, db')"
  obtain r entries' where a: "assign_bitcoin_closing_balances entries CanonicalZero = (r, entries')" by fastforce
  obtain h where h: "coverage c = Complete h" using last by (cases "coverage c") auto
  with last a have r: "r = Inr ()"
    and rep: "replace_account_transaction_ledger_entries_conn env db2 (pub_account_id pub) meta (observed_at pub) entries' = Inr db'"
    by (cases r, auto)+
  from pre(4) have "load_candidate_bitcoin_history_coverage db' (pub_account_id pub) (meta_network meta) entries True = Inr c"
    by (simp only: replace_conn_candidate [OF rep])
  with pre h a r replace_conn_ok [OF rep] led show ?thesis
    unfolding completion_published_def same_but_ledger_def other_rows_def
    by (intro conjI exI [of _ meta] exI [of _ entries] exI [of _ entries'] exI [of _ c] exI [of _ h]) simp_all
qed

lemma publish_tx_incomplete:
  assumes "publish_bitcoin_account_completion_tx env db pub = Inr (False, db')"
  shows "account_transaction_ledger db' = account_transaction_ledger db \<and>
    (\<exists>meta entries c. load_meta env db (pub_account_id pub) = Inr meta \<and>
       collect_entries env db (pub_account_id pub) meta = Inr entries \<and>
       load_candidate_bitcoin_history_coverage db' (pub_account_id pub) (meta_network meta) entries True = Inr c \<and>
       (\<forall>h. coverage c \<noteq> Complete h))"
  using assms
proof (rule publish_tx_cases)
  fix meta entries db2 c
  assume pre: "load_meta env db (pub_account_id pub) = Inr meta"
      "collect_entries env db (pub_account_id pub) meta = Inr entries"
      "load_candidate_bitcoin_history_coverage db2 (pub_account_id pub) (meta_network meta) entries True = Inr c"
      "account_transaction_ledger db2 = account_transaction_ledger db"
    and last: "(case coverage c of
        Complete h \<Rightarrow>
          (case assign_bitcoin_closing_balances entries CanonicalZero of
             (Inl err, _) \<Rightarrow> Inl err
           | (Inr _, entries') \<Rightarrow>
               res_map (Pair True)
                 (replace_account_transaction_ledger_entries_conn env db2 (pub_account_id pub) meta (observed_at pub) entries'))
      | _ \<Rightarrow> Inr (False, db2)) = Inr (False, db')"
  obtain r entries' where a: "assign_bitcoin_closing_balances entries CanonicalZero = (r, entries')" by fastforce
  have "(\<forall>h. coverage c \<noteq> Complete h) \<and> db' = db2"
    using last a by (cases "coverage c"; cases r; auto)
  with pre show ?thesis by metis
qed

text \<open>
  C3. Publishing a completed Bitcoin history is atomic. When it reports the history complete, the published state itself
  proves complete coverage of the entries it was computed from, the account's ledger rows are those entries with running
  balances from zero, and no row of another account changes; when it reports it incomplete, the coverage it wrote is not
  complete and the ledger is untouched; when it fails, nothing that was written inside the transaction remains, and the
  closing balances of the account are cleared.
\<close>

theorem publish_bitcoin_account_completion_atomic:
  "case publish_bitcoin_account_completion env db pub of
     (Inr True, db') \<Rightarrow>
       other_rows (pub_account_id pub) db' = other_rows (pub_account_id pub) db \<and> completion_published env db pub db'
   | (Inr False, db') \<Rightarrow> account_transaction_ledger db' = account_transaction_ledger db \<and>
       (\<exists>meta entries c. load_meta env db (pub_account_id pub) = Inr meta \<and>
          collect_entries env db (pub_account_id pub) meta = Inr entries \<and>
          load_candidate_bitcoin_history_coverage db' (pub_account_id pub) (meta_network meta) entries True = Inr c \<and>
          (\<forall>h. coverage c \<noteq> Complete h))
   | (Inl _, db') \<Rightarrow> cleared_on_failure env db (pub_account_id pub) (observed_at pub) db'"
proof (cases "publish_bitcoin_account_completion_tx env db pub")
  case (Inl err)
  then show ?thesis
    by (auto simp: publish_bitcoin_account_completion_def is_utxo_account_def utxo_iff_bitcoin Let_def
        intro!: cleared_on_failure_intros split: sum.split)
next
  case (Inr r)
  obtain complete db' where r: "r = (complete, db')" by (cases r)
  then show ?thesis
    using Inr publish_tx_complete [of env db pub db'] publish_tx_incomplete [of env db pub db']
    by (cases complete) (simp_all add: publish_bitcoin_account_completion_def)
qed

end
