(* ===== verification/Lifecycle.thy ===== *)
theory Lifecycle
  imports Domain "HOL-Library.Multiset"
begin

section \<open>User lifecycle locks\<close>

text \<open>
  The registry of \<open>src/src/auth/lifecycle.rs\<close>: per user, which requests are in flight, whether an exclusive operation
  owns the user, which client capabilities are being shut down, and which browser sessions are pinned. A request takes
  a lease and returns it when it is dropped; an exclusive operation first marks the user, then waits until the leases
  are gone; the shutdown of a capability blocks new requests of that capability and may wait for the running ones.

  Every operation runs under the mutex of the registry, so it is one function on the map of users; the two waiting
  operations release the mutex while they wait on the condition variable, so they are a sequence of such functions:
  \<open>exclusive_begin\<close> and \<open>exclusive_drained\<close>, \<open>shutdown_begin\<close> and \<open>capability_drained\<close>. The tokens that
  Rust's ownership keeps (leases, guards) are multisets beside the registry, and the interleavings of all threads are
  the step relation. A step says whether it notifies the condition variable and whose database it closes.

  A poisoned mutex (a panic inside a critical section) is not modelled. Whether closing a database succeeds is a
  parameter. Counters are natural numbers: each unit of one is a live lease in memory.
\<close>

type_synonym UserId = ulid
type_synonym SessionId = string
type_synonym CapabilityId = "u8 list"

record UserLifecycleState =
  exclusive_user :: bool
  blocked_capabilities :: "CapabilityId set"
  active_requests :: nat
  active_by_capability :: "CapabilityId \<rightharpoonup> nat"
  browser_sessions :: "SessionId set"

type_synonym Users = "UserId \<rightharpoonup> UserLifecycleState"

record UserRequestLease =
  lease_user :: UserId
  lease_capability :: "CapabilityId option"

definition default_lifecycle_state :: UserLifecycleState where
  "default_lifecycle_state = \<lparr>exclusive_user = False, blocked_capabilities = {}, active_requests = 0,
     active_by_capability = Map.empty, browser_sessions = {}\<rparr>"

definition is_idle :: "UserLifecycleState \<Rightarrow> bool" where
  "is_idle s \<longleftrightarrow> \<not> exclusive_user s \<and> blocked_capabilities s = {} \<and> active_requests s = 0 \<and>
     active_by_capability s = Map.empty \<and> browser_sessions s = {}"

definition entry_or_default :: "Users \<Rightarrow> UserId \<Rightarrow> UserLifecycleState" where
  "entry_or_default users u = (case users u of None \<Rightarrow> default_lifecycle_state | Some s \<Rightarrow> s)"

text \<open>How every drop ends: an idle entry leaves the registry.\<close>

definition remove_if_idle :: "Users \<Rightarrow> UserId \<Rightarrow> UserLifecycleState \<Rightarrow> Users" where
  "remove_if_idle users u s = (if is_idle s then users(u := None) else users(u \<mapsto> s))"

subsection \<open>Operations\<close>

definition exclusive_begin :: "Users \<Rightarrow> UserId \<Rightarrow> Users option" where
  "exclusive_begin users u =
     (let s = entry_or_default users u in
      if \<not> exclusive_user s \<and> blocked_capabilities s = {}
      then Some (users(u \<mapsto> s\<lparr>exclusive_user := True\<rparr>)) else None)"

definition exclusive_drained :: "Users \<Rightarrow> UserId \<Rightarrow> bool" where
  "exclusive_drained users u = (case users u of None \<Rightarrow> True | Some s \<Rightarrow> \<not> active_requests s > 0)"

definition acquire_request :: "Users \<Rightarrow> UserId \<Rightarrow> CapabilityId option \<Rightarrow> Users \<times> UserRequestLease option" where
  "acquire_request users u cap =
     (let s = entry_or_default users u in
      if exclusive_user s \<or> (case cap of None \<Rightarrow> False | Some c \<Rightarrow> c \<in> blocked_capabilities s)
      then (users(u \<mapsto> s), None)
      else
        (users(u \<mapsto> s\<lparr>active_requests := active_requests s + 1,
           active_by_capability := (case cap of
              None \<Rightarrow> active_by_capability s
            | Some c \<Rightarrow> (active_by_capability s)(c \<mapsto> (case active_by_capability s c of None \<Rightarrow> 0 | Some n \<Rightarrow> n) + 1))\<rparr>),
         Some \<lparr>lease_user = u, lease_capability = cap\<rparr>))"

definition acquire_session_request :: "Users \<Rightarrow> UserId \<Rightarrow> Users \<times> UserRequestLease option" where
  "acquire_session_request users u = acquire_request users u None"

definition acquire_pending_pairing_lease :: "Users \<Rightarrow> UserId \<Rightarrow> Users \<times> UserRequestLease option" where
  "acquire_pending_pairing_lease users u = acquire_request users u None"

definition acquire_client_key_request :: "Users \<Rightarrow> UserId \<Rightarrow> CapabilityId \<Rightarrow> Users \<times> UserRequestLease option" where
  "acquire_client_key_request users u c = acquire_request users u (Some c)"

definition pin_browser_session :: "Users \<Rightarrow> UserId \<Rightarrow> SessionId \<Rightarrow> Users" where
  "pin_browser_session users u sid =
     (let s = entry_or_default users u in users(u \<mapsto> s\<lparr>browser_sessions := insert sid (browser_sessions s)\<rparr>))"

text \<open>The result, the registry, and whether the waiters are notified. \<open>close_ok\<close> tells whether \<open>close_user_db\<close> succeeds.\<close>

definition unpin_browser_session ::
  "(UserId \<Rightarrow> bool) \<Rightarrow> Users \<Rightarrow> UserId \<Rightarrow> SessionId \<Rightarrow> (unit + bool) \<times> Users \<times> bool" where
  "unpin_browser_session close_ok users u sid =
     (case users u of
        None \<Rightarrow> (Inr False, users, False)
      | Some s0 \<Rightarrow>
          let s = s0\<lparr>browser_sessions := browser_sessions s0 - {sid}\<rparr>;
              should_close = (active_requests s = 0 \<and> browser_sessions s = {});
              users' = remove_if_idle users u s
          in if should_close \<and> \<not> close_ok u then (Inl (), users', False) else (Inr should_close, users', True))"

definition shutdown_begin :: "Users \<Rightarrow> UserId \<Rightarrow> CapabilityId \<Rightarrow> Users option" where
  "shutdown_begin users u c =
     (let s = entry_or_default users u in
      if \<not> exclusive_user s \<and> c \<notin> blocked_capabilities s
      then Some (users(u \<mapsto> s\<lparr>blocked_capabilities := insert c (blocked_capabilities s)\<rparr>)) else None)"

definition capability_drained :: "Users \<Rightarrow> UserId \<Rightarrow> CapabilityId \<Rightarrow> bool" where
  "capability_drained users u c =
     (case users u of
        None \<Rightarrow> True
      | Some s \<Rightarrow> \<not> (case active_by_capability s c of None \<Rightarrow> 0 | Some n \<Rightarrow> n) > 0)"

definition clear_browser_sessions :: "Users \<Rightarrow> UserId \<Rightarrow> Users" where
  "clear_browser_sessions users u =
     (case users u of None \<Rightarrow> users | Some s \<Rightarrow> users(u \<mapsto> s\<lparr>browser_sessions := {}\<rparr>))"

definition release_capability :: "(CapabilityId \<rightharpoonup> nat) \<Rightarrow> CapabilityId option \<Rightarrow> (CapabilityId \<rightharpoonup> nat)" where
  "release_capability active cap =
     (case cap of
        None \<Rightarrow> active
      | Some c \<Rightarrow>
          (case active c of
             None \<Rightarrow> active
           | Some n \<Rightarrow> if n - 1 = 0 then active(c := None) else active(c \<mapsto> n - 1)))"

text \<open>The registry, whether the user's database is closed, and whether the waiters are notified.\<close>

definition drop_request_lease :: "Users \<Rightarrow> UserRequestLease \<Rightarrow> Users \<times> bool \<times> bool" where
  "drop_request_lease users l =
     (case users (lease_user l) of
        None \<Rightarrow> (users, False, False)
      | Some s0 \<Rightarrow>
          let s = s0\<lparr>active_requests := active_requests s0 - 1,
                     active_by_capability := release_capability (active_by_capability s0) (lease_capability l)\<rparr>;
              should_close = (active_requests s = 0 \<and> browser_sessions s = {})
          in (remove_if_idle users (lease_user l) s, should_close, True))"

definition drop_lifecycle_guard :: "Users \<Rightarrow> UserId \<Rightarrow> Users" where
  "drop_lifecycle_guard users u =
     (case users u of None \<Rightarrow> users | Some s \<Rightarrow> remove_if_idle users u (s\<lparr>exclusive_user := False\<rparr>))"

definition drop_shutdown_guard :: "Users \<Rightarrow> UserId \<Rightarrow> CapabilityId \<Rightarrow> Users" where
  "drop_shutdown_guard users u c =
     (case users u of
        None \<Rightarrow> users
      | Some s \<Rightarrow> remove_if_idle users u (s\<lparr>blocked_capabilities := blocked_capabilities s - {c}\<rparr>))"

subsection \<open>All threads\<close>

text \<open>
  The tokens in the hands of the program: leases; users marked exclusive whose owner still waits (\<open>draining\<close>) or holds
  its guard (\<open>guards\<close>); shutdowns that have not waited (\<open>shutdowns\<close>) and those whose wait is over (\<open>quiesced\<close>). Beside them the
  threads that found the user taken and wait to mark it or to block a capability (\<open>waiting_exclusive\<close>, \<open>waiting_shutdowns\<close>).
\<close>

record LifecycleSystem =
  users :: Users
  leases :: "UserRequestLease multiset"
  draining :: "UserId multiset"
  guards :: "UserId multiset"
  shutdowns :: "(UserId \<times> CapabilityId) multiset"
  quiesced :: "(UserId \<times> CapabilityId) multiset"
  waiting_exclusive :: "UserId multiset"
  waiting_shutdowns :: "(UserId \<times> CapabilityId) multiset"

definition lifecycle_init :: "LifecycleSystem \<Rightarrow> bool" where
  "lifecycle_init \<sigma> \<longleftrightarrow> \<sigma> = \<lparr>users = Map.empty, leases = {#}, draining = {#}, guards = {#}, shutdowns = {#}, quiesced = {#},
    waiting_exclusive = {#}, waiting_shutdowns = {#}\<rparr>"

inductive lifecycle_step :: "LifecycleSystem \<Rightarrow> bool \<Rightarrow> UserId option \<Rightarrow> LifecycleSystem \<Rightarrow> bool" where
  begin_exclusive: "exclusive_begin (users \<sigma>) u = Some us \<Longrightarrow>
    lifecycle_step \<sigma> True None (\<sigma>\<lparr>users := us, draining := add_mset u (draining \<sigma>)\<rparr>)"
| wait_exclusive: "exclusive_begin (users \<sigma>) u = None \<Longrightarrow>
    lifecycle_step \<sigma> False None (\<sigma>\<lparr>waiting_exclusive := add_mset u (waiting_exclusive \<sigma>)\<rparr>)"
| resume_exclusive: "u \<in># waiting_exclusive \<sigma> \<Longrightarrow> exclusive_begin (users \<sigma>) u = Some us \<Longrightarrow>
    lifecycle_step \<sigma> True None
      (\<sigma>\<lparr>users := us, draining := add_mset u (draining \<sigma>), waiting_exclusive := waiting_exclusive \<sigma> - {#u#}\<rparr>)"
| exclusive_granted: "u \<in># draining \<sigma> \<Longrightarrow> exclusive_drained (users \<sigma>) u \<Longrightarrow>
    lifecycle_step \<sigma> False None (\<sigma>\<lparr>draining := draining \<sigma> - {#u#}, guards := add_mset u (guards \<sigma>)\<rparr>)"
| request_granted: "acquire_request (users \<sigma>) u cap = (us, Some l) \<Longrightarrow>
    lifecycle_step \<sigma> False None (\<sigma>\<lparr>users := us, leases := add_mset l (leases \<sigma>)\<rparr>)"
| request_refused: "acquire_request (users \<sigma>) u cap = (us, None) \<Longrightarrow>
    lifecycle_step \<sigma> False None (\<sigma>\<lparr>users := us\<rparr>)"
| session_pinned: "lifecycle_step \<sigma> False None (\<sigma>\<lparr>users := pin_browser_session (users \<sigma>) u sid\<rparr>)"
| session_unpinned: "unpin_browser_session close_ok (users \<sigma>) u sid = (r, us, notified) \<Longrightarrow>
    lifecycle_step \<sigma> notified (if r = Inr False then None else Some u) (\<sigma>\<lparr>users := us\<rparr>)"
| begin_shutdown: "shutdown_begin (users \<sigma>) u c = Some us \<Longrightarrow>
    lifecycle_step \<sigma> True None (\<sigma>\<lparr>users := us, shutdowns := add_mset (u, c) (shutdowns \<sigma>)\<rparr>)"
| wait_shutdown: "shutdown_begin (users \<sigma>) u c = None \<Longrightarrow>
    lifecycle_step \<sigma> False None (\<sigma>\<lparr>waiting_shutdowns := add_mset (u, c) (waiting_shutdowns \<sigma>)\<rparr>)"
| resume_shutdown: "(u, c) \<in># waiting_shutdowns \<sigma> \<Longrightarrow> shutdown_begin (users \<sigma>) u c = Some us \<Longrightarrow>
    lifecycle_step \<sigma> True None
      (\<sigma>\<lparr>users := us, shutdowns := add_mset (u, c) (shutdowns \<sigma>), waiting_shutdowns := waiting_shutdowns \<sigma> - {#(u, c)#}\<rparr>)"
| shutdown_waited: "(u, c) \<in># shutdowns \<sigma> \<Longrightarrow> capability_drained (users \<sigma>) u c \<Longrightarrow>
    lifecycle_step \<sigma> False None
      (\<sigma>\<lparr>shutdowns := shutdowns \<sigma> - {#(u, c)#}, quiesced := add_mset (u, c) (quiesced \<sigma>)\<rparr>)"
| sessions_cleared: "u \<in># guards \<sigma> \<Longrightarrow>
    lifecycle_step \<sigma> False None (\<sigma>\<lparr>users := clear_browser_sessions (users \<sigma>) u\<rparr>)"
| lease_dropped: "l \<in># leases \<sigma> \<Longrightarrow> drop_request_lease (users \<sigma>) l = (us, closed, notified) \<Longrightarrow>
    lifecycle_step \<sigma> notified (if closed then Some (lease_user l) else None)
      (\<sigma>\<lparr>users := us, leases := leases \<sigma> - {#l#}\<rparr>)"
| guard_dropped: "u \<in># guards \<sigma> \<Longrightarrow>
    lifecycle_step \<sigma> True None (\<sigma>\<lparr>users := drop_lifecycle_guard (users \<sigma>) u, guards := guards \<sigma> - {#u#}\<rparr>)"
| shutdown_dropped: "(u, c) \<in># shutdowns \<sigma> \<Longrightarrow>
    lifecycle_step \<sigma> True None
      (\<sigma>\<lparr>users := drop_shutdown_guard (users \<sigma>) u c, shutdowns := shutdowns \<sigma> - {#(u, c)#}\<rparr>)"
| quiesced_dropped: "(u, c) \<in># quiesced \<sigma> \<Longrightarrow>
    lifecycle_step \<sigma> True None
      (\<sigma>\<lparr>users := drop_shutdown_guard (users \<sigma>) u c, quiesced := quiesced \<sigma> - {#(u, c)#}\<rparr>)"

definition lifecycle_moves :: "LifecycleSystem \<Rightarrow> LifecycleSystem \<Rightarrow> bool" where
  "lifecycle_moves \<sigma> \<tau> \<longleftrightarrow> (\<exists>notified closed. lifecycle_step \<sigma> notified closed \<tau>)"

subsection \<open>The invariant\<close>

declare count_eq_zero_iff [simp]

lemma sum_flag_cases: "a + b = (if P then 1 else 0) \<Longrightarrow> 0 < b \<Longrightarrow> P \<and> b = 1 \<and> a = (0 :: nat)"
  by (cases P) auto

lemma flag_count: "count A x + count B x = (if P then 1 else 0) \<Longrightarrow> x \<in># A \<or> x \<in># B \<longleftrightarrow> P"
  by (cases P) (auto dest: arg_cong [of _ _ "\<lambda>n. 0 < n"])

lemma is_idle_iff: "is_idle s \<longleftrightarrow> s = default_lifecycle_state"
  by (cases s) (auto simp: is_idle_def default_lifecycle_state_def)

lemma entry_simps [simp]:
  "entry_or_default (us(u \<mapsto> s)) v = (if v = u then s else entry_or_default us v)"
  "entry_or_default (remove_if_idle us u s) v = (if v = u then s else entry_or_default us v)"
  by (auto simp: entry_or_default_def remove_if_idle_def is_idle_iff)

lemma entry_Some: "us u = Some s \<Longrightarrow> entry_or_default us u = s"
  by (simp add: entry_or_default_def)

lemma default_state_simps [simp]:
  "\<not> exclusive_user default_lifecycle_state" "blocked_capabilities default_lifecycle_state = {}"
  "active_requests default_lifecycle_state = 0" "active_by_capability default_lifecycle_state = Map.empty"
  "browser_sessions default_lifecycle_state = {}"
  by (simp_all add: default_lifecycle_state_def)

text \<open>What the entry of a user records of the tokens.\<close>

definition capability_lease :: "UserId \<Rightarrow> CapabilityId \<Rightarrow> UserRequestLease" where
  "capability_lease u c = \<lparr>lease_user = u, lease_capability = Some c\<rparr>"

definition requests_recorded :: "UserLifecycleState \<Rightarrow> UserRequestLease multiset \<Rightarrow> UserId \<Rightarrow> bool" where
  "requests_recorded s L u \<longleftrightarrow>
     active_requests s = size (filter_mset (\<lambda>l. lease_user l = u) L) \<and>
     (\<forall>c. active_by_capability s c =
        (if count L (capability_lease u c) = 0 then None else Some (count L (capability_lease u c))))"

definition owners_recorded ::
  "UserLifecycleState \<Rightarrow> UserId multiset \<Rightarrow> UserId multiset \<Rightarrow> (UserId \<times> CapabilityId) multiset \<Rightarrow>
     (UserId \<times> CapabilityId) multiset \<Rightarrow> UserId \<Rightarrow> bool" where
  "owners_recorded s D G S Q u \<longleftrightarrow>
     count D u + count G u = (if exclusive_user s then 1 else 0) \<and>
     (\<forall>c. count S (u, c) + count Q (u, c) = (if c \<in> blocked_capabilities s then 1 else 0)) \<and>
     (exclusive_user s \<longrightarrow> blocked_capabilities s = {}) \<and>
     (u \<in># G \<longrightarrow> active_requests s = 0) \<and>
     (\<forall>c. (u, c) \<in># Q \<longrightarrow> active_by_capability s c = None)"

definition user_ok :: "LifecycleSystem \<Rightarrow> UserId \<Rightarrow> bool" where
  "user_ok \<sigma> u \<longleftrightarrow>
     (let s = entry_or_default (users \<sigma>) u in
      requests_recorded s (leases \<sigma>) u \<and> owners_recorded s (draining \<sigma>) (guards \<sigma>) (shutdowns \<sigma>) (quiesced \<sigma>) u)"

definition lifecycle_inv :: "LifecycleSystem \<Rightarrow> bool" where
  "lifecycle_inv \<sigma> \<longleftrightarrow> (\<forall>u. user_ok \<sigma> u) \<and> (\<forall>u s. users \<sigma> u = Some s \<longrightarrow> \<not> is_idle s)"

text \<open>A step touches the tokens and the entry of one user.\<close>

lemma lifecycle_inv_step:
  assumes "lifecycle_inv \<sigma>" and "user_ok \<tau> u" and "\<And>v. v \<noteq> u \<Longrightarrow> user_ok \<sigma> v \<Longrightarrow> user_ok \<tau> v"
    and "\<And>v s. users \<tau> v = Some s \<Longrightarrow> \<not> is_idle s"
  shows "lifecycle_inv \<tau>"
  using assms unfolding lifecycle_inv_def by metis

lemma lease_user_capability_lease [simp]: "lease_user (capability_lease u c) = u"
  by (simp add: capability_lease_def)

lemma lease_eq_capability_lease [simp]:
  "\<lparr>lease_user = u, lease_capability = cap\<rparr> = capability_lease v c \<longleftrightarrow> u = v \<and> cap = Some c"
  by (auto simp: capability_lease_def)

lemma requests_recorded_other:
  assumes "lease_user l \<noteq> u"
  shows "requests_recorded s (add_mset l L) u = requests_recorded s L u"
    and "requests_recorded s (L - {#l#}) u = requests_recorded s L u"
proof -
  have "l \<noteq> capability_lease u c" for c using assms by (metis lease_user_capability_lease)
  with assms show "requests_recorded s (add_mset l L) u = requests_recorded s L u"
    and "requests_recorded s (L - {#l#}) u = requests_recorded s L u"
    by (simp_all add: requests_recorded_def)
qed

lemma requests_recorded_frame [simp]:
  "requests_recorded (s\<lparr>exclusive_user := b\<rparr>) = requests_recorded s"
  "requests_recorded (s\<lparr>browser_sessions := B\<rparr>) = requests_recorded s"
  "requests_recorded (s\<lparr>blocked_capabilities := C\<rparr>) = requests_recorded s"
  by (intro ext, simp add: requests_recorded_def)+

lemma owners_recorded_sessions [simp]:
  "owners_recorded (s\<lparr>browser_sessions := B\<rparr>) = owners_recorded s"
  by (intro ext, simp add: owners_recorded_def)

lemma owners_recorded_other:
  "v \<noteq> u \<Longrightarrow> owners_recorded s (add_mset u D) G S Q v = owners_recorded s D G S Q v"
  "v \<noteq> u \<Longrightarrow> owners_recorded s (D - {#u#}) G S Q v = owners_recorded s D G S Q v"
  "v \<noteq> u \<Longrightarrow> owners_recorded s D (add_mset u G) S Q v = owners_recorded s D G S Q v"
  "v \<noteq> u \<Longrightarrow> owners_recorded s D (G - {#u#}) S Q v = owners_recorded s D G S Q v"
  "v \<noteq> u \<Longrightarrow> owners_recorded s D G (add_mset (u, c) S) Q v = owners_recorded s D G S Q v"
  "v \<noteq> u \<Longrightarrow> owners_recorded s D G (S - {#(u, c)#}) Q v = owners_recorded s D G S Q v"
  "v \<noteq> u \<Longrightarrow> owners_recorded s D G S (add_mset (u, c) Q) v = owners_recorded s D G S Q v"
  "v \<noteq> u \<Longrightarrow> owners_recorded s D G S (Q - {#(u, c)#}) v = owners_recorded s D G S Q v"
  by (simp_all add: owners_recorded_def in_diff_count)

lemma owners_unblocked:
  "owners_recorded s D G S Q u \<Longrightarrow> c \<notin> blocked_capabilities s \<Longrightarrow> (u, c) \<notin># S \<and> (u, c) \<notin># Q"
  by (auto simp: owners_recorded_def dest: spec [of _ c])

lemma lifecycle_inv_init: "lifecycle_init \<sigma> \<Longrightarrow> lifecycle_inv \<sigma>"
  by (simp add: lifecycle_init_def lifecycle_inv_def user_ok_def requests_recorded_def owners_recorded_def entry_or_default_def)

lemma inv_user: "lifecycle_inv \<sigma> \<Longrightarrow> user_ok \<sigma> u"
  by (simp add: lifecycle_inv_def)

lemma inv_not_idle: "lifecycle_inv \<sigma> \<Longrightarrow> users \<sigma> u = Some s \<Longrightarrow> \<not> is_idle s"
  by (simp add: lifecycle_inv_def)

lemma not_idle_intros:
  "exclusive_user s \<Longrightarrow> \<not> is_idle s" "c \<in> blocked_capabilities s \<Longrightarrow> \<not> is_idle s"
  "active_requests s \<noteq> 0 \<Longrightarrow> \<not> is_idle s" "sid \<in> browser_sessions s \<Longrightarrow> \<not> is_idle s"
  by (auto simp: is_idle_def)

lemma update_not_idle:
  "lifecycle_inv \<sigma> \<Longrightarrow> \<not> is_idle s \<Longrightarrow> ((users \<sigma>)(u \<mapsto> s)) v = Some t \<Longrightarrow> \<not> is_idle t"
  by (auto dest: inv_not_idle split: if_splits)

lemma remove_not_idle:
  "lifecycle_inv \<sigma> \<Longrightarrow> remove_if_idle (users \<sigma>) u s v = Some t \<Longrightarrow> \<not> is_idle t"
  by (auto simp: remove_if_idle_def dest: inv_not_idle split: if_splits)

lemmas user_frame = user_ok_def Let_def requests_recorded_other owners_recorded_other

lemma waiting_inv [simp]:
  "lifecycle_inv (\<sigma>\<lparr>waiting_exclusive := W\<rparr>) = lifecycle_inv \<sigma>" "lifecycle_inv (\<sigma>\<lparr>waiting_shutdowns := X\<rparr>) = lifecycle_inv \<sigma>"
  by (simp_all add: lifecycle_inv_def user_ok_def)

lemma begin_exclusive_inv:
  assumes "lifecycle_inv \<sigma>" and "exclusive_begin (users \<sigma>) u = Some us"
  shows "lifecycle_inv (\<sigma>\<lparr>users := us, draining := add_mset u (draining \<sigma>)\<rparr>)"
proof -
  let ?s = "entry_or_default (users \<sigma>) u"
  from assms(2) have s: "\<not> exclusive_user ?s" "blocked_capabilities ?s = {}" and us: "us = (users \<sigma>)(u \<mapsto> ?s\<lparr>exclusive_user := True\<rparr>)"
    by (auto simp: exclusive_begin_def Let_def split: if_splits)
  show ?thesis
  proof (rule lifecycle_inv_step [OF assms(1)])
    show "user_ok (\<sigma>\<lparr>users := us, draining := add_mset u (draining \<sigma>)\<rparr>) u"
      using inv_user [OF assms(1), of u] s by (simp add: user_frame us owners_recorded_def)
    show "\<not> is_idle t" if "users (\<sigma>\<lparr>users := us, draining := add_mset u (draining \<sigma>)\<rparr>) v = Some t" for v t
      using that update_not_idle [OF assms(1), of "?s\<lparr>exclusive_user := True\<rparr>" u v t] by (simp add: us not_idle_intros)
  qed (simp add: user_frame us)
qed

lemma exclusive_granted_inv:
  assumes "lifecycle_inv \<sigma>" and "u \<in># draining \<sigma>" and "exclusive_drained (users \<sigma>) u"
  shows "lifecycle_inv (\<sigma>\<lparr>draining := draining \<sigma> - {#u#}, guards := add_mset u (guards \<sigma>)\<rparr>)"
proof (rule lifecycle_inv_step [OF assms(1)])
  let ?s = "entry_or_default (users \<sigma>) u"
  have "active_requests ?s = 0"
    using assms(3) by (auto simp: exclusive_drained_def entry_or_default_def split: option.splits)
  moreover have "0 < count (draining \<sigma>) u" using assms(2) by simp
  ultimately show "user_ok (\<sigma>\<lparr>draining := draining \<sigma> - {#u#}, guards := add_mset u (guards \<sigma>)\<rparr>) u"
    using inv_user [OF assms(1), of u] by (simp add: user_frame owners_recorded_def split: if_splits)
qed (use assms(1) in \<open>simp_all add: user_frame inv_not_idle\<close>)

lemma request_granted_inv:
  assumes "lifecycle_inv \<sigma>" and "acquire_request (users \<sigma>) u cap = (us, Some l)"
  shows "lifecycle_inv (\<sigma>\<lparr>users := us, leases := add_mset l (leases \<sigma>)\<rparr>)"
proof -
  let ?s = "entry_or_default (users \<sigma>) u"
  define s' where "s' = ?s\<lparr>active_requests := active_requests ?s + 1,
           active_by_capability := (case cap of
              None \<Rightarrow> active_by_capability ?s
            | Some c \<Rightarrow> (active_by_capability ?s)(c \<mapsto> (case active_by_capability ?s c of None \<Rightarrow> 0 | Some n \<Rightarrow> n) + 1))\<rparr>"
  from assms(2) have s: "\<not> exclusive_user ?s" "\<And>c. cap = Some c \<Longrightarrow> c \<notin> blocked_capabilities ?s"
    and us: "us = (users \<sigma>)(u \<mapsto> s')" and l: "l = \<lparr>lease_user = u, lease_capability = cap\<rparr>"
    by (auto simp: acquire_request_def Let_def s'_def split: if_splits option.splits)
  have u: "requests_recorded ?s (leases \<sigma>) u" "owners_recorded ?s (draining \<sigma>) (guards \<sigma>) (shutdowns \<sigma>) (quiesced \<sigma>) u"
    using inv_user [OF assms(1), of u] by (simp_all add: user_ok_def Let_def)
  have "requests_recorded s' (add_mset l (leases \<sigma>)) u"
    using u(1) by (cases cap) (simp_all add: requests_recorded_def s'_def l)
  moreover have "owners_recorded s' (draining \<sigma>) (guards \<sigma>) (shutdowns \<sigma>) (quiesced \<sigma>) u"
    using u(2) s owners_unblocked [OF u(2)] by (cases cap) (auto simp: owners_recorded_def s'_def)
  moreover have "\<not> is_idle s'" by (simp add: s'_def not_idle_intros)
  ultimately show ?thesis
    by (intro lifecycle_inv_step [OF assms(1), of _ u])
      (auto simp: user_frame us l dest: update_not_idle [OF assms(1)])
qed

lemma request_refused_inv:
  assumes "lifecycle_inv \<sigma>" and "acquire_request (users \<sigma>) u cap = (us, None)"
  shows "lifecycle_inv (\<sigma>\<lparr>users := us\<rparr>)"
proof -
  let ?s = "entry_or_default (users \<sigma>) u"
  from assms(2) have us: "us = (users \<sigma>)(u \<mapsto> ?s)" and "\<not> is_idle ?s"
    by (auto simp: acquire_request_def is_idle_def Let_def split: if_splits option.splits)
  then show ?thesis
    using inv_user [OF assms(1), of u]
    by (intro lifecycle_inv_step [OF assms(1), of _ u]) (auto simp: user_frame us dest: update_not_idle [OF assms(1)])
qed

lemma session_pinned_inv:
  assumes "lifecycle_inv \<sigma>"
  shows "lifecycle_inv (\<sigma>\<lparr>users := pin_browser_session (users \<sigma>) u sid\<rparr>)"
proof -
  let ?s = "entry_or_default (users \<sigma>) u"
  let ?s' = "?s\<lparr>browser_sessions := insert sid (browser_sessions ?s)\<rparr>"
  have "\<not> is_idle ?s'" by (rule not_idle_intros(4) [of sid]) simp
  then show ?thesis
    using inv_user [OF assms, of u]
    by (intro lifecycle_inv_step [OF assms, of _ u])
      (auto simp: user_frame pin_browser_session_def dest: update_not_idle [OF assms])
qed

lemma session_unpinned_inv:
  assumes "lifecycle_inv \<sigma>" and "unpin_browser_session close_ok (users \<sigma>) u sid = (r, us, notified)"
  shows "lifecycle_inv (\<sigma>\<lparr>users := us\<rparr>)"
proof (cases "users \<sigma> u")
  case None
  with assms(2) have "us = users \<sigma>" by (simp add: unpin_browser_session_def)
  with assms(1) show ?thesis by simp
next
  case (Some s0)
  with assms(2) have us: "us = remove_if_idle (users \<sigma>) u (s0\<lparr>browser_sessions := browser_sessions s0 - {sid}\<rparr>)"
    by (auto simp: unpin_browser_session_def Let_def split: if_splits)
  then show ?thesis
    using inv_user [OF assms(1), of u] Some
    by (intro lifecycle_inv_step [OF assms(1), of _ u])
      (auto simp: user_frame entry_Some dest: remove_not_idle [OF assms(1)])
qed

lemma sessions_cleared_inv:
  assumes "lifecycle_inv \<sigma>" and "u \<in># guards \<sigma>"
  shows "lifecycle_inv (\<sigma>\<lparr>users := clear_browser_sessions (users \<sigma>) u\<rparr>)"
proof (cases "users \<sigma> u")
  case None
  with assms show ?thesis by (simp add: clear_browser_sessions_def)
next
  case (Some s0)
  have "count (guards \<sigma>) u \<noteq> 0" using assms(2) by simp
  with inv_user [OF assms(1), of u] Some have "exclusive_user s0"
    by (auto simp: user_ok_def owners_recorded_def entry_Some Let_def split: if_splits)
  then have "\<not> is_idle (s0\<lparr>browser_sessions := {}\<rparr>)" by (simp add: is_idle_def)
  then show ?thesis
    using inv_user [OF assms(1), of u] Some
    by (intro lifecycle_inv_step [OF assms(1), of _ u])
      (auto simp: user_frame clear_browser_sessions_def entry_Some dest: update_not_idle [OF assms(1)])
qed

lemma begin_shutdown_inv:
  assumes "lifecycle_inv \<sigma>" and "shutdown_begin (users \<sigma>) u c = Some us"
  shows "lifecycle_inv (\<sigma>\<lparr>users := us, shutdowns := add_mset (u, c) (shutdowns \<sigma>)\<rparr>)"
proof -
  let ?s = "entry_or_default (users \<sigma>) u"
  let ?s' = "?s\<lparr>blocked_capabilities := insert c (blocked_capabilities ?s)\<rparr>"
  from assms(2) have s: "\<not> exclusive_user ?s" "c \<notin> blocked_capabilities ?s" and us: "us = (users \<sigma>)(u \<mapsto> ?s')"
    by (auto simp: shutdown_begin_def Let_def split: if_splits)
  have u: "owners_recorded ?s (draining \<sigma>) (guards \<sigma>) (shutdowns \<sigma>) (quiesced \<sigma>) u"
    using inv_user [OF assms(1), of u] by (simp add: user_ok_def Let_def)
  have "owners_recorded ?s' (draining \<sigma>) (guards \<sigma>) (add_mset (u, c) (shutdowns \<sigma>)) (quiesced \<sigma>) u"
    using u s owners_unblocked [OF u] by (auto simp: owners_recorded_def)
  moreover have "\<not> is_idle ?s'" by (simp add: is_idle_def)
  ultimately show ?thesis
    using inv_user [OF assms(1), of u]
    by (intro lifecycle_inv_step [OF assms(1), of _ u]) (auto simp: user_frame us dest: update_not_idle [OF assms(1)])
qed

lemma shutdown_waited_inv:
  assumes "lifecycle_inv \<sigma>" and "(u, c) \<in># shutdowns \<sigma>" and "capability_drained (users \<sigma>) u c"
  shows "lifecycle_inv (\<sigma>\<lparr>shutdowns := shutdowns \<sigma> - {#(u, c)#}, quiesced := add_mset (u, c) (quiesced \<sigma>)\<rparr>)"
proof -
  let ?s = "entry_or_default (users \<sigma>) u"
  have u: "requests_recorded ?s (leases \<sigma>) u" "owners_recorded ?s (draining \<sigma>) (guards \<sigma>) (shutdowns \<sigma>) (quiesced \<sigma>) u"
    using inv_user [OF assms(1), of u] by (simp_all add: user_ok_def Let_def)
  have free: "active_by_capability ?s c = None"
    using assms(3) u(1)
    by (auto simp: capability_drained_def entry_or_default_def requests_recorded_def split: option.splits if_splits)
  have "0 < count (shutdowns \<sigma>) (u, c)" using assms(2) by simp
  then have "count (shutdowns \<sigma> - {#(u, c)#}) (u, d) + count (add_mset (u, c) (quiesced \<sigma>)) (u, d) =
      count (shutdowns \<sigma>) (u, d) + count (quiesced \<sigma>) (u, d)" for d by auto
  then have "owners_recorded ?s (draining \<sigma>) (guards \<sigma>) (shutdowns \<sigma> - {#(u, c)#}) (add_mset (u, c) (quiesced \<sigma>)) u"
    using u(2) free by (auto simp: owners_recorded_def)
  then show ?thesis
    using u(1)
    by (intro lifecycle_inv_step [OF assms(1), of _ u]) (auto simp: user_frame dest: inv_not_idle [OF assms(1)])
qed

lemma lease_dropped_inv:
  assumes "lifecycle_inv \<sigma>" and "l \<in># leases \<sigma>" and "drop_request_lease (users \<sigma>) l = (us, closed, notified)"
  shows "lifecycle_inv (\<sigma>\<lparr>users := us, leases := leases \<sigma> - {#l#}\<rparr>)"
proof -
  define u where "u = lease_user l"
  let ?s = "entry_or_default (users \<sigma>) u"
  define s' where "s' = ?s\<lparr>active_requests := active_requests ?s - 1,
                     active_by_capability := release_capability (active_by_capability ?s) (lease_capability l)\<rparr>"
  have u: "requests_recorded ?s (leases \<sigma>) u" "owners_recorded ?s (draining \<sigma>) (guards \<sigma>) (shutdowns \<sigma>) (quiesced \<sigma>) u"
    using inv_user [OF assms(1), of u] by (simp_all add: user_ok_def Let_def)
  have l: "l \<in># filter_mset (\<lambda>l. lease_user l = u) (leases \<sigma>)" using assms(2) by (simp add: u_def)
  then have "active_requests ?s \<noteq> 0" using u(1) by (auto simp: requests_recorded_def)
  then obtain s0 where s0: "users \<sigma> u = Some s0" by (cases "users \<sigma> u") (simp_all add: entry_or_default_def)
  with assms(3) have us: "us = remove_if_idle (users \<sigma>) u s'"
    by (auto simp: drop_request_lease_def s'_def u_def entry_Some Let_def)
  have "requests_recorded s' (leases \<sigma> - {#l#}) u"
  proof -
    have "size (filter_mset (\<lambda>l. lease_user l = u) (leases \<sigma> - {#l#})) = active_requests ?s - 1"
      using u(1) l by (simp add: requests_recorded_def size_Diff_singleton u_def)
    moreover have "release_capability (active_by_capability ?s) (lease_capability l) c =
        (if count (leases \<sigma> - {#l#}) (capability_lease u c) = 0 then None
         else Some (count (leases \<sigma> - {#l#}) (capability_lease u c)))" for c
    proof (cases "lease_capability l")
      case None
      then have "l \<noteq> capability_lease u c" by (auto simp: capability_lease_def)
      with None u(1) show ?thesis by (simp add: requests_recorded_def release_capability_def)
    next
      case (Some d)
      then have ld: "l = capability_lease u d" by (simp add: capability_lease_def u_def)
      have "count (leases \<sigma>) l \<noteq> 0" using assms(2) by simp
      with Some u(1) show ?thesis
        by (cases "c = d") (auto simp: requests_recorded_def release_capability_def ld capability_lease_def)
    qed
    ultimately show ?thesis by (simp add: requests_recorded_def s'_def)
  qed
  moreover have "owners_recorded s' (draining \<sigma>) (guards \<sigma>) (shutdowns \<sigma>) (quiesced \<sigma>) u"
    using u(2) by (auto simp: owners_recorded_def s'_def release_capability_def split: option.splits)
  ultimately show ?thesis
    by (intro lifecycle_inv_step [OF assms(1), of _ u])
      (auto simp: user_frame us u_def dest: remove_not_idle [OF assms(1)])
qed

lemma guard_dropped_inv:
  assumes "lifecycle_inv \<sigma>" and "u \<in># guards \<sigma>"
  shows "lifecycle_inv (\<sigma>\<lparr>users := drop_lifecycle_guard (users \<sigma>) u, guards := guards \<sigma> - {#u#}\<rparr>)"
proof -
  let ?s = "entry_or_default (users \<sigma>) u"
  have u: "owners_recorded ?s (draining \<sigma>) (guards \<sigma>) (shutdowns \<sigma>) (quiesced \<sigma>) u"
    using inv_user [OF assms(1), of u] by (simp add: user_ok_def Let_def)
  have pos: "0 < count (guards \<sigma>) u" using assms(2) by simp
  have sum: "count (draining \<sigma>) u + count (guards \<sigma>) u = (if exclusive_user ?s then 1 else 0)"
    and free: "exclusive_user ?s \<longrightarrow> blocked_capabilities ?s = {}"
    using u unfolding owners_recorded_def by blast+
  have "exclusive_user ?s \<and> count (guards \<sigma>) u = 1 \<and> count (draining \<sigma>) u = 0"
    by (rule sum_flag_cases [OF sum pos])
  with free have one: "exclusive_user ?s" "count (guards \<sigma>) u = 1" "count (draining \<sigma>) u = 0" "blocked_capabilities ?s = {}"
    by blast+
  then obtain s0 where s0: "users \<sigma> u = Some s0" by (cases "users \<sigma> u") (simp_all add: entry_or_default_def)
  have us: "drop_lifecycle_guard (users \<sigma>) u = remove_if_idle (users \<sigma>) u (?s\<lparr>exclusive_user := False\<rparr>)"
    using s0 by (simp add: drop_lifecycle_guard_def entry_Some)
  have "owners_recorded (?s\<lparr>exclusive_user := False\<rparr>) (draining \<sigma>) (guards \<sigma> - {#u#}) (shutdowns \<sigma>) (quiesced \<sigma>) u"
    using u one by (auto simp: owners_recorded_def in_diff_count)
  then show ?thesis
    using inv_user [OF assms(1), of u]
    by (intro lifecycle_inv_step [OF assms(1), of _ u]) (auto simp: user_frame us dest: remove_not_idle [OF assms(1)])
qed

lemma shutdown_guard_dropped_inv:
  assumes "lifecycle_inv \<sigma>"
    and "((u, c) \<in># shutdowns \<sigma> \<and> S = shutdowns \<sigma> - {#(u, c)#} \<and> Q = quiesced \<sigma>) \<or>
      ((u, c) \<in># quiesced \<sigma> \<and> S = shutdowns \<sigma> \<and> Q = quiesced \<sigma> - {#(u, c)#})"
  shows "lifecycle_inv (\<sigma>\<lparr>users := drop_shutdown_guard (users \<sigma>) u c, shutdowns := S, quiesced := Q\<rparr>)"
proof -
  let ?s = "entry_or_default (users \<sigma>) u"
  let ?s' = "?s\<lparr>blocked_capabilities := blocked_capabilities ?s - {c}\<rparr>"
  have u: "owners_recorded ?s (draining \<sigma>) (guards \<sigma>) (shutdowns \<sigma>) (quiesced \<sigma>) u"
    using inv_user [OF assms(1), of u] by (simp add: user_ok_def Let_def)
  have blocked: "c \<in> blocked_capabilities ?s" using owners_unblocked [OF u, of c] assms(2) by blast
  then obtain s0 where s0: "users \<sigma> u = Some s0" by (cases "users \<sigma> u") (simp_all add: entry_or_default_def)
  have us: "drop_shutdown_guard (users \<sigma>) u c = remove_if_idle (users \<sigma>) u ?s'"
    using s0 by (simp add: drop_shutdown_guard_def entry_Some)
  have one: "count (shutdowns \<sigma>) (u, c) + count (quiesced \<sigma>) (u, c) = 1"
    using u blocked by (simp add: owners_recorded_def)
  have gone: "count S (u, c) = 0" "count Q (u, c) = 0"
  proof -
    have "count S (u, c) + count Q (u, c) = count (shutdowns \<sigma>) (u, c) + count (quiesced \<sigma>) (u, c) - 1"
      using assms(2) count_greater_zero_iff [of "shutdowns \<sigma>" "(u, c)"] count_greater_zero_iff [of "quiesced \<sigma>" "(u, c)"]
      by (elim disjE conjE) (simp_all only: count_diff count_single, simp_all)
    with one show "count S (u, c) = 0" "count Q (u, c) = 0" by linarith+
  qed
  have others: "count S (u, d) = count (shutdowns \<sigma>) (u, d)" "count Q (u, d) = count (quiesced \<sigma>) (u, d)" if "d \<noteq> c" for d
    using that assms(2) by auto
  have sub: "(u, d) \<in># quiesced \<sigma>" if "(u, d) \<in># Q" for d
    using that assms(2) by (auto dest: in_diffD)
  have "count S (u, d) + count Q (u, d) = (if d \<in> blocked_capabilities ?s' then 1 else 0)" for d
    using u gone others [of d] by (cases "d = c") (simp_all add: owners_recorded_def)
  then have "owners_recorded ?s' (draining \<sigma>) (guards \<sigma>) S Q u"
    using u sub by (auto simp: owners_recorded_def)
  moreover have "owners_recorded s D G S Q v = owners_recorded s D G (shutdowns \<sigma>) (quiesced \<sigma>) v" if "v \<noteq> u" for s D G v
    using assms(2) that owners_recorded_other [of v u] by auto
  ultimately show ?thesis
    using inv_user [OF assms(1), of u]
    by (intro lifecycle_inv_step [OF assms(1), of _ u]) (auto simp: user_frame us dest: remove_not_idle [OF assms(1)])
qed

lemma lifecycle_step_inv:
  assumes "lifecycle_step \<sigma> notified closed \<tau>" and "lifecycle_inv \<sigma>"
  shows "lifecycle_inv \<tau>"
  using assms
proof cases
  case (shutdown_dropped u c)
  then show ?thesis using shutdown_guard_dropped_inv [OF assms(2), of u c _ "quiesced \<sigma>"] by simp
next
  case (quiesced_dropped u c)
  then show ?thesis using shutdown_guard_dropped_inv [OF assms(2), of u c "shutdowns \<sigma>"] by simp
qed (simp_all add: assms(2) begin_exclusive_inv exclusive_granted_inv request_granted_inv request_refused_inv
    session_pinned_inv session_unpinned_inv sessions_cleared_inv begin_shutdown_inv shutdown_waited_inv
    lease_dropped_inv guard_dropped_inv)

interpretation lifecycle: state_machine lifecycle_init lifecycle_moves lifecycle_inv
  by unfold_locales (auto simp: lifecycle_moves_def intro: lifecycle_inv_init lifecycle_step_inv)

subsection \<open>What the invariant gives\<close>

lemma inv_requests: "lifecycle_inv \<sigma> \<Longrightarrow> requests_recorded (entry_or_default (users \<sigma>) u) (leases \<sigma>) u"
  and inv_owners: "lifecycle_inv \<sigma> \<Longrightarrow>
    owners_recorded (entry_or_default (users \<sigma>) u) (draining \<sigma>) (guards \<sigma>) (shutdowns \<sigma>) (quiesced \<sigma>) u"
  using inv_user [of \<sigma> u] by (simp_all add: user_ok_def Let_def)

lemma guard_exclusive:
  assumes "lifecycle_inv \<sigma>" and "u \<in># guards \<sigma>"
  shows "exclusive_user (entry_or_default (users \<sigma>) u) \<and> count (guards \<sigma>) u = 1 \<and> u \<notin># draining \<sigma>"
proof -
  note u = inv_owners [OF assms(1), of u]
  have pos: "0 < count (guards \<sigma>) u" using assms(2) by simp
  have sum: "count (draining \<sigma>) u + count (guards \<sigma>) u = (if exclusive_user (entry_or_default (users \<sigma>) u) then 1 else 0)"
    using u unfolding owners_recorded_def by blast
  from sum_flag_cases [OF sum pos] show ?thesis by simp
qed

lemma no_requests_no_leases:
  "lifecycle_inv \<sigma> \<Longrightarrow> active_requests (entry_or_default (users \<sigma>) u) = 0 \<Longrightarrow> l \<in># leases \<sigma> \<Longrightarrow> lease_user l \<noteq> u"
  using inv_requests [of \<sigma> u] by (auto simp: requests_recorded_def)

lemma exclusive_refuses: "exclusive_user (entry_or_default us u) \<Longrightarrow> snd (acquire_request us u cap) = None"
  by (simp add: acquire_request_def Let_def)

text \<open>
  C4. Mutual exclusion. While an exclusive operation holds its guard on a user, no request of that user is in flight, no
  request is admitted, nobody else holds the user or has marked it, and no capability of the user is being shut down.
\<close>

theorem lifecycle_guard_excludes:
  assumes "lifecycle_init \<sigma>\<^sub>0" and "lifecycle_moves\<^sup>*\<^sup>* \<sigma>\<^sub>0 \<sigma>" and "u \<in># guards \<sigma>"
  shows "(\<forall>l \<in># leases \<sigma>. lease_user l \<noteq> u) \<and> snd (acquire_request (users \<sigma>) u cap) = None \<and>
    count (guards \<sigma>) u = 1 \<and> u \<notin># draining \<sigma> \<and> (u, c) \<notin># shutdowns \<sigma> \<and> (u, c) \<notin># quiesced \<sigma>"
proof -
  have inv: "lifecycle_inv \<sigma>" using assms(1,2) by (rule lifecycle.reachable_inv)
  note u = inv_owners [OF inv, of u] and ex = guard_exclusive [OF inv assms(3)]
  from u ex assms(3) have "active_requests (entry_or_default (users \<sigma>) u) = 0"
    and "c \<notin> blocked_capabilities (entry_or_default (users \<sigma>) u)" by (auto simp: owners_recorded_def)
  with ex owners_unblocked [OF u] no_requests_no_leases [OF inv] exclusive_refuses show ?thesis by blast
qed

text \<open>
  C5. Shutting a capability down. Once its shutdown has waited for the running requests, no request of the capability is in
  flight and none is admitted, for as long as the guard is held; other capabilities and sessions of the user go on.
\<close>

theorem lifecycle_shutdown_quiesces:
  assumes "lifecycle_init \<sigma>\<^sub>0" and "lifecycle_moves\<^sup>*\<^sup>* \<sigma>\<^sub>0 \<sigma>" and "(u, c) \<in># quiesced \<sigma>"
  shows "capability_lease u c \<notin># leases \<sigma> \<and> snd (acquire_request (users \<sigma>) u (Some c)) = None \<and>
    u \<notin># guards \<sigma> \<and> u \<notin># draining \<sigma>"
proof -
  have inv: "lifecycle_inv \<sigma>" using assms(1,2) by (rule lifecycle.reachable_inv)
  let ?s = "entry_or_default (users \<sigma>) u"
  note u = inv_owners [OF inv, of u]
  have blocked: "c \<in> blocked_capabilities ?s" using owners_unblocked [OF u, of c] assms(3) by blast
  have free: "active_by_capability ?s c = None" and "\<not> exclusive_user ?s"
    using u assms(3) blocked by (auto simp: owners_recorded_def)
  then have "u \<notin># guards \<sigma> \<and> u \<notin># draining \<sigma>" using u by (simp add: owners_recorded_def)
  moreover have "capability_lease u c \<notin># leases \<sigma>"
    using inv_requests [OF inv, of u] free by (auto simp: requests_recorded_def split: if_splits)
  moreover have "snd (acquire_request (users \<sigma>) u (Some c)) = None"
    using blocked by (simp add: acquire_request_def Let_def)
  ultimately show ?thesis by blast
qed

text \<open>
  C6. The registry is exact. The request counter of a user is the number of its live leases, the counter of a capability the
  number of that capability's, and a user is in the registry exactly while something of it is alive: a lease, an exclusive
  owner, a shutdown or a pinned browser session.
\<close>

theorem lifecycle_registry_exact:
  assumes "lifecycle_init \<sigma>\<^sub>0" and "lifecycle_moves\<^sup>*\<^sup>* \<sigma>\<^sub>0 \<sigma>"
  shows "active_requests (entry_or_default (users \<sigma>) u) = size (filter_mset (\<lambda>l. lease_user l = u) (leases \<sigma>)) \<and>
    (case active_by_capability (entry_or_default (users \<sigma>) u) c of None \<Rightarrow> 0 | Some n \<Rightarrow> n) =
      count (leases \<sigma>) (capability_lease u c) \<and>
    (users \<sigma> u \<noteq> None \<longleftrightarrow>
       (\<exists>l. l \<in># leases \<sigma> \<and> lease_user l = u) \<or> u \<in># draining \<sigma> + guards \<sigma> \<or>
       (\<exists>d. (u, d) \<in># shutdowns \<sigma> + quiesced \<sigma>) \<or> browser_sessions (entry_or_default (users \<sigma>) u) \<noteq> {})"
proof -
  have inv: "lifecycle_inv \<sigma>" using assms by (rule lifecycle.reachable_inv)
  let ?s = "entry_or_default (users \<sigma>) u"
  have r: "active_requests ?s = size (filter_mset (\<lambda>l. lease_user l = u) (leases \<sigma>))"
    and caps: "\<And>c. active_by_capability ?s c =
       (if count (leases \<sigma>) (capability_lease u c) = 0 then None else Some (count (leases \<sigma>) (capability_lease u c)))"
    using inv_requests [OF inv, of u] unfolding requests_recorded_def by blast+
  have ex: "exclusive_user ?s \<longleftrightarrow> u \<in># draining \<sigma> + guards \<sigma>"
    using inv_owners [OF inv, of u] by (simp add: owners_recorded_def flag_count)
  have bl: "d \<in> blocked_capabilities ?s \<longleftrightarrow> (u, d) \<in># shutdowns \<sigma> + quiesced \<sigma>" for d
    using inv_owners [OF inv, of u] by (simp add: owners_recorded_def flag_count)
  have "users \<sigma> u \<noteq> None \<longleftrightarrow> \<not> is_idle ?s"
    using inv_not_idle [OF inv] by (cases "users \<sigma> u") (auto simp: entry_or_default_def is_idle_iff)
  also have "\<dots> \<longleftrightarrow> (\<exists>l. l \<in># leases \<sigma> \<and> lease_user l = u) \<or> u \<in># draining \<sigma> + guards \<sigma> \<or>
       (\<exists>d. (u, d) \<in># shutdowns \<sigma> + quiesced \<sigma>) \<or> browser_sessions ?s \<noteq> {}"
  proof -
    have "active_by_capability ?s = Map.empty" if "active_requests ?s = 0"
      using no_requests_no_leases [OF inv that, of "capability_lease u _"] caps by (intro ext) auto
    moreover have "active_requests ?s \<noteq> 0 \<longleftrightarrow> (\<exists>l. l \<in># leases \<sigma> \<and> lease_user l = u)" by (auto simp: r)
    ultimately show ?thesis using ex bl by (auto simp: is_idle_def)
  qed
  finally show ?thesis using r caps by simp
qed

text \<open>
  Closing a user's database. Whenever a step closes it, no request of the user is left in flight and no browser
  session of the user is pinned.
\<close>

theorem lifecycle_close_unused:
  assumes "lifecycle_init \<sigma>\<^sub>0" and "lifecycle_moves\<^sup>*\<^sup>* \<sigma>\<^sub>0 \<sigma>" and "lifecycle_step \<sigma> notified (Some u) \<tau>"
  shows "(\<forall>l \<in># leases \<tau>. lease_user l \<noteq> u) \<and> browser_sessions (entry_or_default (users \<tau>) u) = {}"
proof -
  have inv: "lifecycle_inv \<tau>" using lifecycle_step_inv [OF assms(3)] lifecycle.reachable_inv [OF assms(1,2)] .
  have "active_requests (entry_or_default (users \<tau>) u) = 0 \<and> browser_sessions (entry_or_default (users \<tau>) u) = {}"
    using assms(3)
  proof cases
    case (session_unpinned close_ok v sid r us)
    then show ?thesis
      by (auto simp: unpin_browser_session_def Let_def split: option.splits if_splits)
  next
    case (lease_dropped l us closed)
    then show ?thesis
      by (auto simp: drop_request_lease_def Let_def split: option.splits if_splits)
  qed
  with no_requests_no_leases [OF inv] show ?thesis by blast
qed

subsection \<open>Waiting\<close>

text \<open>The conditions threads wait for on the condition variable.\<close>

datatype WaitCondition = CanBeginExclusive UserId | Drained UserId | CanBeginShutdown UserId CapabilityId
  | CapabilityDrained UserId CapabilityId

fun wait_over :: "Users \<Rightarrow> WaitCondition \<Rightarrow> bool" where
  "wait_over us (CanBeginExclusive u) = (exclusive_begin us u \<noteq> None)"
| "wait_over us (Drained u) = exclusive_drained us u"
| "wait_over us (CanBeginShutdown u c) = (shutdown_begin us u c \<noteq> None)"
| "wait_over us (CapabilityDrained u c) = capability_drained us u c"

lemma drained_entry:
  "exclusive_drained us u = (active_requests (entry_or_default us u) = 0)"
  "capability_drained us u c =
     ((case active_by_capability (entry_or_default us u) c of None \<Rightarrow> 0 | Some n \<Rightarrow> n) = (0 :: nat))"
  by (simp_all add: exclusive_drained_def capability_drained_def entry_or_default_def split: option.split)

definition wait_fields :: "UserLifecycleState \<Rightarrow> bool \<times> CapabilityId set \<times> nat \<times> (CapabilityId \<rightharpoonup> nat)" where
  "wait_fields s = (exclusive_user s, blocked_capabilities s, active_requests s, active_by_capability s)"

lemma wait_over_cong:
  "(\<And>u. wait_fields (entry_or_default us u) = wait_fields (entry_or_default vs u)) \<Longrightarrow> wait_over us w = wait_over vs w"
  by (cases w) (simp_all add: wait_fields_def drained_entry exclusive_begin_def shutdown_begin_def Let_def)

lemma wait_fields_sessions [simp]: "wait_fields (s\<lparr>browser_sessions := B\<rparr>) = wait_fields s"
  by (simp add: wait_fields_def)

lemma acquire_request_keeps_waiting:
  assumes "acquire_request us u cap = (vs, r)" and "wait_over vs w"
  shows "wait_over us w"
proof -
  let ?s = "entry_or_default us u"
  from assms(1) have "exclusive_user (entry_or_default vs v) = exclusive_user (entry_or_default us v)"
    "blocked_capabilities (entry_or_default vs v) = blocked_capabilities (entry_or_default us v)"
    "active_requests (entry_or_default us v) \<le> active_requests (entry_or_default vs v)"
    "(case active_by_capability (entry_or_default us v) c of None \<Rightarrow> 0 | Some n \<Rightarrow> n) \<le>
       (case active_by_capability (entry_or_default vs v) c of None \<Rightarrow> 0 | Some n \<Rightarrow> n)" for v c
    by (auto simp: acquire_request_def Let_def split: if_splits option.splits)
  note keeps = this
  show ?thesis
  proof (cases w)
    case (Drained u)
    with assms(2) keeps(3) [of u] show ?thesis by (simp add: drained_entry)
  next
    case (CapabilityDrained u c)
    with assms(2) keeps(4) [of u c] show ?thesis by (simp add: drained_entry)
  qed (use assms(2) in \<open>auto simp: keeps(1,2) exclusive_begin_def shutdown_begin_def Let_def split: if_splits\<close>)
qed

text \<open>
  C7. No missed wake-up. A step after which a thread that was waiting could go on notifies the condition variable, so every
  waiter re-checks its condition whenever it may have come true.
\<close>

theorem lifecycle_no_missed_wakeup:
  assumes "lifecycle_step \<sigma> notified closed \<tau>" and "\<not> wait_over (users \<sigma>) w" and "wait_over (users \<tau>) w"
  shows "notified"
proof (rule ccontr)
  assume n: "\<not> notified"
  have same: "wait_over (users \<tau>) w = wait_over (users \<sigma>) w"
    if "\<And>v. wait_fields (entry_or_default (users \<tau>) v) = wait_fields (entry_or_default (users \<sigma>) v)"
    using that by (rule wait_over_cong)
  from assms(1) have "wait_over (users \<sigma>) w"
  proof cases
    case (request_granted u cap us l)
    with assms(3) show ?thesis using acquire_request_keeps_waiting by simp
  next
    case (request_refused u cap us)
    with assms(3) show ?thesis using acquire_request_keeps_waiting by simp
  next
    case (session_pinned u sid)
    then show ?thesis using assms(3) same by (simp add: pin_browser_session_def Let_def)
  next
    case (session_unpinned close_ok u sid r us)
    with n have "wait_fields (entry_or_default us v) = wait_fields (entry_or_default (users \<sigma>) v)" for v
      by (auto simp: unpin_browser_session_def Let_def entry_Some split: option.splits if_splits)
    with session_unpinned assms(3) same show ?thesis by simp
  next
    case (sessions_cleared u)
    then show ?thesis
      using assms(3) same by (cases "users \<sigma> u") (simp_all add: clear_browser_sessions_def entry_Some)
  next
    case (lease_dropped l us closed)
    with n assms(3) show ?thesis by (auto simp: drop_request_lease_def Let_def split: option.splits)
  qed (use n assms(3) in simp_all)
  with assms(2) show False by contradiction
qed

lemma draining_exclusive: "lifecycle_inv \<sigma> \<Longrightarrow> u \<in># draining \<sigma> \<Longrightarrow> exclusive_user (entry_or_default (users \<sigma>) u)"
  using inv_owners [of \<sigma> u] by (auto simp: owners_recorded_def dest: flag_count)

lemma drop_lease_move:
  assumes "l \<in># leases \<sigma>"
  obtains us where "lifecycle_moves \<sigma> (\<sigma>\<lparr>users := us, leases := leases \<sigma> - {#l#}\<rparr>)"
proof (cases "drop_request_lease (users \<sigma>) l")
  case (fields us closed notified)
  from lifecycle_step.lease_dropped [OF assms fields] that show thesis by (auto simp: lifecycle_moves_def)
qed

lemma draining_ends:
  assumes "lifecycle_inv \<sigma>" and "u \<in># draining \<sigma>"
  shows "\<exists>\<tau>. lifecycle_moves\<^sup>*\<^sup>* \<sigma> \<tau> \<and> u \<in># guards \<tau>"
  using assms
proof (induction "size (filter_mset (\<lambda>l. lease_user l = u) (leases \<sigma>))" arbitrary: \<sigma>)
  case 0
  then have "exclusive_drained (users \<sigma>) u" using inv_requests [of \<sigma> u] by (simp add: drained_entry requests_recorded_def)
  from lifecycle_step.exclusive_granted [OF 0(3) this]
  have "lifecycle_moves \<sigma> (\<sigma>\<lparr>draining := draining \<sigma> - {#u#}, guards := add_mset u (guards \<sigma>)\<rparr>)"
    by (auto simp: lifecycle_moves_def)
  then show ?case by (intro exI conjI, rule r_into_rtranclp) simp_all
next
  case (Suc n)
  have "filter_mset (\<lambda>l. lease_user l = u) (leases \<sigma>) \<noteq> {#}" using Suc.hyps(2) by (metis Zero_not_Suc size_empty)
  then obtain l where "l \<in># filter_mset (\<lambda>l. lease_user l = u) (leases \<sigma>)" by (rule multiset_nonemptyE)
  then have l: "l \<in># leases \<sigma>" "lease_user l = u" by simp_all
  obtain us where move: "lifecycle_moves \<sigma> (\<sigma>\<lparr>users := us, leases := leases \<sigma> - {#l#}\<rparr>)"
    using l(1) by (rule drop_lease_move)
  have "n = size (filter_mset (\<lambda>l. lease_user l = u) (leases (\<sigma>\<lparr>users := us, leases := leases \<sigma> - {#l#}\<rparr>)))"
    using Suc.hyps(2) l by (simp add: size_Diff_singleton)
  from Suc.hyps(1) [OF this] Suc.prems(2) lifecycle.step_inv [OF Suc.prems(1) move]
  obtain \<tau> where "lifecycle_moves\<^sup>*\<^sup>* (\<sigma>\<lparr>users := us, leases := leases \<sigma> - {#l#}\<rparr>) \<tau>" "u \<in># guards \<tau>" by auto
  with move show ?case by (blast intro: converse_rtranclp_into_rtranclp)
qed

lemma exclusive_admits_none:
  assumes "lifecycle_step \<sigma> notified closed \<tau>" and "exclusive_user (entry_or_default (users \<sigma>) u)"
  shows "active_requests (entry_or_default (users \<tau>) u) \<le> active_requests (entry_or_default (users \<sigma>) u)"
  using assms(1)
proof cases
  case (request_granted v cap us l)
  then have "v \<noteq> u" using assms(2) exclusive_refuses [of "users \<sigma>" u cap] by auto
  with request_granted show ?thesis
    by (auto simp: acquire_request_def Let_def split: if_splits)
qed (auto simp: exclusive_begin_def acquire_request_def pin_browser_session_def unpin_browser_session_def shutdown_begin_def
    clear_browser_sessions_def drop_request_lease_def drop_lifecycle_guard_def drop_shutdown_guard_def entry_Some Let_def
    split: if_splits option.splits)

text \<open>
  C8. An exclusive operation makes progress. While it waits no step admits another request of the user, so the number of
  requests it waits for never grows; and from every reachable state the requests in flight can be returned and the
  operation then gets its guard.
\<close>

theorem lifecycle_exclusive_progress:
  assumes "lifecycle_init \<sigma>\<^sub>0" and "lifecycle_moves\<^sup>*\<^sup>* \<sigma>\<^sub>0 \<sigma>" and "u \<in># draining \<sigma>"
  shows "(\<exists>\<tau>. lifecycle_moves\<^sup>*\<^sup>* \<sigma> \<tau> \<and> u \<in># guards \<tau>) \<and>
    (\<forall>notified closed \<tau>. lifecycle_step \<sigma> notified closed \<tau> \<longrightarrow>
       active_requests (entry_or_default (users \<tau>) u) \<le> active_requests (entry_or_default (users \<sigma>) u))"
proof -
  have inv: "lifecycle_inv \<sigma>" using assms(1,2) by (rule lifecycle.reachable_inv)
  from draining_ends [OF inv assms(3)] exclusive_admits_none draining_exclusive [OF inv assms(3)]
  show ?thesis by blast
qed

subsection \<open>Witnesses\<close>

definition empty_system :: LifecycleSystem where
  "empty_system = \<lparr>users = Map.empty, leases = {#}, draining = {#}, guards = {#}, shutdowns = {#}, quiesced = {#},
    waiting_exclusive = {#}, waiting_shutdowns = {#}\<rparr>"

lemma empty_system_init: "lifecycle_init empty_system"
  by (simp add: empty_system_def lifecycle_init_def)

definition draining_system :: LifecycleSystem where
  "draining_system = empty_system\<lparr>users := [''u'' \<mapsto> default_lifecycle_state\<lparr>exclusive_user := True\<rparr>], draining := {#''u''#}\<rparr>"

definition guarded_system :: LifecycleSystem where
  "guarded_system = draining_system\<lparr>draining := {#}, guards := {#''u''#}\<rparr>"

lemma draining_system_reached: "lifecycle_moves\<^sup>*\<^sup>* empty_system draining_system"
proof (rule r_into_rtranclp)
  have "exclusive_begin (users empty_system) ''u'' = Some (users draining_system)"
    by (simp add: exclusive_begin_def empty_system_def draining_system_def entry_or_default_def Let_def)
  from lifecycle_step.begin_exclusive [OF this] show "lifecycle_moves empty_system draining_system"
    by (auto simp: lifecycle_moves_def draining_system_def empty_system_def)
qed

lemma guarded_system_reached: "lifecycle_moves\<^sup>*\<^sup>* empty_system guarded_system"
proof (rule rtranclp.rtrancl_into_rtrancl [OF draining_system_reached])
  have "exclusive_drained (users draining_system) ''u''"
    by (simp add: exclusive_drained_def draining_system_def)
  moreover have "''u'' \<in># draining draining_system" by (simp add: draining_system_def)
  ultimately show "lifecycle_moves draining_system guarded_system"
    using lifecycle_step.exclusive_granted [of "''u''" draining_system]
    by (auto simp: lifecycle_moves_def draining_system_def guarded_system_def empty_system_def)
qed

theorem lifecycle_guard_excludes_witness:
  "''u'' \<in># guards guarded_system \<and> snd (acquire_request (users guarded_system) ''u'' None) = None"
proof -
  have g: "''u'' \<in># guards guarded_system" by (simp add: guarded_system_def)
  from lifecycle_guard_excludes [OF empty_system_init guarded_system_reached g] g show ?thesis by blast
qed

theorem lifecycle_exclusive_progress_witness:
  "\<exists>\<tau>. lifecycle_moves\<^sup>*\<^sup>* draining_system \<tau> \<and> ''u'' \<in># guards \<tau>"
proof -
  have "''u'' \<in># draining draining_system" by (simp add: draining_system_def)
  from lifecycle_exclusive_progress [OF empty_system_init draining_system_reached this] show ?thesis by blast
qed

theorem lifecycle_registry_exact_witness: "users draining_system ''u'' \<noteq> None \<and> ''u'' \<in># draining draining_system + guards draining_system"
  using lifecycle_registry_exact [OF empty_system_init draining_system_reached, of "''u''"]
  by (simp add: draining_system_def)

theorem lifecycle_no_missed_wakeup_witness:
  "\<exists>n c. lifecycle_step guarded_system n c (guarded_system\<lparr>users := drop_lifecycle_guard (users guarded_system) ''u'', guards := {#}\<rparr>) \<and> n"
proof -
  let ?t = "guarded_system\<lparr>users := drop_lifecycle_guard (users guarded_system) ''u'', guards := {#}\<rparr>"
  have "''u'' \<in># guards guarded_system" by (simp add: guarded_system_def)
  from lifecycle_step.guard_dropped [OF this] have step: "lifecycle_step guarded_system True None ?t"
    by (simp add: guarded_system_def)
  have "\<not> wait_over (users guarded_system) (CanBeginExclusive ''u'')"
    by (simp add: guarded_system_def draining_system_def exclusive_begin_def entry_or_default_def)
  moreover have "wait_over (users ?t) (CanBeginExclusive ''u'')"
    by (simp add: guarded_system_def draining_system_def exclusive_begin_def drop_lifecycle_guard_def entry_Some Let_def)
  ultimately show ?thesis using lifecycle_no_missed_wakeup [OF step] step by blast
qed

definition quiesced_system :: LifecycleSystem where
  "quiesced_system = empty_system\<lparr>users := [''u'' \<mapsto> default_lifecycle_state\<lparr>blocked_capabilities := {[7]}\<rparr>],
     quiesced := {#(''u'', [7])#}\<rparr>"

lemma quiesced_system_reached: "lifecycle_moves\<^sup>*\<^sup>* empty_system quiesced_system"
proof -
  define \<sigma> where "\<sigma> = quiesced_system\<lparr>quiesced := {#}, shutdowns := {#(''u'', [7])#}\<rparr>"
  have "shutdown_begin (users empty_system) ''u'' [7] = Some (users \<sigma>)"
    by (simp add: shutdown_begin_def empty_system_def quiesced_system_def \<sigma>_def entry_or_default_def Let_def)
  from lifecycle_step.begin_shutdown [OF this] have 1: "lifecycle_moves empty_system \<sigma>"
    by (auto simp: lifecycle_moves_def \<sigma>_def quiesced_system_def empty_system_def)
  have "capability_drained (users \<sigma>) ''u'' [7]" "(''u'', [7]) \<in># shutdowns \<sigma>"
    by (simp_all add: capability_drained_def quiesced_system_def \<sigma>_def)
  then have "lifecycle_moves \<sigma> quiesced_system"
    using lifecycle_step.shutdown_waited [of "''u''" "[7]" \<sigma>]
    by (auto simp: lifecycle_moves_def \<sigma>_def quiesced_system_def empty_system_def)
  with 1 show ?thesis by (blast intro: converse_rtranclp_into_rtranclp)
qed

theorem lifecycle_shutdown_quiesces_witness:
  "snd (acquire_request (users quiesced_system) ''u'' (Some [7])) = None \<and> ''u'' \<notin># guards quiesced_system"
proof -
  have "(''u'', [7]) \<in># quiesced quiesced_system" by (simp add: quiesced_system_def)
  from lifecycle_shutdown_quiesces [OF empty_system_init quiesced_system_reached this] show ?thesis by blast
qed

definition session_system :: LifecycleSystem where
  "session_system = empty_system\<lparr>users := [''u'' \<mapsto> default_lifecycle_state\<lparr>browser_sessions := {''s''}\<rparr>]\<rparr>"

theorem lifecycle_close_unused_witness:
  "\<exists>n. lifecycle_step session_system n (Some ''u'') empty_system \<and> browser_sessions (entry_or_default (users empty_system) ''u'') = {}"
proof -
  have "users session_system = pin_browser_session (users empty_system) ''u'' ''s''"
    by (simp add: session_system_def empty_system_def pin_browser_session_def entry_or_default_def default_lifecycle_state_def)
  then have "lifecycle_moves empty_system session_system"
    using lifecycle_step.session_pinned [of empty_system "''u''" "''s''"]
    by (auto simp: lifecycle_moves_def session_system_def empty_system_def)
  then have reach: "lifecycle_moves\<^sup>*\<^sup>* empty_system session_system" by (rule r_into_rtranclp)
  have "unpin_browser_session (\<lambda>u. True) (users session_system) ''u'' ''s'' = (Inr True, users empty_system, True)"
    by (simp add: session_system_def empty_system_def unpin_browser_session_def remove_if_idle_def is_idle_def Let_def
        default_lifecycle_state_def)
  from lifecycle_step.session_unpinned [OF this] have "lifecycle_step session_system True (Some ''u'') empty_system"
    by (simp add: session_system_def empty_system_def)
  with lifecycle_close_unused [OF empty_system_init reach this] show ?thesis by blast
qed

end
