(* ===== verification/Pairing.thy ===== *)
theory Pairing
  imports Lifecycle
begin

section \<open>Pairing a client with an account\<close>

text \<open>
  The pairing store of \<open>src/src/pairing.rs\<close>. A client starts a pairing and shows its code; a signed-in user reviews the
  code, then approves or denies it; the client claims the approved pairing with the key whose verifier it announced. A
  pairing lives ten minutes. Starts are limited per source and globally, and the store holds at most 1024 pairings.

  Every method locks the store, so it is a function on \<open>PairingState\<close>. The hash map of pending pairings is an association
  list with distinct keys, the hash set of verifier reservations a set, the queues of start times lists with the front
  first. Byte arrays are lists of bytes. The closures the handlers pass in (\<open>durable_verifier_exists\<close>, \<open>bind\<close>,
  \<open>activate\<close>), the random pairs, and the base64 and time formatting of other crates are arguments. A closure that takes
  or returns resources works on a world it is given. Zeroizing a string leaves the empty string. Slicing a string outside
  its bounds is a panic, the value \<^term>\<open>None\<close>.
\<close>

type_synonym ClientKeyVerifier = "u8 list"
type_synonym IpAddr = string
type_synonym Dek = "u8 list"

record PairingEnv =
  b64_encode :: "u8 list \<Rightarrow> string"
  b64_decode :: "string \<Rightarrow> u8 list option"
  expiry_text :: "time \<Rightarrow> string"

definition SECOND :: int where "SECOND = 1000000000"
definition PAIRING_LIFETIME :: int where "PAIRING_LIFETIME = 10 * 60 * SECOND"
definition SOURCE_WINDOW :: int where "SOURCE_WINDOW = 10 * 60 * SECOND"
definition GLOBAL_WINDOW :: int where "GLOBAL_WINDOW = 60 * SECOND"
definition MAX_PENDING_PAIRINGS :: nat where "MAX_PENDING_PAIRINGS = 1024"
definition MAX_SOURCE_STARTS :: nat where "MAX_SOURCE_STARTS = 10"
definition MAX_GLOBAL_STARTS :: nat where "MAX_GLOBAL_STARTS = 300"
definition CODE_ALPHABET :: string where "CODE_ALPHABET = ''0123456789ABCDEFGHJKMNPQRSTVWXYZ''"

datatype ClientPermission = BalancesRead

fun permission_as_str :: "ClientPermission \<Rightarrow> string" where
  "permission_as_str BalancesRead = ''balances_read''"

subsection \<open>Validating a start request\<close>

record PairingStartRequest =
  psr_client_name :: string
  psr_key_verifier :: string
  psr_permissions :: "string list"

record ValidatedPairingStart =
  vps_client_name :: string
  vps_key_verifier :: ClientKeyVerifier
  vps_permission :: ClientPermission

type_synonym FieldErrors = "(string \<times> string list) list"

fun field_errors_add :: "FieldErrors \<Rightarrow> string \<Rightarrow> string \<Rightarrow> FieldErrors" where
  "field_errors_add [] field message = [(field, [message])]"
| "field_errors_add ((f, ms) # es) field message =
     (if f = field then (f, ms @ [message]) # es else (f, ms) # field_errors_add es field message)"

text \<open>Scalar values of a UTF-8 string: the bytes that do not continue a character.\<close>

definition is_continuation :: "char \<Rightarrow> bool" where
  "is_continuation c \<longleftrightarrow> 128 \<le> (of_char c :: nat) \<and> (of_char c :: nat) < 192"

definition chars_count :: "string \<Rightarrow> nat" where
  "chars_count s = length (filter (\<lambda>c. \<not> is_continuation c) s)"

text \<open>The control characters are U+0000 to U+001F, U+007F, and U+0080 to U+009F, which are encoded C2 80 to C2 9F.\<close>

fun has_control :: "string \<Rightarrow> bool" where
  "has_control [] = False"
| "has_control (c # s) =
     ((of_char c :: nat) < 32 \<or> (of_char c :: nat) = 127 \<or>
      ((of_char c :: nat) = 194 \<and> (case s of [] \<Rightarrow> False | d # _ \<Rightarrow> 128 \<le> (of_char d :: nat) \<and> (of_char d :: nat) < 160)) \<or>
      has_control s)"

definition parse_verifier :: "PairingEnv \<Rightarrow> string \<Rightarrow> string + ClientKeyVerifier" where
  "parse_verifier env value =
     (if length value \<noteq> 43 then Inl ''Key verifier must be 43 characters''
      else res_bind (ok_or ''Key verifier must be canonical unpadded base64url'' (b64_decode env value)) (\<lambda>bytes.
        if length bytes \<noteq> 32 then Inl ''Key verifier must decode to 32 bytes''
        else if b64_encode env bytes \<noteq> value then Inl ''Key verifier must be canonical unpadded base64url''
        else Inr bytes))"

definition validate_start :: "PairingEnv \<Rightarrow> PairingStartRequest \<Rightarrow> FieldErrors + ValidatedPairingStart" where
  "validate_start env request =
     (let name = psr_client_name request;
          e0 = [];
          e1 = (if chars_count name = 0 \<or> chars_count name > 64 \<or> length name > 256
                then field_errors_add e0 ''client_name'' ''Client name must contain 1 to 64 characters and at most 256 UTF-8 bytes''
                else e0);
          e2 = (if str_trim name \<noteq> name
                then field_errors_add e1 ''client_name'' ''Client name must not have leading or trailing whitespace'' else e1);
          e3 = (if has_control name
                then field_errors_add e2 ''client_name'' ''Client name must not contain control characters'' else e2);
          verifier = parse_verifier env (psr_key_verifier request);
          e4 = (case verifier of Inr _ \<Rightarrow> e3 | Inl message \<Rightarrow> field_errors_add e3 ''key_verifier'' message);
          e5 = (if psr_permissions request \<noteq> [permission_as_str BalancesRead]
                then field_errors_add e4 ''permissions'' (''Permissions must be exactly ['' @ [CHR 0x22] @ ''balances_read'' @ [CHR 0x22] @ '']'') else e4)
      in if e5 \<noteq> [] then Inl e5
         else (case verifier of
                 Inl _ \<Rightarrow> Inl e5
               | Inr key_verifier \<Rightarrow>
                   Inr \<lparr>vps_client_name = name, vps_key_verifier = key_verifier, vps_permission = BalancesRead\<rparr>))"

subsection \<open>The state\<close>

record ApprovedPairing =
  ap_user_id :: UserId
  ap_dek :: "Dek option"
  ap_lease :: UserRequestLease
  ap_active_expires_at :: "time option"

record ApprovedPairingBinding =
  bd_user_id :: UserId
  bd_dek :: "Dek option"
  bd_lease :: UserRequestLease

record ClaimedPairing =
  cp_user_id :: UserId
  cp_permission :: ClientPermission

record ApprovedPairingClaim =
  cl_capability_id :: CapabilityId
  cl_user_id :: UserId
  cl_dek :: "Dek option"
  cl_client_name :: string
  cl_permission :: ClientPermission
  cl_active_expires_at :: "time option"

datatype PairingStatus = AwaitingApproval | Approved ApprovedPairing | Denied | Completed ClaimedPairing

datatype PairingClaimError = ClaimNotFound | ClaimUnauthorized | ClaimPending | ClaimDenied | ClaimActivation

datatype PairingTransitionError = TransitionNotFound | TransitionConflict | TransitionBinding

datatype PairingStartError = RateLimited int | CapacityFull int | VerifierConflict | StartDatabase | GenerationExhausted

record PendingPairingReview =
  rv_pairing_id :: string
  rv_code :: string
  rv_client_name :: string
  rv_permissions :: "string list"
  rv_expires_at :: string

record PendingPairing =
  pp_code :: string
  pp_client_name :: string
  pp_key_verifier :: ClientKeyVerifier
  pp_permission :: ClientPermission
  pp_expires_at :: time
  pp_status :: PairingStatus

record StartedPairing =
  st_capability_id :: CapabilityId
  st_code :: string
  st_expires_at :: time

record PairingState =
  pending :: "(CapabilityId \<times> PendingPairing) list"
  verifiers :: "ClientKeyVerifier set"
  source_starts :: "IpAddr \<rightharpoonup> time list"
  global_starts :: "time list"

definition pairing_store_new :: PairingState where
  "pairing_store_new = \<lparr>pending = [], verifiers = {}, source_starts = Map.empty, global_starts = []\<rparr>"

subsection \<open>Codes\<close>

definition encode_code :: "u8 list \<Rightarrow> string" where
  "encode_code bytes = map (\<lambda>byte. CODE_ALPHABET ! unat (and byte 31)) bytes"

definition format_code :: "string \<Rightarrow> string option" where
  "format_code code = (if is_char_boundary code 4 then Some (take 4 code @ ''-'' @ drop 4 code) else None)"

text \<open>The dash is at byte 4, so both slices of the source end at character boundaries.\<close>

definition parse_display_code :: "string \<Rightarrow> string option" where
  "parse_display_code value =
     (if length value \<noteq> 9 \<or> value ! 4 \<noteq> CHR ''-'' then None
      else let code = take 4 value @ drop 5 value in
        if length code = 8 \<and> list_all (\<lambda>byte. byte \<in> set CODE_ALPHABET) code then Some code else None)"

text \<open>\<open>num_seconds\<close> rounds towards zero; the maximum with 1 makes that the same as rounding down.\<close>

definition seconds_until :: "time \<Rightarrow> time \<Rightarrow> int" where
  "seconds_until deadline now = max 1 ((deadline - now) div SECOND)"

subsection \<open>Expiry and rate limits\<close>

definition remove_pending :: "CapabilityId \<Rightarrow> PairingState \<Rightarrow> PairingState" where
  "remove_pending i st =
     (case map_of (pending st) i of
        None \<Rightarrow> st
      | Some entry \<Rightarrow>
          st\<lparr>pending := filter (\<lambda>(j, _). j \<noteq> i) (pending st), verifiers := verifiers st - {pp_key_verifier entry}\<rparr>)"

definition remove_expired :: "time \<Rightarrow> PairingState \<Rightarrow> PairingState" where
  "remove_expired now st =
     fold remove_pending (map fst (filter (\<lambda>(_, entry). pp_expires_at entry \<le> now) (pending st))) st"

definition prune_starts :: "time \<Rightarrow> time list \<Rightarrow> time list" where
  "prune_starts cutoff starts = dropWhile (\<lambda>at. at \<le> cutoff) starts"

definition prune_rate_limits :: "time \<Rightarrow> PairingState \<Rightarrow> PairingState" where
  "prune_rate_limits now st =
     st\<lparr>source_starts := (\<lambda>ip. case source_starts st ip of
            None \<Rightarrow> None
          | Some starts \<Rightarrow> let kept = prune_starts (now - SOURCE_WINDOW) starts in if kept = [] then None else Some kept),
        global_starts := prune_starts (now - GLOBAL_WINDOW) (global_starts st)\<rparr>"

definition front :: "'a list \<Rightarrow> 'a option" where
  "front xs = (case xs of [] \<Rightarrow> None | x # _ \<Rightarrow> Some x)"

definition rate_limit_retry_after :: "PairingState \<Rightarrow> IpAddr \<Rightarrow> time \<Rightarrow> int option" where
  "rate_limit_retry_after st source now =
     (let source_retry =
            (case source_starts st source of
               None \<Rightarrow> None
             | Some starts \<Rightarrow>
                 if length starts \<ge> MAX_SOURCE_STARTS
                 then map_option (\<lambda>at. seconds_until (at + SOURCE_WINDOW) now) (front starts) else None);
          global_retry =
            (if length (global_starts st) \<ge> MAX_GLOBAL_STARTS
             then map_option (\<lambda>at. seconds_until (at + GLOBAL_WINDOW) now) (front (global_starts st)) else None)
      in case (source_retry, global_retry) of
           (Some s, Some g) \<Rightarrow> Some (max s g)
         | (Some r, None) \<Rightarrow> Some r
         | (None, Some r) \<Rightarrow> Some r
         | (None, None) \<Rightarrow> None)"

definition record_start :: "IpAddr \<Rightarrow> time \<Rightarrow> PairingState \<Rightarrow> PairingState" where
  "record_start source now st =
     st\<lparr>source_starts := (source_starts st)(source \<mapsto>
          (case source_starts st source of None \<Rightarrow> [] | Some starts \<Rightarrow> starts) @ [now]),
        global_starts := global_starts st @ [now]\<rparr>"

subsection \<open>The methods of the store\<close>

fun insert_generated ::
  "time \<Rightarrow> ValidatedPairingStart \<Rightarrow> (u8 list \<times> u8 list) list \<Rightarrow> PairingState \<Rightarrow>
     (PairingStartError + StartedPairing) \<times> PairingState" where
  "insert_generated now start [] st = (Inl GenerationExhausted, st)"
| "insert_generated now start ((id_bytes, code_bytes) # generated) st =
     (let code = encode_code code_bytes in
      if map_of (pending st) id_bytes \<noteq> None \<or> list_ex (\<lambda>(_, entry). pp_code entry = code) (pending st)
      then insert_generated now start generated st
      else
        let expires_at = now + PAIRING_LIFETIME;
            entry = \<lparr>pp_code = code, pp_client_name = vps_client_name start, pp_key_verifier = vps_key_verifier start,
                     pp_permission = vps_permission start, pp_expires_at = expires_at, pp_status = AwaitingApproval\<rparr>
        in (Inr \<lparr>st_capability_id = id_bytes, st_code = code, st_expires_at = expires_at\<rparr>,
            st\<lparr>verifiers := insert (vps_key_verifier start) (verifiers st), pending := pending st @ [(id_bytes, entry)]\<rparr>))"

definition pairing_start ::
  "time \<Rightarrow> IpAddr \<Rightarrow> ValidatedPairingStart \<Rightarrow> (u8 list \<times> u8 list) list \<Rightarrow> (ClientKeyVerifier \<Rightarrow> unit + bool) \<Rightarrow>
     PairingState \<Rightarrow> (PairingStartError + StartedPairing) \<times> PairingState" where
  "pairing_start now source start generated durable_verifier_exists st0 =
     (let st1 = prune_rate_limits now (remove_expired now st0) in
      case rate_limit_retry_after st1 source now of
        Some retry_after_seconds \<Rightarrow> (Inl (RateLimited retry_after_seconds), st1)
      | None \<Rightarrow>
          if length (pending st1) \<ge> MAX_PENDING_PAIRINGS
          then (Inl (CapacityFull (case map (\<lambda>(_, entry). seconds_until (pp_expires_at entry) now) (pending st1) of
                                     [] \<Rightarrow> 1 | s # ss \<Rightarrow> Min (set (s # ss)))), st1)
          else
            let st2 = record_start source now st1 in
            if vps_key_verifier start \<in> verifiers st2 then (Inl VerifierConflict, st2)
            else (case durable_verifier_exists (vps_key_verifier start) of
                    Inl _ \<Rightarrow> (Inl StartDatabase, st2)
                  | Inr True \<Rightarrow> (Inl VerifierConflict, st2)
                  | Inr False \<Rightarrow> insert_generated now start generated st2))"

definition pairing_review ::
  "PairingEnv \<Rightarrow> time \<Rightarrow> string \<Rightarrow> PairingState \<Rightarrow> (PairingTransitionError + PendingPairingReview) option \<times> PairingState" where
  "pairing_review env now display_code st0 =
     (case parse_display_code display_code of
        None \<Rightarrow> (Some (Inl TransitionNotFound), st0)
      | Some code \<Rightarrow>
          let st = remove_expired now st0 in
          (case find (\<lambda>(_, entry). pp_code entry = code) (pending st) of
             None \<Rightarrow> (Some (Inl TransitionNotFound), st)
           | Some (capability_id, entry) \<Rightarrow>
               if pp_status entry \<noteq> AwaitingApproval then (Some (Inl TransitionConflict), st)
               else
                 (map_option (\<lambda>shown. Inr \<lparr>rv_pairing_id = b64_encode env capability_id, rv_code = shown,
                      rv_client_name = pp_client_name entry, rv_permissions = [permission_as_str (pp_permission entry)],
                      rv_expires_at = expiry_text env (pp_expires_at entry)\<rparr>) (format_code (pp_code entry)), st)))"

definition is_live_approval_code :: "PairingEnv \<Rightarrow> time \<Rightarrow> string \<Rightarrow> PairingState \<Rightarrow> bool option \<times> PairingState" where
  "is_live_approval_code env now code st =
     (case pairing_review env now code st of (r, st') \<Rightarrow> (map_option is_ok r, st'))"

definition set_status :: "CapabilityId \<Rightarrow> (PendingPairing \<Rightarrow> PendingPairing) \<Rightarrow> PairingState \<Rightarrow> PairingState" where
  "set_status i f st = st\<lparr>pending := map (\<lambda>(j, entry). (j, if j = i then f entry else entry)) (pending st)\<rparr>"

text \<open>\<open>bind\<close> runs only when the pairing can be approved; it may take a lease from the world it is given.\<close>

definition pairing_approve ::
  "time \<Rightarrow> CapabilityId \<Rightarrow> string \<Rightarrow> time option \<Rightarrow> ('w \<Rightarrow> (unit + ApprovedPairingBinding) \<times> 'w) \<Rightarrow>
     PairingState \<Rightarrow> 'w \<Rightarrow> (PairingTransitionError + unit) \<times> PairingState \<times> 'w" where
  "pairing_approve now capability_id display_code active_expires_at bind st0 w =
     (case parse_display_code display_code of
        None \<Rightarrow> (Inl TransitionNotFound, st0, w)
      | Some code \<Rightarrow>
          let st = remove_expired now st0 in
          (case map_of (pending st) capability_id of
             None \<Rightarrow> (Inl TransitionNotFound, st, w)
           | Some entry \<Rightarrow>
               if pp_code entry \<noteq> code then (Inl TransitionNotFound, st, w)
               else if pp_status entry \<noteq> AwaitingApproval then (Inl TransitionConflict, st, w)
               else (case bind w of
                       (Inl _, w') \<Rightarrow> (Inl TransitionBinding, st, w')
                     | (Inr b, w') \<Rightarrow>
                         (Inr (), set_status capability_id (\<lambda>e. e\<lparr>pp_status := Approved
                            \<lparr>ap_user_id = bd_user_id b, ap_dek = bd_dek b, ap_lease = bd_lease b,
                             ap_active_expires_at = active_expires_at\<rparr>\<rparr>) st, w'))))"

definition pairing_deny ::
  "time \<Rightarrow> CapabilityId \<Rightarrow> string \<Rightarrow> PairingState \<Rightarrow> (PairingTransitionError + unit) \<times> PairingState" where
  "pairing_deny now capability_id display_code st0 =
     (case parse_display_code display_code of
        None \<Rightarrow> (Inl TransitionNotFound, st0)
      | Some code \<Rightarrow>
          let st = remove_expired now st0 in
          (case map_of (pending st) capability_id of
             None \<Rightarrow> (Inl TransitionNotFound, st)
           | Some entry \<Rightarrow>
               if pp_code entry \<noteq> code then (Inl TransitionNotFound, st)
               else if pp_status entry \<noteq> AwaitingApproval then (Inl TransitionConflict, st)
               else (Inr (), set_status capability_id (\<lambda>e. e\<lparr>pp_status := Denied\<rparr>) st)))"

definition pairing_claim ::
  "time \<Rightarrow> CapabilityId \<Rightarrow> ClientKeyVerifier \<Rightarrow> (ApprovedPairingClaim \<Rightarrow> 'w \<Rightarrow> (unit + ClaimedPairing) \<times> 'w) \<Rightarrow>
     PairingState \<Rightarrow> 'w \<Rightarrow> (PairingClaimError + ClaimedPairing) \<times> PairingState \<times> 'w" where
  "pairing_claim now capability_id key_verifier activate st0 w =
     (let st = remove_expired now st0 in
      case map_of (pending st) capability_id of
        None \<Rightarrow> (Inl ClaimNotFound, st, w)
      | Some entry \<Rightarrow>
          if pp_key_verifier entry \<noteq> key_verifier then (Inl ClaimUnauthorized, st, w)
          else (case pp_status entry of
                  AwaitingApproval \<Rightarrow> (Inl ClaimPending, st, w)
                | Denied \<Rightarrow> (Inl ClaimDenied, st, w)
                | Completed claimed \<Rightarrow> (Inr claimed, st, w)
                | Approved approved \<Rightarrow>
                    (case activate \<lparr>cl_capability_id = capability_id, cl_user_id = ap_user_id approved,
                            cl_dek = ap_dek approved, cl_client_name = pp_client_name entry,
                            cl_permission = pp_permission entry, cl_active_expires_at = ap_active_expires_at approved\<rparr> w of
                       (Inl _, w') \<Rightarrow> (Inl ClaimActivation, st, w')
                     | (Inr claimed, w') \<Rightarrow>
                         (Inr claimed, set_status capability_id (\<lambda>e. e\<lparr>pp_client_name := [], pp_code := [],
                            pp_status := Completed claimed\<rparr>) st, w'))))"

subsection \<open>Codes round trip\<close>

definition valid_code :: "string \<Rightarrow> bool" where
  "valid_code c \<longleftrightarrow> length c = 8 \<and> set c \<subseteq> set CODE_ALPHABET"

lemma alphabet_ascii: "c \<in> set CODE_ALPHABET \<Longrightarrow> (of_char c :: nat) < 128"
  by (auto simp: CODE_ALPHABET_def)

lemma alphabet_length: "length CODE_ALPHABET = 32"
  by (simp add: CODE_ALPHABET_def)

lemma encode_code_valid:
  assumes "length bytes = 8"
  shows "valid_code (encode_code bytes)"
proof -
  have "CODE_ALPHABET ! unat (and b 31) \<in> set CODE_ALPHABET" for b :: u8
  proof (rule nth_mem)
    have "unat (and b 31) \<le> unat (31 :: u8)" by (rule word_le_nat_alt [THEN iffD1, OF word_and_le1])
    then show "unat (and b 31) < length CODE_ALPHABET" by (simp add: alphabet_length)
  qed
  with assms show ?thesis by (auto simp: valid_code_def encode_code_def)
qed

lemma format_code_valid: "valid_code c \<Longrightarrow> format_code c = Some (take 4 c @ ''-'' @ drop 4 c)"
  using alphabet_ascii [of "c ! 4"] by (auto simp: format_code_def is_char_boundary_def valid_code_def subset_iff)

text \<open>
  The code a user types is the code the client shows: a display text is read as a code exactly when the code is eight
  characters of the alphabet and formats to that text. So every generated code can be typed, and no other text matches it.
\<close>

theorem display_code_roundtrip:
  "parse_display_code shown = Some c \<longleftrightarrow> valid_code c \<and> format_code c = Some shown"
proof
  assume p: "parse_display_code shown = Some c"
  then have len: "length shown = 9" and dash: "shown ! 4 = CHR ''-''" and c: "c = take 4 shown @ drop 5 shown"
    and "valid_code c"
    by (auto simp: parse_display_code_def valid_code_def Let_def list_all_iff split: if_splits)
  have "shown = take 4 shown @ shown ! 4 # drop 5 shown" using len id_take_nth_drop [of 4 shown] by simp
  then have "take 4 c @ ''-'' @ drop 4 c = shown" using len dash by (simp add: c)
  with \<open>valid_code c\<close> show "valid_code c \<and> format_code c = Some shown" by (simp add: format_code_valid)
next
  assume c: "valid_code c \<and> format_code c = Some shown"
  then have shown: "shown = take 4 c @ ''-'' @ drop 4 c" and len: "length c = 8" by (auto simp: format_code_valid valid_code_def)
  then have "take 4 shown @ drop 5 shown = c" "length shown = 9" "shown ! 4 = CHR ''-''" by (simp_all add: nth_append)
  with c show "parse_display_code shown = Some c" by (auto simp: parse_display_code_def valid_code_def list_all_iff)
qed

subsection \<open>The invariant of the store\<close>

definition is_completed :: "PendingPairing \<Rightarrow> bool" where
  "is_completed e \<longleftrightarrow> (case pp_status e of Completed _ \<Rightarrow> True | _ \<Rightarrow> False)"

text \<open>Keys and verifiers are unique and the reservations are exactly the verifiers of the pending pairings.\<close>

definition reservations_ok :: "PairingState \<Rightarrow> bool" where
  "reservations_ok st \<longleftrightarrow> distinct (map fst (pending st)) \<and> distinct (map (pp_key_verifier \<circ> snd) (pending st)) \<and>
     verifiers st = (pp_key_verifier \<circ> snd) ` set (pending st)"

definition entry_code_ok :: "PendingPairing \<Rightarrow> bool" where
  "entry_code_ok e \<longleftrightarrow> (if is_completed e then pp_code e = [] \<and> pp_client_name e = [] else valid_code (pp_code e))"

definition codes_ok :: "(CapabilityId \<times> PendingPairing) list \<Rightarrow> bool" where
  "codes_ok ps \<longleftrightarrow> (\<forall>p \<in> set ps. entry_code_ok (snd p)) \<and>
     distinct (map (pp_code \<circ> snd) (filter (\<lambda>p. \<not> is_completed (snd p)) ps))"

definition starts_ok :: "PairingState \<Rightarrow> bool" where
  "starts_ok st \<longleftrightarrow> length (global_starts st) \<le> MAX_GLOBAL_STARTS \<and>
     (\<forall>ip starts. source_starts st ip = Some starts \<longrightarrow> starts \<noteq> [] \<and> length starts \<le> MAX_SOURCE_STARTS)"

definition pairing_inv :: "PairingState \<Rightarrow> bool" where
  "pairing_inv st \<longleftrightarrow> reservations_ok st \<and> length (pending st) \<le> MAX_PENDING_PAIRINGS \<and> codes_ok (pending st) \<and> starts_ok st"

lemma map_of_reserved: "map_of ps i = Some e \<Longrightarrow> (i, e) \<in> set ps"
  by (rule map_of_SomeD)

lemma inj_verifier:
  "distinct (map (pp_key_verifier \<circ> snd) ps) \<Longrightarrow> p \<in> set ps \<Longrightarrow> q \<in> set ps \<Longrightarrow>
     pp_key_verifier (snd p) = pp_key_verifier (snd q) \<Longrightarrow> p = q"
  by (auto simp: distinct_map inj_on_def)

lemma remove_pending_facts:
  assumes "reservations_ok st"
  shows "reservations_ok (remove_pending i st) \<and> pending (remove_pending i st) = filter (\<lambda>p. fst p \<noteq> i) (pending st) \<and>
    source_starts (remove_pending i st) = source_starts st \<and> global_starts (remove_pending i st) = global_starts st"
proof (cases "map_of (pending st) i")
  case None
  then have "filter (\<lambda>p. fst p \<noteq> i) (pending st) = pending st" by (auto simp: filter_id_conv map_of_eq_None_iff)
  with None assms show ?thesis by (simp add: remove_pending_def)
next
  case (Some e)
  let ?rest = "filter (\<lambda>p. fst p \<noteq> i) (pending st)"
  have ie: "(i, e) \<in> set (pending st)" using Some by (rule map_of_SomeD)
  have st: "remove_pending i st = st\<lparr>pending := ?rest, verifiers := verifiers st - {pp_key_verifier e}\<rparr>"
    using Some by (simp add: remove_pending_def case_prod_beta')
  have d: "distinct (map fst (pending st))" "distinct (map (pp_key_verifier \<circ> snd) (pending st))"
    and v: "verifiers st = (pp_key_verifier \<circ> snd) ` set (pending st)"
    using assms by (auto simp: reservations_ok_def)
  have only: "p = (i, e)" if "p \<in> set (pending st)" "fst p = i" for p
    using that d(1) ie by (metis eq_key_imp_eq_value prod.collapse)
  have "verifiers st - {pp_key_verifier e} = (pp_key_verifier \<circ> snd) ` set ?rest"
  proof (intro equalityI subsetI)
    fix x assume "x \<in> verifiers st - {pp_key_verifier e}"
    then obtain p where "p \<in> set (pending st)" "x = pp_key_verifier (snd p)" "x \<noteq> pp_key_verifier e" by (auto simp: v)
    moreover from this have "fst p \<noteq> i" using only [of p] by (metis snd_conv)
    ultimately show "x \<in> (pp_key_verifier \<circ> snd) ` set ?rest" by (intro image_eqI [of _ _ p]) simp_all
  next
    fix x assume "x \<in> (pp_key_verifier \<circ> snd) ` set ?rest"
    then obtain p where p: "p \<in> set (pending st)" "fst p \<noteq> i" "x = pp_key_verifier (snd p)" by auto
    then have "x \<noteq> pp_key_verifier e" using inj_verifier [OF d(2) p(1) ie] by auto
    with p show "x \<in> verifiers st - {pp_key_verifier e}" by (auto simp: v)
  qed
  with d show ?thesis by (simp add: st reservations_ok_def distinct_map_filter)
qed

lemma fold_remove_pending:
  "reservations_ok st \<Longrightarrow>
     reservations_ok (fold remove_pending ids st) \<and>
     pending (fold remove_pending ids st) = filter (\<lambda>p. fst p \<notin> set ids) (pending st) \<and>
     source_starts (fold remove_pending ids st) = source_starts st \<and> global_starts (fold remove_pending ids st) = global_starts st"
proof (induction ids arbitrary: st)
  case (Cons i ids)
  from Cons.IH [of "remove_pending i st"] remove_pending_facts [OF Cons.prems, of i] show ?case
    by (auto intro: filter_cong)
qed simp

lemma remove_expired_facts:
  assumes "reservations_ok st"
  shows "reservations_ok (remove_expired now st)"
    and "pending (remove_expired now st) = filter (\<lambda>p. now < pp_expires_at (snd p)) (pending st)"
    and "source_starts (remove_expired now st) = source_starts st"
    and "global_starts (remove_expired now st) = global_starts st"
proof -
  let ?ids = "map fst (filter (\<lambda>(_, entry). pp_expires_at entry \<le> now) (pending st))"
  have "fst p \<notin> set ?ids \<longleftrightarrow> now < pp_expires_at (snd p)" if "p \<in> set (pending st)" for p
    using that assms by (auto simp: reservations_ok_def not_less image_iff case_prod_beta' dest: eq_key_imp_eq_value)
      (metis eq_key_imp_eq_value linorder_not_less prod.collapse)
  then have "filter (\<lambda>p. fst p \<notin> set ?ids) (pending st) = filter (\<lambda>p. now < pp_expires_at (snd p)) (pending st)"
    by (intro filter_cong) auto
  with fold_remove_pending [OF assms, of ?ids]
  show "reservations_ok (remove_expired now st)"
    "pending (remove_expired now st) = filter (\<lambda>p. now < pp_expires_at (snd p)) (pending st)"
    "source_starts (remove_expired now st) = source_starts st" "global_starts (remove_expired now st) = global_starts st"
    by (simp_all add: remove_expired_def)
qed

lemma codes_ok_filter:
  assumes "codes_ok ps"
  shows "codes_ok (filter P ps)"
proof -
  have "filter (\<lambda>p. \<not> is_completed (snd p)) (filter P ps) = filter P (filter (\<lambda>p. \<not> is_completed (snd p)) ps)"
    by (simp add: conj_commute)
  with assms show ?thesis
    by (simp add: codes_ok_def distinct_map_filter del: filter_filter)
qed

lemma remove_expired_inv:
  assumes "pairing_inv st"
  shows "pairing_inv (remove_expired now st)"
proof -
  have r: "reservations_ok st" using assms by (simp add: pairing_inv_def)
  note facts = remove_expired_facts [OF r, of now]
  have "length (pending (remove_expired now st)) \<le> MAX_PENDING_PAIRINGS"
    unfolding facts(2) using assms by (intro order_trans [OF length_filter_le]) (simp add: pairing_inv_def)
  then show ?thesis
    using assms facts by (simp add: pairing_inv_def codes_ok_filter starts_ok_def)
qed

lemma prune_starts_length: "length (prune_starts cutoff starts) \<le> length starts"
  by (simp add: prune_starts_def length_dropWhile_le)

lemma prune_rate_limits_simps [simp]:
  "pending (prune_rate_limits now st) = pending st" "verifiers (prune_rate_limits now st) = verifiers st"
  by (simp_all add: prune_rate_limits_def)

lemma prune_rate_limits_inv:
  assumes "pairing_inv st"
  shows "pairing_inv (prune_rate_limits now st)"
proof -
  have "starts_ok (prune_rate_limits now st)"
    using assms order_trans [OF prune_starts_length]
    by (fastforce simp: pairing_inv_def starts_ok_def prune_rate_limits_def Let_def split: option.splits if_splits)
  with assms show ?thesis by (simp add: pairing_inv_def reservations_ok_def)
qed

lemma record_start_simps [simp]:
  "pending (record_start source now st) = pending st" "verifiers (record_start source now st) = verifiers st"
  by (simp_all add: record_start_def)

text \<open>A start that is not rate limited leaves room in both queues.\<close>

lemma not_rate_limited:
  assumes "starts_ok st" and "rate_limit_retry_after st source now = None"
  shows "length (global_starts st) < MAX_GLOBAL_STARTS \<and>
    (\<forall>starts. source_starts st source = Some starts \<longrightarrow> length starts < MAX_SOURCE_STARTS)"
  using assms
  by (auto simp: rate_limit_retry_after_def starts_ok_def front_def Let_def MAX_GLOBAL_STARTS_def
      split: option.splits if_splits list.splits)

lemma record_start_inv:
  assumes "pairing_inv st" and "rate_limit_retry_after st source now = None"
  shows "pairing_inv (record_start source now st)"
proof -
  from assms(1) have "starts_ok st" by (simp add: pairing_inv_def)
  with not_rate_limited [OF this assms(2)] have "starts_ok (record_start source now st)"
    by (auto simp: starts_ok_def record_start_def MAX_SOURCE_STARTS_def split: option.splits)
  with assms(1) show ?thesis by (simp add: pairing_inv_def reservations_ok_def)
qed

lemma set_status_split:
  assumes "distinct (map fst (pending st))" and "map_of (pending st) i = Some e"
  obtains xs ys where "pending st = xs @ (i, e) # ys" "pending (set_status i f st) = xs @ (i, f e) # ys"
proof -
  from assms(2) have "(i, e) \<in> set (pending st)" by (rule map_of_SomeD)
  then obtain xs ys where split: "pending st = xs @ (i, e) # ys" by (meson split_list)
  with assms(1) have "i \<notin> fst ` set xs" "i \<notin> fst ` set ys" by auto
  then have "map (\<lambda>(j, entry). (j, if j = i then f entry else entry)) xs = xs"
    "map (\<lambda>(j, entry). (j, if j = i then f entry else entry)) ys = ys"
    by (auto intro!: map_idI simp: rev_image_eqI)
  with split that show thesis by (simp add: set_status_def)
qed

lemma set_status_inv:
  assumes "pairing_inv st" and "map_of (pending st) i = Some e"
    and "pp_key_verifier (f e) = pp_key_verifier e" and "entry_code_ok (f e)"
    and "\<not> is_completed (f e) \<Longrightarrow> \<not> is_completed e \<and> pp_code (f e) = pp_code e"
  shows "pairing_inv (set_status i f st)"
proof -
  have r: "reservations_ok st" and c: "codes_ok (pending st)" using assms(1) by (simp_all add: pairing_inv_def)
  then have "distinct (map fst (pending st))" by (simp add: reservations_ok_def)
  from set_status_split [OF this assms(2), of f] obtain xs ys where
    ps: "pending st = xs @ (i, e) # ys" and ps': "pending (set_status i f st) = xs @ (i, f e) # ys" .
  have v: "verifiers (set_status i f st) = verifiers st" "source_starts (set_status i f st) = source_starts st"
    "global_starts (set_status i f st) = global_starts st" by (simp_all add: set_status_def)
  have "reservations_ok (set_status i f st)" using r assms(3) by (auto simp: reservations_ok_def ps ps' v)
  moreover have "codes_ok (pending (set_status i f st))"
    using c assms(4,5)
    by (cases "is_completed (f e)"; cases "is_completed e") (simp_all add: codes_ok_def ps ps' Int_insert_right split: if_splits)
  ultimately show ?thesis using assms(1) by (simp add: pairing_inv_def starts_ok_def v ps ps')
qed

definition pair_taken :: "PairingState \<Rightarrow> u8 list \<times> u8 list \<Rightarrow> bool" where
  "pair_taken st p \<longleftrightarrow> map_of (pending st) (fst p) \<noteq> None \<or> list_ex (\<lambda>(_, entry). pp_code entry = encode_code (snd p)) (pending st)"

definition new_pairing :: "time \<Rightarrow> ValidatedPairingStart \<Rightarrow> string \<Rightarrow> PendingPairing" where
  "new_pairing now start code =
     \<lparr>pp_code = code, pp_client_name = vps_client_name start, pp_key_verifier = vps_key_verifier start,
      pp_permission = vps_permission start, pp_expires_at = now + PAIRING_LIFETIME, pp_status = AwaitingApproval\<rparr>"

lemma insert_generated_eq:
  "insert_generated now start generated st =
     (case find (\<lambda>p. \<not> pair_taken st p) generated of
        None \<Rightarrow> (Inl GenerationExhausted, st)
      | Some (i, cb) \<Rightarrow>
          (Inr \<lparr>st_capability_id = i, st_code = encode_code cb, st_expires_at = now + PAIRING_LIFETIME\<rparr>,
           st\<lparr>verifiers := insert (vps_key_verifier start) (verifiers st),
              pending := pending st @ [(i, new_pairing now start (encode_code cb))]\<rparr>))"
  by (induction generated) (auto simp: pair_taken_def new_pairing_def Let_def)

lemma new_pairing_inv:
  assumes "pairing_inv st" and "length (pending st) < MAX_PENDING_PAIRINGS" and "vps_key_verifier start \<notin> verifiers st"
    and "\<not> pair_taken st (i, cb)" and "length cb = 8"
  shows "pairing_inv (st\<lparr>verifiers := insert (vps_key_verifier start) (verifiers st),
           pending := pending st @ [(i, new_pairing now start (encode_code cb))]\<rparr>)"
proof -
  have fresh: "i \<notin> fst ` set (pending st)" "\<forall>p \<in> set (pending st). pp_code (snd p) \<noteq> encode_code cb"
    using assms(4) by (auto simp: pair_taken_def map_of_eq_None_iff list_ex_iff)
  have "\<not> is_completed (new_pairing now start (encode_code cb))" by (simp add: is_completed_def new_pairing_def)
  moreover have "entry_code_ok (new_pairing now start (encode_code cb))"
    using encode_code_valid [OF assms(5)] by (simp add: entry_code_ok_def is_completed_def new_pairing_def)
  ultimately have "codes_ok (pending st @ [(i, new_pairing now start (encode_code cb))])"
    using assms(1) fresh(2) by (auto simp: pairing_inv_def codes_ok_def new_pairing_def)
  then show ?thesis
    using assms(1-3) fresh(1)
    by (auto simp: pairing_inv_def reservations_ok_def starts_ok_def new_pairing_def)
qed

text \<open>Whether a start got past the limits, and so was counted.\<close>

definition counted :: "PairingStartError + StartedPairing \<Rightarrow> bool" where
  "counted r \<longleftrightarrow> (case r of Inl (RateLimited _) \<Rightarrow> False | Inl (CapacityFull _) \<Rightarrow> False | _ \<Rightarrow> True)"

definition cleaned :: "time \<Rightarrow> PairingState \<Rightarrow> PairingState" where
  "cleaned now st = prune_rate_limits now (remove_expired now st)"

lemma cleaned_inv: "pairing_inv st \<Longrightarrow> pairing_inv (cleaned now st)"
  by (simp add: cleaned_def prune_rate_limits_inv remove_expired_inv)

text \<open>The three ways a start ends: refused by a limit, counted without a pairing, or with a new pairing.\<close>

lemma pairing_start_cases:
  assumes "pairing_start now source start generated exists st0 = (r, st)"
  obtains (limited) "\<not> counted r" "st = cleaned now st0"
  | (rejected) "counted r" "\<not> is_ok r" "st = record_start source now (cleaned now st0)"
      "rate_limit_retry_after (cleaned now st0) source now = None"
  | (created) i cb where "(i, cb) \<in> set generated" "\<not> pair_taken (record_start source now (cleaned now st0)) (i, cb)"
      "r = Inr \<lparr>st_capability_id = i, st_code = encode_code cb, st_expires_at = now + PAIRING_LIFETIME\<rparr>"
      "rate_limit_retry_after (cleaned now st0) source now = None"
      "length (pending (cleaned now st0)) < MAX_PENDING_PAIRINGS" "vps_key_verifier start \<notin> verifiers (cleaned now st0)"
      "exists (vps_key_verifier start) = Inr False"
      "st = (record_start source now (cleaned now st0))\<lparr>
         verifiers := insert (vps_key_verifier start) (verifiers (cleaned now st0)),
         pending := pending (cleaned now st0) @ [(i, new_pairing now start (encode_code cb))]\<rparr>"
proof -
  let ?st1 = "cleaned now st0"
  let ?st2 = "record_start source now ?st1"
  note start = assms [unfolded pairing_start_def Let_def cleaned_def [symmetric]]
  show thesis
  proof (cases "rate_limit_retry_after ?st1 source now")
    case (Some retry)
    with start have "r = Inl (RateLimited retry)" "st = ?st1" by simp_all
    then show thesis by (intro limited) (simp_all add: counted_def)
  next
    case None
    show thesis
    proof (cases "MAX_PENDING_PAIRINGS \<le> length (pending ?st1)")
      case True
      with start None obtain n where "r = Inl (CapacityFull n)" "st = ?st1" by auto
      then show thesis by (intro limited) (simp_all add: counted_def)
    next
      case room: False
      show thesis
      proof (cases "vps_key_verifier start \<in> verifiers ?st1 \<or> exists (vps_key_verifier start) \<noteq> Inr False")
        case True
        with start None room have "st = ?st2" "\<not> is_ok r" "counted r"
          by (auto simp: counted_def split: if_splits sum.splits bool.splits)
        with None show thesis by (intro rejected)
      next
        case False
        with start None room have gen: "insert_generated now start generated ?st2 = (r, st)" by simp
        show thesis
        proof (cases "find (\<lambda>p. \<not> pair_taken ?st2 p) generated")
          case None': None
          with gen have "r = Inl GenerationExhausted" "st = ?st2" by (simp_all add: insert_generated_eq)
          with None show thesis by (intro rejected) (simp_all add: counted_def)
        next
          case (Some p)
          obtain i cb where p: "p = (i, cb)" by (cases p)
          from Some have "(i, cb) \<in> set generated" "\<not> pair_taken ?st2 (i, cb)"
            by (auto simp: find_Some_iff p)
          with gen Some p None room False show thesis by (intro created [of i cb]) (simp_all add: insert_generated_eq)
        qed
      qed
    qed
  qed
qed

subsection \<open>Sliding windows\<close>

text \<open>At most \<open>n\<close> of the times lie in any window of length \<open>W\<close>.\<close>

definition window_bounded :: "int \<Rightarrow> nat \<Rightarrow> time list \<Rightarrow> bool" where
  "window_bounded W n ts \<longleftrightarrow> (\<forall>T. length (filter (\<lambda>t. T - W < t \<and> t \<le> T) ts) \<le> n)"

text \<open>
  The contract of a queue that remembers the counted starts of the last window: what it promises to the admission check
  of a start, for the window of a source and for the global one.
\<close>

definition queue_ok :: "int \<Rightarrow> nat \<Rightarrow> time \<Rightarrow> time list \<Rightarrow> time list \<Rightarrow> bool" where
  "queue_ok W n clock ts q \<longleftrightarrow> sorted ts \<and> (\<forall>t \<in> set ts. t \<le> clock) \<and> window_bounded W n ts \<and>
     (\<exists>c \<le> clock - W. q = filter (\<lambda>t. c < t) ts)"

locale sliding_window =
  fixes window :: int and limit :: nat
  assumes window_pos: "0 < window"
begin

lemma queue_empty: "queue_ok window limit clock [] []"
  by (auto simp: queue_ok_def window_bounded_def)

lemma queue_later:
  assumes "queue_ok window limit clock ts q" and "clock \<le> now"
  shows "queue_ok window limit now ts q"
proof -
  from assms(1) obtain c where "c \<le> clock - window" "q = filter (\<lambda>t. c < t) ts" by (auto simp: queue_ok_def)
  with assms show ?thesis by (force simp: queue_ok_def intro!: exI [of _ c])
qed

lemma prune_exact:
  assumes "queue_ok window limit clock ts q" and "clock \<le> now"
  shows "prune_starts (now - window) q = filter (\<lambda>t. now - window < t) ts"
proof -
  from assms(1) obtain c where ts: "sorted ts" and c: "c \<le> clock - window" and q: "q = filter (\<lambda>t. c < t) ts"
    by (auto simp: queue_ok_def)
  have "dropWhile (\<lambda>t. t \<le> k) xs = filter (\<lambda>t. k < t) xs" if "sorted xs" for k :: int and xs
    using that by (induction xs) (auto intro!: filter_True [symmetric])
  then have "prune_starts (now - window) q = filter (\<lambda>t. now - window < t) q"
    using ts q by (simp add: prune_starts_def sorted_wrt_filter)
  also have "\<dots> = filter (\<lambda>t. now - window < t) ts"
    using c assms(2) by (auto simp: q intro!: filter_cong)
  finally show ?thesis .
qed

lemma queue_prune:
  assumes "queue_ok window limit clock ts q" and "clock \<le> now"
  shows "queue_ok window limit now ts (prune_starts (now - window) q)"
  using queue_later [OF assms] prune_exact [OF assms] by (auto simp: queue_ok_def)

lemma queue_push:
  assumes "queue_ok window limit now ts q" and "q = filter (\<lambda>t. now - window < t) ts" and "length q < limit"
  shows "queue_ok window limit now (ts @ [now]) (q @ [now])"
proof -
  from assms(1) have ts: "sorted ts" "\<forall>t \<in> set ts. t \<le> now" "window_bounded window limit ts" by (auto simp: queue_ok_def)
  have "window_bounded window limit (ts @ [now])"
    unfolding window_bounded_def
  proof
    fix T
    show "length (filter (\<lambda>t. T - window < t \<and> t \<le> T) (ts @ [now])) \<le> limit"
    proof (cases "now \<le> T")
      case True
      have "length (filter (\<lambda>t. T - window < t \<and> t \<le> T) ts) \<le> length q"
        unfolding assms(2) using True by (induction ts) auto
      then show ?thesis using assms(3) by simp
    next
      case False
      then show ?thesis using ts(3) by (simp add: window_bounded_def)
    qed
  qed
  with ts assms(2) window_pos show ?thesis by (auto simp: queue_ok_def sorted_append intro!: exI [of _ "now - window"])
qed

end

interpretation source_window: sliding_window SOURCE_WINDOW MAX_SOURCE_STARTS
  by unfold_locales (simp add: SOURCE_WINDOW_def SECOND_def)

interpretation global_window: sliding_window GLOBAL_WINDOW MAX_GLOBAL_STARTS
  by unfold_locales (simp add: GLOBAL_WINDOW_def SECOND_def)

subsection \<open>The store in use\<close>

text \<open>
  The store, the starts that were counted (a history no code keeps), and the clock, which the steps assume not to go
  back. The cleanup task is the step \<open>ticked\<close>. What \<open>bind\<close> and \<open>activate\<close> answer is arbitrary.
\<close>

record PairingSystem =
  ps_store :: PairingState
  ps_counted :: "(IpAddr \<times> time) list"
  ps_clock :: time

definition pairing_init :: "PairingSystem \<Rightarrow> bool" where
  "pairing_init \<sigma> \<longleftrightarrow> ps_store \<sigma> = pairing_store_new \<and> ps_counted \<sigma> = []"

inductive pairing_step :: "PairingSystem \<Rightarrow> PairingSystem \<Rightarrow> bool" where
  started: "ps_clock \<sigma> \<le> now \<Longrightarrow> (\<forall>p \<in> set generated. length (snd p) = 8) \<Longrightarrow>
    pairing_start now source start generated exists (ps_store \<sigma>) = (r, st) \<Longrightarrow>
    pairing_step \<sigma> \<lparr>ps_store = st, ps_counted = ps_counted \<sigma> @ (if counted r then [(source, now)] else []), ps_clock = now\<rparr>"
| reviewed: "ps_clock \<sigma> \<le> now \<Longrightarrow> pairing_review env now code (ps_store \<sigma>) = (r, st) \<Longrightarrow>
    pairing_step \<sigma> (\<sigma>\<lparr>ps_store := st, ps_clock := now\<rparr>)"
| approved: "ps_clock \<sigma> \<le> now \<Longrightarrow> pairing_approve now i code expiry bind (ps_store \<sigma>) (w :: unit) = (r, st, w') \<Longrightarrow>
    pairing_step \<sigma> (\<sigma>\<lparr>ps_store := st, ps_clock := now\<rparr>)"
| denied: "ps_clock \<sigma> \<le> now \<Longrightarrow> pairing_deny now i code (ps_store \<sigma>) = (r, st) \<Longrightarrow>
    pairing_step \<sigma> (\<sigma>\<lparr>ps_store := st, ps_clock := now\<rparr>)"
| claimed: "ps_clock \<sigma> \<le> now \<Longrightarrow> pairing_claim now i verifier activate (ps_store \<sigma>) (w :: unit) = (r, st, w') \<Longrightarrow>
    pairing_step \<sigma> (\<sigma>\<lparr>ps_store := st, ps_clock := now\<rparr>)"
| ticked: "ps_clock \<sigma> \<le> now \<Longrightarrow>
    pairing_step \<sigma> (\<sigma>\<lparr>ps_store := remove_expired now (ps_store \<sigma>), ps_clock := now\<rparr>)"

definition source_times :: "IpAddr \<Rightarrow> (IpAddr \<times> time) list \<Rightarrow> time list" where
  "source_times source h = map snd (filter (\<lambda>p. fst p = source) h)"

definition source_queue :: "PairingState \<Rightarrow> IpAddr \<Rightarrow> time list" where
  "source_queue st source = (case source_starts st source of None \<Rightarrow> [] | Some starts \<Rightarrow> starts)"

definition limits_ok :: "PairingSystem \<Rightarrow> bool" where
  "limits_ok \<sigma> \<longleftrightarrow>
     (\<forall>source. queue_ok SOURCE_WINDOW MAX_SOURCE_STARTS (ps_clock \<sigma>) (source_times source (ps_counted \<sigma>))
        (source_queue (ps_store \<sigma>) source)) \<and>
     queue_ok GLOBAL_WINDOW MAX_GLOBAL_STARTS (ps_clock \<sigma>) (map snd (ps_counted \<sigma>)) (global_starts (ps_store \<sigma>))"

definition pairing_system_inv :: "PairingSystem \<Rightarrow> bool" where
  "pairing_system_inv \<sigma> \<longleftrightarrow> pairing_inv (ps_store \<sigma>) \<and> limits_ok \<sigma>"

lemma pairing_init_inv: "pairing_init \<sigma> \<Longrightarrow> pairing_system_inv \<sigma>"
  by (simp add: pairing_init_def pairing_system_inv_def pairing_inv_def limits_ok_def pairing_store_new_def reservations_ok_def
      codes_ok_def starts_ok_def source_queue_def source_times_def source_window.queue_empty global_window.queue_empty)

text \<open>A method that leaves the queues alone.\<close>

lemma limits_later:
  assumes "limits_ok \<sigma>" and "ps_clock \<sigma> \<le> now"
    and "source_starts st = source_starts (ps_store \<sigma>)" and "global_starts st = global_starts (ps_store \<sigma>)"
  shows "limits_ok (\<sigma>\<lparr>ps_store := st, ps_clock := now\<rparr>)"
  using assms source_window.queue_later [OF _ assms(2)] global_window.queue_later [OF _ assms(2)]
  by (simp add: limits_ok_def source_queue_def)

lemma cleaned_queues:
  assumes "reservations_ok st"
  shows "source_queue (cleaned now st) source = prune_starts (now - SOURCE_WINDOW) (source_queue st source)"
    and "global_starts (cleaned now st) = prune_starts (now - GLOBAL_WINDOW) (global_starts st)"
  using remove_expired_facts [OF assms, of now]
  by (auto simp: cleaned_def source_queue_def prune_rate_limits_def prune_starts_def Let_def split: option.split)
    (metis dropWhile_eq_Nil_conv)

lemma record_start_queues:
  "source_queue (record_start source now st) ip = (if ip = source then source_queue st ip @ [now] else source_queue st ip)"
  "global_starts (record_start source now st) = global_starts st @ [now]"
  by (simp_all add: source_queue_def record_start_def split: option.split)

lemma limits_cleaned:
  assumes "pairing_system_inv \<sigma>" and "ps_clock \<sigma> \<le> now"
  shows "limits_ok (\<sigma>\<lparr>ps_store := cleaned now (ps_store \<sigma>), ps_clock := now\<rparr>)"
proof -
  have r: "reservations_ok (ps_store \<sigma>)" and l: "limits_ok \<sigma>"
    using assms(1) by (simp_all add: pairing_system_inv_def pairing_inv_def)
  from l show ?thesis
    using source_window.queue_prune [OF _ assms(2)] global_window.queue_prune [OF _ assms(2)]
    by (simp add: limits_ok_def cleaned_queues [OF r])
qed

lemma limits_recorded:
  assumes "pairing_system_inv \<sigma>" and "ps_clock \<sigma> \<le> now"
    and "rate_limit_retry_after (cleaned now (ps_store \<sigma>)) source now = None"
  shows "limits_ok \<lparr>ps_store = record_start source now (cleaned now (ps_store \<sigma>)),
     ps_counted = ps_counted \<sigma> @ [(source, now)], ps_clock = now\<rparr>"
proof -
  let ?st = "cleaned now (ps_store \<sigma>)"
  have r: "reservations_ok (ps_store \<sigma>)" and l: "limits_ok \<sigma>" and inv: "pairing_inv ?st"
    using assms(1) by (simp_all add: pairing_system_inv_def pairing_inv_def [of "ps_store \<sigma>"] cleaned_inv)
  from inv have "starts_ok ?st" by (simp add: pairing_inv_def)
  from not_rate_limited [OF this assms(3)] have room: "length (global_starts ?st) < MAX_GLOBAL_STARTS"
    "length (source_queue ?st source) < MAX_SOURCE_STARTS"
    by (auto simp: source_queue_def MAX_SOURCE_STARTS_def split: option.split)
  from l have old: "queue_ok SOURCE_WINDOW MAX_SOURCE_STARTS (ps_clock \<sigma>) (source_times source (ps_counted \<sigma>)) (source_queue (ps_store \<sigma>) source)"
    "queue_ok GLOBAL_WINDOW MAX_GLOBAL_STARTS (ps_clock \<sigma>) (map snd (ps_counted \<sigma>)) (global_starts (ps_store \<sigma>))"
    by (simp_all add: limits_ok_def)
  from limits_cleaned [OF assms(1,2)] have new:
    "\<And>ip. queue_ok SOURCE_WINDOW MAX_SOURCE_STARTS now (source_times ip (ps_counted \<sigma>)) (source_queue ?st ip)"
    "queue_ok GLOBAL_WINDOW MAX_GLOBAL_STARTS now (map snd (ps_counted \<sigma>)) (global_starts ?st)"
    by (simp_all add: limits_ok_def)
  have "queue_ok SOURCE_WINDOW MAX_SOURCE_STARTS now (source_times source (ps_counted \<sigma>) @ [now]) (source_queue ?st source @ [now])"
    using new(1) _ room(2)
    by (rule source_window.queue_push) (simp add: cleaned_queues [OF r] source_window.prune_exact [OF old(1) assms(2)])
  moreover have "queue_ok GLOBAL_WINDOW MAX_GLOBAL_STARTS now (map snd (ps_counted \<sigma>) @ [now]) (global_starts ?st @ [now])"
    using new(2) _ room(1)
    by (rule global_window.queue_push) (simp add: cleaned_queues [OF r] global_window.prune_exact [OF old(2) assms(2)])
  ultimately show ?thesis
    using new by (auto simp: limits_ok_def record_start_queues source_times_def)
qed

lemma pairing_start_inv:
  assumes "pairing_system_inv \<sigma>" and "ps_clock \<sigma> \<le> now" and "\<forall>p \<in> set generated. length (snd p) = 8"
    and "pairing_start now source start generated exists (ps_store \<sigma>) = (r, st)"
  shows "pairing_system_inv \<lparr>ps_store = st, ps_counted = ps_counted \<sigma> @ (if counted r then [(source, now)] else []), ps_clock = now\<rparr>"
  using assms(4)
proof (cases rule: pairing_start_cases)
  case limited
  with assms(1) limits_cleaned [OF assms(1,2)] show ?thesis
    by (simp add: pairing_system_inv_def limits_ok_def cleaned_inv)
next
  case rejected
  with assms(1) limits_recorded [OF assms(1,2)] show ?thesis
    by (simp add: pairing_system_inv_def limits_ok_def cleaned_inv record_start_inv)
next
  case (created i cb)
  let ?st = "record_start source now (cleaned now (ps_store \<sigma>))"
  have "pairing_inv ?st" using assms(1) created(4) by (simp add: pairing_system_inv_def cleaned_inv record_start_inv)
  from new_pairing_inv [OF this _ _ created(2), of start now] created assms(3)
  have "pairing_inv st" by auto
  moreover have "limits_ok \<lparr>ps_store = st, ps_counted = ps_counted \<sigma> @ [(source, now)], ps_clock = now\<rparr>"
    using limits_recorded [OF assms(1,2) created(4)] by (simp add: created(8) limits_ok_def source_queue_def)
  ultimately show ?thesis by (simp add: pairing_system_inv_def created(3) counted_def)
qed

lemma awaiting_not_completed: "pp_status e = AwaitingApproval \<Longrightarrow> \<not> is_completed e"
  by (simp add: is_completed_def)

lemma inv_entry_code: "pairing_inv st \<Longrightarrow> map_of (pending st) i = Some e \<Longrightarrow> entry_code_ok e"
  using map_of_SomeD by (fastforce simp: pairing_inv_def codes_ok_def)

lemma set_status_queues [simp]:
  "source_starts (set_status i f st) = source_starts st" "global_starts (set_status i f st) = global_starts st"
  by (simp_all add: set_status_def)

text \<open>The invariant and the queues across the methods that serve one pairing.\<close>

definition serves :: "time \<Rightarrow> PairingState \<Rightarrow> PairingState \<Rightarrow> bool" where
  "serves now st st' \<longleftrightarrow> pairing_inv st' \<and> source_starts st' = source_starts st \<and> global_starts st' = global_starts st"

lemma serves_refl: "pairing_inv st \<Longrightarrow> serves now st st"
  by (simp add: serves_def)

lemma serves_expired: "pairing_inv st \<Longrightarrow> serves now st (remove_expired now st)"
  by (simp add: serves_def remove_expired_inv remove_expired_facts pairing_inv_def [of st])

lemma serves_status:
  assumes "pairing_inv st" and "map_of (pending (remove_expired now st)) i = Some e" and "pp_key_verifier (f e) = pp_key_verifier e"
    and "entry_code_ok (f e)" and "\<not> is_completed (f e) \<Longrightarrow> \<not> is_completed e \<and> pp_code (f e) = pp_code e"
  shows "serves now st (set_status i f (remove_expired now st))"
  using set_status_inv [where f = f and e = e, OF remove_expired_inv [OF assms(1)] assms(2-5)] serves_expired [OF assms(1), of now]
  by (simp add: serves_def)

lemma pairing_review_serves:
  assumes "pairing_inv st0" and "pairing_review env now code st0 = (r, st)"
  shows "serves now st0 st"
  using assms serves_refl [OF assms(1)] serves_expired [OF assms(1)]
  by (auto simp: pairing_review_def Let_def split: option.splits if_splits)

lemma pairing_deny_serves:
  assumes "pairing_inv st0" and "pairing_deny now i code st0 = (r, st)"
  shows "serves now st0 st"
proof -
  have "entry_code_ok (e\<lparr>pp_status := Denied\<rparr>) \<and> \<not> is_completed e"
    if "map_of (pending (remove_expired now st0)) i = Some e" "pp_status e = AwaitingApproval" for e
    using inv_entry_code [OF remove_expired_inv [OF assms(1)] that(1)] that(2)
    by (simp add: entry_code_ok_def is_completed_def)
  then show ?thesis
    using assms serves_refl [OF assms(1)] serves_expired [OF assms(1)]
    by (auto simp: pairing_deny_def Let_def intro!: serves_status split: option.splits if_splits)
qed

lemma pairing_approve_serves:
  assumes "pairing_inv st0" and "pairing_approve now i code expiry bind st0 w = (r, st, w')"
  shows "serves now st0 st"
proof -
  have "entry_code_ok (e\<lparr>pp_status := Approved a\<rparr>) \<and> \<not> is_completed e"
    if "map_of (pending (remove_expired now st0)) i = Some e" "pp_status e = AwaitingApproval" for e a
    using inv_entry_code [OF remove_expired_inv [OF assms(1)] that(1)] that(2)
    by (simp add: entry_code_ok_def is_completed_def)
  then show ?thesis
    using assms serves_refl [OF assms(1)] serves_expired [OF assms(1)]
    by (auto simp: pairing_approve_def Let_def intro!: serves_status split: option.splits if_splits prod.splits sum.splits)
qed

lemma pairing_claim_serves:
  assumes "pairing_inv st0" and "pairing_claim now i verifier activate st0 w = (r, st, w')"
  shows "serves now st0 st"
  using assms serves_refl [OF assms(1)] serves_expired [OF assms(1)]
  by (auto simp: pairing_claim_def Let_def entry_code_ok_def is_completed_def intro!: serves_status
      split: option.splits if_splits prod.splits sum.splits PairingStatus.splits)

lemma serves_system_inv:
  assumes "pairing_system_inv \<sigma>" and "ps_clock \<sigma> \<le> now" and "serves now (ps_store \<sigma>) st"
  shows "pairing_system_inv (\<sigma>\<lparr>ps_store := st, ps_clock := now\<rparr>)"
  using assms limits_later [OF _ assms(2), of st] by (simp add: pairing_system_inv_def serves_def)

lemma pairing_step_inv:
  assumes "pairing_step \<sigma> \<tau>" and "pairing_system_inv \<sigma>"
  shows "pairing_system_inv \<tau>"
proof -
  have inv: "pairing_inv (ps_store \<sigma>)" using assms(2) by (simp add: pairing_system_inv_def)
  from assms(1) show ?thesis
  proof cases
    case (started now generated source start exists r st)
    then show ?thesis using pairing_start_inv [OF assms(2)] by simp
  qed (auto intro!: serves_system_inv [OF assms(2)] intro: pairing_review_serves [OF inv] pairing_approve_serves [OF inv]
      pairing_deny_serves [OF inv] pairing_claim_serves [OF inv] serves_expired [OF inv])
qed

interpretation pairing: state_machine pairing_init pairing_step pairing_system_inv
  by unfold_locales (auto intro: pairing_init_inv pairing_step_inv)

text \<open>
  C9. The store stays well formed. In every reachable state the pairings have distinct identifiers and distinct key
  verifiers, the reserved verifiers are exactly theirs, there are at most 1024 of them, the unclaimed ones have distinct
  codes of eight characters of the alphabet, and a claimed one keeps neither its code nor its client name.
\<close>

theorem pairing_store_invariant:
  assumes "pairing_init \<sigma>\<^sub>0" and "pairing_step\<^sup>*\<^sup>* \<sigma>\<^sub>0 \<sigma>"
  shows "reservations_ok (ps_store \<sigma>) \<and> length (pending (ps_store \<sigma>)) \<le> 1024 \<and> codes_ok (pending (ps_store \<sigma>))"
  using pairing.reachable_inv [OF assms] by (simp add: pairing_system_inv_def pairing_inv_def MAX_PENDING_PAIRINGS_def)

text \<open>
  C11. The rate limits hold. Under a clock that does not go back, in any ten minutes at most ten starts of one source get
  past the limits, and in any minute at most 300 of all sources.
\<close>

theorem pairing_rate_limits:
  assumes "pairing_init \<sigma>\<^sub>0" and "pairing_step\<^sup>*\<^sup>* \<sigma>\<^sub>0 \<sigma>"
  shows "window_bounded SOURCE_WINDOW 10 (source_times source (ps_counted \<sigma>)) \<and>
    window_bounded GLOBAL_WINDOW 300 (map snd (ps_counted \<sigma>))"
  using pairing.reachable_inv [OF assms]
  by (simp add: pairing_system_inv_def limits_ok_def queue_ok_def MAX_SOURCE_STARTS_def MAX_GLOBAL_STARTS_def)

subsection \<open>The life of a pairing\<close>

lemma expired_lookup:
  assumes "reservations_ok st"
  shows "map_of (pending (remove_expired now st)) i =
    (case map_of (pending st) i of None \<Rightarrow> None | Some e \<Rightarrow> if now < pp_expires_at e then Some e else None)"
proof -
  have d: "distinct (map fst (pending st))" using assms by (simp add: reservations_ok_def)
  have "map_of (filter (\<lambda>p. Q (snd p)) ps) i = (case map_of ps i of None \<Rightarrow> None | Some e \<Rightarrow> if Q e then Some e else None)"
    if "distinct (map fst ps)" for Q and ps :: "(CapabilityId \<times> PendingPairing) list"
    using that by (induction ps) (auto simp: map_of_eq_None_iff split: option.splits)
  from this [OF d, of "\<lambda>e. now < pp_expires_at e"] show ?thesis by (simp add: remove_expired_facts [OF assms])
qed

lemma set_status_lookup:
  "map_of (pending (set_status i f st)) j = (if j = i then map_option f (map_of (pending st) j) else map_of (pending st) j)"
proof -
  have "map_of (map (\<lambda>(k, entry). (k, if k = i then f entry else entry)) ps) j =
      (if j = i then map_option f (map_of ps j) else map_of ps j)" for ps
    by (induction ps) auto
  then show ?thesis by (simp add: set_status_def)
qed

definition claim_of :: "CapabilityId \<Rightarrow> PendingPairing \<Rightarrow> ApprovedPairing \<Rightarrow> ApprovedPairingClaim" where
  "claim_of i e a = \<lparr>cl_capability_id = i, cl_user_id = ap_user_id a, cl_dek = ap_dek a, cl_client_name = pp_client_name e,
     cl_permission = pp_permission e, cl_active_expires_at = ap_active_expires_at a\<rparr>"

lemma claim_result:
  assumes "pairing_inv st0" and "pairing_claim now i v activate st0 w = (Inr claimed, st, w')"
  obtains e where "map_of (pending st0) i = Some e" "pp_key_verifier e = v" "now < pp_expires_at e"
    "(\<exists>a. pp_status e = Approved a \<and> activate (claim_of i e a) w = (Inr claimed, w')) \<or> (pp_status e = Completed claimed \<and> w' = w)"
    "\<exists>e'. map_of (pending st) i = Some e' \<and> pp_status e' = Completed claimed \<and> pp_key_verifier e' = v \<and>
       pp_expires_at e' = pp_expires_at e"
proof -
  have r: "reservations_ok st0" using assms(1) by (simp add: pairing_inv_def)
  let ?st = "remove_expired now st0"
  obtain e where e: "map_of (pending ?st) i = Some e" and v: "pp_key_verifier e = v"
    using assms(2) by (auto simp: pairing_claim_def Let_def split: option.splits if_splits)
  have live: "map_of (pending st0) i = Some e" "now < pp_expires_at e"
    using e by (auto simp: expired_lookup [OF r] split: option.splits if_splits)
  note claim = assms(2) [unfolded pairing_claim_def Let_def e option.case v]
  show thesis
  proof (cases "pp_status e")
    case (Approved a)
    with claim have "activate (claim_of i e a) w = (Inr claimed, w')"
      and st: "st = set_status i (\<lambda>e. e\<lparr>pp_client_name := [], pp_code := [], pp_status := Completed claimed\<rparr>) ?st"
      by (auto simp: claim_of_def split: prod.splits sum.splits)
    with live v Approved e show thesis by (intro that) (auto simp: st set_status_lookup)
  next
    case (Completed c)
    with claim have "c = claimed" "st = ?st" "w' = w" by simp_all
    with live v Completed e show thesis by (intro that) auto
  qed (use claim in simp_all)
qed

text \<open>
  C10. A claim succeeds only with the key announced at the start, while the pairing lives, after a user approved it: either
  the activation of the approved pairing just succeeded, or the pairing was claimed before and the same answer is given
  again. After a successful claim every further claim with the key, until the pairing expires, gives that answer again and
  activates nothing.
\<close>

theorem pairing_claim_sound:
  assumes "pairing_inv st0" and "pairing_claim now i v activate st0 w = (Inr claimed, st, w')"
  shows "\<exists>e. map_of (pending st0) i = Some e \<and> pp_key_verifier e = v \<and> now < pp_expires_at e \<and>
    ((\<exists>a. pp_status e = Approved a \<and> activate (claim_of i e a) w = (Inr claimed, w')) \<or> (pp_status e = Completed claimed \<and> w' = w)) \<and>
    (\<forall>later again u. later < pp_expires_at e \<longrightarrow>
       pairing_claim later i v again st u = (Inr claimed, remove_expired later st, u))"
  using assms
proof (rule claim_result)
  fix e
  assume e: "map_of (pending st0) i = Some e" "pp_key_verifier e = v" "now < pp_expires_at e"
    and how: "(\<exists>a. pp_status e = Approved a \<and> activate (claim_of i e a) w = (Inr claimed, w')) \<or> (pp_status e = Completed claimed \<and> w' = w)"
    and "\<exists>e'. map_of (pending st) i = Some e' \<and> pp_status e' = Completed claimed \<and> pp_key_verifier e' = v \<and>
       pp_expires_at e' = pp_expires_at e"
  then obtain e' where e': "map_of (pending st) i = Some e'" "pp_status e' = Completed claimed" "pp_key_verifier e' = v"
    "pp_expires_at e' = pp_expires_at e" by blast
  have "reservations_ok st" using pairing_claim_serves [OF assms] by (simp add: serves_def pairing_inv_def)
  from expired_lookup [OF this, of _ i] e'
  have "pairing_claim later i v again st u = (Inr claimed, remove_expired later st, u)" if "later < pp_expires_at e" for later again u
    using that by (simp add: pairing_claim_def Let_def)
  with e how show ?thesis by (intro exI [of _ e]) blast
qed

text \<open>How the status of a pairing may change in one step.\<close>

inductive status_step :: "PairingStatus \<Rightarrow> PairingStatus \<Rightarrow> bool" where
  unchanged: "status_step s s"
| approval: "status_step AwaitingApproval (Approved a)"
| denial: "status_step AwaitingApproval Denied"
| completion: "status_step (Approved a) (Completed c)"

inductive_cases status_step_deniedE [elim!]: "status_step Denied s"
inductive_cases status_step_completedE [elim!]: "status_step (Completed c) s"

definition same_pairing :: "PendingPairing \<Rightarrow> PendingPairing \<Rightarrow> bool" where
  "same_pairing e e' \<longleftrightarrow> status_step (pp_status e) (pp_status e') \<and> pp_key_verifier e' = pp_key_verifier e \<and>
     pp_expires_at e' = pp_expires_at e \<and> pp_permission e' = pp_permission e"

lemma same_pairing_refl [simp]: "same_pairing e e"
  by (simp add: same_pairing_def status_step.unchanged)

definition advances :: "time \<Rightarrow> PairingState \<Rightarrow> PairingState \<Rightarrow> bool" where
  "advances now st st' \<longleftrightarrow> (\<forall>i e. map_of (pending st) i = Some e \<longrightarrow> now < pp_expires_at e \<longrightarrow>
     (\<exists>e'. map_of (pending st') i = Some e' \<and> same_pairing e e'))"

lemma advances_refl: "advances now st st"
  by (simp add: advances_def)

lemma advances_expired: "reservations_ok st \<Longrightarrow> advances now st (remove_expired now st)"
  by (simp add: advances_def expired_lookup)

lemma advances_status:
  assumes "reservations_ok st" and "map_of (pending (remove_expired now st)) i = Some e" and "same_pairing e (f e)"
  shows "advances now st (set_status i f (remove_expired now st))"
  using assms by (auto simp: advances_def set_status_lookup expired_lookup split: option.splits if_splits)

lemma advances_append:
  assumes "advances now st0 a" and "pending b = pending a @ new"
  shows "advances now st0 b"
  unfolding advances_def
proof (intro allI impI)
  fix i e assume "map_of (pending st0) i = Some e" "now < pp_expires_at e"
  with assms(1) obtain e' where "map_of (pending a) i = Some e'" "same_pairing e e'" by (auto simp: advances_def)
  with assms(2) show "\<exists>e'. map_of (pending b) i = Some e' \<and> same_pairing e e'" by (intro exI [of _ e']) simp
qed

lemma pairing_start_advances:
  assumes "reservations_ok st0" and "pairing_start now source start generated exists st0 = (r, st)"
  shows "advances now st0 st"
proof -
  have cleaned: "pending (cleaned now st0) = pending (remove_expired now st0)" by (simp add: cleaned_def)
  from assms(2) have "\<exists>new. pending st = pending (remove_expired now st0) @ new"
    by (cases rule: pairing_start_cases) (simp_all add: cleaned)
  with advances_expired [OF assms(1), of now] show ?thesis
    using advances_append by blast
qed

lemma awaiting_same_pairing:
  "pp_status e = AwaitingApproval \<Longrightarrow> same_pairing e (e\<lparr>pp_status := Approved a\<rparr>)"
  "pp_status e = AwaitingApproval \<Longrightarrow> same_pairing e (e\<lparr>pp_status := Denied\<rparr>)"
  "pp_status e = Approved a \<Longrightarrow> same_pairing e (e\<lparr>pp_client_name := [], pp_code := [], pp_status := Completed c\<rparr>)"
  by (simp_all add: same_pairing_def status_step.intros)

lemma pairing_step_advances:
  assumes "pairing_step \<sigma> \<tau>" and "reservations_ok (ps_store \<sigma>)"
  shows "advances (ps_clock \<tau>) (ps_store \<sigma>) (ps_store \<tau>)"
  using assms(1)
proof cases
  case (started now generated source start exists r st)
  then show ?thesis using pairing_start_advances [OF assms(2)] by simp
next
  case (reviewed now env code r st)
  then show ?thesis using advances_refl advances_expired [OF assms(2)]
    by (auto simp: pairing_review_def Let_def split: option.splits if_splits)
next
  case (approved now i code expiry bind w r st w')
  then show ?thesis using advances_refl advances_expired [OF assms(2)]
    by (auto simp: pairing_approve_def Let_def intro!: advances_status [OF assms(2)] awaiting_same_pairing
        split: option.splits if_splits prod.splits sum.splits)
next
  case (denied now i code r st)
  then show ?thesis using advances_refl advances_expired [OF assms(2)]
    by (auto simp: pairing_deny_def Let_def intro!: advances_status [OF assms(2)] awaiting_same_pairing
        split: option.splits if_splits)
next
  case (claimed now i verifier activate w r st w')
  then show ?thesis using advances_refl advances_expired [OF assms(2)]
    by (auto simp: pairing_claim_def Let_def intro!: advances_status [OF assms(2)] awaiting_same_pairing
        split: option.splits if_splits prod.splits sum.splits PairingStatus.splits)
next
  case (ticked now)
  then show ?thesis using advances_expired [OF assms(2)] by simp
qed

text \<open>
  The life of a pairing. Until it expires no step loses a pairing or changes its key, permission or expiry, and its
  status only moves from awaiting approval to approved or denied and from approved to completed: a denial and a completed
  claim are final.
\<close>

theorem pairing_status_progress:
  assumes "pairing_init \<sigma>\<^sub>0" and "pairing_step\<^sup>*\<^sup>* \<sigma>\<^sub>0 \<sigma>" and "pairing_step \<sigma> \<tau>"
    and "map_of (pending (ps_store \<sigma>)) i = Some e" and "ps_clock \<tau> < pp_expires_at e"
  shows "\<exists>e'. map_of (pending (ps_store \<tau>)) i = Some e' \<and> same_pairing e e'"
proof -
  have "reservations_ok (ps_store \<sigma>)"
    using pairing.reachable_inv [OF assms(1,2)] by (simp add: pairing_system_inv_def pairing_inv_def)
  from pairing_step_advances [OF assms(3) this] assms(4,5) show ?thesis by (simp add: advances_def)
qed

subsection \<open>Witnesses\<close>

definition sample_start :: ValidatedPairingStart where
  "sample_start = \<lparr>vps_client_name = ''cli'', vps_key_verifier = [1], vps_permission = BalancesRead\<rparr>"

definition empty_pairings :: PairingSystem where
  "empty_pairings = \<lparr>ps_store = pairing_store_new, ps_counted = [], ps_clock = 0\<rparr>"

definition started_pairings :: PairingSystem where
  "started_pairings = \<lparr>ps_store = \<lparr>pending = [([7], new_pairing 0 sample_start (encode_code (replicate 8 0)))], verifiers = {[1]},
     source_starts = [''ip'' \<mapsto> [0]], global_starts = [0]\<rparr>, ps_counted = [(''ip'', 0)], ps_clock = 0\<rparr>"

lemma empty_pairings_init: "pairing_init empty_pairings"
  by (simp add: empty_pairings_def pairing_init_def)

lemma started_pairings_step: "pairing_step empty_pairings started_pairings"
proof -
  let ?r = "Inr \<lparr>st_capability_id = [7], st_code = encode_code (replicate 8 0), st_expires_at = PAIRING_LIFETIME\<rparr>"
  have "pairing_start 0 ''ip'' sample_start [([7], replicate 8 0)] (\<lambda>_. Inr False) (ps_store empty_pairings) =
      (?r, ps_store started_pairings)"
    by (simp add: pairing_start_def empty_pairings_def started_pairings_def pairing_store_new_def remove_expired_def
        prune_rate_limits_def prune_starts_def rate_limit_retry_after_def record_start_def front_def new_pairing_def
        sample_start_def MAX_GLOBAL_STARTS_def MAX_PENDING_PAIRINGS_def Let_def)
  from pairing_step.started [OF _ _ this] show ?thesis
    by (simp add: empty_pairings_def started_pairings_def counted_def)
qed

lemma started_pairings_reached: "pairing_step\<^sup>*\<^sup>* empty_pairings started_pairings"
  using started_pairings_step by (rule r_into_rtranclp)

theorem pairing_store_invariant_witness: "verifiers (ps_store started_pairings) = {[1]} \<and> codes_ok (pending (ps_store started_pairings))"
  using pairing_store_invariant [OF empty_pairings_init started_pairings_reached] by (simp add: started_pairings_def)

theorem pairing_rate_limits_witness: "window_bounded SOURCE_WINDOW 10 [0] \<and> source_times ''ip'' (ps_counted started_pairings) = [0]"
  using pairing_rate_limits [OF empty_pairings_init started_pairings_reached, of "''ip''"]
  by (simp add: started_pairings_def source_times_def)

theorem pairing_status_progress_witness:
  "\<exists>e'. map_of (pending (ps_store started_pairings)) [7] = Some e' \<and>
     same_pairing (new_pairing 0 sample_start (encode_code (replicate 8 0))) e'"
proof -
  have tick: "pairing_step started_pairings (started_pairings\<lparr>ps_store := remove_expired 0 (ps_store started_pairings), ps_clock := 0\<rparr>)"
    by (rule pairing_step.ticked) (simp add: started_pairings_def)
  have live: "remove_expired 0 (ps_store started_pairings) = ps_store started_pairings"
    by (simp add: remove_expired_def started_pairings_def new_pairing_def PAIRING_LIFETIME_def SECOND_def)
  from pairing_status_progress [OF empty_pairings_init started_pairings_reached tick, of "[7]"] show ?thesis
    by (simp add: live) (simp add: started_pairings_def new_pairing_def PAIRING_LIFETIME_def SECOND_def)
qed

definition approved_pairing :: PendingPairing where
  "approved_pairing = (new_pairing 0 sample_start (encode_code (replicate 8 0)))\<lparr>pp_status := Approved
     \<lparr>ap_user_id = ''u'', ap_dek = None, ap_lease = \<lparr>lease_user = ''u'', lease_capability = None\<rparr>, ap_active_expires_at = None\<rparr>\<rparr>"

definition approved_store :: PairingState where
  "approved_store = \<lparr>pending = [([7], approved_pairing)], verifiers = {[1]}, source_starts = Map.empty, global_starts = []\<rparr>"

lemma approved_store_inv: "pairing_inv approved_store"
  using encode_code_valid [of "replicate 8 0"]
  by (simp add: pairing_inv_def approved_store_def approved_pairing_def reservations_ok_def codes_ok_def starts_ok_def
      entry_code_ok_def is_completed_def new_pairing_def sample_start_def MAX_PENDING_PAIRINGS_def)

theorem pairing_claim_sound_witness:
  "\<exists>st. pairing_claim 0 [7] [1] (\<lambda>c w. (Inr \<lparr>cp_user_id = cl_user_id c, cp_permission = cl_permission c\<rparr>, w)) approved_store () =
       (Inr \<lparr>cp_user_id = ''u'', cp_permission = BalancesRead\<rparr>, st, ()) \<and>
     fst (pairing_claim 1 [7] [1] (\<lambda>c w. (Inl (), w)) st ()) = Inr \<lparr>cp_user_id = ''u'', cp_permission = BalancesRead\<rparr>"
proof -
  let ?activate = "\<lambda>c w. (Inr \<lparr>cp_user_id = cl_user_id c, cp_permission = cl_permission c\<rparr>, w)"
  let ?c = "\<lparr>cp_user_id = ''u'', cp_permission = BalancesRead\<rparr>"
  have "\<exists>st. pairing_claim 0 [7] [1] ?activate approved_store () = (Inr ?c, st, ())"
    by (simp add: pairing_claim_def remove_expired_def approved_store_def approved_pairing_def new_pairing_def sample_start_def
        PAIRING_LIFETIME_def SECOND_def Let_def)
  then obtain st where st: "pairing_claim 0 [7] [1] ?activate approved_store () = (Inr ?c, st, ())" by blast
  obtain e where e: "map_of (pending approved_store) [7] = Some e"
    and again: "\<forall>later again (u :: unit). later < pp_expires_at e \<longrightarrow>
       pairing_claim later [7] [1] again st u = (Inr ?c, remove_expired later st, u)"
    using pairing_claim_sound [OF approved_store_inv st] by (elim exE conjE) (rule that)
  have "1 < pp_expires_at e"
  proof -
    have "e = approved_pairing" using e by (simp add: approved_store_def)
    then show ?thesis by (simp add: approved_pairing_def new_pairing_def PAIRING_LIFETIME_def SECOND_def)
  qed
  with again have "pairing_claim 1 [7] [1] (\<lambda>c w. (Inl (), w)) st () = (Inr ?c, remove_expired 1 st, ())" by simp
  with st show ?thesis by (intro exI [of _ st]) simp
qed

end
