(* ===== verification/Sync_Limits.thy ===== *)
theory Sync_Limits
  imports Domain "HOL-Library.AList"
begin

section \<open>Account allowances and provider rate limits\<close>

text \<open>
  Which accounts are synced and when a provider is left alone: the allowances of
  \<open>src/src/payments/account_allowances.rs\<close>, the classification of accounts of \<open>src/src/account_limits.rs\<close>, the reasons
  for a pause of \<open>src/src/account_mode.rs\<close>, and the rate limiter of \<open>src/src/tasks/jobs/sync/rate_limit.rs\<close>.

  Instants and durations are nanoseconds. The hash that spreads the retries of different users (\<open>DefaultHasher\<close>) and the
  addition of a duration to a date, which may leave the range of dates, are arguments. The map of the limiter is an
  association list, so that the readers that iterate over it are as in the code. The result of \<open>classify_native_account_modes\<close> is the list of pairs the code collects into a hash map.
\<close>

type_synonym u16 = "16 word"

subsection \<open>Allowances\<close>

record AccountAllowances =
  balance_sync :: u16
  transaction_history_sync :: u16
  manual :: u16

datatype InvalidAccountAllowances = TransactionsExceedBalances | ExceedsStorageSafeguard

definition SUPPORTED_ACCOUNT_HARD_CAP :: nat where
  "SUPPORTED_ACCOUNT_HARD_CAP = 5000"

definition allowances_try_new :: "u16 \<Rightarrow> u16 \<Rightarrow> u16 \<Rightarrow> InvalidAccountAllowances + AccountAllowances" where
  "allowances_try_new balance history manual_accounts =
     (if history > balance then Inl TransactionsExceedBalances
      else if unat balance + unat manual_accounts > SUPPORTED_ACCOUNT_HARD_CAP then Inl ExceedsStorageSafeguard
      else Inr \<lparr>balance_sync = balance, transaction_history_sync = history, manual = manual_accounts\<rparr>)"

datatype NativeAccountMode = Transactions | BalanceOnly | Inactive

record NativeAccountModeRecord =
  nr_account_id :: ulid
  nr_admitted_at :: time
  nr_supports_balance_sync :: bool
  nr_supports_transaction_sync :: bool

definition admission_order :: "NativeAccountModeRecord list \<Rightarrow> NativeAccountModeRecord list" where
  "admission_order records = sort_key (\<lambda>r. (nr_admitted_at r, nr_account_id r)) records"

text \<open>The loop with its two counters; the accounts taken so far and those of them with history.\<close>

fun assign_modes :: "AccountAllowances \<Rightarrow> u16 \<Rightarrow> u16 \<Rightarrow> NativeAccountModeRecord list \<Rightarrow> (ulid \<times> NativeAccountMode) list" where
  "assign_modes allowances balance_count transaction_count [] = []"
| "assign_modes allowances balance_count transaction_count (record # records) =
     (if \<not> nr_supports_balance_sync record \<or> balance_count \<ge> balance_sync allowances
      then (nr_account_id record, Inactive) # assign_modes allowances balance_count transaction_count records
      else if nr_supports_transaction_sync record \<and> transaction_count < transaction_history_sync allowances
      then (nr_account_id record, Transactions) # assign_modes allowances (balance_count + 1) (transaction_count + 1) records
      else (nr_account_id record, BalanceOnly) # assign_modes allowances (balance_count + 1) transaction_count records)"

definition classify_native_account_modes ::
  "NativeAccountModeRecord list \<Rightarrow> AccountAllowances \<Rightarrow> (ulid \<times> NativeAccountMode) list" where
  "classify_native_account_modes records allowances = assign_modes allowances 0 0 (admission_order records)"

datatype SupportedAccountKind = NativeKind | ManualAssetKind

datatype AccountActivationState = ActiveAccount | InactiveAccount

record SupportedAccountLimitRecord =
  sr_account_id :: ulid
  sr_kind :: SupportedAccountKind
  sr_created_at :: time

record ClassifiedAccount =
  ca_account_id :: ulid
  ca_kind :: SupportedAccountKind
  ca_state :: AccountActivationState

definition classify_supported_accounts :: "SupportedAccountLimitRecord list \<Rightarrow> nat \<Rightarrow> ClassifiedAccount list" where
  "classify_supported_accounts accounts active_limit =
     map (\<lambda>(index, account). \<lparr>ca_account_id = sr_account_id account, ca_kind = sr_kind account,
            ca_state = (if index < active_limit then ActiveAccount else InactiveAccount)\<rparr>)
       (enumerate 0 (sort_key (\<lambda>a. (sr_created_at a, sr_account_id a)) accounts))"

definition would_exceed_supported_account_hard_cap :: "nat \<Rightarrow> nat \<Rightarrow> bool" where
  "would_exceed_supported_account_hard_cap current creating \<longleftrightarrow> current + creating > SUPPORTED_ACCOUNT_HARD_CAP"

datatype TransactionSyncPauseReason = AccountAllowance | TransactionThreshold | PausedInactive

definition transaction_sync_pause_reason :: "NativeAccountMode \<Rightarrow> u32 \<Rightarrow> u32 \<Rightarrow> TransactionSyncPauseReason option" where
  "transaction_sync_pause_reason mode canonical_transaction_count threshold =
     (case mode of
        Transactions \<Rightarrow> if canonical_transaction_count \<ge> threshold then Some TransactionThreshold else None
      | BalanceOnly \<Rightarrow> Some AccountAllowance
      | Inactive \<Rightarrow> Some PausedInactive)"

subsection \<open>Rate limits\<close>

record RateLimitState =
  blocked_until :: time
  consecutive_hits :: u32

type_synonym RateLimitScopeKey = "ulid \<times> string"

type_synonym RateLimiter = "(RateLimitScopeKey \<times> RateLimitState) list"

definition LABEL_MEMPOOL :: string where "LABEL_MEMPOOL = ''mempool''"
definition LABEL_ETHERSCAN :: string where "LABEL_ETHERSCAN = ''etherscan''"

definition MILLISECOND :: int where "MILLISECOND = 1000000"
definition MEMPOOL_RATE_LIMIT_BACKOFF_BASE :: int where "MEMPOOL_RATE_LIMIT_BACKOFF_BASE = 60 * 1000 * MILLISECOND"
definition MEMPOOL_RATE_LIMIT_BACKOFF_MAX :: int where "MEMPOOL_RATE_LIMIT_BACKOFF_MAX = 5 * 60 * 1000 * MILLISECOND"
definition ETHERSCAN_RATE_LIMIT_BACKOFF :: int where "ETHERSCAN_RATE_LIMIT_BACKOFF = 15 * 60 * 1000 * MILLISECOND"

definition scale_duration :: "int \<Rightarrow> u32 \<Rightarrow> int" where
  "scale_duration d factor =
     (if factor = 0 then 0
      else let millis = d div MILLISECOND;
               scaled = min (millis * uint factor) (2 ^ 128 - 1)
           in (if scaled < 2 ^ 64 then scaled else 2 ^ 64 - 1) * MILLISECOND)"

definition capped_mempool_rate_limit_backoff :: "u32 \<Rightarrow> int" where
  "capped_mempool_rate_limit_backoff hits =
     (let exponent = min (unat (saturating_sub_u hits 1)) 6;
          factor = push_bit exponent 1
      in min (scale_duration MEMPOOL_RATE_LIMIT_BACKOFF_BASE factor) MEMPOOL_RATE_LIMIT_BACKOFF_MAX)"

definition rate_limit_jitter :: "(RateLimitScopeKey \<Rightarrow> u64) \<Rightarrow> RateLimitScopeKey \<Rightarrow> int \<Rightarrow> int" where
  "rate_limit_jitter hash scope backoff =
     (let max_jitter_ms = min (backoff div MILLISECOND div 5) 5000 in
      if max_jitter_ms = 0 then 0 else (uint (hash scope) mod (max_jitter_ms + 1)) * MILLISECOND)"

definition rate_limit_backoff_for_scope ::
  "(RateLimitScopeKey \<Rightarrow> u64) \<Rightarrow> RateLimitScopeKey \<Rightarrow> u32 \<Rightarrow> int option \<Rightarrow> int" where
  "rate_limit_backoff_for_scope hash scope hits retry_after =
     (if snd scope = LABEL_ETHERSCAN
      then max ETHERSCAN_RATE_LIMIT_BACKOFF (case retry_after of None \<Rightarrow> 0 | Some r \<Rightarrow> r)
      else
        let base = capped_mempool_rate_limit_backoff hits;
            jitter = rate_limit_jitter hash scope base;
            with_jitter = min (base + jitter) MEMPOOL_RATE_LIMIT_BACKOFF_MAX
        in case retry_after of Some r \<Rightarrow> max with_jitter r | None \<Rightarrow> with_jitter)"

definition record_rate_limit ::
  "(RateLimitScopeKey \<Rightarrow> u64) \<Rightarrow> ulid \<Rightarrow> string \<Rightarrow> time \<Rightarrow> int option \<Rightarrow> RateLimiter \<Rightarrow> RateLimiter" where
  "record_rate_limit hash user_id integration now retry_after limiter =
     (let scope = (user_id, integration);
          hits = (case map_of limiter scope of
                    None \<Rightarrow> 1
                  | Some previous \<Rightarrow> if now < blocked_until previous then saturating_add_u (consecutive_hits previous) 1 else 1);
          backoff = rate_limit_backoff_for_scope hash scope hits retry_after
      in AList.update scope \<lparr>blocked_until = now + backoff, consecutive_hits = hits\<rparr> limiter)"

definition is_rate_limited :: "ulid \<Rightarrow> string \<Rightarrow> time \<Rightarrow> RateLimiter \<Rightarrow> bool \<times> RateLimiter" where
  "is_rate_limited user_id integration now limiter =
     (case map_of limiter (user_id, integration) of
        None \<Rightarrow> (False, limiter)
      | Some state \<Rightarrow>
          if now < blocked_until state then (True, limiter) else (False, AList.delete (user_id, integration) limiter))"

definition retain_blocked :: "time \<Rightarrow> RateLimiter \<Rightarrow> RateLimiter" where
  "retain_blocked now limiter = filter (\<lambda>(_, state). now < blocked_until state) limiter"

definition blocked_integrations_for_user ::
  "ulid \<Rightarrow> time \<Rightarrow> SyncIntegrationId set \<Rightarrow> RateLimiter \<Rightarrow> SyncIntegrationId set \<times> RateLimiter" where
  "blocked_integrations_for_user user_id now integrations limiter =
     (let kept = retain_blocked now limiter in
      (set (List.map_filter (\<lambda>(scope, state).
          if fst scope \<noteq> user_id \<or> now \<ge> blocked_until state then None
          else case integration_from_db_value (snd scope) of
                 None \<Rightarrow> None
               | Some i \<Rightarrow> if i \<in> integrations then Some i else None) kept),
       kept))"

definition retry_after_utc_for_integration ::
  "(time \<Rightarrow> int \<Rightarrow> time option) \<Rightarrow> ulid \<Rightarrow> string \<Rightarrow> time \<Rightarrow> time \<Rightarrow> RateLimiter \<Rightarrow> time option" where
  "retry_after_utc_for_integration checked_add_utc user_id label now_instant now_utc limiter =
     (case map_of limiter (user_id, label) of
        None \<Rightarrow> None
      | Some state \<Rightarrow>
          if now_instant < blocked_until state then checked_add_utc now_utc (blocked_until state - now_instant) else None)"

definition earliest_rate_limit_unblock_for_integrations ::
  "ulid \<Rightarrow> time \<Rightarrow> SyncIntegrationId set \<Rightarrow> RateLimiter \<Rightarrow> time option \<times> RateLimiter" where
  "earliest_rate_limit_unblock_for_integrations user_id now integrations limiter =
     (if integrations = {} then (None, limiter)
      else
        let kept = retain_blocked now limiter in
        (min_by_key id (List.map_filter (\<lambda>(scope, state).
            if fst scope = user_id \<and> now < blocked_until state \<and> snd scope \<in> integration_as_db_value ` integrations
            then Some (blocked_until state) else None) kept),
         kept))"

subsection \<open>Modes by rank\<close>

text \<open>The mode of an account from the accounts admitted before it, without counters.\<close>

definition ranked_mode :: "AccountAllowances \<Rightarrow> NativeAccountModeRecord list \<Rightarrow> NativeAccountModeRecord \<Rightarrow> NativeAccountMode" where
  "ranked_mode allowances before r =
     (if \<not> nr_supports_balance_sync r \<or> length (filter nr_supports_balance_sync before) \<ge> unat (balance_sync allowances) then Inactive
      else if nr_supports_transaction_sync r \<and>
        length (filter (\<lambda>b. nr_supports_balance_sync b \<and> nr_supports_transaction_sync b) before)
          < unat (transaction_history_sync allowances)
      then Transactions else BalanceOnly)"

lemma unat_Suc_below: "n < m \<Longrightarrow> unat (n + 1 :: 'a::len word) = Suc (unat n)"
proof -
  assume "n < m"
  then have "unat n < unat m" by (simp add: word_less_nat_alt)
  moreover have "unat m < 2 ^ LENGTH('a)" by (rule unsigned_less)
  ultimately have "unat n + unat (1 :: 'a word) < 2 ^ LENGTH('a)" unfolding unsigned_1 by linarith
  from unat_add_no_overflow [OF this] show ?thesis by simp
qed

lemma assign_modes_ranked:
  fixes before :: "NativeAccountModeRecord list"
  assumes "unat balance_count = min (length (filter nr_supports_balance_sync before)) (unat (balance_sync allowances))"
    and "length (filter nr_supports_balance_sync before) < unat (balance_sync allowances) \<Longrightarrow> unat transaction_count =
      min (length (filter (\<lambda>b. nr_supports_balance_sync b \<and> nr_supports_transaction_sync b) before))
        (unat (transaction_history_sync allowances))"
  shows "assign_modes allowances balance_count transaction_count rs =
    map (\<lambda>k. (nr_account_id (rs ! k), ranked_mode allowances (before @ take k rs) (rs ! k))) [0..<length rs]"
  using assms
proof (induction rs arbitrary: before balance_count transaction_count)
  case (Cons r rs)
  let ?nb = "length (filter nr_supports_balance_sync before)"
  let ?nt = "length (filter (\<lambda>b. nr_supports_balance_sync b \<and> nr_supports_transaction_sync b) before)"
  have full: "balance_count \<ge> balance_sync allowances \<longleftrightarrow> ?nb \<ge> unat (balance_sync allowances)"
    using Cons.prems(1) by (auto simp: word_le_nat_alt)
  have room: "transaction_count < transaction_history_sync allowances \<longleftrightarrow> ?nt < unat (transaction_history_sync allowances)"
    if "?nb < unat (balance_sync allowances)"
    using Cons.prems(2) [OF that] by (auto simp: word_less_nat_alt)
  have rest: "assign_modes allowances bc tc rs =
      map (\<lambda>k. (nr_account_id (rs ! k), ranked_mode allowances (before @ r # take k rs) (rs ! k))) [0..<length rs]"
    if "unat bc = min (length (filter nr_supports_balance_sync (before @ [r]))) (unat (balance_sync allowances))"
      and "length (filter nr_supports_balance_sync (before @ [r])) < unat (balance_sync allowances) \<Longrightarrow> unat tc =
        min (length (filter (\<lambda>b. nr_supports_balance_sync b \<and> nr_supports_transaction_sync b) (before @ [r])))
          (unat (transaction_history_sync allowances))" for bc tc
    using Cons.IH [OF that] by simp
  show ?case
  proof (cases "nr_supports_balance_sync r \<and> ?nb < unat (balance_sync allowances)")
    case True
    then have b: "unat (balance_count + 1) = Suc ?nb"
      using unat_Suc_below [of balance_count "balance_sync allowances"] full Cons.prems(1) by (simp add: not_le)
    show ?thesis
    proof (cases "nr_supports_transaction_sync r \<and> ?nt < unat (transaction_history_sync allowances)")
      case t: True
      then have "unat (transaction_count + 1) = Suc ?nt"
        using True unat_Suc_below [of transaction_count "transaction_history_sync allowances"] room Cons.prems(2) by simp
      then show ?thesis using True t b full room
        by (simp add: rest map_upt_Suc ranked_mode_def not_le del: upt_Suc)
    next
      case f: False
      then show ?thesis using True b full room Cons.prems(2)
        by (auto simp add: rest map_upt_Suc ranked_mode_def not_le simp del: upt_Suc)
    qed
  next
    case False
    then have "assign_modes allowances balance_count transaction_count (r # rs) =
        (nr_account_id r, Inactive) # assign_modes allowances balance_count transaction_count rs"
      and "ranked_mode allowances before r = Inactive"
      using full by (auto simp: ranked_mode_def not_less)
    moreover have "unat balance_count = min (length (filter nr_supports_balance_sync (before @ [r]))) (unat (balance_sync allowances))"
      using False Cons.prems(1) by auto
    moreover have "assign_modes allowances balance_count transaction_count rs =
        map (\<lambda>k. (nr_account_id (rs ! k), ranked_mode allowances (before @ r # take k rs) (rs ! k))) [0..<length rs]"
      using calculation(3) by (rule rest) (use False Cons.prems(2) in \<open>auto split: if_splits\<close>)
    ultimately show ?thesis by (simp add: map_upt_Suc del: upt_Suc assign_modes.simps)
  qed
qed simp

text \<open>
  C14. The modes of the accounts. In the order of admission (date, then identifier) an account is synced exactly while fewer
  accounts that support balances precede it than the balance allowance, and among those its history is synced exactly when
  it supports history and fewer such accounts precede it than the history allowance. The sixteen-bit counters of the code
  never wrap.
\<close>

theorem classify_native_account_modes_ranked:
  "classify_native_account_modes records allowances =
     (let rs = admission_order records in
      map (\<lambda>k. (nr_account_id (rs ! k), ranked_mode allowances (take k rs) (rs ! k))) [0..<length rs])"
  using assign_modes_ranked [of 0 "[]" allowances 0 "admission_order records"]
  by (simp add: classify_native_account_modes_def Let_def)

subsection \<open>How long a provider is left alone\<close>

lemma scale_power:
  "n \<le> 6 \<Longrightarrow> scale_duration MEMPOOL_RATE_LIMIT_BACKOFF_BASE (push_bit n 1) = MEMPOOL_RATE_LIMIT_BACKOFF_BASE * 2 ^ n"
proof -
  assume "n \<le> 6"
  then have "n \<in> {0, 1, 2, 3, 4, 5, 6}" by auto
  then show ?thesis
    by (auto simp: scale_duration_def MEMPOOL_RATE_LIMIT_BACKOFF_BASE_def MILLISECOND_def push_bit_eq_mult Let_def)
qed

lemma capped_backoff:
  "capped_mempool_rate_limit_backoff hits =
     min (MEMPOOL_RATE_LIMIT_BACKOFF_BASE * 2 ^ min (unat hits - 1) 6) MEMPOOL_RATE_LIMIT_BACKOFF_MAX"
  using scale_power [of "min (unat hits - 1) 6"] by (simp add: capped_mempool_rate_limit_backoff_def Let_def)

lemma jitter_nonneg: "0 \<le> backoff \<Longrightarrow> 0 \<le> rate_limit_jitter hash scope backoff"
  by (simp add: rate_limit_jitter_def MILLISECOND_def Let_def)

lemmas backoff_consts = MEMPOOL_RATE_LIMIT_BACKOFF_BASE_def MEMPOOL_RATE_LIMIT_BACKOFF_MAX_def
  ETHERSCAN_RATE_LIMIT_BACKOFF_def MILLISECOND_def

lemma capped_nonneg: "60000000000 \<le> capped_mempool_rate_limit_backoff hits"
  by (simp add: capped_backoff backoff_consts)

lemma backoff_bounds:
  fixes hash :: "RateLimitScopeKey \<Rightarrow> u64" and scope :: RateLimitScopeKey and hits :: u32 and retry_after :: "int option"
  defines "b \<equiv> rate_limit_backoff_for_scope hash scope hits retry_after"
  shows "snd scope \<noteq> LABEL_ETHERSCAN \<Longrightarrow>
      min (60000000000 * 2 ^ min (unat hits - 1) 6) 300000000000 \<le> b \<and>
      b \<le> max 300000000000 (case retry_after of None \<Rightarrow> 0 | Some r \<Rightarrow> r)"
    and "snd scope = LABEL_ETHERSCAN \<Longrightarrow> b = max 900000000000 (case retry_after of None \<Rightarrow> 0 | Some r \<Rightarrow> r)"
    and "retry_after = Some r \<Longrightarrow> r \<le> b"
proof -
  have "0 \<le> rate_limit_jitter hash scope (capped_mempool_rate_limit_backoff hits)"
    using capped_nonneg [of hits] by (intro jitter_nonneg) simp
  then show "snd scope \<noteq> LABEL_ETHERSCAN \<Longrightarrow>
      min (60000000000 * 2 ^ min (unat hits - 1) 6) 300000000000 \<le> b \<and>
      b \<le> max 300000000000 (case retry_after of None \<Rightarrow> 0 | Some r \<Rightarrow> r)"
    unfolding b_def rate_limit_backoff_for_scope_def capped_backoff
    by (cases retry_after) (simp_all add: Let_def backoff_consts, auto simp: min_def max_def)
qed (auto simp: b_def rate_limit_backoff_for_scope_def Let_def backoff_consts)

definition blocked :: "RateLimiter \<Rightarrow> RateLimitScopeKey \<Rightarrow> time \<Rightarrow> bool" where
  "blocked limiter scope t = (case map_of limiter scope of None \<Rightarrow> False | Some state \<Rightarrow> t < blocked_until state)"

lemma is_rate_limited_answer [simp]: "fst (is_rate_limited u i t limiter) = blocked limiter (u, i) t"
  by (simp add: is_rate_limited_def blocked_def split: option.splits)

text \<open>
  A provider that limits a user is left alone. After a limit is recorded the user may not use the provider until the
  backoff is over: at least the time the provider asked for, at least fifteen minutes for Etherscan, and for Mempool at
  least a minute, doubled with each limit recorded while the previous one lasted, up to five minutes, and no longer than
  five minutes unless the provider asked for it. No other user and no other provider is affected.
\<close>

theorem rate_limit_respected:
  "\<exists>b state. map_of (record_rate_limit hash u i now retry_after limiter) (u, i) = Some state \<and>
     consecutive_hits state = (case map_of limiter (u, i) of
         None \<Rightarrow> 1 | Some previous \<Rightarrow> if now < blocked_until previous then saturating_add_u (consecutive_hits previous) 1 else 1) \<and>
     (\<forall>t. fst (is_rate_limited u i t (record_rate_limit hash u i now retry_after limiter)) = (t < now + b)) \<and>
     (case retry_after of None \<Rightarrow> True | Some r \<Rightarrow> r \<le> b) \<and>
     (if i = LABEL_ETHERSCAN then b = max 900000000000 (case retry_after of None \<Rightarrow> 0 | Some r \<Rightarrow> r)
      else min (60000000000 * 2 ^ min (unat (consecutive_hits state) - 1) 6) 300000000000 \<le> b \<and>
        b \<le> max 300000000000 (case retry_after of None \<Rightarrow> 0 | Some r \<Rightarrow> r)) \<and>
     (\<forall>j. j = (u, i) \<or> map_of (record_rate_limit hash u i now retry_after limiter) j = map_of limiter j)"
proof -
  let ?hits = "case map_of limiter (u, i) of
         None \<Rightarrow> 1 | Some previous \<Rightarrow> if now < blocked_until previous then saturating_add_u (consecutive_hits previous) 1 else 1"
  let ?b = "rate_limit_backoff_for_scope hash (u, i) ?hits retry_after"
  have step: "map_of (record_rate_limit hash u i now retry_after limiter) =
      (map_of limiter)((u, i) \<mapsto> \<lparr>blocked_until = now + ?b, consecutive_hits = ?hits\<rparr>)"
    by (simp add: record_rate_limit_def Let_def update_conv')
  show ?thesis
    using backoff_bounds [where scope = "(u, i)" and hits = ?hits and retry_after = retry_after and hash = hash]
    by (intro exI [of _ ?b] exI [of _ "\<lparr>blocked_until = now + ?b, consecutive_hits = ?hits\<rparr>"])
      (auto simp: step blocked_def split: option.splits)
qed

subsection \<open>The readers of the limiter agree\<close>

lemma map_of_retain:
  "distinct (map fst limiter) \<Longrightarrow> map_of (retain_blocked t limiter) j =
     (case map_of limiter j of None \<Rightarrow> None | Some state \<Rightarrow> if t < blocked_until state then Some state else None)"
  by (induction limiter) (auto simp: retain_blocked_def map_of_eq_None_iff split: option.splits)

lemma distinct_retain: "distinct (map fst limiter) \<Longrightarrow> distinct (map fst (retain_blocked t limiter))"
  by (simp add: retain_blocked_def distinct_map_filter)

lemma retain_member:
  "distinct (map fst limiter) \<Longrightarrow> (j, state) \<in> set (retain_blocked t limiter) \<longleftrightarrow> map_of limiter j = Some state \<and> t < blocked_until state"
  by (auto simp: retain_blocked_def)

lemma integration_label [simp]: "integration_from_db_value v = Some i \<longleftrightarrow> v = integration_as_db_value i"
  by (cases i) (auto simp: integration_from_db_value_def)

lemma integration_label_back [simp]: "integration_from_db_value (integration_as_db_value i) = Some i"
  by simp

lemma integration_label_inject [simp]: "integration_as_db_value i = integration_as_db_value j \<longleftrightarrow> i = j"
  by (cases i; cases j) simp_all

lemma blocked_integrations_exact:
  assumes "distinct (map fst limiter)"
  shows "fst (blocked_integrations_for_user u t integrations limiter) =
    {i \<in> integrations. blocked limiter (u, integration_as_db_value i) t}"
proof (rule set_eqI)
  fix i
  have "i \<in> fst (blocked_integrations_for_user u t integrations limiter) \<longleftrightarrow>
      i \<in> integrations \<and> (\<exists>state. ((u, integration_as_db_value i), state) \<in> set (retain_blocked t limiter) \<and> t < blocked_until state)"
  proof -
    have "(if fst j \<noteq> u \<or> t \<ge> blocked_until state then None
          else case integration_from_db_value (snd j) of
                 None \<Rightarrow> None | Some i \<Rightarrow> if i \<in> integrations then Some i else None) = Some i \<longleftrightarrow>
        j = (u, integration_as_db_value i) \<and> t < blocked_until state \<and> i \<in> integrations" for j and state :: RateLimitState
      by (cases j) (auto split: option.splits)
    then show ?thesis
      by (simp add: blocked_integrations_for_user_def Let_def in_set_map_filter case_prod_beta Bex_def) metis
  qed
  then show "i \<in> fst (blocked_integrations_for_user u t integrations limiter) \<longleftrightarrow>
      i \<in> {i \<in> integrations. blocked limiter (u, integration_as_db_value i) t}"
    by (auto simp: retain_member [OF assms] blocked_def split: option.splits)
qed

lemma blocked_retain:
  "distinct (map fst limiter) \<Longrightarrow> t \<le> later \<Longrightarrow> blocked (retain_blocked t limiter) j later = blocked limiter j later"
  by (auto simp: blocked_def map_of_retain split: option.splits)

definition unblock_times :: "RateLimiter \<Rightarrow> ulid \<Rightarrow> time \<Rightarrow> SyncIntegrationId set \<Rightarrow> time set" where
  "unblock_times limiter u t integrations =
     {blocked_until state | i state. i \<in> integrations \<and> map_of limiter (u, integration_as_db_value i) = Some state \<and>
        t < blocked_until state}"

lemma earliest_unblock_exact:
  assumes "distinct (map fst limiter)"
  shows "case fst (earliest_rate_limit_unblock_for_integrations u t integrations limiter) of
      None \<Rightarrow> unblock_times limiter u t integrations = {}
    | Some at \<Rightarrow> at \<in> unblock_times limiter u t integrations \<and> (\<forall>other \<in> unblock_times limiter u t integrations. at \<le> other)"
proof (cases "integrations = {}")
  case True
  then show ?thesis by (simp add: earliest_rate_limit_unblock_for_integrations_def unblock_times_def)
next
  case False
  let ?times = "List.map_filter (\<lambda>(scope, state).
      if fst scope = u \<and> t < blocked_until state \<and> snd scope \<in> integration_as_db_value ` integrations
      then Some (blocked_until state) else None) (retain_blocked t limiter)"
  have times: "set ?times = unblock_times limiter u t integrations"
  proof (rule set_eqI)
    fix at
    have "at \<in> set ?times \<longleftrightarrow> (\<exists>j state. (j, state) \<in> set (retain_blocked t limiter) \<and> fst j = u \<and> t < blocked_until state \<and>
        snd j \<in> integration_as_db_value ` integrations \<and> at = blocked_until state)"
      by (simp add: in_set_map_filter case_prod_beta Bex_def) metis
    also have "\<dots> \<longleftrightarrow> at \<in> unblock_times limiter u t integrations"
      by (simp add: retain_member [OF assms] unblock_times_def image_iff) metis
    finally show "at \<in> set ?times \<longleftrightarrow> at \<in> unblock_times limiter u t integrations" .
  qed
  have "fst (earliest_rate_limit_unblock_for_integrations u t integrations limiter) = min_by_key id ?times"
    using False by (simp add: earliest_rate_limit_unblock_for_integrations_def Let_def)
  with times show ?thesis by (auto split: option.splits dest!: min_by_key_Some)
qed

text \<open>
  The readers of the limiter agree. A provider is among the blocked ones of a user exactly when a request would be
  refused now; the earliest time of release is the least time at which one of the blocked providers asked about is
  released, and there is none exactly when none is blocked; and forgetting the entries that have lapsed changes no later
  answer.
\<close>

theorem rate_limit_readers_agree:
  assumes "distinct (map fst limiter)"
  shows "(\<forall>i. i \<in> fst (blocked_integrations_for_user u t integrations limiter) \<longleftrightarrow>
      i \<in> integrations \<and> fst (is_rate_limited u (integration_as_db_value i) t limiter)) \<and>
    (case fst (earliest_rate_limit_unblock_for_integrations u t integrations limiter) of
       None \<Rightarrow> fst (blocked_integrations_for_user u t integrations limiter) = {}
     | Some at \<Rightarrow> at \<in> unblock_times limiter u t integrations \<and> (\<forall>other \<in> unblock_times limiter u t integrations. at \<le> other)) \<and>
    (\<forall>v label later. t \<le> later \<longrightarrow>
       fst (is_rate_limited v label later (snd (blocked_integrations_for_user u t integrations limiter))) =
       fst (is_rate_limited v label later limiter))"
proof -
  have none: "fst (blocked_integrations_for_user u t integrations limiter) = {}" if "unblock_times limiter u t integrations = {}"
    using that unfolding blocked_integrations_exact [OF assms]
    by (auto simp: unblock_times_def blocked_def split: option.splits)
  have kept: "snd (blocked_integrations_for_user u t integrations limiter) = retain_blocked t limiter"
    by (simp add: blocked_integrations_for_user_def Let_def)
  show ?thesis
    using earliest_unblock_exact [OF assms, of u t integrations] none
    by (auto simp: blocked_integrations_exact [OF assms] kept blocked_retain [OF assms] split: option.splits)
qed

theorem rate_limit_readers_agree_witness:
  "fst (blocked_integrations_for_user ''u'' 5 {Mempool, Etherscan}
      [((''u'', ''mempool''), \<lparr>blocked_until = 10, consecutive_hits = 1\<rparr>), ((''u'', ''etherscan''), \<lparr>blocked_until = 4, consecutive_hits = 1\<rparr>)])
    = {Mempool}"
  using rate_limit_readers_agree [of "[((''u'', ''mempool''), \<lparr>blocked_until = 10, consecutive_hits = 1\<rparr>),
      ((''u'', ''etherscan''), \<lparr>blocked_until = 4, consecutive_hits = 1\<rparr>)]" "''u''" 5 "{Mempool, Etherscan}"]
  by (auto simp: blocked_def)

end
