(* ===== verification/Sync_Planner.thy ===== *)
theory Sync_Planner
  imports Sync_Limits Ledger_Publish "HOL-Library.Option_ord" "HOL-Library.Product_Lexorder"
begin

section \<open>Planning a sync run\<close>

text \<open>
  Which address is synced next: the planner of \<open>src/src/tasks/jobs/sync/planner.rs\<close> with the freshness rules of
  \<open>context.rs\<close>, the fetch policy of \<open>gate.rs\<close> and the backfill state of \<open>integrations\<close>. A timestamp is a number of
  nanoseconds; \<open>num_seconds\<close> rounds a difference of timestamps towards zero and \<open>to_std\<close> fails on a negative one. The
  sets and maps of the planner's input are sets and maps.
\<close>

subsection \<open>Addresses and accounts to sync\<close>

datatype SyncProviderId = MempoolSpace | EtherscanProvider

fun default_sync_provider :: "SyncedAssetId \<Rightarrow> SyncProviderId" where
  "default_sync_provider Bitcoin = MempoolSpace"
| "default_sync_provider Ethereum = EtherscanProvider"

datatype AddressScheme = Legacy | NestedSegwit | NativeSegwit | Taproot | Standard

datatype TriggerSource = Schedule | ManualInternal | AutoAdd | AutoUpgrade | AutoSessionRestore | AutoFreshness

record SyncAddress =
  sa_address_id :: ulid
  sa_address :: TrackedAddress
  sa_asset_id :: SyncedAssetId
  sa_network :: Network
  sa_account_id :: "ulid option"
  sa_derivation_change :: "u32 option"
  sa_derivation_index :: "u32 option"
  sa_address_scheme :: "AddressScheme option"
  sa_last_completed_at :: "time option"
  sa_last_result :: "TransactionSyncResult option"
  sa_last_tip_height :: "int option"
  sa_etherscan_transaction_tip_height :: "int option"
  sa_mempool_backfill_cursor_txid :: "TxHash option"
  sa_mempool_expected_tx_count :: "TransactionCount option"
  sa_mempool_history_proof :: "MempoolHistoryProof option"
  sa_mempool_history_scan_start_run_id :: "ulid option"
  sa_etherscan_backfill_end_block :: "int option"
  sa_etherscan_history_checkpoint_verified :: bool
  sa_has_api_confirmed_balance :: bool
  sa_consecutive_failure_count :: u32

record AccountSyncStateRow =
  as_account_id :: ulid
  as_last_scanned_time :: "time option"
  as_gap_limit :: u32
  as_last_derived_external_index :: "u32 option"
  as_last_derived_internal_index :: "u32 option"
  as_mempool_history_next_address_id :: "ulid option"

record AccountSyncBundle =
  ab_account_id :: ulid
  ab_asset_id :: SyncedAssetId
  ab_network :: Network
  ab_hd_key_extended_pubkey :: string
  ab_address_scheme :: AddressScheme
  ab_sync_state :: "AccountSyncStateRow option"
  ab_external_addresses :: "SyncAddress list"
  ab_internal_addresses :: "SyncAddress list"

datatype AddressBackfillCursor = MempoolCursor TxHash | EtherscanCursor int

record AddressBackfillState =
  bf_cursor :: AddressBackfillCursor
  bf_expected_tx_count :: "TransactionCount option"

definition mempool_unfinished_backfill_state :: "SyncAddress \<Rightarrow> AddressBackfillState option" where
  "mempool_unfinished_backfill_state address =
     map_option (\<lambda>cursor_txid. \<lparr>bf_cursor = MempoolCursor cursor_txid, bf_expected_tx_count = sa_mempool_expected_tx_count address\<rparr>)
       (sa_mempool_backfill_cursor_txid address)"

definition etherscan_unfinished_backfill_state :: "SyncAddress \<Rightarrow> AddressBackfillState option" where
  "etherscan_unfinished_backfill_state address =
     map_option (\<lambda>end_block. \<lparr>bf_cursor = EtherscanCursor end_block, bf_expected_tx_count = None\<rparr>)
       (sa_etherscan_backfill_end_block address)"

definition unfinished_backfill_state :: "SyncAddress \<Rightarrow> AddressBackfillState option" where
  "unfinished_backfill_state address =
     (case default_sync_provider (sa_asset_id address) of
        MempoolSpace \<Rightarrow> mempool_unfinished_backfill_state address
      | EtherscanProvider \<Rightarrow> etherscan_unfinished_backfill_state address)"

definition mempool_history_requires_first_page_restart :: "SyncAddress \<Rightarrow> bool" where
  "mempool_history_requires_first_page_restart address =
     (case sa_mempool_expected_tx_count address of
        None \<Rightarrow> False
      | Some expected \<Rightarrow>
          (case sa_mempool_history_proof address of
             None \<Rightarrow> expected > 0
           | Some proof \<Rightarrow> expected > proof_confirmed_tx_count proof))"

subsection \<open>Freshness\<close>

definition SECOND :: int where "SECOND = 1000 * MILLISECOND"
definition ACCOUNT_REFRESH_INTERVAL_MINUTES :: int where "ACCOUNT_REFRESH_INTERVAL_MINUTES = 15"
definition ACCOUNT_REFRESH_INTERVAL :: int where "ACCOUNT_REFRESH_INTERVAL = ACCOUNT_REFRESH_INTERVAL_MINUTES * 60 * SECOND"
definition BALANCE_REFRESH_TTL :: int where "BALANCE_REFRESH_TTL = ACCOUNT_REFRESH_INTERVAL"
definition ADDRESS_FAILURE_THRESHOLD :: u32 where "ADDRESS_FAILURE_THRESHOLD = 2"

definition num_seconds :: "int \<Rightarrow> int" where
  "num_seconds d = (if d < 0 then - ((- d) div SECOND) else d div SECOND)"

definition to_std :: "int \<Rightarrow> int option" where
  "to_std d = (if d < 0 then None else Some d)"

definition is_balance_refresh_fresh :: "time option \<Rightarrow> time \<Rightarrow> bool" where
  "is_balance_refresh_fresh last_completed_at now =
     (case last_completed_at of
        None \<Rightarrow> False
      | Some completed \<Rightarrow>
          let elapsed = now - completed in
          if num_seconds elapsed < 0 then True
          else case to_std elapsed of Some elapsed_std \<Rightarrow> elapsed_std < BALANCE_REFRESH_TTL | None \<Rightarrow> False)"

definition is_successful_balance_refresh_fresh ::
  "TriggerSource \<Rightarrow> TransactionSyncResult option \<Rightarrow> time option \<Rightarrow> time \<Rightarrow> bool" where
  "is_successful_balance_refresh_fresh source last_result last_completed_at now \<longleftrightarrow>
     source \<noteq> ManualInternal \<and> last_result = Some SyncSuccess \<and> is_balance_refresh_fresh last_completed_at now"

definition is_first_sync :: "int option \<Rightarrow> bool" where
  "is_first_sync last_tip_height = (case last_tip_height of None \<Rightarrow> True | Some height \<Rightarrow> height \<le> 0)"

datatype TransactionFetchPolicy = CurrentOnly | Normal TransactionCount | LegacyRepair

definition fetch_policy_normal :: "bool \<Rightarrow> TransactionCount \<Rightarrow> TransactionFetchPolicy" where
  "fetch_policy_normal enabled cap = (if enabled then Normal cap else CurrentOnly)"

fun permits_transaction_page :: "TransactionFetchPolicy \<Rightarrow> TransactionCount \<Rightarrow> bool" where
  "permits_transaction_page CurrentOnly stored_count = False"
| "permits_transaction_page (Normal cap) stored_count = (stored_count < cap)"
| "permits_transaction_page LegacyRepair stored_count = True"

subsection \<open>Priorities\<close>

datatype SyncIterationStopReason = NoEligibleAction | OnlyBlockedActions | BalanceRefreshesFresh

datatype SyncPlannerPriorityTier =
    ActiveUnfinishedBackfill | PendingTransactionRefresh | NeverAttemptedFirstSync | RetryableFailedAttempt
  | KnownActivityRefresh | BalanceRefresh | ColdRefresh | HdDerivation

text \<open>The derived order of the tiers is the order of the variants.\<close>

fun tier_rank :: "SyncPlannerPriorityTier \<Rightarrow> nat" where
  "tier_rank ActiveUnfinishedBackfill = 0"
| "tier_rank PendingTransactionRefresh = 1"
| "tier_rank NeverAttemptedFirstSync = 2"
| "tier_rank RetryableFailedAttempt = 3"
| "tier_rank KnownActivityRefresh = 4"
| "tier_rank BalanceRefresh = 5"
| "tier_rank ColdRefresh = 6"
| "tier_rank HdDerivation = 7"

instantiation SyncPlannerPriorityTier :: linorder
begin

definition less_eq_SyncPlannerPriorityTier :: "SyncPlannerPriorityTier \<Rightarrow> SyncPlannerPriorityTier \<Rightarrow> bool" where
  "less_eq_SyncPlannerPriorityTier x y \<longleftrightarrow> tier_rank x \<le> tier_rank y"

definition less_SyncPlannerPriorityTier :: "SyncPlannerPriorityTier \<Rightarrow> SyncPlannerPriorityTier \<Rightarrow> bool" where
  "less_SyncPlannerPriorityTier x y \<longleftrightarrow> tier_rank x < tier_rank y"

instance
proof
  fix x y :: SyncPlannerPriorityTier
  assume "x \<le> y" "y \<le> x"
  then show "x = y" by (cases x; cases y) (simp_all add: less_eq_SyncPlannerPriorityTier_def)
qed (auto simp: less_eq_SyncPlannerPriorityTier_def less_SyncPlannerPriorityTier_def)

end

record SyncPlannerInput =
  pi_now_utc :: time
  pi_source :: TriggerSource
  pi_transaction_fetch_policy :: TransactionFetchPolicy
  pi_native_account_modes :: "(ulid \<rightharpoonup> NativeAccountMode) option"
  pi_account_transaction_counts :: "ulid \<rightharpoonup> TransactionCount"
  pi_pending_address_ids :: "ulid set"
  pi_known_activity_address_ids :: "ulid set"
  pi_bitcoin_history_repair_account_ids :: "ulid set"
  pi_run_excluded_address_ids :: "ulid set"

datatype PlannedSyncIteration = Execute | DeriveHdAddresses | Stop SyncIterationStopReason

record PlannerCandidate =
  pc_priority :: SyncPlannerPriorityTier
  pc_last_attempted_at :: "time option"
  pc_stable_tie_breaker :: string
  pc_is_hd_derivation :: bool

datatype AddressPlanState = Candidate | Blocked | FreshBalance | Ineligible

definition repair_owned :: "SyncAddress \<Rightarrow> SyncPlannerInput \<Rightarrow> bool" where
  "repair_owned address input =
     (case sa_account_id address of None \<Rightarrow> False | Some account \<Rightarrow> account \<in> pi_bitcoin_history_repair_account_ids input)"

definition in_transactions_mode :: "SyncAddress \<Rightarrow> (ulid \<rightharpoonup> NativeAccountMode) \<Rightarrow> bool" where
  "in_transactions_mode address modes =
     (case sa_account_id address of None \<Rightarrow> False | Some account \<Rightarrow> modes account = Some Transactions)"

definition should_plan_balance_refresh :: "SyncAddress \<Rightarrow> SyncPlannerInput \<Rightarrow> bool" where
  "should_plan_balance_refresh address input =
     (if \<not> repair_owned address input \<and>
         (case pi_native_account_modes input of None \<Rightarrow> False | Some modes \<Rightarrow> \<not> in_transactions_mode address modes)
      then True
      else if pi_transaction_fetch_policy input = CurrentOnly then True
      else case sa_account_id address of
             None \<Rightarrow> False
           | Some account \<Rightarrow>
               (case pi_account_transaction_counts input account of
                  None \<Rightarrow> False
                | Some n \<Rightarrow> \<not> permits_transaction_page (pi_transaction_fetch_policy input) n))"

definition history_mode :: "SyncAddress \<Rightarrow> SyncPlannerInput \<Rightarrow> bool" where
  "history_mode address input =
     (case sa_account_id address of
        None \<Rightarrow> False
      | Some account \<Rightarrow> account \<in> pi_bitcoin_history_repair_account_ids input \<or>
          (case pi_native_account_modes input of None \<Rightarrow> True | Some modes \<Rightarrow> modes account = Some Transactions))"

definition priority_tier_for_address :: "SyncAddress \<Rightarrow> SyncPlannerInput \<Rightarrow> SyncPlannerPriorityTier" where
  "priority_tier_for_address address input =
     (if history_mode address input \<and> unfinished_backfill_state address \<noteq> None then ActiveUnfinishedBackfill
      else if history_mode address input \<and> sa_address_id address \<in> pi_pending_address_ids input then PendingTransactionRefresh
      else if sa_last_result address = Some SyncFailure then RetryableFailedAttempt
      else if should_plan_balance_refresh address input then BalanceRefresh
      else if is_first_sync (sa_last_tip_height address) then NeverAttemptedFirstSync
      else if sa_address_id address \<in> pi_known_activity_address_ids input then KnownActivityRefresh
      else ColdRefresh)"

definition address_candidate :: "SyncAddress \<Rightarrow> SyncPlannerInput \<Rightarrow> PlannerCandidate option \<times> AddressPlanState" where
  "address_candidate address input =
     (if sa_account_id address = None then (None, Ineligible)
      else if sa_address_id address \<in> pi_run_excluded_address_ids input \<or>
        (\<not> repair_owned address input \<and> sa_consecutive_failure_count address \<ge> ADDRESS_FAILURE_THRESHOLD)
      then (None, Blocked)
      else
        let priority = priority_tier_for_address address input in
        if priority = BalanceRefresh \<and>
          is_successful_balance_refresh_fresh (pi_source input) (sa_last_result address) (sa_last_completed_at address) (pi_now_utc input)
        then (None, FreshBalance)
        else (Some \<lparr>pc_priority = priority, pc_last_attempted_at = sa_last_completed_at address,
               pc_stable_tie_breaker = sa_address_id address, pc_is_hd_derivation = False\<rparr>, Candidate))"

definition address_is_blocked_for_planner :: "SyncAddress \<Rightarrow> SyncPlannerInput \<Rightarrow> bool" where
  "address_is_blocked_for_planner address input \<longleftrightarrow> snd (address_candidate address input) = Blocked"

definition candidate_key :: "PlannerCandidate \<Rightarrow> SyncPlannerPriorityTier \<times> time option \<times> string" where
  "candidate_key candidate = (pc_priority candidate, pc_last_attempted_at candidate, pc_stable_tie_breaker candidate)"

definition sort_addresses_by_planner_priority :: "SyncPlannerInput \<Rightarrow> SyncAddress list \<Rightarrow> SyncAddress list" where
  "sort_addresses_by_planner_priority input addresses =
     sort_key (\<lambda>a. (priority_tier_for_address a input, sa_last_completed_at a, sa_address_id a)) addresses"

definition hd_bundle_priority_tier :: "AccountSyncBundle \<Rightarrow> SyncPlannerInput \<Rightarrow> SyncPlannerPriorityTier" where
  "hd_bundle_priority_tier bundle input =
     (case min_by_key id (map (\<lambda>a. priority_tier_for_address a input) (ab_external_addresses bundle @ ab_internal_addresses bundle)) of
        None \<Rightarrow> HdDerivation
      | Some tier \<Rightarrow> tier)"

definition sort_hd_bundles_by_planner_priority :: "SyncPlannerInput \<Rightarrow> AccountSyncBundle list \<Rightarrow> AccountSyncBundle list" where
  "sort_hd_bundles_by_planner_priority input bundles = sort_key (\<lambda>b. (hd_bundle_priority_tier b input, ab_account_id b)) bundles"

definition pick_next_address_index :: "SyncAddress list \<Rightarrow> SyncPlannerInput \<Rightarrow> nat option" where
  "pick_next_address_index addresses input =
     map_option fst
       (min_by_key (\<lambda>(_, candidate). candidate_key candidate)
         (List.map_filter
           (\<lambda>(idx, address).
              case address_candidate address input of
                (Some candidate, Candidate) \<Rightarrow> Some (idx, candidate)
              | _ \<Rightarrow> None)
           (enumerate 0 addresses)))"

definition hd_derivation_candidates :: "AccountSyncBundle \<Rightarrow> PlannerCandidate list" where
  "hd_derivation_candidates bundle =
     (if ab_external_addresses bundle = []
      then [\<lparr>pc_priority = HdDerivation, pc_last_attempted_at = None, pc_stable_tie_breaker = ab_account_id bundle @ '':0'',
             pc_is_hd_derivation = True\<rparr>] else []) @
     (if ab_internal_addresses bundle = []
      then [\<lparr>pc_priority = HdDerivation, pc_last_attempted_at = None, pc_stable_tie_breaker = ab_account_id bundle @ '':1'',
             pc_is_hd_derivation = True\<rparr>] else [])"

record PlanCollection =
  col_candidates :: "PlannerCandidate list"
  col_blocked_count :: u32
  col_fresh_balance_count :: u32
  col_ineligible_count :: u32

definition collect_address_candidate :: "SyncPlannerInput \<Rightarrow> PlanCollection \<Rightarrow> SyncAddress \<Rightarrow> PlanCollection" where
  "collect_address_candidate input c address =
     (case address_candidate address input of (candidate, state) \<Rightarrow>
        case state of
          Candidate \<Rightarrow> (case candidate of None \<Rightarrow> c | Some x \<Rightarrow> c\<lparr>col_candidates := col_candidates c @ [x]\<rparr>)
        | Blocked \<Rightarrow> c\<lparr>col_blocked_count := saturating_add_u (col_blocked_count c) 1\<rparr>
        | FreshBalance \<Rightarrow> c\<lparr>col_fresh_balance_count := saturating_add_u (col_fresh_balance_count c) 1\<rparr>
        | Ineligible \<Rightarrow> c\<lparr>col_ineligible_count := saturating_add_u (col_ineligible_count c) 1\<rparr>)"

definition collect_bundle :: "SyncPlannerInput \<Rightarrow> PlanCollection \<Rightarrow> AccountSyncBundle \<Rightarrow> PlanCollection" where
  "collect_bundle input c bundle =
     (let c' = foldl (collect_address_candidate input) c (ab_external_addresses bundle @ ab_internal_addresses bundle) in
      c'\<lparr>col_candidates := col_candidates c' @ hd_derivation_candidates bundle\<rparr>)"

definition plan_next_iteration ::
  "SyncAddress list \<Rightarrow> AccountSyncBundle list \<Rightarrow> SyncPlannerInput \<Rightarrow> PlannedSyncIteration" where
  "plan_next_iteration addresses hd_bundles input =
     (let start = \<lparr>col_candidates = [], col_blocked_count = 0, col_fresh_balance_count = 0, col_ineligible_count = 0\<rparr>;
          c = foldl (collect_bundle input) (foldl (collect_address_candidate input) start addresses) hd_bundles
      in case min_by_key candidate_key (col_candidates c) of
           Some candidate \<Rightarrow> if pc_is_hd_derivation candidate then DeriveHdAddresses else Execute
         | None \<Rightarrow>
             if col_blocked_count c > 0 then Stop OnlyBlockedActions
             else if col_fresh_balance_count c > 0 then Stop BalanceRefreshesFresh
             else Stop NoEligibleAction)"

subsection \<open>The order in which Bitcoin histories are fetched\<close>

definition derivation_key :: "SyncAddress \<Rightarrow> u32 option \<times> u32 option \<times> string" where
  "derivation_key address = (sa_derivation_index address, sa_derivation_change address, sa_address_id address)"

definition restarts_known_history :: "SyncAddress \<Rightarrow> bool" where
  "restarts_known_history address \<longleftrightarrow>
     sa_mempool_backfill_cursor_txid address = None \<and>
     (case (sa_mempool_history_proof address, sa_mempool_expected_tx_count address) of
        (Some proof, Some expected) \<Rightarrow> expected > proof_confirmed_tx_count proof
      | _ \<Rightarrow> False)"

definition ordered_active_mempool_history_address_ids ::
  "SyncAddress list \<Rightarrow> ulid set \<Rightarrow> ulid option \<Rightarrow> ulid list" where
  "ordered_active_mempool_history_address_ids addresses active_address_ids frontier_address_id =
     (let sorted_addresses = sort_key derivation_key addresses;
          frontier_key = Option.bind frontier_address_id (\<lambda>frontier.
            map_option derivation_key (List.find (\<lambda>a. sa_address_id a = frontier) sorted_addresses));
          active = filter (\<lambda>a. sa_address_id a \<in> active_address_ids \<or> mempool_history_requires_first_page_restart a) sorted_addresses;
          start = (case Option.bind frontier_address_id (\<lambda>frontier. position (\<lambda>a. sa_address_id a = frontier) active) of
                     Some i \<Rightarrow> i
                   | None \<Rightarrow>
                       (case Option.bind frontier_key (\<lambda>key. position (\<lambda>a. derivation_key a > key) active) of
                          Some i \<Rightarrow> i
                        | None \<Rightarrow> 0));
          restart_ids = map sa_address_id (filter restarts_known_history active)
      in restart_ids @ map sa_address_id (filter (\<lambda>a. sa_address_id a \<notin> set restart_ids) (drop start active)))"

subsection \<open>When the next run is due\<close>

definition USER_TRANSACTION_MONITOR_INTERVAL :: int where "USER_TRANSACTION_MONITOR_INTERVAL = 300 * SECOND"
definition USER_TRANSACTION_MONITOR_MIN_INTERVAL :: int where "USER_TRANSACTION_MONITOR_MIN_INTERVAL = 60 * SECOND"
definition USER_TRANSACTION_MONITOR_IDLE_INTERVAL :: int where "USER_TRANSACTION_MONITOR_IDLE_INTERVAL = 900 * SECOND"

datatype ScheduleUrgency = BlockedUrgency | HighUrgency | NormalUrgency | LowUrgency

datatype ScheduleReason = RateLimitedReason | UnfinishedWorkReason | DefaultReason | IdleReason

record UserTransactionMonitorScheduleHint =
  hint_interval :: int
  hint_urgency :: ScheduleUrgency
  hint_reason :: ScheduleReason

record SchedulePolicyInput =
  sp_source :: TriggerSource
  sp_has_unfinished_work :: bool
  sp_is_idle :: bool
  sp_blocked_for :: "int option"

definition default_user_transaction_monitor_schedule_hint :: UserTransactionMonitorScheduleHint where
  "default_user_transaction_monitor_schedule_hint =
     \<lparr>hint_interval = USER_TRANSACTION_MONITOR_INTERVAL, hint_urgency = NormalUrgency, hint_reason = DefaultReason\<rparr>"

definition compute_user_transaction_monitor_schedule_hint :: "SchedulePolicyInput \<Rightarrow> UserTransactionMonitorScheduleHint" where
  "compute_user_transaction_monitor_schedule_hint input =
     (case sp_blocked_for input of
        Some blocked_for \<Rightarrow> \<lparr>hint_interval = blocked_for, hint_urgency = BlockedUrgency, hint_reason = RateLimitedReason\<rparr>
      | None \<Rightarrow>
          if sp_has_unfinished_work input
          then \<lparr>hint_interval = USER_TRANSACTION_MONITOR_MIN_INTERVAL, hint_urgency = HighUrgency, hint_reason = UnfinishedWorkReason\<rparr>
          else if sp_is_idle input \<and> sp_source input \<noteq> ManualInternal
          then \<lparr>hint_interval = USER_TRANSACTION_MONITOR_IDLE_INTERVAL, hint_urgency = LowUrgency, hint_reason = IdleReason\<rparr>
          else default_user_transaction_monitor_schedule_hint)"

definition hint_next_due_at_utc ::
  "(time \<Rightarrow> int \<Rightarrow> time option) \<Rightarrow> UserTransactionMonitorScheduleHint \<Rightarrow> time \<Rightarrow> time option" where
  "hint_next_due_at_utc checked_add_utc hint now_utc = checked_add_utc now_utc (hint_interval hint)"

subsection \<open>The plan is the best of what may be done\<close>

lemma address_tier_not_hd: "priority_tier_for_address a input < HdDerivation"
  by (simp add: priority_tier_for_address_def less_SyncPlannerPriorityTier_def)

text \<open>What may be synced, said without the planner's order of tests.\<close>

definition syncable :: "SyncPlannerInput \<Rightarrow> SyncAddress \<Rightarrow> bool" where
  "syncable input a \<longleftrightarrow>
     sa_account_id a \<noteq> None \<and> sa_address_id a \<notin> pi_run_excluded_address_ids input \<and>
     (repair_owned a input \<or> sa_consecutive_failure_count a < 2) \<and>
     \<not> (priority_tier_for_address a input = BalanceRefresh \<and> pi_source input \<noteq> ManualInternal \<and>
        sa_last_result a = Some SyncSuccess \<and> is_balance_refresh_fresh (sa_last_completed_at a) (pi_now_utc input))"

definition address_key :: "SyncPlannerInput \<Rightarrow> SyncAddress \<Rightarrow> SyncPlannerPriorityTier \<times> time option \<times> string" where
  "address_key input a = (priority_tier_for_address a input, sa_last_completed_at a, sa_address_id a)"

definition planned_candidate :: "SyncPlannerInput \<Rightarrow> SyncAddress \<Rightarrow> PlannerCandidate" where
  "planned_candidate input a =
     \<lparr>pc_priority = priority_tier_for_address a input, pc_last_attempted_at = sa_last_completed_at a,
      pc_stable_tie_breaker = sa_address_id a, pc_is_hd_derivation = False\<rparr>"

lemma address_candidate_syncable:
  "syncable input a \<Longrightarrow> address_candidate a input = (Some (planned_candidate input a), Candidate)"
  by (auto simp: address_candidate_def syncable_def planned_candidate_def is_successful_balance_refresh_fresh_def
      ADDRESS_FAILURE_THRESHOLD_def Let_def not_le)

lemma address_candidate_other:
  "\<not> syncable input a \<Longrightarrow> fst (address_candidate a input) = None \<and> snd (address_candidate a input) \<noteq> Candidate"
  by (auto simp: address_candidate_def syncable_def is_successful_balance_refresh_fresh_def
      ADDRESS_FAILURE_THRESHOLD_def Let_def not_le)

lemma candidate_key_planned [simp]: "candidate_key (planned_candidate input a) = address_key input a"
  by (simp add: candidate_key_def planned_candidate_def address_key_def)

lemma picked:
  "(case address_candidate a input of (Some candidate, Candidate) \<Rightarrow> Some (i, candidate) | _ \<Rightarrow> None) =
     (if syncable input a then Some (i, planned_candidate input a) else None)"
  using address_candidate_syncable [of input a] address_candidate_other [of input a]
  by (cases "address_candidate a input") (auto split: option.splits)

lemma pick_candidates:
  "List.map_filter (\<lambda>(idx, address). case address_candidate address input of
        (Some candidate, Candidate) \<Rightarrow> Some (idx, candidate) | _ \<Rightarrow> None) xs =
   map (\<lambda>(i, a). (i, planned_candidate input a)) (filter (\<lambda>(i, a). syncable input a) xs)"
  by (induction xs) (auto simp: picked)

text \<open>
  C13. The address that is synced next. Nothing is picked exactly when no address may be synced: one with an account, not
  excluded from this run, with fewer than two failures in a row unless its account is being repaired, and not one whose
  balance is fresh when only its balance would be refreshed. What is picked is such an address that is least by
  priority tier, then by last completion (never synced first), then by identifier.
\<close>

theorem pick_next_address_index_least:
  "case pick_next_address_index addresses input of
     None \<Rightarrow> \<not> list_ex (syncable input) addresses
   | Some i \<Rightarrow> i < length addresses \<and> syncable input (addresses ! i) \<and>
       (\<forall>a \<in> set addresses. syncable input a \<longrightarrow> address_key input (addresses ! i) \<le> address_key input a)"
proof -
  define cs where "cs = map (\<lambda>(i, a). (i, planned_candidate input a)) (filter (\<lambda>(i, a). syncable input a) (enumerate 0 addresses))"
  have pick: "pick_next_address_index addresses input = map_option fst (min_by_key (\<lambda>(_, c). candidate_key c) cs)"
    by (simp add: pick_next_address_index_def pick_candidates cs_def)
  have mem: "(i, c) \<in> set cs \<longleftrightarrow> i < length addresses \<and> syncable input (addresses ! i) \<and> c = planned_candidate input (addresses ! i)" for i c
    by (auto simp: cs_def in_set_enumerate_eq)
  show ?thesis
  proof (cases "min_by_key (\<lambda>(_, c). candidate_key c) cs")
    case None
    then have "cs = []" by simp
    then have "\<not> syncable input (addresses ! i)" if "i < length addresses" for i using mem [of i] that by auto
    then show ?thesis using None pick by (auto simp: list_ex_iff in_set_conv_nth)
  next
    case (Some x)
    obtain i c where x: "x = (i, c)" by (cases x)
    from min_by_key_Some [OF Some] have "(i, c) \<in> set cs" and least: "\<And>j d. (j, d) \<in> set cs \<Longrightarrow> candidate_key c \<le> candidate_key d"
      by (auto simp: x)
    then show ?thesis using Some pick x mem by (auto simp: in_set_conv_nth)
  qed
qed

definition run_blocked :: "SyncPlannerInput \<Rightarrow> SyncAddress \<Rightarrow> bool" where
  "run_blocked input a \<longleftrightarrow>
     sa_account_id a \<noteq> None \<and>
     (sa_address_id a \<in> pi_run_excluded_address_ids input \<or> (\<not> repair_owned a input \<and> sa_consecutive_failure_count a \<ge> 2))"

lemma address_state:
  "snd (address_candidate a input) =
     (if sa_account_id a = None then Ineligible else if run_blocked input a then Blocked
      else if syncable input a then Candidate else FreshBalance)"
  by (auto simp: address_candidate_def run_blocked_def syncable_def is_successful_balance_refresh_fresh_def
      ADDRESS_FAILURE_THRESHOLD_def Let_def not_le)

lemma saturating_Suc_positive: "(0 :: u32) < saturating_add_u x 1"
  by (simp add: word_less_nat_alt unat_saturating_add_u)

definition hd_incomplete :: "AccountSyncBundle \<Rightarrow> bool" where
  "hd_incomplete b \<longleftrightarrow> ab_external_addresses b = [] \<or> ab_internal_addresses b = []"

definition bundle_addresses :: "AccountSyncBundle \<Rightarrow> SyncAddress list" where
  "bundle_addresses b = ab_external_addresses b @ ab_internal_addresses b"

text \<open>What a collection holds: the candidates for addresses and for derivations, and whether it counted anything.\<close>

definition collected :: "SyncPlannerInput \<Rightarrow> SyncAddress list \<Rightarrow> AccountSyncBundle list \<Rightarrow> PlanCollection \<Rightarrow> bool" where
  "collected input as bs c \<longleftrightarrow>
     (\<forall>x. x \<in> set (col_candidates c) \<longleftrightarrow>
        (\<exists>a \<in> set as. syncable input a \<and> x = planned_candidate input a) \<or> (\<exists>b \<in> set bs. x \<in> set (hd_derivation_candidates b))) \<and>
     (col_blocked_count c > 0 \<longleftrightarrow> list_ex (run_blocked input) as) \<and>
     (col_fresh_balance_count c > 0 \<longleftrightarrow>
        list_ex (\<lambda>a. sa_account_id a \<noteq> None \<and> \<not> run_blocked input a \<and> \<not> syncable input a) as)"

lemma syncable_not_blocked: "syncable input a \<Longrightarrow> \<not> run_blocked input a \<and> sa_account_id a \<noteq> None"
  by (auto simp: syncable_def run_blocked_def not_le)

lemma collect_one:
  assumes "collected input as bs c"
  shows "collected input (as @ [a]) bs (collect_address_candidate input c a)"
proof (cases "syncable input a")
  case True
  then have "collect_address_candidate input c a = c\<lparr>col_candidates := col_candidates c @ [planned_candidate input a]\<rparr>"
    by (simp add: collect_address_candidate_def address_candidate_syncable)
  with assms True syncable_not_blocked [OF True] show ?thesis by (auto simp: collected_def)
next
  case False
  note other = address_candidate_other [OF False]
  from address_state [of a input] False
  consider "sa_account_id a = None" "snd (address_candidate a input) = Ineligible"
    | "sa_account_id a \<noteq> None" "run_blocked input a" "snd (address_candidate a input) = Blocked"
    | "sa_account_id a \<noteq> None" "\<not> run_blocked input a" "snd (address_candidate a input) = FreshBalance"
    by (auto split: if_splits)
  then show ?thesis
    using assms False other saturating_Suc_positive
    by cases (auto simp: collected_def collect_address_candidate_def case_prod_beta run_blocked_def)
qed

lemma collect_many:
  "collected input as bs c \<Longrightarrow> collected input (as @ rest) bs (foldl (collect_address_candidate input) c rest)"
proof (induction rest arbitrary: as c)
  case (Cons a rest)
  from Cons.IH [OF collect_one [OF Cons.prems]] show ?case by simp
qed simp

lemma collect_derivations:
  assumes "collected input as bs c"
  shows "collected input as (bs @ [b]) (c\<lparr>col_candidates := col_candidates c @ hd_derivation_candidates b\<rparr>)"
  using assms by (auto simp: collected_def)

lemma collect_bundles:
  "collected input as bs c \<Longrightarrow>
     collected input (as @ concat (map bundle_addresses rest)) (bs @ rest) (foldl (collect_bundle input) c rest)"
proof (induction rest arbitrary: as bs c)
  case (Cons b rest)
  have "collected input (as @ bundle_addresses b) (bs @ [b]) (collect_bundle input c b)"
    unfolding collect_bundle_def Let_def
    using collect_derivations [OF collect_many [OF Cons.prems, of "bundle_addresses b"], of b] by (simp add: bundle_addresses_def)
  from Cons.IH [OF this] show ?case by simp
qed simp

lemma hd_candidate: "x \<in> set (hd_derivation_candidates b) \<Longrightarrow> pc_is_hd_derivation x \<and> pc_priority x = HdDerivation"
  by (auto simp: hd_derivation_candidates_def split: if_splits)

lemma hd_candidates_exist: "(\<exists>x. x \<in> set (hd_derivation_candidates b)) \<longleftrightarrow> hd_incomplete b"
  by (auto simp: hd_derivation_candidates_def hd_incomplete_def)

lemma address_before_derivation:
  "x \<in> set (hd_derivation_candidates b) \<Longrightarrow> candidate_key (planned_candidate input a) < candidate_key x"
  using address_tier_not_hd [of a input] hd_candidate [of x b] by (simp add: candidate_key_def planned_candidate_def less_prod_def)

text \<open>
  C12. What the planner decides, in order: to sync an address whenever one may be synced, whatever its priority; else to derive
  addresses when an account has none on one of its two chains; else to stop, because an address is blocked, because the
  balances are fresh, or because there is nothing to do. No order of the inputs matters and no counter overflows.
\<close>

theorem plan_next_iteration_exact:
  "plan_next_iteration addresses bundles input =
     (let all_addresses = addresses @ concat (map bundle_addresses bundles) in
      if list_ex (syncable input) all_addresses then Execute
      else if list_ex hd_incomplete bundles then DeriveHdAddresses
      else if list_ex (run_blocked input) all_addresses then Stop OnlyBlockedActions
      else if list_ex (\<lambda>a. sa_account_id a \<noteq> None) all_addresses then Stop BalanceRefreshesFresh
      else Stop NoEligibleAction)"
proof -
  define start where "start = \<lparr>col_candidates = [], col_blocked_count = (0 :: u32), col_fresh_balance_count = (0 :: u32),
    col_ineligible_count = (0 :: u32)\<rparr>"
  define all_addresses where "all_addresses = addresses @ concat (map bundle_addresses bundles)"
  define c where "c = foldl (collect_bundle input) (foldl (collect_address_candidate input) start addresses) bundles"
  have "collected input [] [] start" by (simp add: collected_def start_def)
  from collect_bundles [OF collect_many [OF this, of addresses], of bundles]
  have c: "collected input all_addresses bundles c" by (simp add: c_def all_addresses_def)
  have plan: "plan_next_iteration addresses bundles input =
      (case min_by_key candidate_key (col_candidates c) of
         Some candidate \<Rightarrow> if pc_is_hd_derivation candidate then DeriveHdAddresses else Execute
       | None \<Rightarrow>
           if col_blocked_count c > 0 then Stop OnlyBlockedActions
           else if col_fresh_balance_count c > 0 then Stop BalanceRefreshesFresh
           else Stop NoEligibleAction)"
    by (simp add: plan_next_iteration_def c_def start_def Let_def)
  show ?thesis
  proof (cases "min_by_key candidate_key (col_candidates c)")
    case None
    then have "\<And>x. x \<notin> set (col_candidates c)" by simp
    with c have none: "\<forall>a \<in> set all_addresses. \<not> syncable input a" "\<forall>b \<in> set bundles. \<not> hd_incomplete b"
      unfolding collected_def hd_candidates_exist [symmetric] by blast+
    with c None plan show ?thesis
      by (auto simp: collected_def list_ex_iff all_addresses_def [symmetric] Let_def)
  next
    case (Some x)
    from min_by_key_Some [OF Some] have x: "x \<in> set (col_candidates c)"
      and least: "\<And>y. y \<in> set (col_candidates c) \<Longrightarrow> candidate_key x \<le> candidate_key y" by auto
    from x c consider a where "a \<in> set all_addresses" "syncable input a" "x = planned_candidate input a"
      | b where "b \<in> set bundles" "x \<in> set (hd_derivation_candidates b)" by (auto simp: collected_def)
    then show ?thesis
    proof cases
      case 1
      then have "list_ex (syncable input) all_addresses" by (auto simp: list_ex_iff)
      then show ?thesis using Some plan 1(3) by (simp add: planned_candidate_def all_addresses_def [symmetric] Let_def)
    next
      case 2
      have "\<not> syncable input a" if "a \<in> set all_addresses" for a
      proof
        assume "syncable input a"
        with that c have "planned_candidate input a \<in> set (col_candidates c)" by (auto simp: collected_def)
        from least [OF this] address_before_derivation [OF 2(2), of input a] show False by simp
      qed
      then have "\<not> list_ex (syncable input) all_addresses" by (simp add: list_ex_iff)
      moreover have "list_ex hd_incomplete bundles" using 2 hd_candidates_exist by (auto simp: list_ex_iff)
      ultimately show ?thesis using Some plan hd_candidate [OF 2(2)] by (simp add: all_addresses_def [symmetric] Let_def)
    qed
  qed
qed

subsection \<open>Histories in derivation order\<close>

definition fetches_history :: "ulid set \<Rightarrow> SyncAddress \<Rightarrow> bool" where
  "fetches_history active_ids a \<longleftrightarrow> sa_address_id a \<in> active_ids \<or> mempool_history_requires_first_page_restart a"

definition active_addresses :: "SyncAddress list \<Rightarrow> ulid set \<Rightarrow> SyncAddress list" where
  "active_addresses addresses active_ids = filter (fetches_history active_ids) (sort_key derivation_key addresses)"

definition history_start :: "SyncAddress list \<Rightarrow> SyncAddress list \<Rightarrow> ulid option \<Rightarrow> nat" where
  "history_start sorted_addresses active frontier_address_id =
     (case Option.bind frontier_address_id (\<lambda>frontier. position (\<lambda>a. sa_address_id a = frontier) active) of
        Some i \<Rightarrow> i
      | None \<Rightarrow>
          (case Option.bind (Option.bind frontier_address_id (\<lambda>frontier.
                    map_option derivation_key (List.find (\<lambda>a. sa_address_id a = frontier) sorted_addresses)))
                  (\<lambda>key. position (\<lambda>a. derivation_key a > key) active) of
             Some i \<Rightarrow> i
           | None \<Rightarrow> 0))"

lemma ordered_active_unfold:
  "ordered_active_mempool_history_address_ids addresses active_ids frontier =
     (let active = active_addresses addresses active_ids;
          restart_ids = map sa_address_id (filter restarts_known_history active)
      in restart_ids @ map sa_address_id (filter (\<lambda>a. sa_address_id a \<notin> set restart_ids)
           (drop (history_start (sort_key derivation_key addresses) active frontier) active)))"
  unfolding ordered_active_mempool_history_address_ids_def active_addresses_def history_start_def
    fetches_history_def [abs_def] Let_def by (rule refl)

lemma sorted_map_nth: "sorted (map f xs) \<Longrightarrow> i \<le> j \<Longrightarrow> j < length xs \<Longrightarrow> f (xs ! i) \<le> f (xs ! j)"
  using sorted_nth_mono [of "map f xs" i j] by simp

lemma active_addresses_sorted: "sorted (map derivation_key (active_addresses addresses active_ids))"
  by (simp add: active_addresses_def sorted_filter)

lemma active_addresses_distinct:
  "distinct (map sa_address_id addresses) \<Longrightarrow> distinct (map sa_address_id (active_addresses addresses active_ids))"
proof -
  assume "distinct (map sa_address_id addresses)"
  then have "distinct (map sa_address_id (sort_key derivation_key addresses))"
    by (simp add: distinct_map)
  then show ?thesis unfolding active_addresses_def by (rule distinct_map_filter)
qed

lemma history_start_below: "active \<noteq> [] \<Longrightarrow> history_start sorted_addresses active frontier < length active"
  by (auto simp: history_start_def split: option.splits bind_splits dest: position_Some)

lemma before_start:
  assumes "distinct (map sa_address_id addresses)" and "f \<in> set addresses" and "frontier = Some (sa_address_id f)"
    and "j < history_start (sort_key derivation_key addresses) (active_addresses addresses active_ids) frontier"
  shows "derivation_key (active_addresses addresses active_ids ! j) \<le> derivation_key f \<and>
    active_addresses addresses active_ids ! j \<noteq> f"
proof -
  let ?active = "active_addresses addresses active_ids" and ?sorted = "sort_key derivation_key addresses"
  have found: "List.find (\<lambda>a. sa_address_id a = sa_address_id f) ?sorted = Some f"
  proof (cases "List.find (\<lambda>a. sa_address_id a = sa_address_id f) ?sorted")
    case None
    then show ?thesis using assms(2) by (auto simp: find_None_iff)
  next
    case (Some g)
    then obtain k where "k < length ?sorted" "?sorted ! k = g" "sa_address_id g = sa_address_id f" by (auto simp: find_Some_iff)
    then have "g \<in> set addresses" "sa_address_id g = sa_address_id f" using nth_mem [of k ?sorted] by simp_all
    with assms(1,2) Some show ?thesis by (metis inj_on_contraD distinct_map)
  qed
  show ?thesis
  proof (cases "position (\<lambda>a. sa_address_id a = sa_address_id f) ?active")
    case None
    then have notf: "f \<notin> set ?active" by (auto simp: position_None)
    with assms(3,4) None found obtain i where i: "position (\<lambda>a. derivation_key a > derivation_key f) ?active = Some i" "j < i"
      by (auto simp: history_start_def split: option.splits)
    from position_Some [OF i(1)] i(2) notf show ?thesis by (metis not_le nth_mem order_less_trans)
  next
    case (Some i)
    with assms(3,4) have "j < i" by (simp add: history_start_def)
    from position_Some [OF Some] have i: "i < length ?active" "sa_address_id (?active ! i) = sa_address_id f"
      and no: "\<And>k. k < i \<Longrightarrow> sa_address_id (?active ! k) \<noteq> sa_address_id f" by auto
    have "?active ! i \<in> set addresses" using i(1) nth_mem [of i ?active] by (auto simp: active_addresses_def)
    then have "?active ! i = f" using i(2) assms(1,2) by (metis inj_on_contraD distinct_map)
    moreover have "derivation_key (?active ! j) \<le> derivation_key (?active ! i)"
      using sorted_map_nth [OF active_addresses_sorted, of j i] \<open>j < i\<close> i(1) by simp
    ultimately show ?thesis using no [OF \<open>j < i\<close>] by auto
  qed
qed

definition at_or_after :: "SyncAddress list \<Rightarrow> ulid option \<Rightarrow> SyncAddress \<Rightarrow> bool" where
  "at_or_after addresses frontier a \<longleftrightarrow>
     frontier = None \<or>
     (\<exists>f \<in> set addresses. frontier = Some (sa_address_id f) \<and> (a = f \<or> derivation_key a > derivation_key f))"

lemma from_start:
  assumes "distinct (map sa_address_id addresses)" and "at_or_after addresses frontier a"
    and "a \<in> set (active_addresses addresses active_ids)"
  shows "a \<in> set (drop (history_start (sort_key derivation_key addresses) (active_addresses addresses active_ids) frontier)
    (active_addresses addresses active_ids))"
proof -
  let ?active = "active_addresses addresses active_ids"
  let ?start = "history_start (sort_key derivation_key addresses) ?active frontier"
  from assms(3) obtain j where j: "j < length ?active" "?active ! j = a" by (auto simp: in_set_conv_nth)
  have "\<not> j < ?start"
  proof
    assume small: "j < ?start"
    then have "frontier \<noteq> None" by (cases frontier) (simp_all add: history_start_def)
    with assms(2) obtain f where f: "f \<in> set addresses" "frontier = Some (sa_address_id f)" "a = f \<or> derivation_key a > derivation_key f"
      by (auto simp: at_or_after_def)
    from before_start [OF assms(1) f(1,2) small] f(3) j(2) show False by auto
  qed
  then have "drop ?start ?active ! (j - ?start) = a" "j - ?start < length (drop ?start ?active)" using j by auto
  then show ?thesis by (metis nth_mem)
qed

lemma distinct_append_new:
  "distinct (map f rs) \<Longrightarrow> distinct (map f ss) \<Longrightarrow> distinct (map f rs @ map f (filter (\<lambda>a. f a \<notin> set (map f rs)) ss))"
  by (auto simp: distinct_map_filter) (metis imageI)

lemma append_new_empty: "map f rs @ map f (filter (\<lambda>a. f a \<notin> set (map f rs)) ss) = [] \<longleftrightarrow> rs = [] \<and> ss = []"
  by (cases rs) auto

lemma ordered_active_distinct:
  assumes "distinct (map sa_address_id addresses)"
  shows "distinct (ordered_active_mempool_history_address_ids addresses active_ids frontier)"
proof -
  let ?active = "active_addresses addresses active_ids"
  have d: "distinct (map sa_address_id ?active)" using assms by (rule active_addresses_distinct)
  then have "distinct (map sa_address_id (drop n ?active))" for n by (simp add: drop_map [symmetric] distinct_drop)
  with distinct_map_filter [OF d] show ?thesis unfolding ordered_active_unfold Let_def by (intro distinct_append_new)
qed

lemma ordered_active_empty:
  "ordered_active_mempool_history_address_ids addresses active_ids frontier = [] \<longleftrightarrow> \<not> list_ex (fetches_history active_ids) addresses"
proof -
  have "ordered_active_mempool_history_address_ids addresses active_ids frontier = [] \<longleftrightarrow> active_addresses addresses active_ids = []"
    using history_start_below [of "active_addresses addresses active_ids" "sort_key derivation_key addresses" frontier]
    unfolding ordered_active_unfold Let_def append_new_empty by (cases "active_addresses addresses active_ids = []") simp_all
  also have "\<dots> \<longleftrightarrow> \<not> list_ex (fetches_history active_ids) addresses"
    by (auto simp: active_addresses_def list_ex_iff filter_empty_conv)
  finally show ?thesis .
qed

text \<open>
  The order in which the histories of an account are fetched. No address comes twice and only addresses whose history is to
  be fetched come at all; while there is one, there is a next; those whose known history has grown come first; and every
  address from the frontier on, in the order of derivation, is there.
\<close>

theorem ordered_active_mempool_history_complete:
  assumes "distinct (map sa_address_id addresses)"
  shows "let ids = ordered_active_mempool_history_address_ids addresses active_ids frontier in
    distinct ids \<and> set ids \<subseteq> sa_address_id ` {a \<in> set addresses. fetches_history active_ids a} \<and>
    (ids = [] \<longleftrightarrow> \<not> list_ex (fetches_history active_ids) addresses) \<and>
    (\<exists>rest. ids = map sa_address_id (filter restarts_known_history (active_addresses addresses active_ids)) @ rest) \<and>
    (\<forall>a \<in> set addresses. fetches_history active_ids a \<longrightarrow> at_or_after addresses frontier a \<longrightarrow> sa_address_id a \<in> set ids)"
proof -
  let ?active = "active_addresses addresses active_ids"
  let ?ids = "ordered_active_mempool_history_address_ids addresses active_ids frontier"
  have active: "set ?active = {a \<in> set addresses. fetches_history active_ids a}" by (auto simp: active_addresses_def)
  have "set ?ids \<subseteq> sa_address_id ` set ?active"
    by (auto simp: ordered_active_unfold Let_def dest: in_set_dropD)
  moreover have "sa_address_id a \<in> set ?ids" if "a \<in> set ?active" "at_or_after addresses frontier a" for a
    using from_start [OF assms that(2,1)] by (auto simp: ordered_active_unfold Let_def)
  moreover have "\<exists>rest. ?ids = map sa_address_id (filter restarts_known_history ?active) @ rest"
    by (simp add: ordered_active_unfold Let_def)
  ultimately show ?thesis
    unfolding Let_def active using ordered_active_distinct [OF assms] ordered_active_empty by blast
qed

subsection \<open>Witnesses\<close>

definition sample_address :: "ulid \<Rightarrow> u32 \<Rightarrow> SyncAddress" where
  "sample_address i n =
     \<lparr>sa_address_id = i, sa_address = ''bc1'' @ i, sa_asset_id = Bitcoin, sa_network = Mainnet, sa_account_id = Some ''acc'',
      sa_derivation_change = Some 0, sa_derivation_index = Some n, sa_address_scheme = Some NativeSegwit,
      sa_last_completed_at = None, sa_last_result = None, sa_last_tip_height = None, sa_etherscan_transaction_tip_height = None,
      sa_mempool_backfill_cursor_txid = None, sa_mempool_expected_tx_count = None, sa_mempool_history_proof = None,
      sa_mempool_history_scan_start_run_id = None, sa_etherscan_backfill_end_block = None,
      sa_etherscan_history_checkpoint_verified = False, sa_has_api_confirmed_balance = False, sa_consecutive_failure_count = 0\<rparr>"

definition sample_input :: SyncPlannerInput where
  "sample_input =
     \<lparr>pi_now_utc = 0, pi_source = Schedule, pi_transaction_fetch_policy = LegacyRepair, pi_native_account_modes = None,
      pi_account_transaction_counts = Map.empty, pi_pending_address_ids = {}, pi_known_activity_address_ids = {},
      pi_bitcoin_history_repair_account_ids = {}, pi_run_excluded_address_ids = {}\<rparr>"

theorem pick_next_address_index_least_witness:
  "pick_next_address_index [sample_address ''b'' 1, sample_address ''a'' 0] sample_input \<noteq> None"
  using pick_next_address_index_least [of sample_input "[sample_address ''b'' 1, sample_address ''a'' 0]"]
  by (auto simp: syncable_def sample_address_def sample_input_def repair_owned_def priority_tier_for_address_def
      should_plan_balance_refresh_def split: option.splits)

theorem ordered_active_mempool_history_complete_witness:
  "set (ordered_active_mempool_history_address_ids [sample_address ''b'' 1, sample_address ''a'' 0] {''a'', ''b''} None) = {''a'', ''b''}"
  using ordered_active_mempool_history_complete [of "[sample_address ''b'' 1, sample_address ''a'' 0]" "{''a'', ''b''}" None]
  by (auto simp: Let_def sample_address_def fetches_history_def at_or_after_def)

end
