(* ===== verification/Sync_State.thy ===== *)
theory Sync_State
  imports Sync_Planner
begin

section \<open>The stored state of an address's sync\<close>

text \<open>
  The writers of the table \<open>transaction_sync_state\<close> of \<open>src/src/db/transaction_sync/sync_state.rs\<close>, one row per address: the
  start of a sync, its success or failure, the cursor and the frontier of the history scan, its restart
  (\<open>mempool_history.rs\<close>), the proof that a history is complete, its invalidation, the cursor, tip and status of an Etherscan
  history, and what takes rows or references away: the repair of \<open>user_data_repairs.rs\<close>, the deletion of accounts and
  that of sync runs. Each operation runs under the lock of the user's database and returns its result with the
  database after it; those in a transaction leave the database as it was when they fail. A row refers to an address that
  exists (\<open>FOREIGN KEY\<close>) and is unique for its address (\<open>UNIQUE\<close>). The current time is an argument where the code reads the
  clock; the random key of a new row is not read by anything and left out.
\<close>

subsection \<open>Reports of a sync\<close>

record CoverageInvalidationTargets =
  target_address_ids :: "ulid set"
  target_account_ids :: "ulid set"

definition union_with :: "CoverageInvalidationTargets \<Rightarrow> CoverageInvalidationTargets \<Rightarrow> CoverageInvalidationTargets" where
  "union_with targets other =
     \<lparr>target_address_ids = target_address_ids targets \<union> target_address_ids other,
      target_account_ids = target_account_ids targets \<union> target_account_ids other\<rparr>"

record AddressSyncSuccess =
  ss_address_id :: ulid
  ss_run_id :: ulid
  ss_started_at :: time
  ss_completed_at :: time
  ss_last_tip_height :: int
  ss_new_tx_count :: TransactionCount
  ss_updated_tx_count :: TransactionCount
  ss_api_confirmed_balance :: "UnsignedAmount option"

record MempoolAddressObservationSuccess =
  mo_address_id :: ulid
  mo_confirmed_tx_count :: TransactionCount
  mo_confirmed_balance :: "UnsignedAmount option"
  mo_tip_height :: int
  mo_observed_at :: time

record AddressSyncCompletion =
  sc_address_id :: ulid
  sc_run_id :: ulid
  sc_started_at :: time
  sc_completed_at :: time
  sc_result :: TransactionSyncResult
  sc_last_error :: "string option"
  sc_last_tip_height :: "int option"
  sc_new_tx_count :: TransactionCount
  sc_updated_tx_count :: TransactionCount
  sc_api_confirmed_balance :: "UnsignedAmount option"

definition completion_from_success :: "AddressSyncSuccess \<Rightarrow> AddressSyncCompletion" where
  "completion_from_success s =
     \<lparr>sc_address_id = ss_address_id s, sc_run_id = ss_run_id s, sc_started_at = ss_started_at s,
      sc_completed_at = ss_completed_at s, sc_result = SyncSuccess, sc_last_error = None,
      sc_last_tip_height = Some (ss_last_tip_height s), sc_new_tx_count = ss_new_tx_count s,
      sc_updated_tx_count = ss_updated_tx_count s, sc_api_confirmed_balance = ss_api_confirmed_balance s\<rparr>"

definition completion_from_failure :: "ulid \<Rightarrow> ulid \<Rightarrow> time \<Rightarrow> time \<Rightarrow> string \<Rightarrow> AddressSyncCompletion" where
  "completion_from_failure address_id run_id started completed error =
     \<lparr>sc_address_id = address_id, sc_run_id = run_id, sc_started_at = started, sc_completed_at = completed,
      sc_result = SyncFailure, sc_last_error = Some error, sc_last_tip_height = None, sc_new_tx_count = 0,
      sc_updated_tx_count = 0, sc_api_confirmed_balance = None\<rparr>"

definition split_api_confirmed_balance :: "UnsignedAmount \<Rightarrow> DbError + int \<times> int" where
  "split_api_confirmed_balance balance =
     map_err (\<lambda>err. DbError (''Failed to split api_confirmed_balance: '' @ amount_error_display err))
       (res_map (\<lambda>parts. (split_hi parts, split_lo parts)) (split_unsigned_amount_parts balance))"

definition split_optional_balance :: "UnsignedAmount option \<Rightarrow> DbError + int option \<times> int option" where
  "split_optional_balance balance =
     (case balance of
        None \<Rightarrow> Inr (None, None)
      | Some b \<Rightarrow> res_map (\<lambda>(hi, lo). (Some hi, Some lo)) (split_api_confirmed_balance b))"

subsection \<open>Rows of the table\<close>

definition is_address_row :: "ulid \<Rightarrow> TransactionSyncStateRow \<Rightarrow> bool" where
  "is_address_row address_id r \<longleftrightarrow> tss_scope r = ADDRESS_SYNC_SCOPE \<and> tss_address_id r = address_id"

definition update_address_row ::
  "UserDb \<Rightarrow> ulid \<Rightarrow> (TransactionSyncStateRow \<Rightarrow> TransactionSyncStateRow) \<Rightarrow> UserDb \<times> nat" where
  "update_address_row db address_id f = update_sync_state db (is_address_row address_id) f"

text \<open>An \<open>INSERT\<close> of a row, under the constraints of the table; the text of SQLite's error follows the prefix.\<close>

definition insert_sync_row :: "string \<Rightarrow> UserDb \<Rightarrow> TransactionSyncStateRow \<Rightarrow> DbError + UserDb" where
  "insert_sync_row prefix db r =
     (if (tss_scope r, tss_address_id r) \<in> (\<lambda>q. (tss_scope q, tss_address_id q)) ` set (transaction_sync_state db)
      then Inl (DbError (prefix @ ''UNIQUE constraint failed''))
      else if tss_address_id r \<notin> da_id ` set (digital_asset_addresses db)
      then Inl (DbError (prefix @ ''FOREIGN KEY constraint failed''))
      else Inr (db\<lparr>transaction_sync_state := transaction_sync_state db @ [r]\<rparr>))"

definition new_sync_row :: "ulid \<Rightarrow> ulid \<Rightarrow> string \<Rightarrow> string \<Rightarrow> TransactionSyncStateRow" where
  "new_sync_row address_id run_id started_at updated_at =
     \<lparr>tss_scope = ADDRESS_SYNC_SCOPE, tss_address_id = address_id, tss_api_balance_observed_at = None,
      tss_api_balance_hi = None, tss_api_balance_lo = None, tss_backfill_cursor_txid = None, tss_complete_tx_count = None,
      tss_complete_height = None, tss_scan_start_run_id = None, tss_last_run_id = run_id, tss_last_started_at = started_at,
      tss_last_completed_at = None, tss_last_result = sync_result_as_db_value SyncSuccess, tss_last_error = None,
      tss_last_tip_height = None, tss_new_tx_count = 0, tss_updated_tx_count = 0, tss_expected_tx_count = None,
      tss_reported_tx_count = None, tss_consecutive_failure_count = 0, tss_created_at = started_at,
      tss_updated_at = updated_at, tss_etherscan_start_block = None, tss_etherscan_end_block = None,
      tss_etherscan_history_status = None, tss_etherscan_checkpoint_version = None, tss_etherscan_tip_height = None\<rparr>"

subsection \<open>Starting and completing a sync\<close>

definition started_row :: "ulid \<Rightarrow> string \<Rightarrow> TransactionSyncStateRow \<Rightarrow> TransactionSyncStateRow" where
  "started_row run_id started_at r =
     r\<lparr>tss_last_run_id := run_id, tss_last_started_at := started_at, tss_last_completed_at := None,
       tss_last_error := None, tss_last_tip_height := None, tss_new_tx_count := 0, tss_updated_tx_count := 0,
       tss_updated_at := started_at\<rparr>"

definition mark_address_sync_started :: "Env \<Rightarrow> ulid \<Rightarrow> ulid \<Rightarrow> time \<Rightarrow> UserDb \<Rightarrow> DbError + UserDb" where
  "mark_address_sync_started env address_id run_id started db =
     (let started_at = env_to_rfc3339 env started in
      if list_ex (is_address_row address_id) (transaction_sync_state db)
      then Inr (fst (update_address_row db address_id (started_row run_id started_at)))
      else insert_sync_row ''Failed to mark sync start: '' db (new_sync_row address_id run_id started_at started_at))"

definition persist_mempool_address_observation_success ::
  "Env \<Rightarrow> MempoolAddressObservationSuccess \<Rightarrow> UserDb \<Rightarrow> DbError + UserDb" where
  "persist_mempool_address_observation_success env observation db =
     (let observed_at = env_to_rfc3339 env (mo_observed_at observation) in
      res_bind (split_optional_balance (mo_confirmed_balance observation)) (\<lambda>(hi, lo).
        case update_address_row db (mo_address_id observation) (\<lambda>r. r\<lparr>
               tss_last_completed_at := Some observed_at, tss_last_result := sync_result_as_db_value SyncSuccess,
               tss_last_error := None, tss_last_tip_height := Some (mo_tip_height observation),
               tss_reported_tx_count := Some (uint (mo_confirmed_tx_count observation)),
               tss_api_balance_hi := hi, tss_api_balance_lo := lo,
               tss_api_balance_observed_at := (if hi = None then None else Some observed_at),
               tss_consecutive_failure_count := 0, tss_updated_at := observed_at\<rparr>) of
          (db', changed) \<Rightarrow>
            if changed = 0
            then Inl (DbError ''Failed to persist successful mempool address observation: sync state row missing'')
            else Inr db'))"

definition insert_address_sync_completion :: "Env \<Rightarrow> AddressSyncCompletion \<Rightarrow> UserDb \<Rightarrow> DbError + UserDb" where
  "insert_address_sync_completion env c db =
     (let started_at = env_to_rfc3339 env (sc_started_at c);
          completed_at = env_to_rfc3339 env (sc_completed_at c) in
      res_bind (split_optional_balance (sc_api_confirmed_balance c)) (\<lambda>(hi, lo).
        insert_sync_row ''Failed to insert sync completion: '' db
          ((new_sync_row (sc_address_id c) (sc_run_id c) started_at completed_at)\<lparr>
             tss_last_completed_at := Some completed_at, tss_last_result := sync_result_as_db_value (sc_result c),
             tss_last_error := sc_last_error c, tss_last_tip_height := sc_last_tip_height c,
             tss_new_tx_count := uint (sc_new_tx_count c), tss_updated_tx_count := uint (sc_updated_tx_count c),
             tss_api_balance_hi := hi, tss_api_balance_lo := lo,
             tss_api_balance_observed_at := map_option (\<lambda>_. completed_at) (sc_api_confirmed_balance c)\<rparr>)))"

definition coalesce :: "'a option \<Rightarrow> 'a option \<Rightarrow> 'a option" where
  "coalesce x y = (case x of None \<Rightarrow> y | Some _ \<Rightarrow> x)"

definition success_row ::
  "Env \<Rightarrow> AddressSyncSuccess \<Rightarrow> int option \<Rightarrow> int option \<Rightarrow> TransactionSyncStateRow \<Rightarrow> TransactionSyncStateRow" where
  "success_row env success hi lo r =
     (let completed_at = env_to_rfc3339 env (ss_completed_at success) in
      r\<lparr>tss_last_run_id := ss_run_id success, tss_last_started_at := env_to_rfc3339 env (ss_started_at success),
        tss_last_completed_at := Some completed_at, tss_last_result := sync_result_as_db_value SyncSuccess,
        tss_last_error := None, tss_last_tip_height := Some (ss_last_tip_height success),
        tss_new_tx_count := uint (ss_new_tx_count success), tss_updated_tx_count := uint (ss_updated_tx_count success),
        tss_api_balance_hi := coalesce hi (tss_api_balance_hi r), tss_api_balance_lo := coalesce lo (tss_api_balance_lo r),
        tss_api_balance_observed_at := (if hi \<noteq> None then Some completed_at else tss_api_balance_observed_at r),
        tss_consecutive_failure_count := 0, tss_updated_at := completed_at\<rparr>)"

definition mark_address_sync_completed_success :: "Env \<Rightarrow> AddressSyncSuccess \<Rightarrow> UserDb \<Rightarrow> DbError + UserDb" where
  "mark_address_sync_completed_success env success db =
     res_bind (split_optional_balance (ss_api_confirmed_balance success)) (\<lambda>(hi, lo).
       case update_address_row db (ss_address_id success) (success_row env success hi lo) of
         (db', changed) \<Rightarrow>
           if changed = 0 then insert_address_sync_completion env (completion_from_success success) db' else Inr db')"

definition failure_row :: "Env \<Rightarrow> ulid \<Rightarrow> time \<Rightarrow> time \<Rightarrow> string \<Rightarrow> bool \<Rightarrow> TransactionSyncStateRow \<Rightarrow> TransactionSyncStateRow" where
  "failure_row env run_id started failed error count_as_address_failure r =
     r\<lparr>tss_last_run_id := run_id, tss_last_started_at := env_to_rfc3339 env started,
       tss_last_completed_at := Some (env_to_rfc3339 env failed), tss_last_result := sync_result_as_db_value SyncFailure,
       tss_last_error := Some error, tss_new_tx_count := 0, tss_updated_tx_count := 0,
       tss_consecutive_failure_count := (if count_as_address_failure then tss_consecutive_failure_count r + 1
                                        else tss_consecutive_failure_count r),
       tss_updated_at := env_to_rfc3339 env failed\<rparr>"

definition mark_address_sync_completed_failure ::
  "Env \<Rightarrow> ulid \<Rightarrow> ulid \<Rightarrow> time \<Rightarrow> time \<Rightarrow> string \<Rightarrow> bool \<Rightarrow> UserDb \<Rightarrow> DbError + UserDb" where
  "mark_address_sync_completed_failure env address_id run_id started failed error count_as_address_failure db =
     (case update_address_row db address_id (failure_row env run_id started failed error count_as_address_failure) of
        (db', changed) \<Rightarrow>
          if changed = 0
          then res_map (\<lambda>db''. fst (update_address_row db'' address_id (\<lambda>r. r\<lparr>
                 tss_consecutive_failure_count := (if count_as_address_failure then 1 else 0)\<rparr>)))
               (insert_address_sync_completion env (completion_from_failure address_id run_id started failed error) db')
          else Inr db')"

subsection \<open>The history scan of a Bitcoin address\<close>

definition require_row :: "string \<Rightarrow> UserDb \<times> nat \<Rightarrow> DbError + UserDb" where
  "require_row message updated = (if snd updated = 0 then Inl (DbError message) else Inr (fst updated))"

definition update_address_mempool_backfill_cursor :: "Env \<Rightarrow> ulid \<Rightarrow> TxHash option \<Rightarrow> time \<Rightarrow> UserDb \<Rightarrow> DbError + UserDb" where
  "update_address_mempool_backfill_cursor env address_id cursor_txid now db =
     require_row ''Failed to update mempool backfill cursor: sync state row missing''
       (update_address_row db address_id (\<lambda>r. r\<lparr>tss_backfill_cursor_txid := cursor_txid, tss_updated_at := env_to_rfc3339 env now\<rparr>))"

definition begin_mempool_history_scan :: "Env \<Rightarrow> ulid \<Rightarrow> ulid \<Rightarrow> time \<Rightarrow> UserDb \<Rightarrow> DbError + UserDb" where
  "begin_mempool_history_scan env address_id start_run_id now db =
     require_row ''Failed to begin mempool history scan: sync state row missing''
       (update_address_row db address_id (\<lambda>r. r\<lparr>tss_scan_start_run_id := Some start_run_id,
          tss_backfill_cursor_txid := None, tss_updated_at := env_to_rfc3339 env now\<rparr>))"

record HdMempoolHistoryFrontierUpdate =
  fu_account_id :: ulid
  fu_next_address_id :: "ulid option"

record MempoolHistoryPageWorkUpdate =
  pw_address_id :: ulid
  pw_next_cursor :: "TxHash option"
  pw_hd_frontier :: "HdMempoolHistoryFrontierUpdate option"

definition addresses_belong_to_account :: "UserDb \<Rightarrow> ulid \<Rightarrow> HdMempoolHistoryFrontierUpdate \<Rightarrow> bool" where
  "addresses_belong_to_account db address_id frontier \<longleftrightarrow>
     owns_address db (fu_account_id frontier) address_id \<and>
     (case fu_next_address_id frontier of None \<Rightarrow> True | Some next_id \<Rightarrow> owns_address db (fu_account_id frontier) next_id)"

definition commit_mempool_history_page_work :: "Env \<Rightarrow> MempoolHistoryPageWorkUpdate \<Rightarrow> time \<Rightarrow> UserDb \<Rightarrow> DbError + UserDb" where
  "commit_mempool_history_page_work env update now db =
     (let updated_at = env_to_rfc3339 env now in
      res_bind
        (case pw_hd_frontier update of
           None \<Rightarrow> Inr ()
         | Some frontier \<Rightarrow>
             if addresses_belong_to_account db (pw_address_id update) frontier then Inr ()
             else Inl (DbError ''Mempool history frontier address must belong to the account''))
        (\<lambda>_.
         res_bind
           (require_row ''Failed to commit mempool history page cursor: sync state row missing''
             (update_address_row db (pw_address_id update)
               (\<lambda>r. r\<lparr>tss_backfill_cursor_txid := pw_next_cursor update, tss_updated_at := updated_at\<rparr>)))
           (\<lambda>db'.
            case pw_hd_frontier update of
              None \<Rightarrow> Inr db'
            | Some frontier \<Rightarrow>
                require_row ''Failed to commit mempool history account frontier: account sync state row missing''
                  (db'\<lparr>account_sync_state := map (\<lambda>r. if ass_account_id r = fu_account_id frontier
                       then r\<lparr>ass_next_address_id := fu_next_address_id frontier, ass_updated_at := updated_at\<rparr> else r)
                     (account_sync_state db')\<rparr>,
                   length (filter (\<lambda>r. ass_account_id r = fu_account_id frontier) (account_sync_state db'))))))"

definition refresh_mempool_history_proof :: "Env \<Rightarrow> ulid \<Rightarrow> MempoolHistoryProof \<Rightarrow> time \<Rightarrow> UserDb \<Rightarrow> bool \<times> UserDb" where
  "refresh_mempool_history_proof env address_id prf now db =
     (case update_sync_state db
             (\<lambda>r. is_address_row address_id r \<and> tss_complete_tx_count r = Some (uint (proof_confirmed_tx_count prf)))
             (\<lambda>r. r\<lparr>tss_complete_height := Some (proof_complete_height prf), tss_updated_at := env_to_rfc3339 env now\<rparr>) of
        (db', changed) \<Rightarrow> (changed > 0, db'))"

definition update_address_mempool_expected_tx_count ::
  "Env \<Rightarrow> ulid \<Rightarrow> TransactionCount option \<Rightarrow> time \<Rightarrow> UserDb \<Rightarrow> DbError + UserDb" where
  "update_address_mempool_expected_tx_count env address_id expected now db =
     require_row ''Failed to update mempool expected tx count: sync state row missing''
       (update_address_row db address_id (\<lambda>r. r\<lparr>tss_expected_tx_count := map_option uint expected,
          tss_updated_at := env_to_rfc3339 env now\<rparr>))"

definition restart_strict_mempool_history_scan :: "Env \<Rightarrow> ulid \<Rightarrow> time \<Rightarrow> UserDb \<Rightarrow> DbError + UserDb" where
  "restart_strict_mempool_history_scan env address_id now db =
     require_row ''Failed to restart strict Mempool history scan: sync state row missing''
       (update_address_row db address_id (\<lambda>r. r\<lparr>tss_complete_tx_count := None, tss_complete_height := None,
          tss_backfill_cursor_txid := None, tss_scan_start_run_id := None, tss_updated_at := env_to_rfc3339 env now\<rparr>))"

subsection \<open>The history of an Ethereum address\<close>

datatype EtherscanHistoryStatus = Continuous | RecentOnly | Gap

fun history_status_as_db_value :: "EtherscanHistoryStatus \<Rightarrow> string" where
  "history_status_as_db_value Continuous = ''continuous''"
| "history_status_as_db_value RecentOnly = ''recent_only''"
| "history_status_as_db_value Gap = ''gap''"

definition update_address_etherscan_backfill_cursor :: "Env \<Rightarrow> ulid \<Rightarrow> int option \<Rightarrow> time \<Rightarrow> UserDb \<Rightarrow> DbError + UserDb" where
  "update_address_etherscan_backfill_cursor env address_id end_block now db =
     require_row ''Failed to update etherscan backfill cursor: sync state row missing''
       (update_address_row db address_id (\<lambda>r. r\<lparr>tss_etherscan_end_block := end_block, tss_etherscan_start_block := None,
          tss_updated_at := env_to_rfc3339 env now\<rparr>))"

definition commit_etherscan_transaction_tip :: "Env \<Rightarrow> ulid \<Rightarrow> int \<Rightarrow> time \<Rightarrow> UserDb \<Rightarrow> DbError + UserDb" where
  "commit_etherscan_transaction_tip env address_id tip now db =
     require_row ''Failed to commit etherscan transaction tip: sync state row missing''
       (update_address_row db address_id (\<lambda>r. r\<lparr>tss_etherscan_tip_height := Some tip,
          tss_updated_at := env_to_rfc3339 env now\<rparr>))"

definition update_address_etherscan_history_status ::
  "Env \<Rightarrow> ulid \<Rightarrow> EtherscanHistoryStatus \<Rightarrow> time \<Rightarrow> UserDb \<Rightarrow> DbError + UserDb" where
  "update_address_etherscan_history_status env address_id status now db =
     (let checkpoint_version = (if status = Continuous then Some 1 else None) in
      require_row ''Failed to update etherscan history status: sync state row missing''
        (update_address_row db address_id (\<lambda>r. r\<lparr>tss_etherscan_history_status := Some (history_status_as_db_value status),
           tss_etherscan_checkpoint_version := checkpoint_version, tss_updated_at := env_to_rfc3339 env now\<rparr>)))"

text \<open>
  The repair of the provider keys of Ethereum transfers, for a network none of whose raw transactions is known: when
  transfers are stored, their addresses are fetched from the start again.
\<close>

definition reset_etherscan_refetch_state :: "Env \<Rightarrow> Network \<Rightarrow> time \<Rightarrow> UserDb \<Rightarrow> UserDb" where
  "reset_etherscan_refetch_state env network now db =
     (let existing_transfer_count = length (filter (\<lambda>t. at_asset_id t = ''ethereum'' \<and> at_network t = network_as_str network)
            (account_transfers db));
          address_ids = set [da_id da. da \<leftarrow> digital_asset_addresses db, a \<leftarrow> digital_asset_accounts db,
            da_account_id da = Some (daa_id a) \<and> daa_asset_id a = ''ethereum'' \<and> daa_network a = network_as_str network]
      in if existing_transfer_count > 0
         then fst (update_sync_state db (\<lambda>r. tss_address_id r \<in> address_ids) (\<lambda>r. r\<lparr>tss_etherscan_start_block := None,
                tss_etherscan_end_block := None, tss_etherscan_history_status := None,
                tss_updated_at := env_to_rfc3339 env now\<rparr>))
         else db)"

subsection \<open>Rows that go with what they refer to\<close>

text \<open>
  The deletion of accounts, of one account or of all accounts of a wallet: the tables that refer to an account or to one of
  its addresses lose those rows (\<open>ON DELETE CASCADE\<close>) or the reference (\<open>ON DELETE SET NULL\<close>). The deletion of sync runs that
  are no longer needed takes the reference of an unfinished scan to its first run away.
\<close>

definition delete_native_accounts :: "(AccountRow \<Rightarrow> bool) \<Rightarrow> UserDb \<Rightarrow> UserDb" where
  "delete_native_accounts selected db =
     (let accounts = daa_id ` set (filter selected (digital_asset_accounts db));
          gone = (\<lambda>da. da_account_id da \<in> Some ` accounts);
          addresses = da_id ` set (filter gone (digital_asset_addresses db));
          forget = (\<lambda>reference. if reference \<in> Some ` addresses then None else reference)
      in db\<lparr>digital_asset_accounts := filter (\<lambda>a. \<not> selected a) (digital_asset_accounts db),
            digital_asset_addresses := filter (\<lambda>da. \<not> gone da) (digital_asset_addresses db),
            account_transfers := map (\<lambda>t. t\<lparr>at_from_address_id := forget (at_from_address_id t),
              at_to_address_id := forget (at_to_address_id t)\<rparr>) (account_transfers db),
            transaction_inputs := filter (\<lambda>i. ti_address_id i \<notin> addresses) (transaction_inputs db),
            transaction_outputs := filter (\<lambda>out. txo_address_id out \<notin> addresses) (transaction_outputs db),
            utxos := filter (\<lambda>u. ut_address_id u \<notin> addresses) (utxos db),
            transaction_sync_state := filter (\<lambda>r. tss_address_id r \<notin> addresses) (transaction_sync_state db),
            account_sync_state := map (\<lambda>r. r\<lparr>ass_next_address_id := forget (ass_next_address_id r)\<rparr>)
              (filter (\<lambda>r. ass_account_id r \<notin> accounts) (account_sync_state db)),
            hd_account_chain_sync_state := filter (\<lambda>r. hcs_account_id r \<notin> accounts) (hd_account_chain_sync_state db),
            account_integration_sync_state := filter (\<lambda>r. ais_account_id r \<notin> accounts) (account_integration_sync_state db),
            account_transaction_ledger := filter (\<lambda>r. ld_account_id r \<notin> accounts) (account_transaction_ledger db)\<rparr>)"

definition forget_sync_runs :: "ulid set \<Rightarrow> UserDb \<Rightarrow> UserDb" where
  "forget_sync_runs runs db =
     fst (update_sync_state db (\<lambda>r. tss_scan_start_run_id r \<in> Some ` runs) (\<lambda>r. r\<lparr>tss_scan_start_run_id := None\<rparr>))"

subsection \<open>Invalidating a proved history\<close>

text \<open>
  The loops over the two hash sets change different rows for different elements, so that their order does not matter; the
  model changes the rows of all elements at once and counts the rows of the first loop.
\<close>

definition invalidate_mempool_history_coverage_tx :: "CoverageInvalidationTargets \<Rightarrow> string \<Rightarrow> UserDb \<Rightarrow> UserDb \<times> nat" where
  "invalidate_mempool_history_coverage_tx targets updated_at db =
     (case update_sync_state db
             (\<lambda>r. tss_scope r = ADDRESS_SYNC_SCOPE \<and> tss_address_id r \<in> target_address_ids targets)
             (\<lambda>r. r\<lparr>tss_complete_tx_count := None, tss_complete_height := None, tss_updated_at := updated_at\<rparr>) of
        (db', changed) \<Rightarrow>
          (db'\<lparr>account_transaction_ledger := map (\<lambda>r. if ld_account_id r \<in> target_account_ids targets
               then clear_closing_row updated_at r else r) (account_transaction_ledger db')\<rparr>, changed))"

definition invalidate_mempool_history_coverage :: "Env \<Rightarrow> CoverageInvalidationTargets \<Rightarrow> time \<Rightarrow> UserDb \<Rightarrow> UserDb" where
  "invalidate_mempool_history_coverage env targets now db =
     (if target_address_ids targets = {} \<and> target_account_ids targets = {} then db
      else fst (invalidate_mempool_history_coverage_tx targets (env_to_rfc3339 env now) db))"

definition parse_account_id :: "Env \<Rightarrow> string \<Rightarrow> DbError + ulid" where
  "parse_account_id env raw = map_err (\<lambda>err. DbError (''Invalid account id in DB: '' @ err)) (env_parse_ulid env raw)"

definition parse_address_id :: "Env \<Rightarrow> string \<Rightarrow> DbError + ulid" where
  "parse_address_id env raw = map_err (\<lambda>err. DbError (''Invalid address id in DB: '' @ err)) (env_parse_ulid env raw)"

definition invalidate_mempool_history_proof :: "Env \<Rightarrow> ulid \<Rightarrow> time \<Rightarrow> UserDb \<Rightarrow> DbError + UserDb" where
  "invalidate_mempool_history_proof env address_id now db =
     (case List.find (\<lambda>da. da_id da = address_id) (digital_asset_addresses db) of
        None \<Rightarrow> Inl (DbError ''Failed to resolve invalidated mempool account: Query returned no rows'')
      | Some da \<Rightarrow>
          res_bind (case da_account_id da of None \<Rightarrow> Inr None | Some raw \<Rightarrow> res_map Some (parse_account_id env raw)) (\<lambda>account_id.
            require_row ''Failed to invalidate mempool history proof: sync state row missing''
              (invalidate_mempool_history_coverage_tx
                \<lparr>target_address_ids = {address_id}, target_account_ids = set_option account_id\<rparr>
                (env_to_rfc3339 env now) db)))"

definition invalidate_mempool_account_history_coverage ::
  "Env \<Rightarrow> ulid \<Rightarrow> time \<Rightarrow> UserDb \<Rightarrow> DbError + CoverageInvalidationTargets \<times> UserDb" where
  "invalidate_mempool_account_history_coverage env account_id now db =
     res_bind
       (res_fold (\<lambda>ids da. res_map (\<lambda>i. insert i ids) (parse_address_id env (da_id da))) {}
         (filter (\<lambda>da. da_account_id da = Some account_id) (digital_asset_addresses db)))
       (\<lambda>address_ids.
          let targets = \<lparr>target_address_ids = address_ids, target_account_ids = {account_id}\<rparr>
          in Inr (targets, fst (invalidate_mempool_history_coverage_tx targets (env_to_rfc3339 env now) db)))"

subsection \<open>Counting an account's transactions\<close>

definition canonical_tx_ids :: "UserDb \<Rightarrow> ulid \<Rightarrow> ulid list" where
  "canonical_tx_ids db account_id =
     remdups (map ti_tx_id (filter (\<lambda>i. owns_address db account_id (ti_address_id i)) (transaction_inputs db)) @
       map txo_tx_id (filter (\<lambda>out. owns_address db account_id (txo_address_id out)) (transaction_outputs db)) @
       map at_chain_transaction_id
         (filter (\<lambda>t. owns_optional_address db account_id (at_from_address_id t) \<or>
                      owns_optional_address db account_id (at_to_address_id t)) (account_transfers db)))"

definition parse_transaction_count :: "string \<Rightarrow> int \<Rightarrow> DbError + TransactionCount" where
  "parse_transaction_count field raw =
     map_err (\<lambda>err. case err of CountOutOfRange v \<Rightarrow>
         DbError (''Invalid '' @ field @ '' in DB: transaction count out of range: '' @ int_to_string v))
       (transaction_count_try_new raw)"

definition load_canonical_account_transaction_count_bounded ::
  "UserDb \<Rightarrow> ulid \<Rightarrow> TransactionCount \<Rightarrow> DbError + TransactionCount" where
  "load_canonical_account_transaction_count_bounded db account_id stop_at =
     parse_transaction_count ''bounded canonical account transaction count''
       (int (min (length (canonical_tx_ids db account_id)) (unat stop_at)))"

subsection \<open>What every row satisfies\<close>

definition row_ok :: "UserDb \<Rightarrow> TransactionSyncStateRow \<Rightarrow> bool" where
  "row_ok db r \<longleftrightarrow>
     tss_scope r = ADDRESS_SYNC_SCOPE \<and> tss_address_id r \<in> da_id ` set (digital_asset_addresses db) \<and>
     (tss_complete_tx_count r = None \<longleftrightarrow> tss_complete_height r = None) \<and>
     (tss_api_balance_hi r = None \<longleftrightarrow> tss_api_balance_lo r = None) \<and>
     (tss_api_balance_hi r = None \<longleftrightarrow> tss_api_balance_observed_at r = None) \<and>
     0 \<le> tss_consecutive_failure_count r \<and> sync_result_from_db_value (tss_last_result r) \<noteq> None \<and>
     tss_etherscan_start_block r = None \<and>
     tss_etherscan_history_status r \<in> insert None (range (\<lambda>s. Some (history_status_as_db_value s))) \<and>
     (tss_etherscan_checkpoint_version r = None \<or> tss_etherscan_checkpoint_version r = Some 1 \<and>
       tss_etherscan_history_status r \<in> {None, Some (history_status_as_db_value Continuous)})"

definition table_ok :: "UserDb \<Rightarrow> bool" where
  "table_ok db \<longleftrightarrow> distinct (map tss_address_id (transaction_sync_state db)) \<and> list_all (row_ok db) (transaction_sync_state db)"

text \<open>
  One operation of the program on the table: a writer above, the deletion of accounts or of sync runs, or any operation that
  leaves the table alone and takes no address away, such as the discovery of an address.
\<close>

inductive sync_state_step :: "Env \<Rightarrow> UserDb \<Rightarrow> UserDb \<Rightarrow> bool" for env where
  started: "mark_address_sync_started env a run t db = Inr db' \<Longrightarrow> sync_state_step env db db'"
| observed: "persist_mempool_address_observation_success env seen db = Inr db' \<Longrightarrow> sync_state_step env db db'"
| succeeded: "mark_address_sync_completed_success env success db = Inr db' \<Longrightarrow> sync_state_step env db db'"
| failed: "mark_address_sync_completed_failure env a run s t msg counts db = Inr db' \<Longrightarrow> sync_state_step env db db'"
| cursor_set: "update_address_mempool_backfill_cursor env a cursor t db = Inr db' \<Longrightarrow> sync_state_step env db db'"
| scan_begun: "begin_mempool_history_scan env a run t db = Inr db' \<Longrightarrow> sync_state_step env db db'"
| page_committed: "commit_mempool_history_page_work env work t db = Inr db' \<Longrightarrow> sync_state_step env db db'"
| proof_refreshed: "refresh_mempool_history_proof env a prf t db = (b, db') \<Longrightarrow> sync_state_step env db db'"
| expected_set: "update_address_mempool_expected_tx_count env a n t db = Inr db' \<Longrightarrow> sync_state_step env db db'"
| invalidated: "sync_state_step env db (invalidate_mempool_history_coverage env targets t db)"
| proof_invalidated: "invalidate_mempool_history_proof env a t db = Inr db' \<Longrightarrow> sync_state_step env db db'"
| account_invalidated: "invalidate_mempool_account_history_coverage env acct t db = Inr (targets, db') \<Longrightarrow> sync_state_step env db db'"
| proof_published: "publish_mempool_history_proof_conn db a prf now = Inr db' \<Longrightarrow> sync_state_step env db db'"
| strict_published: "publish_strict_mempool_history_proof_conn db a run prf now = Inr db' \<Longrightarrow> sync_state_step env db db'"
| scan_restarted: "restart_strict_mempool_history_scan env a t db = Inr db' \<Longrightarrow> sync_state_step env db db'"
| etherscan_cursor_set: "update_address_etherscan_backfill_cursor env a block t db = Inr db' \<Longrightarrow> sync_state_step env db db'"
| etherscan_tip_committed: "commit_etherscan_transaction_tip env a tip t db = Inr db' \<Longrightarrow> sync_state_step env db db'"
| etherscan_status_set: "update_address_etherscan_history_status env a status t db = Inr db' \<Longrightarrow> sync_state_step env db db'"
| etherscan_reset: "sync_state_step env db (reset_etherscan_refetch_state env network t db)"
| accounts_deleted: "sync_state_step env db (delete_native_accounts selected db)"
| runs_deleted: "sync_state_step env db (forget_sync_runs runs db)"
| elsewhere: "transaction_sync_state db' = transaction_sync_state db \<Longrightarrow>
    da_id ` set (digital_asset_addresses db) \<subseteq> da_id ` set (digital_asset_addresses db') \<Longrightarrow> sync_state_step env db db'"

lemma update_keeps:
  assumes "table_ok db" and "\<And>r. row_ok db r \<Longrightarrow> row_ok db (f r)" and "\<And>r. tss_address_id (f r) = tss_address_id r"
  shows "table_ok (fst (update_sync_state db P f))"
proof -
  have keys: "map tss_address_id (map (\<lambda>r. if P r then f r else r) rs) = map tss_address_id rs" for rs
    using assms(3) by (simp add: o_def)
  have rows: "row_ok (fst (update_sync_state db P f)) r \<longleftrightarrow> row_ok db r" for r
    by (simp add: row_ok_def update_sync_state_def)
  show ?thesis unfolding table_ok_def
  proof
    show "distinct (map tss_address_id (transaction_sync_state (fst (update_sync_state db P f))))"
      using assms(1) by (simp add: table_ok_def update_sync_state_def keys del: map_map)
    show "list_all (row_ok (fst (update_sync_state db P f))) (transaction_sync_state (fst (update_sync_state db P f)))"
      using assms(1,2) unfolding rows by (auto simp: table_ok_def update_sync_state_def list_all_iff)
  qed
qed

lemma insert_keeps:
  assumes "table_ok db" and "insert_sync_row prefix db r = Inr db'" and "tss_address_id r \<in> da_id ` set (digital_asset_addresses db) \<Longrightarrow> row_ok db r"
  shows "table_ok db'"
proof -
  from assms(2) have new: "(tss_scope r, tss_address_id r) \<notin> (\<lambda>q. (tss_scope q, tss_address_id q)) ` set (transaction_sync_state db)"
    and "tss_address_id r \<in> da_id ` set (digital_asset_addresses db)"
    and db': "db' = db\<lparr>transaction_sync_state := transaction_sync_state db @ [r]\<rparr>"
    by (auto simp: insert_sync_row_def split: if_splits)
  with assms(3) have r: "row_ok db r" by simp
  have "tss_address_id r \<notin> tss_address_id ` set (transaction_sync_state db)"
  proof
    assume "tss_address_id r \<in> tss_address_id ` set (transaction_sync_state db)"
    then obtain q where q: "q \<in> set (transaction_sync_state db)" "tss_address_id r = tss_address_id q" by blast
    with assms(1) have "tss_scope q = ADDRESS_SYNC_SCOPE" by (auto simp: table_ok_def list_all_iff row_ok_def)
    with q r new show False by (metis (mono_tags, lifting) image_eqI row_ok_def)
  qed
  with assms(1) r show ?thesis by (auto simp: table_ok_def db' list_all_iff row_ok_def)
qed

lemma split_optional_balance_paired:
  "split_optional_balance b = Inr (hi, lo) \<Longrightarrow> (hi = None \<longleftrightarrow> lo = None) \<and> (hi = None \<longleftrightarrow> b = None)"
  by (cases b) (auto simp: split_optional_balance_def split_api_confirmed_balance_def split: sum.splits)

lemma sync_result_parses [simp]: "sync_result_from_db_value (sync_result_as_db_value v) = Some v"
  by (cases v) (simp_all add: sync_result_from_db_value_def)

lemma sync_result_texts [simp]:
  "sync_result_from_db_value ''success'' = Some SyncSuccess" "sync_result_from_db_value ''failure'' = Some SyncFailure"
  by (simp_all add: sync_result_from_db_value_def)

lemma update_address_keeps:
  "table_ok db \<Longrightarrow> (\<And>r. row_ok db r \<Longrightarrow> row_ok db (f r)) \<Longrightarrow> (\<And>r. tss_address_id (f r) = tss_address_id r) \<Longrightarrow>
     table_ok (fst (update_address_row db a f))"
  unfolding update_address_row_def by (rule update_keeps)

lemma require_row_Inr: "require_row message updated = Inr db \<longleftrightarrow> snd updated \<noteq> 0 \<and> db = fst updated"
  by (auto simp: require_row_def)

lemma table_ok_cong:
  "transaction_sync_state db' = transaction_sync_state db \<Longrightarrow> digital_asset_addresses db' = digital_asset_addresses db \<Longrightarrow>
     table_ok db' = table_ok db"
  by (simp add: table_ok_def row_ok_def [abs_def])

lemma started_row_keeps: "row_ok db r \<Longrightarrow> row_ok db (started_row run t r)"
  unfolding row_ok_def started_row_def by auto

lemma started_row_key [simp]: "tss_address_id (started_row run t r) = tss_address_id r" "tss_scope (started_row run t r) = tss_scope r"
  by (simp_all add: started_row_def)

lemma started_keeps:
  assumes "mark_address_sync_started env a run t db = Inr db'" and "table_ok db"
  shows "table_ok db'"
proof (cases "list_ex (is_address_row a) (transaction_sync_state db)")
  case True
  with assms(1) have db': "db' = fst (update_address_row db a (started_row run (env_to_rfc3339 env t)))"
    by (simp add: mark_address_sync_started_def Let_def)
  show ?thesis unfolding db' using assms(2) by (rule update_address_keeps) (simp_all add: started_row_keeps)
next
  case False
  with assms(1) have "insert_sync_row ''Failed to mark sync start: '' db
      (new_sync_row a run (env_to_rfc3339 env t) (env_to_rfc3339 env t)) = Inr db'"
    by (simp add: mark_address_sync_started_def Let_def)
  from insert_keeps [OF assms(2) this] show ?thesis by (simp add: row_ok_def new_sync_row_def sync_result_from_db_value_def)
qed

lemma completion_inserted_keeps:
  assumes "insert_address_sync_completion env c db = Inr db'" and "table_ok db"
  shows "table_ok db'"
proof -
  from assms(1) obtain hi lo r where split: "split_optional_balance (sc_api_confirmed_balance c) = Inr (hi, lo)"
    and ins: "insert_sync_row ''Failed to insert sync completion: '' db r = Inr db'"
    and r: "r = (new_sync_row (sc_address_id c) (sc_run_id c) (env_to_rfc3339 env (sc_started_at c)) (env_to_rfc3339 env (sc_completed_at c)))\<lparr>
             tss_last_completed_at := Some (env_to_rfc3339 env (sc_completed_at c)), tss_last_result := sync_result_as_db_value (sc_result c),
             tss_last_error := sc_last_error c, tss_last_tip_height := sc_last_tip_height c,
             tss_new_tx_count := uint (sc_new_tx_count c), tss_updated_tx_count := uint (sc_updated_tx_count c),
             tss_api_balance_hi := hi, tss_api_balance_lo := lo,
             tss_api_balance_observed_at := map_option (\<lambda>_. env_to_rfc3339 env (sc_completed_at c)) (sc_api_confirmed_balance c)\<rparr>"
    by (auto simp: insert_address_sync_completion_def Let_def)
  have "row_ok db r" if "tss_address_id r \<in> da_id ` set (digital_asset_addresses db)"
    using that split_optional_balance_paired [OF split] by (auto simp: r row_ok_def new_sync_row_def)
  from insert_keeps [OF assms(2) ins this] show ?thesis .
qed

lemma success_row_keeps:
  "split_optional_balance b = Inr (hi, lo) \<Longrightarrow> row_ok db r \<Longrightarrow> row_ok db (success_row env success hi lo r)"
  by (drule split_optional_balance_paired) (auto simp: success_row_def row_ok_def coalesce_def Let_def split: option.splits)

lemma row_key_kept [simp]:
  "tss_address_id (success_row env success hi lo r) = tss_address_id r"
  "tss_address_id (failure_row env run s t msg counts r) = tss_address_id r"
  "tss_scope (success_row env success hi lo r) = tss_scope r"
  "tss_scope (failure_row env run s t msg counts r) = tss_scope r"
  by (simp_all add: success_row_def failure_row_def Let_def)

lemma succeeded_keeps:
  assumes "mark_address_sync_completed_success env success db = Inr db'" and "table_ok db"
  shows "table_ok db'"
proof -
  from assms(1) obtain hi lo where split: "split_optional_balance (ss_api_confirmed_balance success) = Inr (hi, lo)"
    and res: "db' = fst (update_address_row db (ss_address_id success) (success_row env success hi lo)) \<or>
      insert_address_sync_completion env (completion_from_success success)
        (fst (update_address_row db (ss_address_id success) (success_row env success hi lo))) = Inr db'"
    by (auto simp: mark_address_sync_completed_success_def case_prod_beta split: if_splits)
  have "table_ok (fst (update_address_row db (ss_address_id success) (success_row env success hi lo)))"
    using assms(2) by (rule update_address_keeps) (simp_all add: success_row_keeps [OF split])
  with res completion_inserted_keeps show ?thesis by blast
qed

lemma failure_row_keeps: "row_ok db r \<Longrightarrow> row_ok db (failure_row env run s t msg counts r)"
  by (auto simp: row_ok_def failure_row_def)

lemma failed_keeps: "mark_address_sync_completed_failure env a run s t msg counts db = Inr db' \<Longrightarrow> table_ok db \<Longrightarrow> table_ok db'"
proof -
  assume f: "mark_address_sync_completed_failure env a run s t msg counts db = Inr db'" and ok: "table_ok db"
  let ?up = "fst (update_address_row db a (failure_row env run s t msg counts))"
  have up: "table_ok ?up" using ok by (intro update_address_keeps failure_row_keeps) simp_all
  from f consider "db' = ?up"
    | db'' where "insert_address_sync_completion env (completion_from_failure a run s t msg) ?up = Inr db''"
      "db' = fst (update_address_row db'' a (\<lambda>r. r\<lparr>tss_consecutive_failure_count := (if counts then 1 else 0)\<rparr>))"
    by (auto simp: mark_address_sync_completed_failure_def case_prod_beta split: if_splits)
  then show ?thesis
  proof cases
    case 2
    from completion_inserted_keeps [OF 2(1) up] show ?thesis
      unfolding 2(2) by (rule update_address_keeps) (auto simp: row_ok_def)
  qed (simp add: up)
qed

lemma observed_keeps:
  assumes "persist_mempool_address_observation_success env seen db = Inr db'" and "table_ok db"
  shows "table_ok db'"
proof -
  from assms(1) obtain hi lo f where split: "split_optional_balance (mo_confirmed_balance seen) = Inr (hi, lo)"
    and f: "f = (\<lambda>r. r\<lparr>tss_last_completed_at := Some (env_to_rfc3339 env (mo_observed_at seen)),
               tss_last_result := sync_result_as_db_value SyncSuccess,
               tss_last_error := None, tss_last_tip_height := Some (mo_tip_height seen),
               tss_reported_tx_count := Some (uint (mo_confirmed_tx_count seen)),
               tss_api_balance_hi := hi, tss_api_balance_lo := lo,
               tss_api_balance_observed_at := (if hi = None then None else Some (env_to_rfc3339 env (mo_observed_at seen))),
               tss_consecutive_failure_count := 0, tss_updated_at := env_to_rfc3339 env (mo_observed_at seen)\<rparr>)"
    and res: "db' = fst (update_address_row db (mo_address_id seen) f)"
    by (auto simp: persist_mempool_address_observation_success_def Let_def case_prod_beta split: if_splits)
  show ?thesis unfolding res using assms(2)
    by (rule update_address_keeps) (use split_optional_balance_paired [OF split] in \<open>auto simp: f row_ok_def\<close>)
qed

lemma page_committed_keeps:
  assumes "commit_mempool_history_page_work env work t db = Inr db'" and "table_ok db"
  shows "table_ok db'"
proof -
  let ?up = "fst (update_address_row db (pw_address_id work)
      (\<lambda>r. r\<lparr>tss_backfill_cursor_txid := pw_next_cursor work, tss_updated_at := env_to_rfc3339 env t\<rparr>))"
  have "table_ok ?up" using assms(2) by (rule update_address_keeps) (auto simp: row_ok_def)
  moreover from assms(1) have "transaction_sync_state db' = transaction_sync_state ?up" "digital_asset_addresses db' = digital_asset_addresses ?up"
    by (auto simp: commit_mempool_history_page_work_def Let_def require_row_Inr split: option.splits if_splits)
  ultimately show ?thesis using table_ok_cong by blast
qed

definition unproved_row :: "string \<Rightarrow> TransactionSyncStateRow \<Rightarrow> TransactionSyncStateRow" where
  "unproved_row now r = r\<lparr>tss_complete_tx_count := None, tss_complete_height := None, tss_updated_at := now\<rparr>"

lemma invalidation_rows:
  "transaction_sync_state (fst (invalidate_mempool_history_coverage_tx targets now db)) =
     map (\<lambda>r. if tss_scope r = ADDRESS_SYNC_SCOPE \<and> tss_address_id r \<in> target_address_ids targets then unproved_row now r else r)
       (transaction_sync_state db)"
  "digital_asset_addresses (fst (invalidate_mempool_history_coverage_tx targets now db)) = digital_asset_addresses db"
  "account_transaction_ledger (fst (invalidate_mempool_history_coverage_tx targets now db)) =
     map (\<lambda>r. if ld_account_id r \<in> target_account_ids targets then clear_closing_row now r else r) (account_transaction_ledger db)"
  by (simp_all add: invalidate_mempool_history_coverage_tx_def update_sync_state_def unproved_row_def)

lemma invalidation_keeps:
  assumes "table_ok db"
  shows "table_ok (fst (invalidate_mempool_history_coverage_tx targets now db))"
proof -
  let ?up = "fst (update_sync_state db (\<lambda>r. tss_scope r = ADDRESS_SYNC_SCOPE \<and> tss_address_id r \<in> target_address_ids targets)
      (unproved_row now))"
  have "table_ok ?up" using assms by (rule update_keeps) (auto simp: row_ok_def unproved_row_def)
  then show ?thesis
    using table_ok_cong [of "fst (invalidate_mempool_history_coverage_tx targets now db)" ?up]
    by (simp add: invalidation_rows) (simp add: update_sync_state_def)
qed

lemma refresh_keeps: "table_ok db \<Longrightarrow> table_ok (snd (refresh_mempool_history_proof env a prf t db))"
proof -
  assume ok: "table_ok db"
  let ?P = "\<lambda>r. is_address_row a r \<and> tss_complete_tx_count r = Some (uint (proof_confirmed_tx_count prf))"
  let ?f = "\<lambda>r. r\<lparr>tss_complete_height := Some (proof_complete_height prf), tss_updated_at := env_to_rfc3339 env t\<rparr>"
  have "update_sync_state db ?P ?f = update_sync_state db ?P (\<lambda>r. if ?P r then ?f r else r)"
    by (simp add: update_sync_state_def cong: if_cong)
  moreover have "table_ok (fst (update_sync_state db ?P (\<lambda>r. if ?P r then ?f r else r)))"
    using ok by (rule update_keeps) (auto simp: row_ok_def)
  ultimately show ?thesis by (simp add: refresh_mempool_history_proof_def case_prod_beta)
qed

lemma simple_update_keeps:
  "require_row message (update_address_row db a f) = Inr db' \<Longrightarrow> table_ok db \<Longrightarrow> (\<And>r. row_ok db r \<Longrightarrow> row_ok db (f r)) \<Longrightarrow>
     (\<And>r. tss_address_id (f r) = tss_address_id r) \<Longrightarrow> table_ok db'"
  by (auto simp: require_row_Inr intro: update_address_keeps)

lemma remaining_addresses:
  "x \<in> f ` set xs \<Longrightarrow> x \<notin> f ` set (filter P xs) \<Longrightarrow> x \<in> f ` set (filter (\<lambda>y. \<not> P y) xs)"
  by auto

lemma deletion_keeps:
  assumes "table_ok db"
  shows "table_ok (delete_native_accounts selected db)"
proof -
  let ?db = "delete_native_accounts selected db"
  let ?gone = "\<lambda>da. da_account_id da \<in> Some ` daa_id ` set (filter selected (digital_asset_accounts db))"
  let ?lost = "da_id ` set (filter ?gone (digital_asset_addresses db))"
  have rows: "transaction_sync_state ?db = filter (\<lambda>r. tss_address_id r \<notin> ?lost) (transaction_sync_state db)"
    and addresses: "digital_asset_addresses ?db = filter (\<lambda>da. \<not> ?gone da) (digital_asset_addresses db)"
    unfolding delete_native_accounts_def Let_def by simp_all
  have "row_ok ?db r" if r: "r \<in> set (transaction_sync_state ?db)" for r
  proof -
    have ok: "row_ok db r" and kept: "tss_address_id r \<notin> ?lost"
      using r assms unfolding rows by (simp_all add: table_ok_def list_all_iff)
    from ok have "tss_address_id r \<in> da_id ` set (digital_asset_addresses db)" by (simp add: row_ok_def)
    from remaining_addresses [OF this kept] ok show ?thesis unfolding row_ok_def addresses by blast
  qed
  moreover have "distinct (map tss_address_id (transaction_sync_state ?db))"
    using assms unfolding rows table_ok_def by (blast intro: distinct_map_filter)
  ultimately show ?thesis by (simp add: table_ok_def list_all_iff)
qed

lemma forgotten_keeps: "table_ok db \<Longrightarrow> table_ok (forget_sync_runs runs db)"
  unfolding forget_sync_runs_def by (erule update_keeps) (auto simp: row_ok_def)

lemma reset_keeps:
  assumes "table_ok db"
  shows "table_ok (reset_etherscan_refetch_state env network t db)"
proof -
  have "table_ok (fst (update_sync_state db P (\<lambda>r. r\<lparr>tss_etherscan_start_block := None, tss_etherscan_end_block := None,
      tss_etherscan_history_status := None, tss_updated_at := env_to_rfc3339 env t\<rparr>)))" for P
    using assms by (rule update_keeps) (auto simp: row_ok_def)
  with assms show ?thesis by (simp add: reset_etherscan_refetch_state_def Let_def)
qed

lemma status_keeps:
  "row_ok db r \<Longrightarrow> row_ok db (r\<lparr>tss_etherscan_history_status := Some (history_status_as_db_value status),
     tss_etherscan_checkpoint_version := (if status = Continuous then Some 1 else None), tss_updated_at := now\<rparr>)"
  by (auto simp: row_ok_def)

lemma sync_state_step_keeps:
  assumes "table_ok db" and "sync_state_step env db db'"
  shows "table_ok db'"
  using assms(2)
proof cases
  case elsewhere
  with assms(1) show ?thesis by (auto simp: table_ok_def list_all_iff row_ok_def)
next
  case (scan_restarted a t)
  from scan_restarted [unfolded restart_strict_mempool_history_scan_def] assms(1) show ?thesis
    by (rule simple_update_keeps) (auto simp: row_ok_def)
next
  case (etherscan_cursor_set a block t)
  from etherscan_cursor_set [unfolded update_address_etherscan_backfill_cursor_def] assms(1) show ?thesis
    by (rule simple_update_keeps) (auto simp: row_ok_def)
next
  case (etherscan_tip_committed a tip t)
  from etherscan_tip_committed [unfolded commit_etherscan_transaction_tip_def] assms(1) show ?thesis
    by (rule simple_update_keeps) (auto simp: row_ok_def)
next
  case (etherscan_status_set a status t)
  from etherscan_status_set [unfolded update_address_etherscan_history_status_def Let_def] assms(1) show ?thesis
    by (rule simple_update_keeps) (simp_all add: status_keeps)
next
  case (cursor_set a cursor t)
  from cursor_set [unfolded update_address_mempool_backfill_cursor_def] assms(1) show ?thesis
    by (rule simple_update_keeps) (auto simp: row_ok_def)
next
  case (scan_begun a run t)
  from scan_begun [unfolded begin_mempool_history_scan_def] assms(1) show ?thesis
    by (rule simple_update_keeps) (auto simp: row_ok_def)
next
  case (expected_set a n t)
  from expected_set [unfolded update_address_mempool_expected_tx_count_def] assms(1) show ?thesis
    by (rule simple_update_keeps) (auto simp: row_ok_def)
next
  case (proof_refreshed a pf t b)
  with refresh_keeps [OF assms(1), of env a pf t] show ?thesis by simp
next
  case (invalidated targets t)
  with assms(1) show ?thesis by (simp add: invalidate_mempool_history_coverage_def invalidation_keeps)
next
  case (proof_invalidated a t)
  with assms(1) show ?thesis
    by (auto simp: invalidate_mempool_history_proof_def require_row_Inr invalidation_keeps split: option.splits)
next
  case (account_invalidated acct t targets)
  with assms(1) show ?thesis
    by (auto simp: invalidate_mempool_account_history_coverage_def Let_def invalidation_keeps)
next
  case (proof_published a pf now)
  then have db': "db' = fst (update_sync_state db (\<lambda>r. tss_scope r = ADDRESS_SYNC_SCOPE \<and> tss_address_id r = a)
      (\<lambda>r. r\<lparr>tss_complete_tx_count := Some (uint (proof_confirmed_tx_count pf)),
             tss_complete_height := Some (proof_complete_height pf), tss_updated_at := now\<rparr>))"
    by (auto simp: publish_mempool_history_proof_conn_def case_prod_beta split: if_splits)
  show ?thesis unfolding db' using assms(1) by (rule update_keeps) (auto simp: row_ok_def)
next
  case (strict_published a run pf now)
  then have db': "db' = fst (update_sync_state db
      (\<lambda>r. tss_scope r = ADDRESS_SYNC_SCOPE \<and> tss_address_id r = a \<and> tss_scan_start_run_id r = Some run)
      (\<lambda>r. r\<lparr>tss_complete_tx_count := Some (uint (proof_confirmed_tx_count pf)),
             tss_complete_height := Some (proof_complete_height pf), tss_scan_start_run_id := None, tss_updated_at := now\<rparr>))"
    by (auto simp: publish_strict_mempool_history_proof_conn_def case_prod_beta split: if_splits)
  show ?thesis unfolding db' using assms(1) by (rule update_keeps) (auto simp: row_ok_def)
qed (use assms(1) in \<open>blast intro: started_keeps observed_keeps succeeded_keeps failed_keeps page_committed_keeps
  deletion_keeps forgotten_keeps reset_keeps\<close>)+

definition sync_table_empty :: "UserDb \<Rightarrow> bool" where
  "sync_table_empty db \<longleftrightarrow> transaction_sync_state db = []"

interpretation sync_rows: state_machine sync_table_empty "sync_state_step env" table_ok for env
proof
  show "table_ok db" if "sync_table_empty db" for db using that by (simp add: sync_table_empty_def table_ok_def)
qed (rule sync_state_step_keeps)

text \<open>
  C15. The table stays valid. Whatever sequence of operations the program runs, from starts, completions, scans, publications,
  invalidations and restarts to the Etherscan writers, the repair that has a network fetched again, the deletion of accounts
  and of sync runs and the discovery of addresses, there is at most one row per address, and it is of an existing address; a
  proof has both its count and its height or neither; a balance has both its parts and the time it was seen or none of them;
  failures are not negative and the last result can be read back; the retired start block is not used, a history status can
  be read back, and the checkpoint of a continuous Etherscan history is 1 and stands beside no other status than that.
\<close>

theorem sync_state_rows_valid:
  assumes "sync_table_empty db0" and "(sync_state_step env)\<^sup>*\<^sup>* db0 db"
  shows "distinct (map tss_address_id (transaction_sync_state db)) \<and>
    (\<forall>r \<in> set (transaction_sync_state db).
       tss_scope r = ADDRESS_SYNC_SCOPE \<and> tss_address_id r \<in> da_id ` set (digital_asset_addresses db) \<and>
       (tss_complete_tx_count r = None \<longleftrightarrow> tss_complete_height r = None) \<and>
       (tss_api_balance_hi r = None \<longleftrightarrow> tss_api_balance_lo r = None) \<and>
       (tss_api_balance_hi r = None \<longleftrightarrow> tss_api_balance_observed_at r = None) \<and>
       0 \<le> tss_consecutive_failure_count r \<and> sync_result_from_db_value (tss_last_result r) \<noteq> None \<and>
       tss_etherscan_start_block r = None \<and>
       tss_etherscan_history_status r \<in> insert None (range (\<lambda>s. Some (history_status_as_db_value s))) \<and>
       (tss_etherscan_checkpoint_version r = None \<or> tss_etherscan_checkpoint_version r = Some 1 \<and>
         tss_etherscan_history_status r \<in> {None, Some (history_status_as_db_value Continuous)}))"
  using sync_rows.reachable_inv [OF assms] unfolding table_ok_def list_all_iff row_ok_def .

subsection \<open>An invalidated history is not complete\<close>

lemma invalidate_coverage_unfold:
  "target_address_ids targets \<noteq> {} \<Longrightarrow> invalidate_mempool_history_coverage env targets now db =
     fst (invalidate_mempool_history_coverage_tx targets (env_to_rfc3339 env now) db)"
  by (simp add: invalidate_mempool_history_coverage_def)

lemma joined_address:
  assumes "da \<in> set (digital_asset_addresses db)" and "da_account_id da = Some acct"
  shows "\<exists>row \<in> set (addresses_with_sync_state db acct). fst row = da_id da \<and>
    (case snd row of None \<Rightarrow> True | Some tss \<Rightarrow> tss \<in> set (transaction_sync_state db) \<and> is_address_row (da_id da) tss)"
proof -
  have da: "da \<in> set (account_addresses db acct)" using assms by (simp add: account_addresses_def)
  show ?thesis
  proof (cases "address_sync_rows db (da_id da)")
    case Nil
    then have "(da_id da, None) \<in> set (addresses_with_sync_state db acct)" using da by (force simp: addresses_with_sync_state_def)
    then show ?thesis by force
  next
    case (Cons tss rows)
    then have "(da_id da, Some tss) \<in> set (addresses_with_sync_state db acct)" using da by (force simp: addresses_with_sync_state_def)
    moreover have "tss \<in> set (address_sync_rows db (da_id da))" by (simp add: Cons)
    then have "tss \<in> set (transaction_sync_state db)" "is_address_row (da_id da) tss" by (auto simp: address_sync_rows_def is_address_row_def)
    ultimately show ?thesis by force
  qed
qed

text \<open>
  Invalidation is effective. After the coverage of an address is invalidated, the history of its account is not reported
  as complete, whatever entries it has, and no ledger entry of an invalidated account shows a closing balance.
\<close>

lemma invalidated_history_not_complete:
  assumes "da \<in> set (digital_asset_addresses db)" and "da_account_id da = Some acct" and "da_id da \<in> target_address_ids targets"
    and "load_candidate_bitcoin_history_coverage (invalidate_mempool_history_coverage env targets now db) acct network entries masked = Inr c"
  shows "coverage c \<noteq> Complete h \<and>
    (\<forall>r \<in> set (account_transaction_ledger (invalidate_mempool_history_coverage env targets now db)).
       ld_account_id r \<in> target_account_ids targets \<longrightarrow> ld_closing_balance_hi r = None \<and> ld_closing_balance_lo r = None)"
proof
  let ?db = "invalidate_mempool_history_coverage env targets now db"
  have db: "?db = fst (invalidate_mempool_history_coverage_tx targets (env_to_rfc3339 env now) db)"
    using assms(3) by (intro invalidate_coverage_unfold) auto
  show "coverage c \<noteq> Complete h"
  proof
    assume "coverage c = Complete h"
    then have proved: "\<forall>row \<in> set (addresses_with_sync_state ?db acct). address_proved ?db network h row"
      using candidate_complete [OF assms(4)] by blast
    have "da \<in> set (digital_asset_addresses ?db)" using assms(1) by (simp add: db invalidation_rows)
    from joined_address [OF this assms(2)] proved obtain tss where
      tss: "tss \<in> set (transaction_sync_state ?db)" "is_address_row (da_id da) tss" "tss_complete_tx_count tss \<noteq> None"
      by (fastforce simp: address_proved_def)
    with assms(3) show False
      by (auto simp: db invalidation_rows is_address_row_def unproved_row_def split: if_splits)
  qed
  show "\<forall>r \<in> set (account_transaction_ledger ?db).
       ld_account_id r \<in> target_account_ids targets \<longrightarrow> ld_closing_balance_hi r = None \<and> ld_closing_balance_lo r = None"
    by (auto simp: db invalidation_rows split: if_splits)
qed

subsection \<open>Loading an address with its state\<close>

text \<open>The columns the queries for addresses to sync select, in their order.\<close>

record SyncAddressColumns =
  col_id :: string
  col_account_id :: "string option"
  col_address :: string
  col_asset_id :: string
  col_network :: string
  col_address_scheme :: "string option"
  col_derivation_change :: "int option"
  col_derivation_index :: "int option"
  col_last_completed_at :: "string option"
  col_last_result :: "string option"
  col_last_tip_height :: "int option"
  col_etherscan_transaction_tip_height :: "int option"
  col_mempool_backfill_cursor_txid :: "string option"
  col_mempool_expected_tx_count :: "int option"
  col_mempool_history_complete_tx_count :: "int option"
  col_mempool_history_complete_height :: "int option"
  col_mempool_history_scan_start_run_id :: "string option"
  col_etherscan_backfill_end_block :: "int option"
  col_etherscan_history_checkpoint_version :: "int option"
  col_has_api_confirmed_balance :: bool
  col_consecutive_failure_count :: int

definition address_scheme_from_str :: "string \<Rightarrow> AddressScheme option" where
  "address_scheme_from_str v =
     (if v = ''legacy'' then Some Legacy else if v = ''nested_segwit'' then Some NestedSegwit
      else if v = ''native_segwit'' then Some NativeSegwit else if v = ''taproot'' then Some Taproot
      else if v = ''standard'' then Some Standard else None)"

fun address_scheme_as_str :: "AddressScheme \<Rightarrow> string" where
  "address_scheme_as_str Legacy = ''legacy''"
| "address_scheme_as_str NestedSegwit = ''nested_segwit''"
| "address_scheme_as_str NativeSegwit = ''native_segwit''"
| "address_scheme_as_str Taproot = ''taproot''"
| "address_scheme_as_str Standard = ''standard''"

definition res_option :: "('a \<Rightarrow> 'e + 'b) \<Rightarrow> 'a option \<Rightarrow> 'e + 'b option" where
  "res_option f raw = (case raw of None \<Rightarrow> Inr None | Some r \<Rightarrow> res_map Some (f r))"

lemma res_option_Inr [simp]:
  "res_option f raw = Inr v \<longleftrightarrow> (case raw of None \<Rightarrow> v = None | Some r \<Rightarrow> \<exists>x. f r = Inr x \<and> v = Some x)"
  by (auto simp: res_option_def split: option.splits)

definition parse_address_scheme :: "string \<Rightarrow> DbError + AddressScheme" where
  "parse_address_scheme v = ok_or (DbError (''Invalid address scheme in DB: '' @ v)) (address_scheme_from_str v)"

definition parse_required_u32 :: "string \<Rightarrow> int \<Rightarrow> DbError + u32" where
  "parse_required_u32 field v =
     (if v < 0 then Inl (DbError (field @ '' cannot be negative''))
      else if v < 2 ^ 32 then Inr (word_of_int v)
      else Inl (DbError (field @ '' out of u32 range'')))"

definition parse_optional_u32 :: "string \<Rightarrow> int option \<Rightarrow> DbError + u32 option" where
  "parse_optional_u32 field v = res_option (parse_required_u32 field) v"

definition parse_optional_tip_height :: "int option \<Rightarrow> DbError + int option" where
  "parse_optional_tip_height v =
     map_err (\<lambda>err. DbError (''Invalid last_tip_height in DB: '' @ height_error_display err)) (res_option chain_tip_height_try_new v)"

definition parse_optional_transaction_count :: "string \<Rightarrow> int option \<Rightarrow> DbError + TransactionCount option" where
  "parse_optional_transaction_count field v = res_option (parse_transaction_count field) v"

definition parse_optional_mempool_history_proof :: "int option \<Rightarrow> int option \<Rightarrow> DbError + MempoolHistoryProof option" where
  "parse_optional_mempool_history_proof proof_count complete =
     (case (proof_count, complete) of
        (None, None) \<Rightarrow> Inr None
      | (Some n, Some h) \<Rightarrow>
          res_bind (parse_transaction_count ''mempool_history_complete_tx_count'' n) (\<lambda>tx_count.
          res_bind (map_err (\<lambda>err. DbError (''Invalid mempool_history_complete_height in DB: '' @ height_error_display err))
            (chain_tip_height_try_new h)) (\<lambda>height.
          Inr (Some \<lparr>proof_confirmed_tx_count = tx_count, proof_complete_height = height\<rparr>)))
      | _ \<Rightarrow> Inl (DbError ''Invalid unpaired mempool history proof in DB''))"

definition parse_optional_sync_run_id :: "Env \<Rightarrow> string \<Rightarrow> string option \<Rightarrow> DbError + ulid option" where
  "parse_optional_sync_run_id env field raw =
     map_err (\<lambda>err. DbError (''Invalid '' @ field @ '' in DB: '' @ err)) (res_option (env_parse_ulid env) raw)"

definition parse_optional_sync_result :: "string option \<Rightarrow> DbError + TransactionSyncResult option" where
  "parse_optional_sync_result v =
     res_option (\<lambda>raw. ok_or (DbError (''Invalid sync result in DB: '' @ raw)) (sync_result_from_db_value raw)) v"

definition parse_etherscan_history_checkpoint_verified :: "int option \<Rightarrow> DbError + bool" where
  "parse_etherscan_history_checkpoint_verified v =
     (case v of
        None \<Rightarrow> Inr False
      | Some raw \<Rightarrow> if raw = 1 then Inr True
          else Inl (DbError (''Invalid etherscan history checkpoint version in DB: '' @ int_to_string raw)))"

fun tx_hash_error_display :: "TxHashError \<Rightarrow> string" where
  "tx_hash_error_display (WrongLength n) = ''tx hash must be 64 hex chars, got length '' @ nat_to_string n"
| "tx_hash_error_display InvalidCharacters = ''tx hash contains non-hex characters''"

definition parse_optional_mempool_cursor_txid :: "string option \<Rightarrow> DbError + TxHash option" where
  "parse_optional_mempool_cursor_txid raw =
     map_err (\<lambda>err. DbError (''Invalid mempool_backfill_cursor_txid in DB: '' @ tx_hash_error_display err))
       (res_option tx_hash_parse raw)"

definition ethereum_block_number_try_new :: "int \<Rightarrow> EthereumBlockNumberError + int" where
  "ethereum_block_number_try_new v = (if v < 0 then Inl (BlockNegative v) else Inr v)"

fun block_error_display :: "EthereumBlockNumberError \<Rightarrow> string" where
  "block_error_display (BlockNegative v) = ''ethereum block number must be non-negative, got '' @ int_to_string v"
| "block_error_display (BlockOutOfRange v) = ''ethereum block number exceeds supported range: '' @ nat_to_string (unat v)"

definition parse_optional_ethereum_block_number :: "int option \<Rightarrow> DbError + int option" where
  "parse_optional_ethereum_block_number raw =
     map_err (\<lambda>err. DbError (''Invalid etherscan_backfill_end_block in DB: '' @ block_error_display err))
       (res_option ethereum_block_number_try_new raw)"

definition parse_tracked_address :: "string \<Rightarrow> DbError + TrackedAddress" where
  "parse_tracked_address raw =
     map_err (\<lambda>err. DbError (''Invalid address in DB: '' @ (case err of AddressEmpty \<Rightarrow> ''address cannot be empty'')))
       (tracked_address_parse raw)"

definition failure_count_try_new :: "int \<Rightarrow> DbError + u32" where
  "failure_count_try_new v =
     (if 0 \<le> v \<and> v < 2 ^ 32 then Inr (word_of_int v)
      else Inl (DbError (''Invalid consecutive_failure_count in DB: consecutive failure count out of range: '' @ int_to_string v)))"

definition map_sync_address_row :: "Env \<Rightarrow> SyncAddressColumns \<Rightarrow> DbError + SyncAddress" where
  "map_sync_address_row env col =
     res_bind (res_option parse_address_scheme (col_address_scheme col)) (\<lambda>address_scheme.
     res_bind (res_option (parse_account_id env) (col_account_id col)) (\<lambda>account_id.
     res_bind (parse_optional_datetime_field (env_parse_datetime env) ''last_completed_at'' (col_last_completed_at col)) (\<lambda>last_completed_at.
     res_bind (parse_optional_sync_result (col_last_result col)) (\<lambda>last_result.
     res_bind (parse_address_id env (col_id col)) (\<lambda>address_id.
     res_bind (parse_tracked_address (col_address col)) (\<lambda>address.
     res_bind (parse_asset_id (col_asset_id col)) (\<lambda>asset_id.
     res_bind (parse_network (col_network col)) (\<lambda>network.
     res_bind (parse_optional_u32 ''derivation_change'' (col_derivation_change col)) (\<lambda>derivation_change.
     res_bind (parse_optional_u32 ''derivation_index'' (col_derivation_index col)) (\<lambda>derivation_index.
     res_bind (parse_optional_tip_height (col_last_tip_height col)) (\<lambda>last_tip_height.
     res_bind (parse_optional_tip_height (col_etherscan_transaction_tip_height col)) (\<lambda>transaction_tip.
     res_bind (parse_optional_mempool_cursor_txid (col_mempool_backfill_cursor_txid col)) (\<lambda>cursor_txid.
     res_bind (parse_optional_transaction_count ''mempool_expected_tx_count'' (col_mempool_expected_tx_count col)) (\<lambda>expected.
     res_bind (parse_optional_mempool_history_proof (col_mempool_history_complete_tx_count col)
       (col_mempool_history_complete_height col)) (\<lambda>history_proof.
     res_bind (parse_optional_sync_run_id env ''mempool_history_scan_start_run_id'' (col_mempool_history_scan_start_run_id col)) (\<lambda>start_run.
     res_bind (parse_optional_ethereum_block_number (col_etherscan_backfill_end_block col)) (\<lambda>end_block.
     res_bind (parse_etherscan_history_checkpoint_verified (col_etherscan_history_checkpoint_version col)) (\<lambda>verified.
     res_bind (failure_count_try_new (col_consecutive_failure_count col)) (\<lambda>failures.
     Inr \<lparr>sa_address_id = address_id, sa_address = address, sa_asset_id = asset_id, sa_network = network,
          sa_account_id = account_id, sa_derivation_change = derivation_change, sa_derivation_index = derivation_index,
          sa_address_scheme = address_scheme, sa_last_completed_at = last_completed_at, sa_last_result = last_result,
          sa_last_tip_height = last_tip_height, sa_etherscan_transaction_tip_height = transaction_tip,
          sa_mempool_backfill_cursor_txid = cursor_txid, sa_mempool_expected_tx_count = expected,
          sa_mempool_history_proof = history_proof, sa_mempool_history_scan_start_run_id = start_run,
          sa_etherscan_backfill_end_block = end_block, sa_etherscan_history_checkpoint_verified = verified,
          sa_has_api_confirmed_balance = col_has_api_confirmed_balance col,
          sa_consecutive_failure_count = failures\<rparr>)))))))))))))))))))"

subsection \<open>Failures in a row\<close>

definition stored_failures :: "UserDb \<Rightarrow> ulid \<Rightarrow> int" where
  "stored_failures db a =
     (case List.find (is_address_row a) (transaction_sync_state db) of None \<Rightarrow> 0 | Some r \<Rightarrow> tss_consecutive_failure_count r)"

lemma find_map_same:
  "(\<And>r. P (g r) = P r) \<Longrightarrow> List.find P (map g rs) = map_option g (List.find P rs)"
  by (induction rs) auto

lemma find_append: "List.find P (xs @ ys) = (case List.find P xs of None \<Rightarrow> List.find P ys | Some x \<Rightarrow> Some x)"
  by (induction xs) auto

lemma find_updated:
  assumes "\<And>r. tss_address_id (f r) = tss_address_id r" and "\<And>r. tss_scope (f r) = tss_scope r"
  shows "List.find (is_address_row b) (transaction_sync_state (fst (update_address_row db a f))) =
    map_option (\<lambda>r. if a = b then f r else r) (List.find (is_address_row b) (transaction_sync_state db))"
proof -
  let ?g = "\<lambda>r. if is_address_row a r then f r else r"
  have same: "is_address_row b (?g r) = is_address_row b r" for r using assms by (simp add: is_address_row_def)
  have "map_option ?g (List.find (is_address_row b) rs) = map_option (\<lambda>r. if a = b then f r else r) (List.find (is_address_row b) rs)" for rs
    by (induction rs) (auto simp: is_address_row_def)
  with same show ?thesis by (simp add: update_address_row_def update_sync_state_def find_map_same)
qed

lemma changed_rows: "snd (update_address_row db a f) = 0 \<longleftrightarrow> List.find (is_address_row a) (transaction_sync_state db) = None"
  by (auto simp: update_address_row_def update_sync_state_def find_None_iff filter_empty_conv)

lemma failures_updated:
  assumes "\<And>r. tss_address_id (f r) = tss_address_id r" and "\<And>r. tss_scope (f r) = tss_scope r"
  shows "stored_failures (fst (update_address_row db a f)) b =
    (case List.find (is_address_row b) (transaction_sync_state db) of
       None \<Rightarrow> 0 | Some r \<Rightarrow> tss_consecutive_failure_count (if a = b then f r else r))"
  by (simp add: stored_failures_def find_updated [OF assms] split: option.splits)

lemma failures_inserted:
  assumes "insert_sync_row prefix db r = Inr db'" and "tss_scope r = ADDRESS_SYNC_SCOPE"
    and "List.find (is_address_row (tss_address_id r)) (transaction_sync_state db) = None"
  shows "stored_failures db' b = (if b = tss_address_id r then tss_consecutive_failure_count r else stored_failures db b)"
proof -
  have db': "db' = db\<lparr>transaction_sync_state := transaction_sync_state db @ [r]\<rparr>"
    using assms(1) by (auto simp: insert_sync_row_def split: if_splits)
  show ?thesis using assms(2,3) by (auto simp: stored_failures_def db' find_append is_address_row_def split: option.splits)
qed

lemma failures_completion_inserted:
  assumes "insert_address_sync_completion env c db = Inr db'"
    and "List.find (is_address_row (sc_address_id c)) (transaction_sync_state db) = None"
  shows "stored_failures db' b = (if b = sc_address_id c then 0 else stored_failures db b)"
proof -
  from assms(1) obtain r where "insert_sync_row ''Failed to insert sync completion: '' db r = Inr db'"
    "tss_scope r = ADDRESS_SYNC_SCOPE" "tss_address_id r = sc_address_id c" "tss_consecutive_failure_count r = 0"
    by (auto simp: insert_address_sync_completion_def Let_def new_sync_row_def)
  with failures_inserted [of _ db r db' b] assms(2) show ?thesis by simp
qed

lemma failures_started:
  assumes "mark_address_sync_started env a run t db = Inr db'"
  shows "stored_failures db' b = stored_failures db b"
proof (cases "List.find (is_address_row a) (transaction_sync_state db)")
  case None
  then have "\<not> list_ex (is_address_row a) (transaction_sync_state db)" by (auto simp: find_None_iff list_ex_iff)
  with assms have ins: "insert_sync_row ''Failed to mark sync start: '' db
      (new_sync_row a run (env_to_rfc3339 env t) (env_to_rfc3339 env t)) = Inr db'"
    by (simp add: mark_address_sync_started_def Let_def)
  show ?thesis using failures_inserted [OF ins, of b] None by (auto simp: new_sync_row_def stored_failures_def)
next
  case (Some r)
  then have "list_ex (is_address_row a) (transaction_sync_state db)" by (auto simp: find_Some_iff list_ex_iff)
  with assms have db': "db' = fst (update_address_row db a (started_row run (env_to_rfc3339 env t)))"
    by (simp add: mark_address_sync_started_def Let_def)
  show ?thesis unfolding db' failures_updated [OF started_row_key]
    by (simp add: stored_failures_def started_row_def split: option.splits)
qed

lemma failures_succeeded:
  assumes "mark_address_sync_completed_success env success db = Inr db'"
  shows "stored_failures db' b = (if b = ss_address_id success then 0 else stored_failures db b)"
proof -
  let ?a = "ss_address_id success"
  let ?u = "\<lambda>p. update_address_row db ?a (success_row env success (fst p) (snd p))"
  from assms [unfolded mark_address_sync_completed_success_def case_prod_beta] obtain p where
    split: "(if snd (?u p) = 0 then insert_address_sync_completion env (completion_from_success success) (fst (?u p))
      else Inr (fst (?u p))) = Inr db'"
    unfolding res_bind_Inr_iff by blast
  let ?up = "fst (?u p)"
  have up: "stored_failures ?up b = (if b = ?a then 0 else stored_failures db b)"
    unfolding failures_updated [OF row_key_kept(1) row_key_kept(3)]
    by (auto simp: stored_failures_def success_row_def Let_def split: option.splits)
  have find: "List.find (is_address_row ?a) (transaction_sync_state ?up) = None"
    if "snd (?u p) = 0"
    using that by (simp add: changed_rows find_updated)
  show ?thesis
    using split up find failures_completion_inserted [of env "completion_from_success success" ?up db' b]
    by (auto simp: completion_from_success_def split: if_splits)
qed

lemma failures_failed:
  assumes "mark_address_sync_completed_failure env a run s t msg counts db = Inr db'"
  shows "stored_failures db' b = stored_failures db b + (if b = a \<and> counts then 1 else 0)"
proof -
  let ?u = "update_address_row db a (failure_row env run s t msg counts)"
  have up: "stored_failures (fst ?u) b = (case List.find (is_address_row b) (transaction_sync_state db) of
      None \<Rightarrow> 0 | Some r \<Rightarrow> tss_consecutive_failure_count r + (if b = a \<and> counts then 1 else 0))"
    unfolding failures_updated [OF row_key_kept(2) row_key_kept(4)] by (auto simp: failure_row_def split: option.splits)
  show ?thesis
  proof (cases "List.find (is_address_row a) (transaction_sync_state db)")
    case (Some r)
    then have "snd ?u \<noteq> 0" by (simp add: changed_rows)
    with assms have "db' = fst ?u" by (auto simp: mark_address_sync_completed_failure_def case_prod_beta split: if_splits)
    with up Some show ?thesis by (auto simp: stored_failures_def split: option.splits)
  next
    case None
    then have "snd ?u = 0" by (simp add: changed_rows)
    with assms obtain db2 where ins: "insert_address_sync_completion env (completion_from_failure a run s t msg) (fst ?u) = Inr db2"
      and db': "db' = fst (update_address_row db2 a (\<lambda>r. r\<lparr>tss_consecutive_failure_count := (if counts then 1 else 0)\<rparr>))"
      by (auto simp: mark_address_sync_completed_failure_def case_prod_beta split: if_splits)
    have found: "List.find (is_address_row a) (transaction_sync_state (fst ?u)) = None" using None by (simp add: find_updated)
    from ins obtain r where "insert_sync_row ''Failed to insert sync completion: '' (fst ?u) r = Inr db2" "is_address_row a r"
      by (auto simp: insert_address_sync_completion_def Let_def new_sync_row_def completion_from_failure_def is_address_row_def)
    then have row: "List.find (is_address_row a) (transaction_sync_state db2) \<noteq> None"
      by (auto simp: insert_sync_row_def find_append split: option.splits if_splits)
    have "stored_failures db2 b = (if b = a then 0 else stored_failures (fst ?u) b)"
      using failures_completion_inserted [OF ins] found by (simp add: completion_from_failure_def)
    moreover have "stored_failures db' b = (if b = a then (if counts then 1 else 0) else stored_failures db2 b)"
      unfolding db' using row by (subst failures_updated) (auto simp: stored_failures_def split: option.splits)
    moreover have "stored_failures db a = 0" using None by (simp add: stored_failures_def)
    moreover have "b \<noteq> a \<Longrightarrow> stored_failures (fst ?u) b = stored_failures db b"
      using up by (simp add: stored_failures_def split: option.splits)
    ultimately show ?thesis by simp
  qed
qed

text \<open>
  C16. Failures in a row. Starting a sync keeps an address's count of failures, a success resets it and a failure adds one
  exactly when the error is the address's own. So an address that has failed twice, however often it was restarted, is
  blocked for the planner when it is loaded again, unless its account is being repaired; after a success it is not.
\<close>

theorem repeated_failures_block:
  assumes "mark_address_sync_completed_failure env a run1 s1 t1 msg1 True db0 = Inr db1" and "0 \<le> stored_failures db0 a"
    and "mark_address_sync_started env a run2 s2 db1 = Inr db2"
    and "mark_address_sync_completed_failure env a run2 s2 t2 msg2 counts db2 = Inr db3"
    and "map_sync_address_row env columns = Inr address" and "col_consecutive_failure_count columns = stored_failures db3 a"
    and "sa_account_id address = Some acct" and "acct \<notin> pi_bitcoin_history_repair_account_ids input"
    and "sa_address_id address \<notin> pi_run_excluded_address_ids input"
  shows "stored_failures db3 a = stored_failures db0 a + (if counts then 2 else 1) \<and>
    address_is_blocked_for_planner address input = (stored_failures db3 a \<ge> 2) \<and>
    (mark_address_sync_completed_success env success db3 = Inr db4 \<longrightarrow> ss_address_id success = a \<longrightarrow> stored_failures db4 a = 0)"
proof -
  have n: "stored_failures db3 a = stored_failures db0 a + (if counts then 2 else 1)"
    using failures_failed [OF assms(1), of a] failures_started [OF assms(3), of a] failures_failed [OF assms(4), of a] by simp
  from assms(5) have "failure_count_try_new (col_consecutive_failure_count columns) = Inr (sa_consecutive_failure_count address)"
    by (auto simp: map_sync_address_row_def)
  then have "sa_consecutive_failure_count address = word_of_int (stored_failures db3 a)" "0 \<le> stored_failures db3 a"
    "stored_failures db3 a < 2 ^ 32"
    unfolding assms(6) by (auto simp: failure_count_try_new_def split: if_splits)
  then have "uint (sa_consecutive_failure_count address) = stored_failures db3 a"
    by (simp add: uint_word_of_int_eq take_bit_int_eq_self)
  then have "sa_consecutive_failure_count address \<ge> 2 \<longleftrightarrow> stored_failures db3 a \<ge> 2"
    by (auto simp: word_le_def)
  then show ?thesis
    using n assms(7-9) failures_succeeded [of env success db3 db4 a]
    by (auto simp: address_is_blocked_for_planner_def address_state run_blocked_def repair_owned_def)
qed

subsection \<open>Witnesses\<close>

definition sync_sample_db :: UserDb where
  "sync_sample_db = sample_proved_db\<lparr>transaction_sync_state := [],
     digital_asset_addresses := [\<lparr>da_id = ''d1'', da_account_id = Some ''acc'', da_address = ''bc1''\<rparr>]\<rparr>"

definition sync_failed_db :: "int \<Rightarrow> UserDb" where
  "sync_failed_db n = sync_sample_db\<lparr>transaction_sync_state :=
     [(new_sync_row ''d1'' ''r'' ''t'' ''t'')\<lparr>tss_last_completed_at := Some ''t'', tss_last_result := ''failure'',
       tss_last_error := Some ''e'', tss_consecutive_failure_count := n\<rparr>]\<rparr>"

definition sync_started_db :: "int \<Rightarrow> UserDb" where
  "sync_started_db n = sync_sample_db\<lparr>transaction_sync_state :=
     [(new_sync_row ''d1'' ''r'' ''t'' ''t'')\<lparr>tss_last_result := ''failure'', tss_consecutive_failure_count := n\<rparr>]\<rparr>"

lemmas sync_sample_simps = sync_failed_db_def sync_started_db_def sync_sample_db_def new_sync_row_def sample_env_def sample_proved_db_def
  mark_address_sync_completed_failure_def mark_address_sync_started_def started_row_def failure_row_def
  update_address_row_def update_sync_state_def is_address_row_def ADDRESS_SYNC_SCOPE_def insert_address_sync_completion_def
  insert_sync_row_def completion_from_failure_def split_optional_balance_def Let_def

lemma sample_started: "mark_address_sync_started sample_env ''d1'' ''r'' 0 sync_sample_db =
    Inr (sync_sample_db\<lparr>transaction_sync_state := [new_sync_row ''d1'' ''r'' ''t'' ''t'']\<rparr>)"
  by (simp add: sync_sample_simps)

lemma sample_failed_first: "mark_address_sync_completed_failure sample_env ''d1'' ''r'' 0 0 ''e'' True sync_sample_db = Inr (sync_failed_db 1)"
  by (simp add: sync_sample_simps)

lemma sample_restarted: "mark_address_sync_started sample_env ''d1'' ''r'' 0 (sync_failed_db 1) = Inr (sync_started_db 1)"
  by (simp add: sync_sample_simps)

lemma sample_failed_again:
  "mark_address_sync_completed_failure sample_env ''d1'' ''r'' 0 0 ''e'' True (sync_started_db 1) = Inr (sync_failed_db 2)"
  by (simp add: sync_sample_simps)

definition sync_continuous_db :: UserDb where
  "sync_continuous_db = sync_sample_db\<lparr>transaction_sync_state := [(new_sync_row ''d1'' ''r'' ''t'' ''t'')\<lparr>
     tss_etherscan_history_status := Some ''continuous'', tss_etherscan_checkpoint_version := Some 1\<rparr>]\<rparr>"

lemma sample_continuous: "update_address_etherscan_history_status sample_env ''d1'' Continuous 0
    (sync_sample_db\<lparr>transaction_sync_state := [new_sync_row ''d1'' ''r'' ''t'' ''t'']\<rparr>) = Inr sync_continuous_db"
  by (simp add: sync_sample_simps update_address_etherscan_history_status_def require_row_def sync_continuous_db_def)

theorem sync_state_rows_valid_witness:
  "distinct (map tss_address_id (transaction_sync_state sync_continuous_db)) \<and>
   (\<exists>r \<in> set (transaction_sync_state sync_continuous_db).
      tss_etherscan_checkpoint_version r = Some 1 \<and> tss_etherscan_history_status r \<in> {None, Some ''continuous''})"
proof -
  have "sync_table_empty sync_sample_db" by (simp add: sync_table_empty_def sync_sample_db_def)
  moreover have "(sync_state_step sample_env)\<^sup>*\<^sup>* sync_sample_db sync_continuous_db"
    using sync_state_step.started [OF sample_started] sync_state_step.etherscan_status_set [OF sample_continuous]
    by (blast intro: rtranclp.rtrancl_into_rtrancl)
  ultimately show ?thesis
    using sync_state_rows_valid [of sync_sample_db sample_env sync_continuous_db]
    by (simp add: sync_continuous_db_def)
qed

definition sample_columns :: SyncAddressColumns where
  "sample_columns =
     \<lparr>col_id = ''d1'', col_account_id = Some ''acc'', col_address = ''h1'', col_asset_id = ''bitcoin'', col_network = ''mainnet'',
      col_address_scheme = None, col_derivation_change = None, col_derivation_index = None, col_last_completed_at = None,
      col_last_result = Some ''failure'', col_last_tip_height = None, col_etherscan_transaction_tip_height = None,
      col_mempool_backfill_cursor_txid = None, col_mempool_expected_tx_count = None,
      col_mempool_history_complete_tx_count = None, col_mempool_history_complete_height = None,
      col_mempool_history_scan_start_run_id = None, col_etherscan_backfill_end_block = None,
      col_etherscan_history_checkpoint_version = None, col_has_api_confirmed_balance = False, col_consecutive_failure_count = 2\<rparr>"

lemma sample_columns_load: "\<exists>address. map_sync_address_row sample_env sample_columns = Inr address \<and>
    sa_account_id address = Some ''acc'' \<and> sa_address_id address = ''d1''"
  using str_trim_h1
  by (simp add: map_sync_address_row_def sample_columns_def sample_env_def parse_account_id_def parse_address_id_def
      parse_optional_datetime_field_def parse_optional_sync_result_def parse_tracked_address_def tracked_address_parse_def
      parse_asset_id_def asset_from_str_def parse_network_def network_from_str_def parse_optional_u32_def parse_optional_tip_height_def
      parse_optional_mempool_cursor_txid_def parse_optional_transaction_count_def parse_optional_mempool_history_proof_def
      parse_optional_sync_run_id_def parse_optional_ethereum_block_number_def parse_etherscan_history_checkpoint_verified_def
      failure_count_try_new_def Let_def)

theorem repeated_failures_block_witness:
  "\<exists>address. map_sync_address_row sample_env sample_columns = Inr address \<and> address_is_blocked_for_planner address sample_input"
proof -
  obtain address where a: "map_sync_address_row sample_env sample_columns = Inr address"
    "sa_account_id address = Some ''acc''" "sa_address_id address = ''d1''" using sample_columns_load by blast
  have n: "0 \<le> stored_failures sync_sample_db ''d1''" "col_consecutive_failure_count sample_columns = stored_failures (sync_failed_db 2) ''d1''"
    by (simp_all add: stored_failures_def sync_sample_simps sample_columns_def)
  from repeated_failures_block [OF sample_failed_first n(1) sample_restarted sample_failed_again a(1) n(2) a(2), of sample_input] a n
  show ?thesis by (simp add: sample_input_def sample_columns_def)
qed

end
