(* ===== verification/Sync_Gate.thy ===== *)
theory Sync_Gate
  imports Sync_State
begin

section \<open>Syncing one address\<close>

text \<open>
  One attempt to sync an address, \<open>sync_single_address_with_controls\<close> of \<open>src/src/tasks/jobs/sync/gate.rs\<close>, with the errors of
  \<open>error.rs\<close>, the accumulator of a cycle of \<open>cycle.rs\<close> and the cache of chain tips of \<open>chain_tip.rs\<close>. The state is explicit:
  the user's database, the rate limiter, the caches, the accumulator, the address and the world outside. The clock, the
  request for the chain tip and the executor of one iteration (which talks to the provider and writes what it received) act
  on the world; they are arguments and may do anything to the state they are given. A panic is the value \<^term>\<open>None\<close>: the only
  one is the truncation of an error message (\<open>Domain\<close>). What is logged is not modelled.
\<close>

subsection \<open>Errors of a sync\<close>

datatype UserTransactionMonitorError =
    Db DbError
  | InvalidConfiguredBaseUrl string
  | InvalidDefaultBaseUrl string
  | MissingEtherscanApiKey
  | UnsupportedEthereumNetwork Network
  | Http string
  | UpstreamStatus string "16 word" string
  | RateLimited string "int option" string
  | EtherscanError string
  | Parse string
  | Deserialize string string
  | CoverageInvalidation UserTransactionMonitorError CoverageInvalidationTargets

definition MISSING_ETHERSCAN_API_KEY_ERROR :: string where
  "MISSING_ETHERSCAN_API_KEY_ERROR = ''Ethereum sync requires an Etherscan API key in user settings''"

fun monitor_error_display :: "UserTransactionMonitorError \<Rightarrow> string" where
  "monitor_error_display (Db (DbError message)) = message"
| "monitor_error_display (InvalidConfiguredBaseUrl err) = ''Configured sync provider base URL is invalid: '' @ err"
| "monitor_error_display (InvalidDefaultBaseUrl err) = ''Default sync provider base URL is invalid: '' @ err"
| "monitor_error_display MissingEtherscanApiKey = MISSING_ETHERSCAN_API_KEY_ERROR"
| "monitor_error_display (UnsupportedEthereumNetwork network) = ''Ethereum sync does not support network: '' @ network_as_str network"
| "monitor_error_display (Http err) = ''Sync HTTP request failed: '' @ err"
| "monitor_error_display (UpstreamStatus url status body_snippet) =
     ''Sync provider returned status '' @ nat_to_string (unat status) @ '' for '' @ url @ '' (body snippet: '' @ body_snippet @ '')''"
| "monitor_error_display (RateLimited integration retry_after message) =
     ''Rate limit reached for integration '' @ integration @ '': '' @ message"
| "monitor_error_display (EtherscanError err) = err"
| "monitor_error_display (Parse err) = ''Failed to parse sync payload: '' @ err"
| "monitor_error_display (Deserialize url err) = ''Failed to deserialize sync provider response from '' @ url @ '': '' @ err"
| "monitor_error_display (CoverageInvalidation err targets) = monitor_error_display err"

fun counts_as_address_failure :: "UserTransactionMonitorError \<Rightarrow> bool" where
  "counts_as_address_failure (Db err) = False"
| "counts_as_address_failure (InvalidConfiguredBaseUrl err) = False"
| "counts_as_address_failure (InvalidDefaultBaseUrl err) = False"
| "counts_as_address_failure MissingEtherscanApiKey = False"
| "counts_as_address_failure (UnsupportedEthereumNetwork network) = False"
| "counts_as_address_failure (RateLimited integration retry_after message) = False"
| "counts_as_address_failure (Http err) = True"
| "counts_as_address_failure (UpstreamStatus url status body_snippet) = True"
| "counts_as_address_failure (EtherscanError err) = True"
| "counts_as_address_failure (Parse err) = True"
| "counts_as_address_failure (Deserialize url err) = True"
| "counts_as_address_failure (CoverageInvalidation err targets) = counts_as_address_failure err"

fun with_coverage_invalidation ::
  "UserTransactionMonitorError \<Rightarrow> CoverageInvalidationTargets \<Rightarrow> UserTransactionMonitorError" where
  "with_coverage_invalidation (CoverageInvalidation err existing) targets =
     (if target_address_ids targets = {} \<and> target_account_ids targets = {} then CoverageInvalidation err existing
      else CoverageInvalidation err (union_with existing targets))"
| "with_coverage_invalidation err targets =
     (if target_address_ids targets = {} \<and> target_account_ids targets = {} then err else CoverageInvalidation err targets)"

fun coverage_invalidation :: "UserTransactionMonitorError \<Rightarrow> CoverageInvalidationTargets option" where
  "coverage_invalidation (CoverageInvalidation err targets) = Some targets"
| "coverage_invalidation _ = None"

record SyncIterationResult =
  ir_new_tx_count :: TransactionCount
  ir_updated_tx_count :: TransactionCount
  ir_coverage_invalidation :: CoverageInvalidationTargets
  ir_tip_height :: int
  ir_completed_at :: time
  ir_has_more_work :: bool
  ir_early_exited :: bool
  ir_observed_activity :: bool
  ir_ledger_rebuild_required :: bool
  ir_raw_run_summary_json :: "string option"
  ir_api_confirmed_balance :: "UnsignedAmount option"

definition preserve_iteration_error :: "UserTransactionMonitorError \<Rightarrow> SyncIterationResult \<Rightarrow> UserTransactionMonitorError" where
  "preserve_iteration_error err iteration = with_coverage_invalidation err (ir_coverage_invalidation iteration)"

subsection \<open>The accumulator of a cycle\<close>

datatype SyncSkipReason = SkipBalanceFresh | SkipCooldown | SkipRateLimited | SkipTipUnchanged | SkipBlocked

record SyncSkipCounts =
  skip_balance_fresh :: u32
  skip_cooldown :: u32
  skip_rate_limited :: u32
  skip_tip_unchanged :: u32
  skip_blocked :: u32

fun skip_counts_add :: "SyncSkipReason \<Rightarrow> SyncSkipCounts \<Rightarrow> SyncSkipCounts" where
  "skip_counts_add SkipBalanceFresh c = c\<lparr>skip_balance_fresh := saturating_add_u (skip_balance_fresh c) 1\<rparr>"
| "skip_counts_add SkipCooldown c = c\<lparr>skip_cooldown := saturating_add_u (skip_cooldown c) 1\<rparr>"
| "skip_counts_add SkipRateLimited c = c\<lparr>skip_rate_limited := saturating_add_u (skip_rate_limited c) 1\<rparr>"
| "skip_counts_add SkipTipUnchanged c = c\<lparr>skip_tip_unchanged := saturating_add_u (skip_tip_unchanged c) 1\<rparr>"
| "skip_counts_add SkipBlocked c = c\<lparr>skip_blocked := saturating_add_u (skip_blocked c) 1\<rparr>"

definition skip_counts_merge :: "SyncSkipCounts \<Rightarrow> SyncSkipCounts \<Rightarrow> SyncSkipCounts" where
  "skip_counts_merge c other =
     \<lparr>skip_balance_fresh = saturating_add_u (skip_balance_fresh c) (skip_balance_fresh other),
      skip_cooldown = saturating_add_u (skip_cooldown c) (skip_cooldown other),
      skip_rate_limited = saturating_add_u (skip_rate_limited c) (skip_rate_limited other),
      skip_tip_unchanged = saturating_add_u (skip_tip_unchanged c) (skip_tip_unchanged other),
      skip_blocked = saturating_add_u (skip_blocked c) (skip_blocked other)\<rparr>"

record CycleAccumulator =
  acc_new_tx_count :: TransactionCount
  acc_updated_tx_count :: TransactionCount
  acc_addresses_total :: u32
  acc_addresses_synced :: u32
  acc_addresses_failed :: u32
  acc_addresses_skipped :: u32
  acc_skipped_by_reason :: SyncSkipCounts
  acc_addresses_early_exited :: u32
  acc_rate_limited :: "string set"
  acc_touched_accounts :: "ulid set"
  acc_coverage_invalidated_accounts :: "ulid set"
  acc_failure_error :: "string option"
  acc_bitcoin_history_repair_failure_error :: "string option"
  acc_is_first_attempt :: bool

definition accumulator_new :: "u32 \<Rightarrow> CycleAccumulator" where
  "accumulator_new addresses =
     \<lparr>acc_new_tx_count = 0, acc_updated_tx_count = 0, acc_addresses_total = addresses, acc_addresses_synced = 0,
      acc_addresses_failed = 0, acc_addresses_skipped = 0,
      acc_skipped_by_reason = \<lparr>skip_balance_fresh = 0, skip_cooldown = 0, skip_rate_limited = 0, skip_tip_unchanged = 0, skip_blocked = 0\<rparr>,
      acc_addresses_early_exited = 0, acc_rate_limited = {}, acc_touched_accounts = {}, acc_coverage_invalidated_accounts = {},
      acc_failure_error = None, acc_bitcoin_history_repair_failure_error = None, acc_is_first_attempt = True\<rparr>"

definition add_synced :: "SyncIterationResult \<Rightarrow> CycleAccumulator \<Rightarrow> CycleAccumulator" where
  "add_synced summary acc =
     acc\<lparr>acc_new_tx_count := saturating_add_u (acc_new_tx_count acc) (ir_new_tx_count summary),
         acc_updated_tx_count := saturating_add_u (acc_updated_tx_count acc) (ir_updated_tx_count summary),
         acc_touched_accounts := acc_touched_accounts acc \<union> target_account_ids (ir_coverage_invalidation summary),
         acc_coverage_invalidated_accounts :=
           acc_coverage_invalidated_accounts acc \<union> target_account_ids (ir_coverage_invalidation summary),
         acc_addresses_synced := saturating_add_u (acc_addresses_synced acc) 1\<rparr>"

text \<open>The error message is sanitized, which may panic.\<close>

definition add_failed :: "UserTransactionMonitorError \<Rightarrow> bool \<Rightarrow> CycleAccumulator \<Rightarrow> CycleAccumulator option" where
  "add_failed err bitcoin_history_repair_owned acc =
     map_option (\<lambda>message.
       let acc1 = acc\<lparr>acc_addresses_failed := saturating_add_u (acc_addresses_failed acc) 1\<rparr>;
           acc2 = (if acc_failure_error acc1 = None then acc1\<lparr>acc_failure_error := Some message\<rparr> else acc1)
       in if bitcoin_history_repair_owned \<and> acc_bitcoin_history_repair_failure_error acc2 = None
          then acc2\<lparr>acc_bitcoin_history_repair_failure_error := Some message\<rparr> else acc2)
       (sync_error_sanitize (monitor_error_display err))"

definition add_skipped :: "SyncSkipReason \<Rightarrow> CycleAccumulator \<Rightarrow> CycleAccumulator" where
  "add_skipped reason acc =
     acc\<lparr>acc_addresses_skipped := saturating_add_u (acc_addresses_skipped acc) 1,
         acc_skipped_by_reason := skip_counts_add reason (acc_skipped_by_reason acc)\<rparr>"

definition add_early_exited :: "CycleAccumulator \<Rightarrow> CycleAccumulator" where
  "add_early_exited acc = acc\<lparr>acc_addresses_early_exited := saturating_add_u (acc_addresses_early_exited acc) 1\<rparr>"

definition add_total :: "nat \<Rightarrow> CycleAccumulator \<Rightarrow> CycleAccumulator" where
  "add_total n acc =
     acc\<lparr>acc_addresses_total := saturating_add_u (acc_addresses_total acc) (if n < 2 ^ 32 then of_nat n else - 1)\<rparr>"

definition add_rate_limited :: "string \<Rightarrow> CycleAccumulator \<Rightarrow> CycleAccumulator" where
  "add_rate_limited integration acc = acc\<lparr>acc_rate_limited := insert integration (acc_rate_limited acc)\<rparr>"

definition mark_account_dirty :: "ulid \<Rightarrow> CycleAccumulator \<Rightarrow> CycleAccumulator" where
  "mark_account_dirty account_id acc = acc\<lparr>acc_touched_accounts := insert account_id (acc_touched_accounts acc)\<rparr>"

definition mark_accounts_history_unavailable :: "ulid set \<Rightarrow> CycleAccumulator \<Rightarrow> CycleAccumulator" where
  "mark_accounts_history_unavailable account_ids acc =
     acc\<lparr>acc_touched_accounts := acc_touched_accounts acc \<union> account_ids,
         acc_coverage_invalidated_accounts := acc_coverage_invalidated_accounts acc \<union> account_ids\<rparr>"

definition rebuild_account_if_touched ::
  "Env \<Rightarrow> ulid \<Rightarrow> time \<Rightarrow> CycleAccumulator \<times> UserDb \<Rightarrow> (DbError + unit) \<times> CycleAccumulator \<times> UserDb" where
  "rebuild_account_if_touched env account_id observed st =
     (case st of (acc, db) \<Rightarrow>
        if account_id \<notin> acc_touched_accounts acc then (Inr (), acc, db)
        else
          let acc1 = acc\<lparr>acc_touched_accounts := acc_touched_accounts acc - {account_id}\<rparr> in
          if account_id \<in> acc_coverage_invalidated_accounts acc1
          then case rebuild_account_transaction_ledger_with_unknown_bitcoin_basis env db account_id observed of
                 (result, db') \<Rightarrow>
                   (result, acc1\<lparr>acc_coverage_invalidated_accounts := acc_coverage_invalidated_accounts acc1 - {account_id}\<rparr>, db')
          else case rebuild_account_transaction_ledger_conn env db account_id observed of
                 (result, db') \<Rightarrow> (result, acc1, db'))"

record CycleAccumulatorSnapshot =
  snap_new_tx_count :: u32
  snap_updated_tx_count :: u32
  snap_addresses_total :: u32
  snap_addresses_synced :: u32
  snap_addresses_failed :: u32
  snap_addresses_skipped :: u32

definition snapshot_from_accumulator :: "CycleAccumulator \<Rightarrow> CycleAccumulatorSnapshot" where
  "snapshot_from_accumulator acc =
     \<lparr>snap_new_tx_count = acc_new_tx_count acc, snap_updated_tx_count = acc_updated_tx_count acc,
      snap_addresses_total = acc_addresses_total acc, snap_addresses_synced = acc_addresses_synced acc,
      snap_addresses_failed = acc_addresses_failed acc, snap_addresses_skipped = acc_addresses_skipped acc\<rparr>"

definition delta_from :: "CycleAccumulatorSnapshot \<Rightarrow> CycleAccumulatorSnapshot \<Rightarrow> CycleAccumulatorSnapshot" where
  "delta_from after before =
     \<lparr>snap_new_tx_count = saturating_sub_u (snap_new_tx_count after) (snap_new_tx_count before),
      snap_updated_tx_count = saturating_sub_u (snap_updated_tx_count after) (snap_updated_tx_count before),
      snap_addresses_total = saturating_sub_u (snap_addresses_total after) (snap_addresses_total before),
      snap_addresses_synced = saturating_sub_u (snap_addresses_synced after) (snap_addresses_synced before),
      snap_addresses_failed = saturating_sub_u (snap_addresses_failed after) (snap_addresses_failed before),
      snap_addresses_skipped = saturating_sub_u (snap_addresses_skipped after) (snap_addresses_skipped before)\<rparr>"

record UserTransactionMonitorSummary =
  sum_run_id :: ulid
  sum_new_tx_count :: TransactionCount
  sum_updated_tx_count :: TransactionCount
  sum_addresses_total :: u32
  sum_addresses_synced :: u32
  sum_addresses_failed :: u32
  sum_addresses_skipped :: u32
  sum_skipped_by_reason :: SyncSkipCounts
  sum_addresses_early_exited :: u32
  sum_rate_limited :: "string list"
  sum_failure_error :: "string option"
  sum_bitcoin_history_repair_failure_error :: "string option"

text \<open>
  The counters of the HTTP client and the hint for the schedule are filled in by the caller and left out. The set of
  integrations is kept in a hash set; its elements are sorted, so the order of the set does not matter.
\<close>

definition into_summary :: "CycleAccumulator \<Rightarrow> ulid \<Rightarrow> UserTransactionMonitorSummary" where
  "into_summary acc run_id =
     \<lparr>sum_run_id = run_id, sum_new_tx_count = acc_new_tx_count acc, sum_updated_tx_count = acc_updated_tx_count acc,
      sum_addresses_total = acc_addresses_total acc, sum_addresses_synced = acc_addresses_synced acc,
      sum_addresses_failed = acc_addresses_failed acc, sum_addresses_skipped = acc_addresses_skipped acc,
      sum_skipped_by_reason = acc_skipped_by_reason acc, sum_addresses_early_exited = acc_addresses_early_exited acc,
      sum_rate_limited = sorted_list_of_set (acc_rate_limited acc), sum_failure_error = acc_failure_error acc,
      sum_bitcoin_history_repair_failure_error = acc_bitcoin_history_repair_failure_error acc\<rparr>"

subsection \<open>The chain tip\<close>

record CachedChainTip =
  ct_height :: int
  ct_fetched_at :: time

type_synonym ChainTipCache = "string \<rightharpoonup> CachedChainTip"

record ChainStateRow =
  chs_asset_id :: string
  chs_network :: string
  chs_chain_height :: int
  chs_updated_at :: string

definition chain_tip_cache_key :: "SyncedAssetId \<Rightarrow> Network \<Rightarrow> string" where
  "chain_tip_cache_key asset_id network = asset_as_str asset_id @ '':'' @ network_as_str network"

definition CHAIN_TIP_CACHE_TTL_MIN :: int where "CHAIN_TIP_CACHE_TTL_MIN = 30 * SECOND"

fun average_block_time :: "SyncedAssetId \<Rightarrow> int" where
  "average_block_time Bitcoin = 600 * SECOND"
| "average_block_time Ethereum = 12 * SECOND"

definition chain_tip_cache_ttl_for :: "SyncedAssetId \<Rightarrow> int" where
  "chain_tip_cache_ttl_for asset_id = max (average_block_time asset_id div 2) CHAIN_TIP_CACHE_TTL_MIN"

definition should_reuse_persisted_tip :: "SyncedAssetId \<Rightarrow> bool" where
  "should_reuse_persisted_tip asset_id \<longleftrightarrow> asset_id \<noteq> Bitcoin"

definition is_chain_row :: "SyncedAssetId \<Rightarrow> Network \<Rightarrow> ChainStateRow \<Rightarrow> bool" where
  "is_chain_row asset_id network r \<longleftrightarrow> chs_asset_id r = asset_as_str asset_id \<and> chs_network r = network_as_str network"

definition upsert_chain_tip_state ::
  "Env \<Rightarrow> SyncedAssetId \<Rightarrow> Network \<Rightarrow> int \<Rightarrow> time \<Rightarrow> ChainStateRow list \<Rightarrow> ChainStateRow list" where
  "upsert_chain_tip_state env asset_id network height updated_at rows =
     (if list_ex (is_chain_row asset_id network) rows
      then map (\<lambda>r. if is_chain_row asset_id network r
             then r\<lparr>chs_chain_height := height, chs_updated_at := env_to_rfc3339 env updated_at\<rparr> else r) rows
      else rows @ [\<lparr>chs_asset_id = asset_as_str asset_id, chs_network = network_as_str network,
             chs_chain_height = height, chs_updated_at = env_to_rfc3339 env updated_at\<rparr>])"

definition load_chain_tip_state ::
  "Env \<Rightarrow> SyncedAssetId \<Rightarrow> Network \<Rightarrow> ChainStateRow list \<Rightarrow> DbError + (int \<times> time) option" where
  "load_chain_tip_state env asset_id network rows =
     (case List.find (is_chain_row asset_id network) rows of
        None \<Rightarrow> Inr None
      | Some r \<Rightarrow>
          res_bind (map_err (\<lambda>err. DbError (''Invalid chain_height in chain_state: '' @ height_error_display err))
            (chain_tip_height_try_new (chs_chain_height r))) (\<lambda>height.
          res_bind (map_err (\<lambda>err. DbError (''Invalid updated_at in chain_state: '' @ err))
            (env_parse_datetime env (chs_updated_at r))) (\<lambda>updated_at.
          Inr (Some (height, updated_at)))))"

text \<open>\<open>Instant::duration_since\<close> saturates at zero.\<close>

definition duration_since :: "time \<Rightarrow> time \<Rightarrow> int" where
  "duration_since now earlier = max 0 (now - earlier)"

definition get_or_fetch ::
  "Env \<Rightarrow> ChainStateRow list \<Rightarrow> SyncedAssetId \<Rightarrow> Network \<Rightarrow> time \<Rightarrow> time \<Rightarrow>
     ('x \<Rightarrow> (UserTransactionMonitorError + int) \<times> 'x) \<Rightarrow> ChainTipCache \<Rightarrow> 'x \<Rightarrow>
     (UserTransactionMonitorError + int) \<times> ChainTipCache \<times> 'x" where
  "get_or_fetch env rows asset_id network now now_utc fetch_fn tips x =
     (let cache_key = chain_tip_cache_key asset_id network;
          ttl = chain_tip_cache_ttl_for asset_id;
          fetch = (\<lambda>_::unit. case fetch_fn x of
              (Inl err, x') \<Rightarrow> (Inl err, tips, x')
            | (Inr fresh_tip, x') \<Rightarrow> (Inr fresh_tip, tips(cache_key \<mapsto> \<lparr>ct_height = fresh_tip, ct_fetched_at = now\<rparr>), x'));
          persisted = (\<lambda>_::unit.
            if should_reuse_persisted_tip asset_id
            then case load_chain_tip_state env asset_id network rows of
                   Inl err \<Rightarrow> (Inl (Db err), tips, x)
                 | Inr None \<Rightarrow> fetch ()
                 | Inr (Some (height, updated_at)) \<Rightarrow>
                     (case to_std (now_utc - updated_at) of
                        None \<Rightarrow> fetch ()
                      | Some age_std \<Rightarrow>
                          if age_std \<le> ttl
                          then (Inr height, tips(cache_key \<mapsto> \<lparr>ct_height = height, ct_fetched_at = now\<rparr>), x)
                          else fetch ())
            else fetch ())
      in case tips cache_key of
           None \<Rightarrow> persisted ()
         | Some cached \<Rightarrow>
             if asset_id = Bitcoin \<or> duration_since now (ct_fetched_at cached) \<le> ttl then (Inr (ct_height cached), tips, x)
             else persisted ())"

subsection \<open>Cooldowns and the gate\<close>

definition ADDRESS_SYNC_COOLDOWN :: int where "ADDRESS_SYNC_COOLDOWN = 90 * SECOND"
definition FAILED_ADDRESS_SYNC_COOLDOWN :: int where "FAILED_ADDRESS_SYNC_COOLDOWN = 30 * SECOND"
definition ETHERSCAN_ADDRESS_SYNC_COOLDOWN :: int where "ETHERSCAN_ADDRESS_SYNC_COOLDOWN = ACCOUNT_REFRESH_INTERVAL"
definition ETHERSCAN_FAILED_ADDRESS_SYNC_COOLDOWN :: int where "ETHERSCAN_FAILED_ADDRESS_SYNC_COOLDOWN = 15 * 60 * SECOND"

fun integration_label_for_provider :: "SyncProviderId \<Rightarrow> string" where
  "integration_label_for_provider MempoolSpace = LABEL_MEMPOOL"
| "integration_label_for_provider EtherscanProvider = LABEL_ETHERSCAN"

definition integration_label_for_asset :: "SyncedAssetId \<Rightarrow> string" where
  "integration_label_for_asset asset_id = integration_label_for_provider (default_sync_provider asset_id)"

definition requires_provider :: "SyncAddress list \<Rightarrow> AccountSyncBundle list \<Rightarrow> SyncProviderId \<Rightarrow> bool" where
  "requires_provider non_hd_addresses hd_bundles provider \<longleftrightarrow>
     list_ex (\<lambda>a. default_sync_provider (sa_asset_id a) = provider) non_hd_addresses \<or>
     list_ex (\<lambda>b. default_sync_provider (ab_asset_id b) = provider) hd_bundles"

fun cooldown_for_last_result :: "SyncedAssetId \<Rightarrow> TransactionSyncResult option \<Rightarrow> int option" where
  "cooldown_for_last_result asset_id None = None"
| "cooldown_for_last_result asset_id (Some result) =
     Some (case (default_sync_provider asset_id, result) of
             (MempoolSpace, SyncSuccess) \<Rightarrow> ADDRESS_SYNC_COOLDOWN
           | (MempoolSpace, SyncFailure) \<Rightarrow> FAILED_ADDRESS_SYNC_COOLDOWN
           | (EtherscanProvider, SyncSuccess) \<Rightarrow> ETHERSCAN_ADDRESS_SYNC_COOLDOWN
           | (EtherscanProvider, SyncFailure) \<Rightarrow> ETHERSCAN_FAILED_ADDRESS_SYNC_COOLDOWN)"

definition manual_trigger_bypasses_cooldown :: "SyncAddress \<Rightarrow> bool" where
  "manual_trigger_bypasses_cooldown address \<longleftrightarrow>
     sa_last_result address = Some SyncFailure \<or>
     (default_sync_provider (sa_asset_id address) = EtherscanProvider \<and> sa_last_result address = Some SyncSuccess \<and>
      sa_last_tip_height address \<noteq> None)"

definition is_on_cooldown :: "SyncAddress \<Rightarrow> time \<Rightarrow> TriggerSource \<Rightarrow> bool \<Rightarrow> bool" where
  "is_on_cooldown address now source transaction_page_permitted =
     (case sa_last_completed_at address of
        None \<Rightarrow> False
      | Some last_completed_at \<Rightarrow>
          (case cooldown_for_last_result (sa_asset_id address) (sa_last_result address) of
             None \<Rightarrow> False
           | Some required_cooldown \<Rightarrow>
               if source = AutoUpgrade \<or> (source = ManualInternal \<and> manual_trigger_bypasses_cooldown address) then False
               else if sa_last_result address = Some SyncSuccess \<and>
                 (unfinished_backfill_state address \<noteq> None \<or>
                  (transaction_page_permitted \<and> default_sync_provider (sa_asset_id address) = MempoolSpace \<and>
                   mempool_history_requires_first_page_restart address))
               then False
               else
                 let elapsed = now - last_completed_at in
                 if num_seconds elapsed < 0 then True
                 else (case to_std elapsed of Some elapsed_std \<Rightarrow> elapsed_std < required_cooldown | None \<Rightarrow> False)))"

datatype TipUnchangedGateDecision = ContinueSync | SkipTipUnchangedGate | RefreshPending

definition decide_tip_unchanged_gate :: "int option \<Rightarrow> int \<Rightarrow> bool \<Rightarrow> bool \<Rightarrow> TipUnchangedGateDecision" where
  "decide_tip_unchanged_gate last_tip current_tip has_pending_txs has_api_confirmed_balance =
     (if \<not> has_api_confirmed_balance then ContinueSync
      else case last_tip of
             None \<Rightarrow> ContinueSync
           | Some last_tip_height \<Rightarrow>
               if last_tip_height = current_tip then if has_pending_txs then RefreshPending else SkipTipUnchangedGate
               else ContinueSync)"

definition load_account_transaction_count_for_fetch_policy ::
  "UserDb \<Rightarrow> ulid \<Rightarrow> TransactionFetchPolicy \<Rightarrow> UserTransactionMonitorError + TransactionCount" where
  "load_account_transaction_count_for_fetch_policy db account_id policy =
     (case policy of
        Normal cap \<Rightarrow> map_err Db (load_canonical_account_transaction_count_bounded db account_id cap)
      | _ \<Rightarrow> Inr 0)"

definition summary_has_activity :: "SyncIterationResult \<Rightarrow> bool" where
  "summary_has_activity summary \<longleftrightarrow>
     ir_observed_activity summary \<or> ir_new_tx_count summary > 0 \<or> ir_updated_tx_count summary > 0 \<or>
     (case ir_api_confirmed_balance summary of None \<Rightarrow> False | Some balance \<Rightarrow> balance \<noteq> 0)"

fun delay_for_provider :: "SyncProviderId \<Rightarrow> int" where
  "delay_for_provider MempoolSpace = 250 * MILLISECOND"
| "delay_for_provider EtherscanProvider = 500 * MILLISECOND"

record AddressSyncExecutionRequest =
  er_now_utc :: time
  er_now_instant :: time
  er_address :: SyncAddress
  er_allow_known_confirmed_early_exit :: bool
  er_transaction_page_permitted :: bool
  er_legacy_mempool_history_repair :: bool
  er_mempool_history_page_frontier :: "HdMempoolHistoryFrontierUpdate option"

text \<open>
  The state an executor may change, and what the gate changes beside it. \<open>'x\<close> is the world outside: the clocks and the
  providers.
\<close>

record 'x ExecState =
  xs_db :: UserDb
  xs_tips :: ChainTipCache
  xs_chain_state :: "ChainStateRow list"
  xs_world :: 'x

record 'x GateState = "'x ExecState" +
  gs_limiter :: RateLimiter
  gs_acc :: CycleAccumulator
  gs_processed_for_account :: u32
  gs_address :: SyncAddress

text \<open>
  The arguments of a run: identifiers, the clocks, the request for the tip of the chain (\<^term>\<open>None\<close> without a client) and the
  executor, which is given the request and everything it may change. \<open>wall_clock\<close> is \<open>Utc::now\<close>, which the database
  layer reads itself.
\<close>

record 'x GateEnv =
  ge_env :: Env
  ge_hash :: "RateLimitScopeKey \<Rightarrow> u64"
  ge_user_id :: ulid
  ge_run_id :: ulid
  ge_source :: TriggerSource
  ge_started_at :: time
  ge_utc_now :: "'x \<Rightarrow> time \<times> 'x"
  ge_instant_now :: "'x \<Rightarrow> time \<times> 'x"
  ge_wall_clock :: "'x \<Rightarrow> time \<times> 'x"
  ge_invalidation_error :: "'x \<Rightarrow> DbError option"
  ge_sleep :: "int \<Rightarrow> 'x \<Rightarrow> 'x"
  ge_fetch_tip :: "('x \<Rightarrow> (UserTransactionMonitorError + int) \<times> 'x) option"
  ge_execute :: "AddressSyncExecutionRequest \<Rightarrow> 'x ExecState \<Rightarrow> (UserTransactionMonitorError + SyncIterationResult) \<times> 'x ExecState"

definition exec_state :: "'x GateState \<Rightarrow> 'x ExecState" where
  "exec_state st = \<lparr>xs_db = xs_db st, xs_tips = xs_tips st, xs_chain_state = xs_chain_state st, xs_world = xs_world st\<rparr>"

definition mempool_tip_request :: "'x GateEnv \<Rightarrow> SyncedAssetId \<Rightarrow> 'x \<Rightarrow> (UserTransactionMonitorError + int) \<times> 'x" where
  "mempool_tip_request ge asset_id x =
     (case ge_fetch_tip ge of
        None \<Rightarrow> (Inl (Parse (''mempool client unavailable for '' @ asset_as_str asset_id @ '' sync'')), x)
      | Some fetch \<Rightarrow> fetch x)"

definition skip_address :: "SyncSkipReason \<Rightarrow> 'x GateState \<Rightarrow> 'x GateState" where
  "skip_address reason st = st\<lparr>gs_acc := add_skipped reason (gs_acc st)\<rparr>"

definition apply_inter_address_sync_delay :: "'x GateEnv \<Rightarrow> SyncProviderId \<Rightarrow> 'x GateState \<Rightarrow> 'x GateState" where
  "apply_inter_address_sync_delay ge provider st =
     (if acc_is_first_attempt (gs_acc st) then st\<lparr>gs_acc := (gs_acc st)\<lparr>acc_is_first_attempt := False\<rparr>\<rparr>
      else st\<lparr>xs_world := ge_sleep ge (delay_for_provider provider) (xs_world st)\<rparr>)"

definition mark_sync_failure :: "'x GateEnv \<Rightarrow> ulid \<Rightarrow> UserTransactionMonitorError \<Rightarrow> time \<Rightarrow> UserDb \<Rightarrow> UserDb option" where
  "mark_sync_failure ge address_id err completed db =
     map_option (\<lambda>message.
       case mark_address_sync_completed_failure (ge_env ge) address_id (ge_run_id ge) (ge_started_at ge) completed message
              (counts_as_address_failure err) db of
         Inl _ \<Rightarrow> db
       | Inr db' \<Rightarrow> db')
       (sync_error_sanitize (monitor_error_display err))"

text \<open>
  Before the provider is contacted: \<^term>\<open>Inr None\<close> skips the address because the chain has not grown, \<^term>\<open>Inr (Some b)\<close>
  goes on, with \<open>b\<close> whether known confirmed transactions may end the iteration early.
\<close>

definition check_chain_tip ::
  "'x GateEnv \<Rightarrow> TransactionFetchPolicy \<Rightarrow> ulid set \<Rightarrow> time \<Rightarrow> time \<Rightarrow> 'x GateState \<Rightarrow>
     (UserTransactionMonitorError + bool option) \<times> 'x GateState" where
  "check_chain_tip ge policy pending_address_ids now_instant now_utc st =
     (let address = gs_address st in
      if default_sync_provider (sa_asset_id address) = MempoolSpace \<and> policy \<noteq> LegacyRepair \<and>
        sa_mempool_backfill_cursor_txid address = None \<and> \<not> mempool_history_requires_first_page_restart address
      then (case sa_last_tip_height address of
              None \<Rightarrow> (Inr (Some True), st)
            | Some last_tip_height \<Rightarrow>
                (case get_or_fetch (ge_env ge) (xs_chain_state st) (sa_asset_id address) (sa_network address) now_instant now_utc
                        (mempool_tip_request ge (sa_asset_id address)) (xs_tips st) (xs_world st) of
                   (Inl err, tips', x') \<Rightarrow> (Inl err, st\<lparr>xs_tips := tips', xs_world := x'\<rparr>)
                 | (Inr current_tip, tips', x') \<Rightarrow>
                     let has_pending_txs = (sa_address_id address \<in> pending_address_ids);
                         decision = decide_tip_unchanged_gate (Some last_tip_height) current_tip has_pending_txs
                           (sa_has_api_confirmed_balance address)
                     in (Inr (if decision = SkipTipUnchangedGate then None else Some (\<not> has_pending_txs)),
                         st\<lparr>xs_tips := tips', xs_world := x'\<rparr>)))
      else (Inr (Some True), st))"

definition complete_success ::
  "'x GateEnv \<Rightarrow> ulid \<Rightarrow> UserDb \<Rightarrow> UserTransactionMonitorError + SyncIterationResult \<Rightarrow>
     (UserTransactionMonitorError + SyncIterationResult) \<times> UserDb" where
  "complete_success ge address_id db result =
     (case result of
        Inl err \<Rightarrow> (Inl err, db)
      | Inr summary \<Rightarrow>
          (case mark_address_sync_completed_success (ge_env ge)
                  \<lparr>ss_address_id = address_id, ss_run_id = ge_run_id ge, ss_started_at = ge_started_at ge,
                   ss_completed_at = ir_completed_at summary, ss_last_tip_height = ir_tip_height summary,
                   ss_new_tx_count = ir_new_tx_count summary, ss_updated_tx_count = ir_updated_tx_count summary,
                   ss_api_confirmed_balance = ir_api_confirmed_balance summary\<rparr> db of
             Inl err \<Rightarrow> (Inl (preserve_iteration_error (Db err) summary), db)
           | Inr db' \<Rightarrow> (Inr summary, db')))"

text \<open>
  An error that names histories it left incomplete invalidates them. When the database fails at that
  (\<open>ge_invalidation_error\<close>), the caller gets that error with the names, and nothing else of the attempt is recorded.
\<close>

definition mark_invalidated :: "'x GateEnv \<Rightarrow> CoverageInvalidationTargets \<Rightarrow> 'x GateState \<Rightarrow> 'x GateState" where
  "mark_invalidated ge targets st =
     (case ge_wall_clock ge (xs_world st) of
        (now, x') \<Rightarrow>
          st\<lparr>xs_db := invalidate_mempool_history_coverage (ge_env ge) targets now (xs_db st), xs_world := x',
             gs_acc := mark_accounts_history_unavailable (target_account_ids targets) (gs_acc st)\<rparr>)"

definition invalidate_after_error ::
  "'x GateEnv \<Rightarrow> UserTransactionMonitorError + SyncIterationResult \<Rightarrow> 'x GateState \<Rightarrow>
     ((UserTransactionMonitorError + unit) \<times> 'x GateState) option" where
  "invalidate_after_error ge result st =
     (case result of
        Inr _ \<Rightarrow> Some (Inr (), st)
      | Inl err \<Rightarrow>
          (case coverage_invalidation err of
             None \<Rightarrow> Some (Inr (), st)
           | Some targets \<Rightarrow>
               (case (if target_address_ids targets = {} \<and> target_account_ids targets = {} then None
                      else ge_invalidation_error ge (xs_world st)) of
                  Some db_error \<Rightarrow>
                    map_option (\<lambda>sanitized. (Inl (with_coverage_invalidation (Db (DbError sanitized)) targets), st))
                      (sync_error_sanitize (monitor_error_display (Db db_error)))
                | None \<Rightarrow> Some (Inr (), mark_invalidated ge targets st))))"

definition record_success :: "SyncIterationResult \<Rightarrow> 'x GateState \<Rightarrow> 'x GateState" where
  "record_success summary st =
     (let address = gs_address st;
          acc1 = add_synced summary (gs_acc st);
          acc2 = (if ir_early_exited summary then add_early_exited acc1 else acc1);
          acc3 = (case sa_account_id address of
                    Some account_id \<Rightarrow> if ir_ledger_rebuild_required summary then mark_account_dirty account_id acc2 else acc2
                  | None \<Rightarrow> acc2)
      in st\<lparr>gs_acc := acc3,
            gs_address := address\<lparr>sa_last_completed_at := Some (ir_completed_at summary), sa_last_result := Some SyncSuccess,
              sa_last_tip_height := Some (ir_tip_height summary)\<rparr>\<rparr>)"

text \<open>The common end of both failing branches: the time is read, the failure stored, the address updated.\<close>

definition record_failure :: "'x GateEnv \<Rightarrow> UserTransactionMonitorError \<Rightarrow> 'x GateState \<Rightarrow> 'x GateState option" where
  "record_failure ge err st =
     (case ge_utc_now ge (xs_world st) of
        (completed, x') \<Rightarrow>
          map_option (\<lambda>db'. st\<lparr>xs_db := db', xs_world := x',
              gs_address := (gs_address st)\<lparr>sa_last_completed_at := Some completed, sa_last_result := Some SyncFailure\<rparr>\<rparr>)
            (mark_sync_failure ge (sa_address_id (gs_address st)) err completed (xs_db st)))"

definition record_rate_limited ::
  "'x GateEnv \<Rightarrow> string \<Rightarrow> int option \<Rightarrow> string \<Rightarrow> 'x GateState \<Rightarrow> 'x GateState option" where
  "record_rate_limited ge integration retry_after message st =
     (case ge_instant_now ge (xs_world st) of
        (limited_at, x') \<Rightarrow>
          record_failure ge (RateLimited integration retry_after message)
            (st\<lparr>xs_world := x',
                gs_limiter := record_rate_limit (ge_hash ge) (ge_user_id ge) integration limited_at retry_after (gs_limiter st),
                gs_acc := add_skipped SkipRateLimited (add_rate_limited integration (gs_acc st))\<rparr>))"

definition record_outcome ::
  "'x GateEnv \<Rightarrow> TransactionFetchPolicy \<Rightarrow> UserTransactionMonitorError + SyncIterationResult \<Rightarrow> 'x GateState \<Rightarrow>
     ((bool \<times> bool) \<times> 'x GateState) option" where
  "record_outcome ge policy result st =
     (case result of
        Inr summary \<Rightarrow> Some ((summary_has_activity summary, False), record_success summary st)
      | Inl (RateLimited integration retry_after message) \<Rightarrow>
          map_option (\<lambda>st'. ((False, True), st')) (record_rate_limited ge integration retry_after message st)
      | Inl err \<Rightarrow>
          (case add_failed err (policy = LegacyRepair) (gs_acc st) of
             None \<Rightarrow> None
           | Some acc' \<Rightarrow> map_option (\<lambda>st'. ((False, True), st')) (record_failure ge err (st\<lparr>gs_acc := acc'\<rparr>))))"

definition attempt_address_sync ::
  "'x GateEnv \<Rightarrow> TransactionFetchPolicy \<Rightarrow> AddressSyncExecutionRequest \<Rightarrow> 'x GateState \<Rightarrow>
     ((UserTransactionMonitorError + bool \<times> bool) \<times> 'x GateState) option" where
  "attempt_address_sync ge policy request st0 =
     (let address = gs_address st0;
          st1 = apply_inter_address_sync_delay ge (default_sync_provider (sa_asset_id address)) st0;
          st = st1\<lparr>gs_processed_for_account := saturating_add_u (gs_processed_for_account st1) 1\<rparr>
      in case mark_address_sync_started (ge_env ge) (sa_address_id address) (ge_run_id ge) (ge_started_at ge) (xs_db st) of
           Inl err \<Rightarrow> Some (Inl (Db err), st)
         | Inr started_db \<Rightarrow>
             (case ge_execute ge request (exec_state (st\<lparr>xs_db := started_db\<rparr>)) of
                (executed, ex) \<Rightarrow>
                  (case complete_success ge (sa_address_id address) (xs_db ex) executed of
                     (result, db') \<Rightarrow>
                       (case invalidate_after_error ge result
                               (st\<lparr>xs_db := db', xs_tips := xs_tips ex, xs_chain_state := xs_chain_state ex, xs_world := xs_world ex\<rparr>) of
                          None \<Rightarrow> None
                        | Some (Inl err, st2) \<Rightarrow> Some (Inl err, st2)
                        | Some (Inr _, st2) \<Rightarrow>
                            map_option (\<lambda>(outcome, st'). (Inr outcome, st')) (record_outcome ge policy result st2)))))"

definition sync_single_address_with_controls ::
  "'x GateEnv \<Rightarrow> TransactionFetchPolicy \<Rightarrow> ulid set \<Rightarrow> HdMempoolHistoryFrontierUpdate option \<Rightarrow> 'x GateState \<Rightarrow>
     ((UserTransactionMonitorError + bool \<times> bool) \<times> 'x GateState) option" where
  "sync_single_address_with_controls ge policy pending_address_ids frontier st0 =
     (let address = gs_address st0 in
      case (case sa_account_id address of
              Some account_id \<Rightarrow> load_account_transaction_count_for_fetch_policy (xs_db st0) account_id policy
            | None \<Rightarrow> Inr 0) of
        Inl err \<Rightarrow> Some (Inl err, st0)
      | Inr stored_count \<Rightarrow>
          (case ge_utc_now ge (xs_world st0) of (now_utc, x1) \<Rightarrow>
           case ge_instant_now ge x1 of (now_instant, x2) \<Rightarrow>
           let permitted = permits_transaction_page policy stored_count;
               st1 = st0\<lparr>xs_world := x2\<rparr>
           in
           if \<not> permitted \<and>
             is_successful_balance_refresh_fresh (ge_source ge) (sa_last_result address) (sa_last_completed_at address) now_utc
           then Some (Inr (False, False), skip_address SkipBalanceFresh st1)
           else if is_on_cooldown address now_utc (ge_source ge) permitted \<and>
             (policy \<noteq> LegacyRepair \<or> sa_last_result address = Some SyncFailure)
           then Some (Inr (False, False), skip_address SkipCooldown st1)
           else
             (let integration = integration_label_for_asset (sa_asset_id address) in
              case is_rate_limited (ge_user_id ge) integration now_instant (gs_limiter st1) of
                (limited, limiter') \<Rightarrow>
                  let st2 = st1\<lparr>gs_limiter := limiter'\<rparr> in
                  if limited
                  then Some (Inr (False, True),
                    skip_address SkipRateLimited (st2\<lparr>gs_acc := add_rate_limited integration (gs_acc st2)\<rparr>))
                  else (case check_chain_tip ge policy pending_address_ids now_instant now_utc st2 of
                          (Inl err, st3) \<Rightarrow> Some (Inl err, st3)
                        | (Inr None, st3) \<Rightarrow> Some (Inr (False, False), skip_address SkipTipUnchanged st3)
                        | (Inr (Some allow), st3) \<Rightarrow>
                            attempt_address_sync ge policy
                              \<lparr>er_now_utc = now_utc, er_now_instant = now_instant, er_address = address,
                               er_allow_known_confirmed_early_exit = allow, er_transaction_page_permitted = permitted,
                               er_legacy_mempool_history_repair = (policy = LegacyRepair),
                               er_mempool_history_page_frontier = frontier\<rparr> st3))))"

end
