(* ===== verification/Sync_Attempts.thy ===== *)
theory Sync_Attempts
  imports Sync_Gate
begin

section \<open>What an attempt to sync an address guarantees\<close>

text \<open>
  Facts about \<open>sync_single_address_with_controls\<close> (\<open>Sync_Gate\<close>) that hold for every provider and executor: each answer is
  counted once, cooldowns and rate limits keep the provider from being contacted, what is stored agrees with what is
  reported, and the tip of the chain is requested once.
\<close>

subsection \<open>The possible courses of an attempt\<close>

lemma check_chain_tip_frame:
  assumes "check_chain_tip ge policy pending now_instant now_utc st = (r, st')"
  shows "\<exists>tips x. st' = st\<lparr>xs_tips := tips, xs_world := x\<rparr>"
proof -
  have self: "\<exists>tips x. st = st\<lparr>xs_tips := tips, xs_world := x\<rparr>" by (intro exI [of _ "xs_tips st"] exI [of _ "xs_world st"]) simp
  with assms show ?thesis
    unfolding check_chain_tip_def Let_def by (auto split: if_splits option.splits prod.splits sum.splits)
qed

lemma sync_single_cases:
  assumes "sync_single_address_with_controls ge policy pending frontier st = Some (res, st')"
  obtains
    (uncounted) err where "res = Inl err" "st' = st"
  | (skipped) limited tips x limiter reason acc where
      "res = Inr (False, limited)" "st' = st\<lparr>xs_tips := tips, xs_world := x, gs_limiter := limiter, gs_acc := add_skipped reason acc\<rparr>"
      "acc = gs_acc st \<or> (\<exists>i. acc = add_rate_limited i (gs_acc st))"
  | (no_tip) err tips x limiter where "res = Inl err" "st' = st\<lparr>xs_tips := tips, xs_world := x, gs_limiter := limiter\<rparr>"
  | (attempted) request tips x limiter where
      "attempt_address_sync ge policy request (st\<lparr>xs_tips := tips, xs_world := x, gs_limiter := limiter\<rparr>) = Some (res, st')"
      "er_address request = gs_address st"
proof -
  obtain now_utc x1 where utc: "ge_utc_now ge (xs_world st) = (now_utc, x1)" by (cases "ge_utc_now ge (xs_world st)")
  obtain now_instant x2 where inst: "ge_instant_now ge x1 = (now_instant, x2)" by (cases "ge_instant_now ge x1")
  let ?count = "case sa_account_id (gs_address st) of
    Some account_id \<Rightarrow> load_account_transaction_count_for_fetch_policy (xs_db st) account_id policy | None \<Rightarrow> Inr 0"
  let ?label = "integration_label_for_asset (sa_asset_id (gs_address st))"
  obtain limited limiter where lim: "is_rate_limited (ge_user_id ge) ?label now_instant (gs_limiter st) = (limited, limiter)"
    by (cases "is_rate_limited (ge_user_id ge) ?label now_instant (gs_limiter st)")
  let ?st2 = "st\<lparr>xs_world := x2, gs_limiter := limiter\<rparr>"
  obtain tip st3 where tip: "check_chain_tip ge policy pending now_instant now_utc ?st2 = (tip, st3)"
    by (cases "check_chain_tip ge policy pending now_instant now_utc ?st2")
  obtain tips x where "st3 = ?st2\<lparr>xs_tips := tips, xs_world := x\<rparr>" using check_chain_tip_frame [OF tip] by blast
  then have st3: "st3 = st\<lparr>xs_tips := tips, xs_world := x, gs_limiter := limiter\<rparr>" by simp
  show thesis
  proof (cases ?count)
    case (Inl err)
    with assms have "res = Inl err" "st' = st" by (simp_all add: sync_single_address_with_controls_def Let_def)
    then show ?thesis by (rule uncounted)
  next
    case (Inr n)
    note rest = assms [unfolded sync_single_address_with_controls_def Let_def Inr utc inst sum.case prod.case option.case]
    have held: thesis if "Some (Inr (False, False), skip_address reason (st\<lparr>xs_world := x2\<rparr>)) = Some (res, st')" for reason
      using that by (intro skipped [of False reason "gs_acc st" "gs_limiter st" x2 "xs_tips st"]) (auto simp: skip_address_def)
    let ?fresh = "\<not> permits_transaction_page policy n \<and> is_successful_balance_refresh_fresh (ge_source ge)
        (sa_last_result (gs_address st)) (sa_last_completed_at (gs_address st)) now_utc"
    let ?cooling = "is_on_cooldown (gs_address st) now_utc (ge_source ge) (permits_transaction_page policy n) \<and>
        (policy \<noteq> LegacyRepair \<or> sa_last_result (gs_address st) = Some SyncFailure)"
    show ?thesis
    proof (cases "?fresh \<or> ?cooling")
      case True
      with rest held show ?thesis by (auto split: if_splits)
    next
      case False
      show ?thesis
      proof (cases limited)
        case True
        from rest False True lim show ?thesis
          by (intro skipped [of True SkipRateLimited "add_rate_limited ?label (gs_acc st)" limiter x2 "xs_tips st"])
            (auto simp: skip_address_def)
      next
        case notlim: False

        from notlim lim have lim': "is_rate_limited (ge_user_id ge) ?label now_instant (gs_limiter (st\<lparr>xs_world := x2\<rparr>)) = (False, limiter)"
          by simp
        from False have nf: "\<not> ?fresh" "\<not> ?cooling" by blast+
        note rest' = rest [unfolded lim' prod.case if_not_P [OF nf(1)] if_not_P [OF nf(2)] if_False]
        from rest' [unfolded tip prod.case] have finish:
          "(case tip of Inl err \<Rightarrow> Some (Inl err, st3)
            | Inr None \<Rightarrow> Some (Inr (False, False), skip_address SkipTipUnchanged st3)
            | Inr (Some allow) \<Rightarrow> attempt_address_sync ge policy
                \<lparr>er_now_utc = now_utc, er_now_instant = now_instant, er_address = gs_address st,
                 er_allow_known_confirmed_early_exit = allow, er_transaction_page_permitted = permits_transaction_page policy n,
                 er_legacy_mempool_history_repair = (policy = LegacyRepair),
                 er_mempool_history_page_frontier = frontier\<rparr> st3) = Some (res, st')"
          by (simp cong: sum.case_cong option.case_cong)
        show ?thesis
        proof (cases tip)
          case (Inl err)
          with finish st3 show ?thesis by (intro no_tip [of err limiter x tips]) auto
        next
          case (Inr allow)
          show ?thesis
          proof (cases allow)
            case None
            with finish Inr st3 show ?thesis
              by (intro skipped [of False SkipTipUnchanged "gs_acc st" limiter x tips]) (auto simp: skip_address_def)
          next
            case (Some b)
            with finish Inr st3 show ?thesis by (intro attempted) auto
          qed
        qed
      qed
    qed
  qed
qed


subsection \<open>Every answer is counted once\<close>

definition skip_total :: "SyncSkipCounts \<Rightarrow> nat" where
  "skip_total c = unat (skip_balance_fresh c) + unat (skip_cooldown c) + unat (skip_rate_limited c) +
     unat (skip_tip_unchanged c) + unat (skip_blocked c)"

definition answered :: "CycleAccumulator \<Rightarrow> nat" where
  "answered acc = unat (acc_addresses_synced acc) + unat (acc_addresses_failed acc) + unat (acc_addresses_skipped acc)"

lemma unat_sat_Suc: "unat (x :: u32) < 2 ^ 32 - 1 \<Longrightarrow> unat (saturating_add_u x 1) = Suc (unat x)"
  by (simp add: unat_saturating_add_u)

lemma skip_total_add:
  assumes "skip_total c < 2 ^ 32 - 1"
  shows "skip_total (skip_counts_add reason c) = Suc (skip_total c)"
  using assms by (cases reason) (simp_all add: skip_total_def unat_sat_Suc)

lemma answered_skipped:
  "answered acc < 2 ^ 32 - 1 \<Longrightarrow> answered (add_skipped reason acc) = Suc (answered acc)"
  by (simp add: answered_def add_skipped_def unat_sat_Suc)

lemma add_failed_counters:
  assumes "add_failed err owned acc = Some acc'"
  shows "acc_addresses_synced acc' = acc_addresses_synced acc" "acc_addresses_skipped acc' = acc_addresses_skipped acc"
    "acc_skipped_by_reason acc' = acc_skipped_by_reason acc" "acc_addresses_total acc' = acc_addresses_total acc"
    "acc_addresses_failed acc' = saturating_add_u (acc_addresses_failed acc) 1"
    "acc_touched_accounts acc' = acc_touched_accounts acc"
    "acc_coverage_invalidated_accounts acc' = acc_coverage_invalidated_accounts acc"
proof -
  from assms [unfolded add_failed_def Let_def map_option_eq_Some] obtain message where
    acc': "acc' = (let acc1 = acc\<lparr>acc_addresses_failed := saturating_add_u (acc_addresses_failed acc) 1\<rparr>;
        acc2 = (if acc_failure_error acc1 = None then acc1\<lparr>acc_failure_error := Some message\<rparr> else acc1)
      in if owned \<and> acc_bitcoin_history_repair_failure_error acc2 = None
         then acc2\<lparr>acc_bitcoin_history_repair_failure_error := Some message\<rparr> else acc2)"
    unfolding Let_def by blast
  show "acc_addresses_synced acc' = acc_addresses_synced acc" "acc_addresses_skipped acc' = acc_addresses_skipped acc"
    "acc_skipped_by_reason acc' = acc_skipped_by_reason acc" "acc_addresses_total acc' = acc_addresses_total acc"
    "acc_addresses_failed acc' = saturating_add_u (acc_addresses_failed acc) 1"
    "acc_touched_accounts acc' = acc_touched_accounts acc"
    "acc_coverage_invalidated_accounts acc' = acc_coverage_invalidated_accounts acc"
    unfolding acc' Let_def by simp_all
qed

text \<open>The state after an invalidation that the database did not refuse.\<close>

definition invalidated_state ::
  "'x GateEnv \<Rightarrow> UserTransactionMonitorError + SyncIterationResult \<Rightarrow> 'x GateState \<Rightarrow> 'x GateState" where
  "invalidated_state ge result st =
     (case result of
        Inr _ \<Rightarrow> st
      | Inl err \<Rightarrow> (case coverage_invalidation err of None \<Rightarrow> st | Some targets \<Rightarrow> mark_invalidated ge targets st))"

lemma invalidate_after_error_ok:
  "invalidate_after_error ge result st = Some (Inr u, st') \<Longrightarrow> st' = invalidated_state ge result st"
  by (auto simp: invalidate_after_error_def invalidated_state_def split: sum.splits option.splits if_splits)

lemma attempt_recorded:
  assumes "(case invalidate_after_error ge result st2 of
        None \<Rightarrow> None
      | Some (Inl err, st3) \<Rightarrow> Some (Inl err, st3)
      | Some (Inr _, st3) \<Rightarrow> map_option (\<lambda>(outcome, st'). (Inr outcome, st')) (record_outcome ge policy result st3)) =
    Some (Inr out, st')"
  shows "record_outcome ge policy result (invalidated_state ge result st2) = Some (out, st')"
  using assms by (auto split: option.splits sum.splits dest: invalidate_after_error_ok)

lemma invalidated_state_counters [simp]:
  "answered (gs_acc (invalidated_state ge result st)) = answered (gs_acc st)"
  "acc_addresses_skipped (gs_acc (invalidated_state ge result st)) = acc_addresses_skipped (gs_acc st)"
  "acc_skipped_by_reason (gs_acc (invalidated_state ge result st)) = acc_skipped_by_reason (gs_acc st)"
  "acc_addresses_total (gs_acc (invalidated_state ge result st)) = acc_addresses_total (gs_acc st)"
  by (simp_all add: invalidated_state_def mark_invalidated_def answered_def mark_accounts_history_unavailable_def
      split: sum.splits option.splits prod.splits)

lemma delay_counters [simp]:
  "answered (gs_acc (apply_inter_address_sync_delay ge provider st)) = answered (gs_acc st)"
  "acc_addresses_skipped (gs_acc (apply_inter_address_sync_delay ge provider st)) = acc_addresses_skipped (gs_acc st)"
  "acc_skipped_by_reason (gs_acc (apply_inter_address_sync_delay ge provider st)) = acc_skipped_by_reason (gs_acc st)"
  "acc_addresses_total (gs_acc (apply_inter_address_sync_delay ge provider st)) = acc_addresses_total (gs_acc st)"
  by (simp_all add: apply_inter_address_sync_delay_def answered_def)

lemma record_success_counters:
  "acc_addresses_skipped (gs_acc (record_success summary st)) = acc_addresses_skipped (gs_acc st)"
  "acc_skipped_by_reason (gs_acc (record_success summary st)) = acc_skipped_by_reason (gs_acc st)"
  "acc_addresses_total (gs_acc (record_success summary st)) = acc_addresses_total (gs_acc st)"
  "answered (gs_acc st) < 2 ^ 32 - 1 \<Longrightarrow> answered (gs_acc (record_success summary st)) = Suc (answered (gs_acc st))"
  by (simp_all add: record_success_def Let_def add_synced_def add_early_exited_def mark_account_dirty_def answered_def
      unat_sat_Suc split: option.splits)

lemma record_failure_acc: "record_failure ge err st = Some st' \<Longrightarrow> gs_acc st' = gs_acc st"
  by (auto simp: record_failure_def split: prod.splits)

definition skips_explained :: "CycleAccumulator \<Rightarrow> bool" where
  "skips_explained acc \<longleftrightarrow> unat (acc_addresses_skipped acc) = skip_total (acc_skipped_by_reason acc)"

lemma skips_explained_add:
  assumes "skips_explained acc" and "answered acc < 2 ^ 32 - 1"
  shows "skips_explained (add_skipped reason acc)"
  using assms skip_total_add [of "acc_skipped_by_reason acc" reason]
  by (simp add: skips_explained_def add_skipped_def unat_sat_Suc answered_def)

lemma rate_limited_counters [simp]:
  "answered (add_rate_limited i acc) = answered acc" "skips_explained (add_rate_limited i acc) = skips_explained acc"
  by (simp_all add: answered_def skips_explained_def add_rate_limited_def)

lemma record_outcome_plain:
  assumes "\<nexists>i r m. err = RateLimited i r m"
  shows "record_outcome ge policy (Inl err) st = (case add_failed err (policy = LegacyRepair) (gs_acc st) of
      None \<Rightarrow> None | Some acc' \<Rightarrow> map_option (\<lambda>st'. ((False, True), st')) (record_failure ge err (st\<lparr>gs_acc := acc'\<rparr>)))"
  using assms unfolding record_outcome_def by (cases err; hypsubst; simp)

lemma record_outcome_counted:
  assumes "record_outcome ge policy result st = Some (out, st')" and "answered (gs_acc st) < 2 ^ 32 - 1"
  shows "answered (gs_acc st') = Suc (answered (gs_acc st)) \<and> (skips_explained (gs_acc st) \<longrightarrow> skips_explained (gs_acc st'))"
proof (cases result)
  case (Inr summary)
  with assms show ?thesis by (auto simp: record_outcome_def record_success_counters skips_explained_def)
next
  case (Inl err)
  show ?thesis
  proof (cases "\<exists>i r m. err = RateLimited i r m")
    case True
    then obtain i r m where "err = RateLimited i r m" by blast
    with assms Inl have "record_rate_limited ge i r m st = Some st'" by (auto simp: record_outcome_def)
    then have "gs_acc st' = add_skipped SkipRateLimited (add_rate_limited i (gs_acc st))"
      by (auto simp: record_rate_limited_def dest: record_failure_acc split: prod.splits)
    with assms(2) show ?thesis by (simp add: answered_skipped skips_explained_add)
  next
    case False
    from assms(1) obtain acc' where f: "add_failed err (policy = LegacyRepair) (gs_acc st) = Some acc'"
      and "record_failure ge err (st\<lparr>gs_acc := acc'\<rparr>) = Some st'"
      unfolding Inl record_outcome_plain [OF False] by (auto split: option.splits)
    then have "gs_acc st' = acc'" by (auto dest: record_failure_acc)
    with add_failed_counters [OF f] assms(2) show ?thesis by (simp add: answered_def skips_explained_def unat_sat_Suc)
  qed
qed


lemma attempt_counted:
  assumes "attempt_address_sync ge policy request st = Some (Inr out, st')" and "answered (gs_acc st) < 2 ^ 32 - 1"
  shows "answered (gs_acc st') = Suc (answered (gs_acc st)) \<and> (skips_explained (gs_acc st) \<longrightarrow> skips_explained (gs_acc st'))"
proof -
  let ?delayed = "apply_inter_address_sync_delay ge (default_sync_provider (sa_asset_id (gs_address st))) st"
  from assms(1) obtain result st2 where rec: "record_outcome ge policy result (invalidated_state ge result st2) = Some (out, st')"
    and acc: "gs_acc st2 = gs_acc ?delayed"
    unfolding attempt_address_sync_def Let_def by (auto split: sum.splits prod.splits dest!: attempt_recorded)
  have "answered (gs_acc (invalidated_state ge result st2)) = answered (gs_acc st)"
    "skips_explained (gs_acc (invalidated_state ge result st2)) = skips_explained (gs_acc st)"
    by (simp_all add: acc skips_explained_def)
  with record_outcome_counted [OF rec] assms(2) show ?thesis by simp
qed

lemma sync_single_counted:
  assumes "sync_single_address_with_controls ge policy pending frontier st = Some (Inr out, st')"
    and "answered (gs_acc st) < 2 ^ 32 - 1"
  shows "answered (gs_acc st') = Suc (answered (gs_acc st)) \<and> (skips_explained (gs_acc st) \<longrightarrow> skips_explained (gs_acc st'))"
  using assms(1)
proof (cases rule: sync_single_cases)
  case (skipped limited tips x limiter reason acc)
  then have "answered acc = answered (gs_acc st)" "skips_explained acc = skips_explained (gs_acc st)" by auto
  with skipped(2) assms(2) show ?thesis by (simp add: answered_skipped skips_explained_add)
next
  case (attempted request tips x limiter)
  from attempt_counted [OF attempted(1)] assms(2) show ?thesis by simp
qed simp_all

text \<open>
  A run as the caller makes it: any number of attempts, each for the address it loaded last, with the counters and caches of
  the run. The first component counts the answers.
\<close>

inductive gate_run_step :: "'x GateEnv \<Rightarrow> nat \<times> 'x GateState \<Rightarrow> nat \<times> 'x GateState \<Rightarrow> bool" for ge where
  "sync_single_address_with_controls ge policy pending frontier (st\<lparr>gs_address := address\<rparr>) = Some (Inr out, st') \<Longrightarrow>
   gate_run_step ge (n, st) (Suc n, st')"

definition gate_run_init :: "nat \<times> 'x GateState \<Rightarrow> bool" where
  "gate_run_init s \<longleftrightarrow> fst s = 0 \<and> (\<exists>addresses. gs_acc (snd s) = accumulator_new addresses)"

definition gate_run_inv :: "nat \<times> 'x GateState \<Rightarrow> bool" where
  "gate_run_inv s \<longleftrightarrow> (fst s < 2 ^ 32 \<longrightarrow> answered (gs_acc (snd s)) = fst s \<and> skips_explained (gs_acc (snd s)))"

interpretation gate_run: state_machine gate_run_init "gate_run_step ge" gate_run_inv for ge :: "'x GateEnv"
proof
  fix s :: "nat \<times> 'x GateState"
  assume "gate_run_init s"
  then show "gate_run_inv s"
    by (auto simp: gate_run_init_def gate_run_inv_def accumulator_new_def answered_def skips_explained_def skip_total_def)
next
  fix s t :: "nat \<times> 'x GateState"
  assume inv: "gate_run_inv s" and "gate_run_step ge s t"
  from this(2) obtain policy pending frontier st address out st' n where s: "s = (n, st)" and t: "t = (Suc n, st')"
    and call: "sync_single_address_with_controls ge policy pending frontier (st\<lparr>gs_address := address\<rparr>) = Some (Inr out, st')"
    by cases
  show "gate_run_inv t"
  proof (cases "Suc n < 2 ^ 32")
    case True
    with inv s have "answered (gs_acc (st\<lparr>gs_address := address\<rparr>)) = n" "skips_explained (gs_acc (st\<lparr>gs_address := address\<rparr>))"
      by (simp_all add: gate_run_inv_def)
    with sync_single_counted [OF call] True t show ?thesis by (simp add: gate_run_inv_def)
  next
    case False
    with t show ?thesis by (simp add: gate_run_inv_def)
  qed
qed

text \<open>
  C23. A run accounts for every address it was asked to sync: after \<open>n\<close> answers (fewer than 2^32, beyond which the
  counters saturate) the numbers of addresses synced, failed and skipped add up to \<open>n\<close>, and the reasons for skipping add up
  to the number skipped, whatever the providers, the clocks and the executor did.
\<close>

theorem run_counts_every_answer:
  assumes "gs_acc st0 = accumulator_new addresses" and "(gate_run_step ge)\<^sup>*\<^sup>* (0, st0) (n, st)" and "n < 2 ^ 32"
  shows "unat (acc_addresses_synced (gs_acc st)) + unat (acc_addresses_failed (gs_acc st)) +
      unat (acc_addresses_skipped (gs_acc st)) = n \<and>
    unat (acc_addresses_skipped (gs_acc st)) = skip_total (acc_skipped_by_reason (gs_acc st))"
proof -
  have "gate_run_init (0, st0)" using assms(1) by (auto simp: gate_run_init_def)
  from gate_run.reachable_inv [OF this assms(2)] assms(3) show ?thesis
    by (simp add: gate_run_inv_def answered_def skips_explained_def)
qed


subsection \<open>When the provider is left alone\<close>

lemma cooldown_window:
  assumes "sa_last_completed_at address = Some t" and "sa_last_result address = Some r"
    and "cooldown_for_last_result (sa_asset_id address) (Some r) = Some c"
    and "now < t + c" and "t \<le> now \<or> now \<le> t - SECOND" and "source \<noteq> AutoUpgrade" and "source \<noteq> ManualInternal"
    and "r = SyncSuccess \<Longrightarrow> unfinished_backfill_state address = None \<and> \<not> mempool_history_requires_first_page_restart address"
  shows "is_on_cooldown address now source permitted"
  using assms by (auto simp: is_on_cooldown_def Let_def num_seconds_def to_std_def SECOND_def MILLISECOND_def)

definition stored_count_of :: "'x GateState \<Rightarrow> TransactionFetchPolicy \<Rightarrow> UserTransactionMonitorError + TransactionCount" where
  "stored_count_of st policy =
     (case sa_account_id (gs_address st) of
        Some account_id \<Rightarrow> load_account_transaction_count_for_fetch_policy (xs_db st) account_id policy
      | None \<Rightarrow> Inr 0)"

lemma held_back:
  assumes "stored_count_of st policy = Inr n"
    and "is_on_cooldown (gs_address st) (fst (ge_utc_now ge (xs_world st))) (ge_source ge) (permits_transaction_page policy n)"
    and "policy = LegacyRepair \<Longrightarrow> sa_last_result (gs_address st) = Some SyncFailure"
  shows "\<exists>reason x. sync_single_address_with_controls ge policy pending frontier st =
    Some (Inr (False, False), skip_address reason (st\<lparr>xs_world := x\<rparr>))"
proof -
  obtain now_utc x1 where utc: "ge_utc_now ge (xs_world st) = (now_utc, x1)" by (cases "ge_utc_now ge (xs_world st)")
  obtain now_instant x2 where inst: "ge_instant_now ge x1 = (now_instant, x2)" by (cases "ge_instant_now ge x1")
  note count = assms(1) [unfolded stored_count_of_def]
  have cool: "is_on_cooldown (gs_address st) now_utc (ge_source ge) (permits_transaction_page policy n) \<and>
      (policy \<noteq> LegacyRepair \<or> sa_last_result (gs_address st) = Some SyncFailure)"
    using assms(2,3) utc by auto
  show ?thesis
    unfolding sync_single_address_with_controls_def Let_def count utc inst sum.case prod.case if_P [OF cool] by auto
qed

text \<open>
  C22. Cooldowns. An automatic run that comes back to an address within the cooldown of its last outcome (90 s and 30 s after a
  success and a failure at Mempool, 15 minutes at Etherscan) leaves the database, the caches, the limiter, the address and
  the provider alone and only counts one address as skipped; a success with an unfinished backfill or a history that has to
  be restarted has no cooldown. The time of the last outcome lies in the past, or at least a second ahead.
\<close>

theorem cooldown_leaves_provider_alone:
  assumes "sa_last_completed_at (gs_address st) = Some t" and "sa_last_result (gs_address st) = Some r"
    and "fst (ge_utc_now ge (xs_world st)) = now" and "t \<le> now \<or> now \<le> t - SECOND"
    and "now < t + (case (sa_asset_id (gs_address st), r) of (Bitcoin, SyncSuccess) \<Rightarrow> 90 * SECOND
           | (Bitcoin, SyncFailure) \<Rightarrow> 30 * SECOND | (Ethereum, _) \<Rightarrow> 900 * SECOND)"
    and "ge_source ge \<noteq> AutoUpgrade" and "ge_source ge \<noteq> ManualInternal"
    and "r = SyncSuccess \<longrightarrow> policy \<noteq> LegacyRepair \<and> unfinished_backfill_state (gs_address st) = None \<and>
           \<not> mempool_history_requires_first_page_restart (gs_address st)"
    and "stored_count_of st policy = Inr n"
  shows "\<exists>reason x. sync_single_address_with_controls ge policy pending frontier st =
    Some (Inr (False, False), st\<lparr>xs_world := x, gs_acc := add_skipped reason (gs_acc st)\<rparr>)"
proof -
  obtain c where c: "cooldown_for_last_result (sa_asset_id (gs_address st)) (Some r) = Some c" by simp
  then have "now < t + c" using assms(5)
    by (cases "sa_asset_id (gs_address st)"; cases r)
      (simp_all add: ADDRESS_SYNC_COOLDOWN_def FAILED_ADDRESS_SYNC_COOLDOWN_def ETHERSCAN_ADDRESS_SYNC_COOLDOWN_def
        ETHERSCAN_FAILED_ADDRESS_SYNC_COOLDOWN_def ACCOUNT_REFRESH_INTERVAL_def ACCOUNT_REFRESH_INTERVAL_MINUTES_def)
  from cooldown_window [OF assms(1,2) c this assms(4,6,7)] assms(8)
  have cool: "is_on_cooldown (gs_address st) (fst (ge_utc_now ge (xs_world st))) (ge_source ge) (permits_transaction_page policy n)"
    unfolding assms(3) by blast
  have "policy = LegacyRepair \<Longrightarrow> sa_last_result (gs_address st) = Some SyncFailure"
    using assms(2,8) by (cases r) auto
  from held_back [OF assms(9) cool this] show ?thesis by (auto simp: skip_address_def)
qed

lemma blocked_integration_held_back:
  assumes "stored_count_of st policy = Inr n"
    and "blocked (gs_limiter st) (ge_user_id ge, integration_label_for_asset (sa_asset_id (gs_address st)))
           (fst (ge_instant_now ge (snd (ge_utc_now ge (xs_world st)))))"
  shows "\<exists>reason limited x acc. sync_single_address_with_controls ge policy pending frontier st =
    Some (Inr (False, limited), st\<lparr>xs_world := x, gs_acc := add_skipped reason acc\<rparr>)"
proof -
  obtain now_utc x1 where utc: "ge_utc_now ge (xs_world st) = (now_utc, x1)" by (cases "ge_utc_now ge (xs_world st)")
  obtain now_instant x2 where inst: "ge_instant_now ge x1 = (now_instant, x2)" by (cases "ge_instant_now ge x1")
  let ?label = "integration_label_for_asset (sa_asset_id (gs_address st))"
  note count = assms(1) [unfolded stored_count_of_def]
  have blocked: "is_rate_limited (ge_user_id ge) ?label now_instant (gs_limiter (st\<lparr>xs_world := x2\<rparr>)) = (True, gs_limiter st)"
    using assms(2) utc inst by (auto simp: is_rate_limited_def blocked_def split: option.splits)
  have same: "st\<lparr>xs_world := x, gs_limiter := gs_limiter st, gs_acc := acc\<rparr> = st\<lparr>xs_world := x, gs_acc := acc\<rparr>" for x acc
    by simp
  show ?thesis
    unfolding sync_single_address_with_controls_def Let_def count utc inst sum.case prod.case blocked
    by (auto simp: skip_address_def same)
qed


lemma backoff_at_least_minute: "60 * SECOND \<le> rate_limit_backoff_for_scope hash scope hits retry_after"
proof (cases "snd scope = LABEL_ETHERSCAN")
  case True
  then show ?thesis using backoff_bounds(2) [where scope = scope and hits = hits and retry_after = retry_after and hash = hash]
    by (simp add: SECOND_def MILLISECOND_def)
next
  case False
  have "(1 :: int) \<le> 2 ^ min (unat hits - 1) 6" by (rule one_le_power) simp
  then have "(60000000000 :: int) \<le> min (60000000000 * 2 ^ min (unat hits - 1) 6) 300000000000"
    by (intro min.boundedI) linarith+
  also have "\<dots> \<le> rate_limit_backoff_for_scope hash scope hits retry_after"
    using backoff_bounds(1) [where hits = hits and retry_after = retry_after and hash = hash, OF False] by (rule conjunct1)
  finally show ?thesis by (simp add: SECOND_def MILLISECOND_def)
qed

lemma recorded_limit_blocks:
  assumes "t < now + max (60 * SECOND) (case retry_after of None \<Rightarrow> 0 | Some d \<Rightarrow> d)"
  shows "blocked (record_rate_limit hash u i now retry_after limiter) (u, i) t"
proof -
  let ?hits = "case map_of limiter (u, i) of
         None \<Rightarrow> 1 | Some previous \<Rightarrow> if now < blocked_until previous then saturating_add_u (consecutive_hits previous) 1 else 1"
  let ?b = "rate_limit_backoff_for_scope hash (u, i) ?hits retry_after"
  have step: "map_of (record_rate_limit hash u i now retry_after limiter) =
      (map_of limiter)((u, i) \<mapsto> \<lparr>blocked_until = now + ?b, consecutive_hits = ?hits\<rparr>)"
    by (simp add: record_rate_limit_def Let_def update_conv')
  have "60 * SECOND \<le> ?b" by (rule backoff_at_least_minute)
  moreover have "(case retry_after of None \<Rightarrow> 0 | Some d \<Rightarrow> d) \<le> max 0 ?b"
    using backoff_bounds(3) [where scope = "(u, i)" and hits = ?hits and retry_after = retry_after and hash = hash]
    by (cases retry_after) auto
  moreover have "0 \<le> 60 * SECOND" by (simp add: SECOND_def MILLISECOND_def)
  ultimately have "max (60 * SECOND) (case retry_after of None \<Rightarrow> 0 | Some d \<Rightarrow> d) \<le> ?b"
    by (simp add: max.bounded_iff)
  with assms have "t < now + ?b" by linarith
  then show ?thesis by (simp add: blocked_def step)
qed

text \<open>The course of an attempt once its start is stored.\<close>

lemma attempt_course:
  assumes "attempt_address_sync ge policy request st = Some (Inr out, st')"
  obtains started executed ex result db' where
    "ge_execute ge request started = (executed, ex)"
    "mark_address_sync_started (ge_env ge) (sa_address_id (gs_address st)) (ge_run_id ge) (ge_started_at ge) (xs_db st) = Inr (xs_db started)"
    "started = exec_state ((apply_inter_address_sync_delay ge (default_sync_provider (sa_asset_id (gs_address st))) st)\<lparr>xs_db := xs_db started\<rparr>)"
    "complete_success ge (sa_address_id (gs_address st)) (xs_db ex) executed = (result, db')"
    "record_outcome ge policy result (invalidated_state ge result
       ((apply_inter_address_sync_delay ge (default_sync_provider (sa_asset_id (gs_address st))) st)
         \<lparr>gs_processed_for_account := saturating_add_u (gs_processed_for_account st) 1, xs_db := db', xs_tips := xs_tips ex,
          xs_chain_state := xs_chain_state ex, xs_world := xs_world ex\<rparr>)) = Some (out, st')"
proof -
  let ?address = "gs_address st"
  let ?st1 = "apply_inter_address_sync_delay ge (default_sync_provider (sa_asset_id ?address)) st"
  have kept: "xs_db ?st1 = xs_db st" "gs_processed_for_account ?st1 = gs_processed_for_account st"
    by (simp_all add: apply_inter_address_sync_delay_def)
  let ?st = "?st1\<lparr>gs_processed_for_account := saturating_add_u (gs_processed_for_account st) 1\<rparr>"
  obtain db1 where start: "mark_address_sync_started (ge_env ge) (sa_address_id ?address) (ge_run_id ge) (ge_started_at ge) (xs_db st) = Inr db1"
    using assms kept by (auto simp: attempt_address_sync_def Let_def split: sum.splits)
  obtain executed ex where run: "ge_execute ge request (exec_state (?st\<lparr>xs_db := db1\<rparr>)) = (executed, ex)"
    by (cases "ge_execute ge request (exec_state (?st\<lparr>xs_db := db1\<rparr>))")
  obtain result db' where finish: "complete_success ge (sa_address_id ?address) (xs_db ex) executed = (result, db')"
    by (cases "complete_success ge (sa_address_id ?address) (xs_db ex) executed")
  have "record_outcome ge policy result (invalidated_state ge result
       (?st\<lparr>xs_db := db', xs_tips := xs_tips ex, xs_chain_state := xs_chain_state ex, xs_world := xs_world ex\<rparr>)) = Some (out, st')"
    using assms start run finish kept by (auto simp: attempt_address_sync_def Let_def intro!: attempt_recorded)
  with start run finish show thesis by (intro that [of "exec_state (?st\<lparr>xs_db := db1\<rparr>)" executed ex result db']) (simp_all add: exec_state_def)
qed

lemma delay_keeps [simp]:
  "gs_limiter (apply_inter_address_sync_delay ge provider st) = gs_limiter st"
  "gs_address (apply_inter_address_sync_delay ge provider st) = gs_address st"
  "xs_db (apply_inter_address_sync_delay ge provider st) = xs_db st"
  "acc_addresses_failed (gs_acc (apply_inter_address_sync_delay ge provider st)) = acc_addresses_failed (gs_acc st)"
  by (simp_all add: apply_inter_address_sync_delay_def)

text \<open>
  C21. Rate limits reach the whole run. When a provider answers an attempt with a rate limit (no earlier than \<open>t0\<close>), the attempt
  is not counted as a failure, and until a minute and the time the provider asked for have passed no address of that provider
  is synced for the user: every further attempt, whatever its policy and trigger, only counts a skipped address.
\<close>

theorem rate_limit_stops_contact:
  assumes "attempt_address_sync ge policy request st = Some (Inr out, st')"
    and "\<forall>ex. fst (ge_execute ge request ex) = Inl (RateLimited (integration_label_for_asset asset) retry_after message)"
    and "\<forall>ex. t0 \<le> fst (ge_instant_now ge (xs_world (snd (ge_execute ge request ex))))"
    and "ge_user_id ge2 = ge_user_id ge" and "gs_limiter st2 = gs_limiter st'" and "sa_asset_id (gs_address st2) = asset"
    and "stored_count_of st2 policy2 = Inr n"
    and "fst (ge_instant_now ge2 (snd (ge_utc_now ge2 (xs_world st2)))) <
      t0 + max (60 * SECOND) (case retry_after of None \<Rightarrow> 0 | Some d \<Rightarrow> d)"
  shows "out = (False, True) \<and> acc_addresses_failed (gs_acc st') = acc_addresses_failed (gs_acc st) \<and>
    (\<exists>reason limited x acc. sync_single_address_with_controls ge2 policy2 pending frontier st2 =
       Some (Inr (False, limited), st2\<lparr>xs_world := x, gs_acc := add_skipped reason acc\<rparr>))"
proof -
  let ?i = "integration_label_for_asset asset"
  from assms(1) obtain started executed ex result db' where run: "ge_execute ge request started = (executed, ex)"
    and finish: "complete_success ge (sa_address_id (gs_address st)) (xs_db ex) executed = (result, db')"
    and rec: "record_outcome ge policy result (invalidated_state ge result
       ((apply_inter_address_sync_delay ge (default_sync_provider (sa_asset_id (gs_address st))) st)
         \<lparr>gs_processed_for_account := saturating_add_u (gs_processed_for_account st) 1, xs_db := db', xs_tips := xs_tips ex,
          xs_chain_state := xs_chain_state ex, xs_world := xs_world ex\<rparr>)) = Some (out, st')"
    by (rule attempt_course)
  have "executed = Inl (RateLimited ?i retry_after message)" using assms(2) [rule_format, of started] run by simp
  with finish have result: "result = Inl (RateLimited ?i retry_after message)" by (simp add: complete_success_def)
  obtain limited_at x where inst: "ge_instant_now ge (xs_world ex) = (limited_at, x)" by (cases "ge_instant_now ge (xs_world ex)")
  from rec [unfolded result] inst
  have out: "out = (False, True)" and lim: "gs_limiter st' = record_rate_limit (ge_hash ge) (ge_user_id ge) ?i limited_at retry_after (gs_limiter st)"
    and failed: "acc_addresses_failed (gs_acc st') = acc_addresses_failed (gs_acc st)"
    by (auto simp: record_outcome_def invalidated_state_def mark_invalidated_def record_rate_limited_def record_failure_def add_skipped_def
        add_rate_limited_def split: prod.splits)
  let ?now2 = "fst (ge_instant_now ge2 (snd (ge_utc_now ge2 (xs_world st2))))"
  have "t0 \<le> limited_at" using assms(3) [rule_format, of started] run inst by simp
  with assms(8) have before: "?now2 < limited_at + max (60 * SECOND) (case retry_after of None \<Rightarrow> 0 | Some d \<Rightarrow> d)" by linarith
  have "\<exists>reason limited x acc. sync_single_address_with_controls ge2 policy2 pending frontier st2 =
         Some (Inr (False, limited), st2\<lparr>xs_world := x, gs_acc := add_skipped reason acc\<rparr>)"
    using recorded_limit_blocks [OF before, of "ge_hash ge" "ge_user_id ge" ?i "gs_limiter st"] assms(4-7) lim
    by (intro blocked_integration_held_back) simp_all
  with out failed show ?thesis by blast
qed


subsection \<open>What is stored agrees with what is reported\<close>

lemma invalidation_failures [simp]:
  "stored_failures (fst (invalidate_mempool_history_coverage_tx targets now db)) a = stored_failures db a"
proof -
  let ?g = "\<lambda>r. if tss_scope r = ADDRESS_SYNC_SCOPE \<and> tss_address_id r \<in> target_address_ids targets
    then unproved_row now r else r"
  have "is_address_row a (?g r) = is_address_row a r" "tss_consecutive_failure_count (?g r) = tss_consecutive_failure_count r" for r
    by (simp_all add: is_address_row_def unproved_row_def)
  then show ?thesis unfolding stored_failures_def invalidation_rows by (subst find_map_same) (auto split: option.splits)
qed

lemma invalidated_state_db:
  "stored_failures (xs_db (invalidated_state ge result st)) a = stored_failures (xs_db st) a"
  "digital_asset_addresses (xs_db (invalidated_state ge result st)) = digital_asset_addresses (xs_db st)"
  "gs_address (invalidated_state ge result st) = gs_address st"
  by (simp_all add: invalidated_state_def mark_invalidated_def invalidate_mempool_history_coverage_def invalidation_rows
      split: sum.splits option.splits prod.splits)

lemma failure_storable:
  assumes "a \<in> da_id ` set (digital_asset_addresses db)"
  shows "\<exists>db'. mark_address_sync_completed_failure env a run s t msg counts db = Inr db'"
proof (cases "List.find (is_address_row a) (transaction_sync_state db)")
  case None
  let ?up = "fst (update_address_row db a (failure_row env run s t msg counts))"
  have "snd (update_address_row db a (failure_row env run s t msg counts)) = 0" using None by (simp add: changed_rows)
  moreover have "a \<notin> tss_address_id ` {r \<in> set (transaction_sync_state ?up). tss_scope r = ADDRESS_SYNC_SCOPE}"
    using None by (auto simp: update_address_row_def update_sync_state_def is_address_row_def find_None_iff)
  moreover have "digital_asset_addresses ?up = digital_asset_addresses db" by (simp add: update_address_row_def update_sync_state_def)
  ultimately show ?thesis using assms
    by (auto simp: mark_address_sync_completed_failure_def case_prod_beta insert_address_sync_completion_def Let_def
        completion_from_failure_def split_optional_balance_def insert_sync_row_def new_sync_row_def)
next
  case (Some r)
  then have "snd (update_address_row db a (failure_row env run s t msg counts)) \<noteq> 0" by (simp add: changed_rows)
  then show ?thesis by (simp add: mark_address_sync_completed_failure_def case_prod_beta)
qed

lemma started_addresses:
  "mark_address_sync_started env a run t db = Inr db' \<Longrightarrow> digital_asset_addresses db' = digital_asset_addresses db"
  by (auto simp: mark_address_sync_started_def insert_sync_row_def update_address_row_def update_sync_state_def Let_def
      split: if_splits)

lemma completed_success:
  assumes "complete_success ge a db executed = (Inr summary, db')"
  shows "executed = Inr summary" and "stored_failures db' a = 0"
proof -
  from assms show "executed = Inr summary" by (auto simp: complete_success_def split: sum.splits)
  with assms obtain success where a: "ss_address_id success = a"
    and stored: "mark_address_sync_completed_success (ge_env ge) success db = Inr db'"
    unfolding complete_success_def by (auto split: sum.splits intro!: that)
  from failures_succeeded [OF stored, of a] a show "stored_failures db' a = 0" by simp
qed

lemma record_failure_effect:
  assumes "record_failure ge err st = Some st'" and "sa_address_id (gs_address st) \<in> da_id ` set (digital_asset_addresses (xs_db st))"
  shows "stored_failures (xs_db st') (sa_address_id (gs_address st)) =
      stored_failures (xs_db st) (sa_address_id (gs_address st)) + (if counts_as_address_failure err then 1 else 0) \<and>
    sa_last_result (gs_address st') = Some SyncFailure"
proof -
  let ?a = "sa_address_id (gs_address st)"
  from assms(1) obtain completed x' db' where mark: "mark_sync_failure ge ?a err completed (xs_db st) = Some db'"
    and st': "st' = st\<lparr>xs_db := db', xs_world := x',
        gs_address := (gs_address st)\<lparr>sa_last_completed_at := Some completed, sa_last_result := Some SyncFailure\<rparr>\<rparr>"
    by (auto simp: record_failure_def split: prod.splits)
  from mark obtain msg where db': "db' = (case mark_address_sync_completed_failure (ge_env ge) ?a (ge_run_id ge) (ge_started_at ge)
      completed msg (counts_as_address_failure err) (xs_db st) of Inl _ \<Rightarrow> xs_db st | Inr db2 \<Rightarrow> db2)"
    by (auto simp: mark_sync_failure_def)
  from failure_storable [OF assms(2)] obtain db2 where stored:
    "mark_address_sync_completed_failure (ge_env ge) ?a (ge_run_id ge) (ge_started_at ge) completed msg
      (counts_as_address_failure err) (xs_db st) = Inr db2" by blast
  with failures_failed [OF stored, of ?a] st' db' show ?thesis by simp
qed

lemma record_outcome_error:
  assumes "record_outcome ge policy (Inl err) st = Some ((active, failed), st')"
    and "sa_address_id (gs_address st) \<in> da_id ` set (digital_asset_addresses (xs_db st))"
  shows "\<not> active \<and> failed \<and> sa_last_result (gs_address st') = Some SyncFailure \<and>
    stored_failures (xs_db st') (sa_address_id (gs_address st)) =
      stored_failures (xs_db st) (sa_address_id (gs_address st)) + (if counts_as_address_failure err then 1 else 0)"
proof (cases "\<exists>i r m. err = RateLimited i r m")
  case True
  then obtain i r m where err: "err = RateLimited i r m" by blast
  from assms(1) obtain x l c where "record_failure ge err (st\<lparr>xs_world := x, gs_limiter := l, gs_acc := c\<rparr>) = Some st'"
    and out: "\<not> active" "failed"
    unfolding err by (auto simp: record_outcome_def record_rate_limited_def split: prod.splits)
  from record_failure_effect [OF this(1)] assms(2) out show ?thesis by simp
next
  case False
  from assms(1) obtain acc' where "record_failure ge err (st\<lparr>gs_acc := acc'\<rparr>) = Some st'" and out: "\<not> active" "failed"
    unfolding record_outcome_plain [OF False] by (auto split: option.splits)
  from record_failure_effect [OF this(1)] assms(2) out show ?thesis by simp
qed

text \<open>
  C20. An attempt at an address that the executor does not delete stores what it reports. Starting it keeps the stored number of failures in a row. If the executor
  succeeds and its success can be stored, the number is zero, the address in memory carries the success with its time and tip and the
  attempt is reported as not failed; if it fails, the number grows by one exactly for errors that are the address's own
  (a request, a status, an answer that cannot be read: neither a rate limit nor the configuration or the database), and
  the address in memory carries the failure.
\<close>

theorem attempt_stores_what_it_reports:
  assumes "attempt_address_sync ge policy request st = Some (Inr (active, failed), st')"
    and "a = sa_address_id (gs_address st)"
    and "a \<in> da_id ` set (digital_asset_addresses (xs_db st))"
    and "\<forall>ex. a \<in> da_id ` set (digital_asset_addresses (xs_db ex)) \<longrightarrow>
           a \<in> da_id ` set (digital_asset_addresses (xs_db (snd (ge_execute ge request ex))))"
  shows "\<exists>db1. mark_address_sync_started (ge_env ge) a (ge_run_id ge) (ge_started_at ge) (xs_db st) = Inr db1 \<and>
    stored_failures db1 a = stored_failures (xs_db st) a \<and>
    (case ge_execute ge request (exec_state
        ((apply_inter_address_sync_delay ge (default_sync_provider (sa_asset_id (gs_address st))) st)\<lparr>xs_db := db1\<rparr>)) of
       (Inl err, ex) \<Rightarrow> failed \<and> \<not> active \<and>
         stored_failures (xs_db st') a = stored_failures (xs_db ex) a + (if counts_as_address_failure err then 1 else 0) \<and>
         sa_last_result (gs_address st') = Some SyncFailure
     | (Inr summary, ex) \<Rightarrow>
         if failed then \<not> active \<and> stored_failures (xs_db st') a = stored_failures (xs_db ex) a \<and>
           sa_last_result (gs_address st') = Some SyncFailure
         else active = summary_has_activity summary \<and> stored_failures (xs_db st') a = 0 \<and>
           sa_last_result (gs_address st') = Some SyncSuccess \<and>
           sa_last_completed_at (gs_address st') = Some (ir_completed_at summary) \<and>
           sa_last_tip_height (gs_address st') = Some (ir_tip_height summary))"
proof -
  from assms(1) obtain started executed ex result db' where run: "ge_execute ge request started = (executed, ex)"
    and start: "mark_address_sync_started (ge_env ge) (sa_address_id (gs_address st)) (ge_run_id ge) (ge_started_at ge) (xs_db st) = Inr (xs_db started)"
    and pinned: "started = exec_state ((apply_inter_address_sync_delay ge (default_sync_provider (sa_asset_id (gs_address st))) st)\<lparr>xs_db := xs_db started\<rparr>)"
    and finish: "complete_success ge (sa_address_id (gs_address st)) (xs_db ex) executed = (result, db')"
    and rec: "record_outcome ge policy result (invalidated_state ge result
       ((apply_inter_address_sync_delay ge (default_sync_provider (sa_asset_id (gs_address st))) st)
         \<lparr>gs_processed_for_account := saturating_add_u (gs_processed_for_account st) 1, xs_db := db', xs_tips := xs_tips ex,
          xs_chain_state := xs_chain_state ex, xs_world := xs_world ex\<rparr>)) = Some ((active, failed), st')"
    by (rule attempt_course)
  let ?st = "(apply_inter_address_sync_delay ge (default_sync_provider (sa_asset_id (gs_address st))) st)
         \<lparr>gs_processed_for_account := saturating_add_u (gs_processed_for_account st) 1, xs_db := db', xs_tips := xs_tips ex,
          xs_chain_state := xs_chain_state ex, xs_world := xs_world ex\<rparr>"
  from started_addresses [OF start] assms(3) have "a \<in> da_id ` set (digital_asset_addresses (xs_db started))" by simp
  with assms(4) [rule_format, of started] have known: "a \<in> da_id ` set (digital_asset_addresses (xs_db ex))" by (simp add: run)
  have error: "\<not> active \<and> failed \<and> sa_last_result (gs_address st') = Some SyncFailure \<and>
      stored_failures (xs_db st') a = stored_failures (xs_db ex) a + (if counts_as_address_failure err then 1 else 0)"
    if "result = Inl err" "db' = xs_db ex" for err
    using record_outcome_error [OF rec [unfolded that(1)]] known that(2) assms(2) by (simp add: invalidated_state_db)
  have "case executed of
       Inl err \<Rightarrow> failed \<and> \<not> active \<and>
         stored_failures (xs_db st') a = stored_failures (xs_db ex) a + (if counts_as_address_failure err then 1 else 0) \<and>
         sa_last_result (gs_address st') = Some SyncFailure
     | Inr summary \<Rightarrow>
         if failed then \<not> active \<and> stored_failures (xs_db st') a = stored_failures (xs_db ex) a \<and>
           sa_last_result (gs_address st') = Some SyncFailure
         else active = summary_has_activity summary \<and> stored_failures (xs_db st') a = 0 \<and>
           sa_last_result (gs_address st') = Some SyncSuccess \<and>
           sa_last_completed_at (gs_address st') = Some (ir_completed_at summary) \<and>
           sa_last_tip_height (gs_address st') = Some (ir_tip_height summary)"
  proof (cases executed)
    case (Inl err)
    with finish have "result = Inl err" "db' = xs_db ex" by (simp_all add: complete_success_def)
    from error [OF this] Inl show ?thesis by simp
  next
    case (Inr summary)
    show ?thesis
    proof (cases result)
      case (Inl err)
      with finish Inr obtain e where "err = preserve_iteration_error (Db e) summary" "db' = xs_db ex"
        by (auto simp: complete_success_def split: sum.splits)
      moreover have "\<not> counts_as_address_failure (preserve_iteration_error (Db e) summary)"
        by (simp add: preserve_iteration_error_def)
      ultimately show ?thesis using error [OF Inl] Inr by simp
    next
      case ok: (Inr summary')
      with finish have "executed = Inr summary'" "stored_failures db' a = 0"
        using completed_success [of ge a "xs_db ex" executed summary' db'] assms(2) by simp_all
      with rec ok show ?thesis
        by (auto simp: record_outcome_def invalidated_state_def record_success_def Let_def)
    qed
  qed
  moreover have "ge_execute ge request (exec_state ((apply_inter_address_sync_delay ge
      (default_sync_provider (sa_asset_id (gs_address st))) st)\<lparr>xs_db := xs_db started\<rparr>)) = (executed, ex)"
    unfolding pinned [symmetric] by (rule run)
  ultimately show ?thesis using failures_started [OF start, of a] start assms(2) by (auto split: sum.splits)
qed

subsection \<open>The tip of the chain is requested once\<close>

lemma tip_key_inject: "chain_tip_cache_key a n = chain_tip_cache_key b m \<longleftrightarrow> a = b \<and> n = m"
  by (cases a; cases b; cases n; cases m) (simp_all add: chain_tip_cache_key_def)


lemma get_or_fetch_cases:
  assumes "get_or_fetch env rows a n now now_utc fetch tips x = (r, tips', x')"
  obtains (reused) cached where "tips (chain_tip_cache_key a n) = Some cached"
      "a = Bitcoin \<or> duration_since now (ct_fetched_at cached) \<le> chain_tip_cache_ttl_for a"
      "r = Inr (ct_height cached)" "tips' = tips" "x' = x"
  | (stored) h where "a \<noteq> Bitcoin" "r = Inr h" "tips' = tips(chain_tip_cache_key a n \<mapsto> \<lparr>ct_height = h, ct_fetched_at = now\<rparr>)" "x' = x"
  | (unreadable) e where "r = Inl (Db e)" "tips' = tips" "x' = x" "a \<noteq> Bitcoin"
  | (fetched) h where "fetch x = (Inr h, x')" "r = Inr h" "tips' = tips(chain_tip_cache_key a n \<mapsto> \<lparr>ct_height = h, ct_fetched_at = now\<rparr>)"
      "tips (chain_tip_cache_key a n) = None \<or> a \<noteq> Bitcoin"
  | (failed) e where "fetch x = (Inl e, x')" "r = Inl e" "tips' = tips" "tips (chain_tip_cache_key a n) = None \<or> a \<noteq> Bitcoin"
  using assms unfolding get_or_fetch_def Let_def should_reuse_persisted_tip_def
  by (auto split: option.splits if_splits sum.splits prod.splits)

inductive tip_step :: "Env \<Rightarrow> ChainTipCache \<times> 'x \<Rightarrow> ChainTipCache \<times> 'x \<Rightarrow> bool" for env where
  "get_or_fetch env rows a n now now_utc fetch tips x = (r, tips', x') \<Longrightarrow> tip_step env (tips, x) (tips', x')"

definition tip_settled :: "Network \<Rightarrow> int \<Rightarrow> ChainTipCache \<times> 'x \<Rightarrow> bool" where
  "tip_settled network h s \<longleftrightarrow> (\<exists>t. fst s (chain_tip_cache_key Bitcoin network) = Some \<lparr>ct_height = h, ct_fetched_at = t\<rparr>)"

interpretation tip_run: state_machine "tip_settled network h" "tip_step env" "tip_settled network h" for network h and env :: Env
proof
  fix s t :: "ChainTipCache \<times> 'x"
  assume "tip_settled network h s" and "tip_step env s t"
  from this(2,1) show "tip_settled network h t"
  proof cases
    case 1
    from 1(3) show ?thesis
      by (cases rule: get_or_fetch_cases) (use \<open>tip_settled network h s\<close> 1(1,2) in \<open>auto simp: tip_settled_def tip_key_inject\<close>)
  qed
qed

text \<open>
  Within a run the height of a Bitcoin chain is settled by the first answer: once a request for it has succeeded, every
  later question of the run, at whatever time and with questions about other chains in between, gets the same height and
  makes no request.
\<close>

theorem bitcoin_tip_requested_once:
  assumes "get_or_fetch env rows Bitcoin network now now_utc fetch tips x = (Inr h, tips1, x1)"
    and "(tip_step env)\<^sup>*\<^sup>* (tips1, x1) (tips2, x2)"
  shows "get_or_fetch env rows2 Bitcoin network now2 now_utc2 fetch2 tips2 x2 = (Inr h, tips2, x2)"
proof -
  from assms(1) have "tip_settled network h (tips1, x1)"
    by (cases rule: get_or_fetch_cases) (auto simp: tip_settled_def, metis CachedChainTip.surjective old.unit.exhaust)
  from tip_run.reachable_inv [OF this assms(2)] show ?thesis by (auto simp: tip_settled_def get_or_fetch_def Let_def)
qed


subsection \<open>Witnesses\<close>

lemma str_trim_start_length: "length (str_trim_start s) \<le> length s"
proof (induction s rule: str_trim_start.induct)
  case (1 s)
  show ?case
  proof (cases "strip_any utf8_whitespace s")
    case (Some t)
    with 1 strip_any_shorter [OF utf8_whitespace_nonempty Some] show ?thesis by (subst str_trim_start.simps) simp
  qed (subst str_trim_start.simps, simp)
qed

lemma str_trim_rev_length: "length (str_trim_rev s) \<le> length s"
proof (induction s rule: str_trim_rev.induct)
  case (1 s)
  show ?case
  proof (cases "strip_any (map rev utf8_whitespace) s")
    case (Some t)
    with 1 strip_any_shorter [OF rev_utf8_whitespace_nonempty Some] show ?thesis by (subst str_trim_rev.simps) simp
  qed (subst str_trim_rev.simps, simp)
qed

lemma sanitize_short: "length raw \<le> 512 \<Longrightarrow> \<exists>message. sync_error_sanitize raw = Some message"
  using str_trim_start_length [of raw] str_trim_rev_length [of "rev (str_trim_start raw)"]
  by (auto simp: sync_error_sanitize_def str_trim_def Let_def)

definition sample_ge :: "UserTransactionMonitorError + SyncIterationResult \<Rightarrow> int GateEnv" where
  "sample_ge answer =
     \<lparr>ge_env = sample_env, ge_hash = (\<lambda>_. 0), ge_user_id = ''u'', ge_run_id = ''r'', ge_source = Schedule, ge_started_at = 0,
      ge_utc_now = (\<lambda>x. (x, x)), ge_instant_now = (\<lambda>x. (10, x)), ge_wall_clock = (\<lambda>x. (x, x)), ge_invalidation_error = (\<lambda>x. None), ge_sleep = (\<lambda>d x. x + d),
      ge_fetch_tip = Some (\<lambda>x. (Inr 100, x)), ge_execute = (\<lambda>request ex. (answer, ex))\<rparr>"

definition sample_gate_state :: "SyncAddress \<Rightarrow> int GateState" where
  "sample_gate_state address =
     \<lparr>xs_db = sync_sample_db, xs_tips = Map.empty, xs_chain_state = [], xs_world = 10, gs_limiter = [],
      gs_acc = accumulator_new 1, gs_processed_for_account = 0, gs_address = address\<rparr>"

definition sample_failed_address :: SyncAddress where
  "sample_failed_address = (sample_address ''d1'' 0)\<lparr>sa_last_completed_at := Some 5, sa_last_result := Some SyncFailure\<rparr>"

definition sample_request :: AddressSyncExecutionRequest where
  "sample_request =
     \<lparr>er_now_utc = 10, er_now_instant = 10, er_address = sample_address ''d1'' 0, er_allow_known_confirmed_early_exit = True,
      er_transaction_page_permitted = False, er_legacy_mempool_history_repair = False, er_mempool_history_page_frontier = None\<rparr>"

lemma sample_failed_account: "sa_account_id sample_failed_address = Some ''acc''"
  by (simp add: sample_failed_address_def sample_address_def)

lemma sample_stored_count: "sa_account_id address = Some ''acc'' \<Longrightarrow> stored_count_of (sample_gate_state address) CurrentOnly = Inr 0"
  by (simp add: stored_count_of_def sample_gate_state_def load_account_transaction_count_for_fetch_policy_def)

theorem cooldown_leaves_provider_alone_witness:
  "\<exists>reason x. sync_single_address_with_controls (sample_ge (Inl MissingEtherscanApiKey)) CurrentOnly {} None
      (sample_gate_state sample_failed_address) =
    Some (Inr (False, False), (sample_gate_state sample_failed_address)\<lparr>xs_world := x,
      gs_acc := add_skipped reason (gs_acc (sample_gate_state sample_failed_address))\<rparr>)"
  by (rule cooldown_leaves_provider_alone [where t = 5 and now = 10 and r = SyncFailure and n = 0])
    (simp_all add: sample_stored_count sample_failed_address_def sample_address_def,
     simp_all add: sample_gate_state_def sample_ge_def SECOND_def MILLISECOND_def)

theorem run_counts_every_answer_witness:
  "\<exists>st. (gate_run_step (sample_ge (Inl MissingEtherscanApiKey)))\<^sup>*\<^sup>* (0, sample_gate_state sample_failed_address) (1, st) \<and>
     unat (acc_addresses_synced (gs_acc st)) + unat (acc_addresses_failed (gs_acc st)) + unat (acc_addresses_skipped (gs_acc st)) = 1"
proof -
  let ?st = "sample_gate_state sample_failed_address"
  let ?ge = "sample_ge (Inl MissingEtherscanApiKey)"
  have "is_on_cooldown (gs_address ?st) (fst (ge_utc_now ?ge (xs_world ?st))) (ge_source ?ge) (permits_transaction_page CurrentOnly 0)"
    by (rule cooldown_window [where t = 5 and r = SyncFailure and c = FAILED_ADDRESS_SYNC_COOLDOWN])
      (simp_all add: sample_gate_state_def sample_ge_def sample_failed_address_def sample_address_def
        FAILED_ADDRESS_SYNC_COOLDOWN_def SECOND_def MILLISECOND_def)
  from held_back [OF sample_stored_count [OF sample_failed_account] this, of "{}" None] obtain reason x where
    "sync_single_address_with_controls ?ge CurrentOnly {} None ?st = Some (Inr (False, False), skip_address reason (?st\<lparr>xs_world := x\<rparr>))"
    by auto
  then have "sync_single_address_with_controls ?ge CurrentOnly {} None (?st\<lparr>gs_address := sample_failed_address\<rparr>) =
      Some (Inr (False, False), skip_address reason (?st\<lparr>xs_world := x\<rparr>))"
    by (simp add: sample_gate_state_def)
  then have run: "(gate_run_step ?ge)\<^sup>*\<^sup>* (0, ?st) (1, skip_address reason (?st\<lparr>xs_world := x\<rparr>))"
    using gate_run_step.intros [where st = ?st and address = sample_failed_address and n = 0] by auto
  have acc: "gs_acc ?st = accumulator_new 1" by (simp add: sample_gate_state_def)
  from run_counts_every_answer [OF acc run] run show ?thesis by auto
qed

lemma sample_attempt:
  assumes "\<exists>message. sync_error_sanitize (monitor_error_display err) = Some message" and "coverage_invalidation err = None"
  shows "\<exists>st'. attempt_address_sync (sample_ge (Inl err)) CurrentOnly sample_request (sample_gate_state (sample_address ''d1'' 0)) =
    Some (Inr (False, True), st')"
proof -
  let ?st = "sample_gate_state (sample_address ''d1'' 0)"

  have start: "mark_address_sync_started sample_env ''d1'' ''r'' 0 sync_sample_db =
      Inr (sync_sample_db\<lparr>transaction_sync_state := [new_sync_row ''d1'' ''r'' ''t'' ''t'']\<rparr>)" by (rule sample_started)
  have outcome: "\<exists>st'. record_outcome (sample_ge (Inl err)) CurrentOnly (Inl err) st = Some ((False, True), st')" for st
  proof (cases "\<exists>i r m. err = RateLimited i r m")
    case True
    then show ?thesis using assms(1)
      by (auto simp: record_outcome_def record_rate_limited_def record_failure_def mark_sync_failure_def split: prod.splits)
  next
    case False
    then show ?thesis using assms(1) unfolding record_outcome_plain [OF False]
      by (auto simp: add_failed_def record_failure_def mark_sync_failure_def split: prod.splits)
  qed
  have "\<exists>st. attempt_address_sync (sample_ge (Inl err)) CurrentOnly sample_request ?st =
      map_option (\<lambda>(outcome, st'). (Inr outcome, st')) (record_outcome (sample_ge (Inl err)) CurrentOnly (Inl err) st)"
    using start assms(2)
    by (simp add: attempt_address_sync_def Let_def sample_gate_state_def sample_ge_def sample_address_def
        apply_inter_address_sync_delay_def accumulator_new_def complete_success_def invalidate_after_error_def exec_state_def) blast
  with outcome show ?thesis by fastforce
qed

theorem rate_limit_stops_contact_witness:
  "\<exists>st'. attempt_address_sync (sample_ge (Inl (RateLimited ''mempool'' None ''m''))) CurrentOnly sample_request
      (sample_gate_state (sample_address ''d1'' 0)) = Some (Inr (False, True), st') \<and>
    (\<exists>reason limited x acc. sync_single_address_with_controls (sample_ge (Inl MissingEtherscanApiKey)) CurrentOnly {} None
       ((sample_gate_state (sample_address ''d1'' 0))\<lparr>gs_limiter := gs_limiter st'\<rparr>) =
       Some (Inr (False, limited), (sample_gate_state (sample_address ''d1'' 0))\<lparr>gs_limiter := gs_limiter st',
         xs_world := x, gs_acc := add_skipped reason acc\<rparr>))"
proof -
  let ?err = "RateLimited ''mempool'' None ''m''"
  let ?st = "sample_gate_state (sample_address ''d1'' 0)"
  have "\<exists>message. sync_error_sanitize (monitor_error_display ?err) = Some message" by (rule sanitize_short) simp
  from sample_attempt [OF this] obtain st' where
    run: "attempt_address_sync (sample_ge (Inl ?err)) CurrentOnly sample_request ?st = Some (Inr (False, True), st')" by auto
  have label: "integration_label_for_asset Bitcoin = ''mempool''" by (simp add: integration_label_for_asset_def LABEL_MEMPOOL_def)
  have count: "stored_count_of (?st\<lparr>gs_limiter := gs_limiter st'\<rparr>) CurrentOnly = Inr 0"
    using sample_stored_count [of "sample_address ''d1'' 0"]
    by (simp add: stored_count_of_def sample_gate_state_def sample_address_def)
  from rate_limit_stops_contact [OF run, of Bitcoin None "''m''" 10 "sample_ge (Inl MissingEtherscanApiKey)"
      "?st\<lparr>gs_limiter := gs_limiter st'\<rparr>" CurrentOnly 0 "{}" None] run count label
  show ?thesis
    by (simp add: sample_ge_def sample_gate_state_def sample_address_def SECOND_def MILLISECOND_def)
qed

theorem attempt_stores_what_it_reports_witness:
  "\<exists>st'. attempt_address_sync (sample_ge (Inl (Http ''e''))) CurrentOnly sample_request
      (sample_gate_state (sample_address ''d1'' 0)) = Some (Inr (False, True), st') \<and>
    stored_failures (xs_db st') ''d1'' = 1"
proof -
  let ?st = "sample_gate_state (sample_address ''d1'' 0)"
  have "\<exists>message. sync_error_sanitize (monitor_error_display (Http ''e'')) = Some message" by (rule sanitize_short) simp
  from sample_attempt [OF this] obtain st' where
    run: "attempt_address_sync (sample_ge (Inl (Http ''e''))) CurrentOnly sample_request ?st = Some (Inr (False, True), st')" by auto
  have env: "ge_env (sample_ge answer) = sample_env" "ge_run_id (sample_ge answer) = ''r''" "ge_started_at (sample_ge answer) = 0"
    "ge_execute (sample_ge answer) request ex = (answer, ex)" for answer request ex by (simp_all add: sample_ge_def)
  have st: "xs_db ?st = sync_sample_db" "sa_address_id (gs_address ?st) = ''d1''"
    by (simp_all add: sample_gate_state_def sample_address_def)
  have "''d1'' \<in> da_id ` set (digital_asset_addresses sync_sample_db)" "stored_failures sync_sample_db ''d1'' = 0"
    by (simp_all add: sync_sample_db_def stored_failures_def)
  with attempt_stores_what_it_reports [OF run, of "''d1''"] env st sample_started have "stored_failures (xs_db st') ''d1'' = 1"
    by (auto simp: exec_state_def)
  with run show ?thesis by blast
qed

theorem bitcoin_tip_requested_once_witness:
  "get_or_fetch sample_env [] Bitcoin Mainnet 1000000000000000 0 (\<lambda>x. (Inl MissingEtherscanApiKey, x))
     (fst (snd (get_or_fetch sample_env [] Bitcoin Mainnet 1 0 (\<lambda>x. (Inr 100, x + 1)) Map.empty (0 :: int)))) (1 :: int) =
   (Inr 100, fst (snd (get_or_fetch sample_env [] Bitcoin Mainnet 1 0 (\<lambda>x. (Inr 100, x + 1)) Map.empty (0 :: int))), 1)"
proof -
  have first: "get_or_fetch sample_env [] Bitcoin Mainnet 1 0 (\<lambda>x. (Inr 100, x + 1)) Map.empty (0 :: int) =
      (Inr 100, [chain_tip_cache_key Bitcoin Mainnet \<mapsto> \<lparr>ct_height = 100, ct_fetched_at = 1\<rparr>], 1)"
    by (simp add: get_or_fetch_def should_reuse_persisted_tip_def Let_def)
  from bitcoin_tip_requested_once [OF this rtranclp.rtrancl_refl] show ?thesis by (simp add: first)
qed

end
