(* ===== verification/Reconcile.thy ===== *)
theory Reconcile
  imports Sync_State
begin

section \<open>Storing fetched transactions\<close>

text \<open>
  Reconciliation of fetched transactions with the stored ones, \<open>src/src/db/transaction_sync/reconciliation.rs\<close>, and the
  removal of transactions nothing refers to, \<open>src/src/db/chain_cleanup.rs\<close>. Each transaction is stored in one SQL
  transaction: an error leaves the database as it was. Only the inputs, outputs and transfers of addresses the user tracks are
  stored. A stored confirmed transaction that a provider contradicts invalidates the histories it belongs to. Keys are
  checked as SQLite checks them (\<open>CHECK\<close>, \<open>UNIQUE\<close>, \<open>FOREIGN KEY\<close>); the identifier of a new transaction row is an argument,
  those of the other rows are not read by anything and left out, as are the times of their changes.
\<close>

subsection \<open>Fetched transactions\<close>

record SyncTransactionInputRecord =
  si_input_index :: int
  si_prev_tx_hash :: TxHash
  si_prev_output_index :: int
  si_prev_address :: "TrackedAddress option"
  si_value_amount :: "int option"

record SyncTransactionOutputRecord =
  so_output_index :: int
  so_raw_address :: "TrackedAddress option"
  so_script_pubkey_hex :: string
  so_value_amount :: int

record SyncTransactionRecord =
  st_tx_hash :: TxHash
  st_status :: ChainTransactionStatus
  st_block_height :: "int option"
  st_block_hash :: "string option"
  st_block_time :: "time option"
  st_fee_amount :: "int option"
  st_inputs :: "SyncTransactionInputRecord list"
  st_outputs :: "SyncTransactionOutputRecord list"

record TransactionSyncReconcileSummary =
  rs_new_tx_count :: TransactionCount
  rs_updated_tx_count :: TransactionCount
  rs_coverage_invalidation :: CoverageInvalidationTargets

definition no_targets :: CoverageInvalidationTargets where
  "no_targets = \<lparr>target_address_ids = {}, target_account_ids = {}\<rparr>"

definition empty_summary :: TransactionSyncReconcileSummary where
  "empty_summary = \<lparr>rs_new_tx_count = 0, rs_updated_tx_count = 0, rs_coverage_invalidation = no_targets\<rparr>"

subsection \<open>What is stored of a transaction\<close>

record ExistingChainTransactionRow =
  ec_status :: ChainTransactionStatus
  ec_block_height :: "int option"
  ec_block_hash :: "string option"
  ec_block_time :: "string option"
  ec_fee_amount_lo :: "int option"
  ec_fee_amount_hi :: "int option"
  ec_nonce :: "int option"

record ExistingOwnedInputRow =
  ei_input_index :: int
  ei_prev_tx_hash :: string
  ei_prev_output_index :: int
  ei_address_id :: string
  ei_account_id :: string
  ei_value_amount_lo :: "int option"
  ei_value_amount_hi :: "int option"

record ExistingOwnedOutputRow =
  eo_output_index :: int
  eo_address_id :: string
  eo_account_id :: string
  eo_raw_address :: "string option"
  eo_script_pubkey_hex :: string
  eo_value_amount_lo :: int
  eo_value_amount_hi :: int

record ExistingTransactionSnapshot =
  es_chain :: ExistingChainTransactionRow
  es_inputs :: "ExistingOwnedInputRow list"
  es_outputs :: "ExistingOwnedOutputRow list"

definition owned_pairs :: "ExistingTransactionSnapshot \<Rightarrow> (string \<times> string) list" where
  "owned_pairs snapshot =
     map (\<lambda>i. (ei_address_id i, ei_account_id i)) (es_inputs snapshot) @
     map (\<lambda>out. (eo_address_id out, eo_account_id out)) (es_outputs snapshot)"

definition add_owned_targets ::
  "Env \<Rightarrow> ExistingTransactionSnapshot \<Rightarrow> CoverageInvalidationTargets \<Rightarrow> DbError + CoverageInvalidationTargets" where
  "add_owned_targets env snapshot targets0 =
     res_fold (\<lambda>targets (address_id, account_id).
       res_bind (parse_address_id env address_id) (\<lambda>a.
       res_bind (parse_account_id env account_id) (\<lambda>c.
       Inr \<lparr>target_address_ids = insert a (target_address_ids targets),
            target_account_ids = insert c (target_account_ids targets)\<rparr>)))
       targets0 (owned_pairs snapshot)"

definition is_chain_transaction :: "SyncedAssetId \<Rightarrow> Network \<Rightarrow> TxHash \<Rightarrow> ChainTransactionRow \<Rightarrow> bool" where
  "is_chain_transaction asset_id network tx_hash ct \<longleftrightarrow>
     ct_asset_id ct = asset_as_str asset_id \<and> ct_network ct = network_as_str network \<and> ct_tx_hash ct = tx_hash"

definition load_existing_chain_transaction_row ::
  "UserDb \<Rightarrow> SyncedAssetId \<Rightarrow> Network \<Rightarrow> TxHash \<Rightarrow> DbError + ExistingChainTransactionRow option" where
  "load_existing_chain_transaction_row db asset_id network tx_hash =
     (case List.find (is_chain_transaction asset_id network tx_hash) (chain_transactions db) of
        None \<Rightarrow> Inr None
      | Some ct \<Rightarrow>
          res_map (\<lambda>status. Some
            \<lparr>ec_status = status, ec_block_height = ct_block_height ct, ec_block_hash = ct_block_hash ct,
             ec_block_time = ct_block_time ct, ec_fee_amount_lo = ct_fee_amount_lo ct, ec_fee_amount_hi = ct_fee_amount_hi ct,
             ec_nonce = ct_nonce ct\<rparr>)
          (ok_or (DbError (''Invalid chain transaction status in DB: '' @ ct_status ct)) (status_from_db_value (ct_status ct))))"

definition resolve_chain_transaction_id :: "UserDb \<Rightarrow> SyncedAssetId \<Rightarrow> Network \<Rightarrow> TxHash \<Rightarrow> DbError + ulid" where
  "resolve_chain_transaction_id db asset_id network tx_hash =
     ok_or (DbError ''Failed to resolve chain transaction id: Query returned no rows'')
       (map_option ct_id (List.find (is_chain_transaction asset_id network tx_hash) (chain_transactions db)))"

text \<open>
  The join of an input or output with its address; a column \<open>account_id\<close> that is \<open>NULL\<close> cannot be read as a text.
\<close>

definition joined_accounts :: "string \<Rightarrow> UserDb \<Rightarrow> ulid \<Rightarrow> DbError + string list" where
  "joined_accounts what db address_id =
     res_mapM (\<lambda>da. ok_or (DbError (''Failed to read owned '' @ what @ '' snapshot: Invalid column type Null at index'')) (da_account_id da))
       (filter (\<lambda>da. da_id da = address_id) (digital_asset_addresses db))"

definition snapshot_inputs :: "UserDb \<Rightarrow> ulid \<Rightarrow> DbError + ExistingOwnedInputRow list" where
  "snapshot_inputs db chain_tx_id =
     res_map concat (res_mapM (\<lambda>ti.
       res_map (map (\<lambda>account_id.
         \<lparr>ei_input_index = ti_input_index ti, ei_prev_tx_hash = ti_prev_tx_hash ti, ei_prev_output_index = ti_prev_output_index ti,
          ei_address_id = ti_address_id ti, ei_account_id = account_id, ei_value_amount_lo = ti_value_amount_lo ti,
          ei_value_amount_hi = ti_value_amount_hi ti\<rparr>))
         (joined_accounts ''input'' db (ti_address_id ti)))
       (sort_key ti_input_index (filter (\<lambda>ti. ti_tx_id ti = chain_tx_id) (transaction_inputs db))))"

definition snapshot_outputs :: "UserDb \<Rightarrow> ulid \<Rightarrow> DbError + ExistingOwnedOutputRow list" where
  "snapshot_outputs db chain_tx_id =
     res_map concat (res_mapM (\<lambda>txo.
       res_map (map (\<lambda>account_id.
         \<lparr>eo_output_index = txo_output_index txo, eo_address_id = txo_address_id txo, eo_account_id = account_id,
          eo_raw_address = txo_raw_address txo, eo_script_pubkey_hex = txo_script_pubkey_hex txo,
          eo_value_amount_lo = txo_value_amount_lo txo, eo_value_amount_hi = txo_value_amount_hi txo\<rparr>))
         (joined_accounts ''output'' db (txo_address_id txo)))
       (sort_key txo_output_index (filter (\<lambda>txo. txo_tx_id txo = chain_tx_id) (transaction_outputs db))))"

definition load_existing_transaction_snapshot ::
  "UserDb \<Rightarrow> SyncedAssetId \<Rightarrow> Network \<Rightarrow> TxHash \<Rightarrow> DbError + ExistingTransactionSnapshot option" where
  "load_existing_transaction_snapshot db asset_id network tx_hash =
     res_bind (load_existing_chain_transaction_row db asset_id network tx_hash) (\<lambda>row.
       case row of
         None \<Rightarrow> Inr None
       | Some chain \<Rightarrow>
           res_bind (resolve_chain_transaction_id db asset_id network tx_hash) (\<lambda>chain_tx_id.
           res_bind (snapshot_inputs db chain_tx_id) (\<lambda>inputs.
           res_bind (snapshot_outputs db chain_tx_id) (\<lambda>outputs.
           Inr (Some \<lparr>es_chain = chain, es_inputs = inputs, es_outputs = outputs\<rparr>)))))"

definition contradicts :: "ExistingTransactionSnapshot \<Rightarrow> ExistingTransactionSnapshot option \<Rightarrow> bool" where
  "contradicts before after =
     (case after of
        None \<Rightarrow> True
      | Some a \<Rightarrow>
          ec_status (es_chain a) \<noteq> Confirmed \<or> ec_block_height (es_chain a) = None \<or>
          ec_block_height (es_chain before) \<noteq> ec_block_height (es_chain a) \<or>
          ec_block_hash (es_chain before) \<noteq> ec_block_hash (es_chain a) \<or>
          ec_block_time (es_chain before) \<noteq> ec_block_time (es_chain a) \<or>
          ec_fee_amount_lo (es_chain before) \<noteq> ec_fee_amount_lo (es_chain a) \<or>
          ec_fee_amount_hi (es_chain before) \<noteq> ec_fee_amount_hi (es_chain a) \<or>
          es_inputs before \<noteq> es_inputs a \<or> es_outputs before \<noteq> es_outputs a)"

definition coverage_invalidation_for_change ::
  "Env \<Rightarrow> ExistingTransactionSnapshot option \<Rightarrow> ExistingTransactionSnapshot option \<Rightarrow> DbError + CoverageInvalidationTargets" where
  "coverage_invalidation_for_change env before after =
     (case before of
        None \<Rightarrow> Inr no_targets
      | Some b \<Rightarrow>
          if ec_status (es_chain b) \<noteq> Confirmed \<or> \<not> contradicts b after then Inr no_targets
          else res_bind (add_owned_targets env b no_targets) (\<lambda>targets.
            case after of None \<Rightarrow> Inr targets | Some a \<Rightarrow> add_owned_targets env a targets))"

subsection \<open>Writing a transaction\<close>

definition constraint :: "string \<Rightarrow> bool \<Rightarrow> UserDb \<Rightarrow> DbError + UserDb" where
  "constraint prefix ok db = (if ok then Inr db else Inl (DbError (prefix @ ''constraint failed'')))"

text \<open>\<open>INSERT ... ON CONFLICT ... DO UPDATE\<close>: the rows with the key of the new one are changed, else it is added.\<close>

definition upsert_rows :: "('r \<Rightarrow> bool) \<Rightarrow> ('r \<Rightarrow> 'r) \<Rightarrow> 'r \<Rightarrow> 'r list \<Rightarrow> 'r list" where
  "upsert_rows P f r rows = (if list_ex P rows then map (\<lambda>q. if P q then f q else q) rows else rows @ [r])"

fun optional_nonneg :: "int option \<Rightarrow> bool" where
  "optional_nonneg None = True"
| "optional_nonneg (Some v) = (0 \<le> v)"

definition put_chain_transaction :: "string \<Rightarrow> ulid \<Rightarrow> ChainTransactionRow \<Rightarrow> UserDb \<Rightarrow> DbError + UserDb" where
  "put_chain_transaction prefix new_id r db =
     (let same = (\<lambda>q. ct_asset_id q = ct_asset_id r \<and> ct_network q = ct_network r \<and> ct_tx_hash q = ct_tx_hash r) in
      constraint prefix
        (optional_nonneg (ct_block_height r) \<and> optional_nonneg (ct_fee_amount_lo r) \<and> optional_nonneg (ct_fee_amount_hi r) \<and>
         optional_nonneg (ct_nonce r) \<and>
         (list_ex same (chain_transactions db) \<or> new_id \<notin> ct_id ` set (chain_transactions db)))
        (db\<lparr>chain_transactions := upsert_rows same (\<lambda>q. q\<lparr>ct_status := ct_status r, ct_block_height := ct_block_height r,
            ct_block_hash := ct_block_hash r, ct_block_time := ct_block_time r, ct_fee_amount_hi := ct_fee_amount_hi r,
            ct_fee_amount_lo := ct_fee_amount_lo r, ct_nonce := ct_nonce r, ct_updated_at := ct_updated_at r\<rparr>)
          (r\<lparr>ct_id := new_id\<rparr>) (chain_transactions db)\<rparr>))"

definition upsert_chain_transaction ::
  "Env \<Rightarrow> ulid \<Rightarrow> SyncedAssetId \<Rightarrow> Network \<Rightarrow> SyncTransactionRecord \<Rightarrow> string \<Rightarrow> UserDb \<Rightarrow> DbError + UserDb" where
  "upsert_chain_transaction env new_id asset_id network rc now_raw db =
     put_chain_transaction ''Failed to upsert chain transaction: '' new_id
       \<lparr>ct_id = new_id, ct_asset_id = asset_as_str asset_id, ct_network = network_as_str network, ct_tx_hash = st_tx_hash rc,
        ct_status = status_as_db_value (st_status rc), ct_block_height = st_block_height rc, ct_block_hash = st_block_hash rc,
        ct_block_time = map_option (env_to_rfc3339 env) (st_block_time rc), ct_nonce = None, ct_fee_amount_hi = Some 0,
        ct_fee_amount_lo = st_fee_amount rc, ct_created_at = now_raw, ct_updated_at = now_raw\<rparr> db"

definition split_i64_amount :: "int \<Rightarrow> string \<Rightarrow> DbError + AmountSplitParts" where
  "split_i64_amount v field_name =
     res_bind (map_err (\<lambda>err. DbError (''Invalid '' @ field_name @ '': '' @ amount_error_display err)) (try_from_i64 v))
       (\<lambda>amount. split_unsigned_amount amount field_name)"

definition split_optional_i64_amount :: "int option \<Rightarrow> string \<Rightarrow> DbError + int option \<times> int option" where
  "split_optional_i64_amount v field_name =
     (case v of
        None \<Rightarrow> Inr (None, None)
      | Some x \<Rightarrow> res_map (\<lambda>parts. (Some (split_hi parts), Some (split_lo parts))) (split_i64_amount x field_name))"

text \<open>Which tracked address a text belongs to, with the cache a transaction keeps of the answers.\<close>

type_synonym AddressCache = "string \<rightharpoonup> ulid option"

definition lookup_owned_address :: "Env \<Rightarrow> UserDb \<Rightarrow> TrackedAddress \<Rightarrow> DbError + ulid option" where
  "lookup_owned_address env db raw =
     (case List.find (\<lambda>da. da_address da = raw) (digital_asset_addresses db) of
        None \<Rightarrow> Inr None
      | Some da \<Rightarrow> res_map Some (parse_address_id env (da_id da)))"

definition resolve_owned_address_id ::
  "Env \<Rightarrow> UserDb \<Rightarrow> AddressCache \<Rightarrow> TrackedAddress option \<Rightarrow> DbError + ulid option \<times> AddressCache" where
  "resolve_owned_address_id env db cache raw_address =
     (case raw_address of
        None \<Rightarrow> Inr (None, cache)
      | Some raw \<Rightarrow>
          (case cache raw of
             Some cached \<Rightarrow> Inr (cached, cache)
           | None \<Rightarrow> res_map (\<lambda>parsed. (parsed, cache(raw \<mapsto> parsed))) (lookup_owned_address env db raw)))"

definition is_input :: "ulid \<Rightarrow> int \<Rightarrow> TransactionInputRow \<Rightarrow> bool" where
  "is_input chain_tx_id i r \<longleftrightarrow> ti_tx_id r = chain_tx_id \<and> ti_input_index r = i"

definition is_output :: "ulid \<Rightarrow> int \<Rightarrow> TransactionOutputRow \<Rightarrow> bool" where
  "is_output chain_tx_id i r \<longleftrightarrow> txo_tx_id r = chain_tx_id \<and> txo_output_index r = i"

definition upsert_transaction_input ::
  "Env \<Rightarrow> ulid \<Rightarrow> AddressCache \<times> UserDb \<Rightarrow> SyncTransactionInputRecord \<Rightarrow> DbError + AddressCache \<times> UserDb" where
  "upsert_transaction_input env chain_tx_id st input =
     (case st of (cache, db) \<Rightarrow>
        res_bind (resolve_owned_address_id env db cache (si_prev_address input)) (\<lambda>(address_id, cache').
          case address_id of
            None \<Rightarrow> Inr (cache', db\<lparr>transaction_inputs :=
              filter (\<lambda>r. \<not> is_input chain_tx_id (si_input_index input) r) (transaction_inputs db)\<rparr>)
          | Some a \<Rightarrow>
              res_bind (split_optional_i64_amount (si_value_amount input) ''value_amount'') (\<lambda>(hi, lo).
              let r = \<lparr>ti_tx_id = chain_tx_id, ti_input_index = si_input_index input, ti_prev_tx_hash = si_prev_tx_hash input,
                       ti_prev_output_index = si_prev_output_index input, ti_address_id = a, ti_value_amount_hi = hi,
                       ti_value_amount_lo = lo\<rparr>
              in res_map (Pair cache')
                (constraint ''Failed to upsert transaction input: ''
                  (0 \<le> si_input_index input \<and> 0 \<le> si_prev_output_index input \<and> a \<in> da_id ` set (digital_asset_addresses db))
                  (db\<lparr>transaction_inputs := upsert_rows (is_input chain_tx_id (si_input_index input)) (\<lambda>_. r) r
                    (transaction_inputs db)\<rparr>)))))"

definition upsert_transaction_inputs ::
  "Env \<Rightarrow> ulid \<Rightarrow> SyncTransactionInputRecord list \<Rightarrow> AddressCache \<times> UserDb \<Rightarrow> DbError + AddressCache \<times> UserDb" where
  "upsert_transaction_inputs env chain_tx_id inputs st =
     (case st of (cache, db) \<Rightarrow>
        res_fold (upsert_transaction_input env chain_tx_id)
          (cache, db\<lparr>transaction_inputs := filter (\<lambda>r. ti_tx_id r \<noteq> chain_tx_id \<or>
             ti_input_index r \<in> si_input_index ` set inputs) (transaction_inputs db)\<rparr>) inputs)"

definition upsert_transaction_output ::
  "Env \<Rightarrow> ulid \<Rightarrow> AddressCache \<times> UserDb \<Rightarrow> SyncTransactionOutputRecord \<Rightarrow> DbError + AddressCache \<times> UserDb" where
  "upsert_transaction_output env chain_tx_id st output =
     (case st of (cache, db) \<Rightarrow>
        res_bind (resolve_owned_address_id env db cache (so_raw_address output)) (\<lambda>(address_id, cache').
          case address_id of
            None \<Rightarrow> Inr (cache', db\<lparr>transaction_outputs :=
              filter (\<lambda>r. \<not> is_output chain_tx_id (so_output_index output) r) (transaction_outputs db)\<rparr>)
          | Some a \<Rightarrow>
              res_bind (split_i64_amount (so_value_amount output) ''value_amount'') (\<lambda>parts.
              let r = \<lparr>txo_tx_id = chain_tx_id, txo_output_index = so_output_index output, txo_address_id = a,
                       txo_raw_address = so_raw_address output, txo_script_pubkey_hex = so_script_pubkey_hex output,
                       txo_value_amount_hi = split_hi parts, txo_value_amount_lo = split_lo parts\<rparr>
              in res_map (Pair cache')
                (constraint ''Failed to upsert transaction output: ''
                  (0 \<le> so_output_index output \<and> a \<in> da_id ` set (digital_asset_addresses db))
                  (db\<lparr>transaction_outputs := upsert_rows (is_output chain_tx_id (so_output_index output)) (\<lambda>_. r) r
                    (transaction_outputs db)\<rparr>)))))"

definition upsert_transaction_outputs ::
  "Env \<Rightarrow> ulid \<Rightarrow> SyncTransactionOutputRecord list \<Rightarrow> AddressCache \<times> UserDb \<Rightarrow> DbError + AddressCache \<times> UserDb" where
  "upsert_transaction_outputs env chain_tx_id outputs st =
     (case st of (cache, db) \<Rightarrow>
        res_fold (upsert_transaction_output env chain_tx_id)
          (cache, db\<lparr>transaction_outputs := filter (\<lambda>r. txo_tx_id r \<noteq> chain_tx_id \<or>
             txo_output_index r \<in> so_output_index ` set outputs) (transaction_outputs db)\<rparr>) outputs)"

subsection \<open>Transactions nothing refers to\<close>

text \<open>
  The candidates are the transactions marked in this scope. Deleting a transaction deletes the ledger rows that refer to it
  (\<open>ON DELETE CASCADE\<close>); a transaction that is deleted has no inputs, outputs or transfers left.
\<close>

definition is_orphan :: "UserDb \<Rightarrow> ulid \<Rightarrow> bool" where
  "is_orphan db i \<longleftrightarrow>
     \<not> list_ex (\<lambda>r. ti_tx_id r = i) (transaction_inputs db) \<and> \<not> list_ex (\<lambda>r. txo_tx_id r = i) (transaction_outputs db) \<and>
     \<not> list_ex (\<lambda>r. at_chain_transaction_id r = i) (account_transfers db)"

record ChainCleanupStats =
  candidate_chain_tx_count :: nat
  deleted_unowned_transfers :: nat
  deleted_orphan_chain_transactions :: nat

definition execute_chain_cleanup_for_marked_candidates :: "ulid list \<Rightarrow> UserDb \<Rightarrow> ChainCleanupStats \<times> UserDb" where
  "execute_chain_cleanup_for_marked_candidates candidates db =
     (let unowned = (\<lambda>t. at_chain_transaction_id t \<in> set candidates \<and> at_from_address_id t = None \<and> at_to_address_id t = None);
          db1 = db\<lparr>account_transfers := filter (\<lambda>t. \<not> unowned t) (account_transfers db)\<rparr>;
          orphan = (\<lambda>i. i \<in> set candidates \<and> is_orphan db1 i)
      in (\<lparr>candidate_chain_tx_count = length (remdups candidates),
           deleted_unowned_transfers = length (filter unowned (account_transfers db)),
           deleted_orphan_chain_transactions = length (filter (\<lambda>ct. orphan (ct_id ct)) (chain_transactions db1))\<rparr>,
          db1\<lparr>chain_transactions := filter (\<lambda>ct. \<not> orphan (ct_id ct)) (chain_transactions db1),
              account_transaction_ledger := filter (\<lambda>r. \<not> (orphan (ld_chain_transaction_id r) \<and>
                ld_chain_transaction_id r \<in> ct_id ` set (chain_transactions db1))) (account_transaction_ledger db1)\<rparr>))"

subsection \<open>Unspent outputs\<close>

definition is_utxo :: "SyncedAssetId \<Rightarrow> Network \<Rightarrow> string \<Rightarrow> int \<Rightarrow> UtxoRow \<Rightarrow> bool" where
  "is_utxo asset_id network tx_hash i u \<longleftrightarrow>
     ut_asset_id u = asset_as_str asset_id \<and> ut_network u = network_as_str network \<and> ut_tx_hash u = tx_hash \<and> ut_output_index u = i"

definition update_utxos :: "(UtxoRow \<Rightarrow> bool) \<Rightarrow> (UtxoRow \<Rightarrow> UtxoRow) \<Rightarrow> UserDb \<Rightarrow> UserDb" where
  "update_utxos P f db = db\<lparr>utxos := map (\<lambda>u. if P u then f u else u) (utxos db)\<rparr>"

text \<open>A stored transaction that spends an output, in the order of the table of inputs.\<close>

definition spending_tx_hash :: "UserDb \<Rightarrow> SyncedAssetId \<Rightarrow> Network \<Rightarrow> TxHash \<Rightarrow> int \<Rightarrow> TxHash option" where
  "spending_tx_hash db asset_id network tx_hash output_index =
     (case [ct_tx_hash ct. ti \<leftarrow> transaction_inputs db, ti_prev_tx_hash ti = tx_hash \<and> ti_prev_output_index ti = output_index,
                           ct \<leftarrow> chain_transactions db, ct_id ct = ti_tx_id ti \<and> ct_asset_id ct = asset_as_str asset_id \<and>
                             ct_network ct = network_as_str network] of
        [] \<Rightarrow> None
      | h # _ \<Rightarrow> Some h)"

definition reconcile_utxo ::
  "Env \<Rightarrow> SyncedAssetId \<Rightarrow> Network \<Rightarrow> SyncTransactionRecord \<Rightarrow> string \<Rightarrow> AddressCache \<times> UserDb \<Rightarrow>
     SyncTransactionOutputRecord \<Rightarrow> DbError + AddressCache \<times> UserDb" where
  "reconcile_utxo env asset_id network rc now_raw st output =
     (case st of (cache, db) \<Rightarrow>
        res_bind (resolve_owned_address_id env db cache (so_raw_address output)) (\<lambda>(address_id, cache').
          case address_id of
            None \<Rightarrow> Inr (cache', db)
          | Some a \<Rightarrow>
              res_bind (split_i64_amount (so_value_amount output) ''value_amount'') (\<lambda>parts.
              let this = is_utxo asset_id network (st_tx_hash rc) (so_output_index output);
                  status = status_as_db_value (st_status rc);
                  r = \<lparr>ut_asset_id = asset_as_str asset_id, ut_network = network_as_str network, ut_tx_hash = st_tx_hash rc,
                       ut_output_index = so_output_index output, ut_address_id = a, ut_value_amount_hi = split_hi parts,
                       ut_value_amount_lo = split_lo parts, ut_status = status, ut_replaced_by_tx_hash = None,
                       ut_spent_by_tx_hash = None, ut_spent_at = None\<rparr>
              in res_bind (constraint ''Failed to upsert UTXO: ''
                   (0 \<le> so_output_index output \<and> st_status rc \<noteq> Failed \<and> a \<in> da_id ` set (digital_asset_addresses db))
                   (db\<lparr>utxos := upsert_rows this (\<lambda>u. u\<lparr>ut_address_id := a, ut_value_amount_hi := split_hi parts,
                      ut_value_amount_lo := split_lo parts, ut_status := status, ut_replaced_by_tx_hash := None\<rparr>) r (utxos db)\<rparr>)) (\<lambda>db1.
                 Inr (cache', case spending_tx_hash db1 asset_id network (st_tx_hash rc) (so_output_index output) of
                       None \<Rightarrow> db1
                     | Some spender \<Rightarrow> update_utxos (\<lambda>u. this u \<and> ut_spent_by_tx_hash u = None)
                         (\<lambda>u. u\<lparr>ut_spent_by_tx_hash := Some spender, ut_spent_at := Some now_raw\<rparr>) db1)))))"

definition spend_utxo :: "SyncedAssetId \<Rightarrow> Network \<Rightarrow> TxHash \<Rightarrow> string \<Rightarrow> SyncTransactionInputRecord \<Rightarrow> UserDb \<Rightarrow> UserDb" where
  "spend_utxo asset_id network tx_hash now_raw input db =
     update_utxos (is_utxo asset_id network (si_prev_tx_hash input) (si_prev_output_index input))
       (\<lambda>u. u\<lparr>ut_spent_by_tx_hash := Some tx_hash, ut_spent_at := Some now_raw\<rparr>) db"

definition reconcile_utxos_for_transaction ::
  "Env \<Rightarrow> SyncedAssetId \<Rightarrow> Network \<Rightarrow> SyncTransactionRecord \<Rightarrow> string \<Rightarrow> AddressCache \<times> UserDb \<Rightarrow> DbError + AddressCache \<times> UserDb" where
  "reconcile_utxos_for_transaction env asset_id network rc now_raw st =
     res_map (\<lambda>(cache, db).
       let db1 = fold (spend_utxo asset_id network (st_tx_hash rc) now_raw) (st_inputs rc) db
       in (cache, if st_status rc = Dropped
                  then update_utxos (\<lambda>u. ut_asset_id u = asset_as_str asset_id \<and> ut_network u = network_as_str network \<and>
                         ut_tx_hash u = st_tx_hash rc) (\<lambda>u. u\<lparr>ut_status := status_as_db_value Dropped\<rparr>) db1
                  else db1))
       (res_fold (reconcile_utxo env asset_id network rc now_raw) st (st_outputs rc))"

subsection \<open>Reconciling a transaction\<close>

definition apply_transaction_reconciliation ::
  "Env \<Rightarrow> ulid \<Rightarrow> SyncedAssetId \<Rightarrow> Network \<Rightarrow> SyncTransactionRecord \<Rightarrow> string \<Rightarrow> UserDb \<Rightarrow>
     DbError + (bool \<times> bool \<times> CoverageInvalidationTargets) \<times> UserDb" where
  "apply_transaction_reconciliation env new_id asset_id network rc now_raw db =
     res_bind (load_existing_transaction_snapshot db asset_id network (st_tx_hash rc)) (\<lambda>existing.
     res_bind (upsert_chain_transaction env new_id asset_id network rc now_raw db) (\<lambda>db1.
     res_bind (resolve_chain_transaction_id db1 asset_id network (st_tx_hash rc)) (\<lambda>chain_tx_id.
     res_bind (upsert_transaction_inputs env chain_tx_id (st_inputs rc) (Map.empty, db1)) (\<lambda>st2.
     res_bind (upsert_transaction_outputs env chain_tx_id (st_outputs rc) st2) (\<lambda>(cache, db3).
     case execute_chain_cleanup_for_marked_candidates [chain_tx_id] db3 of
       (cleanup_stats, db4) \<Rightarrow>
         res_bind (reconcile_utxos_for_transaction env asset_id network rc now_raw (cache, db4)) (\<lambda>(_, db5).
         res_bind (load_existing_transaction_snapshot db5 asset_id network (st_tx_hash rc)) (\<lambda>current.
         res_bind (coverage_invalidation_for_change env existing current) (\<lambda>invalidation.
         Inr (if deleted_orphan_chain_transactions cleanup_stats > 0 then (False, False, invalidation)
              else (existing = None, existing \<noteq> None \<and> current \<noteq> None \<and> existing \<noteq> current, invalidation), db5)))))))))"

text \<open>
  One batch under the lock: each transaction is committed before the next, and an error keeps the summary of those before
  it. \<open>fresh\<close> gives the identifier of a new row. Taking the lock before a batch, with a number of batches to follow, gives the
  database as its other holders left it and, when it cannot be opened, the error (\<open>with_user_db_mut\<close>).
\<close>

type_synonym DbLock = "nat \<Rightarrow> UserDb \<Rightarrow> UserDb \<times> DbError option"

definition count_if :: "bool \<Rightarrow> TransactionCount \<Rightarrow> TransactionCount" where
  "count_if b n = (if b then saturating_add_u n 1 else n)"

fun reconcile_batch ::
  "Env \<Rightarrow> (UserDb \<Rightarrow> ulid) \<Rightarrow> SyncedAssetId \<Rightarrow> Network \<Rightarrow> string \<Rightarrow> SyncTransactionRecord list \<Rightarrow>
     TransactionSyncReconcileSummary \<Rightarrow> UserDb \<Rightarrow>
     (DbError \<times> TransactionSyncReconcileSummary + TransactionSyncReconcileSummary) \<times> UserDb" where
  "reconcile_batch env fresh asset_id network now_raw [] summary db = (Inr summary, db)"
| "reconcile_batch env fresh asset_id network now_raw (rc # rcs) summary db =
     (case apply_transaction_reconciliation env (fresh db) asset_id network rc now_raw db of
        Inl err \<Rightarrow> (Inl (err, summary), db)
      | Inr ((was_inserted, was_updated, invalidation), db') \<Rightarrow>
          reconcile_batch env fresh asset_id network now_raw rcs
            \<lparr>rs_new_tx_count = count_if was_inserted (rs_new_tx_count summary),
             rs_updated_tx_count = count_if was_updated (rs_updated_tx_count summary),
             rs_coverage_invalidation = union_with (rs_coverage_invalidation summary) invalidation\<rparr> db')"

definition merge_reconcile_summary ::
  "TransactionSyncReconcileSummary \<Rightarrow> TransactionSyncReconcileSummary \<Rightarrow> TransactionSyncReconcileSummary" where
  "merge_reconcile_summary t summary =
     \<lparr>rs_new_tx_count = saturating_add_u (rs_new_tx_count t) (rs_new_tx_count summary),
      rs_updated_tx_count = saturating_add_u (rs_updated_tx_count t) (rs_updated_tx_count summary),
      rs_coverage_invalidation = union_with (rs_coverage_invalidation t) (rs_coverage_invalidation summary)\<rparr>"

definition RECONCILE_LOCK_BATCH_SIZE :: nat where "RECONCILE_LOCK_BATCH_SIZE = 250"

function chunks :: "nat \<Rightarrow> 'a list \<Rightarrow> 'a list list" where
  "chunks n xs = (if xs = [] \<or> n = 0 then [] else take n xs # chunks n (drop n xs))"
  by auto
termination
  by (relation "measure (\<lambda>(n, xs). length xs)") auto

declare chunks.simps [simp del]

fun reconcile_batches ::
  "Env \<Rightarrow> (UserDb \<Rightarrow> ulid) \<Rightarrow> DbLock \<Rightarrow> SyncedAssetId \<Rightarrow> Network \<Rightarrow> string \<Rightarrow> SyncTransactionRecord list list \<Rightarrow>
     TransactionSyncReconcileSummary \<Rightarrow> UserDb \<Rightarrow>
     (DbError \<times> TransactionSyncReconcileSummary + TransactionSyncReconcileSummary) \<times> UserDb" where
  "reconcile_batches env fresh lock asset_id network now_raw [] t db = (Inr t, db)"
| "reconcile_batches env fresh lock asset_id network now_raw (batch # batches) t db =
     (case lock (length batches) db of
        (db1, Some err) \<Rightarrow> (Inl (err, t), db1)
      | (db1, None) \<Rightarrow>
          (case reconcile_batch env fresh asset_id network now_raw batch empty_summary db1 of
             (Inl (err, summary), db') \<Rightarrow> (Inl (err, merge_reconcile_summary t summary), db')
           | (Inr summary, db') \<Rightarrow>
               reconcile_batches env fresh lock asset_id network now_raw batches (merge_reconcile_summary t summary) db'))"

definition reconcile_address_transactions_preserving_invalidation ::
  "Env \<Rightarrow> (UserDb \<Rightarrow> ulid) \<Rightarrow> DbLock \<Rightarrow> SyncedAssetId \<Rightarrow> Network \<Rightarrow> SyncTransactionRecord list \<Rightarrow> time \<Rightarrow> UserDb \<Rightarrow>
     (DbError \<times> TransactionSyncReconcileSummary + TransactionSyncReconcileSummary) \<times> UserDb" where
  "reconcile_address_transactions_preserving_invalidation env fresh lock asset_id network records observed db =
     reconcile_batches env fresh lock asset_id network (env_to_rfc3339 env observed)
       (chunks RECONCILE_LOCK_BATCH_SIZE records) empty_summary db"

subsection \<open>Transactions of account-based assets\<close>

type_synonym ProviderTransferKey = string

definition is_normal :: "ProviderTransferKey \<Rightarrow> bool" where
  "is_normal key \<longleftrightarrow> key = ''normal''"

definition internal_trace_id :: "ProviderTransferKey \<Rightarrow> string option" where
  "internal_trace_id key = (if take 9 key = ''internal:'' then Some (drop 9 key) else None)"

definition from_internal_trace_id :: "string \<Rightarrow> ProviderTransferKey option" where
  "from_internal_trace_id trace_id =
     (if str_trim trace_id \<noteq> [] then Some (''internal:'' @ str_trim trace_id) else None)"

datatype TransferKind = Normal | Internal | SelfDestruct

fun transfer_kind_as_str :: "TransferKind \<Rightarrow> string" where
  "transfer_kind_as_str Normal = ''normal''"
| "transfer_kind_as_str Internal = ''internal''"
| "transfer_kind_as_str SelfDestruct = ''self_destruct''"

record SyncAccountTransferRecord =
  sr_provider_transfer_key :: ProviderTransferKey
  sr_transfer_index :: int
  sr_transfer_kind :: TransferKind
  sr_from_address :: "TrackedAddress option"
  sr_to_address :: "TrackedAddress option"
  sr_value_amount :: UnsignedAmount

record SyncAccountTransactionRecord =
  sa_tx_hash :: TxHash
  sa_status :: ChainTransactionStatus
  sa_block_height :: "int option"
  sa_block_hash :: "string option"
  sa_block_time :: "time option"
  sa_fee_amount :: "UnsignedAmount option"
  sa_nonce :: "int option"
  sa_transfers :: "SyncAccountTransferRecord list"
  sa_excluded_transfer_keys :: "ProviderTransferKey list"

text \<open>\<open>str::parse::<i64>\<close>: a sign, then one digit or more; a value out of range is an error.\<close>

definition is_digit :: "char \<Rightarrow> bool" where
  "is_digit c \<longleftrightarrow> 48 \<le> (of_char c :: nat) \<and> (of_char c :: nat) \<le> 57"

definition parse_i64 :: "string \<Rightarrow> int option" where
  "parse_i64 s =
     (let negative = (take 1 s = ''-'');
          digits = (if take 1 s = ''-'' \<or> take 1 s = ''+'' then drop 1 s else s)
      in if digits = [] \<or> \<not> list_all is_digit digits then None
         else i64_try_from (if negative then - int (dec_value digits) else int (dec_value digits)))"

definition last_segment :: "string \<Rightarrow> string" where
  "last_segment s = rev (takeWhile (\<lambda>c. c \<noteq> CHR ''_'') (rev s))"

definition legacy_provider_transfer_key :: "ProviderTransferKey \<Rightarrow> string option" where
  "legacy_provider_transfer_key key =
     (if is_normal key then Some ''legacy:0''
      else (case internal_trace_id key of
              None \<Rightarrow> None
            | Some trace_id \<Rightarrow>
                (case parse_i64 (last_segment trace_id) of
                   None \<Rightarrow> None
                 | Some old_index \<Rightarrow>
                     if 0 \<le> old_index \<and> in_i64 (old_index + 1) then Some (''legacy:'' @ int_to_string (old_index + 1)) else None)))"

definition split_optional_unsigned_amount :: "UnsignedAmount option \<Rightarrow> string \<Rightarrow> DbError + int option \<times> int option" where
  "split_optional_unsigned_amount v field_name =
     (case v of
        None \<Rightarrow> Inr (None, None)
      | Some x \<Rightarrow> res_map (\<lambda>parts. (Some (split_hi parts), Some (split_lo parts))) (split_unsigned_amount x field_name))"

definition upsert_account_chain_transaction ::
  "Env \<Rightarrow> ulid \<Rightarrow> SyncedAssetId \<Rightarrow> Network \<Rightarrow> SyncAccountTransactionRecord \<Rightarrow> string \<Rightarrow> UserDb \<Rightarrow> DbError + UserDb" where
  "upsert_account_chain_transaction env new_id asset_id network rc now_raw db =
     res_bind (split_optional_unsigned_amount (sa_fee_amount rc) ''fee_amount'') (\<lambda>(hi, lo).
       put_chain_transaction ''Failed to upsert account chain transaction: '' new_id
         \<lparr>ct_id = new_id, ct_asset_id = asset_as_str asset_id, ct_network = network_as_str network, ct_tx_hash = sa_tx_hash rc,
          ct_status = status_as_db_value (sa_status rc), ct_block_height = sa_block_height rc, ct_block_hash = sa_block_hash rc,
          ct_block_time = map_option (env_to_rfc3339 env) (sa_block_time rc), ct_nonce = sa_nonce rc, ct_fee_amount_hi = hi,
          ct_fee_amount_lo = lo, ct_created_at = now_raw, ct_updated_at = now_raw\<rparr> db)"

definition is_transfer :: "SyncedAssetId \<Rightarrow> Network \<Rightarrow> TxHash \<Rightarrow> string \<Rightarrow> AccountTransferRow \<Rightarrow> bool" where
  "is_transfer asset_id network tx_hash key t \<longleftrightarrow>
     at_asset_id t = asset_as_str asset_id \<and> at_network t = network_as_str network \<and> at_tx_hash t = tx_hash \<and>
     at_provider_transfer_key t = key"

definition retire_legacy_transfer :: "SyncedAssetId \<Rightarrow> Network \<Rightarrow> TxHash \<Rightarrow> ProviderTransferKey \<Rightarrow> UserDb \<Rightarrow> UserDb" where
  "retire_legacy_transfer asset_id network tx_hash key db =
     (case legacy_provider_transfer_key key of
        None \<Rightarrow> db
      | Some legacy_key \<Rightarrow> db\<lparr>account_transfers :=
          filter (\<lambda>t. \<not> is_transfer asset_id network tx_hash legacy_key t) (account_transfers db)\<rparr>)"

definition upsert_account_transfer ::
  "Env \<Rightarrow> SyncedAssetId \<Rightarrow> Network \<Rightarrow> ulid \<Rightarrow> TxHash \<Rightarrow> AddressCache \<times> UserDb \<Rightarrow> SyncAccountTransferRecord \<Rightarrow>
     DbError + AddressCache \<times> UserDb" where
  "upsert_account_transfer env asset_id network chain_tx_id tx_hash st transfer =
     (case st of (cache, db0) \<Rightarrow>
       let key = sr_provider_transfer_key transfer;
           db = retire_legacy_transfer asset_id network tx_hash key db0
       in res_bind (resolve_owned_address_id env db cache (sr_from_address transfer)) (\<lambda>(from_address_id, cache1).
          res_bind (resolve_owned_address_id env db cache1 (sr_to_address transfer)) (\<lambda>(to_address_id, cache2).
          if from_address_id = None \<and> to_address_id = None then
            Inr (cache2, db\<lparr>account_transfers := filter (\<lambda>t. \<not> is_transfer asset_id network tx_hash key t) (account_transfers db)\<rparr>)
          else
            res_bind (split_unsigned_amount (sr_value_amount transfer) ''value_amount'') (\<lambda>value_parts.
            let r = \<lparr>at_chain_transaction_id = chain_tx_id, at_asset_id = asset_as_str asset_id, at_network = network_as_str network,
                     at_tx_hash = tx_hash, at_transfer_index = sr_transfer_index transfer, at_provider_transfer_key = key,
                     at_transfer_kind = transfer_kind_as_str (sr_transfer_kind transfer), at_from_address = sr_from_address transfer,
                     at_from_address_id = from_address_id, at_to_address = sr_to_address transfer, at_to_address_id = to_address_id,
                     at_value_amount_hi = split_hi value_parts, at_value_amount_lo = split_lo value_parts\<rparr>
            in res_map (Pair cache2)
              (constraint ''Failed to upsert account transfer: ''
                (0 \<le> sr_transfer_index transfer \<and>
                 set_option from_address_id \<union> set_option to_address_id \<subseteq> da_id ` set (digital_asset_addresses db))
                (db\<lparr>account_transfers := upsert_rows (is_transfer asset_id network tx_hash key) (\<lambda>_. r) r (account_transfers db)\<rparr>))))))"

definition upsert_account_transfers ::
  "Env \<Rightarrow> SyncedAssetId \<Rightarrow> Network \<Rightarrow> ulid \<Rightarrow> SyncAccountTransactionRecord \<Rightarrow> AddressCache \<times> UserDb \<Rightarrow>
     DbError + AddressCache \<times> UserDb" where
  "upsert_account_transfers env asset_id network chain_tx_id rc st =
     res_fold (upsert_account_transfer env asset_id network chain_tx_id (sa_tx_hash rc)) st (sa_transfers rc)"

text \<open>A transfer the provider excludes is removed, under its key and under its key of an earlier version.\<close>

definition transfer_owner_accounts :: "UserDb \<Rightarrow> ulid \<Rightarrow> string \<Rightarrow> DbError + string list" where
  "transfer_owner_accounts db chain_tx_id key =
     res_map remdups (res_mapM (\<lambda>da. ok_or (DbError ''Failed to read excluded transfer owners: Invalid column type Null at index'') (da_account_id da))
       [da. t \<leftarrow> account_transfers db, at_chain_transaction_id t = chain_tx_id \<and> at_provider_transfer_key t = key,
            da \<leftarrow> digital_asset_addresses db, at_from_address_id t = Some (da_id da) \<or> at_to_address_id t = Some (da_id da)])"

definition remove_excluded_transfer ::
  "Env \<Rightarrow> ulid \<Rightarrow> nat \<times> ulid set \<times> UserDb \<Rightarrow> string \<Rightarrow> DbError + nat \<times> ulid set \<times> UserDb" where
  "remove_excluded_transfer env chain_tx_id st key =
     (case st of (removed, accounts, db) \<Rightarrow>
        let this = (\<lambda>t. at_chain_transaction_id t = chain_tx_id \<and> at_provider_transfer_key t = key);
            deleted = length (filter this (account_transfers db))
        in res_bind (transfer_owner_accounts db chain_tx_id key) (\<lambda>account_ids.
           res_map (\<lambda>accounts'. (removed + deleted, accounts',
               db\<lparr>account_transfers := filter (\<lambda>t. \<not> this t) (account_transfers db)\<rparr>))
             (if deleted > 0 then res_fold (\<lambda>acc raw. res_map (\<lambda>i. insert i acc) (parse_account_id env raw)) accounts account_ids
              else Inr accounts)))"

definition excluded_candidates :: "ProviderTransferKey list \<Rightarrow> string list" where
  "excluded_candidates keys =
     concat (map (\<lambda>key. key # (case legacy_provider_transfer_key key of None \<Rightarrow> [] | Some legacy \<Rightarrow> [legacy])) keys)"

text \<open>
  \<open>iter_accounts\<close> is the order in which the elements of a hash set of accounts are visited. The ledgers of the accounts that lose a transfer
  are rebuilt in the same SQL transaction.
\<close>

definition account_chain_row :: "Env \<Rightarrow> SyncAccountTransactionRecord \<Rightarrow> DbError + ExistingChainTransactionRow" where
  "account_chain_row env rc =
     res_map (\<lambda>(hi, lo).
       \<lparr>ec_status = sa_status rc, ec_block_height = sa_block_height rc, ec_block_hash = sa_block_hash rc,
        ec_block_time = map_option (env_to_rfc3339 env) (sa_block_time rc), ec_fee_amount_lo = lo, ec_fee_amount_hi = hi,
        ec_nonce = sa_nonce rc\<rparr>)
       (split_optional_unsigned_amount (sa_fee_amount rc) ''fee_amount'')"

definition rebuild_affected_ledgers :: "Env \<Rightarrow> (ulid set \<Rightarrow> ulid list) \<Rightarrow> string \<Rightarrow> ulid set \<Rightarrow> UserDb \<Rightarrow> DbError + UserDb" where
  "rebuild_affected_ledgers env iter_accounts now_raw accounts db =
     (if accounts = {} then Inr db
      else res_bind (map_err (\<lambda>err. DbError (''Invalid reconciliation timestamp: '' @ err)) (env_parse_datetime env now_raw)) (\<lambda>observed.
        res_fold (\<lambda>d account_id. rebuild_account_transaction_ledger_tx env d account_id observed) db (iter_accounts accounts)))"

definition reconcile_account_transaction_tx ::
  "Env \<Rightarrow> (ulid set \<Rightarrow> ulid list) \<Rightarrow> ulid \<Rightarrow> SyncedAssetId \<Rightarrow> Network \<Rightarrow> SyncAccountTransactionRecord \<Rightarrow> string \<Rightarrow> UserDb \<Rightarrow>
     DbError + (bool \<times> bool) \<times> UserDb" where
  "reconcile_account_transaction_tx env iter_accounts new_id asset_id network rc now_raw db =
     res_bind (load_existing_chain_transaction_row db asset_id network (sa_tx_hash rc)) (\<lambda>existing.
     res_bind (upsert_account_chain_transaction env new_id asset_id network rc now_raw db) (\<lambda>db1.
     res_bind (resolve_chain_transaction_id db1 asset_id network (sa_tx_hash rc)) (\<lambda>chain_tx_id.
     if list_ex (\<lambda>key. key \<in> sr_provider_transfer_key ` set (sa_transfers rc)) (sa_excluded_transfer_keys rc)
     then Inl (DbError ''Account transfer identity cannot be both retained and excluded'')
     else
       res_bind (upsert_account_transfers env asset_id network chain_tx_id rc (Map.empty, db1)) (\<lambda>(cache, db2).
       res_bind (res_fold (remove_excluded_transfer env chain_tx_id) (0, {}, db2)
                  (excluded_candidates (sa_excluded_transfer_keys rc))) (\<lambda>(removed_transfers, accounts_to_rebuild, db3).
       case execute_chain_cleanup_for_marked_candidates [chain_tx_id] db3 of
         (cleanup_stats, db4) \<Rightarrow>
           res_bind (rebuild_affected_ledgers env iter_accounts now_raw accounts_to_rebuild db4) (\<lambda>db5.
           res_bind (account_chain_row env rc) (\<lambda>current.
           Inr (if deleted_orphan_chain_transactions cleanup_stats > 0 then (False, False)
                else (existing = None, (existing \<noteq> None \<and> existing \<noteq> Some current) \<or> removed_transfers > 0), db5))))))))"

text \<open>The account-based batches: each transaction is committed before the next; an error ends the call without a summary.\<close>

fun reconcile_account_transactions_conn ::
  "Env \<Rightarrow> (ulid set \<Rightarrow> ulid list) \<Rightarrow> (UserDb \<Rightarrow> ulid) \<Rightarrow> SyncedAssetId \<Rightarrow> Network \<Rightarrow> string \<Rightarrow> SyncAccountTransactionRecord list \<Rightarrow>
     TransactionCount \<times> TransactionCount \<Rightarrow> UserDb \<Rightarrow> (DbError + TransactionSyncReconcileSummary) \<times> UserDb" where
  "reconcile_account_transactions_conn env iter_accounts fresh asset_id network now_raw [] (inserted, updated) db =
     (Inr \<lparr>rs_new_tx_count = inserted, rs_updated_tx_count = updated, rs_coverage_invalidation = no_targets\<rparr>, db)"
| "reconcile_account_transactions_conn env iter_accounts fresh asset_id network now_raw (rc # rcs) (inserted, updated) db =
     (case reconcile_account_transaction_tx env iter_accounts (fresh db) asset_id network rc now_raw db of
        Inl err \<Rightarrow> (Inl err, db)
      | Inr ((was_inserted, was_updated), db') \<Rightarrow>
          reconcile_account_transactions_conn env iter_accounts fresh asset_id network now_raw rcs
            (count_if was_inserted inserted, count_if was_updated updated) db')"

fun reconcile_account_batches ::
  "Env \<Rightarrow> (ulid set \<Rightarrow> ulid list) \<Rightarrow> (UserDb \<Rightarrow> ulid) \<Rightarrow> DbLock \<Rightarrow> SyncedAssetId \<Rightarrow> Network \<Rightarrow> string \<Rightarrow>
     SyncAccountTransactionRecord list list \<Rightarrow> TransactionCount \<times> TransactionCount \<Rightarrow> UserDb \<Rightarrow>
     (DbError + TransactionSyncReconcileSummary) \<times> UserDb" where
  "reconcile_account_batches env iter_accounts fresh lock asset_id network now_raw [] (inserted, updated) db =
     (Inr \<lparr>rs_new_tx_count = inserted, rs_updated_tx_count = updated, rs_coverage_invalidation = no_targets\<rparr>, db)"
| "reconcile_account_batches env iter_accounts fresh lock asset_id network now_raw (batch # batches) (inserted, updated) db =
     (case lock (length batches) db of
        (db1, Some err) \<Rightarrow> (Inl err, db1)
      | (db1, None) \<Rightarrow>
          (case reconcile_account_transactions_conn env iter_accounts fresh asset_id network now_raw batch (0, 0) db1 of
             (Inl err, db') \<Rightarrow> (Inl err, db')
           | (Inr summary, db') \<Rightarrow>
               reconcile_account_batches env iter_accounts fresh lock asset_id network now_raw batches
                 (saturating_add_u inserted (rs_new_tx_count summary), saturating_add_u updated (rs_updated_tx_count summary)) db'))"

definition reconcile_account_transactions ::
  "Env \<Rightarrow> (ulid set \<Rightarrow> ulid list) \<Rightarrow> (UserDb \<Rightarrow> ulid) \<Rightarrow> DbLock \<Rightarrow> SyncedAssetId \<Rightarrow> Network \<Rightarrow>
     SyncAccountTransactionRecord list \<Rightarrow> time \<Rightarrow> UserDb \<Rightarrow> (DbError + TransactionSyncReconcileSummary) \<times> UserDb" where
  "reconcile_account_transactions env iter_accounts fresh lock asset_id network records observed db =
     reconcile_account_batches env iter_accounts fresh lock asset_id network (env_to_rfc3339 env observed)
       (chunks RECONCILE_LOCK_BATCH_SIZE records) (0, 0) db"

end
