(* ===== verification/Reconcile_Rows.thy ===== *)
theory Reconcile_Rows
  imports Reconcile
begin

section \<open>The rows of a stored transaction\<close>

text \<open>
  What the loops over inputs, outputs and transfers leave in their tables. A row of a fetched transaction is wanted when its
  address is tracked; the loops keep exactly the wanted rows under their keys, whatever the cache of addresses holds. The
  locale \<open>owned_rows_loop\<close> is the interface of such a loop: one step puts or removes the row of its key.
\<close>

subsection \<open>Tables with a unique key\<close>

definition put_row :: "('r \<Rightarrow> bool) \<Rightarrow> 'r option \<Rightarrow> 'r list \<Rightarrow> 'r list" where
  "put_row P ro rows = (case ro of None \<Rightarrow> filter (\<lambda>r. \<not> P r) rows | Some r \<Rightarrow> upsert_rows P (\<lambda>_. r) r rows)"

lemma upsert_rows_distinct:
  assumes "distinct (map key rows)" and "\<And>q. P q \<longleftrightarrow> key q = k" and "\<And>q. P q \<Longrightarrow> key (f q) = k" and "key r = k"
  shows "distinct (map key (upsert_rows P f r rows))"
proof (cases "list_ex P rows")
  case True
  have "map key (map (\<lambda>q. if P q then f q else q) rows) = map key rows"
    using assms(2,3) by simp
  with assms(1) True show ?thesis by (simp only: upsert_rows_def if_True)
next
  case False
  then have "key r \<notin> set (map key rows)" using assms(2,4) by (auto simp: list_ex_iff)
  with assms(1) False show ?thesis by (simp add: upsert_rows_def)
qed

lemma set_put_row:
  assumes "\<And>q. P q \<longleftrightarrow> key q = k"
  shows "set (put_row P ro rows) = {q \<in> set rows. key q \<noteq> k} \<union> set_option ro"
  using assms by (cases ro) (auto simp: put_row_def upsert_rows_def list_ex_iff)

lemma distinct_put_row:
  assumes "distinct (map key rows)" and "\<And>q. P q \<longleftrightarrow> key q = k" and "\<And>r. ro = Some r \<Longrightarrow> key r = k"
  shows "distinct (map key (put_row P ro rows))"
proof (cases ro)
  case None
  with assms(1) show ?thesis by (auto simp: put_row_def distinct_map inj_on_def)
next
  case (Some r)
  then have "key r = k" by (rule assms(3))
  with assms(1,2) Some show ?thesis unfolding put_row_def by (auto intro!: upsert_rows_distinct [where k = k])
qed

text \<open>Two tables with the same rows list them in the same order of their key.\<close>

lemma sort_key_cong_set:
  assumes "distinct (map key xs)" and "distinct (map key ys)" and "set xs = set ys"
  shows "sort_key key xs = sort_key key ys"
proof (rule map_sorted_distinct_set_unique [where f = key])
  show "inj_on key (set (sort_key key xs) \<union> set (sort_key key ys))"
    using assms by (simp add: distinct_map)
  have "distinct (map key (sort_key key zs)) = distinct (map key zs)" for zs
    by (simp add: distinct_map)
  with assms(1,2) show "distinct (map key (sort_key key xs))" "distinct (map key (sort_key key ys))" by simp_all
qed (use assms(3) in simp_all)

subsection \<open>The cache of addresses\<close>

definition cache_ok :: "Env \<Rightarrow> AddressCache \<Rightarrow> UserDb \<Rightarrow> bool" where
  "cache_ok env cache db \<longleftrightarrow> (\<forall>raw v. cache raw = Some v \<longrightarrow> lookup_owned_address env db raw = Inr v)"

definition owner_of :: "Env \<Rightarrow> UserDb \<Rightarrow> TrackedAddress option \<Rightarrow> DbError + ulid option" where
  "owner_of env db raw_address = (case raw_address of None \<Rightarrow> Inr None | Some raw \<Rightarrow> lookup_owned_address env db raw)"

lemma cache_ok_empty [simp]: "cache_ok env Map.empty db"
  by (simp add: cache_ok_def)

lemma lookup_owned_address_cong:
  "digital_asset_addresses db' = digital_asset_addresses db \<Longrightarrow> lookup_owned_address env db' = lookup_owned_address env db"
  by (rule ext) (simp add: lookup_owned_address_def)

lemma owner_of_cong: "digital_asset_addresses db' = digital_asset_addresses db \<Longrightarrow> owner_of env db' = owner_of env db"
  by (rule ext) (simp add: owner_of_def lookup_owned_address_def split: option.split)

lemma cache_ok_cong: "digital_asset_addresses db' = digital_asset_addresses db \<Longrightarrow> cache_ok env cache db' = cache_ok env cache db"
  by (simp add: cache_ok_def lookup_owned_address_def)

text \<open>The cache changes no answer.\<close>

lemma resolve_owned_address_id_cached:
  assumes "cache_ok env cache db"
  obtains (err) e where "owner_of env db raw = Inl e" "resolve_owned_address_id env db cache raw = Inl e"
  | (ok) v cache' where "owner_of env db raw = Inr v" "resolve_owned_address_id env db cache raw = Inr (v, cache')"
      "cache_ok env cache' db"
proof (cases raw)
  case None
  then show ?thesis using assms by (intro ok) (auto simp: owner_of_def resolve_owned_address_id_def)
next
  case (Some a)
  show ?thesis
  proof (cases "cache a")
    case None
    show ?thesis
    proof (cases "lookup_owned_address env db a")
      case (Inl e)
      with Some None show ?thesis by (intro err) (auto simp: owner_of_def resolve_owned_address_id_def)
    next
      case (Inr v)
      with Some None assms show ?thesis
        by (intro ok [of v "cache(a \<mapsto> v)"]) (auto simp: owner_of_def resolve_owned_address_id_def cache_ok_def)
    qed
  next
    case (Some v)
    with \<open>raw = Some a\<close> assms show ?thesis
      by (intro ok [of v cache]) (auto simp: owner_of_def resolve_owned_address_id_def cache_ok_def)
  qed
qed

subsection \<open>A loop that keeps the wanted rows\<close>

definition option_list :: "'a option \<Rightarrow> 'a list" where
  "option_list v = (case v of None \<Rightarrow> [] | Some x \<Rightarrow> [x])"

locale owned_rows_loop =
  fixes env :: Env
    and step :: "AddressCache \<times> UserDb \<Rightarrow> 'rec \<Rightarrow> DbError + AddressCache \<times> UserDb"
    and rows :: "UserDb \<Rightarrow> 'row list" and upd :: "'row list \<Rightarrow> UserDb \<Rightarrow> UserDb"
    and key :: "'row \<Rightarrow> 'k" and rkey :: "'rec \<Rightarrow> 'k"
    and wanted :: "UserDb \<Rightarrow> 'rec \<Rightarrow> DbError + 'row option"
  assumes rows_upd [simp]: "rows (upd v db) = v"
    and upd_upd [simp]: "upd v (upd w db) = upd v db"
    and upd_rows [simp]: "upd (rows db) db = db"
    and addresses_upd [simp]: "digital_asset_addresses (upd v db) = digital_asset_addresses db"
    and wanted_cong: "digital_asset_addresses db' = digital_asset_addresses db \<Longrightarrow> wanted db' x = wanted db x"
    and wanted_key: "wanted db x = Inr (Some r) \<Longrightarrow> key r = rkey x"
    and step_err: "cache_ok env c db \<Longrightarrow> wanted db x = Inl e \<Longrightarrow> step (c, db) x = Inl e"
    and step_ok: "cache_ok env c db \<Longrightarrow> wanted db x = Inr ro \<Longrightarrow>
      \<exists>c'. step (c, db) x = Inr (c', upd (put_row (\<lambda>r. key r = rkey x) ro (rows db)) db) \<and> cache_ok env c' db"
begin

definition wanted_rows :: "UserDb \<Rightarrow> 'rec list \<Rightarrow> DbError + 'row list" where
  "wanted_rows db xs = res_map (List.map_filter id) (res_mapM (wanted db) xs)"

lemma wanted_rows_cong:
  "digital_asset_addresses db' = digital_asset_addresses db \<Longrightarrow> wanted_rows db' xs = wanted_rows db xs"
proof -
  assume "digital_asset_addresses db' = digital_asset_addresses db"
  then have "wanted db' = wanted db" by (intro ext wanted_cong)
  then show ?thesis by (simp add: wanted_rows_def)
qed

lemma wanted_rows_upd [simp]: "wanted_rows (upd v db) xs = wanted_rows db xs"
  by (rule wanted_rows_cong) simp

lemma cache_ok_upd [simp]: "cache_ok env c (upd v db) = cache_ok env c db"
  by (rule cache_ok_cong) simp

lemma wanted_rows_Nil [simp]: "wanted_rows db [] = Inr []"
  by (simp add: wanted_rows_def)

lemma wanted_rows_Cons [simp]:
  "wanted_rows db (x # xs) = res_bind (wanted db x) (\<lambda>ro. res_map (\<lambda>ws. option_list ro @ ws) (wanted_rows db xs))"
  by (cases "wanted db x"; cases "res_mapM (wanted db) xs")
    (auto simp: wanted_rows_def option_list_def split: option.split)

lemma wanted_rows_keys:
  assumes "wanted_rows db xs = Inr ws" and "distinct (map rkey xs)"
  shows "distinct (map key ws) \<and> key ` set ws \<subseteq> rkey ` set xs"
  using assms
proof (induction xs arbitrary: ws)
  case (Cons x xs)
  from Cons.prems(1) obtain ro vs where ro: "wanted db x = Inr ro" and vs: "wanted_rows db xs = Inr vs"
    and ws: "ws = option_list ro @ vs" by auto
  have "distinct (map key vs) \<and> key ` set vs \<subseteq> rkey ` set xs" using Cons.IH [OF vs] Cons.prems(2) by simp
  moreover have "r \<in> set (option_list ro) \<Longrightarrow> key r = rkey x" for r
    using ro wanted_key by (auto simp: option_list_def split: option.splits)
  moreover have "rkey x \<notin> rkey ` set xs" using Cons.prems(2) by simp
  ultimately show ?case unfolding ws by (cases ro) (auto simp: option_list_def)
qed simp

lemma loop_err:
  "cache_ok env c db \<Longrightarrow> wanted_rows db xs = Inl e \<Longrightarrow> res_fold step (c, db) xs = Inl e"
proof (induction xs arbitrary: c db)
  case (Cons x xs)
  show ?case
  proof (cases "wanted db x")
    case (Inl e')
    with step_err [OF Cons.prems(1) Inl] Cons.prems(2) show ?thesis by simp
  next
    case (Inr ro)
    from step_ok [OF Cons.prems(1) Inr] obtain c' where c':
      "step (c, db) x = Inr (c', upd (put_row (\<lambda>r. key r = rkey x) ro (rows db)) db)" "cache_ok env c' db" by blast
    let ?db = "upd (put_row (\<lambda>r. key r = rkey x) ro (rows db)) db"
    from Cons.prems(2) Inr have "wanted_rows db xs = Inl e" by (cases "wanted_rows db xs") auto
    then have "wanted_rows ?db xs = Inl e" by simp
    moreover have "cache_ok env c' ?db" using c'(2) by simp
    ultimately show ?thesis using Cons.IH [of c' ?db] c'(1) by simp
  qed
qed simp

lemma loop_ok:
  assumes "cache_ok env c db" and "wanted_rows db xs = Inr ws" and "distinct (map rkey xs)" and "distinct (map key (rows db))"
  shows "\<exists>c' rows'. res_fold step (c, db) xs = Inr (c', upd rows' db) \<and> cache_ok env c' db \<and> distinct (map key rows') \<and>
    set rows' = {q \<in> set (rows db). key q \<notin> rkey ` set xs} \<union> set ws"
  using assms
proof (induction xs arbitrary: c db ws)
  case Nil
  then show ?case by (intro exI [of _ c] exI [of _ "rows db"]) simp
next
  case (Cons x xs)
  from Cons.prems(2) obtain ro vs where ro: "wanted db x = Inr ro" and vs: "wanted_rows db xs = Inr vs"
    and ws: "ws = option_list ro @ vs" by auto
  let ?rows = "put_row (\<lambda>r. key r = rkey x) ro (rows db)"
  let ?db = "upd ?rows db"
  from step_ok [OF Cons.prems(1) ro] obtain c' where c': "step (c, db) x = Inr (c', ?db)" "cache_ok env c' db" by blast
  have key: "ro = Some r \<Longrightarrow> key r = rkey x" for r using ro wanted_key by blast
  have "cache_ok env c' ?db" using c'(2) by simp
  moreover have "wanted_rows ?db xs = Inr vs" using vs by simp
  moreover have "distinct (map key (rows ?db))" using distinct_put_row [OF Cons.prems(4) refl key] by simp
  ultimately obtain c2 rows2 where c2: "res_fold step (c', ?db) xs = Inr (c2, upd rows2 ?db)" "cache_ok env c2 ?db"
    "distinct (map key rows2)" "set rows2 = {q \<in> set ?rows. key q \<notin> rkey ` set xs} \<union> set vs"
    using Cons.IH [of c' ?db vs] Cons.prems(3) by auto
  have "set ?rows = {q \<in> set (rows db). key q \<noteq> rkey x} \<union> set_option ro" by (rule set_put_row) simp
  then have "set rows2 = {q \<in> set (rows db). key q \<notin> rkey ` set (x # xs)} \<union> set ws"
    using c2(4) key Cons.prems(3) by (cases ro) (auto simp: ws option_list_def, metis imageI)
  with c'(1) c2 show ?case by auto
qed

end

subsection \<open>Inputs and outputs\<close>

definition wanted_input :: "Env \<Rightarrow> ulid \<Rightarrow> UserDb \<Rightarrow> SyncTransactionInputRecord \<Rightarrow> DbError + TransactionInputRow option" where
  "wanted_input env chain_tx_id db input =
     res_bind (owner_of env db (si_prev_address input)) (\<lambda>owner.
       case owner of
         None \<Rightarrow> Inr None
       | Some a \<Rightarrow>
           res_bind (split_optional_i64_amount (si_value_amount input) ''value_amount'') (\<lambda>(hi, lo).
           if 0 \<le> si_input_index input \<and> 0 \<le> si_prev_output_index input \<and> a \<in> da_id ` set (digital_asset_addresses db)
           then Inr (Some \<lparr>ti_tx_id = chain_tx_id, ti_input_index = si_input_index input, ti_prev_tx_hash = si_prev_tx_hash input,
                           ti_prev_output_index = si_prev_output_index input, ti_address_id = a, ti_value_amount_hi = hi,
                           ti_value_amount_lo = lo\<rparr>)
           else Inl (DbError ''Failed to upsert transaction input: constraint failed'')))"

definition wanted_output :: "Env \<Rightarrow> ulid \<Rightarrow> UserDb \<Rightarrow> SyncTransactionOutputRecord \<Rightarrow> DbError + TransactionOutputRow option" where
  "wanted_output env chain_tx_id db output =
     res_bind (owner_of env db (so_raw_address output)) (\<lambda>owner.
       case owner of
         None \<Rightarrow> Inr None
       | Some a \<Rightarrow>
           res_bind (split_i64_amount (so_value_amount output) ''value_amount'') (\<lambda>parts.
           if 0 \<le> so_output_index output \<and> a \<in> da_id ` set (digital_asset_addresses db)
           then Inr (Some \<lparr>txo_tx_id = chain_tx_id, txo_output_index = so_output_index output, txo_address_id = a,
                           txo_raw_address = so_raw_address output, txo_script_pubkey_hex = so_script_pubkey_hex output,
                           txo_value_amount_hi = split_hi parts, txo_value_amount_lo = split_lo parts\<rparr>)
           else Inl (DbError ''Failed to upsert transaction output: constraint failed'')))"

lemma wanted_input_cong:
  "digital_asset_addresses db' = digital_asset_addresses db \<Longrightarrow> wanted_input env i db' x = wanted_input env i db x"
  using owner_of_cong [of db' db env] by (simp add: wanted_input_def cong: option.case_cong)

lemma wanted_output_cong:
  "digital_asset_addresses db' = digital_asset_addresses db \<Longrightarrow> wanted_output env i db' x = wanted_output env i db x"
  using owner_of_cong [of db' db env] by (simp add: wanted_output_def cong: option.case_cong)

lemma input_key: "is_input i (si_input_index x) = (\<lambda>r. (ti_tx_id r, ti_input_index r) = (i, si_input_index x))"
  by (rule ext) (simp add: is_input_def)

lemma output_key: "is_output i (so_output_index x) = (\<lambda>r. (txo_tx_id r, txo_output_index r) = (i, so_output_index x))"
  by (rule ext) (simp add: is_output_def)

lemma input_step_err:
  "cache_ok env c db \<Longrightarrow> wanted_input env i db x = Inl e \<Longrightarrow> upsert_transaction_input env i (c, db) x = Inl e"
  by (erule resolve_owned_address_id_cached [where raw = "si_prev_address x"])
    (auto simp: wanted_input_def upsert_transaction_input_def constraint_def res_bind_Inl_iff split: option.splits if_splits)

lemma input_step_ok:
  "cache_ok env c db \<Longrightarrow> wanted_input env i db x = Inr ro \<Longrightarrow>
   \<exists>c'. upsert_transaction_input env i (c, db) x =
     Inr (c', db\<lparr>transaction_inputs := put_row (\<lambda>r. (ti_tx_id r, ti_input_index r) = (i, si_input_index x)) ro (transaction_inputs db)\<rparr>) \<and>
     cache_ok env c' db"
  unfolding input_key [symmetric]
  by (erule resolve_owned_address_id_cached [where raw = "si_prev_address x"])
    (auto simp: wanted_input_def upsert_transaction_input_def constraint_def put_row_def Let_def split: option.splits if_splits)

lemma output_step_err:
  "cache_ok env c db \<Longrightarrow> wanted_output env i db x = Inl e \<Longrightarrow> upsert_transaction_output env i (c, db) x = Inl e"
  by (erule resolve_owned_address_id_cached [where raw = "so_raw_address x"])
    (auto simp: wanted_output_def upsert_transaction_output_def constraint_def res_bind_Inl_iff split: option.splits if_splits)

lemma output_step_ok:
  "cache_ok env c db \<Longrightarrow> wanted_output env i db x = Inr ro \<Longrightarrow>
   \<exists>c'. upsert_transaction_output env i (c, db) x =
     Inr (c', db\<lparr>transaction_outputs := put_row (\<lambda>r. (txo_tx_id r, txo_output_index r) = (i, so_output_index x)) ro (transaction_outputs db)\<rparr>) \<and>
     cache_ok env c' db"
  unfolding output_key [symmetric]
  by (erule resolve_owned_address_id_cached [where raw = "so_raw_address x"])
    (auto simp: wanted_output_def upsert_transaction_output_def constraint_def put_row_def Let_def split: option.splits if_splits)

interpretation inputs_loop: owned_rows_loop env "upsert_transaction_input env i" transaction_inputs
  "\<lambda>v db. db\<lparr>transaction_inputs := v\<rparr>" "\<lambda>r. (ti_tx_id r, ti_input_index r)" "\<lambda>x. (i, si_input_index x)" "wanted_input env i"
  for env i
proof
  show "wanted_input env i db x = Inr (Some r) \<Longrightarrow> (ti_tx_id r, ti_input_index r) = (i, si_input_index x)" for db x r
    by (auto simp: wanted_input_def split: option.splits if_splits)
qed ((rule wanted_input_cong input_step_err input_step_ok; assumption) | simp)+

interpretation outputs_loop: owned_rows_loop env "upsert_transaction_output env i" transaction_outputs
  "\<lambda>v db. db\<lparr>transaction_outputs := v\<rparr>" "\<lambda>r. (txo_tx_id r, txo_output_index r)" "\<lambda>x. (i, so_output_index x)" "wanted_output env i"
  for env i
proof
  show "wanted_output env i db x = Inr (Some r) \<Longrightarrow> (txo_tx_id r, txo_output_index r) = (i, so_output_index x)" for db x r
    by (auto simp: wanted_output_def split: option.splits if_splits)
qed ((rule wanted_output_cong output_step_err output_step_ok; assumption) | simp)+

definition owned_inputs :: "Env \<Rightarrow> ulid \<Rightarrow> UserDb \<Rightarrow> SyncTransactionInputRecord list \<Rightarrow> DbError + TransactionInputRow list" where
  "owned_inputs env i db inputs = res_map (List.map_filter id) (res_mapM (wanted_input env i db) inputs)"

definition owned_outputs :: "Env \<Rightarrow> ulid \<Rightarrow> UserDb \<Rightarrow> SyncTransactionOutputRecord list \<Rightarrow> DbError + TransactionOutputRow list" where
  "owned_outputs env i db outputs = res_map (List.map_filter id) (res_mapM (wanted_output env i db) outputs)"

lemma owned_inputs_loop: "owned_inputs env i db inputs = inputs_loop.wanted_rows env i db inputs"
  by (simp add: owned_inputs_def inputs_loop.wanted_rows_def)

lemma owned_outputs_loop: "owned_outputs env i db outputs = outputs_loop.wanted_rows env i db outputs"
  by (simp add: owned_outputs_def outputs_loop.wanted_rows_def)

lemma owned_inputs_cong: "digital_asset_addresses db' = digital_asset_addresses db \<Longrightarrow> owned_inputs env i db' xs = owned_inputs env i db xs"
  unfolding owned_inputs_loop by (rule inputs_loop.wanted_rows_cong)

lemma owned_outputs_cong: "digital_asset_addresses db' = digital_asset_addresses db \<Longrightarrow> owned_outputs env i db' xs = owned_outputs env i db xs"
  unfolding owned_outputs_loop by (rule outputs_loop.wanted_rows_cong)

lemma distinct_pair_keys: "distinct (map f xs) \<Longrightarrow> distinct (map (\<lambda>x. (i, f x)) xs)"
  by (induction xs) auto

lemma distinct_map_filter_rows: "distinct (map k xs) \<Longrightarrow> distinct (map k (filter P xs))"
  by (induction xs) auto

lemma upsert_transaction_inputs_ok:
  assumes "cache_ok env c db" and "owned_inputs env i db inputs = Inr ws" and "distinct (map si_input_index inputs)"
    and "distinct (map (\<lambda>r. (ti_tx_id r, ti_input_index r)) (transaction_inputs db))"
  shows "\<exists>c' rows'. upsert_transaction_inputs env i inputs (c, db) = Inr (c', db\<lparr>transaction_inputs := rows'\<rparr>) \<and> cache_ok env c' db \<and>
    distinct (map (\<lambda>r. (ti_tx_id r, ti_input_index r)) rows') \<and>
    set rows' = {q \<in> set (transaction_inputs db). ti_tx_id q \<noteq> i} \<union> set ws"
proof -
  let ?kept = "filter (\<lambda>r. ti_tx_id r \<noteq> i \<or> ti_input_index r \<in> si_input_index ` set inputs) (transaction_inputs db)"
  let ?db = "db\<lparr>transaction_inputs := ?kept\<rparr>"
  have 1: "cache_ok env c ?db" using assms(1) by simp
  have 2: "inputs_loop.wanted_rows env i ?db inputs = Inr ws" using assms(2) by (simp add: owned_inputs_loop)
  have 3: "distinct (map (\<lambda>x. (i, si_input_index x)) inputs)" using assms(3) by (rule distinct_pair_keys)
  have 4: "distinct (map (\<lambda>r. (ti_tx_id r, ti_input_index r)) (transaction_inputs ?db))"
    using distinct_map_filter_rows [OF assms(4)] by simp
  from inputs_loop.loop_ok [OF 1 2 3 4] obtain c' rows' where
    loop: "res_fold (upsert_transaction_input env i) (c, ?db) inputs = Inr (c', ?db\<lparr>transaction_inputs := rows'\<rparr>)"
    and c': "cache_ok env c' ?db" and dist: "distinct (map (\<lambda>r. (ti_tx_id r, ti_input_index r)) rows')"
    and rows': "set rows' = {q \<in> set (transaction_inputs ?db). (ti_tx_id q, ti_input_index q) \<notin> (\<lambda>x. (i, si_input_index x)) ` set inputs} \<union> set ws"
    by blast
  have "set rows' = {q \<in> set (transaction_inputs db). ti_tx_id q \<noteq> i} \<union> set ws"
    unfolding rows' by auto
  with loop c' dist show ?thesis unfolding upsert_transaction_inputs_def by auto
qed

lemma upsert_transaction_inputs_err:
  assumes "cache_ok env c db" and "owned_inputs env i db inputs = Inl e"
  shows "upsert_transaction_inputs env i inputs (c, db) = Inl e"
  using assms by (simp add: upsert_transaction_inputs_def owned_inputs_loop inputs_loop.loop_err)

lemma upsert_transaction_outputs_ok:
  assumes "cache_ok env c db" and "owned_outputs env i db outputs = Inr ws" and "distinct (map so_output_index outputs)"
    and "distinct (map (\<lambda>r. (txo_tx_id r, txo_output_index r)) (transaction_outputs db))"
  shows "\<exists>c' rows'. upsert_transaction_outputs env i outputs (c, db) = Inr (c', db\<lparr>transaction_outputs := rows'\<rparr>) \<and> cache_ok env c' db \<and>
    distinct (map (\<lambda>r. (txo_tx_id r, txo_output_index r)) rows') \<and>
    set rows' = {q \<in> set (transaction_outputs db). txo_tx_id q \<noteq> i} \<union> set ws"
proof -
  let ?kept = "filter (\<lambda>r. txo_tx_id r \<noteq> i \<or> txo_output_index r \<in> so_output_index ` set outputs) (transaction_outputs db)"
  let ?db = "db\<lparr>transaction_outputs := ?kept\<rparr>"
  have 1: "cache_ok env c ?db" using assms(1) by simp
  have 2: "outputs_loop.wanted_rows env i ?db outputs = Inr ws" using assms(2) by (simp add: owned_outputs_loop)
  have 3: "distinct (map (\<lambda>x. (i, so_output_index x)) outputs)" using assms(3) by (rule distinct_pair_keys)
  have 4: "distinct (map (\<lambda>r. (txo_tx_id r, txo_output_index r)) (transaction_outputs ?db))"
    using distinct_map_filter_rows [OF assms(4)] by simp
  from outputs_loop.loop_ok [OF 1 2 3 4] obtain c' rows' where
    loop: "res_fold (upsert_transaction_output env i) (c, ?db) outputs = Inr (c', ?db\<lparr>transaction_outputs := rows'\<rparr>)"
    and c': "cache_ok env c' ?db" and dist: "distinct (map (\<lambda>r. (txo_tx_id r, txo_output_index r)) rows')"
    and rows': "set rows' = {q \<in> set (transaction_outputs ?db). (txo_tx_id q, txo_output_index q) \<notin> (\<lambda>x. (i, so_output_index x)) ` set outputs} \<union> set ws"
    by blast
  have "set rows' = {q \<in> set (transaction_outputs db). txo_tx_id q \<noteq> i} \<union> set ws"
    unfolding rows' by auto
  with loop c' dist show ?thesis unfolding upsert_transaction_outputs_def by auto
qed

lemma upsert_transaction_outputs_err:
  assumes "cache_ok env c db" and "owned_outputs env i db outputs = Inl e"
  shows "upsert_transaction_outputs env i outputs (c, db) = Inl e"
  using assms by (simp add: upsert_transaction_outputs_def owned_outputs_loop outputs_loop.loop_err)

text \<open>A loop that returned wanted what it kept.\<close>

lemma upsert_transaction_inputs_returned:
  assumes "upsert_transaction_inputs env i inputs (c, db) = Inr (c', db')" and "cache_ok env c db" and "distinct (map si_input_index inputs)"
    and "distinct (map (\<lambda>r. (ti_tx_id r, ti_input_index r)) (transaction_inputs db))"
  obtains ws rows' where "owned_inputs env i db inputs = Inr ws" "cache_ok env c' db" "db' = db\<lparr>transaction_inputs := rows'\<rparr>"
proof (cases "owned_inputs env i db inputs")
  case (Inl e)
  with assms(1) upsert_transaction_inputs_err [OF assms(2) Inl] show ?thesis by simp
next
  case (Inr ws)
  with assms(1) upsert_transaction_inputs_ok [OF assms(2) Inr assms(3,4)] show ?thesis by (auto intro: that)
qed

lemma upsert_transaction_outputs_returned:
  assumes "upsert_transaction_outputs env i outputs (c, db) = Inr (c', db')" and "cache_ok env c db" and "distinct (map so_output_index outputs)"
    and "distinct (map (\<lambda>r. (txo_tx_id r, txo_output_index r)) (transaction_outputs db))"
  obtains ws rows' where "owned_outputs env i db outputs = Inr ws" "cache_ok env c' db" "db' = db\<lparr>transaction_outputs := rows'\<rparr>"
proof (cases "owned_outputs env i db outputs")
  case (Inl e)
  with assms(1) upsert_transaction_outputs_err [OF assms(2) Inl] show ?thesis by simp
next
  case (Inr ws)
  with assms(1) upsert_transaction_outputs_ok [OF assms(2) Inr assms(3,4)] show ?thesis by (auto intro: that)
qed

end
