(* ===== verification/Reconcile_Effect.thy ===== *)
theory Reconcile_Effect
  imports Reconcile_Rows
begin

section \<open>What storing a transaction does\<close>

text \<open>
  The effect of \<open>apply_transaction_reconciliation\<close> on the tables: the chain row, inputs and outputs of the transaction become
  those of the fetched record, everything else of other transactions stays. From it follow that storing a record again
  changes nothing and that a contradiction reaches every owner.
\<close>

subsection \<open>The unique and foreign keys of the tables\<close>

abbreviation chain_key :: "ChainTransactionRow \<Rightarrow> string \<times> string \<times> string" where
  "chain_key ct \<equiv> (ct_asset_id ct, ct_network ct, ct_tx_hash ct)"

abbreviation input_row_key :: "TransactionInputRow \<Rightarrow> ulid \<times> int" where
  "input_row_key r \<equiv> (ti_tx_id r, ti_input_index r)"

abbreviation output_row_key :: "TransactionOutputRow \<Rightarrow> ulid \<times> int" where
  "output_row_key r \<equiv> (txo_tx_id r, txo_output_index r)"

definition chain_tables_valid :: "UserDb \<Rightarrow> bool" where
  "chain_tables_valid db \<longleftrightarrow>
     distinct (map ct_id (chain_transactions db)) \<and> distinct (map chain_key (chain_transactions db)) \<and>
     distinct (map input_row_key (transaction_inputs db)) \<and> distinct (map output_row_key (transaction_outputs db)) \<and>
     ti_tx_id ` set (transaction_inputs db) \<subseteq> ct_id ` set (chain_transactions db) \<and>
     txo_tx_id ` set (transaction_outputs db) \<subseteq> ct_id ` set (chain_transactions db) \<and>
     at_chain_transaction_id ` set (account_transfers db) \<subseteq> ct_id ` set (chain_transactions db) \<and>
     ti_address_id ` set (transaction_inputs db) \<subseteq> da_id ` set (digital_asset_addresses db) \<and>
     txo_address_id ` set (transaction_outputs db) \<subseteq> da_id ` set (digital_asset_addresses db)"

subsection \<open>The chain row\<close>

lemma find_upsert_rows:
  assumes "\<And>q. P q \<Longrightarrow> P (f q)" and "P r"
  shows "List.find P (upsert_rows P f r rows) =
    Some (case List.find P rows of None \<Rightarrow> r | Some q \<Rightarrow> f q)"
proof (cases "list_ex P rows")
  case True
  have "List.find P (map (\<lambda>q. if P q then f q else q) rows) = map_option f (List.find P rows)"
    using assms(1) by (induction rows) auto
  moreover have "List.find P rows \<noteq> None" using True by (auto simp: find_None_iff list_ex_iff)
  ultimately show ?thesis using True by (auto simp: upsert_rows_def)
next
  case False
  then have "List.find P rows = None" by (auto simp: find_None_iff list_ex_iff)
  moreover from this have "List.find P (rows @ [r]) = Some r" using assms(2) by (induction rows) (auto split: if_splits)
  ultimately show ?thesis using False by (simp add: upsert_rows_def)
qed

lemma find_key_unique:
  assumes "distinct (map key rows)" and "List.find (\<lambda>q. key q = k) rows = Some q"
  shows "q \<in> set rows" and "key q = k" and "p \<in> set rows \<Longrightarrow> key p = k \<Longrightarrow> p = q"
proof -
  have q: "q \<in> set rows" "key q = k" using assms(2) by (auto simp: find_Some_iff)
  moreover have "inj_on key (set rows)" using assms(1) by (simp add: distinct_map)
  ultimately show "q \<in> set rows" "key q = k" "p \<in> set rows \<Longrightarrow> key p = k \<Longrightarrow> p = q"
    by (blast dest: inj_onD)+
qed

definition same_chain_row :: "ChainTransactionRow \<Rightarrow> ChainTransactionRow \<Rightarrow> bool" where
  "same_chain_row r q \<longleftrightarrow>
     chain_key q = chain_key r \<and> ct_status q = ct_status r \<and> ct_block_height q = ct_block_height r \<and>
     ct_block_hash q = ct_block_hash r \<and> ct_block_time q = ct_block_time r \<and> ct_nonce q = ct_nonce r \<and>
     ct_fee_amount_hi q = ct_fee_amount_hi r \<and> ct_fee_amount_lo q = ct_fee_amount_lo r"

lemma snoc_except: "{p \<in> set (rows @ [x]). f p \<noteq> f x} = {p \<in> set rows. f p \<noteq> f x}"
  by auto

lemma rows_except:
  assumes "\<And>x. x \<in> set rows \<Longrightarrow> P x \<longleftrightarrow> x = p" and "distinct (map ct_id rows)" and "p \<in> set rows"
    and "\<And>x. ct_id (f x) = ct_id x"
  shows "{x \<in> set (map (\<lambda>x. if P x then f x else x) rows). ct_id x \<noteq> ct_id (f p)} = {x \<in> set rows. ct_id x \<noteq> ct_id p}"
proof -
  have "map (\<lambda>x. if P x then f x else x) rows = map (\<lambda>x. if x = p then f p else x) rows"
    using assms(1) by (intro map_cong) auto
  then show ?thesis using assms(4) by auto
qed

text \<open>After the upsert exactly one row has the key; it has the new values and the identifier of the row it replaces.\<close>

lemma put_chain_transaction_ok:
  assumes "distinct (map ct_id (chain_transactions db))" and "distinct (map chain_key (chain_transactions db))"
    and "put_chain_transaction prefix new_id r db = Inr db'"
  obtains cts q where "db' = db\<lparr>chain_transactions := cts\<rparr>" "distinct (map ct_id cts)" "distinct (map chain_key cts)"
    "List.find (\<lambda>p. chain_key p = chain_key r) cts = Some q" "same_chain_row r q"
    "{p \<in> set cts. ct_id p \<noteq> ct_id q} = {p \<in> set (chain_transactions db). ct_id p \<noteq> ct_id q}"
    "case List.find (\<lambda>p. chain_key p = chain_key r) (chain_transactions db) of
       None \<Rightarrow> ct_id q = new_id \<and> new_id \<notin> ct_id ` set (chain_transactions db)
     | Some p \<Rightarrow> ct_id q = ct_id p"
proof -
  let ?rows = "chain_transactions db"
  let ?P = "\<lambda>p. chain_key p = chain_key r"
  let ?f = "\<lambda>q. q\<lparr>ct_status := ct_status r, ct_block_height := ct_block_height r,
            ct_block_hash := ct_block_hash r, ct_block_time := ct_block_time r, ct_fee_amount_hi := ct_fee_amount_hi r,
            ct_fee_amount_lo := ct_fee_amount_lo r, ct_nonce := ct_nonce r, ct_updated_at := ct_updated_at r\<rparr>"
  let ?r = "r\<lparr>ct_id := new_id\<rparr>"
  let ?cts = "upsert_rows ?P ?f ?r ?rows"
  from assms(3) have db': "db' = db\<lparr>chain_transactions := ?cts\<rparr>"
    and fresh: "list_ex ?P ?rows \<or> new_id \<notin> ct_id ` set ?rows"
    by (auto simp: put_chain_transaction_def constraint_def Let_def split: if_splits)
  define q where "q = (case List.find ?P ?rows of None \<Rightarrow> ?r | Some p \<Rightarrow> ?f p)"
  have find: "List.find ?P ?cts = Some q"
    unfolding q_def by (rule find_upsert_rows) simp_all
  have keys: "distinct (map chain_key ?cts)"
    by (rule upsert_rows_distinct [OF assms(2), where k = "chain_key r"]) simp_all
  show ?thesis
  proof (cases "List.find ?P ?rows")
    case None
    then have no: "\<not> list_ex ?P ?rows" by (auto simp: find_None_iff list_ex_iff)
    with fresh have "new_id \<notin> ct_id ` set ?rows" by simp
    have cts: "?cts = ?rows @ [?r]" using no by (simp only: upsert_rows_def if_False)
    have q: "q = ?r" using None by (simp add: q_def)
    have "distinct (map ct_id ?cts)" unfolding cts using assms(1) \<open>new_id \<notin> ct_id ` set ?rows\<close> by simp
    moreover have "{p \<in> set ?cts. ct_id p \<noteq> ct_id q} = {p \<in> set ?rows. ct_id p \<noteq> ct_id q}" unfolding cts q by (rule snoc_except)
    moreover have "same_chain_row r q" unfolding q same_chain_row_def by (intro conjI) simp_all
    moreover have "ct_id q = new_id" unfolding q by simp
    ultimately show ?thesis
      using None \<open>new_id \<notin> ct_id ` set ?rows\<close> by (intro that [OF db' _ keys find]) simp_all
  next
    case (Some p)
    note p = find_key_unique [OF assms(2) Some]
    have yes: "list_ex ?P ?rows" using p(1,2) unfolding list_ex_iff by blast
    have cts: "?cts = map (\<lambda>q. if ?P q then ?f q else q) ?rows" using yes by (simp only: upsert_rows_def if_True)
    have only: "x \<in> set ?rows \<Longrightarrow> ?P x \<longleftrightarrow> x = p" for x using p by blast
    have "map ct_id ?cts = map ct_id ?rows" unfolding cts by simp
    then have ids: "distinct (map ct_id ?cts)" using assms(1) by simp
    have q: "q = ?f p" using Some by (simp add: q_def)
    have "{p' \<in> set ?cts. ct_id p' \<noteq> ct_id q} = {p' \<in> set ?rows. ct_id p' \<noteq> ct_id p}"
      using only assms(1) p(1) unfolding cts q by (rule rows_except) simp_all
    with Some q p(2) show ?thesis using that [OF db' ids keys find] by (simp add: same_chain_row_def)
  qed
qed

definition record_chain_row :: "Env \<Rightarrow> SyncedAssetId \<Rightarrow> Network \<Rightarrow> SyncTransactionRecord \<Rightarrow> string \<Rightarrow> ulid \<Rightarrow> ChainTransactionRow" where
  "record_chain_row env asset_id network rc now_raw i =
     \<lparr>ct_id = i, ct_asset_id = asset_as_str asset_id, ct_network = network_as_str network, ct_tx_hash = st_tx_hash rc,
      ct_status = status_as_db_value (st_status rc), ct_block_height = st_block_height rc, ct_block_hash = st_block_hash rc,
      ct_block_time = map_option (env_to_rfc3339 env) (st_block_time rc), ct_nonce = None, ct_fee_amount_hi = Some 0,
      ct_fee_amount_lo = st_fee_amount rc, ct_created_at = now_raw, ct_updated_at = now_raw\<rparr>"

lemma upsert_chain_transaction_row:
  "upsert_chain_transaction env new_id asset_id network rc now_raw db =
     put_chain_transaction ''Failed to upsert chain transaction: '' new_id (record_chain_row env asset_id network rc now_raw new_id) db"
  by (simp add: upsert_chain_transaction_def record_chain_row_def)

definition record_chain_view :: "Env \<Rightarrow> SyncTransactionRecord \<Rightarrow> ExistingChainTransactionRow" where
  "record_chain_view env rc =
     \<lparr>ec_status = st_status rc, ec_block_height = st_block_height rc, ec_block_hash = st_block_hash rc,
      ec_block_time = map_option (env_to_rfc3339 env) (st_block_time rc), ec_fee_amount_lo = st_fee_amount rc,
      ec_fee_amount_hi = Some 0, ec_nonce = None\<rparr>"

lemma is_chain_transaction_key:
  "is_chain_transaction asset_id network tx_hash = (\<lambda>q. chain_key q = (asset_as_str asset_id, network_as_str network, tx_hash))"
  by (rule ext) (simp add: is_chain_transaction_def)

lemma record_chain_row_key [simp]:
  "chain_key (record_chain_row env asset_id network rc now_raw i) = (asset_as_str asset_id, network_as_str network, st_tx_hash rc)"
  by (simp add: record_chain_row_def)

lemma status_roundtrip [simp]: "status_from_db_value (status_as_db_value s) = Some s"
  by (cases s) (simp_all add: status_from_db_value_def)

lemma load_record_chain_row:
  assumes "List.find (is_chain_transaction asset_id network (st_tx_hash rc)) (chain_transactions db) = Some q"
    and "same_chain_row (record_chain_row env asset_id network rc now_raw i) q"
  shows "load_existing_chain_transaction_row db asset_id network (st_tx_hash rc) = Inr (Some (record_chain_view env rc))"
proof -
  have "ct_status q = status_as_db_value (st_status rc)" using assms(2) by (simp add: same_chain_row_def record_chain_row_def)
  with assms show ?thesis
    by (simp add: load_existing_chain_transaction_row_def record_chain_view_def same_chain_row_def record_chain_row_def)
qed

subsection \<open>Reading the snapshot\<close>

lemma joined_accounts_cong:
  "digital_asset_addresses db' = digital_asset_addresses db \<Longrightarrow> joined_accounts what db' a = joined_accounts what db a"
  by (simp add: joined_accounts_def)

lemma same_rows_of_transaction:
  assumes "distinct (map (\<lambda>r. (tx r, k r)) xs)" and "distinct (map (\<lambda>r. (tx r, k r)) ys)"
    and "{r \<in> set xs. tx r = i} = {r \<in> set ys. tx r = i}"
  shows "sort_key k (filter (\<lambda>r. tx r = i) xs) = sort_key k (filter (\<lambda>r. tx r = i) ys)"
proof (rule sort_key_cong_set)
  have "distinct (map k (filter (\<lambda>r. tx r = i) zs))" if "distinct (map (\<lambda>r. (tx r, k r)) zs)" for zs
    using that by (induction zs) (auto simp: image_iff)
  with assms(1,2) show "distinct (map k (filter (\<lambda>r. tx r = i) xs))" "distinct (map k (filter (\<lambda>r. tx r = i) ys))" by blast+
qed (use assms(3) in auto)

lemma snapshot_inputs_cong:
  assumes "digital_asset_addresses db' = digital_asset_addresses db"
    and "distinct (map input_row_key (transaction_inputs db))" and "distinct (map input_row_key (transaction_inputs db'))"
    and "{r \<in> set (transaction_inputs db'). ti_tx_id r = i} = {r \<in> set (transaction_inputs db). ti_tx_id r = i}"
  shows "snapshot_inputs db' i = snapshot_inputs db i"
  unfolding snapshot_inputs_def joined_accounts_cong [OF assms(1)] same_rows_of_transaction [OF assms(3,2,4)] ..

lemma snapshot_outputs_cong:
  assumes "digital_asset_addresses db' = digital_asset_addresses db"
    and "distinct (map output_row_key (transaction_outputs db))" and "distinct (map output_row_key (transaction_outputs db'))"
    and "{r \<in> set (transaction_outputs db'). txo_tx_id r = i} = {r \<in> set (transaction_outputs db). txo_tx_id r = i}"
  shows "snapshot_outputs db' i = snapshot_outputs db i"
  unfolding snapshot_outputs_def joined_accounts_cong [OF assms(1)] same_rows_of_transaction [OF assms(3,2,4)] ..

subsection \<open>Removing what nothing refers to\<close>

definition owned_transfer :: "ulid \<Rightarrow> AccountTransferRow \<Rightarrow> bool" where
  "owned_transfer i t \<longleftrightarrow> at_chain_transaction_id t = i \<and> (at_from_address_id t \<noteq> None \<or> at_to_address_id t \<noteq> None)"

definition referenced :: "UserDb \<Rightarrow> ulid \<Rightarrow> bool" where
  "referenced db i \<longleftrightarrow>
     (\<exists>r \<in> set (transaction_inputs db). ti_tx_id r = i) \<or> (\<exists>r \<in> set (transaction_outputs db). txo_tx_id r = i) \<or>
     (\<exists>t \<in> set (account_transfers db). at_chain_transaction_id t = i \<and> (at_from_address_id t \<noteq> None \<or> at_to_address_id t \<noteq> None))"

lemma cleanup_one:
  assumes "execute_chain_cleanup_for_marked_candidates [i] db = (stats, db')" and "i \<in> ct_id ` set (chain_transactions db)"
  obtains ts ls where "db' = db\<lparr>account_transfers := ts, account_transaction_ledger := ls,
      chain_transactions := filter (\<lambda>ct. referenced db i \<or> ct_id ct \<noteq> i) (chain_transactions db)\<rparr>"
    "set ts = {t \<in> set (account_transfers db). at_chain_transaction_id t \<noteq> i \<or> owned_transfer i t}"
    "deleted_orphan_chain_transactions stats > 0 \<longleftrightarrow> \<not> referenced db i"
proof -
  let ?unowned = "\<lambda>t. at_chain_transaction_id t \<in> set [i] \<and> at_from_address_id t = None \<and> at_to_address_id t = None"
  let ?db1 = "db\<lparr>account_transfers := filter (\<lambda>t. \<not> ?unowned t) (account_transfers db)\<rparr>"
  have orphan: "is_orphan ?db1 i \<longleftrightarrow> \<not> referenced db i"
    by (auto simp: is_orphan_def referenced_def list_ex_iff)
  have chain: "filter (\<lambda>ct. \<not> (ct_id ct \<in> set [i] \<and> is_orphan ?db1 (ct_id ct))) (chain_transactions db)
      = filter (\<lambda>ct. referenced db i \<or> ct_id ct \<noteq> i) (chain_transactions db)"
    using orphan by (intro filter_cong) auto
  have count: "length (filter (\<lambda>ct. ct_id ct \<in> set [i] \<and> is_orphan ?db1 (ct_id ct)) (chain_transactions db)) > 0 \<longleftrightarrow> \<not> referenced db i"
    using orphan assms(2) by (auto simp: filter_empty_conv)
  note e = assms(1) [unfolded execute_chain_cleanup_for_marked_candidates_def Let_def prod.inject]
  obtain ls where db': "db' = ?db1\<lparr>chain_transactions := filter (\<lambda>ct. \<not> (ct_id ct \<in> set [i] \<and> is_orphan ?db1 (ct_id ct))) (chain_transactions ?db1),
      account_transaction_ledger := ls\<rparr>"
    and stats: "deleted_orphan_chain_transactions stats =
      length (filter (\<lambda>ct. ct_id ct \<in> set [i] \<and> is_orphan ?db1 (ct_id ct)) (chain_transactions ?db1))"
    by (rule that [OF sym [OF conjunct2 [OF e]]]) (simp flip: conjunct1 [OF e])
  let ?ts = "filter (\<lambda>t. \<not> ?unowned t) (account_transfers db)"
  have "db' = db\<lparr>account_transfers := ?ts, account_transaction_ledger := ls,
      chain_transactions := filter (\<lambda>ct. referenced db i \<or> ct_id ct \<noteq> i) (chain_transactions db)\<rparr>"
    unfolding db' chain [symmetric] by simp

  moreover have "deleted_orphan_chain_transactions stats > 0 \<longleftrightarrow> \<not> referenced db i" unfolding stats using count by simp
  moreover have "set ?ts = {t \<in> set (account_transfers db). at_chain_transaction_id t \<noteq> i \<or> owned_transfer i t}"
    by (auto simp: owned_transfer_def)
  ultimately show ?thesis by (intro that [where ts = ?ts and ls = ls])
qed

subsection \<open>Unspent outputs\<close>

text \<open>What a transaction's outputs need to be put into the table of unspent outputs.\<close>

definition utxo_check :: "Env \<Rightarrow> SyncTransactionRecord \<Rightarrow> UserDb \<Rightarrow> SyncTransactionOutputRecord \<Rightarrow> DbError + unit" where
  "utxo_check env rc db output =
     res_bind (owner_of env db (so_raw_address output)) (\<lambda>owner.
       case owner of
         None \<Rightarrow> Inr ()
       | Some a \<Rightarrow>
           res_bind (split_i64_amount (so_value_amount output) ''value_amount'') (\<lambda>parts.
           if 0 \<le> so_output_index output \<and> st_status rc \<noteq> Failed \<and> a \<in> da_id ` set (digital_asset_addresses db) then Inr ()
           else Inl (DbError ''Failed to upsert UTXO: constraint failed'')))"

lemma utxo_check_cong:
  "digital_asset_addresses db' = digital_asset_addresses db \<Longrightarrow> utxo_check env rc db' x = utxo_check env rc db x"
  using owner_of_cong [of db' db env] by (simp add: utxo_check_def cong: option.case_cong)

lemma update_utxos_upd: "\<exists>us. update_utxos P f db = db\<lparr>utxos := us\<rparr>"
  unfolding update_utxos_def by blast

lemma upsert_utxos_upd: "\<exists>us'. (case v of None \<Rightarrow> db\<lparr>utxos := us\<rparr> | Some h \<Rightarrow> update_utxos P (f h) (db\<lparr>utxos := us\<rparr>)) = db\<lparr>utxos := us'\<rparr>"
  by (cases v) (auto simp: update_utxos_def)

lemma reconcile_utxo_step:
  assumes "cache_ok env c db"
  shows "(case utxo_check env rc db x of
      Inl e \<Rightarrow> reconcile_utxo env asset_id network rc now_raw (c, db) x = Inl e
    | Inr _ \<Rightarrow> \<exists>c' us. reconcile_utxo env asset_id network rc now_raw (c, db) x = Inr (c', db\<lparr>utxos := us\<rparr>) \<and> cache_ok env c' db)"
proof (rule resolve_owned_address_id_cached [OF assms, where raw = "so_raw_address x"])
  fix e
  assume "owner_of env db (so_raw_address x) = Inl e" "resolve_owned_address_id env db c (so_raw_address x) = Inl e"
  then show ?thesis by (simp add: utxo_check_def reconcile_utxo_def)
next
  fix v c'
  assume owner: "owner_of env db (so_raw_address x) = Inr v"
    and resolve: "resolve_owned_address_id env db c (so_raw_address x) = Inr (v, c')" and c': "cache_ok env c' db"
  show ?thesis
  proof (cases v)
    case None
    with owner resolve c' show ?thesis by (auto simp: utxo_check_def reconcile_utxo_def intro!: exI [of _ "utxos db"])
  next
    case (Some a)
    show ?thesis
    proof (cases "split_i64_amount (so_value_amount x) ''value_amount''")
      case (Inl e)
      with Some owner resolve show ?thesis by (simp add: utxo_check_def reconcile_utxo_def)
    next
      case (Inr parts)
      show ?thesis
      proof (cases "0 \<le> so_output_index x \<and> st_status rc \<noteq> Failed \<and> a \<in> da_id ` set (digital_asset_addresses db)")
        case False
        with Some owner resolve Inr show ?thesis by (auto simp: utxo_check_def reconcile_utxo_def constraint_def Let_def)
      next
        case True
        with Some owner resolve Inr c' show ?thesis
          using upsert_utxos_upd by (simp add: utxo_check_def reconcile_utxo_def constraint_def Let_def)
      qed
    qed
  qed
qed

lemma reconcile_utxo_loop:
  assumes "cache_ok env c db"
  shows "if \<forall>x \<in> set outputs. is_ok (utxo_check env rc db x)
    then \<exists>c' us. res_fold (reconcile_utxo env asset_id network rc now_raw) (c, db) outputs = Inr (c', db\<lparr>utxos := us\<rparr>)
    else \<exists>e. res_fold (reconcile_utxo env asset_id network rc now_raw) (c, db) outputs = Inl e"
  using assms
proof (induction outputs arbitrary: c db)
  case Nil
  then show ?case by (auto intro: exI [of _ "utxos db"])
next
  case (Cons x xs)
  note step = reconcile_utxo_step [OF Cons.prems, where x = x and rc = rc and asset_id = asset_id and network = network and now_raw = now_raw]
  show ?case
  proof (cases "utxo_check env rc db x")
    case (Inl e)
    with step show ?thesis by simp
  next
    case (Inr u)
    with step obtain c' us where s: "reconcile_utxo env asset_id network rc now_raw (c, db) x = Inr (c', db\<lparr>utxos := us\<rparr>)"
      and c': "cache_ok env c' db" by auto
    have "cache_ok env c' (db\<lparr>utxos := us\<rparr>)" using c' cache_ok_cong [of "db\<lparr>utxos := us\<rparr>" db] by simp
    moreover have "utxo_check env rc (db\<lparr>utxos := us\<rparr>) = utxo_check env rc db" by (intro ext utxo_check_cong) simp
    ultimately show ?thesis using Cons.IH [of c' "db\<lparr>utxos := us\<rparr>"] s Inr by (auto split: if_splits)
  qed
qed

lemma fold_spend_utxo: "\<exists>us. fold (spend_utxo asset_id network tx_hash now_raw) inputs db = db\<lparr>utxos := us\<rparr>"
proof (induction inputs arbitrary: db)
  case Nil
  then show ?case by (intro exI [of _ "utxos db"]) simp
next
  case (Cons x xs)
  obtain us where us: "spend_utxo asset_id network tx_hash now_raw x db = db\<lparr>utxos := us\<rparr>"
    unfolding spend_utxo_def using update_utxos_upd by blast
  from Cons [of "db\<lparr>utxos := us\<rparr>"] show ?case by (simp add: us)
qed

lemma reconcile_utxos_ok:
  assumes "cache_ok env c db" and "\<forall>x \<in> set (st_outputs rc). is_ok (utxo_check env rc db x)"
  shows "\<exists>c' us. reconcile_utxos_for_transaction env asset_id network rc now_raw (c, db) = Inr (c', db\<lparr>utxos := us\<rparr>)"
proof -
  obtain c' us where loop: "res_fold (reconcile_utxo env asset_id network rc now_raw) (c, db) (st_outputs rc) = Inr (c', db\<lparr>utxos := us\<rparr>)"
    using reconcile_utxo_loop [OF assms(1), of "st_outputs rc" rc asset_id network now_raw] assms(2) by auto
  obtain us2 where us2: "fold (spend_utxo asset_id network (st_tx_hash rc) now_raw) (st_inputs rc) (db\<lparr>utxos := us\<rparr>) = db\<lparr>utxos := us2\<rparr>"
    using fold_spend_utxo [of asset_id network "st_tx_hash rc" now_raw "st_inputs rc" "db\<lparr>utxos := us\<rparr>"] by auto
  show ?thesis
    by (cases "st_status rc = Dropped") (auto simp: reconcile_utxos_for_transaction_def loop us2 update_utxos_def Let_def)
qed

lemma reconcile_utxos_only_if:
  assumes "cache_ok env c db" and "reconcile_utxos_for_transaction env asset_id network rc now_raw (c, db) = Inr r"
  shows "\<forall>x \<in> set (st_outputs rc). is_ok (utxo_check env rc db x)"
  using assms(2) reconcile_utxo_loop [OF assms(1), of "st_outputs rc" rc asset_id network now_raw]
  by (auto simp: reconcile_utxos_for_transaction_def split: if_splits)

subsection \<open>The effect of storing a transaction\<close>

definition chain_row_stored :: "Env \<Rightarrow> SyncedAssetId \<Rightarrow> Network \<Rightarrow> SyncTransactionRecord \<Rightarrow> ulid \<Rightarrow> ChainTransactionRow list \<Rightarrow> bool" where
  "chain_row_stored env asset_id network rc i cts \<longleftrightarrow>
     (\<exists>q now_raw. List.find (is_chain_transaction asset_id network (st_tx_hash rc)) cts = Some q \<and> ct_id q = i \<and>
        same_chain_row (record_chain_row env asset_id network rc now_raw i) q)"

definition transaction_stored ::
  "Env \<Rightarrow> SyncedAssetId \<Rightarrow> Network \<Rightarrow> SyncTransactionRecord \<Rightarrow> ulid \<Rightarrow> TransactionInputRow list \<Rightarrow> TransactionOutputRow list \<Rightarrow>
     UserDb \<Rightarrow> UserDb \<Rightarrow> bool" where
  "transaction_stored env asset_id network rc i ins outs db db' \<longleftrightarrow>
     digital_asset_addresses db' = digital_asset_addresses db \<and>
     set (transaction_inputs db') = {r \<in> set (transaction_inputs db). ti_tx_id r \<noteq> i} \<union> set ins \<and>
     set (transaction_outputs db') = {r \<in> set (transaction_outputs db). txo_tx_id r \<noteq> i} \<union> set outs \<and>
     {ct \<in> set (chain_transactions db'). ct_id ct \<noteq> i} = {ct \<in> set (chain_transactions db). ct_id ct \<noteq> i} \<and>
     set (account_transfers db') = {t \<in> set (account_transfers db). at_chain_transaction_id t \<noteq> i \<or> owned_transfer i t} \<and>
     (if ins \<noteq> [] \<or> outs \<noteq> [] \<or> (\<exists>t \<in> set (account_transfers db). owned_transfer i t)
      then chain_row_stored env asset_id network rc i (chain_transactions db')
      else i \<notin> ct_id ` set (chain_transactions db') \<and>
        List.find (is_chain_transaction asset_id network (st_tx_hash rc)) (chain_transactions db') = None)"

lemma owned_inputs_rows:
  assumes "owned_inputs env i db xs = Inr ws" and "distinct (map si_input_index xs)"
  shows "\<forall>r \<in> set ws. ti_tx_id r = i" and "\<forall>r \<in> set ws. ti_address_id r \<in> da_id ` set (digital_asset_addresses db)"
proof -
  have "distinct (map (\<lambda>x. (i, si_input_index x)) xs)" using assms(2) by (rule distinct_pair_keys)
  from inputs_loop.wanted_rows_keys [OF assms(1) [unfolded owned_inputs_loop] this] show "\<forall>r \<in> set ws. ti_tx_id r = i" by auto
  show "\<forall>r \<in> set ws. ti_address_id r \<in> da_id ` set (digital_asset_addresses db)"
    using assms(1)
    by (auto simp: owned_inputs_def res_mapM_Inr_iff in_set_map_filter wanted_input_def dest!: list_all2_mem2 split: option.splits if_splits)
qed

lemma owned_outputs_rows:
  assumes "owned_outputs env i db xs = Inr ws" and "distinct (map so_output_index xs)"
  shows "\<forall>r \<in> set ws. txo_tx_id r = i" and "\<forall>r \<in> set ws. txo_address_id r \<in> da_id ` set (digital_asset_addresses db)"
proof -
  have "distinct (map (\<lambda>x. (i, so_output_index x)) xs)" using assms(2) by (rule distinct_pair_keys)
  from outputs_loop.wanted_rows_keys [OF assms(1) [unfolded owned_outputs_loop] this] show "\<forall>r \<in> set ws. txo_tx_id r = i" by auto
  show "\<forall>r \<in> set ws. txo_address_id r \<in> da_id ` set (digital_asset_addresses db)"
    using assms(1)
    by (auto simp: owned_outputs_def res_mapM_Inr_iff in_set_map_filter wanted_output_def dest!: list_all2_mem2 split: option.splits if_splits)
qed

abbreviation stays :: "UserDb \<Rightarrow> ulid \<Rightarrow> TransactionInputRow list \<Rightarrow> TransactionOutputRow list \<Rightarrow> bool" where
  "stays db i ins outs \<equiv> ins \<noteq> [] \<or> outs \<noteq> [] \<or> (\<exists>t \<in> set (account_transfers db). owned_transfer i t)"

lemma referenced_stored:
  assumes "set (transaction_inputs db3) = {r \<in> set (transaction_inputs db). ti_tx_id r \<noteq> i} \<union> set ins"
    and "set (transaction_outputs db3) = {r \<in> set (transaction_outputs db). txo_tx_id r \<noteq> i} \<union> set outs"
    and "account_transfers db3 = account_transfers db" and "\<forall>r \<in> set ins. ti_tx_id r = i" and "\<forall>r \<in> set outs. txo_tx_id r = i"
  shows "referenced db3 i \<longleftrightarrow> stays db i ins outs"
proof -
  have "(\<exists>r \<in> set (transaction_inputs db3). ti_tx_id r = i) \<longleftrightarrow> ins \<noteq> []"
    unfolding assms(1) using assms(4) by (cases ins) auto
  moreover have "(\<exists>r \<in> set (transaction_outputs db3). txo_tx_id r = i) \<longleftrightarrow> outs \<noteq> []"
    unfolding assms(2) using assms(5) by (cases outs) auto
  ultimately show ?thesis unfolding referenced_def owned_transfer_def assms(3) by simp
qed

lemma find_filter_kept: "List.find P xs = Some q \<Longrightarrow> Q q \<Longrightarrow> List.find P (filter Q xs) = Some q"
  by (induction xs) (auto split: if_splits)

text \<open>The tables after the cleanup, with the new rows in place.\<close>

lemma stored_after_cleanup:
  assumes valid: "chain_tables_valid db"
    and ids: "distinct (map ct_id cts)" and keys: "distinct (map chain_key cts)"
    and q: "chain_row_stored env asset_id network rc i cts" and i: "i \<in> ct_id ` set cts"
    and others: "{ct \<in> set cts. ct_id ct \<noteq> i} = {ct \<in> set (chain_transactions db). ct_id ct \<noteq> i}"
    and kept: "ct_id ` set (chain_transactions db) \<subseteq> ct_id ` set cts"
    and k1: "distinct (map input_row_key r1)" and r1: "set r1 = {r \<in> set (transaction_inputs db). ti_tx_id r \<noteq> i} \<union> set ins"
    and k2: "distinct (map output_row_key r2)" and r2: "set r2 = {r \<in> set (transaction_outputs db). txo_tx_id r \<noteq> i} \<union> set outs"
    and ins: "\<forall>r \<in> set ins. ti_tx_id r = i" "\<forall>r \<in> set ins. ti_address_id r \<in> da_id ` set (digital_asset_addresses db)"
    and outs: "\<forall>r \<in> set outs. txo_tx_id r = i" "\<forall>r \<in> set outs. txo_address_id r \<in> da_id ` set (digital_asset_addresses db)"
    and cleanup: "execute_chain_cleanup_for_marked_candidates [i]
      (db\<lparr>chain_transactions := cts, transaction_inputs := r1, transaction_outputs := r2\<rparr>) = (stats, db4)"
  shows "transaction_stored env asset_id network rc i ins outs db (db4\<lparr>utxos := us\<rparr>)"
    and "chain_tables_valid (db4\<lparr>utxos := us\<rparr>)"
    and "deleted_orphan_chain_transactions stats > 0 \<longleftrightarrow> \<not> stays db i ins outs"
    and "transaction_inputs db4 = r1" and "transaction_outputs db4 = r2"
proof -
  let ?db3 = "db\<lparr>chain_transactions := cts, transaction_inputs := r1, transaction_outputs := r2\<rparr>"
  let ?C = "filter (\<lambda>ct. referenced ?db3 i \<or> ct_id ct \<noteq> i) cts"
  have ref: "referenced ?db3 i \<longleftrightarrow> stays db i ins outs"
    by (rule referenced_stored) (simp_all add: r1 r2 ins(1) outs(1))
  have "i \<in> ct_id ` set (chain_transactions ?db3)" using i by simp
  then obtain ts ls where
    db4': "db4 = ?db3\<lparr>account_transfers := ts, account_transaction_ledger := ls,
      chain_transactions := filter (\<lambda>ct. referenced ?db3 i \<or> ct_id ct \<noteq> i) (chain_transactions ?db3)\<rparr>"
    and ts': "set ts = {t \<in> set (account_transfers ?db3). at_chain_transaction_id t \<noteq> i \<or> owned_transfer i t}"
    and del: "deleted_orphan_chain_transactions stats > 0 \<longleftrightarrow> \<not> referenced ?db3 i"
    by (rule cleanup_one [OF cleanup])
  have db4: "db4 = ?db3\<lparr>account_transfers := ts, account_transaction_ledger := ls, chain_transactions := ?C\<rparr>"
    using db4' by simp
  have ts: "set ts = {t \<in> set (account_transfers db). at_chain_transaction_id t \<noteq> i \<or> owned_transfer i t}" using ts' by simp
  show "deleted_orphan_chain_transactions stats > 0 \<longleftrightarrow> \<not> stays db i ins outs" using del ref by simp
  show "transaction_inputs db4 = r1" "transaction_outputs db4 = r2" by (simp_all add: db4)
  have fields: "digital_asset_addresses (db4\<lparr>utxos := us\<rparr>) = digital_asset_addresses db" "chain_transactions (db4\<lparr>utxos := us\<rparr>) = ?C"
    "transaction_inputs (db4\<lparr>utxos := us\<rparr>) = r1" "transaction_outputs (db4\<lparr>utxos := us\<rparr>) = r2" "account_transfers (db4\<lparr>utxos := us\<rparr>) = ts"
    by (simp_all add: db4)
  have other: "{ct \<in> set ?C. ct_id ct \<noteq> i} = {ct \<in> set (chain_transactions db). ct_id ct \<noteq> i}" unfolding others [symmetric] by auto
  have ids_C: "ct_id ` set ?C = (if stays db i ins outs then ct_id ` set cts else ct_id ` set cts - {i})"
    using ref by auto
  have row: "if stays db i ins outs then chain_row_stored env asset_id network rc i ?C
    else i \<notin> ct_id ` set ?C \<and> List.find (is_chain_transaction asset_id network (st_tx_hash rc)) ?C = None"
  proof (cases "stays db i ins outs")
    case True
    with ref q have "referenced ?db3 i" "chain_row_stored env asset_id network rc i cts" by simp_all
    with True show ?thesis by simp
  next
    case False
    with ref have unref: "\<not> referenced ?db3 i" by simp
    from q obtain p where p: "List.find (is_chain_transaction asset_id network (st_tx_hash rc)) cts = Some p" "ct_id p = i"
      unfolding chain_row_stored_def by blast
    have "ct_id x = i" if "x \<in> set cts" "is_chain_transaction asset_id network (st_tx_hash rc) x" for x
      using find_key_unique(3) [OF keys p(1) [unfolded is_chain_transaction_key] that(1)] that(2) p(2)
      unfolding is_chain_transaction_key by blast
    then have "List.find (is_chain_transaction asset_id network (st_tx_hash rc)) ?C = None"
      unfolding find_None_iff using unref by auto
    then show ?thesis unfolding if_not_P [OF False] using unref by auto
  qed
  show "transaction_stored env asset_id network rc i ins outs db (db4\<lparr>utxos := us\<rparr>)"
    unfolding transaction_stored_def fields using r1 r2 other row ts by (intro conjI refl)
  have tx_ids: "ti_tx_id ` set r1 \<subseteq> ct_id ` set ?C" "txo_tx_id ` set r2 \<subseteq> ct_id ` set ?C"
    "at_chain_transaction_id ` set ts \<subseteq> ct_id ` set ?C"
  proof -
    have sub: "j \<in> ct_id ` set ?C" if "j \<in> ct_id ` set (chain_transactions db)" "j \<noteq> i" for j
      using that kept unfolding ids_C by auto
    have sub_i: "i \<in> ct_id ` set ?C" if "stays db i ins outs" using that i unfolding ids_C by simp
    show "ti_tx_id ` set r1 \<subseteq> ct_id ` set ?C"
      using sub sub_i ins(1) valid unfolding r1 chain_tables_valid_def by (cases ins) (auto simp: subset_iff)
    show "txo_tx_id ` set r2 \<subseteq> ct_id ` set ?C"
      using sub sub_i outs(1) valid unfolding r2 chain_tables_valid_def by (cases outs) (auto simp: subset_iff)
    show "at_chain_transaction_id ` set ts \<subseteq> ct_id ` set ?C"
    proof (rule image_subsetI)
      fix t assume t: "t \<in> set ts"
      show "at_chain_transaction_id t \<in> ct_id ` set ?C"
      proof (cases "at_chain_transaction_id t = i")
        case True
        with t ts have "owned_transfer i t" "t \<in> set (account_transfers db)" by (auto simp: owned_transfer_def)
        with sub_i True show ?thesis by auto
      next
        case False
        with t ts valid sub show ?thesis by (auto simp: chain_tables_valid_def subset_iff)
      qed
    qed
  qed
  show "chain_tables_valid (db4\<lparr>utxos := us\<rparr>)"
    unfolding chain_tables_valid_def fields
    using tx_ids k1 k2 ids keys ins(2) outs(2) valid
    by (auto simp: distinct_map_filter_rows chain_tables_valid_def r1 r2)
qed

text \<open>The row of the transaction before the rows of its inputs and outputs are written.\<close>

lemma upsert_chain_transaction_ok:
  assumes "chain_tables_valid db" and "upsert_chain_transaction env new_id asset_id network rc now_raw db = Inr db1"
  obtains cts i where "db1 = db\<lparr>chain_transactions := cts\<rparr>" "distinct (map ct_id cts)" "distinct (map chain_key cts)"
    "chain_row_stored env asset_id network rc i cts" "i \<in> ct_id ` set cts"
    "{ct \<in> set cts. ct_id ct \<noteq> i} = {ct \<in> set (chain_transactions db). ct_id ct \<noteq> i}"
    "ct_id ` set (chain_transactions db) \<subseteq> ct_id ` set cts"
    "resolve_chain_transaction_id db1 asset_id network (st_tx_hash rc) = Inr i"
    "case List.find (is_chain_transaction asset_id network (st_tx_hash rc)) (chain_transactions db) of
       None \<Rightarrow> i = new_id \<and> new_id \<notin> ct_id ` set (chain_transactions db)
     | Some p \<Rightarrow> i = ct_id p"
proof -
  let ?r = "record_chain_row env asset_id network rc now_raw new_id"
  have "distinct (map ct_id (chain_transactions db))" "distinct (map chain_key (chain_transactions db))"
    using assms(1) by (simp_all add: chain_tables_valid_def)
  from put_chain_transaction_ok [OF this assms(2) [unfolded upsert_chain_transaction_row]]
  obtain cts q where db1: "db1 = db\<lparr>chain_transactions := cts\<rparr>" and ids: "distinct (map ct_id cts)"
    and keys: "distinct (map chain_key cts)" and find: "List.find (\<lambda>p. chain_key p = chain_key ?r) cts = Some q"
    and same: "same_chain_row ?r q"
    and other: "{p \<in> set cts. ct_id p \<noteq> ct_id q} = {p \<in> set (chain_transactions db). ct_id p \<noteq> ct_id q}"
    and old: "case List.find (\<lambda>p. chain_key p = chain_key ?r) (chain_transactions db) of
       None \<Rightarrow> ct_id q = new_id \<and> new_id \<notin> ct_id ` set (chain_transactions db) | Some p \<Rightarrow> ct_id q = ct_id p"
    by blast
  have key: "(\<lambda>p. chain_key p = chain_key ?r) = is_chain_transaction asset_id network (st_tx_hash rc)"
    by (simp add: is_chain_transaction_key)
  note find' = find [unfolded key]
  have q: "q \<in> set cts" using find' by (auto simp: find_Some_iff)
  have same': "same_chain_row (record_chain_row env asset_id network rc now_raw (ct_id q)) q"
    using same by (simp add: same_chain_row_def record_chain_row_def)
  show ?thesis
  proof (rule that [OF db1 ids keys _ _ other])
    show "chain_row_stored env asset_id network rc (ct_id q) cts" using find' same' unfolding chain_row_stored_def by blast
    show "ct_id q \<in> ct_id ` set cts" using q by simp
    show "ct_id ` set (chain_transactions db) \<subseteq> ct_id ` set cts"
    proof (rule image_subsetI)
      fix p assume p: "p \<in> set (chain_transactions db)"
      show "ct_id p \<in> ct_id ` set cts"
      proof (cases "ct_id p = ct_id q")
        case False
        then have "p \<in> {p \<in> set (chain_transactions db). ct_id p \<noteq> ct_id q}" using p by simp
        then show ?thesis unfolding other [symmetric] by blast
      qed (use q in simp)
    qed
    show "resolve_chain_transaction_id db1 asset_id network (st_tx_hash rc) = Inr (ct_id q)"
      using find' by (simp add: resolve_chain_transaction_id_def db1)
    show "case List.find (is_chain_transaction asset_id network (st_tx_hash rc)) (chain_transactions db) of
       None \<Rightarrow> ct_id q = new_id \<and> new_id \<notin> ct_id ` set (chain_transactions db) | Some p \<Rightarrow> ct_id q = ct_id p"
      using old unfolding key .
  qed
qed

definition record_well_formed :: "SyncTransactionRecord \<Rightarrow> bool" where
  "record_well_formed rc \<longleftrightarrow> distinct (map si_input_index (st_inputs rc)) \<and> distinct (map so_output_index (st_outputs rc))"

definition change_flags ::
  "bool \<Rightarrow> ExistingTransactionSnapshot option \<Rightarrow> ExistingTransactionSnapshot option \<Rightarrow> bool \<times> bool" where
  "change_flags kept existing current =
     (if kept then (existing = None, existing \<noteq> None \<and> current \<noteq> None \<and> existing \<noteq> current) else (False, False))"

text \<open>When the rows of a record can be written, they are, and only the reading of the stored rows can still fail.\<close>

lemma apply_transaction_forward:
  assumes valid: "chain_tables_valid db" and wf: "record_well_formed rc"
    and existing: "load_existing_transaction_snapshot db asset_id network (st_tx_hash rc) = Inr existing"
    and put: "upsert_chain_transaction env new_id asset_id network rc now_raw db = Inr db1"
    and i: "resolve_chain_transaction_id db1 asset_id network (st_tx_hash rc) = Inr i"
    and ins: "owned_inputs env i db (st_inputs rc) = Inr ins" and outs: "owned_outputs env i db (st_outputs rc) = Inr outs"
    and us: "\<forall>x \<in> set (st_outputs rc). is_ok (utxo_check env rc db x)"
  obtains db' where "transaction_stored env asset_id network rc i ins outs db db'" "chain_tables_valid db'"
    "apply_transaction_reconciliation env new_id asset_id network rc now_raw db =
      res_bind (load_existing_transaction_snapshot db' asset_id network (st_tx_hash rc)) (\<lambda>current.
      res_bind (coverage_invalidation_for_change env existing current) (\<lambda>invalidation.
      Inr ((fst (change_flags (stays db i ins outs) existing current), snd (change_flags (stays db i ins outs) existing current), invalidation), db')))"
proof -
  obtain cts i0 where
    db1: "db1 = db\<lparr>chain_transactions := cts\<rparr>" and cts0: "distinct (map ct_id cts)" "distinct (map chain_key cts)"
      "chain_row_stored env asset_id network rc i0 cts" "i0 \<in> ct_id ` set cts"
      "{ct \<in> set cts. ct_id ct \<noteq> i0} = {ct \<in> set (chain_transactions db). ct_id ct \<noteq> i0}"
      "ct_id ` set (chain_transactions db) \<subseteq> ct_id ` set cts"
    and i0: "resolve_chain_transaction_id db1 asset_id network (st_tx_hash rc) = Inr i0"
    by (rule upsert_chain_transaction_ok [OF valid put])
  from i0 i have "i0 = i" by simp
  note cts = cts0 [unfolded this]
  have wf': "distinct (map si_input_index (st_inputs rc))" "distinct (map so_output_index (st_outputs rc))"
    using wf by (simp_all add: record_well_formed_def)
  have keys: "distinct (map input_row_key (transaction_inputs db1))" using valid by (simp add: chain_tables_valid_def db1)
  have "owned_inputs env i db1 (st_inputs rc) = Inr ins" using ins owned_inputs_cong [of db1 db] by (simp add: db1)
  from upsert_transaction_inputs_ok [OF cache_ok_empty this wf'(1) keys] obtain c2 r1 where
    s2: "upsert_transaction_inputs env i (st_inputs rc) (Map.empty, db1) = Inr (c2, db1\<lparr>transaction_inputs := r1\<rparr>)"
    and c2: "cache_ok env c2 db1" and k1: "distinct (map input_row_key r1)"
    and r1: "set r1 = {r \<in> set (transaction_inputs db1). ti_tx_id r \<noteq> i} \<union> set ins" by blast
  let ?db2 = "db1\<lparr>transaction_inputs := r1\<rparr>"
  have "owned_outputs env i ?db2 (st_outputs rc) = Inr outs" using outs owned_outputs_cong [of ?db2 db] by (simp add: db1)
  moreover have "cache_ok env c2 ?db2" using c2 by simp
  moreover have "distinct (map output_row_key (transaction_outputs ?db2))" using valid by (simp add: chain_tables_valid_def db1)
  ultimately obtain c3 r2 where
    s3: "upsert_transaction_outputs env i (st_outputs rc) (c2, ?db2) = Inr (c3, ?db2\<lparr>transaction_outputs := r2\<rparr>)"
    and c3: "cache_ok env c3 ?db2" and k2: "distinct (map output_row_key r2)"
    and r2: "set r2 = {r \<in> set (transaction_outputs ?db2). txo_tx_id r \<noteq> i} \<union> set outs"
    using upsert_transaction_outputs_ok [OF _ _ wf'(2)] by blast
  let ?db3 = "?db2\<lparr>transaction_outputs := r2\<rparr>"
  obtain stats db4 where s4: "execute_chain_cleanup_for_marked_candidates [i] ?db3 = (stats, db4)" by fastforce
  have r1': "set r1 = {r \<in> set (transaction_inputs db). ti_tx_id r \<noteq> i} \<union> set ins"
    and r2': "set r2 = {r \<in> set (transaction_outputs db). txo_tx_id r \<noteq> i} \<union> set outs" using r1 r2 by (simp_all add: db1)
  note after = stored_after_cleanup [OF valid cts k1 r1' k2 r2' owned_inputs_rows [OF ins wf'(1)] owned_outputs_rows [OF outs wf'(2)]
      s4 [unfolded db1]]
  have addresses: "digital_asset_addresses db4 = digital_asset_addresses db"
    using after(1) by (simp add: transaction_stored_def)
  have "cache_ok env c3 db4" using c3 addresses cache_ok_cong [of db4 ?db2] by (simp add: db1)
  moreover have "\<forall>x \<in> set (st_outputs rc). is_ok (utxo_check env rc db4 x)" using us utxo_check_cong [OF addresses] by simp
  ultimately obtain c5 us' where
    s5: "reconcile_utxos_for_transaction env asset_id network rc now_raw (c3, db4) = Inr (c5, db4\<lparr>utxos := us'\<rparr>)"
    using reconcile_utxos_ok by blast
  show ?thesis
  proof (rule that [OF after(1) [of us'] after(2) [of us']])
    show "apply_transaction_reconciliation env new_id asset_id network rc now_raw db =
      res_bind (load_existing_transaction_snapshot (db4\<lparr>utxos := us'\<rparr>) asset_id network (st_tx_hash rc)) (\<lambda>current.
      res_bind (coverage_invalidation_for_change env existing current) (\<lambda>invalidation.
      Inr ((fst (change_flags (stays db i ins outs) existing current), snd (change_flags (stays db i ins outs) existing current), invalidation),
        db4\<lparr>utxos := us'\<rparr>)))"
      unfolding apply_transaction_reconciliation_def existing put
      by (cases "stays db i ins outs") (simp_all add: i s2 s3 s4 s5 after(3) change_flags_def)
  qed
qed

lemma cleanup_addresses:
  "execute_chain_cleanup_for_marked_candidates is db = (stats, db') \<Longrightarrow> digital_asset_addresses db' = digital_asset_addresses db"
  by (auto simp: execute_chain_cleanup_for_marked_candidates_def Let_def)

text \<open>A record that was stored could be written.\<close>

lemma apply_transaction_inverse:
  assumes valid: "chain_tables_valid db" and wf: "record_well_formed rc"
    and ok: "apply_transaction_reconciliation env new_id asset_id network rc now_raw db = Inr ((inserted, updated, invalidation), db')"
  obtains existing db1 i ins outs current where
    "load_existing_transaction_snapshot db asset_id network (st_tx_hash rc) = Inr existing"
    "upsert_chain_transaction env new_id asset_id network rc now_raw db = Inr db1"
    "resolve_chain_transaction_id db1 asset_id network (st_tx_hash rc) = Inr i"
    "owned_inputs env i db (st_inputs rc) = Inr ins" "owned_outputs env i db (st_outputs rc) = Inr outs"
    "\<forall>x \<in> set (st_outputs rc). is_ok (utxo_check env rc db x)"
    "transaction_stored env asset_id network rc i ins outs db db'" "chain_tables_valid db'"
    "load_existing_transaction_snapshot db' asset_id network (st_tx_hash rc) = Inr current"
    "coverage_invalidation_for_change env existing current = Inr invalidation"
    "(inserted, updated) = change_flags (stays db i ins outs) existing current"
proof -
  have wf': "distinct (map si_input_index (st_inputs rc))" "distinct (map so_output_index (st_outputs rc))"
    using wf by (simp_all add: record_well_formed_def)
  from ok obtain existing db1 i c2 db2 c3 db3 r5 where
    existing: "load_existing_transaction_snapshot db asset_id network (st_tx_hash rc) = Inr existing"
    and put: "upsert_chain_transaction env new_id asset_id network rc now_raw db = Inr db1"
    and i: "resolve_chain_transaction_id db1 asset_id network (st_tx_hash rc) = Inr i"
    and s2: "upsert_transaction_inputs env i (st_inputs rc) (Map.empty, db1) = Inr (c2, db2)"
    and s3: "upsert_transaction_outputs env i (st_outputs rc) (c2, db2) = Inr (c3, db3)"
    and s5': "reconcile_utxos_for_transaction env asset_id network rc now_raw
      (c3, snd (execute_chain_cleanup_for_marked_candidates [i] db3)) = Inr r5"
    unfolding apply_transaction_reconciliation_def by (auto simp: case_prod_beta)
  obtain stats db4 where s4: "execute_chain_cleanup_for_marked_candidates [i] db3 = (stats, db4)" by fastforce
  note s5 = s5' [unfolded s4 snd_conv]
  obtain cts where db1: "db1 = db\<lparr>chain_transactions := cts\<rparr>" by (rule upsert_chain_transaction_ok [OF valid put])
  have keys: "distinct (map input_row_key (transaction_inputs db1))" "distinct (map output_row_key (transaction_outputs db1))"
    using valid by (simp_all add: chain_tables_valid_def db1)
  obtain ins r1 where ins1: "owned_inputs env i db1 (st_inputs rc) = Inr ins" and c2: "cache_ok env c2 db1"
    and db2: "db2 = db1\<lparr>transaction_inputs := r1\<rparr>"
    by (rule upsert_transaction_inputs_returned [OF s2 cache_ok_empty wf'(1) keys(1)])
  have "cache_ok env c2 db2" using c2 by (simp add: db2)
  moreover have "distinct (map output_row_key (transaction_outputs db2))" using keys(2) by (simp add: db2)
  ultimately obtain outs r2 where outs2: "owned_outputs env i db2 (st_outputs rc) = Inr outs" and c3: "cache_ok env c3 db2"
    and db3: "db3 = db2\<lparr>transaction_outputs := r2\<rparr>"
    using upsert_transaction_outputs_returned [OF s3 _ wf'(2)] by blast
  have a: "digital_asset_addresses db1 = digital_asset_addresses db" "digital_asset_addresses db2 = digital_asset_addresses db"
    "digital_asset_addresses db4 = digital_asset_addresses db"
    using cleanup_addresses [OF s4] by (simp_all add: db1 db2 db3)
  note ins = ins1 [unfolded owned_inputs_cong [OF a(1)]] and outs = outs2 [unfolded owned_outputs_cong [OF a(2)]]
  have "cache_ok env c3 db4" using c3 cache_ok_cong [of db4 db2] a by simp
  from reconcile_utxos_only_if [OF this s5] have us: "\<forall>x \<in> set (st_outputs rc). is_ok (utxo_check env rc db x)"
    using utxo_check_cong [OF a(3)] by simp
  from apply_transaction_forward [OF valid wf existing put i ins outs us] obtain db5 where
    stored: "transaction_stored env asset_id network rc i ins outs db db5" "chain_tables_valid db5"
    and eq: "apply_transaction_reconciliation env new_id asset_id network rc now_raw db =
      res_bind (load_existing_transaction_snapshot db5 asset_id network (st_tx_hash rc)) (\<lambda>current.
      res_bind (coverage_invalidation_for_change env existing current) (\<lambda>invalidation.
      Inr ((fst (change_flags (stays db i ins outs) existing current), snd (change_flags (stays db i ins outs) existing current), invalidation), db5)))"
    by blast
  from ok [unfolded eq] obtain current where "load_existing_transaction_snapshot db5 asset_id network (st_tx_hash rc) = Inr current"
    "coverage_invalidation_for_change env existing current = Inr invalidation"
    "(inserted, updated) = change_flags (stays db i ins outs) existing current" "db5 = db'" by auto
  with existing put i ins outs us stored show ?thesis using that by blast
qed

end
