(* ===== verification/Reconcile_Spec.thy ===== *)
theory Reconcile_Spec
  imports Reconcile_Effect
begin

section \<open>Properties of storing fetched transactions\<close>

text \<open>
  What the callers of the reconciliation rely on: the stored rows are those of the fetched record, storing it again changes
  nothing, a contradiction of a stored confirmed transaction withdraws the completeness of every history it belongs to, and a
  failing batch does not lose what its committed transactions contradicted.
\<close>

subsection \<open>The rows of the record\<close>

text \<open>
  C24. A fetched transaction is stored exactly: afterwards the inputs and outputs of the transaction are those of the record
  whose addresses are tracked, its chain row has the record's values and exists just when something refers to it, the rows of
  other transactions are untouched, and the tables keep their unique and foreign keys.
\<close>

theorem fetched_transaction_stored_exactly:
  assumes "chain_tables_valid db" and "record_well_formed rc"
    and "apply_transaction_reconciliation env new_id asset_id network rc now_raw db = Inr ((inserted, updated, targets), db')"
  shows "\<exists>i ins outs. owned_inputs env i db (st_inputs rc) = Inr ins \<and> owned_outputs env i db (st_outputs rc) = Inr outs \<and>
    transaction_stored env asset_id network rc i ins outs db db' \<and> chain_tables_valid db'"
  by (rule apply_transaction_inverse [OF assms]) blast

subsection \<open>The stored snapshot\<close>

lemma snapshot_of_stored:
  assumes "transaction_stored env asset_id network rc i ins outs db db'"
  shows "load_existing_transaction_snapshot db' asset_id network (st_tx_hash rc) =
    (if stays db i ins outs
     then res_bind (snapshot_inputs db' i) (\<lambda>inputs. res_bind (snapshot_outputs db' i) (\<lambda>outputs.
       Inr (Some \<lparr>es_chain = record_chain_view env rc, es_inputs = inputs, es_outputs = outputs\<rparr>)))
     else Inr None)"
proof (cases "stays db i ins outs")
  case True
  with assms have "chain_row_stored env asset_id network rc i (chain_transactions db')" by (simp add: transaction_stored_def)
  then obtain q now_raw where q: "List.find (is_chain_transaction asset_id network (st_tx_hash rc)) (chain_transactions db') = Some q"
    "ct_id q = i" "same_chain_row (record_chain_row env asset_id network rc now_raw i) q"
    unfolding chain_row_stored_def by blast
  have row: "load_existing_chain_transaction_row db' asset_id network (st_tx_hash rc) = Inr (Some (record_chain_view env rc))"
    using q(1,3) by (rule load_record_chain_row)
  have i: "resolve_chain_transaction_id db' asset_id network (st_tx_hash rc) = Inr i"
    using q(1,2) by (simp add: resolve_chain_transaction_id_def)
  show ?thesis using True by (simp add: load_existing_transaction_snapshot_def row i)
next
  case False
  with assms have "List.find (is_chain_transaction asset_id network (st_tx_hash rc)) (chain_transactions db') = None"
    unfolding transaction_stored_def by simp
  then show ?thesis unfolding if_not_P [OF False]
    by (simp add: load_existing_transaction_snapshot_def load_existing_chain_transaction_row_def)
qed

lemma stored_rows_of:
  assumes "transaction_stored env asset_id network rc i ins outs db db'"
    and "\<forall>r \<in> set ins. ti_tx_id r = i" and "\<forall>r \<in> set outs. txo_tx_id r = i"
  shows "{r \<in> set (transaction_inputs db'). ti_tx_id r = i} = set ins"
    and "{r \<in> set (transaction_outputs db'). txo_tx_id r = i} = set outs"
  using assms by (auto simp: transaction_stored_def)

lemma owned_inputs_none:
  "owned_inputs env i db xs = Inr [] \<Longrightarrow> owned_inputs env j db xs = Inr []"
proof (induction xs)
  case (Cons x xs)
  then show ?case
    by (cases "owned_inputs env i db xs")
      (auto simp: owned_inputs_loop option_list_def wanted_input_def split: option.splits if_splits)
qed (simp add: owned_inputs_def)

lemma owned_outputs_none:
  "owned_outputs env i db xs = Inr [] \<Longrightarrow> owned_outputs env j db xs = Inr []"
proof (induction xs)
  case (Cons x xs)
  then show ?case
    by (cases "owned_outputs env i db xs")
      (auto simp: owned_outputs_loop option_list_def wanted_output_def split: option.splits if_splits)
qed (simp add: owned_outputs_def)

lemma upsert_chain_transaction_again:
  assumes "upsert_chain_transaction env new_id asset_id network rc now_raw db = Inr db1"
    and "List.find (is_chain_transaction asset_id network (st_tx_hash rc)) (chain_transactions db') \<noteq> None \<or>
      new_id' \<notin> ct_id ` set (chain_transactions db')"
  shows "\<exists>db2. upsert_chain_transaction env new_id' asset_id network rc now_raw' db' = Inr db2"
proof -
  have "list_ex (\<lambda>q. ct_asset_id q = asset_as_str asset_id \<and> ct_network q = network_as_str network \<and> ct_tx_hash q = st_tx_hash rc)
      (chain_transactions db') \<or> new_id' \<notin> ct_id ` set (chain_transactions db')"
    using assms(2) by (auto simp: find_None_iff list_ex_iff is_chain_transaction_def)
  with assms(1) show ?thesis
    by (auto simp: upsert_chain_transaction_def put_chain_transaction_def constraint_def Let_def split: if_splits)
qed

lemma stays_stored:
  "transaction_stored env asset_id network rc i ins outs db db' \<Longrightarrow> stays db' i ins outs \<longleftrightarrow> stays db i ins outs"
  by (auto simp: transaction_stored_def owned_transfer_def)

lemma no_change_no_targets:
  assumes "current \<noteq> None \<longrightarrow> es_chain (the current) = record_chain_view env rc"
    and "st_status rc = Confirmed \<longrightarrow> st_block_height rc \<noteq> None"
  shows "coverage_invalidation_for_change env current current = Inr no_targets"
proof (cases current)
  case None
  then show ?thesis by (simp add: coverage_invalidation_for_change_def)
next
  case (Some c)
  with assms have "es_chain c = record_chain_view env rc" by simp
  with assms(2) have "ec_status (es_chain c) \<noteq> Confirmed \<or> \<not> contradicts c (Some c)"
    by (simp add: contradicts_def record_chain_view_def)
  with Some show ?thesis by (simp add: coverage_invalidation_for_change_def)
qed

lemma reconcile_again_kept:
  assumes valid: "chain_tables_valid db'" and wf: "record_well_formed rc"
    and stored: "transaction_stored env asset_id network rc i ins outs db db'" and stays: "stays db i ins outs"
    and put: "upsert_chain_transaction env new_id' asset_id network rc now_raw' db' = Inr db2"
    and ins: "owned_inputs env i db (st_inputs rc) = Inr ins" and outs: "owned_outputs env i db (st_outputs rc) = Inr outs"
    and us: "\<forall>x \<in> set (st_outputs rc). is_ok (utxo_check env rc db x)"
    and current: "load_existing_transaction_snapshot db' asset_id network (st_tx_hash rc) = Inr current"
    and height: "st_status rc = Confirmed \<longrightarrow> st_block_height rc \<noteq> None"
  shows "\<exists>db''. apply_transaction_reconciliation env new_id' asset_id network rc now_raw' db' = Inr ((False, False, no_targets), db'') \<and>
    load_existing_transaction_snapshot db'' asset_id network (st_tx_hash rc) = Inr current \<and>
    transaction_stored env asset_id network rc i ins outs db' db''"
proof -
  have a: "digital_asset_addresses db' = digital_asset_addresses db" using stored by (simp add: transaction_stored_def)
  from stored stays obtain q where q: "List.find (is_chain_transaction asset_id network (st_tx_hash rc)) (chain_transactions db') = Some q" "ct_id q = i"
    by (auto simp: transaction_stored_def chain_row_stored_def)
  obtain i2 where i2: "resolve_chain_transaction_id db2 asset_id network (st_tx_hash rc) = Inr i2"
    "case List.find (is_chain_transaction asset_id network (st_tx_hash rc)) (chain_transactions db') of
       None \<Rightarrow> i2 = new_id' \<and> new_id' \<notin> ct_id ` set (chain_transactions db') | Some p \<Rightarrow> i2 = ct_id p"
    by (rule upsert_chain_transaction_ok [OF valid put])
  then have i: "resolve_chain_transaction_id db2 asset_id network (st_tx_hash rc) = Inr i" using q by simp
  have wf': "distinct (map si_input_index (st_inputs rc))" "distinct (map so_output_index (st_outputs rc))"
    using wf by (simp_all add: record_well_formed_def)
  have us': "\<forall>x \<in> set (st_outputs rc). is_ok (utxo_check env rc db' x)" using us utxo_check_cong [OF a] by simp
  note ins' = ins [folded owned_inputs_cong [OF a]] and outs' = outs [folded owned_outputs_cong [OF a]]
  have stays': "stays db' i ins outs" using stays stays_stored [OF stored] by simp
  from apply_transaction_forward [OF valid wf current put i ins' outs' us'] obtain db'' where
    stored': "transaction_stored env asset_id network rc i ins outs db' db''" and valid': "chain_tables_valid db''"
    and eq: "apply_transaction_reconciliation env new_id' asset_id network rc now_raw' db' =
      res_bind (load_existing_transaction_snapshot db'' asset_id network (st_tx_hash rc)) (\<lambda>c.
      res_bind (coverage_invalidation_for_change env current c) (\<lambda>invalidation.
      Inr ((fst (change_flags (stays db' i ins outs) current c), snd (change_flags (stays db' i ins outs) current c), invalidation), db'')))"
    by blast
  have a': "digital_asset_addresses db'' = digital_asset_addresses db'" using stored' by (simp add: transaction_stored_def)
  note rows = stored_rows_of [OF stored owned_inputs_rows(1) [OF ins wf'(1)] owned_outputs_rows(1) [OF outs wf'(2)]]
  note rows' = stored_rows_of [OF stored' owned_inputs_rows(1) [OF ins wf'(1)] owned_outputs_rows(1) [OF outs wf'(2)]]
  have keys: "distinct (map input_row_key (transaction_inputs db'))" "distinct (map input_row_key (transaction_inputs db''))"
    "distinct (map output_row_key (transaction_outputs db'))" "distinct (map output_row_key (transaction_outputs db''))"
    using valid valid' by (simp_all add: chain_tables_valid_def)
  have same: "snapshot_inputs db'' i = snapshot_inputs db' i" "snapshot_outputs db'' i = snapshot_outputs db' i"
    using snapshot_inputs_cong [OF a' keys(1,2)] snapshot_outputs_cong [OF a' keys(3,4)] rows rows' by simp_all
  have load: "load_existing_transaction_snapshot db'' asset_id network (st_tx_hash rc) = Inr current"
    using current snapshot_of_stored [OF stored] snapshot_of_stored [OF stored'] same stays stays' by simp
  have some: "current \<noteq> None \<and> es_chain (the current) = record_chain_view env rc"
    using current snapshot_of_stored [OF stored] stays by auto
  then have "coverage_invalidation_for_change env current current = Inr no_targets" using no_change_no_targets height by blast
  with eq load some stays' stored' show ?thesis by (auto simp: change_flags_def)
qed

lemma reconcile_again_removed:
  assumes valid: "chain_tables_valid db'" and wf: "record_well_formed rc"
    and stored: "transaction_stored env asset_id network rc i ins outs db db'" and gone: "\<not> stays db i ins outs"
    and put: "upsert_chain_transaction env new_id' asset_id network rc now_raw' db' = Inr db2"
    and ins: "owned_inputs env i db (st_inputs rc) = Inr ins" and outs: "owned_outputs env i db (st_outputs rc) = Inr outs"
    and us: "\<forall>x \<in> set (st_outputs rc). is_ok (utxo_check env rc db x)"
    and fresh: "new_id' \<notin> ct_id ` set (chain_transactions db')"
  shows "\<exists>db''. apply_transaction_reconciliation env new_id' asset_id network rc now_raw' db' = Inr ((False, False, no_targets), db'') \<and>
    load_existing_transaction_snapshot db'' asset_id network (st_tx_hash rc) = Inr None \<and>
    transaction_stored env asset_id network rc new_id' [] [] db' db''"
proof -
  have a: "digital_asset_addresses db' = digital_asset_addresses db" using stored by (simp add: transaction_stored_def)
  from stored gone have none: "List.find (is_chain_transaction asset_id network (st_tx_hash rc)) (chain_transactions db') = None"
    unfolding transaction_stored_def by simp
  have current: "load_existing_transaction_snapshot db' asset_id network (st_tx_hash rc) = Inr None"
    using snapshot_of_stored [OF stored] gone by simp
  obtain i2 where i2: "resolve_chain_transaction_id db2 asset_id network (st_tx_hash rc) = Inr i2"
    "case List.find (is_chain_transaction asset_id network (st_tx_hash rc)) (chain_transactions db') of
       None \<Rightarrow> i2 = new_id' \<and> new_id' \<notin> ct_id ` set (chain_transactions db') | Some p \<Rightarrow> i2 = ct_id p"
    by (rule upsert_chain_transaction_ok [OF valid put])
  then have i: "resolve_chain_transaction_id db2 asset_id network (st_tx_hash rc) = Inr new_id'" using none by simp
  have us': "\<forall>x \<in> set (st_outputs rc). is_ok (utxo_check env rc db' x)" using us utxo_check_cong [OF a] by simp
  have "ins = []" "outs = []" using gone by simp_all
  then have ins': "owned_inputs env new_id' db' (st_inputs rc) = Inr []" and outs': "owned_outputs env new_id' db' (st_outputs rc) = Inr []"
    using owned_inputs_none [of env i db'] owned_outputs_none [of env i db'] ins outs owned_inputs_cong [OF a] owned_outputs_cong [OF a] by simp_all
  have "at_chain_transaction_id t \<noteq> new_id'" if "t \<in> set (account_transfers db')" for t
    using valid fresh that by (auto simp: chain_tables_valid_def)
  then have gone': "\<not> stays db' new_id' [] []" by (auto simp: owned_transfer_def)
  from apply_transaction_forward [OF valid wf current put i ins' outs' us'] obtain db'' where
    stored': "transaction_stored env asset_id network rc new_id' [] [] db' db''"
    and eq: "apply_transaction_reconciliation env new_id' asset_id network rc now_raw' db' =
      res_bind (load_existing_transaction_snapshot db'' asset_id network (st_tx_hash rc)) (\<lambda>c.
      res_bind (coverage_invalidation_for_change env None c) (\<lambda>invalidation.
      Inr ((fst (change_flags (stays db' new_id' [] []) None c), snd (change_flags (stays db' new_id' [] []) None c), invalidation), db'')))"
    by blast
  have load: "load_existing_transaction_snapshot db'' asset_id network (st_tx_hash rc) = Inr None"
    using snapshot_of_stored [OF stored'] gone' by simp
  from eq load gone' stored' show ?thesis
    by (auto simp: change_flags_def coverage_invalidation_for_change_def)
qed

text \<open>
  C25. Storing a fetched record again changes nothing: the second time it succeeds, reports neither a new nor a changed
  transaction and no contradiction, and the snapshot of the transaction and the rows of all inputs and outputs are the same. A
  confirmed record needs a block height: without one every storing is taken for a contradiction.
\<close>

theorem fetched_transaction_stored_again:
  assumes valid: "chain_tables_valid db" and wf: "record_well_formed rc"
    and ok: "apply_transaction_reconciliation env new_id asset_id network rc now_raw db = Inr ((inserted, updated, targets), db')"
    and fresh: "new_id' \<notin> ct_id ` set (chain_transactions db')"
    and height: "st_status rc = Confirmed \<longrightarrow> st_block_height rc \<noteq> None"
  shows "\<exists>db''. apply_transaction_reconciliation env new_id' asset_id network rc now_raw' db' = Inr ((False, False, no_targets), db'') \<and>
    load_existing_transaction_snapshot db'' asset_id network (st_tx_hash rc) =
      load_existing_transaction_snapshot db' asset_id network (st_tx_hash rc) \<and>
    set (transaction_inputs db'') = set (transaction_inputs db') \<and> set (transaction_outputs db'') = set (transaction_outputs db')"
proof -
  obtain db1 i ins outs current where put: "upsert_chain_transaction env new_id asset_id network rc now_raw db = Inr db1"
    and ins: "owned_inputs env i db (st_inputs rc) = Inr ins" and outs: "owned_outputs env i db (st_outputs rc) = Inr outs"
    and us: "\<forall>x \<in> set (st_outputs rc). is_ok (utxo_check env rc db x)"
    and stored: "transaction_stored env asset_id network rc i ins outs db db'" and valid': "chain_tables_valid db'"
    and current: "load_existing_transaction_snapshot db' asset_id network (st_tx_hash rc) = Inr current"
    by (rule apply_transaction_inverse [OF valid wf ok])
  obtain db2 where put2: "upsert_chain_transaction env new_id' asset_id network rc now_raw' db' = Inr db2"
    using upsert_chain_transaction_again [OF put] fresh by blast
  have wf': "distinct (map si_input_index (st_inputs rc))" "distinct (map so_output_index (st_outputs rc))"
    using wf by (simp_all add: record_well_formed_def)
  note rows = stored_rows_of [OF stored owned_inputs_rows(1) [OF ins wf'(1)] owned_outputs_rows(1) [OF outs wf'(2)]]
  show ?thesis
  proof (cases "stays db i ins outs")
    case True
    from reconcile_again_kept [OF valid' wf stored True put2 ins outs us current height] obtain db'' where
      apply2: "apply_transaction_reconciliation env new_id' asset_id network rc now_raw' db' = Inr ((False, False, no_targets), db'')"
      and load: "load_existing_transaction_snapshot db'' asset_id network (st_tx_hash rc) = Inr current"
      and stored': "transaction_stored env asset_id network rc i ins outs db' db''" by blast
    have "set (transaction_inputs db'') = set (transaction_inputs db')" "set (transaction_outputs db'') = set (transaction_outputs db')"
      using stored' rows unfolding transaction_stored_def by blast+
    with apply2 load current show ?thesis by auto
  next
    case False
    from reconcile_again_removed [OF valid' wf stored False put2 ins outs us fresh] obtain db'' where
      apply2: "apply_transaction_reconciliation env new_id' asset_id network rc now_raw' db' = Inr ((False, False, no_targets), db'')"
      and load: "load_existing_transaction_snapshot db'' asset_id network (st_tx_hash rc) = Inr None"
      and stored': "transaction_stored env asset_id network rc new_id' [] [] db' db''" by blast
    have "load_existing_transaction_snapshot db' asset_id network (st_tx_hash rc) = Inr None"
      using snapshot_of_stored [OF stored] False by simp
    moreover have "ti_tx_id r \<noteq> new_id'" if "r \<in> set (transaction_inputs db')" for r
      using valid' fresh that by (auto simp: chain_tables_valid_def)
    moreover have "txo_tx_id r \<noteq> new_id'" if "r \<in> set (transaction_outputs db')" for r
      using valid' fresh that by (auto simp: chain_tables_valid_def)
    ultimately show ?thesis using apply2 load stored' by (auto simp: transaction_stored_def)
  qed
qed

subsection \<open>Contradictions\<close>

lemma targets_fold_covers:
  assumes "res_fold (\<lambda>targets (address_id, account_id).
       res_bind (parse_address_id env address_id) (\<lambda>a.
       res_bind (parse_account_id env account_id) (\<lambda>c.
       Inr \<lparr>target_address_ids = insert a (target_address_ids targets),
            target_account_ids = insert c (target_account_ids targets)\<rparr>))) targets0 ps = Inr targets"
  shows "target_address_ids targets0 \<subseteq> target_address_ids targets \<and> target_account_ids targets0 \<subseteq> target_account_ids targets \<and>
    (\<forall>p \<in> set ps. (\<exists>x \<in> target_address_ids targets. env_parse_ulid env (fst p) = Inr x) \<and>
      (\<exists>y \<in> target_account_ids targets. env_parse_ulid env (snd p) = Inr y))"
  using assms
proof (induction ps arbitrary: targets0)
  case (Cons p ps)
  obtain a c where p: "p = (a, c)" by fastforce
  from Cons.prems obtain x y where x: "env_parse_ulid env a = Inr x" and y: "env_parse_ulid env c = Inr y"
    and rest: "res_fold (\<lambda>targets (address_id, account_id).
       res_bind (parse_address_id env address_id) (\<lambda>a.
       res_bind (parse_account_id env account_id) (\<lambda>c.
       Inr \<lparr>target_address_ids = insert a (target_address_ids targets),
            target_account_ids = insert c (target_account_ids targets)\<rparr>)))
      \<lparr>target_address_ids = insert x (target_address_ids targets0), target_account_ids = insert y (target_account_ids targets0)\<rparr> ps
      = Inr targets"
    by (auto simp: p parse_address_id_def parse_account_id_def)
  from Cons.IH [OF rest] x y show ?case by (auto simp: p)
qed simp

lemma invalidation_covers_owners:
  assumes "coverage_invalidation_for_change env (Some before) after = Inr targets" and "ec_status (es_chain before) = Confirmed"
    and "contradicts before after"
    and "p \<in> set (owned_pairs before) \<union> (case after of None \<Rightarrow> {} | Some s \<Rightarrow> set (owned_pairs s))"
  shows "(\<exists>x \<in> target_address_ids targets. env_parse_ulid env (fst p) = Inr x) \<and>
    (\<exists>y \<in> target_account_ids targets. env_parse_ulid env (snd p) = Inr y)"
proof (cases after)
  case None
  with assms have "add_owned_targets env before no_targets = Inr targets"
    by (simp add: coverage_invalidation_for_change_def)
  from targets_fold_covers [OF this [unfolded add_owned_targets_def]] None assms(4) show ?thesis by simp
next
  case (Some s)
  with assms obtain t1 where t1: "add_owned_targets env before no_targets = Inr t1" and t2: "add_owned_targets env s t1 = Inr targets"
    by (auto simp: coverage_invalidation_for_change_def)
  note c1 = targets_fold_covers [OF t1 [unfolded add_owned_targets_def]] and c2 = targets_fold_covers [OF t2 [unfolded add_owned_targets_def]]
  from assms(4) Some consider "p \<in> set (owned_pairs before)" | "p \<in> set (owned_pairs s)" by auto
  then show ?thesis
  proof cases
    case 1
    with c1 c2 show ?thesis by blast
  next
    case 2
    with c2 show ?thesis by blast
  qed
qed

text \<open>An owner in a snapshot is an address the user tracks, with its account.\<close>

lemma joined_account_address:
  assumes "joined_accounts what db a = Inr accounts" and "c \<in> set accounts"
  shows "\<exists>da \<in> set (digital_asset_addresses db). da_id da = a \<and> da_account_id da = Some c"
  using assms by (auto simp: joined_accounts_def res_mapM_Inr_iff dest!: list_all2_mem2)

lemma snapshot_input_owner:
  assumes "snapshot_inputs db i = Inr rows" and "r \<in> set rows"
  shows "\<exists>da \<in> set (digital_asset_addresses db). da_id da = ei_address_id r \<and> da_account_id da = Some (ei_account_id r)"
proof -
  from assms obtain yss ys where "list_all2 (\<lambda>ti ys. \<exists>accounts. joined_accounts ''input'' db (ti_address_id ti) = Inr accounts \<and>
      ys = map (\<lambda>account_id. \<lparr>ei_input_index = ti_input_index ti, ei_prev_tx_hash = ti_prev_tx_hash ti,
        ei_prev_output_index = ti_prev_output_index ti, ei_address_id = ti_address_id ti, ei_account_id = account_id,
        ei_value_amount_lo = ti_value_amount_lo ti, ei_value_amount_hi = ti_value_amount_hi ti\<rparr>) accounts)
      (sort_key ti_input_index (filter (\<lambda>ti. ti_tx_id ti = i) (transaction_inputs db))) yss" and ys: "ys \<in> set yss" "r \<in> set ys"
    by (auto simp: snapshot_inputs_def res_mapM_Inr_iff)
  from list_all2_mem2 [OF this(1,2)] obtain ti :: TransactionInputRow and accounts where j: "joined_accounts ''input'' db (ti_address_id ti) = Inr accounts"
    and "ys = map (\<lambda>account_id. \<lparr>ei_input_index = ti_input_index ti, ei_prev_tx_hash = ti_prev_tx_hash ti,
        ei_prev_output_index = ti_prev_output_index ti, ei_address_id = ti_address_id ti, ei_account_id = account_id,
        ei_value_amount_lo = ti_value_amount_lo ti, ei_value_amount_hi = ti_value_amount_hi ti\<rparr>) accounts" by blast
  then have "ei_address_id r = ti_address_id ti \<and> ei_account_id r \<in> set accounts" using ys(2) by auto
  with joined_account_address [OF j] show ?thesis by simp
qed

lemma snapshot_output_owner:
  assumes "snapshot_outputs db i = Inr rows" and "r \<in> set rows"
  shows "\<exists>da \<in> set (digital_asset_addresses db). da_id da = eo_address_id r \<and> da_account_id da = Some (eo_account_id r)"
proof -
  from assms obtain yss ys where "list_all2 (\<lambda>txo ys. \<exists>accounts. joined_accounts ''output'' db (txo_address_id txo) = Inr accounts \<and>
      ys = map (\<lambda>account_id. \<lparr>eo_output_index = txo_output_index txo, eo_address_id = txo_address_id txo, eo_account_id = account_id,
        eo_raw_address = txo_raw_address txo, eo_script_pubkey_hex = txo_script_pubkey_hex txo,
        eo_value_amount_lo = txo_value_amount_lo txo, eo_value_amount_hi = txo_value_amount_hi txo\<rparr>) accounts)
      (sort_key txo_output_index (filter (\<lambda>txo. txo_tx_id txo = i) (transaction_outputs db))) yss" and ys: "ys \<in> set yss" "r \<in> set ys"
    by (auto simp: snapshot_outputs_def res_mapM_Inr_iff)
  from list_all2_mem2 [OF this(1,2)] obtain txo :: TransactionOutputRow and accounts where j: "joined_accounts ''output'' db (txo_address_id txo) = Inr accounts"
    and "ys = map (\<lambda>account_id. \<lparr>eo_output_index = txo_output_index txo, eo_address_id = txo_address_id txo, eo_account_id = account_id,
        eo_raw_address = txo_raw_address txo, eo_script_pubkey_hex = txo_script_pubkey_hex txo,
        eo_value_amount_lo = txo_value_amount_lo txo, eo_value_amount_hi = txo_value_amount_hi txo\<rparr>) accounts" by blast
  then have "eo_address_id r = txo_address_id txo \<and> eo_account_id r \<in> set accounts" using ys(2) by auto
  with joined_account_address [OF j] show ?thesis by simp
qed

lemma snapshot_owner_tracked:
  assumes "load_existing_transaction_snapshot db asset_id network tx_hash = Inr (Some s)" and "(a, c) \<in> set (owned_pairs s)"
  shows "\<exists>da \<in> set (digital_asset_addresses db). da_id da = a \<and> da_account_id da = Some c"
proof -
  from assms(1) obtain i where inputs: "snapshot_inputs db i = Inr (es_inputs s)" and outputs: "snapshot_outputs db i = Inr (es_outputs s)"
    by (auto simp: load_existing_transaction_snapshot_def split: option.splits)
  from assms(2) consider r where "r \<in> set (es_inputs s)" "a = ei_address_id r" "c = ei_account_id r"
    | r where "r \<in> set (es_outputs s)" "a = eo_address_id r" "c = eo_account_id r" by (auto simp: owned_pairs_def)
  then show ?thesis
  proof cases
    case 1
    with snapshot_input_owner [OF inputs 1(1)] show ?thesis by simp
  next
    case 2
    with snapshot_output_owner [OF outputs 2(1)] show ?thesis by simp
  qed
qed

lemma invalidation_keeps_addresses:
  "digital_asset_addresses (invalidate_mempool_history_coverage env targets now db) = digital_asset_addresses db"
  by (simp add: invalidate_mempool_history_coverage_def invalidate_mempool_history_coverage_tx_def update_sync_state_def Let_def)

definition stored_ids_canonical :: "Env \<Rightarrow> UserDb \<Rightarrow> bool" where
  "stored_ids_canonical env db =
     list_all (\<lambda>da. env_parse_ulid env (da_id da) = Inr (da_id da) \<and>
       (case da_account_id da of None \<Rightarrow> True | Some c \<Rightarrow> env_parse_ulid env c = Inr c)) (digital_asset_addresses db)"

text \<open>
  C26. A contradiction withdraws completeness. When storing a fetched record changes a stored confirmed transaction or removes
  it, then after the invalidation of the targets it reports no account that owned one of its inputs or outputs, before or after,
  has a complete history, and each of these accounts is among the targets, so its closing balances are cleared. The
  identifiers stored with the addresses were written as a ULID is displayed, so that reading them gives them back.
\<close>

theorem contradiction_withdraws_completeness:
  assumes valid: "chain_tables_valid db" and wf: "record_well_formed rc"
    and ok: "apply_transaction_reconciliation env new_id asset_id network rc now_raw db = Inr ((inserted, updated, targets), db')"
    and before: "load_existing_transaction_snapshot db asset_id network (st_tx_hash rc) = Inr (Some before)"
    and confirmed: "ec_status (es_chain before) = Confirmed"
    and after: "load_existing_transaction_snapshot db' asset_id network (st_tx_hash rc) = Inr after" "contradicts before after"
    and owner: "(a, c) \<in> set (owned_pairs before) \<union> (case after of None \<Rightarrow> {} | Some s \<Rightarrow> set (owned_pairs s))"
    and canonical: "stored_ids_canonical env db"
    and cov: "load_candidate_bitcoin_history_coverage (invalidate_mempool_history_coverage env targets now db') c network' entries masked = Inr cand"
  shows "c \<in> target_account_ids targets \<and> coverage cand \<noteq> Complete h"
proof -
  obtain existing current i ins outs where existing: "load_existing_transaction_snapshot db asset_id network (st_tx_hash rc) = Inr existing"
    and current: "load_existing_transaction_snapshot db' asset_id network (st_tx_hash rc) = Inr current"
    and inval: "coverage_invalidation_for_change env existing current = Inr targets"
    and stored: "transaction_stored env asset_id network rc i ins outs db db'"
    by (rule apply_transaction_inverse [OF valid wf ok])
  have inval': "coverage_invalidation_for_change env (Some before) after = Inr targets" using existing current inval before after(1) by simp
  have "\<exists>da \<in> set (digital_asset_addresses db'). da_id da = a \<and> da_account_id da = Some c"
  proof (cases "(a, c) \<in> set (owned_pairs before)")
    case True
    from snapshot_owner_tracked [OF before True] stored show ?thesis by (simp add: transaction_stored_def)
  next
    case False
    with owner obtain s where s: "after = Some s" "(a, c) \<in> set (owned_pairs s)" by (auto split: option.splits)
    from snapshot_owner_tracked [OF after(1) [unfolded s(1)] s(2)] show ?thesis .
  qed
  then obtain da where da: "da \<in> set (digital_asset_addresses db')" "da_id da = a" "da_account_id da = Some c" by blast
  have "digital_asset_addresses db' = digital_asset_addresses db" using stored by (simp add: transaction_stored_def)
  with canonical da have "env_parse_ulid env a = Inr a" "env_parse_ulid env c = Inr c"
    by (auto simp: stored_ids_canonical_def list_all_iff split: option.splits)
  with invalidation_covers_owners [OF inval' confirmed after(2) owner]
  have targets: "a \<in> target_address_ids targets" "c \<in> target_account_ids targets" by auto
  from invalidated_history_not_complete [OF da(1,3) _ cov] targets da(2) show ?thesis by simp
qed

subsection \<open>Batches\<close>

text \<open>
  The transactions a call commits, in order, each with the targets it reported; between the batches other holders of the lock
  change the database.
\<close>

inductive commits ::
  "Env \<Rightarrow> (UserDb \<Rightarrow> ulid) \<Rightarrow> DbLock \<Rightarrow> SyncedAssetId \<Rightarrow> Network \<Rightarrow> string \<Rightarrow> UserDb \<Rightarrow>
     (SyncTransactionRecord \<times> CoverageInvalidationTargets) list \<Rightarrow> UserDb \<Rightarrow> bool"
  for env fresh lock asset_id network now_raw where
  nothing: "commits env fresh lock asset_id network now_raw db [] db"
| other: "commits env fresh lock asset_id network now_raw (fst (lock k db)) cs db' \<Longrightarrow>
    commits env fresh lock asset_id network now_raw db cs db'"
| commit: "apply_transaction_reconciliation env (fresh db) asset_id network rc now_raw db = Inr ((inserted, updated, targets), db1) \<Longrightarrow>
    commits env fresh lock asset_id network now_raw db1 cs db' \<Longrightarrow>
    commits env fresh lock asset_id network now_raw db ((rc, targets) # cs) db'"

lemma commits_append:
  "commits env fresh lock asset_id network now_raw db cs db1 \<Longrightarrow> commits env fresh lock asset_id network now_raw db1 ds db' \<Longrightarrow>
   commits env fresh lock asset_id network now_raw db (cs @ ds) db'"
  by (induction rule: commits.induct) (auto intro: commits.intros)

definition all_targets :: "CoverageInvalidationTargets list \<Rightarrow> CoverageInvalidationTargets" where
  "all_targets ts = \<lparr>target_address_ids = \<Union> (target_address_ids ` set ts), target_account_ids = \<Union> (target_account_ids ` set ts)\<rparr>"

definition outcome_summary ::
  "DbError \<times> TransactionSyncReconcileSummary + TransactionSyncReconcileSummary \<Rightarrow> TransactionSyncReconcileSummary" where
  "outcome_summary outcome = (case outcome of Inl (e, s) \<Rightarrow> s | Inr s \<Rightarrow> s)"

lemma union_with_assoc: "union_with (union_with a b) c = union_with a (union_with b c)"
  by (simp add: union_with_def Un_assoc)

lemma all_targets_Nil [simp]: "all_targets [] = no_targets"
  by (simp add: all_targets_def no_targets_def)

lemma all_targets_Cons [simp]: "all_targets (t # ts) = union_with t (all_targets ts)"
  by (simp add: all_targets_def union_with_def)

lemma union_with_no_targets [simp]: "union_with a no_targets = a" "union_with no_targets a = a"
  by (simp_all add: union_with_def no_targets_def)

lemma all_targets_append: "all_targets (ts @ us) = union_with (all_targets ts) (all_targets us)"
  by (induction ts) (simp_all add: union_with_assoc)

lemma chunks_nonempty: "[] \<notin> set (chunks n xs)"
  by (induction n xs rule: chunks.induct) (subst chunks.simps, auto)

lemma concat_chunks: "0 < n \<Longrightarrow> concat (chunks n xs) = xs"
  by (induction n xs rule: chunks.induct) (subst chunks.simps, simp)

lemma reconcile_batch_commits:
  assumes "reconcile_batch env fresh asset_id network now_raw rcs summary db = (outcome, db')"
  shows "\<exists>cs. commits env fresh lock asset_id network now_raw db cs db' \<and> map fst cs = take (length cs) rcs \<and>
    rs_coverage_invalidation (outcome_summary outcome) = union_with (rs_coverage_invalidation summary) (all_targets (map snd cs)) \<and>
    (case outcome of Inr _ \<Rightarrow> length cs = length rcs
     | Inl (e, _) \<Rightarrow> length cs < length rcs \<and>
         apply_transaction_reconciliation env (fresh db') asset_id network (rcs ! length cs) now_raw db' = Inl e)"
  using assms
proof (induction rcs arbitrary: summary db)
  case Nil
  then show ?case by (intro exI [of _ "[]"]) (auto simp: outcome_summary_def intro: commits.nothing)
next
  case (Cons rc rcs)
  show ?case
  proof (cases "apply_transaction_reconciliation env (fresh db) asset_id network rc now_raw db")
    case (Inl e)
    with Cons.prems show ?thesis by (intro exI [of _ "[]"]) (auto simp: outcome_summary_def intro: commits.nothing)
  next
    case (Inr r)
    obtain inserted updated targets db1 where r: "r = ((inserted, updated, targets), db1)" by (metis prod_cases3 surj_pair)
    let ?s = "\<lparr>rs_new_tx_count = count_if inserted (rs_new_tx_count summary),
             rs_updated_tx_count = count_if updated (rs_updated_tx_count summary),
             rs_coverage_invalidation = union_with (rs_coverage_invalidation summary) targets\<rparr>"
    have "reconcile_batch env fresh asset_id network now_raw rcs ?s db1 = (outcome, db')" using Cons.prems Inr r by simp
    from Cons.IH [OF this] obtain cs where cs: "commits env fresh lock asset_id network now_raw db1 cs db'" "map fst cs = take (length cs) rcs"
      "rs_coverage_invalidation (outcome_summary outcome) = union_with (rs_coverage_invalidation ?s) (all_targets (map snd cs))"
      "case outcome of Inr _ \<Rightarrow> length cs = length rcs
     | Inl (e, _) \<Rightarrow> length cs < length rcs \<and>
         apply_transaction_reconciliation env (fresh db') asset_id network (rcs ! length cs) now_raw db' = Inl e"
      by blast
    show ?thesis
      using cs commits.commit [OF Inr [unfolded r] cs(1)]
      by (intro exI [of _ "(rc, targets) # cs"]) (auto simp: union_with_assoc split: sum.splits)
  qed
qed

text \<open>Where a call with an error stopped: at a transaction that could not be stored, or between two batches at the lock.\<close>

definition stopped_at ::
  "Env \<Rightarrow> (UserDb \<Rightarrow> ulid) \<Rightarrow> DbLock \<Rightarrow> SyncedAssetId \<Rightarrow> Network \<Rightarrow> string \<Rightarrow> SyncTransactionRecord list list \<Rightarrow> nat \<Rightarrow> DbError \<Rightarrow> UserDb \<Rightarrow> bool" where
  "stopped_at env fresh lock asset_id network now_raw batches n e db \<longleftrightarrow>
     n < length (concat batches) \<and>
     (apply_transaction_reconciliation env (fresh db) asset_id network (concat batches ! n) now_raw db = Inl e \<or>
      (\<exists>j k before. n = length (concat (take j batches)) \<and> lock k before = (db, Some e)))"

lemma stopped_later:
  "stopped_at env fresh lock asset_id network now_raw batches n e db \<Longrightarrow>
     stopped_at env fresh lock asset_id network now_raw (batch # batches) (length batch + n) e db"
  unfolding stopped_at_def by (auto simp: nth_append intro: exI [of _ "Suc _"])

lemma reconcile_batches_commits:
  assumes "reconcile_batches env fresh lock asset_id network now_raw batches summary db = (outcome, db')" and "[] \<notin> set batches"
  shows "\<exists>cs. commits env fresh lock asset_id network now_raw db cs db' \<and> map fst cs = take (length cs) (concat batches) \<and>
    rs_coverage_invalidation (outcome_summary outcome) = union_with (rs_coverage_invalidation summary) (all_targets (map snd cs)) \<and>
    (case outcome of Inr _ \<Rightarrow> length cs = length (concat batches)
     | Inl (e, _) \<Rightarrow> stopped_at env fresh lock asset_id network now_raw batches (length cs) e db')"
  using assms
proof (induction batches arbitrary: summary db)
  case Nil
  then show ?case by (intro exI [of _ "[]"]) (auto simp: outcome_summary_def intro: commits.nothing)
next
  case (Cons batch batches)
  obtain db1 failure where l: "lock (length batches) db = (db1, failure)" by fastforce
  have db1: "commits env fresh lock asset_id network now_raw db cs d" if "commits env fresh lock asset_id network now_raw db1 cs d" for cs d
    using commits.other [where k = "length batches" and lock = lock and db = db] that l by simp
  show ?case
  proof (cases failure)
    case (Some e)
    with Cons.prems l have "outcome = Inl (e, summary)" "db' = db1" by auto
    moreover have "stopped_at env fresh lock asset_id network now_raw (batch # batches) 0 e db1"
      unfolding stopped_at_def
      by (rule conjI, use Cons.prems(2) in \<open>cases batch; simp\<close>, rule disjI2, rule exI [of _ 0], rule exI [of _ "length batches"], rule exI [of _ db],
        use l Some in simp)
    ultimately show ?thesis
      using db1 [OF commits.nothing] by (intro exI [of _ "[]"]) (simp add: outcome_summary_def)
  next
    case None
    obtain out1 db2 where first: "reconcile_batch env fresh asset_id network now_raw batch empty_summary db1 = (out1, db2)" by fastforce
    from reconcile_batch_commits [OF first, of lock] obtain cs where
      cs: "commits env fresh lock asset_id network now_raw db1 cs db2" "map fst cs = take (length cs) batch"
        "rs_coverage_invalidation (outcome_summary out1) = all_targets (map snd cs)"
        "case out1 of Inr _ \<Rightarrow> length cs = length batch
       | Inl (e, _) \<Rightarrow> length cs < length batch \<and>
           apply_transaction_reconciliation env (fresh db2) asset_id network (batch ! length cs) now_raw db2 = Inl e"
      by (auto simp: empty_summary_def)
    note cs1 = db1 [OF cs(1)]
    show ?thesis
    proof (cases out1)
      case (Inl es)
      obtain e s where es: "es = (e, s)" by fastforce
      with Inl first None l Cons.prems have "outcome = Inl (e, merge_reconcile_summary summary s)" "db' = db2" by auto
      with cs cs1 Inl es show ?thesis
        by (intro exI [of _ cs]) (auto simp: outcome_summary_def merge_reconcile_summary_def nth_append stopped_at_def)
    next
      case (Inr s)
      with first None l Cons.prems have rest: "reconcile_batches env fresh lock asset_id network now_raw batches
          (merge_reconcile_summary summary s) db2 = (outcome, db')" by simp
      from Cons.prems(2) have "[] \<notin> set batches" by simp
      from Cons.IH [OF rest this] obtain ds where ds: "commits env fresh lock asset_id network now_raw db2 ds db'"
        "map fst ds = take (length ds) (concat batches)"
        "rs_coverage_invalidation (outcome_summary outcome) =
          union_with (rs_coverage_invalidation (merge_reconcile_summary summary s)) (all_targets (map snd ds))"
        "case outcome of Inr _ \<Rightarrow> length ds = length (concat batches)
         | Inl (e, _) \<Rightarrow> stopped_at env fresh lock asset_id network now_raw batches (length ds) e db'" by blast
      have "rs_coverage_invalidation s = all_targets (map snd cs)" "length cs = length batch"
        using cs(3,4) Inr by (simp_all add: outcome_summary_def)
      with ds cs(2) commits_append [OF cs1 ds(1)] show ?thesis
        by (intro exI [of _ "cs @ ds"])
          (auto simp: merge_reconcile_summary_def all_targets_append union_with_assoc split: sum.splits intro: stopped_later)
    qed
  qed
qed

text \<open>
  C27. A call that stores many transactions commits them one by one in their order. Whether it succeeds or fails, the targets it
  reports are those of exactly the transactions it committed, so nothing a committed transaction contradicted is lost; it
  fails only at a transaction that cannot be stored, which leaves no trace, or between two batches when the database cannot be
  opened.
\<close>

theorem invalidations_survive_failure:
  "case reconcile_address_transactions_preserving_invalidation env fresh lock asset_id network records observed db of
     (outcome, db') \<Rightarrow>
       \<exists>cs. commits env fresh lock asset_id network (env_to_rfc3339 env observed) db cs db' \<and> map fst cs = take (length cs) records \<and>
         rs_coverage_invalidation (outcome_summary outcome) = all_targets (map snd cs) \<and>
         (case outcome of Inr _ \<Rightarrow> length cs = length records
          | Inl (e, _) \<Rightarrow> length cs < length records \<and>
              (apply_transaction_reconciliation env (fresh db') asset_id network (records ! length cs) (env_to_rfc3339 env observed) db' = Inl e \<or>
               (\<exists>j k before. map fst cs = concat (take j (chunks RECONCILE_LOCK_BATCH_SIZE records)) \<and> lock k before = (db', Some e))))"
proof -
  have all: "concat (chunks RECONCILE_LOCK_BATCH_SIZE records) = records"
    by (rule concat_chunks) (simp add: RECONCILE_LOCK_BATCH_SIZE_def)
  have whole: "take (length (concat (take j bs))) (concat bs) = concat (take j bs)" for j and bs :: "SyncTransactionRecord list list"
    by (metis append_eq_conv_conj append_take_drop_id concat_append)
  obtain outcome db' where eq: "reconcile_address_transactions_preserving_invalidation env fresh lock asset_id network records observed db = (outcome, db')"
    by fastforce
  from reconcile_batches_commits [OF this [unfolded reconcile_address_transactions_preserving_invalidation_def] chunks_nonempty]
  obtain cs where cs: "commits env fresh lock asset_id network (env_to_rfc3339 env observed) db cs db'" "map fst cs = take (length cs) records"
    "rs_coverage_invalidation (outcome_summary outcome) = all_targets (map snd cs)"
    "case outcome of Inr _ \<Rightarrow> length cs = length records
     | Inl (e, _) \<Rightarrow> stopped_at env fresh lock asset_id network (env_to_rfc3339 env observed)
         (chunks RECONCILE_LOCK_BATCH_SIZE records) (length cs) e db'"
    unfolding all by (auto simp: empty_summary_def)
  have "length cs < length records \<and>
      (apply_transaction_reconciliation env (fresh db') asset_id network (records ! length cs) (env_to_rfc3339 env observed) db' = Inl e \<or>
       (\<exists>j k before. map fst cs = concat (take j (chunks RECONCILE_LOCK_BATCH_SIZE records)) \<and> lock k before = (db', Some e)))"
    if "outcome = Inl (e, s)" for e s
    using cs(2,4) that whole [of _ "chunks RECONCILE_LOCK_BATCH_SIZE records"] unfolding stopped_at_def all by auto
  with cs show ?thesis unfolding eq prod.case by (intro exI [of _ cs]) (auto split: sum.splits)
qed

subsection \<open>Samples\<close>

text \<open>A received output, stored, found again in another block, in a database that tracks its address.\<close>

definition reconcile_sample_db :: UserDb where
  "reconcile_sample_db = sync_sample_db\<lparr>chain_transactions := [], transaction_inputs := [], transaction_outputs := [], account_transfers := [], utxos := []\<rparr>"

definition sample_rc :: "int \<Rightarrow> SyncTransactionRecord" where
  "sample_rc height =
     \<lparr>st_tx_hash = ''h1'', st_status = Confirmed, st_block_height = Some height, st_block_hash = None, st_block_time = None,
      st_fee_amount = Some 1, st_inputs = [], st_outputs = [\<lparr>so_output_index = 0, so_raw_address = Some ''bc1'',
        so_script_pubkey_hex = ''00'', so_value_amount = 7\<rparr>]\<rparr>"

definition sample_stored_db :: "int \<Rightarrow> UserDb" where
  "sample_stored_db height = reconcile_sample_db\<lparr>
     chain_transactions := [record_chain_row sample_env Bitcoin Mainnet (sample_rc height) ''t'' ''t1''],
     transaction_outputs := [\<lparr>txo_tx_id = ''t1'', txo_output_index = 0, txo_address_id = ''d1'', txo_raw_address = Some ''bc1'',
       txo_script_pubkey_hex = ''00'', txo_value_amount_hi = 0, txo_value_amount_lo = 7\<rparr>],
     utxos := [\<lparr>ut_asset_id = ''bitcoin'', ut_network = ''mainnet'', ut_tx_hash = ''h1'', ut_output_index = 0, ut_address_id = ''d1'',
       ut_value_amount_hi = 0, ut_value_amount_lo = 7, ut_status = ''confirmed'', ut_replaced_by_tx_hash = None,
       ut_spent_by_tx_hash = None, ut_spent_at = None\<rparr>]\<rparr>"

lemma sample_split: "split_i64_amount 7 what = Inr \<lparr>split_hi = 0, split_lo = 7\<rparr>"
  by (simp add: split_i64_amount_def try_from_i64_def split_unsigned_amount_small)

lemmas reconcile_sample_simps = reconcile_sample_db_def sample_rc_def sample_stored_db_def record_chain_row_def sync_sample_db_def
  sample_proved_db_def sample_btc_db_def sample_env_def

lemmas reconcile_eval = apply_transaction_reconciliation_def load_existing_transaction_snapshot_def load_existing_chain_transaction_row_def
  is_chain_transaction_def upsert_chain_transaction_def put_chain_transaction_def constraint_def upsert_rows_def
  resolve_chain_transaction_id_def upsert_transaction_inputs_def upsert_transaction_outputs_def upsert_transaction_output_def
  resolve_owned_address_id_def lookup_owned_address_def parse_address_id_def sample_split is_output_def
  execute_chain_cleanup_for_marked_candidates_def is_orphan_def reconcile_utxos_for_transaction_def reconcile_utxo_def is_utxo_def
  spending_tx_hash_def snapshot_inputs_def snapshot_outputs_def joined_accounts_def coverage_invalidation_for_change_def
  contradicts_def add_owned_targets_def owned_pairs_def parse_account_id_def no_targets_def status_from_db_value_def Let_def

lemma sample_stored_valid: "chain_tables_valid (sample_stored_db height)" "chain_tables_valid reconcile_sample_db"
  by (simp_all add: chain_tables_valid_def reconcile_sample_simps)

lemma sample_rc_well_formed: "record_well_formed (sample_rc height)"
  by (simp add: record_well_formed_def sample_rc_def)

lemma sample_first_stored:
  "apply_transaction_reconciliation sample_env ''t1'' Bitcoin Mainnet (sample_rc 5) ''t'' reconcile_sample_db =
     Inr ((True, False, no_targets), sample_stored_db 5)"
  by (simp add: reconcile_eval reconcile_sample_simps)

text \<open>The same transaction in another block contradicts the stored one.\<close>

lemma sample_second_stored:
  "apply_transaction_reconciliation sample_env ''t2'' Bitcoin Mainnet (sample_rc 6) ''t'' (sample_stored_db 5) =
     Inr ((False, True, \<lparr>target_address_ids = {''d1''}, target_account_ids = {''acc''}\<rparr>), sample_stored_db 6)"
  by (simp add: reconcile_eval reconcile_sample_simps)

definition sample_snapshot :: "int \<Rightarrow> ExistingTransactionSnapshot" where
  "sample_snapshot height =
     \<lparr>es_chain = record_chain_view sample_env (sample_rc height), es_inputs = [],
      es_outputs = [\<lparr>eo_output_index = 0, eo_address_id = ''d1'', eo_account_id = ''acc'', eo_raw_address = Some ''bc1'',
        eo_script_pubkey_hex = ''00'', eo_value_amount_lo = 7, eo_value_amount_hi = 0\<rparr>]\<rparr>"

lemma sample_snapshot_loaded:
  "load_existing_transaction_snapshot (sample_stored_db height) Bitcoin Mainnet ''h1'' = Inr (Some (sample_snapshot height))"
  by (simp add: reconcile_eval reconcile_sample_simps sample_snapshot_def record_chain_view_def)

theorem fetched_transaction_stored_exactly_witness:
  "\<exists>i outs. owned_outputs sample_env i reconcile_sample_db (st_outputs (sample_rc 5)) = Inr outs \<and>
     set (transaction_outputs (sample_stored_db 5)) = {r \<in> set (transaction_outputs reconcile_sample_db). txo_tx_id r \<noteq> i} \<union> set outs"
proof -
  from fetched_transaction_stored_exactly [OF sample_stored_valid(2) sample_rc_well_formed sample_first_stored]
  show ?thesis unfolding transaction_stored_def by blast
qed

theorem fetched_transaction_stored_again_witness:
  "\<exists>db''. apply_transaction_reconciliation sample_env ''t3'' Bitcoin Mainnet (sample_rc 5) ''t'' (sample_stored_db 5) =
     Inr ((False, False, no_targets), db'')"
proof -
  have "''t3'' \<notin> ct_id ` set (chain_transactions (sample_stored_db 5))" by (simp add: reconcile_sample_simps)
  moreover have "st_status (sample_rc 5) = Confirmed \<longrightarrow> st_block_height (sample_rc 5) \<noteq> None" by (simp add: sample_rc_def)
  ultimately show ?thesis
    using fetched_transaction_stored_again [OF sample_stored_valid(2) sample_rc_well_formed sample_first_stored] by blast
qed

theorem contradiction_withdraws_completeness_witness:
  "\<exists>cand. load_candidate_bitcoin_history_coverage (invalidate_mempool_history_coverage sample_env
      \<lparr>target_address_ids = {''d1''}, target_account_ids = {''acc''}\<rparr> 0 (sample_stored_db 6)) ''acc'' Mainnet [] False = Inr cand \<and>
    coverage cand \<noteq> Complete 9"
proof -
  let ?targets = "\<lparr>target_address_ids = {''d1''}, target_account_ids = {''acc''}\<rparr>"
  obtain cand where cand: "load_candidate_bitcoin_history_coverage
      (invalidate_mempool_history_coverage sample_env ?targets 0 (sample_stored_db 6)) ''acc'' Mainnet [] False = Inr cand"
    by (simp add: load_candidate_bitcoin_history_coverage_def invalidate_mempool_history_coverage_def
        invalidate_mempool_history_coverage_tx_def update_sync_state_def reconcile_sample_simps
        addresses_with_sync_state_def account_addresses_def address_sync_rows_def address_coverage_step_def Let_def)
  have "contradicts (sample_snapshot 5) (Some (sample_snapshot 6))"
    by (simp add: contradicts_def sample_snapshot_def record_chain_view_def sample_rc_def)
  moreover have "(''d1'', ''acc'') \<in> set (owned_pairs (sample_snapshot 5)) \<union> (case Some (sample_snapshot 6) of None \<Rightarrow> {} | Some s \<Rightarrow> set (owned_pairs s))"
    by (simp add: owned_pairs_def sample_snapshot_def)
  moreover have "ec_status (es_chain (sample_snapshot 5)) = Confirmed" by (simp add: sample_snapshot_def record_chain_view_def sample_rc_def)
  moreover have "stored_ids_canonical sample_env (sample_stored_db 5)"
    by (simp add: stored_ids_canonical_def sample_env_def list_all_iff split: option.splits)
  moreover have "st_tx_hash (sample_rc 6) = ''h1''" by (simp add: sample_rc_def)
  ultimately show ?thesis
    using contradiction_withdraws_completeness [OF sample_stored_valid(1) sample_rc_well_formed sample_second_stored _ _ _ _ _ _ cand,
        of "sample_snapshot 5" "Some (sample_snapshot 6)" "''d1''" 9] sample_snapshot_loaded cand by simp
qed

end
