(* ===== verification/Reconcile_Utxos.thy ===== *)
theory Reconcile_Utxos
  imports Reconcile_Spec
begin

section \<open>Unspent outputs are linked to what spends them\<close>

text \<open>
  Providers list the newest transactions first, so a transaction may be stored before the one whose output it spends. The
  table of unspent outputs is nevertheless kept in step with the stored inputs in whatever order the transactions come.
\<close>

definition spent_in :: "UserDb \<Rightarrow> UtxoRow \<Rightarrow> bool" where
  "spent_in db u \<longleftrightarrow>
     (\<exists>ti \<in> set (transaction_inputs db). \<exists>ct \<in> set (chain_transactions db).
        ti_prev_tx_hash ti = ut_tx_hash u \<and> ti_prev_output_index ti = ut_output_index u \<and> ct_id ct = ti_tx_id ti \<and>
        ct_asset_id ct = ut_asset_id u \<and> ct_network ct = ut_network u)"

definition utxos_linked :: "UserDb \<Rightarrow> bool" where
  "utxos_linked db \<longleftrightarrow> (\<forall>u \<in> set (utxos db). spent_in db u \<longrightarrow> ut_spent_by_tx_hash u \<noteq> None)"

text \<open>The outputs the inputs of a record spend; they are linked when its outputs are done.\<close>

definition spends :: "SyncedAssetId \<Rightarrow> Network \<Rightarrow> SyncTransactionRecord \<Rightarrow> UtxoRow \<Rightarrow> bool" where
  "spends asset_id network rc u \<longleftrightarrow>
     (\<exists>x \<in> set (st_inputs rc). is_utxo asset_id network (si_prev_tx_hash x) (si_prev_output_index x) u)"

definition linked_or_spent :: "SyncedAssetId \<Rightarrow> Network \<Rightarrow> SyncTransactionRecord \<Rightarrow> UserDb \<Rightarrow> bool" where
  "linked_or_spent asset_id network rc db \<longleftrightarrow>
     (\<forall>u \<in> set (utxos db). spent_in db u \<longrightarrow> ut_spent_by_tx_hash u \<noteq> None \<or> spends asset_id network rc u)"

lemma spent_in_utxos [simp]: "spent_in (db\<lparr>utxos := us\<rparr>) u = spent_in db u"
  by (simp add: spent_in_def)

definition same_output :: "UtxoRow \<Rightarrow> UtxoRow \<Rightarrow> bool" where
  "same_output u v \<longleftrightarrow> ut_asset_id u = ut_asset_id v \<and> ut_network u = ut_network v \<and> ut_tx_hash u = ut_tx_hash v \<and>
     ut_output_index u = ut_output_index v"

lemma same_output_spent_in: "same_output u v \<Longrightarrow> spent_in db u = spent_in db v"
  by (simp add: same_output_def spent_in_def)

lemma same_output_spends: "same_output u v \<Longrightarrow> spends asset_id network rc u = spends asset_id network rc v"
  by (simp add: same_output_def spends_def is_utxo_def)

lemma spending_tx_hash_spent_in:
  assumes "is_utxo asset_id network tx_hash i u"
  shows "spent_in db u \<longleftrightarrow> spending_tx_hash db asset_id network tx_hash i \<noteq> None"
proof -
  let ?hits = "[ct_tx_hash ct. ti \<leftarrow> transaction_inputs db, ti_prev_tx_hash ti = tx_hash \<and> ti_prev_output_index ti = i,
                 ct \<leftarrow> chain_transactions db, ct_id ct = ti_tx_id ti \<and> ct_asset_id ct = asset_as_str asset_id \<and>
                   ct_network ct = network_as_str network]"
  have key: "ut_tx_hash u = tx_hash" "ut_output_index u = i" "ut_asset_id u = asset_as_str asset_id" "ut_network u = network_as_str network"
    using assms by (simp_all add: is_utxo_def)
  have "spent_in db u \<longleftrightarrow> ?hits \<noteq> []" unfolding join_nonempty spent_in_def key by blast
  then show ?thesis unfolding spending_tx_hash_def head_option .
qed

text \<open>An update that keeps the key and never clears the link keeps the property.\<close>

lemma update_utxos_linked:
  assumes "\<forall>u \<in> set us. spent_in db u \<longrightarrow> ut_spent_by_tx_hash u \<noteq> None \<or> Q u"
    and "\<And>u. same_output (f u) u" and "\<And>u. ut_spent_by_tx_hash u \<noteq> None \<Longrightarrow> ut_spent_by_tx_hash (f u) \<noteq> None"
    and "\<And>u v. same_output u v \<Longrightarrow> Q u = Q v"
  shows "\<forall>u \<in> set (map (\<lambda>u. if P u then f u else u) us). spent_in db u \<longrightarrow> ut_spent_by_tx_hash u \<noteq> None \<or> Q u"
proof
  fix v assume "v \<in> set (map (\<lambda>u. if P u then f u else u) us)"
  then obtain u where u: "u \<in> set us" "v = (if P u then f u else u)" by auto
  show "spent_in db v \<longrightarrow> ut_spent_by_tx_hash v \<noteq> None \<or> Q v"
    using assms(1) u assms(3) [of u] assms(4) [OF assms(2) [of u]] same_output_spent_in [OF assms(2) [of u], of db]
    by (cases "P u") auto
qed

lemma same_output_is_utxo: "same_output u v \<Longrightarrow> is_utxo asset_id network h i u = is_utxo asset_id network h i v"
  by (simp add: same_output_def is_utxo_def)

text \<open>One output: its row is put, then linked when a stored input spends it.\<close>

lemma put_and_link:
  fixes db :: UserDb and f :: "UtxoRow \<Rightarrow> UtxoRow" and us h i r asset_id network
  defines "db1 \<equiv> db\<lparr>utxos := upsert_rows (is_utxo asset_id network h i) f r us\<rparr>"
  assumes db2: "db2 = (case spending_tx_hash db1 asset_id network h i of
        None \<Rightarrow> db1
      | Some spender \<Rightarrow> update_utxos (\<lambda>u. is_utxo asset_id network h i u \<and> ut_spent_by_tx_hash u = None)
          (\<lambda>u. u\<lparr>ut_spent_by_tx_hash := Some spender, ut_spent_at := Some now_raw\<rparr>) db1)"
    and us: "\<forall>u \<in> set us. spent_in db u \<longrightarrow> ut_spent_by_tx_hash u \<noteq> None \<or> spends asset_id network rc u"
    and f: "\<And>u. same_output (f u) u" "\<And>u. ut_spent_by_tx_hash (f u) = ut_spent_by_tx_hash u"
    and r: "is_utxo asset_id network h i r"
  shows "linked_or_spent asset_id network rc db2"
proof -
  let ?T = "is_utxo asset_id network h i" and ?Q = "spends asset_id network rc"
  let ?us = "upsert_rows ?T f r us"
  have put: "\<forall>u \<in> set ?us. spent_in db u \<longrightarrow> ut_spent_by_tx_hash u \<noteq> None \<or> ?Q u \<or> ?T u"
  proof (cases "list_ex ?T us")
    case True
    have weaker: "\<forall>u \<in> set us. spent_in db u \<longrightarrow> ut_spent_by_tx_hash u \<noteq> None \<or> ?Q u \<or> ?T u" using us by blast
    have "\<forall>u \<in> set (map (\<lambda>u. if ?T u then f u else u) us). spent_in db u \<longrightarrow> ut_spent_by_tx_hash u \<noteq> None \<or> ?Q u \<or> ?T u"
      by (rule update_utxos_linked [OF weaker f(1)]) (simp_all add: f(2) same_output_spends same_output_is_utxo)
    with True show ?thesis by (simp only: upsert_rows_def if_True)
  next
    case False
    with us r show ?thesis by (auto simp: upsert_rows_def)
  qed
  have spent: "spent_in db u \<longleftrightarrow> spending_tx_hash db1 asset_id network h i \<noteq> None" if "?T u" for u
    using spending_tx_hash_spent_in [OF that, of db1] unfolding db1_def by simp
  show ?thesis
  proof (cases "spending_tx_hash db1 asset_id network h i")
    case None
    with spent put have "\<forall>u \<in> set ?us. spent_in db u \<longrightarrow> ut_spent_by_tx_hash u \<noteq> None \<or> ?Q u" by blast
    with None show ?thesis by (simp add: db2 db1_def linked_or_spent_def)
  next
    case (Some spender)
    let ?g = "\<lambda>u. u\<lparr>ut_spent_by_tx_hash := Some spender, ut_spent_at := Some now_raw\<rparr>"
    let ?P = "\<lambda>u. ?T u \<and> ut_spent_by_tx_hash u = None"
    have "\<forall>u \<in> set (map (\<lambda>u. if ?P u then ?g u else u) ?us). spent_in db u \<longrightarrow> ut_spent_by_tx_hash u \<noteq> None \<or> ?Q u \<or> ?T u"
      by (rule update_utxos_linked [OF put])
        (simp_all add: same_output_spends same_output_is_utxo, simp_all add: same_output_def)
    moreover have "ut_spent_by_tx_hash u \<noteq> None" if "u \<in> set (map (\<lambda>u. if ?P u then ?g u else u) ?us)" "?T u" for u
    proof -
      from that(1) obtain v where v: "u = (if ?P v then ?g v else v)" unfolding set_map by (rule imageE)
      show ?thesis
      proof (cases "?P v")
        case True
        then have "u = ?g v" using v by simp
        then show ?thesis by simp
      next
        case False
        then have "u = v" using v unfolding if_not_P [OF False] by simp
        with False that(2) show ?thesis by simp
      qed
    qed
    ultimately have "\<forall>u \<in> set (map (\<lambda>u. if ?P u then ?g u else u) ?us). spent_in db u \<longrightarrow> ut_spent_by_tx_hash u \<noteq> None \<or> ?Q u"
      by blast
    with Some show ?thesis unfolding db2 by (simp add: db1_def linked_or_spent_def update_utxos_def)
  qed
qed

text \<open>The three ways a guarded optional write can end.\<close>

lemma utxo_branches:
  assumes "(case (c, db) of (cache, d) \<Rightarrow> res_bind (f cache d) (\<lambda>(v, cache'). case v of None \<Rightarrow> Inr (cache', d)
    | Some a \<Rightarrow> res_bind (g a) (\<lambda>parts. res_bind (if ok a d then Inr (h a parts d) else Inl e) (\<lambda>db1. Inr (cache', k a parts db1))))) = Inr (c', db')"
  obtains "db' = db" | a parts where "db' = k a parts (h a parts db)"
  using assms by (auto split: option.splits if_splits)

lemma reconcile_utxo_linked:
  assumes "reconcile_utxo env asset_id network rc now_raw (c, db) x = Inr (c', db')" and "linked_or_spent asset_id network rc db"
  shows "linked_or_spent asset_id network rc db'"
proof (rule utxo_branches [OF assms(1) [unfolded reconcile_utxo_def Let_def constraint_def]])
  show "db' = db \<Longrightarrow> linked_or_spent asset_id network rc db'" using assms(2) by simp
qed (erule put_and_link [OF _ assms(2) [unfolded linked_or_spent_def]], simp_all add: same_output_def is_utxo_def)

lemma reconcile_utxo_loop_linked:
  assumes "res_fold (reconcile_utxo env asset_id network rc now_raw) (c, db) xs = Inr (c', db')" and "linked_or_spent asset_id network rc db"
  shows "linked_or_spent asset_id network rc db'"
proof -
  have "(\<lambda>(c, d). linked_or_spent asset_id network rc d) (c', db')"
  proof (rule res_fold_invariant [OF assms(1)])
    show "case (c, db) of (c, d) \<Rightarrow> linked_or_spent asset_id network rc d" using assms(2) by simp
    fix s x s'
    assume "case s of (c, d) \<Rightarrow> linked_or_spent asset_id network rc d" and "reconcile_utxo env asset_id network rc now_raw s x = Inr s'"
    then show "case s' of (c, d) \<Rightarrow> linked_or_spent asset_id network rc d"
      by (cases s; cases s') (auto dest: reconcile_utxo_linked)
  qed
  then show ?thesis by simp
qed

lemma updated_row:
  assumes "u \<in> set (map (\<lambda>u. if P u then g u else u) us)" and "P u"
  shows "\<exists>v. u = g v"
proof -
  from assms(1) obtain v where v: "u = (if P v then g v else v)" unfolding set_map by (rule imageE)
  with assms(2) show ?thesis by (cases "P v") auto
qed

lemma spend_loop_linked:
  assumes "\<forall>u \<in> set (utxos db). spent_in db u \<longrightarrow> ut_spent_by_tx_hash u \<noteq> None \<or>
      (\<exists>x \<in> set xs. is_utxo asset_id network (si_prev_tx_hash x) (si_prev_output_index x) u)"
  shows "utxos_linked (fold (spend_utxo asset_id network tx_hash now_raw) xs db)"
  using assms
proof (induction xs arbitrary: db)
  case Nil
  then show ?case by (simp add: utxos_linked_def)
next
  case (Cons x xs)
  let ?P = "is_utxo asset_id network (si_prev_tx_hash x) (si_prev_output_index x)"
  let ?g = "\<lambda>u. u\<lparr>ut_spent_by_tx_hash := Some tx_hash, ut_spent_at := Some now_raw\<rparr>"
  let ?us = "map (\<lambda>u. if ?P u then ?g u else u) (utxos db)"
  let ?Q = "\<lambda>u. \<exists>x \<in> set xs. is_utxo asset_id network (si_prev_tx_hash x) (si_prev_output_index x) u"
  have "\<forall>u \<in> set (utxos db). spent_in db u \<longrightarrow> ut_spent_by_tx_hash u \<noteq> None \<or> ?Q u \<or> ?P u" using Cons.prems by auto
  then have "\<forall>u \<in> set ?us. spent_in db u \<longrightarrow> ut_spent_by_tx_hash u \<noteq> None \<or> ?Q u \<or> ?P u"
    by (rule update_utxos_linked) (simp_all add: same_output_is_utxo, simp_all add: same_output_def)
  moreover have "ut_spent_by_tx_hash u \<noteq> None" if "u \<in> set ?us" "?P u" for u
  proof -
    from updated_row [OF that] obtain v where "u = ?g v" by blast
    then show ?thesis by simp
  qed
  ultimately have "\<forall>u \<in> set ?us. spent_in db u \<longrightarrow> ut_spent_by_tx_hash u \<noteq> None \<or> ?Q u" by blast
  then show ?case using Cons.IH [of "db\<lparr>utxos := ?us\<rparr>"] by (simp add: spend_utxo_def update_utxos_def)
qed

lemma reconcile_utxos_linked:
  assumes "reconcile_utxos_for_transaction env asset_id network rc now_raw (c, db) = Inr (c', db')" and "linked_or_spent asset_id network rc db"
  shows "utxos_linked db'"
proof -
  from assms(1) obtain c1 db1 where loop: "res_fold (reconcile_utxo env asset_id network rc now_raw) (c, db) (st_outputs rc) = Inr (c1, db1)"
    and db': "db' = (let db2 = fold (spend_utxo asset_id network (st_tx_hash rc) now_raw) (st_inputs rc) db1
      in if st_status rc = Dropped
         then update_utxos (\<lambda>u. ut_asset_id u = asset_as_str asset_id \<and> ut_network u = network_as_str network \<and>
                ut_tx_hash u = st_tx_hash rc) (\<lambda>u. u\<lparr>ut_status := status_as_db_value Dropped\<rparr>) db2
         else db2)"
    by (auto simp: reconcile_utxos_for_transaction_def Let_def)
  let ?db2 = "fold (spend_utxo asset_id network (st_tx_hash rc) now_raw) (st_inputs rc) db1"
  have linked: "utxos_linked ?db2"
    using reconcile_utxo_loop_linked [OF loop assms(2)] unfolding linked_or_spent_def spends_def by (rule spend_loop_linked)
  show ?thesis
  proof (cases "st_status rc = Dropped")
    case True
    have "\<forall>u \<in> set (utxos ?db2). spent_in ?db2 u \<longrightarrow> ut_spent_by_tx_hash u \<noteq> None \<or> False" using linked by (simp add: utxos_linked_def)
    then have "\<forall>u \<in> set (map (\<lambda>u. if ut_asset_id u = asset_as_str asset_id \<and> ut_network u = network_as_str network \<and>
        ut_tx_hash u = st_tx_hash rc then u\<lparr>ut_status := status_as_db_value Dropped\<rparr> else u) (utxos ?db2)).
        spent_in ?db2 u \<longrightarrow> ut_spent_by_tx_hash u \<noteq> None \<or> False"
      by (rule update_utxos_linked) (simp_all add: same_output_def)
    with True show ?thesis unfolding db' Let_def by (simp add: utxos_linked_def update_utxos_def)
  next
    case False
    with linked show ?thesis unfolding db' by simp
  qed
qed

lemma upsert_inputs_utxos:
  assumes "upsert_transaction_inputs env i inputs (c, db) = Inr (c', db')"
  shows "utxos db' = utxos db"
proof -
  have "utxos (snd (c', db')) = utxos db"
  proof (rule res_fold_invariant [OF assms [unfolded upsert_transaction_inputs_def split]])
    fix s x s'
    assume "utxos (snd s) = utxos db" and "upsert_transaction_input env i s x = Inr s'"
    then show "utxos (snd s') = utxos db"
      by (cases s) (auto simp: upsert_transaction_input_def constraint_def Let_def split: option.splits if_splits)
  qed simp
  then show ?thesis by simp
qed

lemma upsert_outputs_utxos:
  assumes "upsert_transaction_outputs env i outputs (c, db) = Inr (c', db')"
  shows "utxos db' = utxos db"
proof -
  have "utxos (snd (c', db')) = utxos db"
  proof (rule res_fold_invariant [OF assms [unfolded upsert_transaction_outputs_def split]])
    fix s x s'
    assume "utxos (snd s) = utxos db" and "upsert_transaction_output env i s x = Inr s'"
    then show "utxos (snd s') = utxos db"
      by (cases s) (auto simp: upsert_transaction_output_def constraint_def Let_def split: option.splits if_splits)
  qed simp
  then show ?thesis by simp
qed

lemma reconcile_utxo_tables:
  assumes "reconcile_utxo env asset_id network rc now_raw (c, db) x = Inr (c', db')"
  shows "\<exists>us. db' = db\<lparr>utxos := us\<rparr>"
proof (rule utxo_branches [OF assms [unfolded reconcile_utxo_def Let_def constraint_def]])
  show "db' = db \<Longrightarrow> ?thesis" by (intro exI [of _ "utxos db"]) simp
qed (simp add: upsert_utxos_upd)

lemma reconcile_utxos_tables:
  assumes "reconcile_utxos_for_transaction env asset_id network rc now_raw (c, db) = Inr (c', db')"
  shows "transaction_inputs db' = transaction_inputs db \<and> chain_transactions db' = chain_transactions db"
proof -
  from assms obtain c1 db1 where loop: "res_fold (reconcile_utxo env asset_id network rc now_raw) (c, db) (st_outputs rc) = Inr (c1, db1)"
    and db': "db' = (let db2 = fold (spend_utxo asset_id network (st_tx_hash rc) now_raw) (st_inputs rc) db1
      in if st_status rc = Dropped
         then update_utxos (\<lambda>u. ut_asset_id u = asset_as_str asset_id \<and> ut_network u = network_as_str network \<and>
                ut_tx_hash u = st_tx_hash rc) (\<lambda>u. u\<lparr>ut_status := status_as_db_value Dropped\<rparr>) db2
         else db2)"
    by (auto simp: reconcile_utxos_for_transaction_def Let_def)
  have "\<exists>us. snd (c1, db1) = db\<lparr>utxos := us\<rparr>"
  proof (rule res_fold_invariant [OF loop])
    show "\<exists>us. snd (c, db) = db\<lparr>utxos := us\<rparr>" by (intro exI [of _ "utxos db"]) simp
    fix s x s'
    assume "\<exists>us. snd s = db\<lparr>utxos := us\<rparr>" and "reconcile_utxo env asset_id network rc now_raw s x = Inr s'"
    then show "\<exists>us. snd s' = db\<lparr>utxos := us\<rparr>"
      using reconcile_utxo_tables [of env asset_id network rc now_raw "fst s" "snd s" x "fst s'" "snd s'"] by auto
  qed
  then obtain us where us: "db1 = db\<lparr>utxos := us\<rparr>" by auto
  obtain us2 where "fold (spend_utxo asset_id network (st_tx_hash rc) now_raw) (st_inputs rc) db1 = db\<lparr>utxos := us2\<rparr>"
    using fold_spend_utxo [of asset_id network "st_tx_hash rc" now_raw "st_inputs rc" db1] us by auto
  then show ?thesis unfolding db' by (simp add: Let_def update_utxos_def)
qed

text \<open>The step of storing a transaction that sees its outputs, with the rows of the transaction in place.\<close>

lemma apply_utxo_stage:
  assumes valid: "chain_tables_valid db" and ok: "apply_transaction_reconciliation env new_id asset_id network rc now_raw db = Inr (r, db')"
  obtains c db4 c' where "reconcile_utxos_for_transaction env asset_id network rc now_raw (c, db4) = Inr (c', db')" "utxos db4 = utxos db"
proof -
  from ok obtain db1 i c2 db2 c3 db3 c5 where
    put: "upsert_chain_transaction env new_id asset_id network rc now_raw db = Inr db1"
    and s2: "upsert_transaction_inputs env i (st_inputs rc) (Map.empty, db1) = Inr (c2, db2)"
    and s3: "upsert_transaction_outputs env i (st_outputs rc) (c2, db2) = Inr (c3, db3)"
    and s5: "reconcile_utxos_for_transaction env asset_id network rc now_raw
      (c3, snd (execute_chain_cleanup_for_marked_candidates [i] db3)) = Inr (c5, db')"
    unfolding apply_transaction_reconciliation_def by (auto simp: case_prod_beta)
  have "utxos db1 = utxos db" using put
    by (auto simp: upsert_chain_transaction_def put_chain_transaction_def constraint_def Let_def split: if_splits)
  moreover have "utxos db2 = utxos db1" using upsert_inputs_utxos [OF s2] .
  moreover have "utxos db3 = utxos db2" using upsert_outputs_utxos [OF s3] .
  moreover have "utxos (snd (execute_chain_cleanup_for_marked_candidates [i] db3)) = utxos db3"
    by (simp add: execute_chain_cleanup_for_marked_candidates_def Let_def)
  ultimately show ?thesis using that [OF s5] by simp
qed

lemma owned_input_prev:
  assumes "owned_inputs env i db xs = Inr ins" and "r \<in> set ins"
  shows "\<exists>x \<in> set xs. si_prev_tx_hash x = ti_prev_tx_hash r \<and> si_prev_output_index x = ti_prev_output_index r"
proof -
  from assms obtain ros where ros: "list_all2 (\<lambda>x ro. wanted_input env i db x = Inr ro) xs ros" "Some r \<in> set ros"
    by (auto simp: owned_inputs_def res_mapM_Inr_iff in_set_map_filter)
  from list_all2_mem2 [OF ros] obtain x where "x \<in> set xs" "wanted_input env i db x = Inr (Some r)" by blast
  then show ?thesis by (intro bexI [of _ x]) (auto simp: wanted_input_def split: option.splits if_splits)
qed

lemma chain_row_key:
  assumes "chain_row_stored env asset_id network rc i cts" and "distinct (map ct_id cts)" and "ct \<in> set cts" and "ct_id ct = i"
  shows "ct_asset_id ct = asset_as_str asset_id" and "ct_network ct = network_as_str network"
proof -
  from assms(1) obtain q where q: "List.find (is_chain_transaction asset_id network (st_tx_hash rc)) cts = Some q" "ct_id q = i"
    unfolding chain_row_stored_def by blast
  from q(1) have "q \<in> set cts" "is_chain_transaction asset_id network (st_tx_hash rc) q" by (auto simp: find_Some_iff)
  moreover from this(1) assms(2-4) q(2) have "ct = q" by (simp add: distinct_map inj_on_def)
  ultimately show "ct_asset_id ct = asset_as_str asset_id" "ct_network ct = network_as_str network"
    by (simp_all add: is_chain_transaction_def)
qed

text \<open>
  C28. Unspent outputs stay linked, whatever the order in which transactions are stored: if every stored output that a stored
  input spends is marked as spent, this is so again after a fetched transaction is stored, be it the one that has the output or
  the one that spends it.
\<close>

theorem utxos_stay_linked:
  assumes valid: "chain_tables_valid db" and wf: "record_well_formed rc" and linked: "utxos_linked db"
    and ok: "apply_transaction_reconciliation env new_id asset_id network rc now_raw db = Inr ((inserted, updated, targets), db')"
  shows "utxos_linked db'"
proof -
  obtain c db4 c' where stage: "reconcile_utxos_for_transaction env asset_id network rc now_raw (c, db4) = Inr (c', db')"
    and us: "utxos db4 = utxos db" by (rule apply_utxo_stage [OF valid ok])
  obtain i ins outs where ins: "owned_inputs env i db (st_inputs rc) = Inr ins"
    and stored: "transaction_stored env asset_id network rc i ins outs db db'" and valid': "chain_tables_valid db'"
    by (rule apply_transaction_inverse [OF valid wf ok])
  have own: "\<forall>r \<in> set ins. ti_tx_id r = i" using owned_inputs_rows(1) [OF ins] wf by (simp add: record_well_formed_def)
  have rows: "transaction_inputs db4 = transaction_inputs db'" "chain_transactions db4 = chain_transactions db'"
    using reconcile_utxos_tables [OF stage] by simp_all
  have "linked_or_spent asset_id network rc db4"
    unfolding linked_or_spent_def us
  proof (intro ballI impI)
    fix u assume u: "u \<in> set (utxos db)" and "spent_in db4 u"
    then obtain ti ct where ti: "ti \<in> set (transaction_inputs db')" "ti_prev_tx_hash ti = ut_tx_hash u" "ti_prev_output_index ti = ut_output_index u"
      and ct: "ct \<in> set (chain_transactions db')" "ct_id ct = ti_tx_id ti" "ct_asset_id ct = ut_asset_id u" "ct_network ct = ut_network u"
      unfolding spent_in_def rows by blast
    show "ut_spent_by_tx_hash u \<noteq> None \<or> spends asset_id network rc u"
    proof (cases "ti_tx_id ti = i")
      case False
      have "ti \<in> set (transaction_inputs db)" using ti(1) False own stored unfolding transaction_stored_def by blast
      moreover have "ct \<in> {ct \<in> set (chain_transactions db'). ct_id ct \<noteq> i}" using ct(1,2) False by simp
      then have "ct \<in> set (chain_transactions db)" using stored unfolding transaction_stored_def by blast
      ultimately have "spent_in db u" unfolding spent_in_def using ti(2,3) ct(2-4) by blast
      with linked u show ?thesis by (simp add: utxos_linked_def)
    next
      case True
      then have "ti \<in> set ins" using ti(1) stored unfolding transaction_stored_def by blast
      with owned_input_prev [OF ins] obtain x where x: "x \<in> set (st_inputs rc)" "si_prev_tx_hash x = ti_prev_tx_hash ti"
        "si_prev_output_index x = ti_prev_output_index ti" by blast
      have "chain_row_stored env asset_id network rc i (chain_transactions db')"
        using stored \<open>ti \<in> set ins\<close> unfolding transaction_stored_def by (cases ins) simp_all
      from chain_row_key [OF this] valid' ct(1,2) True have "ct_asset_id ct = asset_as_str asset_id" "ct_network ct = network_as_str network"
        by (simp_all add: chain_tables_valid_def)
      then have "is_utxo asset_id network (si_prev_tx_hash x) (si_prev_output_index x) u" using x ti ct(3,4) by (simp add: is_utxo_def)
      with x(1) show ?thesis unfolding spends_def by blast
    qed
  qed
  with stage show ?thesis by (rule reconcile_utxos_linked)
qed

text \<open>The stored sample, and a transaction that spends its output.\<close>

definition sample_spender :: SyncTransactionRecord where
  "sample_spender =
     \<lparr>st_tx_hash = ''h2'', st_status = Confirmed, st_block_height = Some 6, st_block_hash = None, st_block_time = None,
      st_fee_amount = Some 1, st_inputs = [\<lparr>si_input_index = 0, si_prev_tx_hash = ''h1'', si_prev_output_index = 0,
        si_prev_address = Some ''bc1'', si_value_amount = Some 7\<rparr>], st_outputs = []\<rparr>"

definition sample_spent_db :: UserDb where
  "sample_spent_db = (sample_stored_db 5)\<lparr>
     chain_transactions := [record_chain_row sample_env Bitcoin Mainnet (sample_rc 5) ''t'' ''t1'',
       record_chain_row sample_env Bitcoin Mainnet sample_spender ''t'' ''t2''],
     transaction_inputs := [\<lparr>ti_tx_id = ''t2'', ti_input_index = 0, ti_prev_tx_hash = ''h1'', ti_prev_output_index = 0,
       ti_address_id = ''d1'', ti_value_amount_hi = Some 0, ti_value_amount_lo = Some 7\<rparr>],
     utxos := [(hd (utxos (sample_stored_db 5)))\<lparr>ut_spent_by_tx_hash := Some ''h2'', ut_spent_at := Some ''t''\<rparr>]\<rparr>"

lemma sample_spender_stored:
  "apply_transaction_reconciliation sample_env ''t2'' Bitcoin Mainnet sample_spender ''t'' (sample_stored_db 5) =
     Inr ((True, False, no_targets), sample_spent_db)"
  by (simp add: reconcile_eval reconcile_sample_simps sample_spender_def sample_spent_db_def upsert_transaction_input_def
      is_input_def split_optional_i64_amount_def spend_utxo_def update_utxos_def)

theorem utxos_stay_linked_witness: "list_ex (spent_in sample_spent_db) (utxos sample_spent_db) \<and> utxos_linked sample_spent_db"
proof
  show "list_ex (spent_in sample_spent_db) (utxos sample_spent_db)"
    by (simp add: spent_in_def sample_spent_db_def reconcile_sample_simps sample_spender_def)
  have "record_well_formed sample_spender" by (simp add: record_well_formed_def sample_spender_def)
  moreover have "utxos_linked (sample_stored_db 5)" by (simp add: utxos_linked_def spent_in_def reconcile_sample_simps)
  ultimately show "utxos_linked sample_spent_db"
    by (rule utxos_stay_linked [OF sample_stored_valid(1) _ _ sample_spender_stored])
qed

end
