(* ===== verification/Reconcile_Accounts.thy ===== *)
theory Reconcile_Accounts
  imports Reconcile_Spec "HOL-Library.Code_Target_Nat"
begin

section \<open>Transfers the provider excludes\<close>

text \<open>
  Storing a transaction of an account-based asset: the transfers the record excludes are withdrawn under their present and
  former keys, no transfer without an owner is left, and every account that loses a transfer has its ledger rebuilt in the same
  SQL transaction.
\<close>

lemma rebuild_tx_transfers:
  "rebuild_account_transaction_ledger_tx env db a observed = Inr db' \<Longrightarrow> account_transfers db' = account_transfers db"
  by (auto simp: rebuild_account_transaction_ledger_tx_def same_but_ledger_def dest!: replace_conn_ok)
    (metis UserDb.select_convs(5) UserDb.surjective UserDb.update_convs(13))

lemma rebuild_affected_transfers:
  assumes "rebuild_affected_ledgers env iter_accounts now_raw accounts db = Inr db'"
  shows "account_transfers db' = account_transfers db"
proof (cases "accounts = {}")
  case True
  with assms show ?thesis by (simp add: rebuild_affected_ledgers_def)
next
  case False
  with assms obtain observed where
    loop: "res_fold (\<lambda>d account_id. rebuild_account_transaction_ledger_tx env d account_id observed) db (iter_accounts accounts) = Inr db'"
    by (auto simp: rebuild_affected_ledgers_def)
  show ?thesis
    by (rule res_fold_invariant [OF loop, where P = "\<lambda>d. account_transfers d = account_transfers db"])
      (simp_all add: rebuild_tx_transfers)
qed

text \<open>The build of a ledger does not read the ledger table.\<close>

lemma ownership_reads_no_ledger:
  "owns_address (db\<lparr>account_transaction_ledger := l\<rparr>) = owns_address db"
  "owns_optional_address (db\<lparr>account_transaction_ledger := l\<rparr>) = owns_optional_address db"
  by (intro ext, simp add: owns_address_def owns_optional_address_def split: option.split)+

lemma owned_rows_read_no_ledger:
  "Ledger_Entries.owned_outputs (db\<lparr>account_transaction_ledger := l\<rparr>) = Ledger_Entries.owned_outputs db"
  "Ledger_Entries.owned_inputs (db\<lparr>account_transaction_ledger := l\<rparr>) = Ledger_Entries.owned_inputs db"
  by (intro ext, simp add: Ledger_Entries.owned_outputs_def Ledger_Entries.owned_inputs_def ownership_reads_no_ledger)+

lemma utxo_parts_read_no_ledger:
  "touches_account (db\<lparr>account_transaction_ledger := l\<rparr>) = touches_account db"
  "load_utxo_owned_addresses_for_tx (db\<lparr>account_transaction_ledger := l\<rparr>) = load_utxo_owned_addresses_for_tx db"
  "same_block_dependency_rows (db\<lparr>account_transaction_ledger := l\<rparr>) = same_block_dependency_rows db"
  "owned_sums (db\<lparr>account_transaction_ledger := l\<rparr>) = owned_sums db"
  by (intro ext, simp add: touches_account_def load_utxo_owned_addresses_for_tx_def same_block_dependency_rows_def owned_sums_def
      owned_rows_read_no_ledger ownership_reads_no_ledger cong: if_cong)+

lemma utxo_entries_read_no_ledger:
  "utxo_model_entries pd (db\<lparr>account_transaction_ledger := l\<rparr>) = utxo_model_entries pd db"
proof -
  have "utxo_entry_step pd (db\<lparr>account_transaction_ledger := l\<rparr>) = utxo_entry_step pd db"
    by (intro ext) (simp add: utxo_entry_step_def utxo_parts_read_no_ledger cong: if_cong)
  moreover have "utxo_model_rows (db\<lparr>account_transaction_ledger := l\<rparr>) = utxo_model_rows db"
    by (intro ext) (simp add: utxo_model_rows_def utxo_parts_read_no_ledger cong: if_cong)
  moreover have "load_same_block_parent_hashes_for_account (db\<lparr>account_transaction_ledger := l\<rparr>) =
      load_same_block_parent_hashes_for_account db"
    by (intro ext) (simp add: load_same_block_parent_hashes_for_account_def utxo_parts_read_no_ledger)
  ultimately show ?thesis by (intro ext) (simp add: utxo_model_entries_def utxo_parts_read_no_ledger)
qed

lemma account_entries_read_no_ledger:
  "account_model_entries iter pd (db\<lparr>account_transaction_ledger := l\<rparr>) = account_model_entries iter pd db"
proof -
  have "aggregate_transfer_row pd (db\<lparr>account_transaction_ledger := l\<rparr>) = aggregate_transfer_row pd db"
    by (intro ext) (simp add: aggregate_transfer_row_def ownership_reads_no_ledger cong: if_cong)
  moreover have "account_model_rows (db\<lparr>account_transaction_ledger := l\<rparr>) = account_model_rows db"
    by (intro ext) (simp add: account_model_rows_def ownership_reads_no_ledger cong: if_cong)
  ultimately show ?thesis by (intro ext) (simp add: account_model_entries_def)
qed

lemma build_reads_no_ledger:
  "build_account_transaction_ledger env (db\<lparr>account_transaction_ledger := l\<rparr>) = build_account_transaction_ledger env db"
proof -
  have meta: "load_meta env (db\<lparr>account_transaction_ledger := l\<rparr>) = load_meta env db"
    by (intro ext) (simp add: load_meta_def load_account_meta_def cong: if_cong)
  have entries: "collect_entries env (db\<lparr>account_transaction_ledger := l\<rparr>) = collect_entries env db"
    by (intro ext) (simp add: collect_entries_def collect_entries_for_account_def utxo_entries_read_no_ledger
      account_entries_read_no_ledger split: AccountModel.split)
  have api: "load_api_confirmed_balances_for_account_conn env (db\<lparr>account_transaction_ledger := l\<rparr>) =
      load_api_confirmed_balances_for_account_conn env db"
    by (intro ext) (simp add: load_api_confirmed_balances_for_account_conn_def coverage_reads_no_ledger)
  have basis: "bitcoin_basis env (db\<lparr>account_transaction_ledger := l\<rparr>) = bitcoin_basis env db"
    by (intro ext) (simp only: bitcoin_basis_def candidate_ledger_irrelevant api)
  show ?thesis by (intro ext) (simp only: build_account_transaction_ledger_def meta entries basis)
qed

text \<open>The ledger of an account is the one that is built from the same database.\<close>

definition ledger_current :: "Env \<Rightarrow> time \<Rightarrow> UserDb \<Rightarrow> ulid \<Rightarrow> bool" where
  "ledger_current env observed db a \<longleftrightarrow>
     (\<exists>meta entries. build_account_transaction_ledger env db a None = Inr (meta, entries) \<and>
        list_all2 (\<lambda>e r. ledger_row_of env a meta observed e = Inr r) entries (own_rows a db))"

lemma rebuilt_ledger_current:
  assumes "rebuild_account_transaction_ledger_tx env db a observed = Inr db'"
  shows "ledger_current env observed db' a" and "ledger_current env observed db b \<Longrightarrow> ledger_current env observed db' b"
proof -
  from assms obtain meta entries where build: "build_account_transaction_ledger env db a None = Inr (meta, entries)"
    and replace: "replace_account_transaction_ledger_entries_conn env db a meta observed entries = Inr db'"
    by (auto simp: rebuild_account_transaction_ledger_tx_def)
  note r = replace_conn_ok [OF replace]
  have same: "build_account_transaction_ledger env db' = build_account_transaction_ledger env db"
    using r build_reads_no_ledger unfolding same_but_ledger_def by metis
  show current: "ledger_current env observed db' a"
    using r build unfolding ledger_current_def same by blast
  show "ledger_current env observed db' b" if b: "ledger_current env observed db b"
  proof (cases "b = a")
    case False
    have "own_rows b d = filter (\<lambda>r. ld_account_id r = b) (other_rows a d)" for d
      using False by (auto simp: own_rows_def other_rows_def intro: filter_cong)
    then have "own_rows b db' = own_rows b db" using r by (simp add: same_but_ledger_def)
    with b show ?thesis unfolding ledger_current_def same by simp
  qed (use current in simp)
qed

lemma affected_ledgers_current:
  assumes "rebuild_affected_ledgers env iter_accounts now_raw accounts db = Inr db'" and "a \<in> accounts" and "a \<in> set (iter_accounts accounts)"
  shows "\<exists>observed. env_parse_datetime env now_raw = Inr observed \<and> ledger_current env observed db' a"
proof -
  from assms obtain observed where observed: "env_parse_datetime env now_raw = Inr observed"
    and loop: "res_fold (\<lambda>d account_id. rebuild_account_transaction_ledger_tx env d account_id observed) db (iter_accounts accounts) = Inr db'"
    by (auto simp: rebuild_affected_ledgers_def split: if_splits)
  have "res_fold (\<lambda>d account_id. rebuild_account_transaction_ledger_tx env d account_id observed) d xs = Inr db' \<Longrightarrow>
      a \<in> set xs \<or> ledger_current env observed d a \<Longrightarrow> ledger_current env observed db' a" for d xs
  proof (induction xs arbitrary: d)
    case (Cons x xs)
    then obtain d1 where d1: "rebuild_account_transaction_ledger_tx env d x observed = Inr d1"
      and rest: "res_fold (\<lambda>d account_id. rebuild_account_transaction_ledger_tx env d account_id observed) d1 xs = Inr db'" by auto
    from Cons.prems(2) rebuilt_ledger_current [OF d1] have "a \<in> set xs \<or> ledger_current env observed d1 a" by auto
    from Cons.IH [OF rest this] show ?case .
  qed simp
  with loop assms(3) observed show ?thesis by blast
qed

lemma list_all2_mem1: "list_all2 P xs ys \<Longrightarrow> x \<in> set xs \<Longrightarrow> \<exists>y \<in> set ys. P x y"
  by (induction rule: list_all2_induct) auto

text \<open>The accounts that own a transfer of a transaction under a key.\<close>

definition owns_transfer :: "UserDb \<Rightarrow> ulid \<Rightarrow> AccountTransferRow \<Rightarrow> bool" where
  "owns_transfer db c t \<longleftrightarrow>
     (\<exists>da \<in> set (digital_asset_addresses db). da_account_id da = Some c \<and>
        (at_from_address_id t = Some (da_id da) \<or> at_to_address_id t = Some (da_id da)))"

lemma transfer_owner_accounts_all:
  assumes "transfer_owner_accounts db i key = Inr accounts" and "t \<in> set (account_transfers db)" and "at_chain_transaction_id t = i"
    and "at_provider_transfer_key t = key" and "owns_transfer db c t"
  shows "c \<in> set accounts"
proof -
  from assms(5) obtain da where da: "da \<in> set (digital_asset_addresses db)" "da_account_id da = Some c"
    "at_from_address_id t = Some (da_id da) \<or> at_to_address_id t = Some (da_id da)" by (auto simp: owns_transfer_def)
  let ?joined = "[da. t \<leftarrow> account_transfers db, at_chain_transaction_id t = i \<and> at_provider_transfer_key t = key,
            da \<leftarrow> digital_asset_addresses db, at_from_address_id t = Some (da_id da) \<or> at_to_address_id t = Some (da_id da)]"
  from assms(1) obtain cs where cs: "res_mapM (\<lambda>da. ok_or (DbError ''Failed to read excluded transfer owners: Invalid column type Null at index'')
      (da_account_id da)) ?joined = Inr cs" and accounts: "accounts = remdups cs"
    by (auto simp: transfer_owner_accounts_def)
  have "da \<in> set ?joined"
    by (rule join_member [where f = "\<lambda>da. da" and x = t and P = "\<lambda>t. at_chain_transaction_id t = i \<and> at_provider_transfer_key t = key"
        and Q = "\<lambda>t da. at_from_address_id t = Some (da_id da) \<or> at_to_address_id t = Some (da_id da)"])
      (use assms(2-4) da in simp_all)
  from list_all2_mem1 [OF cs [unfolded res_mapM_Inr_iff ok_or_Inr_iff] this] da(2) accounts show ?thesis by auto
qed

lemma insert_accounts_covers:
  assumes "res_fold (\<lambda>acc raw. res_map (\<lambda>i. insert i acc) (parse_account_id env raw)) accs raws = Inr accs'"
  shows "accs \<subseteq> accs' \<and> (\<forall>c \<in> set raws. \<exists>a \<in> accs'. env_parse_ulid env c = Inr a)"
  using assms
proof (induction raws arbitrary: accs)
  case (Cons raw raws)
  then obtain x where x: "env_parse_ulid env raw = Inr x"
    and rest: "res_fold (\<lambda>acc raw. res_map (\<lambda>i. insert i acc) (parse_account_id env raw)) (insert x accs) raws = Inr accs'"
    by (auto simp: parse_account_id_def)
  from Cons.IH [OF rest] x show ?case by auto
qed simp

text \<open>One excluded key: its transfers are gone and their owners are noted.\<close>

lemma remove_excluded_transfer_effect:
  assumes "remove_excluded_transfer env i (removed, accounts, db) key = Inr (removed', accounts', db')"
  shows "db' = db\<lparr>account_transfers := filter (\<lambda>t. \<not> (at_chain_transaction_id t = i \<and> at_provider_transfer_key t = key)) (account_transfers db)\<rparr>"
    and "accounts \<subseteq> accounts'"
    and "t \<in> set (account_transfers db) \<Longrightarrow> at_chain_transaction_id t = i \<Longrightarrow> at_provider_transfer_key t = key \<Longrightarrow>
      owns_transfer db c t \<Longrightarrow> \<exists>a \<in> accounts'. env_parse_ulid env c = Inr a"
proof -
  let ?hit = "\<lambda>t. at_chain_transaction_id t = i \<and> at_provider_transfer_key t = key"
  from assms obtain ids where ids: "transfer_owner_accounts db i key = Inr ids"
    and acc: "(if length (filter ?hit (account_transfers db)) > 0
      then res_fold (\<lambda>acc raw. res_map (\<lambda>i. insert i acc) (parse_account_id env raw)) accounts ids else Inr accounts) = Inr accounts'"
    and db': "db' = db\<lparr>account_transfers := filter (\<lambda>t. \<not> ?hit t) (account_transfers db)\<rparr>"
    by (auto simp: remove_excluded_transfer_def Let_def)
  show "db' = db\<lparr>account_transfers := filter (\<lambda>t. \<not> ?hit t) (account_transfers db)\<rparr>" by (rule db')
  show "accounts \<subseteq> accounts'" using acc insert_accounts_covers by (cases "length (filter ?hit (account_transfers db)) > 0") auto
  show "\<exists>a \<in> accounts'. env_parse_ulid env c = Inr a"
    if t: "t \<in> set (account_transfers db)" "at_chain_transaction_id t = i" "at_provider_transfer_key t = key" "owns_transfer db c t"
  proof -
    have "filter ?hit (account_transfers db) \<noteq> []" using t(1-3) by (auto simp: filter_empty_conv)
    with acc have "res_fold (\<lambda>acc raw. res_map (\<lambda>i. insert i acc) (parse_account_id env raw)) accounts ids = Inr accounts'" by simp
    from insert_accounts_covers [OF this] transfer_owner_accounts_all [OF ids t] show ?thesis by blast
  qed
qed

lemma remove_excluded_transfers_effect:
  assumes "res_fold (remove_excluded_transfer env i) (removed, accounts, db) keys = Inr (removed', accounts', db')"
  shows "db' = db\<lparr>account_transfers := filter (\<lambda>t. \<not> (at_chain_transaction_id t = i \<and> at_provider_transfer_key t \<in> set keys)) (account_transfers db)\<rparr> \<and>
    accounts \<subseteq> accounts' \<and>
    (\<forall>t \<in> set (account_transfers db). \<forall>c. at_chain_transaction_id t = i \<and> at_provider_transfer_key t \<in> set keys \<and> owns_transfer db c t \<longrightarrow>
      (\<exists>a \<in> accounts'. env_parse_ulid env c = Inr a))"
  using assms
proof (induction keys arbitrary: removed accounts db)
  case (Cons key keys)
  from Cons.prems obtain removed1 accounts1 db1 where
    step: "remove_excluded_transfer env i (removed, accounts, db) key = Inr (removed1, accounts1, db1)"
    and rest: "res_fold (remove_excluded_transfer env i) (removed1, accounts1, db1) keys = Inr (removed', accounts', db')" by auto
  note s = remove_excluded_transfer_effect [OF step] and r = Cons.IH [OF rest]
  have owns: "owns_transfer db1 = owns_transfer db" by (intro ext) (simp add: s(1) owns_transfer_def)
  show ?case
  proof (intro conjI ballI allI impI)
    show "db' = db\<lparr>account_transfers := filter (\<lambda>t. \<not> (at_chain_transaction_id t = i \<and> at_provider_transfer_key t \<in> set (key # keys)))
        (account_transfers db)\<rparr>"
    proof -
      have "filter (\<lambda>t. \<not> (at_chain_transaction_id t = i \<and> at_provider_transfer_key t \<in> set keys))
          (filter (\<lambda>t. \<not> (at_chain_transaction_id t = i \<and> at_provider_transfer_key t = key)) ts) =
        filter (\<lambda>t. \<not> (at_chain_transaction_id t = i \<and> at_provider_transfer_key t \<in> set (key # keys))) ts" for ts :: "AccountTransferRow list"
        by (induction ts) auto
      moreover have "account_transfers db1 =
          filter (\<lambda>t. \<not> (at_chain_transaction_id t = i \<and> at_provider_transfer_key t = key)) (account_transfers db)" by (simp add: s(1))
      moreover have "db1\<lparr>account_transfers := ts\<rparr> = db\<lparr>account_transfers := ts\<rparr>" for ts by (simp add: s(1))
      ultimately show ?thesis using conjunct1 [OF r] by (simp only:)
    qed
    show "accounts \<subseteq> accounts'" using s(2) r by blast
    fix t c
    assume t: "t \<in> set (account_transfers db)"
      and c: "at_chain_transaction_id t = i \<and> at_provider_transfer_key t \<in> set (key # keys) \<and> owns_transfer db c t"
    show "\<exists>a \<in> accounts'. env_parse_ulid env c = Inr a"
    proof (cases "at_provider_transfer_key t = key")
      case True
      with s(3) [OF t] c obtain a where "a \<in> accounts1" "env_parse_ulid env c = Inr a" by blast
      with r show ?thesis by blast
    next
      case False
      with t c have "t \<in> set (account_transfers db1)" by (simp add: s(1))
      moreover have "at_chain_transaction_id t = i \<and> at_provider_transfer_key t \<in> set keys \<and> owns_transfer db1 c t"
        using c False owns by simp
      ultimately show ?thesis using r by blast
    qed
  qed
qed simp

text \<open>The keys under which the record's own transfers are written or retired.\<close>

definition touched_keys :: "SyncAccountTransactionRecord \<Rightarrow> string set" where
  "touched_keys rc = set (excluded_candidates (map sr_provider_transfer_key (sa_transfers rc)))"

lemma upsert_account_transfer_other:
  assumes "upsert_account_transfer env asset_id network i h (c, db) x = Inr (c', db')"
  shows "digital_asset_addresses db' = digital_asset_addresses db"
    and "t \<in> set (account_transfers db) \<Longrightarrow> at_provider_transfer_key t \<notin> set (excluded_candidates [sr_provider_transfer_key x]) \<Longrightarrow>
      t \<in> set (account_transfers db')"
proof -
  let ?db = "retire_legacy_transfer asset_id network h (sr_provider_transfer_key x) db"
  have retire: "digital_asset_addresses ?db = digital_asset_addresses db"
    by (simp add: retire_legacy_transfer_def split: option.split)
  have retire_t: "t \<in> set (account_transfers ?db)" if "t \<in> set (account_transfers db)"
    "at_provider_transfer_key t \<notin> set (excluded_candidates [sr_provider_transfer_key x])"
    using that by (auto simp: retire_legacy_transfer_def excluded_candidates_def is_transfer_def split: option.splits)
  have up: "t \<in> set (upsert_rows (is_transfer asset_id network h (sr_provider_transfer_key x)) f r (account_transfers ?db))"
    if "t \<in> set (account_transfers db)" "at_provider_transfer_key t \<notin> set (excluded_candidates [sr_provider_transfer_key x])" for f r
    using retire_t [OF that] that(2) by (force simp: upsert_rows_def excluded_candidates_def is_transfer_def)
  show "digital_asset_addresses db' = digital_asset_addresses db"
    using assms retire by (auto simp: upsert_account_transfer_def constraint_def Let_def split: if_splits)
  show "t \<in> set (account_transfers db')" if t: "t \<in> set (account_transfers db)"
    "at_provider_transfer_key t \<notin> set (excluded_candidates [sr_provider_transfer_key x])"
    using assms retire_t [OF t] up [OF t] t(2)
    by (auto simp: upsert_account_transfer_def constraint_def Let_def excluded_candidates_def is_transfer_def split: if_splits)
qed

lemma upsert_account_transfers_other:
  assumes "upsert_account_transfers env asset_id network i rc (c, db) = Inr (c', db')"
  shows "digital_asset_addresses db' = digital_asset_addresses db \<and>
    (\<forall>t \<in> set (account_transfers db). at_provider_transfer_key t \<notin> touched_keys rc \<longrightarrow> t \<in> set (account_transfers db'))"
proof -
  let ?I = "\<lambda>s. digital_asset_addresses (snd s) = digital_asset_addresses db \<and>
    (\<forall>t \<in> set (account_transfers db). at_provider_transfer_key t \<notin> touched_keys rc \<longrightarrow> t \<in> set (account_transfers (snd s)))"
  have "?I (c', db')"
  proof (rule res_fold_invariant [OF assms [unfolded upsert_account_transfers_def], where P = ?I])
    fix s x s'
    assume I: "?I s" and x: "x \<in> set (sa_transfers rc)" and step: "upsert_account_transfer env asset_id network i (sa_tx_hash rc) s x = Inr s'"
    have "set (excluded_candidates [sr_provider_transfer_key x]) \<subseteq> touched_keys rc"
      using x by (auto simp: touched_keys_def excluded_candidates_def)
    then show "?I s'"
      using I upsert_account_transfer_other [of env asset_id network i "sa_tx_hash rc" "fst s" "snd s" x "fst s'" "snd s'"] step
      by (simp add: subset_iff) blast
  qed simp
  then show ?thesis by simp
qed

lemma upsert_account_chain_transaction_id:
  assumes valid: "chain_tables_valid db" and put: "upsert_account_chain_transaction env new_id asset_id network rc now_raw db = Inr db1"
    and i: "resolve_chain_transaction_id db1 asset_id network (sa_tx_hash rc) = Inr i"
  shows "account_transfers db1 = account_transfers db \<and> digital_asset_addresses db1 = digital_asset_addresses db \<and>
    i \<in> ct_id ` set (chain_transactions db1) \<and>
    (case List.find (is_chain_transaction asset_id network (sa_tx_hash rc)) (chain_transactions db) of
       None \<Rightarrow> i = new_id | Some p \<Rightarrow> i = ct_id p)"
proof -
  from put obtain hi lo where put': "put_chain_transaction ''Failed to upsert account chain transaction: '' new_id
      \<lparr>ct_id = new_id, ct_asset_id = asset_as_str asset_id, ct_network = network_as_str network, ct_tx_hash = sa_tx_hash rc,
       ct_status = status_as_db_value (sa_status rc), ct_block_height = sa_block_height rc, ct_block_hash = sa_block_hash rc,
       ct_block_time = map_option (env_to_rfc3339 env) (sa_block_time rc), ct_nonce = sa_nonce rc, ct_fee_amount_hi = hi,
       ct_fee_amount_lo = lo, ct_created_at = now_raw, ct_updated_at = now_raw\<rparr> db = Inr db1" (is "put_chain_transaction _ _ ?r _ = _")
    by (auto simp: upsert_account_chain_transaction_def)
  have ids: "distinct (map ct_id (chain_transactions db))" "distinct (map chain_key (chain_transactions db))"
    using valid by (simp_all add: chain_tables_valid_def)
  have key: "(\<lambda>p. chain_key p = chain_key ?r) = is_chain_transaction asset_id network (sa_tx_hash rc)"
    by (simp add: is_chain_transaction_key)
  obtain cts q where db1: "db1 = db\<lparr>chain_transactions := cts\<rparr>"
    and find: "List.find (\<lambda>p. chain_key p = chain_key ?r) cts = Some q"
    and old: "case List.find (\<lambda>p. chain_key p = chain_key ?r) (chain_transactions db) of
       None \<Rightarrow> ct_id q = new_id \<and> new_id \<notin> ct_id ` set (chain_transactions db) | Some p \<Rightarrow> ct_id q = ct_id p"
    by (rule put_chain_transaction_ok [OF ids put'])
  have "ct_id q = i" using i find [unfolded key] by (simp add: db1 resolve_chain_transaction_id_def)
  moreover have "q \<in> set cts" using find by (auto simp: find_Some_iff)
  then have "ct_id q \<in> ct_id ` set cts" by (rule imageI)
  ultimately show ?thesis using old [unfolded key] by (auto simp: db1 split: option.splits)
qed

text \<open>The accounts to be rebuilt are finitely many.\<close>

lemma affected_accounts_finite:
  assumes "res_fold (remove_excluded_transfer env i) (removed, accounts, db) keys = Inr (removed', accounts', db')" and "finite accounts"
  shows "finite accounts'"
proof -
  have ids: "finite accs'" if "res_fold (\<lambda>acc raw. res_map (\<lambda>i. insert i acc) (parse_account_id env raw)) accs raws = Inr accs'"
    "finite accs" for accs raws accs'
    by (rule res_fold_invariant [OF that(1), where P = finite]) (use that(2) in auto)
  have "finite (fst (snd (removed', accounts', db')))"
  proof (rule res_fold_invariant [OF assms(1), where P = "\<lambda>s. finite (fst (snd s))"])
    fix s key s'
    assume "finite (fst (snd s))" "remove_excluded_transfer env i s key = Inr s'"
    then show "finite (fst (snd s'))" by (auto simp: remove_excluded_transfer_def Let_def dest: ids split: if_splits prod.splits)
  qed (use assms(2) in simp)
  then show ?thesis by simp
qed

text \<open>
  C29. Withdrawal of transfers. When a transaction of an account-based asset is stored, no transfer the record excludes is
  left of it under its present or former key, every transfer left has an owner, and the ledger of every account that owned
  an excluded transfer before is, in the database that results, the one built from that database (a transfer whose stored key
  is one the record itself writes or retires for another transfer is not counted here). A record that both retains and
  excludes a transfer is refused. The iteration over a hash set visits each of its elements once, in whatever order.
\<close>

theorem excluded_transfers_withdrawn:
  assumes valid: "chain_tables_valid db"
    and iter: "\<And>A. finite A \<Longrightarrow> set (iter_accounts A) = A \<and> distinct (iter_accounts A)"
    and ok: "reconcile_account_transaction_tx env iter_accounts new_id asset_id network rc now_raw db = Inr (flags, db')"
  shows "set (sa_excluded_transfer_keys rc) \<inter> sr_provider_transfer_key ` set (sa_transfers rc) = {} \<and>
    (\<exists>i. (case List.find (is_chain_transaction asset_id network (sa_tx_hash rc)) (chain_transactions db) of
          None \<Rightarrow> i = new_id | Some p \<Rightarrow> i = ct_id p) \<and>
       (\<forall>t \<in> set (account_transfers db'). at_chain_transaction_id t = i \<longrightarrow>
          at_provider_transfer_key t \<notin> set (excluded_candidates (sa_excluded_transfer_keys rc)) \<and> owned_transfer i t) \<and>
       (\<forall>t \<in> set (account_transfers db). \<forall>c. at_chain_transaction_id t = i \<and>
          at_provider_transfer_key t \<in> set (excluded_candidates (sa_excluded_transfer_keys rc)) - touched_keys rc \<and> owns_transfer db c t \<longrightarrow>
          (\<exists>a observed. env_parse_ulid env c = Inr a \<and> env_parse_datetime env now_raw = Inr observed \<and> ledger_current env observed db' a)))"
proof -
  let ?keys = "excluded_candidates (sa_excluded_transfer_keys rc)"
  have disj: "\<not> list_ex (\<lambda>key. key \<in> sr_provider_transfer_key ` set (sa_transfers rc)) (sa_excluded_transfer_keys rc)"
  proof
    assume "list_ex (\<lambda>key. key \<in> sr_provider_transfer_key ` set (sa_transfers rc)) (sa_excluded_transfer_keys rc)"
    with ok show False unfolding reconcile_account_transaction_tx_def by simp
  qed
  from ok obtain db1 i c2 db2 removed accounts db3 where
    put: "upsert_account_chain_transaction env new_id asset_id network rc now_raw db = Inr db1"
    and i: "resolve_chain_transaction_id db1 asset_id network (sa_tx_hash rc) = Inr i"
    and s2: "upsert_account_transfers env asset_id network i rc (Map.empty, db1) = Inr (c2, db2)"
    and s3: "res_fold (remove_excluded_transfer env i) (0, {}, db2) ?keys = Inr (removed, accounts, db3)"
    and s5: "rebuild_affected_ledgers env iter_accounts now_raw accounts (snd (execute_chain_cleanup_for_marked_candidates [i] db3)) = Inr db'"
    unfolding reconcile_account_transaction_tx_def if_not_P [OF disj] by (auto simp: case_prod_beta)
  obtain stats db4 where s4: "execute_chain_cleanup_for_marked_candidates [i] db3 = (stats, db4)" by fastforce
  note s5' = s5 [unfolded s4 snd_conv]
  note u = upsert_account_chain_transaction_id [OF valid put i]
  note o = upsert_account_transfers_other [OF s2] and e = remove_excluded_transfers_effect [OF s3]
  have t4: "set (account_transfers db4) \<subseteq> set (account_transfers db3)"
    "\<forall>t \<in> set (account_transfers db4). at_chain_transaction_id t = i \<longrightarrow> owned_transfer i t"
    using s4 by (auto simp: execute_chain_cleanup_for_marked_candidates_def Let_def owned_transfer_def)
  have t': "account_transfers db' = account_transfers db4" using rebuild_affected_transfers [OF s5'] .
  have gone: "at_provider_transfer_key t \<notin> set ?keys" if "t \<in> set (account_transfers db3)" "at_chain_transaction_id t = i" for t
    using that conjunct1 [OF e] by (auto dest!: arg_cong [where f = account_transfers])
  have owns: "owns_transfer db2 = owns_transfer db"
    using o u by (intro ext) (simp add: owns_transfer_def)
  have current: "\<exists>a observed. env_parse_ulid env c = Inr a \<and> env_parse_datetime env now_raw = Inr observed \<and> ledger_current env observed db' a"
    if t: "t \<in> set (account_transfers db)" and c: "at_chain_transaction_id t = i \<and>
          at_provider_transfer_key t \<in> set ?keys - touched_keys rc \<and> owns_transfer db c t" for t c
  proof -
    have "t \<in> set (account_transfers db2)" using t c o u by auto
    then obtain a where a: "a \<in> accounts" "env_parse_ulid env c = Inr a" using e c owns by auto
    have "a \<in> set (iter_accounts accounts)" using iter affected_accounts_finite [OF s3] a(1) by simp
    with affected_ledgers_current [OF s5' a(1)] a(2) show ?thesis by blast
  qed
  show ?thesis
  proof (intro conjI exI [of _ i] ballI impI)
    show "set (sa_excluded_transfer_keys rc) \<inter> sr_provider_transfer_key ` set (sa_transfers rc) = {}"
      using disj by (auto simp: list_ex_iff)
    show "case List.find (is_chain_transaction asset_id network (sa_tx_hash rc)) (chain_transactions db) of
          None \<Rightarrow> i = new_id | Some p \<Rightarrow> i = ct_id p" using u by blast
  next
    fix t
    assume t: "t \<in> set (account_transfers db')" and ti: "at_chain_transaction_id t = i"
    show "at_provider_transfer_key t \<notin> set ?keys" using gone t t4(1) t' ti by auto
    show "owned_transfer i t" using t4(2) t t' ti by simp
  qed (use current in blast)
qed

text \<open>A stored internal transfer that the provider now excludes, beside one it keeps; its account has an outdated ledger.\<close>

definition sample_transfer :: "string \<Rightarrow> AccountTransferRow" where
  "sample_transfer key = \<lparr>at_chain_transaction_id = ''t1'', at_asset_id = ''ethereum'', at_network = ''mainnet'', at_tx_hash = ''h1'',
      at_transfer_index = (if key = ''normal'' then 0 else 1), at_provider_transfer_key = key,
      at_transfer_kind = (if key = ''normal'' then ''normal'' else ''internal''), at_from_address = None,
      at_from_address_id = None, at_to_address = Some ''bc1'', at_to_address_id = Some ''d1'', at_value_amount_hi = 0,
      at_value_amount_lo = 7\<rparr>"

definition sample_account_rc :: SyncAccountTransactionRecord where
  "sample_account_rc =
     \<lparr>sa_tx_hash = ''h1'', sa_status = Confirmed, sa_block_height = Some 5, sa_block_hash = None, sa_block_time = None,
      sa_fee_amount = None, sa_nonce = Some 0, sa_transfers = [], sa_excluded_transfer_keys = [''internal:0_1'']\<rparr>"

definition sample_ledger_row :: "int \<Rightarrow> LedgerRow" where
  "sample_ledger_row received = \<lparr>ld_account_id = ''acc'', ld_chain_transaction_id = ''t1'', ld_asset_id = ''ethereum'',
     ld_network = ''mainnet'', ld_tx_hash = ''h1'', ld_status = ''confirmed'', ld_occurred_at = ''t'', ld_first_seen_at = ''t'',
     ld_block_height = Some 5, ld_nonce = Some 0, ld_min_transfer_index = Some 0, ld_tx_type = ''receive'',
     ld_from_addresses = [], ld_to_addresses = [''bc1''], ld_value_hi = 0, ld_value_lo = received, ld_fee_hi = None, ld_fee_lo = None,
     ld_closing_balance_hi = Some 0, ld_closing_balance_lo = Some received, ld_balance_delta_hi = 0, ld_balance_delta_lo = received,
     ld_balance_delta_negative = 0, ld_created_at = ''t'', ld_updated_at = ''t''\<rparr>"

definition sample_transfer_db :: UserDb where
  "sample_transfer_db = reconcile_sample_db\<lparr>
     digital_asset_accounts := [\<lparr>daa_id = ''acc'', daa_wallet_id = ''w'', daa_asset_id = ''ethereum'', daa_network = ''mainnet'',
       daa_label = None, daa_account_kind = ''single_address''\<rparr>],
     chain_transactions := [\<lparr>ct_id = ''t1'', ct_asset_id = ''ethereum'', ct_network = ''mainnet'', ct_tx_hash = ''h1'',
       ct_status = ''confirmed'', ct_block_height = Some 5, ct_block_hash = None, ct_block_time = None, ct_nonce = Some 0,
       ct_fee_amount_hi = None, ct_fee_amount_lo = None, ct_created_at = ''t'', ct_updated_at = ''t''\<rparr>],
     account_transfers := [sample_transfer ''normal'', sample_transfer ''internal:0_1''],
     account_transaction_ledger := [sample_ledger_row 14]\<rparr>"

definition sample_withdrawn_db :: UserDb where
  "sample_withdrawn_db = sample_transfer_db\<lparr>account_transfers := [sample_transfer ''normal''],
     account_transaction_ledger := [sample_ledger_row 7]\<rparr>"

lemma sample_transfer_db_valid: "chain_tables_valid sample_transfer_db"
  by (simp add: chain_tables_valid_def reconcile_sample_simps sample_transfer_db_def sample_transfer_def)

lemma sample_account_stored:
  "reconcile_account_transaction_tx sample_env sorted_list_of_set ''t2'' Ethereum Mainnet sample_account_rc ''t'' sample_transfer_db =
     Inr ((False, True), sample_withdrawn_db)"
  by code_simp

lemma sample_candidates: "''internal:0_1'' \<in> set (excluded_candidates [''internal:0_1''])"
  by (simp add: excluded_candidates_def)

theorem excluded_transfers_withdrawn_witness:
  "owns_transfer sample_transfer_db ''acc'' (sample_transfer ''internal:0_1'') \<and>
   sample_transfer ''internal:0_1'' \<in> set (account_transfers sample_transfer_db) \<and>
   ''internal:0_1'' \<notin> at_provider_transfer_key ` set (account_transfers sample_withdrawn_db) \<and>
   (\<exists>observed. ledger_current sample_env observed sample_withdrawn_db ''acc'') \<and>
   map ld_closing_balance_lo (own_rows ''acc'' sample_transfer_db) = [Some 14] \<and>
   map ld_closing_balance_lo (own_rows ''acc'' sample_withdrawn_db) = [Some 7]"
proof -
  have find: "List.find (is_chain_transaction Ethereum Mainnet (sa_tx_hash sample_account_rc)) (chain_transactions sample_transfer_db) =
      Some (hd (chain_transactions sample_transfer_db))" "ct_id (hd (chain_transactions sample_transfer_db)) = ''t1''"
    by (simp_all add: is_chain_transaction_def sample_account_rc_def sample_transfer_db_def)
  have stored: "sample_transfer ''internal:0_1'' \<in> set (account_transfers sample_transfer_db)"
    and transfer: "at_chain_transaction_id (sample_transfer key) = ''t1''" "at_provider_transfer_key (sample_transfer key) = key" for key
    by (simp_all add: sample_transfer_db_def sample_transfer_def)
  have owns: "owns_transfer sample_transfer_db ''acc'' (sample_transfer ''internal:0_1'')"
    by (simp add: owns_transfer_def sample_transfer_db_def sample_transfer_def reconcile_sample_simps)
  have key: "''internal:0_1'' \<in> set (excluded_candidates (sa_excluded_transfer_keys sample_account_rc)) - touched_keys sample_account_rc"
    using sample_candidates by (simp add: sample_account_rc_def touched_keys_def excluded_candidates_def)
  have ts: "account_transfers sample_withdrawn_db = [sample_transfer ''normal'']" by (simp add: sample_withdrawn_db_def)
  have "set (sorted_list_of_set A) = A \<and> distinct (sorted_list_of_set A)" if "finite A" for A :: "ulid set" using that by simp
  from excluded_transfers_withdrawn [OF sample_transfer_db_valid this sample_account_stored] find
  have gone: "\<forall>t \<in> set (account_transfers sample_withdrawn_db). at_chain_transaction_id t = ''t1'' \<longrightarrow>
      at_provider_transfer_key t \<notin> set (excluded_candidates (sa_excluded_transfer_keys sample_account_rc))"
    and all: "\<forall>t \<in> set (account_transfers sample_transfer_db). \<forall>c. at_chain_transaction_id t = ''t1'' \<and>
      at_provider_transfer_key t \<in> set (excluded_candidates (sa_excluded_transfer_keys sample_account_rc)) - touched_keys sample_account_rc \<and>
      owns_transfer sample_transfer_db c t \<longrightarrow>
      (\<exists>a observed. env_parse_ulid sample_env c = Inr a \<and> env_parse_datetime sample_env ''t'' = Inr observed \<and>
        ledger_current sample_env observed sample_withdrawn_db a)" by simp_all
  from all [rule_format, OF stored] transfer [of "''internal:0_1''"] key owns
  have "\<exists>observed. ledger_current sample_env observed sample_withdrawn_db ''acc''" by (fastforce simp: sample_env_def)
  with gone key transfer stored owns ts show ?thesis
    by (auto simp: sample_env_def own_rows_def sample_transfer_db_def sample_withdrawn_db_def sample_ledger_row_def)
qed

end
