(* ===== verification/Raw_Ingestion.thy ===== *)
theory Raw_Ingestion
  imports Sync_Gate
begin

section \<open>Raw evidence of what a provider returned\<close>

text \<open>
  The tables that keep every provider response as it arrived, \<open>src/src/db/raw_ingestion/core\<close>: the connections to a provider, the
  runs of a sync, the versions of each transaction payload, the pages observed and their transactions, and failed requests
  and parses; with the ingestion of a Mempool page of \<open>src/src/tasks/jobs/raw_ingestion_executor.rs\<close>. Each call that takes the lock of
  the user's database commits on its own, so that an ingestion that fails keeps what it wrote before: it returns
  its result with the tables after it. References of these tables to tables outside them are not checked here. The
  identifiers of new rows are arguments; those of rows nothing refers to are left out. JSON, URLs, SHA-256 and UTF-8 decoding are
  calls into packages and the argument \<open>RawCodec\<close>.
\<close>

subsection \<open>Transactions as the Mempool API gives them\<close>

record MempoolTransactionStatus =
  ms_confirmed :: bool
  ms_block_height :: "int option"
  ms_block_hash :: "string option"
  ms_block_time :: "int option"

record MempoolPrevOut =
  mp_scriptpubkey_address :: "string option"
  mp_value :: int

record MempoolInput =
  mi_txid :: "string option"
  mi_vout :: "int option"
  mi_prevout :: "MempoolPrevOut option"

record MempoolOutput =
  mv_scriptpubkey :: string
  mv_scriptpubkey_address :: "string option"
  mv_value :: int

record MempoolAddressTransaction =
  mt_txid :: string
  mt_vin :: "MempoolInput list"
  mt_vout :: "MempoolOutput list"
  mt_fee :: "int option"
  mt_status :: MempoolTransactionStatus

datatype MempoolError =
    MempoolHttp string string
  | MempoolUpstreamStatus string "16 word" "string option" "u8 list"
  | MempoolRateLimited string "int option" "string option" "u8 list"
  | MempoolDeserialize string string "16 word option" "string option" "u8 list option"
  | MempoolUrlJoin string

record MempoolPageTransaction =
  pt_txid :: TxHash
  pt_payload_bytes :: "u8 list"

record MempoolTransactionPage =
  tp_request_url :: string
  tp_http_status_code :: "16 word"
  tp_transactions :: "MempoolPageTransaction list"

subsection \<open>Kinds and their texts\<close>

datatype IntegrationKind = IkMempool | IkEtherscan

fun integration_kind_as_db_value :: "IntegrationKind \<Rightarrow> string" where
  "integration_kind_as_db_value IkMempool = ''mempool''"
| "integration_kind_as_db_value IkEtherscan = ''etherscan''"

fun source_integration_for_asset :: "SyncedAssetId \<Rightarrow> IntegrationKind" where
  "source_integration_for_asset Bitcoin = IkMempool"
| "source_integration_for_asset Ethereum = IkEtherscan"

datatype SourceConnectionStatus = ConnectionActive | ConnectionInactive

fun source_connection_status_as_db_value :: "SourceConnectionStatus \<Rightarrow> string" where
  "source_connection_status_as_db_value ConnectionActive = ''active''"
| "source_connection_status_as_db_value ConnectionInactive = ''inactive''"

datatype SyncRunTriggerKind = TriggerScheduled | TriggerManual | TriggerBackfill

fun trigger_kind_as_db_value :: "SyncRunTriggerKind \<Rightarrow> string" where
  "trigger_kind_as_db_value TriggerScheduled = ''scheduled''"
| "trigger_kind_as_db_value TriggerManual = ''manual''"
| "trigger_kind_as_db_value TriggerBackfill = ''backfill''"

datatype SyncRunStatus = RunStarted | RunCompletedSuccess | RunCompletedFailure

fun run_status_as_db_value :: "SyncRunStatus \<Rightarrow> string" where
  "run_status_as_db_value RunStarted = ''started''"
| "run_status_as_db_value RunCompletedSuccess = ''completed_success''"
| "run_status_as_db_value RunCompletedFailure = ''completed_failure''"

definition parse_sync_run_status :: "string \<Rightarrow> DbError + SyncRunStatus" where
  "parse_sync_run_status raw =
     (if raw = ''started'' then Inr RunStarted
      else if raw = ''completed_success'' then Inr RunCompletedSuccess
      else if raw = ''completed_failure'' then Inr RunCompletedFailure
      else Inl (DbError (''Invalid sync run status in DB: '' @ raw)))"

datatype MempoolPageKind = FirstPage | PaginatedAfterConfirmed

fun page_kind_as_db_value :: "MempoolPageKind \<Rightarrow> string" where
  "page_kind_as_db_value FirstPage = ''first_page''"
| "page_kind_as_db_value PaginatedAfterConfirmed = ''paginated_after_confirmed''"

datatype MempoolRequestKind = AddressTransactionsFirstPage | AddressTransactionsAfterConfirmed

fun request_kind_as_db_value :: "MempoolRequestKind \<Rightarrow> string" where
  "request_kind_as_db_value AddressTransactionsFirstPage = ''mempool_address_transactions_first_page''"
| "request_kind_as_db_value AddressTransactionsAfterConfirmed = ''mempool_address_transactions_after_confirmed''"

fun raw_request_kind_for_page_kind :: "MempoolPageKind \<Rightarrow> MempoolRequestKind" where
  "raw_request_kind_for_page_kind FirstPage = AddressTransactionsFirstPage"
| "raw_request_kind_for_page_kind PaginatedAfterConfirmed = AddressTransactionsAfterConfirmed"

definition MEMPOOL_PAGE_GROUPING :: string where
  "MEMPOOL_PAGE_GROUPING = ''mempool_address_transactions_page''"

record MempoolPageObservationMetadata =
  md_address_id :: ulid
  md_scan_start_run_id :: "ulid option"
  md_page_kind :: MempoolPageKind
  md_requested_cursor :: "string option"
  md_returned_last_confirmed_cursor :: "string option"
  md_item_count :: u32

subsection \<open>The tables\<close>

record SourceConnectionRow =
  scn_id :: string
  scn_integration :: string
  scn_network :: string
  scn_normalized_source_key :: string
  scn_status :: string
  scn_current_address_id :: "ulid option"
  scn_updated_at :: string
  scn_activated_at :: string
  scn_deactivated_at :: "string option"

record SyncRunRow =
  sr_id :: ulid
  sr_integration :: string
  sr_scope_address_id :: ulid
  sr_source_connection_id :: string
  sr_asset_id :: string
  sr_network :: string
  sr_trigger_kind :: string
  sr_status :: string
  sr_started_at :: string
  sr_completed_at :: "string option"
  sr_summary_json :: "string option"
  sr_updated_at :: string

record RequestAttemptRow =
  rqa_sync_run_id :: ulid
  rqa_integration :: string
  rqa_request_kind :: string
  rqa_request_url :: string
  rqa_scope_address_id :: ulid
  rqa_page_cursor :: "string option"
  rqa_page_kind :: "string option"
  rqa_attempted_at :: string
  rqa_outcome_kind :: string
  rqa_http_status_code :: "int option"
  rqa_response_headers_json :: "string option"
  rqa_response_body_truncated :: "u8 list option"
  rqa_response_body_was_truncated :: bool
  rqa_transport_error_message :: "string option"

record RawMempoolVersionRow =
  rv_id :: ulid
  rv_source_connection_id :: string
  rv_network :: string
  rv_txid :: string
  rv_payload_hash_sha256_hex :: string
  rv_payload_bytes :: "u8 list"
  rv_first_observed_at :: string
  rv_supersedes_raw_version_id :: "ulid option"
  rv_created_at :: string

record RawObservationSetRow =
  ros_id :: ulid
  ros_sync_run_id :: ulid
  ros_source_connection_id :: string
  ros_grouping_kind :: string
  ros_grouping_metadata_json :: string
  ros_observed_at :: string
  ros_created_at :: string

record RawMempoolObservationRow =
  rmo_id :: ulid
  rmo_sync_run_id :: ulid
  rmo_source_connection_id :: string
  rmo_raw_observation_set_id :: ulid
  rmo_raw_version_id :: ulid
  rmo_page_item_index :: int
  rmo_observed_at :: string
  rmo_created_at :: string

record RawParseAttemptRow =
  rpa_sync_run_id :: ulid
  rpa_integration :: string
  rpa_raw_object_kind :: string
  rpa_raw_object_key_json :: string
  rpa_raw_version_id :: ulid
  rpa_parser_kind :: string
  rpa_parser_version :: string
  rpa_status :: string
  rpa_error_message :: "string option"
  rpa_attempted_at :: string

text \<open>Of the observations of Etherscan transactions, only the run they belong to is read here.\<close>

record RawDb =
  source_connections :: "SourceConnectionRow list"
  sync_runs :: "SyncRunRow list"
  request_attempts :: "RequestAttemptRow list"
  raw_observation_sets :: "RawObservationSetRow list"
  raw_parse_attempts :: "RawParseAttemptRow list"
  raw_mempool_versions :: "RawMempoolVersionRow list"
  raw_mempool_observations :: "RawMempoolObservationRow list"
  raw_etherscan_normal_observation_runs :: "ulid list"
  raw_etherscan_internal_observation_runs :: "ulid list"

record RawCodec =
  rc_parse_page_metadata :: "string \<Rightarrow> MempoolPageObservationMetadata option"
  rc_page_metadata_json :: "MempoolPageObservationMetadata \<Rightarrow> string + string"
  rc_json_is_object :: "string \<Rightarrow> string + bool"
  rc_json_text :: "string \<Rightarrow> string \<Rightarrow> string option"
  rc_parse_payload :: "u8 list \<Rightarrow> string + MempoolAddressTransaction"
  rc_sha256_hex :: "u8 list \<Rightarrow> string"
  rc_parse_url :: "string \<Rightarrow> string + string"
  rc_from_utf8_lossy :: "u8 list \<Rightarrow> string"

subsection \<open>Connections to a provider\<close>

definition non_empty_text :: "string \<Rightarrow> string \<Rightarrow> DbError + string" where
  "non_empty_text message raw =
     (let trimmed = str_trim raw in if trimmed = [] then Inl (DbError message) else Inr trimmed)"

definition source_connection_id_parse :: "string \<Rightarrow> DbError + string" where
  "source_connection_id_parse = non_empty_text ''source connection id cannot be empty''"

text \<open>
  An \<open>UPDATE\<close> of the connections: a connection is active exactly when it has an address (\<open>CHECK\<close>), and no address has
  two (a unique index).
\<close>

definition connection_row_ok :: "SourceConnectionRow \<Rightarrow> bool" where
  "connection_row_ok r \<longleftrightarrow>
     (scn_status r = ''active'' \<and> scn_current_address_id r \<noteq> None \<and> scn_deactivated_at r = None) \<or>
     (scn_status r = ''inactive'' \<and> scn_current_address_id r = None \<and> scn_deactivated_at r \<noteq> None)"

definition connection_addresses :: "SourceConnectionRow list \<Rightarrow> ulid list" where
  "connection_addresses rows = List.map_filter scn_current_address_id rows"

definition put_connections :: "string \<Rightarrow> SourceConnectionRow list \<Rightarrow> RawDb \<Rightarrow> DbError + RawDb" where
  "put_connections prefix rows rdb =
     (if \<not> list_all connection_row_ok rows then Inl (DbError (prefix @ '': CHECK constraint failed''))
      else if \<not> distinct (connection_addresses rows) then Inl (DbError (prefix @ '': UNIQUE constraint failed''))
      else Inr (rdb\<lparr>source_connections := rows\<rparr>))"

definition is_source :: "IntegrationKind \<Rightarrow> Network \<Rightarrow> string \<Rightarrow> SourceConnectionRow \<Rightarrow> bool" where
  "is_source integration network key r \<longleftrightarrow>
     scn_integration r = integration_kind_as_db_value integration \<and> scn_network r = network_as_str network \<and>
     scn_normalized_source_key r = key"

definition new_connection_row :: "string \<Rightarrow> ulid \<Rightarrow> IntegrationKind \<Rightarrow> Network \<Rightarrow> string \<Rightarrow> string \<Rightarrow> SourceConnectionRow" where
  "new_connection_row new_id address_id integration network key timestamp =
     \<lparr>scn_id = new_id, scn_integration = integration_kind_as_db_value integration, scn_network = network_as_str network,
      scn_normalized_source_key = key, scn_status = source_connection_status_as_db_value ConnectionActive,
      scn_current_address_id = Some address_id, scn_updated_at = timestamp, scn_activated_at = timestamp,
      scn_deactivated_at = None\<rparr>"

definition ensure_source_connection_for_address_tx ::
  "Env \<Rightarrow> string \<Rightarrow> ulid \<Rightarrow> SyncedAssetId \<Rightarrow> Network \<Rightarrow> string \<Rightarrow> time \<Rightarrow> RawDb \<Rightarrow> DbError + string \<times> RawDb" where
  "ensure_source_connection_for_address_tx env new_id address_id asset_id network key now rdb =
     (let integration = source_integration_for_asset asset_id; timestamp = env_to_rfc3339 env now in
      case List.find (is_source integration network key) (source_connections rdb) of
        Some existing \<Rightarrow>
          res_bind (source_connection_id_parse (scn_id existing)) (\<lambda>i.
            res_map (Pair i)
              (put_connections ''Failed to reactivate source connection''
                (map (\<lambda>r. if scn_id r = i
                        then r\<lparr>scn_status := source_connection_status_as_db_value ConnectionActive,
                               scn_current_address_id := Some address_id, scn_updated_at := timestamp,
                               scn_activated_at := timestamp, scn_deactivated_at := None\<rparr> else r)
                   (source_connections rdb)) rdb))
      | None \<Rightarrow>
          if new_id \<in> scn_id ` set (source_connections rdb) \<or> str_trim key = []
          then Inl (DbError ''Failed to insert source connection: constraint failed'')
          else res_map (Pair new_id)
            (put_connections ''Failed to insert source connection''
              (source_connections rdb @ [new_connection_row new_id address_id integration network key timestamp]) rdb))"

definition deactivate_source_connection_for_address_tx :: "Env \<Rightarrow> ulid \<Rightarrow> time \<Rightarrow> RawDb \<Rightarrow> DbError + RawDb" where
  "deactivate_source_connection_for_address_tx env address_id now rdb =
     (let timestamp = env_to_rfc3339 env now in
      put_connections ''Failed to deactivate source connection''
        (map (\<lambda>r. if scn_current_address_id r = Some address_id
                then r\<lparr>scn_status := source_connection_status_as_db_value ConnectionInactive, scn_current_address_id := None,
                       scn_updated_at := timestamp, scn_deactivated_at := Some timestamp\<rparr> else r)
           (source_connections rdb)) rdb)"

definition load_active_source_connection_id :: "IntegrationKind \<Rightarrow> Network \<Rightarrow> ulid \<Rightarrow> RawDb \<Rightarrow> DbError + string" where
  "load_active_source_connection_id integration network address_id rdb =
     (case List.find (\<lambda>r. scn_integration r = integration_kind_as_db_value integration \<and>
             scn_network r = network_as_str network \<and> scn_current_address_id r = Some address_id \<and>
             scn_status r = source_connection_status_as_db_value ConnectionActive) (source_connections rdb) of
        None \<Rightarrow> Inl (DbError (''Missing active source connection for '' @ integration_kind_as_db_value integration @ '' '' @
                  network_as_str network @ '' '' @ address_id))
      | Some r \<Rightarrow> source_connection_id_parse (scn_id r))"

subsection \<open>Runs of a sync\<close>

record StartSyncRunRequest =
  sq_integration :: IntegrationKind
  sq_scope_address_id :: ulid
  sq_asset_id :: SyncedAssetId
  sq_network :: Network
  sq_trigger_kind :: SyncRunTriggerKind
  sq_started_at :: time
  sq_summary_json :: "string option"

record StartedSyncRun =
  sn_sync_run_id :: ulid
  sn_source_connection_id :: string

definition start_sync_run :: "Env \<Rightarrow> ulid \<Rightarrow> StartSyncRunRequest \<Rightarrow> RawDb \<Rightarrow> DbError + StartedSyncRun \<times> RawDb" where
  "start_sync_run env new_id rq rdb =
     res_bind (load_active_source_connection_id (sq_integration rq) (sq_network rq) (sq_scope_address_id rq) rdb) (\<lambda>source.
       let started_at = env_to_rfc3339 env (sq_started_at rq) in
       if new_id \<in> sr_id ` set (sync_runs rdb) then Inl (DbError ''Failed to insert sync run: UNIQUE constraint failed'')
       else if source \<notin> scn_id ` set (source_connections rdb)
       then Inl (DbError ''Failed to insert sync run: FOREIGN KEY constraint failed'')
       else Inr (\<lparr>sn_sync_run_id = new_id, sn_source_connection_id = source\<rparr>,
         rdb\<lparr>sync_runs := sync_runs rdb @
           [\<lparr>sr_id = new_id, sr_integration = integration_kind_as_db_value (sq_integration rq),
             sr_scope_address_id = sq_scope_address_id rq, sr_source_connection_id = source,
             sr_asset_id = asset_as_str (sq_asset_id rq), sr_network = network_as_str (sq_network rq),
             sr_trigger_kind = trigger_kind_as_db_value (sq_trigger_kind rq), sr_status = run_status_as_db_value RunStarted,
             sr_started_at = started_at, sr_completed_at = None, sr_summary_json = sq_summary_json rq,
             sr_updated_at = started_at\<rparr>]\<rparr>))"

record CompleteSyncRunRequest =
  cq_sync_run_id :: ulid
  cq_status :: SyncRunStatus
  cq_completed_at :: time
  cq_summary_json :: "string option"

definition complete_sync_run :: "Env \<Rightarrow> CompleteSyncRunRequest \<Rightarrow> RawDb \<Rightarrow> DbError + RawDb" where
  "complete_sync_run env rq rdb =
     (if cq_status rq = RunStarted then Inl (DbError ''complete_sync_run cannot set sync run status back to started'')
      else
        let changed = length (filter (\<lambda>r. sr_id r = cq_sync_run_id rq) (sync_runs rdb)) in
        if changed \<noteq> 1 then Inl (DbError (''Failed to complete sync run '' @ cq_sync_run_id rq @ '': row missing''))
        else Inr (rdb\<lparr>sync_runs := map (\<lambda>r. if sr_id r = cq_sync_run_id rq
               then r\<lparr>sr_status := run_status_as_db_value (cq_status rq),
                      sr_completed_at := Some (env_to_rfc3339 env (cq_completed_at rq)),
                      sr_summary_json := cq_summary_json rq, sr_updated_at := env_to_rfc3339 env (cq_completed_at rq)\<rparr> else r)
             (sync_runs rdb)\<rparr>))"

subsection \<open>Versions of a payload\<close>

definition exact_payload_try_new :: "u8 list \<Rightarrow> DbError + u8 list" where
  "exact_payload_try_new bytes = (if bytes = [] then Inl (DbError ''exact payload bytes cannot be empty'') else Inr bytes)"

record CurrentRawMempoolTransactionHeadRow =
  ch_raw_version_id :: ulid
  ch_txid :: TxHash
  ch_payload_bytes :: "u8 list"

text \<open>The head of a transaction: its version that no other version supersedes.\<close>

definition is_head :: "RawDb \<Rightarrow> RawMempoolVersionRow \<Rightarrow> bool" where
  "is_head rdb v \<longleftrightarrow> \<not> list_ex (\<lambda>newer. rv_supersedes_raw_version_id newer = Some (rv_id v)) (raw_mempool_versions rdb)"

definition read_head :: "Env \<Rightarrow> string \<Rightarrow> RawMempoolVersionRow \<Rightarrow> DbError + CurrentRawMempoolTransactionHeadRow" where
  "read_head env prefix v =
     res_bind (map_err (\<lambda>err. DbError (prefix @ '': '' @ err)) (env_parse_ulid env (rv_id v))) (\<lambda>i.
     res_bind (map_err (\<lambda>err. DbError (prefix @ '': Invalid txid in DB: '' @ tx_hash_error_display err)) (tx_hash_parse (rv_txid v))) (\<lambda>txid.
     res_bind (map_err (\<lambda>err. case err of DbError text \<Rightarrow> DbError (prefix @ '': '' @ text)) (exact_payload_try_new (rv_payload_bytes v))) (\<lambda>payload.
     Inr \<lparr>ch_raw_version_id = i, ch_txid = txid, ch_payload_bytes = payload\<rparr>)))"

definition load_current_raw_mempool_tx_head ::
  "Env \<Rightarrow> RawDb \<Rightarrow> string \<Rightarrow> TxHash \<Rightarrow> DbError + CurrentRawMempoolTransactionHeadRow option" where
  "load_current_raw_mempool_tx_head env rdb source txid =
     (case List.find (\<lambda>v. rv_source_connection_id v = source \<and> rv_txid v = txid \<and> is_head rdb v) (raw_mempool_versions rdb) of
        None \<Rightarrow> Inr None
      | Some v \<Rightarrow> res_map Some (read_head env ''Failed to load current raw mempool head'' v))"

definition load_current_raw_mempool_transaction_heads ::
  "Env \<Rightarrow> RawDb \<Rightarrow> string \<Rightarrow> DbError + CurrentRawMempoolTransactionHeadRow list" where
  "load_current_raw_mempool_transaction_heads env rdb source =
     res_mapM (read_head env ''Failed to read current raw mempool heads'')
       (sort_key (\<lambda>v. (rv_txid v, rv_created_at v))
         (filter (\<lambda>v. rv_source_connection_id v = source \<and> is_head rdb v) (raw_mempool_versions rdb)))"

record InsertRawMempoolTransactionVersionRequest =
  iv_source_connection_id :: string
  iv_network :: Network
  iv_txid :: TxHash
  iv_payload_hash_sha256_hex :: string
  iv_payload_bytes :: "u8 list"
  iv_first_observed_at :: time

datatype RawVersionWriteOutcome = InsertedNewHead | ReusedCurrentHead

record InsertedRawMempoolTransactionVersion =
  ir_raw_version_id :: ulid
  ir_write_outcome :: RawVersionWriteOutcome

text \<open>An \<open>INSERT\<close> of a version: its identifier is new and that of a version it supersedes exists.\<close>

definition put_version :: "string \<Rightarrow> RawMempoolVersionRow \<Rightarrow> RawDb \<Rightarrow> DbError + RawDb" where
  "put_version prefix v rdb =
     (if rv_id v \<in> rv_id ` set (raw_mempool_versions rdb) then Inl (DbError (prefix @ '': UNIQUE constraint failed''))
      else if rv_source_connection_id v \<notin> scn_id ` set (source_connections rdb) \<or>
              (case rv_supersedes_raw_version_id v of None \<Rightarrow> False | Some p \<Rightarrow> p \<notin> rv_id ` set (raw_mempool_versions rdb))
      then Inl (DbError (prefix @ '': FOREIGN KEY constraint failed''))
      else Inr (rdb\<lparr>raw_mempool_versions := raw_mempool_versions rdb @ [v]\<rparr>))"

definition insert_raw_mempool_tx_version ::
  "Env \<Rightarrow> ulid \<Rightarrow> InsertRawMempoolTransactionVersionRequest \<Rightarrow> RawDb \<Rightarrow> DbError + InsertedRawMempoolTransactionVersion \<times> RawDb" where
  "insert_raw_mempool_tx_version env new_id rq rdb =
     res_bind (load_current_raw_mempool_tx_head env rdb (iv_source_connection_id rq) (iv_txid rq)) (\<lambda>head.
       if (case head of None \<Rightarrow> False | Some h \<Rightarrow> ch_payload_bytes h = iv_payload_bytes rq)
       then Inr (\<lparr>ir_raw_version_id = ch_raw_version_id (the head), ir_write_outcome = ReusedCurrentHead\<rparr>, rdb)
       else
         res_map (Pair \<lparr>ir_raw_version_id = new_id, ir_write_outcome = InsertedNewHead\<rparr>)
           (put_version ''Failed to insert raw mempool transaction version''
             \<lparr>rv_id = new_id, rv_source_connection_id = iv_source_connection_id rq, rv_network = network_as_str (iv_network rq),
              rv_txid = iv_txid rq, rv_payload_hash_sha256_hex = iv_payload_hash_sha256_hex rq,
              rv_payload_bytes = iv_payload_bytes rq, rv_first_observed_at = env_to_rfc3339 env (iv_first_observed_at rq),
              rv_supersedes_raw_version_id = map_option ch_raw_version_id head,
              rv_created_at = env_to_rfc3339 env (iv_first_observed_at rq)\<rparr> rdb))"

subsection \<open>Pages observed\<close>

definition raw_observation_metadata_parse :: "RawCodec \<Rightarrow> string \<Rightarrow> DbError + string" where
  "raw_observation_metadata_parse c raw =
     res_bind (non_empty_text ''raw observation metadata json cannot be empty'' raw) (\<lambda>trimmed.
     res_bind (map_err (\<lambda>err. DbError (''raw observation metadata json must be valid JSON: '' @ err)) (rc_json_is_object c trimmed)) (\<lambda>obj.
     if obj then Inr trimmed else Inl (DbError ''raw observation metadata json must be a JSON object'')))"

record RecordRawMempoolPageObservationRequest =
  rq_sync_run_id :: ulid
  rq_source_connection_id :: string
  rq_metadata :: MempoolPageObservationMetadata
  rq_raw_version_ids :: "ulid list"
  rq_observed_at :: time

definition insert_raw_observation_set_tx :: "Env \<Rightarrow> ulid \<Rightarrow> RecordRawMempoolPageObservationRequest \<Rightarrow> string \<Rightarrow> RawDb \<Rightarrow> DbError + RawDb" where
  "insert_raw_observation_set_tx env set_id rq metadata_json rdb =
     (if set_id \<in> ros_id ` set (raw_observation_sets rdb)
      then Inl (DbError ''Failed to insert raw observation set: UNIQUE constraint failed'')
      else if rq_sync_run_id rq \<notin> sr_id ` set (sync_runs rdb) \<or> rq_source_connection_id rq \<notin> scn_id ` set (source_connections rdb)
      then Inl (DbError ''Failed to insert raw observation set: FOREIGN KEY constraint failed'')
      else Inr (rdb\<lparr>raw_observation_sets := raw_observation_sets rdb @
        [\<lparr>ros_id = set_id, ros_sync_run_id = rq_sync_run_id rq, ros_source_connection_id = rq_source_connection_id rq,
          ros_grouping_kind = MEMPOOL_PAGE_GROUPING, ros_grouping_metadata_json = metadata_json,
          ros_observed_at = env_to_rfc3339 env (rq_observed_at rq), ros_created_at = env_to_rfc3339 env (rq_observed_at rq)\<rparr>]\<rparr>))"

text \<open>
  A page cannot hold one version twice, nor two items at one index (\<open>UNIQUE\<close>); the run and the version exist (\<open>FOREIGN KEY\<close>).
\<close>

definition record_raw_mempool_tx_observation_tx ::
  "Env \<Rightarrow> ulid \<Rightarrow> RecordRawMempoolPageObservationRequest \<Rightarrow> ulid \<Rightarrow> ulid \<Rightarrow> int \<Rightarrow> RawDb \<Rightarrow> DbError + RawDb" where
  "record_raw_mempool_tx_observation_tx env new_id rq set_id version_id page_item_index rdb =
     (if page_item_index < 0 then Inl (DbError ''page item index cannot be negative'')
      else if new_id \<in> rmo_id ` set (raw_mempool_observations rdb) \<or>
              list_ex (\<lambda>r. rmo_raw_observation_set_id r = set_id \<and>
                (rmo_page_item_index r = page_item_index \<or>
                 (rmo_raw_version_id r = version_id \<and> rmo_sync_run_id r = rq_sync_run_id rq \<and>
                  rmo_source_connection_id r = rq_source_connection_id rq))) (raw_mempool_observations rdb)
      then Inl (DbError ''Failed to insert raw mempool transaction observation: UNIQUE constraint failed'')
      else if version_id \<notin> rv_id ` set (raw_mempool_versions rdb)
      then Inl (DbError ''Failed to insert raw mempool transaction observation: FOREIGN KEY constraint failed'')
      else Inr (rdb\<lparr>raw_mempool_observations := raw_mempool_observations rdb @
        [\<lparr>rmo_id = new_id, rmo_sync_run_id = rq_sync_run_id rq, rmo_source_connection_id = rq_source_connection_id rq,
          rmo_raw_observation_set_id = set_id, rmo_raw_version_id = version_id, rmo_page_item_index = page_item_index,
          rmo_observed_at = env_to_rfc3339 env (rq_observed_at rq), rmo_created_at = env_to_rfc3339 env (rq_observed_at rq)\<rparr>]\<rparr>))"

definition record_page_item ::
  "Env \<Rightarrow> (nat \<Rightarrow> ulid) \<Rightarrow> RecordRawMempoolPageObservationRequest \<Rightarrow> ulid \<Rightarrow> RawDb \<Rightarrow> nat \<times> ulid \<Rightarrow> DbError + RawDb" where
  "record_page_item env obs_ids rq set_id rdb item =
     (case item of (i, version_id) \<Rightarrow>
        res_bind (ok_or (DbError ''mempool page item index out of range'') (i64_try_from (int i))) (\<lambda>page_item_index.
        record_raw_mempool_tx_observation_tx env (obs_ids i) rq set_id version_id page_item_index rdb))"

definition record_raw_mempool_page_observation ::
  "Env \<Rightarrow> RawCodec \<Rightarrow> ulid \<Rightarrow> (nat \<Rightarrow> ulid) \<Rightarrow> RecordRawMempoolPageObservationRequest \<Rightarrow> RawDb \<Rightarrow> DbError + RawDb" where
  "record_raw_mempool_page_observation env c set_id obs_ids rq rdb =
     res_bind (map_err (\<lambda>err. DbError (''Failed to serialize mempool page metadata: '' @ err)) (rc_page_metadata_json c (rq_metadata rq))) (\<lambda>raw.
     res_bind (raw_observation_metadata_parse c raw) (\<lambda>metadata_json.
     res_bind (insert_raw_observation_set_tx env set_id rq metadata_json rdb) (\<lambda>rdb'.
     res_fold (record_page_item env obs_ids rq set_id) rdb' (List.enumerate 0 (rq_raw_version_ids rq)))))"

subsection \<open>Failed parses\<close>

definition MEMPOOL_PARSER_VERSION :: string where
  "MEMPOOL_PARSER_VERSION = ''mempool_transaction_to_sync_record:v1''"

definition mempool_object_key_json :: "RawCodec \<Rightarrow> TxHash \<Rightarrow> DbError + string" where
  "mempool_object_key_json c txid =
     res_bind (non_empty_text ''raw object key json cannot be empty'' (''{'' @ [CHR 0x22] @ ''txid'' @ [CHR 0x22] @ '':'' @
         [CHR 0x22] @ txid @ [CHR 0x22] @ ''}'')) (\<lambda>trimmed.
     res_bind (map_err (\<lambda>err. DbError (''raw object key json must be valid JSON: '' @ err)) (rc_json_is_object c trimmed)) (\<lambda>obj.
     if obj then Inr trimmed else Inl (DbError ''raw object key json must be a JSON object'')))"

definition record_raw_mempool_parse_failure ::
  "Env \<Rightarrow> RawCodec \<Rightarrow> ulid \<Rightarrow> TxHash \<Rightarrow> ulid \<Rightarrow> string \<Rightarrow> time \<Rightarrow> RawDb \<Rightarrow> DbError + RawDb" where
  "record_raw_mempool_parse_failure env c run_id txid version_id error_message attempted_at rdb =
     res_bind (mempool_object_key_json c txid) (\<lambda>key_json.
       if run_id \<notin> sr_id ` set (sync_runs rdb)
       then Inl (DbError ''Failed to insert raw parse attempt: FOREIGN KEY constraint failed'')
       else Inr (rdb\<lparr>raw_parse_attempts := raw_parse_attempts rdb @
         [\<lparr>rpa_sync_run_id = run_id, rpa_integration = integration_kind_as_db_value IkMempool,
           rpa_raw_object_kind = ''mempool_transaction'', rpa_raw_object_key_json = key_json, rpa_raw_version_id = version_id,
           rpa_parser_kind = ''mempool_transaction_to_sync_record'', rpa_parser_version = MEMPOOL_PARSER_VERSION,
           rpa_status = ''failure'', rpa_error_message = Some error_message,
           rpa_attempted_at = env_to_rfc3339 env attempted_at\<rparr>]\<rparr>))"

subsection \<open>Ingesting a page\<close>

record MempoolPageIngestionRequest =
  pi_raw_sync_run_id :: ulid
  pi_source_connection_id :: string
  pi_scope_address_id :: ulid
  pi_page_kind :: MempoolPageKind
  pi_page_cursor :: "string option"
  pi_scan_start_run_id :: "ulid option"
  pi_network :: Network
  pi_observed_at :: time

record MempoolPageIngestionSummary =
  is_items_seen :: u32
  is_versions_inserted :: u32
  is_versions_reused :: u32
  is_parse_success_count :: u32
  is_parse_failure_count :: u32

record IngestedMempoolPage =
  ip_transactions :: "MempoolAddressTransaction list"
  ip_summary :: MempoolPageIngestionSummary

text \<open>The identifiers that an ingestion generates: two for each item, one for the page, one for each observation.\<close>

record FreshIds =
  fi_candidate :: "nat \<Rightarrow> ulid"
  fi_version :: "nat \<Rightarrow> ulid"
  fi_set :: ulid
  fi_observation :: "nat \<Rightarrow> ulid"

record IngestProgress =
  ig_transactions :: "MempoolAddressTransaction list"
  ig_raw_version_ids :: "ulid list"
  ig_summary :: MempoolPageIngestionSummary

definition http_status_code_try_new :: "16 word \<Rightarrow> DbError + 16 word" where
  "http_status_code_try_new value =
     (if \<not> (100 \<le> value \<and> value \<le> 599)
      then Inl (DbError (''HTTP status code must be between 100 and 599, got '' @ nat_to_string (unat value)))
      else Inr value)"

definition parse_persisted_raw_mempool_transaction ::
  "RawCodec \<Rightarrow> ulid \<Rightarrow> TxHash \<Rightarrow> u8 list \<Rightarrow> string + MempoolAddressTransaction" where
  "parse_persisted_raw_mempool_transaction c version_id expected payload =
     res_bind (map_err (\<lambda>err. ''raw mempool transaction version '' @ version_id @ '' failed JSON deserialization: '' @ err)
       (rc_parse_payload c payload)) (\<lambda>transaction.
     res_bind (map_err (\<lambda>err. ''raw mempool transaction version '' @ version_id @ '' has invalid txid: '' @ tx_hash_error_display err)
       (tx_hash_parse (mt_txid transaction))) (\<lambda>parsed.
     if parsed \<noteq> expected
     then Inl (''raw mempool transaction version '' @ version_id @ '' txid mismatch: stored '' @ expected @ '', parsed '' @ parsed)
     else Inr transaction))"

definition count_version :: "RawVersionWriteOutcome \<Rightarrow> MempoolPageIngestionSummary \<Rightarrow> MempoolPageIngestionSummary" where
  "count_version outcome s =
     (case outcome of
        InsertedNewHead \<Rightarrow> s\<lparr>is_versions_inserted := saturating_add_u (is_versions_inserted s) 1,
                              is_parse_success_count := saturating_add_u (is_parse_success_count s) 1\<rparr>
      | ReusedCurrentHead \<Rightarrow> s\<lparr>is_versions_reused := saturating_add_u (is_versions_reused s) 1,
                                is_parse_success_count := saturating_add_u (is_parse_success_count s) 1\<rparr>)"

definition item_parse_error :: "nat \<Rightarrow> string \<Rightarrow> string" where
  "item_parse_error i message = ''mempool page item '' @ nat_to_string i @ '' failed parse: '' @ message"

definition record_item_parse_failure ::
  "Env \<Rightarrow> RawCodec \<Rightarrow> FreshIds \<Rightarrow> MempoolPageIngestionRequest \<Rightarrow> nat \<Rightarrow> TxHash \<Rightarrow> string \<Rightarrow> RawDb \<Rightarrow> DbError + RawDb" where
  "record_item_parse_failure env c ids rq i txid parse_error rdb =
     res_bind (non_empty_text ''parse failure message cannot be empty'' parse_error) (\<lambda>text.
       record_raw_mempool_parse_failure env c (pi_raw_sync_run_id rq) txid (fi_candidate ids i) text (pi_observed_at rq) rdb)"

fun ingest_items ::
  "Env \<Rightarrow> RawCodec \<Rightarrow> FreshIds \<Rightarrow> MempoolPageIngestionRequest \<Rightarrow> nat \<Rightarrow> MempoolPageTransaction list \<Rightarrow> IngestProgress \<Rightarrow> RawDb \<Rightarrow>
     (UserTransactionMonitorError + IngestProgress) \<times> RawDb" where
  "ingest_items env c ids rq i [] p rdb = (Inr p, rdb)"
| "ingest_items env c ids rq i (raw # raws) p rdb =
     (case exact_payload_try_new (pt_payload_bytes raw) of
        Inl err \<Rightarrow> (Inl (Db err), rdb)
      | Inr payload \<Rightarrow>
          (case parse_persisted_raw_mempool_transaction c (fi_candidate ids i) (pt_txid raw) payload of
             Inr transaction \<Rightarrow>
               (case insert_raw_mempool_tx_version env (fi_version ids i)
                       \<lparr>iv_source_connection_id = pi_source_connection_id rq, iv_network = pi_network rq, iv_txid = pt_txid raw,
                        iv_payload_hash_sha256_hex = rc_sha256_hex c payload, iv_payload_bytes = payload,
                        iv_first_observed_at = pi_observed_at rq\<rparr> rdb of
                  Inl err \<Rightarrow> (Inl (Db err), rdb)
                | Inr (inserted, rdb') \<Rightarrow>
                    ingest_items env c ids rq (Suc i) raws
                      \<lparr>ig_transactions = ig_transactions p @ [transaction],
                       ig_raw_version_ids = ig_raw_version_ids p @ [ir_raw_version_id inserted],
                       ig_summary = count_version (ir_write_outcome inserted) (ig_summary p)\<rparr> rdb')
           | Inl message \<Rightarrow>
               (case record_item_parse_failure env c ids rq i (pt_txid raw) (item_parse_error i message) rdb of
                  Inl err \<Rightarrow> (Inl (Db err), rdb)
                | Inr rdb' \<Rightarrow> (Inl (Parse (item_parse_error i message)), rdb'))))"

definition last_confirmed_txid_in_page :: "MempoolAddressTransaction list \<Rightarrow> string option" where
  "last_confirmed_txid_in_page page = map_option mt_txid (List.find (\<lambda>tx. ms_confirmed (mt_status tx)) (rev page))"

definition page_items_seen :: "'a list \<Rightarrow> u32" where
  "page_items_seen page = (if length page < 2 ^ 32 then word_of_nat (length page) else - 1)"

definition ingest_mempool_page ::
  "Env \<Rightarrow> RawCodec \<Rightarrow> FreshIds \<Rightarrow> MempoolPageIngestionRequest \<Rightarrow> MempoolTransactionPage \<Rightarrow> RawDb \<Rightarrow>
     (UserTransactionMonitorError + IngestedMempoolPage) \<times> RawDb" where
  "ingest_mempool_page env c ids rq page rdb =
     (case res_bind (map_err (\<lambda>err. DbError (''Invalid request URL: '' @ err)) (rc_parse_url c (tp_request_url page)))
             (\<lambda>_. http_status_code_try_new (tp_http_status_code page)) of
        Inl err \<Rightarrow> (Inl (Db err), rdb)
      | Inr _ \<Rightarrow>
          (case ingest_items env c ids rq 0 (tp_transactions page)
                  \<lparr>ig_transactions = [], ig_raw_version_ids = [],
                   ig_summary = \<lparr>is_items_seen = page_items_seen (tp_transactions page), is_versions_inserted = 0,
                     is_versions_reused = 0, is_parse_success_count = 0, is_parse_failure_count = 0\<rparr>\<rparr> rdb of
             (Inl err, rdb') \<Rightarrow> (Inl err, rdb')
           | (Inr p, rdb') \<Rightarrow>
               (case record_raw_mempool_page_observation env c (fi_set ids) (fi_observation ids)
                       \<lparr>rq_sync_run_id = pi_raw_sync_run_id rq, rq_source_connection_id = pi_source_connection_id rq,
                        rq_metadata = \<lparr>md_address_id = pi_scope_address_id rq, md_scan_start_run_id = pi_scan_start_run_id rq,
                          md_page_kind = pi_page_kind rq, md_requested_cursor = pi_page_cursor rq,
                          md_returned_last_confirmed_cursor = last_confirmed_txid_in_page (ig_transactions p),
                          md_item_count = is_items_seen (ig_summary p)\<rparr>,
                        rq_raw_version_ids = ig_raw_version_ids p, rq_observed_at = pi_observed_at rq\<rparr> rdb' of
                  Inl err \<Rightarrow> (Inl (Db err), rdb')
                | Inr rdb'' \<Rightarrow> (Inr \<lparr>ip_transactions = ig_transactions p, ip_summary = ig_summary p\<rparr>, rdb''))))"

subsection \<open>Failed requests\<close>

text \<open>A body is kept up to a bound; the text of an error shows at most 8 KiB of it, and cutting inside a character panics.\<close>

definition REQUEST_ATTEMPT_RESPONSE_BODY_LIMIT_BYTES :: nat where
  "REQUEST_ATTEMPT_RESPONSE_BODY_LIMIT_BYTES = 64 * 1024"

definition captured_response_body_truncate :: "u8 list \<Rightarrow> nat \<Rightarrow> (u8 list \<times> bool) option" where
  "captured_response_body_truncate bytes max_bytes =
     (if bytes = [] then None else Some (take max_bytes bytes, max_bytes < length bytes))"

definition RESPONSE_SNIPPET_MAX_BYTES :: nat where
  "RESPONSE_SNIPPET_MAX_BYTES = 8 * 1024"

definition response_body_snippet :: "RawCodec \<Rightarrow> u8 list \<Rightarrow> string option" where
  "response_body_snippet c response_body =
     (let body = rc_from_utf8_lossy c response_body in
      if length body \<le> RESPONSE_SNIPPET_MAX_BYTES then Some body
      else map_option (\<lambda>snippet. snippet @ ''...'') (string_truncate body RESPONSE_SNIPPET_MAX_BYTES))"

definition mempool_error_display :: "RawCodec \<Rightarrow> MempoolError \<Rightarrow> string option" where
  "mempool_error_display c err =
     (case err of
        MempoolHttp url text \<Rightarrow> Some (''Mempool HTTP error: '' @ text)
      | MempoolUpstreamStatus url status headers body \<Rightarrow>
          map_option (\<lambda>snippet. ''Mempool returned status '' @ nat_to_string (unat status) @ '' for '' @ url @ '' (body: '' @ snippet @ '')'')
            (response_body_snippet c body)
      | MempoolRateLimited url retry_after headers body \<Rightarrow>
          Some (case retry_after of
                  Some nanos \<Rightarrow> ''Mempool rate limited (HTTP 429) for '' @ url @ '' (retry_after='' @
                    int_to_string (nanos div 1000000000) @ ''s)''
                | None \<Rightarrow> ''Mempool rate limited (HTTP 429) for '' @ url)
      | MempoolDeserialize url text status headers body \<Rightarrow>
          Some (''Failed to deserialize Mempool response from '' @ url @ '': '' @ text)
      | MempoolUrlJoin text \<Rightarrow> Some (''Mempool URL join error: '' @ text))"

definition monitor_error_from_mempool :: "RawCodec \<Rightarrow> MempoolError \<Rightarrow> UserTransactionMonitorError option" where
  "monitor_error_from_mempool c err =
     (case err of
        MempoolRateLimited url retry_after headers body \<Rightarrow>
          map_option (RateLimited ''mempool'' retry_after) (mempool_error_display c err)
      | MempoolUpstreamStatus url status headers body \<Rightarrow>
          map_option (UpstreamStatus url status) (response_body_snippet c body)
      | MempoolDeserialize url text status headers body \<Rightarrow> Some (Deserialize url text)
      | _ \<Rightarrow> map_option Http (mempool_error_display c err))"

record RequestAttemptHttpResponse =
  ar_http_status_code :: "16 word"
  ar_response_headers_json :: "string option"
  ar_response_body :: "(u8 list \<times> bool) option"

datatype RequestAttemptOutcome =
    AttemptHttpResponse RequestAttemptHttpResponse
  | AttemptTransportError string
  | AttemptDeserializeError RequestAttemptHttpResponse

definition response_headers_json_parse :: "RawCodec \<Rightarrow> string \<Rightarrow> DbError + string" where
  "response_headers_json_parse c raw =
     res_bind (non_empty_text ''response headers json cannot be empty'' raw) (\<lambda>trimmed.
     res_bind (map_err (\<lambda>err. DbError (''response headers json must be valid JSON: '' @ err)) (rc_json_is_object c trimmed)) (\<lambda>obj.
     if obj then Inr trimmed else Inl (DbError ''response headers json must be a JSON object'')))"

fun res_option_map :: "('a \<Rightarrow> 'e + 'b) \<Rightarrow> 'a option \<Rightarrow> 'e + 'b option" where
  "res_option_map f None = Inr None"
| "res_option_map f (Some x) = res_map Some (f x)"

definition attempt_response ::
  "RawCodec \<Rightarrow> 16 word \<Rightarrow> string option \<Rightarrow> u8 list option \<Rightarrow> DbError + RequestAttemptHttpResponse" where
  "attempt_response c status headers body =
     res_bind (http_status_code_try_new status) (\<lambda>code.
     res_bind (res_option_map (response_headers_json_parse c) headers) (\<lambda>headers_json.
     Inr \<lparr>ar_http_status_code = code, ar_response_headers_json = headers_json,
          ar_response_body = Option.bind body
            (\<lambda>bytes. captured_response_body_truncate bytes REQUEST_ATTEMPT_RESPONSE_BODY_LIMIT_BYTES)\<rparr>))"

definition request_attempt_outcome_for_mempool_error :: "RawCodec \<Rightarrow> MempoolError \<Rightarrow> DbError + RequestAttemptOutcome option" where
  "request_attempt_outcome_for_mempool_error c err =
     (case err of
        MempoolHttp url text \<Rightarrow>
          res_map (\<lambda>message. Some (AttemptTransportError message)) (non_empty_text ''transport error message cannot be empty'' text)
      | MempoolUpstreamStatus url status headers body \<Rightarrow>
          res_map (\<lambda>r. Some (AttemptHttpResponse r)) (attempt_response c status headers (Some body))
      | MempoolRateLimited url retry_after headers body \<Rightarrow>
          res_map (\<lambda>r. Some (AttemptHttpResponse r)) (attempt_response c 429 headers (Some body))
      | MempoolDeserialize url text status headers body \<Rightarrow>
          (case status of
             Some code \<Rightarrow> res_map (\<lambda>r. Some (AttemptDeserializeError r)) (attempt_response c code headers body)
           | None \<Rightarrow> Inr None)
      | MempoolUrlJoin text \<Rightarrow> Inr None)"

definition request_url_for_mempool_error :: "RawCodec \<Rightarrow> MempoolError \<Rightarrow> DbError + string option" where
  "request_url_for_mempool_error c err =
     (let parse = (\<lambda>url. res_map Some (map_err (\<lambda>e. DbError (''Invalid request URL: '' @ e)) (rc_parse_url c url))) in
      case err of
        MempoolHttp url text \<Rightarrow> parse url
      | MempoolUpstreamStatus url status headers body \<Rightarrow> parse url
      | MempoolRateLimited url retry_after headers body \<Rightarrow> parse url
      | MempoolDeserialize url text status headers body \<Rightarrow> parse url
      | MempoolUrlJoin text \<Rightarrow> Inr None)"

record MempoolRequestFailureRecord =
  rf_raw_sync_run_id :: ulid
  rf_scope_address_id :: ulid
  rf_page_kind :: MempoolPageKind
  rf_page_cursor :: "string option"
  rf_attempted_at :: time

definition attempt_row ::
  "Env \<Rightarrow> MempoolRequestFailureRecord \<Rightarrow> string \<Rightarrow> string option \<Rightarrow> RequestAttemptOutcome \<Rightarrow> RequestAttemptRow" where
  "attempt_row env rq url cursor outcome =
     (let base = \<lparr>rqa_sync_run_id = rf_raw_sync_run_id rq, rqa_integration = integration_kind_as_db_value IkMempool,
            rqa_request_kind = request_kind_as_db_value (raw_request_kind_for_page_kind (rf_page_kind rq)),
            rqa_request_url = url, rqa_scope_address_id = rf_scope_address_id rq, rqa_page_cursor = cursor,
            rqa_page_kind = Some (page_kind_as_db_value (rf_page_kind rq)),
            rqa_attempted_at = env_to_rfc3339 env (rf_attempted_at rq), rqa_outcome_kind = ''transport_error'',
            rqa_http_status_code = None, rqa_response_headers_json = None, rqa_response_body_truncated = None,
            rqa_response_body_was_truncated = False, rqa_transport_error_message = None\<rparr>;
          response = (\<lambda>kind r. base\<lparr>rqa_outcome_kind := kind, rqa_http_status_code := Some (uint (ar_http_status_code r)),
            rqa_response_headers_json := ar_response_headers_json r,
            rqa_response_body_truncated := map_option fst (ar_response_body r),
            rqa_response_body_was_truncated := (case ar_response_body r of None \<Rightarrow> False | Some (_, t) \<Rightarrow> t)\<rparr>)
      in case outcome of
           AttemptHttpResponse r \<Rightarrow> response ''http_response'' r
         | AttemptTransportError message \<Rightarrow> base\<lparr>rqa_transport_error_message := Some message\<rparr>
         | AttemptDeserializeError r \<Rightarrow> response ''deserialize_error'' r)"

definition is_success_category :: "16 word \<Rightarrow> bool" where
  "is_success_category code \<longleftrightarrow> 200 \<le> code \<and> code \<le> 299"

text \<open>A first page has no cursor and a later page has one (\<open>CHECK\<close>).\<close>

definition record_request_attempt :: "RequestAttemptOutcome \<Rightarrow> RequestAttemptRow \<Rightarrow> RawDb \<Rightarrow> DbError + RawDb" where
  "record_request_attempt outcome row rdb =
     (if (case outcome of AttemptHttpResponse r \<Rightarrow> is_success_category (ar_http_status_code r) | _ \<Rightarrow> False)
      then Inl (DbError ''request attempts only retain failure diagnostics; success-path HttpResponse not allowed'')
      else if (rqa_page_kind row = Some ''first_page'') \<noteq> (rqa_page_cursor row = None)
      then Inl (DbError ''Failed to insert request attempt: CHECK constraint failed'')
      else if rqa_sync_run_id row \<notin> sr_id ` set (sync_runs rdb)
      then Inl (DbError ''Failed to insert request attempt: FOREIGN KEY constraint failed'')
      else Inr (rdb\<lparr>request_attempts := request_attempts rdb @ [row]\<rparr>))"

definition record_mempool_request_failure ::
  "Env \<Rightarrow> RawCodec \<Rightarrow> MempoolRequestFailureRecord \<Rightarrow> MempoolError \<Rightarrow> RawDb \<Rightarrow> DbError + RawDb" where
  "record_mempool_request_failure env c rq err rdb =
     res_bind (request_url_for_mempool_error c err) (\<lambda>url.
       case url of
         None \<Rightarrow> Inr rdb
       | Some u \<Rightarrow>
           res_bind (request_attempt_outcome_for_mempool_error c err) (\<lambda>outcome.
             case outcome of
               None \<Rightarrow> Inr rdb
             | Some attempt \<Rightarrow>
                 res_bind (res_option_map (non_empty_text ''page cursor cannot be empty'') (rf_page_cursor rq)) (\<lambda>cursor.
                 record_request_attempt attempt (attempt_row env rq u cursor attempt) rdb)))"

subsection \<open>Keeping the history of runs bounded\<close>

record SyncRunRetentionCandidate =
  rc_sync_run_id :: ulid
  rc_source_connection_id :: string
  rc_status :: SyncRunStatus
  rc_age_anchor :: time

definition retention_candidate :: "Env \<Rightarrow> SyncRunRow \<Rightarrow> DbError + SyncRunRetentionCandidate" where
  "retention_candidate env r =
     res_bind (parse_sync_run_status (sr_status r)) (\<lambda>status.
     res_bind (map_err (\<lambda>err. DbError (''Failed to parse started_at for raw sync history cleanup candidate: '' @ err))
       (env_parse_datetime env (sr_started_at r))) (\<lambda>started.
     res_bind
       (case status of
          RunStarted \<Rightarrow> Inr started
        | _ \<Rightarrow>
            res_bind (ok_or (DbError ''Completed raw sync history cleanup candidate missing completed_at'') (sr_completed_at r)) (\<lambda>raw.
            map_err (\<lambda>err. DbError (''Failed to parse completed_at for raw sync history cleanup candidate: '' @ err))
              (env_parse_datetime env raw)))
       (\<lambda>anchor. Inr \<lparr>rc_sync_run_id = sr_id r, rc_source_connection_id = sr_source_connection_id r, rc_status = status,
                      rc_age_anchor = anchor\<rparr>)))"

definition load_sync_run_retention_candidates_tx :: "Env \<Rightarrow> RawDb \<Rightarrow> DbError + SyncRunRetentionCandidate list" where
  "load_sync_run_retention_candidates_tx env rdb = res_mapM (retention_candidate env) (sync_runs rdb)"

definition is_prunable :: "time \<Rightarrow> time \<Rightarrow> SyncRunRetentionCandidate \<Rightarrow> bool" where
  "is_prunable successful_cutoff failure_cutoff candidate =
     (case rc_status candidate of
        RunCompletedSuccess \<Rightarrow> rc_age_anchor candidate < successful_cutoff
      | _ \<Rightarrow> rc_age_anchor candidate < failure_cutoff)"

definition select_prunable_sync_run_ids :: "SyncRunRetentionCandidate list \<Rightarrow> time \<Rightarrow> time \<Rightarrow> ulid list" where
  "select_prunable_sync_run_ids candidates successful_cutoff failure_cutoff =
     map rc_sync_run_id (filter (is_prunable successful_cutoff failure_cutoff) candidates)"

definition count_prunable_rows :: "string \<Rightarrow> ulid list \<Rightarrow> ulid list \<Rightarrow> DbError + u32" where
  "count_prunable_rows context runs prunable =
     (let count = length (filter (\<lambda>i. i \<in> set prunable) runs) in
      if count < 2 ^ 32 then Inr (word_of_nat count) else Inl (DbError (context @ '': count out of range'')))"

record RawSyncHistoryCleanupStats =
  cl_deleted_sync_runs :: u32
  cl_deleted_request_attempts :: u32
  cl_deleted_raw_observation_sets :: u32
  cl_deleted_raw_parse_attempts :: u32
  cl_deleted_raw_mempool_transaction_observations :: u32
  cl_deleted_raw_etherscan_normal_transaction_observations :: u32
  cl_deleted_raw_etherscan_internal_transaction_observations :: u32

definition no_cleanup :: RawSyncHistoryCleanupStats where
  "no_cleanup =
     \<lparr>cl_deleted_sync_runs = 0, cl_deleted_request_attempts = 0, cl_deleted_raw_observation_sets = 0,
      cl_deleted_raw_parse_attempts = 0, cl_deleted_raw_mempool_transaction_observations = 0,
      cl_deleted_raw_etherscan_normal_transaction_observations = 0,
      cl_deleted_raw_etherscan_internal_transaction_observations = 0\<rparr>"

definition count_cleanup :: "RawDb \<Rightarrow> ulid list \<Rightarrow> DbError + RawSyncHistoryCleanupStats" where
  "count_cleanup rdb prunable =
     res_bind (count_prunable_rows ''Failed to count prunable request attempts'' (map rqa_sync_run_id (request_attempts rdb)) prunable) (\<lambda>attempts.
     res_bind (count_prunable_rows ''Failed to count prunable raw observation sets'' (map ros_sync_run_id (raw_observation_sets rdb)) prunable) (\<lambda>sets.
     res_bind (count_prunable_rows ''Failed to count prunable raw parse attempts'' (map rpa_sync_run_id (raw_parse_attempts rdb)) prunable) (\<lambda>parses.
     res_bind (count_prunable_rows ''Failed to count prunable raw mempool transaction observations''
       (map rmo_sync_run_id (raw_mempool_observations rdb)) prunable) (\<lambda>observations.
     res_bind (count_prunable_rows ''Failed to count prunable raw etherscan normal observations''
       (raw_etherscan_normal_observation_runs rdb) prunable) (\<lambda>normals.
     res_bind (count_prunable_rows ''Failed to count prunable raw etherscan internal observations''
       (raw_etherscan_internal_observation_runs rdb) prunable) (\<lambda>internals.
     Inr \<lparr>cl_deleted_sync_runs = page_items_seen prunable, cl_deleted_request_attempts = attempts,
          cl_deleted_raw_observation_sets = sets, cl_deleted_raw_parse_attempts = parses,
          cl_deleted_raw_mempool_transaction_observations = observations,
          cl_deleted_raw_etherscan_normal_transaction_observations = normals,
          cl_deleted_raw_etherscan_internal_transaction_observations = internals\<rparr>))))))"

text \<open>
  Deleting a run deletes what refers to it (\<open>ON DELETE CASCADE\<close>), and deleting a page the observations of the page.
\<close>

definition delete_sync_runs :: "ulid list \<Rightarrow> RawDb \<Rightarrow> RawDb" where
  "delete_sync_runs ids rdb =
     (let gone = map ros_id (filter (\<lambda>s. ros_sync_run_id s \<in> set ids) (raw_observation_sets rdb)) in
      rdb\<lparr>sync_runs := filter (\<lambda>r. sr_id r \<notin> set ids) (sync_runs rdb),
          request_attempts := filter (\<lambda>r. rqa_sync_run_id r \<notin> set ids) (request_attempts rdb),
          raw_observation_sets := filter (\<lambda>r. ros_sync_run_id r \<notin> set ids) (raw_observation_sets rdb),
          raw_parse_attempts := filter (\<lambda>r. rpa_sync_run_id r \<notin> set ids) (raw_parse_attempts rdb),
          raw_mempool_observations := filter (\<lambda>r. rmo_sync_run_id r \<notin> set ids \<and> rmo_raw_observation_set_id r \<notin> set gone)
            (raw_mempool_observations rdb),
          raw_etherscan_normal_observation_runs := filter (\<lambda>i. i \<notin> set ids) (raw_etherscan_normal_observation_runs rdb),
          raw_etherscan_internal_observation_runs := filter (\<lambda>i. i \<notin> set ids) (raw_etherscan_internal_observation_runs rdb)\<rparr>)"

definition nanos_per_hour :: time where
  "nanos_per_hour = 3600 * 1000000000"

definition cleanup_raw_sync_history :: "Env \<Rightarrow> time \<Rightarrow> 16 word \<Rightarrow> RawDb \<Rightarrow> DbError + RawSyncHistoryCleanupStats \<times> RawDb" where
  "cleanup_raw_sync_history env completed retention_days rdb =
     (let successful_cutoff = completed - uint retention_days * 24 * nanos_per_hour;
          failure_cutoff = completed - 24 * nanos_per_hour in
      res_bind (load_sync_run_retention_candidates_tx env rdb) (\<lambda>candidates.
        let prunable = select_prunable_sync_run_ids candidates successful_cutoff failure_cutoff in
        if prunable = [] then Inr (no_cleanup, rdb)
        else if \<not> distinct prunable
        then Inl (DbError ''Failed to stage raw sync history cleanup sync run: UNIQUE constraint failed'')
        else res_map (\<lambda>stats. (stats, delete_sync_runs prunable rdb)) (count_cleanup rdb prunable)))"

subsection \<open>The repair of heads written by an old version\<close>

record LegacyMempoolHeadRepairCandidate =
  lc_source_connection_id :: string
  lc_network :: Network
  lc_txid :: TxHash
  lc_payload_bytes :: "u8 list"
  lc_observed_at :: time
  lc_current_head_raw_version_id :: ulid

text \<open>
  The rows of the join of the observations with their version and the head of the same transaction, and the latest of them
  for each connection and transaction: the first in the descending order of the times as text and the identifier.
\<close>

definition observed_with_heads :: "RawDb \<Rightarrow> (RawMempoolObservationRow \<times> RawMempoolVersionRow \<times> RawMempoolVersionRow) list" where
  "observed_with_heads rdb =
     filter (\<lambda>(q, v, h). rv_id v = rmo_raw_version_id q \<and> is_head rdb h \<and>
         rv_source_connection_id h = rmo_source_connection_id q \<and> rv_txid h = rv_txid v)
       (List.product (raw_mempool_observations rdb) (List.product (raw_mempool_versions rdb) (raw_mempool_versions rdb)))"

definition later_observation :: "RawMempoolObservationRow \<Rightarrow> RawMempoolObservationRow \<Rightarrow> bool" where
  "later_observation p q \<longleftrightarrow>
     (rmo_observed_at q, rmo_created_at q, rmo_id q) < (rmo_observed_at p, rmo_created_at p, rmo_id p)"

definition is_latest_observed ::
  "RawDb \<Rightarrow> RawMempoolObservationRow \<times> RawMempoolVersionRow \<times> RawMempoolVersionRow \<Rightarrow> bool" where
  "is_latest_observed rdb row =
     (case row of (q, v, h) \<Rightarrow>
        \<not> list_ex (\<lambda>(q', v', h'). rmo_source_connection_id q' = rmo_source_connection_id q \<and> rv_txid v' = rv_txid v \<and>
             later_observation q' q) (observed_with_heads rdb))"

definition repair_candidate ::
  "Env \<Rightarrow> RawMempoolObservationRow \<times> RawMempoolVersionRow \<times> RawMempoolVersionRow \<Rightarrow>
     DbError + LegacyMempoolHeadRepairCandidate" where
  "repair_candidate env row =
     (case row of (q, v, h) \<Rightarrow>
        res_bind (source_connection_id_parse (rmo_source_connection_id q)) (\<lambda>source.
        res_bind (parse_network (rv_network v)) (\<lambda>network.
        res_bind (map_err (\<lambda>err. DbError (''Invalid txid in DB: '' @ tx_hash_error_display err)) (tx_hash_parse (rv_txid v))) (\<lambda>txid.
        res_bind (exact_payload_try_new (rv_payload_bytes v)) (\<lambda>payload.
        res_bind (map_err (\<lambda>err. DbError (''Failed to parse observed_at for legacy mempool head repair candidate: '' @ err))
          (env_parse_datetime env (rmo_observed_at q))) (\<lambda>obs.
        res_bind (map_err (\<lambda>err. DbError (''Invalid current head raw version id in DB during mempool repair: '' @ err))
          (env_parse_ulid env (rv_id h))) (\<lambda>head.
        Inr \<lparr>lc_source_connection_id = source, lc_network = network, lc_txid = txid, lc_payload_bytes = payload,
             lc_observed_at = obs, lc_current_head_raw_version_id = head\<rparr>)))))))"

definition load_legacy_mempool_head_repair_candidates_tx :: "Env \<Rightarrow> RawDb \<Rightarrow> DbError + LegacyMempoolHeadRepairCandidate list" where
  "load_legacy_mempool_head_repair_candidates_tx env rdb =
     res_mapM (repair_candidate env)
       (filter (\<lambda>row. is_latest_observed rdb row \<and> (case row of (q, v, h) \<Rightarrow> rv_payload_bytes v \<noteq> rv_payload_bytes h))
         (observed_with_heads rdb))"

definition repair_head :: "Env \<Rightarrow> RawCodec \<Rightarrow> (nat \<Rightarrow> ulid) \<Rightarrow> RawDb \<Rightarrow> nat \<times> LegacyMempoolHeadRepairCandidate \<Rightarrow> DbError + RawDb" where
  "repair_head env c ids rdb item =
     (case item of (i, lc) \<Rightarrow>
        put_version ''Failed to insert repaired legacy mempool head version''
          \<lparr>rv_id = ids i, rv_source_connection_id = lc_source_connection_id lc, rv_network = network_as_str (lc_network lc),
           rv_txid = lc_txid lc, rv_payload_hash_sha256_hex = rc_sha256_hex c (lc_payload_bytes lc),
           rv_payload_bytes = lc_payload_bytes lc, rv_first_observed_at = env_to_rfc3339 env (lc_observed_at lc),
           rv_supersedes_raw_version_id = Some (lc_current_head_raw_version_id lc),
           rv_created_at = env_to_rfc3339 env (lc_observed_at lc)\<rparr> rdb)"

definition repair_legacy_mempool_head_rebuild_contract ::
  "Env \<Rightarrow> RawCodec \<Rightarrow> (nat \<Rightarrow> ulid) \<Rightarrow> RawDb \<Rightarrow> DbError + u32 \<times> RawDb" where
  "repair_legacy_mempool_head_rebuild_contract env c ids rdb =
     res_bind (load_legacy_mempool_head_repair_candidates_tx env rdb) (\<lambda>candidates.
     res_bind (res_fold (repair_head env c ids) rdb (List.enumerate 0 candidates)) (\<lambda>rdb'.
     if length candidates < 2 ^ 32 then Inr (word_of_nat (length candidates), rdb')
     else Inl (DbError ''legacy mempool head repair count out of range'')))"

subsection \<open>Facts\<close>

text \<open>
  Turning an error of the provider into an error of the sync panics in exactly one situation: the provider answered with a
  failure status, and the text of its body is longer than 8 KiB and its byte 8192 continues a multi-byte character.
\<close>

theorem provider_error_panics_iff:
  "monitor_error_from_mempool c err = None \<longleftrightarrow>
     (\<exists>url status headers body. err = MempoolUpstreamStatus url status headers body \<and>
        8192 < length (rc_from_utf8_lossy c body) \<and>
        128 \<le> (of_char (rc_from_utf8_lossy c body ! 8192) :: nat) \<and>
        (of_char (rc_from_utf8_lossy c body ! 8192) :: nat) < 192)"
  by (cases err)
    (auto simp: monitor_error_from_mempool_def mempool_error_display_def response_body_snippet_def string_truncate_def
       is_char_boundary_def RESPONSE_SNIPPET_MAX_BYTES_def Let_def)

end
