(* ===== verification/Mempool_Map.thy ===== *)
theory Mempool_Map
  imports Raw_Ingestion Reconcile_Spec
begin

section \<open>From the provider's transactions to records\<close>

text \<open>
  \<open>src/src/tasks/jobs/sync/integrations/mempool/mapper.rs\<close>: a transaction of the Mempool API becomes the record that is
  stored. Inputs without a previous output (coinbase) are left out and keep their place in the numbering. The conversion of
  Unix seconds to a time is a call into \<open>chrono\<close> and the argument \<open>timestamp\<close>.
\<close>

definition map_status :: "MempoolTransactionStatus \<Rightarrow> ChainTransactionStatus" where
  "map_status raw = (if ms_confirmed raw then Confirmed else Pending)"

definition address_error_display :: "AddressError \<Rightarrow> string" where
  "address_error_display err = (case err of AddressEmpty \<Rightarrow> ''address cannot be empty'')"

definition parse_optional_address :: "string option \<Rightarrow> UserTransactionMonitorError + TrackedAddress option" where
  "parse_optional_address raw_address =
     (case raw_address of
        None \<Rightarrow> Inr None
      | Some value \<Rightarrow>
          if str_trim value = [] then Inr None
          else res_map Some (map_err (\<lambda>err. Parse (''address parse error: '' @ address_error_display err)) (tracked_address_parse value)))"

definition parse_block_time :: "(int \<Rightarrow> time option) \<Rightarrow> int option \<Rightarrow> UserTransactionMonitorError + time option" where
  "parse_block_time timestamp raw_block_time =
     res_option_map (\<lambda>seconds. ok_or (Parse (''invalid block timestamp: '' @ int_to_string seconds)) (timestamp seconds)) raw_block_time"

definition parse_non_negative_i64 :: "string \<Rightarrow> int \<Rightarrow> UserTransactionMonitorError + int" where
  "parse_non_negative_i64 field value =
     (if value < 0 then Inl (Parse (field @ '' cannot be negative: '' @ int_to_string value)) else Inr value)"

definition index_of_position :: "string \<Rightarrow> nat \<Rightarrow> UserTransactionMonitorError + int" where
  "index_of_position what pos =
     ok_or (Parse (what @ '' index out of range: out of range integral type conversion attempted'')) (i64_try_from (int pos))"

definition map_input :: "nat \<Rightarrow> MempoolInput \<Rightarrow> UserTransactionMonitorError + SyncTransactionInputRecord option" where
  "map_input pos vin =
     (case (mi_txid vin, mi_vout vin) of
        (Some prev_txid_raw, Some prev_output_index) \<Rightarrow>
          res_bind (index_of_position ''input'' pos) (\<lambda>input_index.
          res_bind (map_err (\<lambda>err. Parse (''prev tx hash parse error: '' @ tx_hash_error_display err)) (tx_hash_parse prev_txid_raw)) (\<lambda>prev_tx_hash.
          res_bind (parse_non_negative_i64 ''prev_output_index'' prev_output_index) (\<lambda>prev_index.
          res_bind (res_option_map (\<lambda>prevout. parse_non_negative_i64 ''input value'' (mp_value prevout)) (mi_prevout vin)) (\<lambda>value_amount.
          res_bind (parse_optional_address (Option.bind (mi_prevout vin) mp_scriptpubkey_address)) (\<lambda>prev_address.
          Inr (Some \<lparr>si_input_index = input_index, si_prev_tx_hash = prev_tx_hash, si_prev_output_index = prev_index,
                    si_prev_address = prev_address, si_value_amount = value_amount\<rparr>))))))
      | _ \<Rightarrow> Inr None)"

definition map_inputs :: "MempoolInput list \<Rightarrow> UserTransactionMonitorError + SyncTransactionInputRecord list" where
  "map_inputs vins =
     res_fold (\<lambda>inputs (pos, vin). res_map (\<lambda>i. inputs @ (case i of None \<Rightarrow> [] | Some r \<Rightarrow> [r])) (map_input pos vin)) []
       (List.enumerate 0 vins)"

definition map_output :: "nat \<Rightarrow> MempoolOutput \<Rightarrow> UserTransactionMonitorError + SyncTransactionOutputRecord" where
  "map_output pos vout =
     (if str_trim (mv_scriptpubkey vout) = [] then Inl (Parse ''output script_pubkey cannot be empty'')
      else
        res_bind (index_of_position ''output'' pos) (\<lambda>output_index.
        res_bind (parse_non_negative_i64 ''output value'' (mv_value vout)) (\<lambda>value_amount.
        res_bind (parse_optional_address (mv_scriptpubkey_address vout)) (\<lambda>raw_address.
        Inr \<lparr>so_output_index = output_index, so_raw_address = raw_address, so_script_pubkey_hex = mv_scriptpubkey vout,
             so_value_amount = value_amount\<rparr>))))"

definition map_outputs :: "MempoolOutput list \<Rightarrow> UserTransactionMonitorError + SyncTransactionOutputRecord list" where
  "map_outputs vouts =
     res_fold (\<lambda>outputs (pos, vout). res_map (\<lambda>r. outputs @ [r]) (map_output pos vout)) [] (List.enumerate 0 vouts)"

definition map_mempool_transaction ::
  "(int \<Rightarrow> time option) \<Rightarrow> MempoolAddressTransaction \<Rightarrow> UserTransactionMonitorError + SyncTransactionRecord" where
  "map_mempool_transaction timestamp raw =
     res_bind (map_err (\<lambda>err. Parse (''tx hash parse error: '' @ tx_hash_error_display err)) (tx_hash_parse (mt_txid raw))) (\<lambda>tx_hash.
     res_bind (parse_block_time timestamp (ms_block_time (mt_status raw))) (\<lambda>block_time.
     res_bind (res_option_map (parse_non_negative_i64 ''fee'') (mt_fee raw)) (\<lambda>fee_amount.
     res_bind (map_inputs (mt_vin raw)) (\<lambda>ins.
     res_bind (map_outputs (mt_vout raw)) (\<lambda>outs.
     Inr \<lparr>st_tx_hash = tx_hash, st_status = map_status (mt_status raw), st_block_height = ms_block_height (mt_status raw),
          st_block_hash = ms_block_hash (mt_status raw), st_block_time = block_time, st_fee_amount = fee_amount,
          st_inputs = ins, st_outputs = outs\<rparr>)))))"

definition map_mempool_transactions ::
  "(int \<Rightarrow> time option) \<Rightarrow> MempoolAddressTransaction list \<Rightarrow> UserTransactionMonitorError + SyncTransactionRecord list" where
  "map_mempool_transactions timestamp raws =
     res_fold (\<lambda>mapped raw. res_map (\<lambda>r. mapped @ [r]) (map_mempool_transaction timestamp raw)) [] raws"

text \<open>\<open>paginator.rs\<close>.\<close>

definition confirmed_mempool_tx_count_in_page :: "MempoolAddressTransaction list \<Rightarrow> nat" where
  "confirmed_mempool_tx_count_in_page page = length (filter (\<lambda>tx. ms_confirmed (mt_status tx)) page)"

subsection \<open>What the records hold\<close>

text \<open>A loop that appends what it makes of each element.\<close>

lemma res_fold_collect:
  "res_fold (\<lambda>acc x. res_map (\<lambda>y. acc @ g y) (f x)) acc xs = res_map (\<lambda>ys. acc @ concat (map g ys)) (res_mapM f xs)"
proof (induction xs arbitrary: acc)
  case (Cons x xs)
  show ?case by (cases "f x"; cases "res_mapM f xs") (simp_all add: Cons.IH)
qed simp

lemma map_inputs_collect:
  "map_inputs vins = res_map (concat \<circ> map (\<lambda>i. case i of None \<Rightarrow> [] | Some r \<Rightarrow> [r])) (res_mapM (case_prod map_input) (List.enumerate 0 vins))"
  using res_fold_collect [of "\<lambda>i. case i of None \<Rightarrow> [] | Some r \<Rightarrow> [r]" "case_prod map_input" "[]" "List.enumerate 0 vins"]
  by (simp add: map_inputs_def case_prod_unfold comp_def)

lemma map_outputs_collect: "map_outputs vouts = res_mapM (case_prod map_output) (List.enumerate 0 vouts)"
  using res_fold_collect [of "\<lambda>r. [r]" "case_prod map_output" "[]" "List.enumerate 0 vouts"]
  by (cases "res_mapM (case_prod map_output) (List.enumerate 0 vouts)") (simp_all add: map_outputs_def case_prod_unfold)

lemma map_mempool_transactions_collect: "map_mempool_transactions timestamp raws = res_mapM (map_mempool_transaction timestamp) raws"
  using res_fold_collect [of "\<lambda>r. [r]" "map_mempool_transaction timestamp" "[]" raws]
  by (cases "res_mapM (map_mempool_transaction timestamp) raws") (simp_all add: map_mempool_transactions_def)

lemma index_of_position_Inr: "index_of_position what pos = Inr i \<Longrightarrow> i = int pos"
  by (simp add: index_of_position_def)

lemma res_option_map_Inr [simp]:
  "res_option_map f v = Inr w \<longleftrightarrow> (case v of None \<Rightarrow> w = None | Some x \<Rightarrow> \<exists>y. f x = Inr y \<and> w = Some y)"
  by (cases v) auto

lemma parse_non_negative_Inr [simp]: "parse_non_negative_i64 field value = Inr v \<longleftrightarrow> 0 \<le> value \<and> v = value"
  by (auto simp: parse_non_negative_i64_def)

lemma map_output_Inr:
  "map_output pos vout = Inr r \<Longrightarrow> so_output_index r = int pos \<and> so_value_amount r = mv_value vout \<and> 0 \<le> mv_value vout \<and>
     so_script_pubkey_hex r = mv_scriptpubkey vout"
  by (auto simp: map_output_def index_of_position_def split: if_splits)

definition has_previous_output :: "MempoolInput \<Rightarrow> bool" where
  "has_previous_output vin \<longleftrightarrow> mi_txid vin \<noteq> None \<and> mi_vout vin \<noteq> None"

lemma map_input_Inr:
  assumes "map_input pos vin = Inr r"
  shows "case r of None \<Rightarrow> \<not> has_previous_output vin
    | Some i \<Rightarrow> has_previous_output vin \<and> si_input_index i = int pos \<and> mi_vout vin = Some (si_prev_output_index i) \<and>
        0 \<le> si_prev_output_index i \<and> si_value_amount i = map_option mp_value (mi_prevout vin)"
  using assms
  by (auto simp: map_input_def has_previous_output_def index_of_position_def split: option.splits)

text \<open>Element by element, with the index of the place.\<close>

lemma mapped_outputs:
  assumes "map_outputs vouts = Inr outs"
  shows "length outs = length vouts \<and> (\<forall>i < length vouts. map_output i (vouts ! i) = Inr (outs ! i))"
  using assms by (auto simp: map_outputs_collect res_mapM_Inr_iff list_all2_conv_all_nth nth_enumerate_eq)

lemma map_mapped_outputs:
  assumes "map_outputs vouts = Inr outs" and "\<And>i r. map_output i (vouts ! i) = Inr r \<Longrightarrow> f r = g i"
  shows "map f outs = map g [0..<length vouts]"
  using mapped_outputs [OF assms(1)] assms(2) by (intro nth_equalityI) simp_all

definition previous_output_indexes :: "nat \<Rightarrow> MempoolInput list \<Rightarrow> nat list" where
  "previous_output_indexes n vins = map fst (filter (has_previous_output \<circ> snd) (List.enumerate n vins))"

lemma mapped_inputs_from:
  assumes "res_mapM (case_prod map_input) (List.enumerate n vins) = Inr rs"
  shows "map si_input_index (concat (map (\<lambda>i. case i of None \<Rightarrow> [] | Some r \<Rightarrow> [r]) rs)) = map int (previous_output_indexes n vins)"
  using assms
proof (induction vins arbitrary: n rs)
  case (Cons vin vins)
  then obtain r rs' where r: "map_input n vin = Inr r" "res_mapM (case_prod map_input) (List.enumerate (Suc n) vins) = Inr rs'"
      "rs = r # rs'" by auto
  show ?case
    using map_input_Inr [OF r(1)] Cons.IH [OF r(2)] r(3)
    by (cases r) (simp_all add: previous_output_indexes_def)
qed (simp add: previous_output_indexes_def)

lemma sorted_previous_output_indexes: "sorted_wrt (<) (previous_output_indexes n vins)"
proof -
  have "sorted_wrt (<) (map fst (List.enumerate n vins))" by (simp add: enumerate_eq_zip)
  then show ?thesis unfolding previous_output_indexes_def sorted_wrt_map by (rule sorted_wrt_filter)
qed

lemma previous_output_indexes_upt:
  "previous_output_indexes 0 vins = filter (\<lambda>i. has_previous_output (vins ! i)) [0..<length vins]"
proof -
  have "List.enumerate 0 vins = map (\<lambda>i. (i, vins ! i)) [0..<length vins]"
    by (rule nth_equalityI) (simp_all add: nth_enumerate_eq)
  then show ?thesis by (simp add: previous_output_indexes_def filter_map comp_def)
qed

text \<open>
  A transaction of the provider that is accepted is recorded as it is: its canonical hash and status; each output under
  the index of its place with its value, which is not negative; the inputs that spend a previous output, each under the index
  of its place. So the record's inputs and outputs have distinct keys, as storing it requires.
\<close>

theorem mapped_transaction_exact:
  assumes mapped: "map_mempool_transaction timestamp raw = Inr rc"
  shows "tx_hash_parse (mt_txid raw) = Inr (st_tx_hash rc) \<and> tx_hash_parse (st_tx_hash rc) = Inr (st_tx_hash rc) \<and>
    (st_status rc = Confirmed) = ms_confirmed (mt_status raw) \<and> st_status rc \<in> {Confirmed, Pending} \<and>
    map so_output_index (st_outputs rc) = map int [0..<length (mt_vout raw)] \<and>
    map so_value_amount (st_outputs rc) = map mv_value (mt_vout raw) \<and> list_all (\<lambda>out. 0 \<le> so_value_amount out) (st_outputs rc) \<and>
    map si_input_index (st_inputs rc) = map int (filter (\<lambda>i. has_previous_output (mt_vin raw ! i)) [0..<length (mt_vin raw)]) \<and>
    record_well_formed rc"
proof -
  have hash: "tx_hash_parse (mt_txid raw) = Inr (st_tx_hash rc)" and ins: "map_inputs (mt_vin raw) = Inr (st_inputs rc)"
    and outs: "map_outputs (mt_vout raw) = Inr (st_outputs rc)" and status: "st_status rc = map_status (mt_status raw)"
    using mapped by (auto simp: map_mempool_transaction_def)
  have out_index: "map so_output_index (st_outputs rc) = map int [0..<length (mt_vout raw)]"
    by (rule map_mapped_outputs [OF outs]) (simp add: map_output_Inr)
  have out_value: "map so_value_amount (st_outputs rc) = map (\<lambda>i. mv_value (mt_vout raw ! i)) [0..<length (mt_vout raw)]"
    by (rule map_mapped_outputs [OF outs]) (simp add: map_output_Inr)
  also have "\<dots> = map mv_value (mt_vout raw)" by (rule nth_equalityI) simp_all
  finally have out_value: "map so_value_amount (st_outputs rc) = map mv_value (mt_vout raw)" .
  have out_nonneg: "list_all (\<lambda>out. 0 \<le> so_value_amount out) (st_outputs rc)"
    using mapped_outputs [OF outs] map_output_Inr by (fastforce simp: list_all_length)
  obtain rs where rs: "res_mapM (case_prod map_input) (List.enumerate 0 (mt_vin raw)) = Inr rs"
      "st_inputs rc = concat (map (\<lambda>i. case i of None \<Rightarrow> [] | Some r \<Rightarrow> [r]) rs)"
    using ins by (auto simp: map_inputs_collect)
  have in_index: "map si_input_index (st_inputs rc) = map int (previous_output_indexes 0 (mt_vin raw))"
    unfolding rs(2) by (rule mapped_inputs_from [OF rs(1)])
  have "distinct (previous_output_indexes 0 (mt_vin raw))" using sorted_previous_output_indexes strict_sorted_iff by blast
  then have "record_well_formed rc" by (simp add: record_well_formed_def in_index out_index distinct_map)
  moreover have "tx_hash_parse (st_tx_hash rc) = Inr (st_tx_hash rc)" using tx_hash_parse_canonical [OF hash] by blast
  ultimately show ?thesis
    using hash status out_index out_value out_nonneg in_index by (simp add: map_status_def previous_output_indexes_upt)
qed

text \<open>A coinbase transaction with one output: no input is recorded.\<close>

definition sample_raw_tx :: MempoolAddressTransaction where
  "sample_raw_tx =
     \<lparr>mt_txid = replicate 64 (CHR ''a''), mt_vin = [\<lparr>mi_txid = None, mi_vout = None, mi_prevout = None\<rparr>],
      mt_vout = [\<lparr>mv_scriptpubkey = ''ab'', mv_scriptpubkey_address = None, mv_value = 5\<rparr>], mt_fee = Some 0,
      mt_status = \<lparr>ms_confirmed = True, ms_block_height = Some 7, ms_block_hash = None, ms_block_time = None\<rparr>\<rparr>"

theorem mapped_transaction_exact_witness:
  "\<exists>rc. map_mempool_transaction (\<lambda>_. None) sample_raw_tx = Inr rc \<and> map so_output_index (st_outputs rc) = [0] \<and>
     map so_value_amount (st_outputs rc) = [5] \<and> st_inputs rc = []"
proof -
  have "str_trim ''ab'' = ''ab''" by (simp add: str_trim_hex is_ascii_hexdigit_def)
  moreover have "list_all is_ascii_hexdigit (replicate 64 (CHR ''a''))"
    by (simp only: list_all_iff set_replicate) (simp add: is_ascii_hexdigit_def)
  then have "\<exists>h. tx_hash_parse (replicate 64 (CHR ''a'')) = Inr h"
    by (simp only: tx_hash_parse_def str_trim_hex Let_def length_replicate) simp
  ultimately obtain rc where rc: "map_mempool_transaction (\<lambda>_. None) sample_raw_tx = Inr rc"
    by (auto simp: map_mempool_transaction_def sample_raw_tx_def map_inputs_def map_outputs_def map_input_def map_output_def
        parse_block_time_def parse_optional_address_def parse_non_negative_i64_def index_of_position_def in_i64_def)
  with mapped_transaction_exact [OF rc] show ?thesis
    by (auto simp: sample_raw_tx_def has_previous_output_def)
qed

end
