(* ===== verification/Raw_Lineage.thy ===== *)
theory Raw_Lineage
  imports Raw_Ingestion
begin

section \<open>The history of a payload is one line\<close>

text \<open>
  What every operation on the raw tables keeps: the versions of one transaction of one connection supersede each other in the
  order they were stored, so that exactly one of them, the last, is the head; versions are never changed or removed; and every
  row refers to rows that exist.
\<close>

subsection \<open>Lines of versions\<close>

definition is_version_of :: "string \<Rightarrow> TxHash \<Rightarrow> RawMempoolVersionRow \<Rightarrow> bool" where
  "is_version_of source txid v \<longleftrightarrow> rv_source_connection_id v = source \<and> rv_txid v = txid"

definition versions_of :: "RawMempoolVersionRow list \<Rightarrow> string \<Rightarrow> TxHash \<Rightarrow> RawMempoolVersionRow list" where
  "versions_of vs source txid = filter (is_version_of source txid) vs"

definition is_line :: "RawMempoolVersionRow list \<Rightarrow> bool" where
  "is_line vs \<longleftrightarrow> map rv_supersedes_raw_version_id vs = take (length vs) (None # map (\<lambda>v. Some (rv_id v)) vs)"

definition last_id :: "RawMempoolVersionRow list \<Rightarrow> ulid option" where
  "last_id vs = (if vs = [] then None else Some (rv_id (last vs)))"

definition lines_ok :: "RawMempoolVersionRow list \<Rightarrow> bool" where
  "lines_ok vs \<longleftrightarrow> distinct (map rv_id vs) \<and>
     list_all (\<lambda>v. is_line (versions_of vs (rv_source_connection_id v) (rv_txid v))) vs"

lemma is_line_Nil [simp]: "is_line []"
  by (simp add: is_line_def)

lemma is_line_snoc [simp]:
  "is_line (vs @ [v]) \<longleftrightarrow> is_line vs \<and> rv_supersedes_raw_version_id v = last_id vs"
proof -
  have "take (Suc (length vs)) (None # map (\<lambda>v. Some (rv_id v)) (vs @ [v])) =
      take (length vs) (None # map (\<lambda>v. Some (rv_id v)) vs) @ [last_id vs]"
  proof (cases vs rule: rev_cases)
    case (snoc us u)
    then show ?thesis by (simp add: last_id_def)
  qed (simp add: last_id_def)
  then show ?thesis
    by (simp only: is_line_def map_append list.map length_append_singleton append1_eq_conv)
qed

lemma is_line_nth:
  assumes "is_line vs" and "i < length vs"
  shows "rv_supersedes_raw_version_id (vs ! i) = (if i = 0 then None else Some (rv_id (vs ! (i - 1))))"
proof -
  have "map rv_supersedes_raw_version_id vs ! i = take (length vs) (None # map (\<lambda>v. Some (rv_id v)) vs) ! i"
    using assms(1) unfolding is_line_def by (rule arg_cong)
  with assms(2) show ?thesis by (cases i) simp_all
qed

lemma versions_of_append [simp]: "versions_of (us @ vs) s t = versions_of us s t @ versions_of vs s t"
  by (simp add: versions_of_def)

lemma versions_of_single: "versions_of [v] s t = (if is_version_of s t v then [v] else [])"
  by (simp add: versions_of_def)

lemma in_versions_of: "v \<in> set (versions_of vs s t) \<longleftrightarrow> v \<in> set vs \<and> is_version_of s t v"
  by (auto simp: versions_of_def)

lemma lines_ok_iff:
  "lines_ok vs \<longleftrightarrow> distinct (map rv_id vs) \<and> (\<forall>s t. is_line (versions_of vs s t))"
proof -
  have "is_line (versions_of vs s t)" if all: "list_all (\<lambda>v. is_line (versions_of vs (rv_source_connection_id v) (rv_txid v))) vs" for s t
  proof (cases "versions_of vs s t")
    case (Cons v us)
    then have "v \<in> set vs" and "is_version_of s t v" using in_versions_of [of v vs s t] by simp_all
    with all show ?thesis by (auto simp: list_all_iff is_version_of_def)
  qed simp
  then show ?thesis by (auto simp: lines_ok_def list_all_iff)
qed

lemma lines_ok_snoc:
  assumes "lines_ok vs" and "rv_id v \<notin> rv_id ` set vs"
    and "rv_supersedes_raw_version_id v = last_id (versions_of vs (rv_source_connection_id v) (rv_txid v))"
  shows "lines_ok (vs @ [v])"
  using assms by (auto simp: lines_ok_iff versions_of_single is_version_of_def)

lemma same_id:
  assumes "lines_ok vs" and "u \<in> set vs" and "v \<in> set vs" and "rv_id u = rv_id v"
  shows "u = v"
  using assms by (auto simp: lines_ok_def distinct_map inj_on_def)

text \<open>The head of a line is its last version.\<close>

lemma head_iff_last:
  assumes ok: "lines_ok (raw_mempool_versions rdb)" and v: "v \<in> set (versions_of (raw_mempool_versions rdb) s t)"
  shows "is_head rdb v \<longleftrightarrow> v = last (versions_of (raw_mempool_versions rdb) s t)"
proof -
  let ?all = "raw_mempool_versions rdb" and ?vs = "versions_of (raw_mempool_versions rdb) s t"
  have line: "is_line ?vs" using ok by (simp add: lines_ok_iff)
  obtain i where i: "i < length ?vs" "v = ?vs ! i" using v by (metis in_set_conv_nth)
  have lastn: "last ?vs = ?vs ! (length ?vs - 1)" using i(1) by (intro last_conv_nth) auto
  show ?thesis
  proof
    assume head: "is_head rdb v"
    show "v = last ?vs"
    proof (rule ccontr)
      assume "v \<noteq> last ?vs"
      then have "i \<noteq> length ?vs - 1" using i(2) lastn by metis
      with i(1) have "Suc i < length ?vs" by linarith
      moreover from this have "rv_supersedes_raw_version_id (?vs ! Suc i) = Some (rv_id v)"
        using is_line_nth [OF line, of "Suc i"] i by simp
      moreover have "?vs ! Suc i \<in> set ?all" using calculation(1) in_versions_of nth_mem by blast
      ultimately show False using head by (auto simp: is_head_def list_ex_iff)
    qed
  next
    assume last: "v = last ?vs"
    show "is_head rdb v"
    proof (rule ccontr)
      assume "\<not> is_head rdb v"
      then obtain u where u: "u \<in> set ?all" "rv_supersedes_raw_version_id u = Some (rv_id v)"
        by (auto simp: is_head_def list_ex_iff)
      let ?ws = "versions_of ?all (rv_source_connection_id u) (rv_txid u)"
      have wline: "is_line ?ws" using ok by (simp add: lines_ok_iff)
      have "u \<in> set ?ws" using u(1) by (simp add: in_versions_of is_version_of_def)
      then obtain j where j: "j < length ?ws" "u = ?ws ! j" by (metis in_set_conv_nth)
      have sup: "j \<noteq> 0 \<and> rv_id (?ws ! (j - 1)) = rv_id v"
        using is_line_nth [OF wline j(1)] u(2) j(2) by (auto split: if_splits)
      have "?ws ! (j - 1) \<in> set ?ws" using j(1) by (meson less_imp_diff_less nth_mem)
      then have "?ws ! (j - 1) = v"
        using same_id [OF ok] sup v by (simp add: in_versions_of)
      then have "?ws = ?vs"
        using \<open>?ws ! (j - 1) \<in> set ?ws\<close> v by (auto simp: in_versions_of is_version_of_def)
      then have "?vs ! (j - 1) = ?vs ! (length ?vs - 1)" and "j - 1 < length ?vs - 1" and "length ?vs - 1 < length ?vs"
        using \<open>?ws ! (j - 1) = v\<close> last lastn j(1) sup i(1) by auto
      moreover have "distinct ?vs" using ok by (simp add: lines_ok_def versions_of_def distinct_map)
      ultimately show False by (metis nth_eq_iff_index_eq less_irrefl less_trans)
    qed
  qed
qed

lemma find_head:
  assumes ok: "lines_ok (raw_mempool_versions rdb)"
  shows "List.find (\<lambda>v. rv_source_connection_id v = s \<and> rv_txid v = t \<and> is_head rdb v) (raw_mempool_versions rdb) =
    (if versions_of (raw_mempool_versions rdb) s t = [] then None
     else Some (last (versions_of (raw_mempool_versions rdb) s t)))"
proof -
  let ?all = "raw_mempool_versions rdb" and ?vs = "versions_of (raw_mempool_versions rdb) s t"
  have iff: "v \<in> set ?all \<Longrightarrow> (rv_source_connection_id v = s \<and> rv_txid v = t \<and> is_head rdb v) \<longleftrightarrow>
      (v \<in> set ?vs \<and> v = last ?vs)" for v
    using head_iff_last [OF ok, of v s t] by (auto simp: in_versions_of is_version_of_def)
  show ?thesis
  proof (cases "List.find (\<lambda>v. rv_source_connection_id v = s \<and> rv_txid v = t \<and> is_head rdb v) ?all")
    case None
    then have none: "\<not> (v \<in> set ?vs \<and> v = last ?vs)" if "v \<in> set ?all" for v
      using iff that by (auto simp: find_None_iff)
    have "?vs = []"
    proof (rule ccontr)
      assume "?vs \<noteq> []"
      then have "last ?vs \<in> set ?vs" by simp
      with none [of "last ?vs"] show False by (simp add: in_versions_of)
    qed
    with None show ?thesis by simp
  next
    case (Some v)
    then have "v \<in> set ?all" and "rv_source_connection_id v = s \<and> rv_txid v = t \<and> is_head rdb v"
      by (auto simp: find_Some_iff)
    with iff [of v] have "v \<in> set ?vs \<and> v = last ?vs" by blast
    then have "?vs \<noteq> []" and "last ?vs = v" by (auto simp only: list.set empty_iff)
    with Some show ?thesis by simp
  qed
qed

subsection \<open>Storing a version\<close>

definition version_row_ok :: "Env \<Rightarrow> RawMempoolVersionRow \<Rightarrow> bool" where
  "version_row_ok env v \<longleftrightarrow>
     env_parse_ulid env (rv_id v) = Inr (rv_id v) \<and> tx_hash_parse (rv_txid v) = Inr (rv_txid v) \<and> rv_payload_bytes v \<noteq> []"

definition versions_ok :: "Env \<Rightarrow> RawDb \<Rightarrow> bool" where
  "versions_ok env rdb \<longleftrightarrow>
     lines_ok (raw_mempool_versions rdb) \<and> list_all (version_row_ok env) (raw_mempool_versions rdb)"

lemma put_version_Inr:
  "put_version prefix v rdb = Inr rdb' \<longleftrightarrow>
     rdb' = rdb\<lparr>raw_mempool_versions := raw_mempool_versions rdb @ [v]\<rparr> \<and>
     rv_id v \<notin> rv_id ` set (raw_mempool_versions rdb) \<and> rv_source_connection_id v \<in> scn_id ` set (source_connections rdb) \<and>
     (case rv_supersedes_raw_version_id v of None \<Rightarrow> True | Some p \<Rightarrow> p \<in> rv_id ` set (raw_mempool_versions rdb))"
  by (auto simp: put_version_def split: if_splits option.splits)

lemma versions_ok_snoc:
  assumes "versions_ok env rdb" and "version_row_ok env v" and "rv_id v \<notin> rv_id ` set (raw_mempool_versions rdb)"
    and "rv_supersedes_raw_version_id v =
      last_id (versions_of (raw_mempool_versions rdb) (rv_source_connection_id v) (rv_txid v))"
  shows "versions_ok env (rdb\<lparr>raw_mempool_versions := raw_mempool_versions rdb @ [v]\<rparr>)"
  using assms by (simp add: versions_ok_def lines_ok_snoc)

lemma load_head:
  assumes ok: "versions_ok env rdb"
  shows "load_current_raw_mempool_tx_head env rdb s t =
    (let vs = versions_of (raw_mempool_versions rdb) s t in
     if vs = [] then Inr None
     else Inr (Some \<lparr>ch_raw_version_id = rv_id (last vs), ch_txid = t, ch_payload_bytes = rv_payload_bytes (last vs)\<rparr>))"
proof (cases "versions_of (raw_mempool_versions rdb) s t = []")
  case True
  then show ?thesis using ok by (simp add: load_current_raw_mempool_tx_head_def find_head versions_ok_def)
next
  case False
  let ?v = "last (versions_of (raw_mempool_versions rdb) s t)"
  have "?v \<in> set (versions_of (raw_mempool_versions rdb) s t)" using False by simp
  then have v: "?v \<in> set (raw_mempool_versions rdb)" "rv_txid ?v = t"
    unfolding in_versions_of is_version_of_def by simp_all
  then have "version_row_ok env ?v" using ok by (auto simp: versions_ok_def list_all_iff)
  then show ?thesis using False ok v(2)
    by (simp add: load_current_raw_mempool_tx_head_def find_head versions_ok_def read_head_def version_row_ok_def Let_def
        exact_payload_try_new_def)
qed

text \<open>A version of the stored payload: what an ingestion refers to.\<close>

definition stores_payload :: "RawDb \<Rightarrow> ulid \<Rightarrow> TxHash \<Rightarrow> u8 list \<Rightarrow> bool" where
  "stores_payload rdb i txid payload \<longleftrightarrow>
     list_ex (\<lambda>v. rv_id v = i \<and> rv_txid v = txid \<and> rv_payload_bytes v = payload) (raw_mempool_versions rdb)"

lemma insert_version:
  assumes ok: "versions_ok env rdb" and id: "env_parse_ulid env new_id = Inr new_id"
    and txid: "tx_hash_parse (iv_txid rq) = Inr (iv_txid rq)" and payload: "iv_payload_bytes rq \<noteq> []"
    and ins: "insert_raw_mempool_tx_version env new_id rq rdb = Inr (r, rdb')"
  shows "versions_ok env rdb' \<and> (\<exists>new. rdb' = rdb\<lparr>raw_mempool_versions := raw_mempool_versions rdb @ new\<rparr> \<and>
      rv_source_connection_id ` set new \<subseteq> scn_id ` set (source_connections rdb)) \<and>
    stores_payload rdb' (ir_raw_version_id r) (iv_txid rq) (iv_payload_bytes rq) \<and>
    rv_id (last (versions_of (raw_mempool_versions rdb') (iv_source_connection_id rq) (iv_txid rq))) = ir_raw_version_id r"
proof -
  let ?s = "iv_source_connection_id rq" and ?t = "iv_txid rq"
  let ?vs = "versions_of (raw_mempool_versions rdb) ?s ?t"
  show ?thesis
  proof (cases "?vs \<noteq> [] \<and> rv_payload_bytes (last ?vs) = iv_payload_bytes rq")
    case True
    then have "last ?vs \<in> set (raw_mempool_versions rdb)" and "rv_txid (last ?vs) = ?t"
      using last_in_set [of ?vs] by (auto simp only: in_versions_of is_version_of_def)
    moreover have "rdb' = rdb" and "ir_raw_version_id r = rv_id (last ?vs)"
      using True ins ok by (auto simp: insert_raw_mempool_tx_version_def load_head Let_def)
    ultimately show ?thesis using ok True by (auto simp: stores_payload_def list_ex_iff intro: exI [of _ "[]"])
  next
    case False
    define v where "v = \<lparr>rv_id = new_id, rv_source_connection_id = ?s, rv_network = network_as_str (iv_network rq),
      rv_txid = ?t, rv_payload_hash_sha256_hex = iv_payload_hash_sha256_hex rq,
      rv_payload_bytes = iv_payload_bytes rq, rv_first_observed_at = env_to_rfc3339 env (iv_first_observed_at rq),
      rv_supersedes_raw_version_id = last_id ?vs, rv_created_at = env_to_rfc3339 env (iv_first_observed_at rq)\<rparr>"
    have "put_version ''Failed to insert raw mempool transaction version'' v rdb = Inr rdb'" and r: "ir_raw_version_id r = new_id"
      using False ins ok unfolding v_def
      by (auto simp: insert_raw_mempool_tx_version_def load_head Let_def last_id_def split: if_splits)
    then have rdb': "rdb' = rdb\<lparr>raw_mempool_versions := raw_mempool_versions rdb @ [v]\<rparr>"
      and fresh: "rv_id v \<notin> rv_id ` set (raw_mempool_versions rdb)"
      and source: "rv_source_connection_id v \<in> scn_id ` set (source_connections rdb)"
      unfolding put_version_Inr by simp_all
    have fields: "rv_id v = new_id" "rv_source_connection_id v = ?s" "rv_txid v = ?t" "rv_payload_bytes v = iv_payload_bytes rq"
      "rv_supersedes_raw_version_id v = last_id ?vs"
      by (simp_all add: v_def)
    have "versions_ok env rdb'"
      unfolding rdb' using ok id txid payload fresh fields
      by (intro versions_ok_snoc) (simp_all add: version_row_ok_def)
    moreover have "stores_payload rdb' (ir_raw_version_id r) ?t (iv_payload_bytes rq)"
      by (simp add: stores_payload_def rdb' r fields)
    moreover have "rv_id (last (versions_of (raw_mempool_versions rdb') ?s ?t)) = ir_raw_version_id r"
      by (simp add: rdb' r fields versions_of_single is_version_of_def)
    moreover have "rv_source_connection_id ` set [v] \<subseteq> scn_id ` set (source_connections rdb)" using source by simp
    ultimately show ?thesis using rdb' by blast
  qed
qed

subsection \<open>Ingesting the items of a page\<close>

definition ingest_frame :: "RawDb \<Rightarrow> RawDb \<Rightarrow> bool" where
  "ingest_frame rdb rdb' \<longleftrightarrow>
     (\<exists>new attempts. rdb' = rdb\<lparr>raw_mempool_versions := raw_mempool_versions rdb @ new,
          raw_parse_attempts := raw_parse_attempts rdb @ attempts\<rparr> \<and>
        rv_source_connection_id ` set new \<subseteq> scn_id ` set (source_connections rdb) \<and>
        rpa_sync_run_id ` set attempts \<subseteq> sr_id ` set (sync_runs rdb))"

lemma ingest_frame_refl [simp]: "ingest_frame rdb rdb"
  unfolding ingest_frame_def by (intro exI [of _ "[]"]) simp

lemma ingest_frame_trans:
  assumes "ingest_frame r1 r2" and "ingest_frame r2 r3"
  shows "ingest_frame r1 r3"
proof -
  obtain n1 a1 where r2: "r2 = r1\<lparr>raw_mempool_versions := raw_mempool_versions r1 @ n1,
      raw_parse_attempts := raw_parse_attempts r1 @ a1\<rparr>" and a1: "rpa_sync_run_id ` set a1 \<subseteq> sr_id ` set (sync_runs r1)"
    and n1: "rv_source_connection_id ` set n1 \<subseteq> scn_id ` set (source_connections r1)"
    using assms(1) unfolding ingest_frame_def by blast
  obtain n2 a2 where r3: "r3 = r2\<lparr>raw_mempool_versions := raw_mempool_versions r2 @ n2,
      raw_parse_attempts := raw_parse_attempts r2 @ a2\<rparr>" and a2: "rpa_sync_run_id ` set a2 \<subseteq> sr_id ` set (sync_runs r2)"
    and n2: "rv_source_connection_id ` set n2 \<subseteq> scn_id ` set (source_connections r2)"
    using assms(2) unfolding ingest_frame_def by blast
  show ?thesis unfolding ingest_frame_def
    using a1 a2 n1 n2 by (intro exI [of _ "n1 @ n2"] exI [of _ "a1 @ a2"]) (simp add: r3 r2 image_Un)
qed

lemma ingest_frame_versions:
  "rdb' = rdb\<lparr>raw_mempool_versions := raw_mempool_versions rdb @ new\<rparr> \<Longrightarrow>
     rv_source_connection_id ` set new \<subseteq> scn_id ` set (source_connections rdb) \<Longrightarrow> ingest_frame rdb rdb'"
  unfolding ingest_frame_def by (intro exI [of _ new] exI [of _ "[]"]) simp

lemma stores_payload_frame: "ingest_frame rdb rdb' \<Longrightarrow> stores_payload rdb i t p \<Longrightarrow> stores_payload rdb' i t p"
  by (auto simp: ingest_frame_def stores_payload_def)

definition parsed_item :: "RawCodec \<Rightarrow> MempoolPageTransaction \<Rightarrow> MempoolAddressTransaction \<Rightarrow> bool" where
  "parsed_item c raw tx \<longleftrightarrow> rc_parse_payload c (pt_payload_bytes raw) = Inr tx \<and> tx_hash_parse (mt_txid tx) = Inr (pt_txid raw)"

definition stored_item :: "RawDb \<Rightarrow> MempoolPageTransaction \<Rightarrow> ulid \<Rightarrow> bool" where
  "stored_item rdb raw i \<longleftrightarrow> stores_payload rdb i (pt_txid raw) (pt_payload_bytes raw)"

lemma parse_persisted_Inr:
  "parse_persisted_raw_mempool_transaction c i txid payload = Inr tx \<longleftrightarrow>
     rc_parse_payload c payload = Inr tx \<and> tx_hash_parse (mt_txid tx) = Inr txid"
  by (auto simp: parse_persisted_raw_mempool_transaction_def)

lemma exact_payload_Inr [simp]: "exact_payload_try_new bytes = Inr p \<longleftrightarrow> p = bytes \<and> bytes \<noteq> []"
  by (auto simp: exact_payload_try_new_def)

lemma ingest_frame_attempts:
  "rdb' = rdb\<lparr>raw_parse_attempts := raw_parse_attempts rdb @ [a]\<rparr> \<Longrightarrow> rpa_sync_run_id a \<in> sr_id ` set (sync_runs rdb) \<Longrightarrow>
     ingest_frame rdb rdb' \<and> raw_mempool_versions rdb' = raw_mempool_versions rdb"
  unfolding ingest_frame_def by (intro conjI exI [of _ "[]"] exI [of _ "[a]"]) simp_all

lemma record_parse_failure_frame:
  assumes "record_item_parse_failure env c ids rq i txid parse_error rdb = Inr rdb'"
  shows "ingest_frame rdb rdb' \<and> raw_mempool_versions rdb' = raw_mempool_versions rdb"
proof -
  obtain a where "rdb' = rdb\<lparr>raw_parse_attempts := raw_parse_attempts rdb @ [a]\<rparr>" and
      "rpa_sync_run_id a \<in> sr_id ` set (sync_runs rdb)"
    using assms by (fastforce simp: record_item_parse_failure_def record_raw_mempool_parse_failure_def split: if_splits)
  then show ?thesis by (rule ingest_frame_attempts)
qed

definition progress_made ::
  "RawCodec \<Rightarrow> RawDb \<Rightarrow> MempoolPageTransaction list \<Rightarrow> IngestProgress \<Rightarrow> IngestProgress \<Rightarrow> bool" where
  "progress_made c rdb raws p p' \<longleftrightarrow>
     (\<exists>txs is. ig_transactions p' = ig_transactions p @ txs \<and> ig_raw_version_ids p' = ig_raw_version_ids p @ is \<and>
        list_all2 (parsed_item c) raws txs \<and> list_all2 (stored_item rdb) raws is \<and>
        is_items_seen (ig_summary p') = is_items_seen (ig_summary p))"

lemma count_version_items_seen [simp]: "is_items_seen (count_version outcome s) = is_items_seen s"
  by (simp add: count_version_def split: RawVersionWriteOutcome.splits)

lemma progress_made_step:
  assumes "progress_made c rdb' raws
      \<lparr>ig_transactions = ig_transactions p @ [tx], ig_raw_version_ids = ig_raw_version_ids p @ [i],
       ig_summary = count_version outcome (ig_summary p)\<rparr> p'"
    and "parsed_item c raw tx" and "stored_item rdb' raw i"
  shows "progress_made c rdb' (raw # raws) p p'"
proof -
  from assms(1) obtain txs js where "ig_transactions p' = ig_transactions p @ tx # txs"
      "ig_raw_version_ids p' = ig_raw_version_ids p @ i # js" "list_all2 (parsed_item c) raws txs"
      "list_all2 (stored_item rdb') raws js" "is_items_seen (ig_summary p') = is_items_seen (ig_summary p)"
    by (auto simp: progress_made_def)
  with assms(2,3) show ?thesis unfolding progress_made_def
    by (intro exI [of _ "tx # txs"] exI [of _ "i # js"]) simp
qed

definition canonical_ids :: "Env \<Rightarrow> (nat \<Rightarrow> ulid) \<Rightarrow> bool" where
  "canonical_ids env f \<longleftrightarrow> (\<forall>i. env_parse_ulid env (f i) = Inr (f i))"

lemma ingest_items_ok:
  assumes ids: "canonical_ids env (fi_version ids)"
  shows "versions_ok env rdb \<Longrightarrow>
    (case ingest_items env c ids rq i raws p rdb of (r, rdb') \<Rightarrow>
       versions_ok env rdb' \<and> ingest_frame rdb rdb' \<and> (case r of Inl _ \<Rightarrow> True | Inr p' \<Rightarrow> progress_made c rdb' raws p p'))"
proof (induction raws arbitrary: i p rdb)
  case Nil
  then show ?case by (simp add: progress_made_def)
next
  case (Cons raw raws)
  show ?case
  proof (cases "exact_payload_try_new (pt_payload_bytes raw)")
    case (Inl err)
    then show ?thesis using Cons.prems by simp
  next
    case (Inr payload)
    then have payload: "payload = pt_payload_bytes raw" "pt_payload_bytes raw \<noteq> []" by simp_all
    show ?thesis
    proof (cases "parse_persisted_raw_mempool_transaction c (fi_candidate ids i) (pt_txid raw) payload")
      case (Inl message)
      note parse = Inl
      let ?failure = "record_item_parse_failure env c ids rq i (pt_txid raw) (item_parse_error i message) rdb"
      show ?thesis
      proof (cases ?failure)
        case (Inl err)
        then show ?thesis using Cons.prems parse \<open>exact_payload_try_new (pt_payload_bytes raw) = Inr payload\<close>
          by (simp only: ingest_items.simps sum.case prod.case ingest_frame_refl simp_thms)
      next
        case (Inr rdb')
        note fr = record_parse_failure_frame [OF Inr]
        then have "versions_ok env rdb'" using Cons.prems by (simp add: versions_ok_def)
        moreover have "ingest_items env c ids rq i (raw # raws) p rdb = (Inl (Parse (item_parse_error i message)), rdb')"
          using Inr parse \<open>exact_payload_try_new (pt_payload_bytes raw) = Inr payload\<close>
          by (simp only: ingest_items.simps sum.case)
        ultimately show ?thesis using fr by (simp only: prod.case sum.case simp_thms)
      qed
    next
      case (Inr tx)
      then have tx: "parsed_item c raw tx" by (simp add: parsed_item_def parse_persisted_Inr payload)
      then have txid: "tx_hash_parse (pt_txid raw) = Inr (pt_txid raw)"
        using tx_hash_parse_canonical by (auto simp: parsed_item_def)
      let ?rq = "\<lparr>iv_source_connection_id = pi_source_connection_id rq, iv_network = pi_network rq, iv_txid = pt_txid raw,
          iv_payload_hash_sha256_hex = rc_sha256_hex c payload, iv_payload_bytes = payload,
          iv_first_observed_at = pi_observed_at rq\<rparr>"
      show ?thesis
      proof (cases "insert_raw_mempool_tx_version env (fi_version ids i) ?rq rdb")
        case (Inl err)
        then show ?thesis using Cons.prems Inr \<open>exact_payload_try_new (pt_payload_bytes raw) = Inr payload\<close>
          by (simp only: ingest_items.simps sum.case prod.case ingest_frame_refl simp_thms)
      next
        case (Inr ins)
        obtain inserted rdb1 where ins: "ins = (inserted, rdb1)" by (cases ins)
        have step: "versions_ok env rdb1" "ingest_frame rdb rdb1" "stored_item rdb1 raw (ir_raw_version_id inserted)"
          using insert_version [OF Cons.prems _ _ _ Inr [unfolded ins]] ids txid payload ingest_frame_versions
          by (auto simp: canonical_ids_def stored_item_def)
        let ?p = "\<lparr>ig_transactions = ig_transactions p @ [tx],
            ig_raw_version_ids = ig_raw_version_ids p @ [ir_raw_version_id inserted],
            ig_summary = count_version (ir_write_outcome inserted) (ig_summary p)\<rparr>"
        have eq: "ingest_items env c ids rq i (raw # raws) p rdb = ingest_items env c ids rq (Suc i) raws ?p rdb1"
          using Inr ins \<open>exact_payload_try_new (pt_payload_bytes raw) = Inr payload\<close>
            \<open>parse_persisted_raw_mempool_transaction c (fi_candidate ids i) (pt_txid raw) payload = Inr tx\<close>
          by (simp only: ingest_items.simps sum.case prod.case)
        obtain r rdb' where rec: "ingest_items env c ids rq (Suc i) raws ?p rdb1 = (r, rdb')" by fastforce
        note IH = Cons.IH [OF step(1), of ?p "Suc i", unfolded rec prod.case]
        then have fr: "ingest_frame rdb rdb'" and fr1: "ingest_frame rdb1 rdb'" using ingest_frame_trans step(2) by blast+
        have "stored_item rdb' raw (ir_raw_version_id inserted)"
          using step(3) stores_payload_frame [OF fr1] by (simp add: stored_item_def)
        then have "case r of Inl _ \<Rightarrow> True | Inr p' \<Rightarrow> progress_made c rdb' (raw # raws) p p'"
          using IH tx by (auto split: sum.splits intro: progress_made_step)
        with IH fr show ?thesis by (simp only: eq rec prod.case simp_thms)
      qed
    qed
  qed
qed

subsection \<open>Recording a page\<close>

definition observation_row ::
  "Env \<Rightarrow> (nat \<Rightarrow> ulid) \<Rightarrow> RecordRawMempoolPageObservationRequest \<Rightarrow> ulid \<Rightarrow> nat \<times> ulid \<Rightarrow> RawMempoolObservationRow" where
  "observation_row env obs_ids rq set_id item =
     (case item of (i, version_id) \<Rightarrow>
        \<lparr>rmo_id = obs_ids i, rmo_sync_run_id = rq_sync_run_id rq, rmo_source_connection_id = rq_source_connection_id rq,
         rmo_raw_observation_set_id = set_id, rmo_raw_version_id = version_id, rmo_page_item_index = int i,
         rmo_observed_at = env_to_rfc3339 env (rq_observed_at rq), rmo_created_at = env_to_rfc3339 env (rq_observed_at rq)\<rparr>)"

definition page_index :: "RawMempoolObservationRow \<Rightarrow> ulid \<times> int" where
  "page_index q = (rmo_raw_observation_set_id q, rmo_page_item_index q)"

lemma record_page_item_Inr:
  assumes "record_page_item env obs_ids rq set_id rdb (i, v) = Inr rdb'"
  shows "rdb' = rdb\<lparr>raw_mempool_observations := raw_mempool_observations rdb @ [observation_row env obs_ids rq set_id (i, v)]\<rparr> \<and>
    v \<in> rv_id ` set (raw_mempool_versions rdb) \<and> obs_ids i \<notin> rmo_id ` set (raw_mempool_observations rdb) \<and>
    (set_id, int i) \<notin> page_index ` set (raw_mempool_observations rdb)"
  using assms
  by (auto simp: record_page_item_def record_raw_mempool_tx_observation_tx_def observation_row_def page_index_def list_ex_iff
      split: if_splits)

definition observations_recorded ::
  "Env \<Rightarrow> (nat \<Rightarrow> ulid) \<Rightarrow> RecordRawMempoolPageObservationRequest \<Rightarrow> ulid \<Rightarrow> RawDb \<Rightarrow> (nat \<times> ulid) list \<Rightarrow> RawDb \<Rightarrow> bool" where
  "observations_recorded env obs_ids rq set_id rdb items rdb' \<longleftrightarrow>
     rdb' = rdb\<lparr>raw_mempool_observations := raw_mempool_observations rdb @ map (observation_row env obs_ids rq set_id) items\<rparr> \<and>
     snd ` set items \<subseteq> rv_id ` set (raw_mempool_versions rdb) \<and>
     (distinct (map rmo_id (raw_mempool_observations rdb)) \<longrightarrow> distinct (map rmo_id (raw_mempool_observations rdb'))) \<and>
     (distinct (map page_index (raw_mempool_observations rdb)) \<longrightarrow> distinct (map page_index (raw_mempool_observations rdb')))"

lemma record_items:
  "res_fold (record_page_item env obs_ids rq set_id) rdb items = Inr rdb' \<Longrightarrow>
     observations_recorded env obs_ids rq set_id rdb items rdb'"
proof (induction items arbitrary: rdb)
  case Nil
  then show ?case by (simp add: observations_recorded_def)
next
  case (Cons item items)
  obtain i v where item: "item = (i, v)" by (cases item)
  from Cons.prems obtain rdb1 where one: "record_page_item env obs_ids rq set_id rdb (i, v) = Inr rdb1"
    and rest: "res_fold (record_page_item env obs_ids rq set_id) rdb1 items = Inr rdb'" by (auto simp: item)
  note first = record_page_item_Inr [OF one]
  have fields: "rmo_id (observation_row env obs_ids rq set_id (i, v)) = obs_ids i"
    "page_index (observation_row env obs_ids rq set_id (i, v)) = (set_id, int i)"
    by (simp_all add: observation_row_def page_index_def)
  have rdb1: "raw_mempool_observations rdb1 = raw_mempool_observations rdb @ [observation_row env obs_ids rq set_id (i, v)]"
    "raw_mempool_versions rdb1 = raw_mempool_versions rdb"
    using first by simp_all
  have "distinct (map rmo_id (raw_mempool_observations rdb)) \<longrightarrow> distinct (map rmo_id (raw_mempool_observations rdb1))"
    "distinct (map page_index (raw_mempool_observations rdb)) \<longrightarrow> distinct (map page_index (raw_mempool_observations rdb1))"
    using first by (simp_all add: rdb1(1) fields)
  moreover note IH = Cons.IH [OF rest, unfolded observations_recorded_def]
  moreover have "rdb' = rdb\<lparr>raw_mempool_observations :=
      raw_mempool_observations rdb @ map (observation_row env obs_ids rq set_id) (item # items)\<rparr>"
    using first IH by (simp add: item)
  moreover have "snd ` set (item # items) \<subseteq> rv_id ` set (raw_mempool_versions rdb)"
    using first IH unfolding rdb1(2) by (simp add: item)
  ultimately show ?case unfolding observations_recorded_def by blast
qed

definition set_row :: "Env \<Rightarrow> ulid \<Rightarrow> RecordRawMempoolPageObservationRequest \<Rightarrow> string \<Rightarrow> RawObservationSetRow" where
  "set_row env set_id rq metadata_json =
     \<lparr>ros_id = set_id, ros_sync_run_id = rq_sync_run_id rq, ros_source_connection_id = rq_source_connection_id rq,
      ros_grouping_kind = MEMPOOL_PAGE_GROUPING, ros_grouping_metadata_json = metadata_json,
      ros_observed_at = env_to_rfc3339 env (rq_observed_at rq), ros_created_at = env_to_rfc3339 env (rq_observed_at rq)\<rparr>"

lemma record_page_Inr:
  assumes "record_raw_mempool_page_observation env c set_id obs_ids rq rdb = Inr rdb'"
  shows "\<exists>raw json. rc_page_metadata_json c (rq_metadata rq) = Inr raw \<and> json = str_trim raw \<and>
    set_id \<notin> ros_id ` set (raw_observation_sets rdb) \<and> rq_sync_run_id rq \<in> sr_id ` set (sync_runs rdb) \<and>
    rq_source_connection_id rq \<in> scn_id ` set (source_connections rdb) \<and>
    observations_recorded env obs_ids rq set_id
      (rdb\<lparr>raw_observation_sets := raw_observation_sets rdb @ [set_row env set_id rq json]\<rparr>)
      (List.enumerate 0 (rq_raw_version_ids rq)) rdb'"
  using assms
  by (auto simp: record_raw_mempool_page_observation_def raw_observation_metadata_parse_def non_empty_text_def Let_def
      insert_raw_observation_set_tx_def set_row_def split: if_splits dest!: record_items)

subsection \<open>References\<close>

definition run_row_ok :: "SyncRunRow \<Rightarrow> bool" where
  "run_row_ok r \<longleftrightarrow> (sr_status r = ''started'' \<and> sr_completed_at r = None) \<or>
     (sr_status r \<in> {''completed_success'', ''completed_failure''} \<and> sr_completed_at r \<noteq> None)"

definition connections_ok :: "RawDb \<Rightarrow> bool" where
  "connections_ok rdb \<longleftrightarrow> distinct (map scn_id (source_connections rdb)) \<and>
     list_all (\<lambda>r. source_connection_id_parse (scn_id r) = Inr (scn_id r)) (source_connections rdb) \<and>
     list_all connection_row_ok (source_connections rdb) \<and> distinct (connection_addresses (source_connections rdb))"

definition runs_ok :: "RawDb \<Rightarrow> bool" where
  "runs_ok rdb \<longleftrightarrow> distinct (map sr_id (sync_runs rdb)) \<and> list_all run_row_ok (sync_runs rdb) \<and>
     sr_source_connection_id ` set (sync_runs rdb) \<subseteq> scn_id ` set (source_connections rdb) \<and>
     rv_source_connection_id ` set (raw_mempool_versions rdb) \<subseteq> scn_id ` set (source_connections rdb)"

definition pages_ok :: "RawDb \<Rightarrow> bool" where
  "pages_ok rdb \<longleftrightarrow>
     ros_sync_run_id ` set (raw_observation_sets rdb) \<subseteq> sr_id ` set (sync_runs rdb) \<and>
     distinct (map ros_id (raw_observation_sets rdb)) \<and>
     (\<lambda>q. (rmo_raw_observation_set_id q, rmo_sync_run_id q)) ` set (raw_mempool_observations rdb) \<subseteq>
       (\<lambda>s. (ros_id s, ros_sync_run_id s)) ` set (raw_observation_sets rdb) \<and>
     rmo_raw_version_id ` set (raw_mempool_observations rdb) \<subseteq> rv_id ` set (raw_mempool_versions rdb) \<and>
     distinct (map rmo_id (raw_mempool_observations rdb)) \<and> distinct (map page_index (raw_mempool_observations rdb)) \<and>
     rpa_sync_run_id ` set (raw_parse_attempts rdb) \<subseteq> sr_id ` set (sync_runs rdb) \<and>
     rqa_sync_run_id ` set (request_attempts rdb) \<subseteq> sr_id ` set (sync_runs rdb)"

definition raw_ok :: "Env \<Rightarrow> RawDb \<Rightarrow> bool" where
  "raw_ok env rdb \<longleftrightarrow> versions_ok env rdb \<and> connections_ok rdb \<and> runs_ok rdb \<and> pages_ok rdb"

lemmas raw_ok_defs = raw_ok_def versions_ok_def connections_ok_def runs_ok_def pages_ok_def

lemma put_connections_Inr:
  "put_connections prefix rows rdb = Inr rdb' \<longleftrightarrow>
     rdb' = rdb\<lparr>source_connections := rows\<rparr> \<and> list_all connection_row_ok rows \<and> distinct (connection_addresses rows)"
  by (auto simp: put_connections_def)

lemma raw_ok_connections:
  assumes "raw_ok env rdb" and "put_connections prefix rows rdb = Inr rdb'" and "distinct (map scn_id rows)"
    and "scn_id ` set (source_connections rdb) \<subseteq> scn_id ` set rows"
    and "\<And>i. i \<in> scn_id ` set rows \<Longrightarrow> i \<in> scn_id ` set (source_connections rdb) \<or> source_connection_id_parse i = Inr i"
  shows "raw_ok env rdb'"
proof -
  have "sr_source_connection_id ` set (sync_runs rdb) \<subseteq> scn_id ` set rows"
    and "rv_source_connection_id ` set (raw_mempool_versions rdb) \<subseteq> scn_id ` set rows"
    using assms(1,4) order.trans unfolding raw_ok_def runs_ok_def by metis+
  moreover have "list_all (\<lambda>r. source_connection_id_parse (scn_id r) = Inr (scn_id r)) rows"
    using assms(1,5) unfolding raw_ok_def connections_ok_def list_all_iff by fastforce
  ultimately show ?thesis using assms(1-3) by (simp add: raw_ok_defs put_connections_Inr)
qed

lemma map_scn_id_update:
  "(\<And>r. scn_id (f r) = scn_id r) \<Longrightarrow> map scn_id (map (\<lambda>r. if P r then f r else r) rows) = map scn_id rows"
  by (induction rows) auto

lemma raw_ok_connections_same:
  assumes ok: "raw_ok env rdb" and put: "put_connections prefix rows rdb = Inr rdb'"
    and ids: "map scn_id rows = map scn_id (source_connections rdb)"
  shows "raw_ok env rdb'"
proof (rule raw_ok_connections [OF ok put])
  have same: "scn_id ` set rows = scn_id ` set (source_connections rdb)" using arg_cong [OF ids, of set] by simp
  show "distinct (map scn_id rows)" unfolding ids using ok by (simp add: raw_ok_def connections_ok_def)
  show "scn_id ` set (source_connections rdb) \<subseteq> scn_id ` set rows" by (simp add: same)
  show "i \<in> scn_id ` set (source_connections rdb) \<or> source_connection_id_parse i = Inr i" if "i \<in> scn_id ` set rows" for i
    using that unfolding same by blast
qed

lemma ensure_connection_ok:
  assumes ok: "raw_ok env rdb" and new_id: "source_connection_id_parse new_id = Inr new_id"
    and ensure: "ensure_source_connection_for_address_tx env new_id address_id asset_id network key now rdb = Inr (i, rdb')"
  shows "raw_ok env rdb'"
proof (cases "List.find (is_source (source_integration_for_asset asset_id) network key) (source_connections rdb)")
  case None
  let ?rows = "source_connections rdb @
      [new_connection_row new_id address_id (source_integration_for_asset asset_id) network key (env_to_rfc3339 env now)]"
  from None ensure have put: "put_connections ''Failed to insert source connection'' ?rows rdb = Inr rdb'"
    and new: "new_id \<notin> scn_id ` set (source_connections rdb)"
    unfolding ensure_source_connection_for_address_tx_def Let_def by (simp_all split: if_splits)
  have ids: "map scn_id ?rows = map scn_id (source_connections rdb) @ [new_id]" by (simp add: new_connection_row_def)
  then have same: "scn_id ` set ?rows = insert new_id (scn_id ` set (source_connections rdb))" by (simp add: new_connection_row_def)
  have "distinct (map scn_id ?rows)" unfolding ids using ok new by (simp add: raw_ok_def connections_ok_def)
  then show ?thesis by (rule raw_ok_connections [OF ok put]) (unfold same, use new_id in auto)+
next
  case (Some existing)
  let ?f = "\<lambda>r. r\<lparr>scn_status := source_connection_status_as_db_value ConnectionActive,
      scn_current_address_id := Some address_id, scn_updated_at := env_to_rfc3339 env now,
      scn_activated_at := env_to_rfc3339 env now, scn_deactivated_at := None\<rparr>"
  from Some ensure obtain j where put: "put_connections ''Failed to reactivate source connection''
      (map (\<lambda>r. if scn_id r = j then ?f r else r) (source_connections rdb)) rdb = Inr rdb'"
    by (auto simp: ensure_source_connection_for_address_tx_def Let_def)
  show ?thesis by (rule raw_ok_connections_same [OF ok put]) (rule map_scn_id_update, simp)
qed

lemma deactivate_connection_ok:
  assumes ok: "raw_ok env rdb" and put: "deactivate_source_connection_for_address_tx env address_id now rdb = Inr rdb'"
  shows "raw_ok env rdb'"
  by (rule raw_ok_connections_same [OF ok put [unfolded deactivate_source_connection_for_address_tx_def Let_def]])
    (rule map_scn_id_update, simp)

lemma start_run_ok:
  assumes ok: "raw_ok env rdb" and start: "start_sync_run env new_id rq rdb = Inr (s, rdb')"
  shows "raw_ok env rdb'"
proof -
  from start obtain r where rdb': "rdb' = rdb\<lparr>sync_runs := sync_runs rdb @ [r]\<rparr>" and "sr_id r = new_id"
      "new_id \<notin> sr_id ` set (sync_runs rdb)" "sr_source_connection_id r \<in> scn_id ` set (source_connections rdb)" "run_row_ok r"
    by (auto simp: start_sync_run_def Let_def run_row_ok_def split: if_splits)
  then show ?thesis using ok unfolding raw_ok_defs by auto
qed

lemma complete_run_ok:
  assumes ok: "raw_ok env rdb" and complete: "complete_sync_run env rq rdb = Inr rdb'"
  shows "raw_ok env rdb'"
proof -
  define f where "f r = (if sr_id r = cq_sync_run_id rq
      then r\<lparr>sr_status := run_status_as_db_value (cq_status rq), sr_completed_at := Some (env_to_rfc3339 env (cq_completed_at rq)),
             sr_summary_json := cq_summary_json rq, sr_updated_at := env_to_rfc3339 env (cq_completed_at rq)\<rparr> else r)" for r :: SyncRunRow
  from complete have rdb': "rdb' = rdb\<lparr>sync_runs := map f (sync_runs rdb)\<rparr>" and st: "cq_status rq \<noteq> RunStarted"
    by (auto simp: complete_sync_run_def Let_def f_def split: if_splits)
  have [simp]: "sr_id (f r) = sr_id r" "sr_source_connection_id (f r) = sr_source_connection_id r" for r
    by (simp_all add: f_def)
  have step: "(run_row_ok \<circ> f) r" if "run_row_ok r" for r
    using that st by (cases "cq_status rq") (auto simp: run_row_ok_def f_def)
  have "list_all run_row_ok (sync_runs rdb)" using ok by (simp add: raw_ok_defs)
  then have "list_all run_row_ok (map f (sync_runs rdb))"
    unfolding list.pred_map by (rule list.pred_mono_strong) (rule step)
  then show ?thesis using ok unfolding raw_ok_defs rdb' by (simp add: image_image comp_def)
qed

lemma raw_ok_frame:
  assumes ok: "raw_ok env rdb" and frame: "ingest_frame rdb rdb'" and versions: "versions_ok env rdb'"
  shows "raw_ok env rdb'"
proof -
  obtain new attempts where rdb': "rdb' = rdb\<lparr>raw_mempool_versions := raw_mempool_versions rdb @ new,
      raw_parse_attempts := raw_parse_attempts rdb @ attempts\<rparr>"
    and new: "rv_source_connection_id ` set new \<subseteq> scn_id ` set (source_connections rdb)"
    and attempts: "rpa_sync_run_id ` set attempts \<subseteq> sr_id ` set (sync_runs rdb)"
    using frame unfolding ingest_frame_def by blast
  have "runs_ok rdb'" and "connections_ok rdb'"
    using ok new by (simp_all add: raw_ok_def runs_ok_def connections_ok_def rdb' image_Un)
  moreover have "pages_ok rdb'"
    using ok attempts by (simp add: raw_ok_def pages_ok_def rdb' image_Un le_supI1)
  ultimately show ?thesis using versions by (simp add: raw_ok_def)
qed

lemma raw_ok_recorded:
  assumes ok: "raw_ok env rdb" and rec: "record_raw_mempool_page_observation env c set_id obs_ids rq rdb = Inr rdb'"
  shows "raw_ok env rdb' \<and> raw_mempool_versions rdb' = raw_mempool_versions rdb"
proof -
  obtain json where new: "set_id \<notin> ros_id ` set (raw_observation_sets rdb)" "rq_sync_run_id rq \<in> sr_id ` set (sync_runs rdb)"
    and obs: "observations_recorded env obs_ids rq set_id
      (rdb\<lparr>raw_observation_sets := raw_observation_sets rdb @ [set_row env set_id rq json]\<rparr>)
      (List.enumerate 0 (rq_raw_version_ids rq)) rdb'"
    using record_page_Inr [OF rec] by blast
  have fields: "ros_id (set_row env set_id rq json) = set_id" "ros_sync_run_id (set_row env set_id rq json) = rq_sync_run_id rq"
    by (simp_all add: set_row_def)
  have row: "rmo_raw_observation_set_id (observation_row env obs_ids rq set_id item) = set_id"
    "rmo_sync_run_id (observation_row env obs_ids rq set_id item) = rq_sync_run_id rq"
    "rmo_raw_version_id (observation_row env obs_ids rq set_id item) = snd item" for item
    by (cases item, simp add: observation_row_def)+
  let ?rows = "map (observation_row env obs_ids rq set_id) (List.enumerate 0 (rq_raw_version_ids rq))"
  have same: "raw_mempool_observations (rdb\<lparr>raw_observation_sets := S\<rparr>) = raw_mempool_observations rdb"
    "raw_mempool_versions (rdb\<lparr>raw_observation_sets := S\<rparr>) = raw_mempool_versions rdb" for S by simp_all
  note rec = obs [unfolded observations_recorded_def same]
  then have rdb': "rdb' = rdb\<lparr>raw_observation_sets := raw_observation_sets rdb @ [set_row env set_id rq json],
      raw_mempool_observations := raw_mempool_observations rdb @ ?rows\<rparr>" by simp
  have pages: "pages_ok rdb" using ok by (simp add: raw_ok_def)
  have "distinct (map rmo_id (raw_mempool_observations rdb'))" "distinct (map page_index (raw_mempool_observations rdb'))"
    using rec pages unfolding pages_ok_def by blast+
  moreover have "(\<lambda>q. (rmo_raw_observation_set_id q, rmo_sync_run_id q)) ` set (raw_mempool_observations rdb') \<subseteq>
      (\<lambda>s. (ros_id s, ros_sync_run_id s)) ` set (raw_observation_sets rdb')"
    using pages unfolding pages_ok_def rdb' by (auto simp: fields row)
  moreover have "rmo_raw_version_id ` set (raw_mempool_observations rdb') \<subseteq> rv_id ` set (raw_mempool_versions rdb')"
  proof -
    have "rmo_raw_version_id ` set ?rows \<subseteq> rv_id ` set (raw_mempool_versions rdb)"
      using rec by (simp add: image_image row)
    with pages show ?thesis unfolding pages_ok_def rdb' by (simp add: image_Un)
  qed
  ultimately have "pages_ok rdb'" using pages new unfolding pages_ok_def by (simp add: rdb' fields)
  then show ?thesis using ok unfolding raw_ok_def versions_ok_def connections_ok_def runs_ok_def by (simp add: rdb')
qed

lemma ingest_ok:
  assumes ok: "raw_ok env rdb" and ids: "canonical_ids env (fi_version ids)"
    and ingest: "ingest_mempool_page env c ids rq page rdb = (r, rdb')"
  shows "raw_ok env rdb' \<and> (\<exists>new. raw_mempool_versions rdb' = raw_mempool_versions rdb @ new)"
proof -
  let ?p = "\<lparr>ig_transactions = [], ig_raw_version_ids = [],
      ig_summary = \<lparr>is_items_seen = page_items_seen (tp_transactions page), is_versions_inserted = 0,
        is_versions_reused = 0, is_parse_success_count = 0, is_parse_failure_count = 0\<rparr>\<rparr>"
  obtain r1 rdb1 where items: "ingest_items env c ids rq 0 (tp_transactions page) ?p rdb = (r1, rdb1)" by fastforce
  have "versions_ok env rdb1" and frame: "ingest_frame rdb rdb1"
    using ingest_items_ok [OF ids, where c = c and rq = rq and i = 0 and raws = "tp_transactions page" and p = ?p and rdb = rdb] ok
    unfolding items by (simp_all add: raw_ok_def)
  then have ok1: "raw_ok env rdb1" by (intro raw_ok_frame [OF ok])
  have "rdb' = rdb \<or> rdb' = rdb1 \<or> (\<exists>set_id obs_ids rq'. record_raw_mempool_page_observation env c set_id obs_ids rq' rdb1 = Inr rdb')"
    using ingest items by (auto simp: ingest_mempool_page_def split: sum.splits)
  then show ?thesis
    using ok ok1 frame raw_ok_recorded [OF ok1] by (fastforce simp: ingest_frame_def)
qed

lemma cleanup_ok:
  assumes ok: "raw_ok env rdb" and cleanup: "cleanup_raw_sync_history env completed days rdb = Inr (stats, rdb')"
  shows "raw_ok env rdb' \<and> raw_mempool_versions rdb' = raw_mempool_versions rdb"
proof -
  have "rdb' = rdb \<or> (\<exists>ids. rdb' = delete_sync_runs ids rdb)"
    using cleanup by (auto simp: cleanup_raw_sync_history_def Let_def split: if_splits)
  then show ?thesis
  proof
    assume "\<exists>ids. rdb' = delete_sync_runs ids rdb"
    then obtain ids where rdb': "rdb' = delete_sync_runs ids rdb" ..
    have "pages_ok rdb'"
      using ok unfolding raw_ok_def pages_ok_def rdb'
      by (auto simp: delete_sync_runs_def Let_def distinct_map inj_on_def image_subset_iff)
    moreover have "runs_ok rdb'" using ok unfolding raw_ok_def runs_ok_def rdb'
      by (auto simp: delete_sync_runs_def Let_def distinct_map inj_on_def list_all_iff)
    ultimately show ?thesis using ok unfolding rdb' raw_ok_def versions_ok_def connections_ok_def
      by (simp add: delete_sync_runs_def Let_def)
  qed (use ok in simp)
qed

lemma request_failure_ok:
  assumes ok: "raw_ok env rdb" and fail: "record_mempool_request_failure env c rq err rdb = Inr rdb'"
  shows "raw_ok env rdb' \<and> raw_mempool_versions rdb' = raw_mempool_versions rdb"
proof -
  have "rdb' = rdb \<or> (\<exists>outcome row. record_request_attempt outcome row rdb = Inr rdb')"
    using fail by (auto simp: record_mempool_request_failure_def split: option.splits)
  then consider "rdb' = rdb" | row where "rdb' = rdb\<lparr>request_attempts := request_attempts rdb @ [row]\<rparr>"
      "rqa_sync_run_id row \<in> sr_id ` set (sync_runs rdb)"
    by (auto simp: record_request_attempt_def split: if_splits)
  then show ?thesis using ok by cases (simp_all add: raw_ok_defs)
qed

subsection \<open>Repairing heads\<close>

text \<open>A candidate supersedes the last version of its line; the candidates of a repair are of different lines.\<close>

definition supersedes_last :: "RawDb \<Rightarrow> LegacyMempoolHeadRepairCandidate \<Rightarrow> bool" where
  "supersedes_last rdb lc \<longleftrightarrow>
     last_id (versions_of (raw_mempool_versions rdb) (lc_source_connection_id lc) (lc_txid lc)) = Some (lc_current_head_raw_version_id lc) \<and>
     tx_hash_parse (lc_txid lc) = Inr (lc_txid lc) \<and> lc_payload_bytes lc \<noteq> []"

definition line_of :: "LegacyMempoolHeadRepairCandidate \<Rightarrow> string \<times> TxHash" where
  "line_of lc = (lc_source_connection_id lc, lc_txid lc)"

lemma repair_fold:
  assumes ids: "canonical_ids env ids"
  shows "versions_ok env rdb \<Longrightarrow> list_all (supersedes_last rdb) (map snd items) \<Longrightarrow> distinct (map (line_of \<circ> snd) items) \<Longrightarrow>
    res_fold (repair_head env c ids) rdb items = Inr rdb' \<Longrightarrow> versions_ok env rdb' \<and> ingest_frame rdb rdb'"
proof (induction items arbitrary: rdb)
  case (Cons item items)
  obtain i lc where item: "item = (i, lc)" by (cases item)
  from Cons.prems(4) obtain rdb1 where one: "repair_head env c ids rdb (i, lc) = Inr rdb1"
    and rest: "res_fold (repair_head env c ids) rdb1 items = Inr rdb'" by (auto simp: item)
  have lc: "supersedes_last rdb lc" using Cons.prems(2) by (simp add: item)
  obtain v where rdb1: "rdb1 = rdb\<lparr>raw_mempool_versions := raw_mempool_versions rdb @ [v]\<rparr>"
    and fresh: "rv_id v \<notin> rv_id ` set (raw_mempool_versions rdb)"
    and source: "rv_source_connection_id v \<in> scn_id ` set (source_connections rdb)"
    and v: "rv_id v = ids i" "rv_source_connection_id v = lc_source_connection_id lc" "rv_txid v = lc_txid lc"
      "rv_payload_bytes v = lc_payload_bytes lc" "rv_supersedes_raw_version_id v = Some (lc_current_head_raw_version_id lc)"
    using one unfolding repair_head_def prod.case put_version_Inr by fastforce
  have ok1: "versions_ok env rdb1"
    unfolding rdb1 using Cons.prems(1) lc fresh ids v
    by (intro versions_ok_snoc) (simp_all add: version_row_ok_def supersedes_last_def canonical_ids_def)
  have "supersedes_last rdb1 lc'" if "supersedes_last rdb lc'" and "line_of lc' \<noteq> line_of lc" for lc'
    using that v by (auto simp: supersedes_last_def line_of_def rdb1 versions_of_single is_version_of_def)
  moreover have "list_all (\<lambda>lc'. supersedes_last rdb lc' \<and> line_of lc' \<noteq> line_of lc) (map snd items)"
    using Cons.prems(2,3) by (force simp: list_all_iff item)
  ultimately have "list_all (supersedes_last rdb1) (map snd items)" by (auto simp: list_all_iff)
  from Cons.IH [OF ok1 this _ rest] Cons.prems(3) have "versions_ok env rdb' \<and> ingest_frame rdb1 rdb'" by simp
  moreover have "ingest_frame rdb rdb1" using rdb1 source by (intro ingest_frame_versions) auto
  ultimately show ?case using ingest_frame_trans by blast
qed simp

lemma in_observed_with_heads:
  "(q, v, h) \<in> set (observed_with_heads rdb) \<longleftrightarrow>
     q \<in> set (raw_mempool_observations rdb) \<and> v \<in> set (raw_mempool_versions rdb) \<and> h \<in> set (raw_mempool_versions rdb) \<and>
     rv_id v = rmo_raw_version_id q \<and> is_head rdb h \<and> rv_source_connection_id h = rmo_source_connection_id q \<and> rv_txid h = rv_txid v"
  by (auto simp: observed_with_heads_def)

lemma latest_observed_unique:
  assumes ok: "raw_ok env rdb"
    and r1: "(q1, v1, h1) \<in> set (observed_with_heads rdb)" "is_latest_observed rdb (q1, v1, h1)"
    and r2: "(q2, v2, h2) \<in> set (observed_with_heads rdb)" "is_latest_observed rdb (q2, v2, h2)"
    and key: "rmo_source_connection_id q1 = rmo_source_connection_id q2" "rv_txid v1 = rv_txid v2"
  shows "(q1, v1, h1) = (q2, v2, h2)"
proof -
  have "\<not> later_observation q2 q1" "\<not> later_observation q1 q2"
    using r1 r2 key by (auto simp: is_latest_observed_def list_ex_iff)
  then have "rmo_id q1 = rmo_id q2" unfolding later_observation_def by (metis linorder_neqE prod.inject)
  moreover have "inj_on rmo_id (set (raw_mempool_observations rdb))"
    using ok by (simp add: raw_ok_defs distinct_map)
  ultimately have q: "q1 = q2" using r1 r2 by (auto simp: in_observed_with_heads inj_on_def)
  have lines: "lines_ok (raw_mempool_versions rdb)" using ok by (simp add: raw_ok_defs)
  then have v: "v1 = v2" using r1 r2 q by (intro same_id) (auto simp: in_observed_with_heads)
  have "h1 = h2"
  proof -
    have "h \<in> set (versions_of (raw_mempool_versions rdb) (rmo_source_connection_id q1) (rv_txid v1)) \<and> is_head rdb h"
      if "h = h1 \<or> h = h2" for h
      using that r1 r2 key by (auto simp: in_observed_with_heads in_versions_of is_version_of_def)
    then show ?thesis using head_iff_last [OF lines] by metis
  qed
  with q v show ?thesis by simp
qed

lemma repair_candidate_line:
  assumes ok: "raw_ok env rdb" and row: "(q, v, h) \<in> set (observed_with_heads rdb)"
    and cand: "repair_candidate env (q, v, h) = Inr lc"
  shows "supersedes_last rdb lc \<and> line_of lc = (rmo_source_connection_id q, rv_txid v)"
proof -
  have lines: "lines_ok (raw_mempool_versions rdb)" using ok by (simp add: raw_ok_defs)
  have rows: "version_row_ok env v" "version_row_ok env h"
    using ok row by (auto simp: raw_ok_defs list_all_iff in_observed_with_heads)
  have "rv_source_connection_id ` set (raw_mempool_versions rdb) \<subseteq> scn_id ` set (source_connections rdb)"
    using ok by (simp add: raw_ok_def runs_ok_def)
  moreover have "h \<in> set (raw_mempool_versions rdb)" "rv_source_connection_id h = rmo_source_connection_id q"
    using row by (simp_all add: in_observed_with_heads)
  ultimately obtain s where s: "s \<in> set (source_connections rdb)" "scn_id s = rmo_source_connection_id q"
    by (metis imageE image_eqI subsetD)
  then have "source_connection_id_parse (rmo_source_connection_id q) = Inr (rmo_source_connection_id q)"
    using ok unfolding raw_ok_def connections_ok_def list_all_iff by metis
  then have lc: "lc_source_connection_id lc = rmo_source_connection_id q" "lc_txid lc = rv_txid v"
      "lc_current_head_raw_version_id lc = rv_id h" "lc_payload_bytes lc = rv_payload_bytes v"
    using cand rows by (auto simp: repair_candidate_def version_row_ok_def)
  have "h \<in> set (versions_of (raw_mempool_versions rdb) (rmo_source_connection_id q) (rv_txid v))"
    using row by (auto simp: in_observed_with_heads in_versions_of is_version_of_def)
  moreover from this have "h = last (versions_of (raw_mempool_versions rdb) (rmo_source_connection_id q) (rv_txid v))"
    using head_iff_last [OF lines] row by (auto simp: in_observed_with_heads)
  ultimately have "last_id (versions_of (raw_mempool_versions rdb) (rmo_source_connection_id q) (rv_txid v)) = Some (rv_id h)"
    by (auto simp: last_id_def)
  then show ?thesis using rows lc by (simp add: supersedes_last_def line_of_def version_row_ok_def)
qed

lemma repair_ok:
  assumes ok: "raw_ok env rdb" and ids: "canonical_ids env ids"
    and repair: "repair_legacy_mempool_head_rebuild_contract env c ids rdb = Inr (n, rdb')"
  shows "raw_ok env rdb' \<and> (\<exists>new. raw_mempool_versions rdb' = raw_mempool_versions rdb @ new)"
proof -
  let ?rows = "filter (\<lambda>row. is_latest_observed rdb row \<and> (case row of (q, v, h) \<Rightarrow> rv_payload_bytes v \<noteq> rv_payload_bytes h))
      (observed_with_heads rdb)"
  let ?key = "\<lambda>(q, v, h). (rmo_source_connection_id q, rv_txid v)"
  obtain cands where cands: "list_all2 (\<lambda>row lc. repair_candidate env row = Inr lc) ?rows cands"
    and fold: "res_fold (repair_head env c ids) rdb (List.enumerate 0 cands) = Inr rdb'"
    using repair
    by (auto simp: repair_legacy_mempool_head_rebuild_contract_def load_legacy_mempool_head_repair_candidates_tx_def
        res_mapM_Inr_iff split: if_splits)
  have lines: "lines_ok (raw_mempool_versions rdb)" "distinct (raw_mempool_observations rdb)"
    using ok by (auto simp: raw_ok_defs distinct_map)
  then have "distinct (raw_mempool_versions rdb)" by (simp add: lines_ok_def distinct_map)
  with lines(2) have "distinct ?rows" by (simp add: observed_with_heads_def distinct_product)
  moreover have "inj_on ?key (set ?rows)"
  proof (rule inj_onI)
    fix r1 r2 assume rows: "r1 \<in> set ?rows" "r2 \<in> set ?rows" "?key r1 = ?key r2"
    obtain q1 v1 h1 where r1: "r1 = (q1, v1, h1)" by (rule prod_cases3)
    obtain q2 v2 h2 where r2: "r2 = (q2, v2, h2)" by (rule prod_cases3)
    show "r1 = r2" unfolding r1 r2
      by (rule latest_observed_unique [OF ok]) (use rows in \<open>simp_all add: r1 r2\<close>)
  qed
  ultimately have keys: "distinct (map ?key ?rows)" by (simp only: distinct_map simp_thms)
  have "list_all2 (\<lambda>row lc. supersedes_last rdb lc \<and> line_of lc = ?key row) ?rows cands"
    using cands by (rule list.rel_mono_strong) (auto dest: repair_candidate_line [OF ok])
  then have "list_all (supersedes_last rdb) cands" and "map line_of cands = map ?key ?rows"
    by (auto simp: list_all2_conv_all_nth list_all_length intro: nth_equalityI)
  with keys have "list_all (supersedes_last rdb) (map snd (List.enumerate 0 cands))"
      "distinct (map (line_of \<circ> snd) (List.enumerate 0 cands))"
    by (simp_all only: map_map [symmetric] map_snd_enumerate)
  with repair_fold [OF ids _ _ _ fold] ok have "versions_ok env rdb'" and frame: "ingest_frame rdb rdb'"
    by (simp_all add: raw_ok_def)
  then have "raw_ok env rdb'" by (intro raw_ok_frame [OF ok])
  with frame show ?thesis by (auto simp: ingest_frame_def)
qed

subsection \<open>Every history of operations\<close>

inductive raw_step :: "Env \<Rightarrow> RawCodec \<Rightarrow> RawDb \<Rightarrow> RawDb \<Rightarrow> bool" for env c where
  connect: "source_connection_id_parse new_id = Inr new_id \<Longrightarrow>
    ensure_source_connection_for_address_tx env new_id address_id asset_id network key now rdb = Inr (i, rdb') \<Longrightarrow>
    raw_step env c rdb rdb'"
| disconnect: "deactivate_source_connection_for_address_tx env address_id now rdb = Inr rdb' \<Longrightarrow> raw_step env c rdb rdb'"
| start: "start_sync_run env new_id rq rdb = Inr (s, rdb') \<Longrightarrow> raw_step env c rdb rdb'"
| complete: "complete_sync_run env cq rdb = Inr rdb' \<Longrightarrow> raw_step env c rdb rdb'"
| ingest: "canonical_ids env (fi_version ids) \<Longrightarrow> ingest_mempool_page env c ids prq page rdb = (r, rdb') \<Longrightarrow>
    raw_step env c rdb rdb'"
| request_failure: "record_mempool_request_failure env c frq err rdb = Inr rdb' \<Longrightarrow> raw_step env c rdb rdb'"
| cleanup: "cleanup_raw_sync_history env completed days rdb = Inr (stats, rdb') \<Longrightarrow> raw_step env c rdb rdb'"
| repair: "canonical_ids env new_ids \<Longrightarrow> repair_legacy_mempool_head_rebuild_contract env c new_ids rdb = Inr (n, rdb') \<Longrightarrow>
    raw_step env c rdb rdb'"

definition empty_raw_db :: RawDb where
  "empty_raw_db =
     \<lparr>source_connections = [], sync_runs = [], request_attempts = [], raw_observation_sets = [], raw_parse_attempts = [],
      raw_mempool_versions = [], raw_mempool_observations = [], raw_etherscan_normal_observation_runs = [],
      raw_etherscan_internal_observation_runs = []\<rparr>"

lemma raw_step_ok: "raw_ok env rdb \<Longrightarrow> raw_step env c rdb rdb' \<Longrightarrow> raw_ok env rdb'"
  by (erule raw_step.cases)
    (auto dest: ensure_connection_ok deactivate_connection_ok start_run_ok complete_run_ok ingest_ok request_failure_ok
       cleanup_ok repair_ok)

lemma raw_ok_empty: "raw_ok env empty_raw_db"
  by (simp add: raw_ok_defs empty_raw_db_def lines_ok_def connection_addresses_def)

interpretation raw_tables: state_machine "\<lambda>rdb. rdb = empty_raw_db" "raw_step env c" "raw_ok env" for env c
  by unfold_locales (simp_all add: raw_ok_empty raw_step_ok)

lemma raw_step_versions:
  assumes ok: "raw_ok env rdb" and step: "raw_step env c rdb rdb'"
  shows "\<exists>new. raw_mempool_versions rdb' = raw_mempool_versions rdb @ new"
  using step
proof cases
  case connect
  then have "raw_mempool_versions rdb' = raw_mempool_versions rdb"
    by (auto simp: ensure_source_connection_for_address_tx_def Let_def put_connections_Inr split: option.splits if_splits)
  then show ?thesis by simp
next
  case disconnect
  then have "raw_mempool_versions rdb' = raw_mempool_versions rdb"
    by (auto simp: deactivate_source_connection_for_address_tx_def Let_def put_connections_Inr)
  then show ?thesis by simp
next
  case start
  then have "raw_mempool_versions rdb' = raw_mempool_versions rdb"
    by (auto simp: start_sync_run_def Let_def split: if_splits)
  then show ?thesis by simp
next
  case complete
  then have "raw_mempool_versions rdb' = raw_mempool_versions rdb"
    by (auto simp: complete_sync_run_def Let_def split: if_splits)
  then show ?thesis by simp
qed (use ok in \<open>auto dest: ingest_ok request_failure_ok cleanup_ok repair_ok\<close>)

lemma raw_run_versions:
  assumes run: "(raw_step env c)\<^sup>*\<^sup>* rdb rdb'" and ok: "raw_ok env rdb"
  shows "\<exists>new. raw_mempool_versions rdb' = raw_mempool_versions rdb @ new"
  using run
proof (induction rule: rtranclp_induct)
  case (step s t)
  then have "raw_ok env s" using raw_tables.run_inv ok by blast
  with step raw_step_versions show ?case by (metis append_assoc)
qed simp

lemma filter_last:
  assumes "distinct vs" and "vs \<noteq> []" and "\<And>v. v \<in> set vs \<Longrightarrow> P v \<longleftrightarrow> v = last vs"
  shows "filter P vs = [last vs]"
  using assms
proof (induction vs rule: rev_induct)
  case (snoc v vs)
  then have "filter P vs = []" by (auto simp: filter_empty_conv)
  with snoc.prems show ?case by simp
qed simp

text \<open>
  C31. Whatever the connections, runs, ingestions, failures, cleanups and repairs: a version once stored is stored for ever. The
  versions of its transaction on its connection are one line, each superseding the one stored before it; exactly one of
  them is a head, the last, and it is the head that is read.
\<close>

theorem raw_history_one_line:
  assumes run: "(raw_step env c)\<^sup>*\<^sup>* empty_raw_db rdb" and later: "(raw_step env c)\<^sup>*\<^sup>* rdb rdb'"
    and v: "v \<in> set (raw_mempool_versions rdb)"
  shows "let vs = versions_of (raw_mempool_versions rdb') (rv_source_connection_id v) (rv_txid v) in
    v \<in> set vs \<and> is_line vs \<and> filter (is_head rdb') vs = [last vs] \<and>
    load_current_raw_mempool_tx_head env rdb' (rv_source_connection_id v) (rv_txid v) =
      Inr (Some \<lparr>ch_raw_version_id = rv_id (last vs), ch_txid = rv_txid v, ch_payload_bytes = rv_payload_bytes (last vs)\<rparr>)"
proof -
  let ?vs = "versions_of (raw_mempool_versions rdb') (rv_source_connection_id v) (rv_txid v)"
  have "raw_ok env rdb" using run raw_ok_empty raw_tables.run_inv by blast
  moreover from this have ok: "raw_ok env rdb'" using later raw_tables.run_inv by blast
  ultimately have "v \<in> set (raw_mempool_versions rdb')" using raw_run_versions [OF later] v by auto
  then have mem: "v \<in> set ?vs" by (simp add: in_versions_of is_version_of_def)
  have versions: "versions_ok env rdb'" and lines: "lines_ok (raw_mempool_versions rdb')"
    using ok by (simp_all add: raw_ok_defs)
  then have "is_line ?vs" and d: "distinct ?vs" by (auto simp: lines_ok_iff versions_of_def distinct_map)
  moreover have "filter (is_head rdb') ?vs = [last ?vs]"
    using mem by (intro filter_last [OF d _ head_iff_last [OF lines]]) auto
  moreover have "?vs \<noteq> []" using mem by auto
  ultimately show ?thesis using mem load_head [OF versions] by (simp add: Let_def)
qed

text \<open>An address is connected, a page is ingested, and later the page again with another payload of its transaction. The run of the
  pages is unknown, so that the pages are refused; their versions stay.\<close>

definition sample_txid :: TxHash where
  "sample_txid = replicate 64 (CHR ''a'')"

definition sample_codec :: RawCodec where
  "sample_codec =
     \<lparr>rc_parse_page_metadata = (\<lambda>_. None), rc_page_metadata_json = (\<lambda>_. Inr ''{}''), rc_json_is_object = (\<lambda>_. Inr True),
      rc_json_text = (\<lambda>_ _. None),
      rc_parse_payload = (\<lambda>_. Inr \<lparr>mt_txid = sample_txid, mt_vin = [], mt_vout = [], mt_fee = None,
        mt_status = \<lparr>ms_confirmed = True, ms_block_height = Some 1, ms_block_hash = None, ms_block_time = None\<rparr>\<rparr>),
      rc_sha256_hex = (\<lambda>_. []), rc_parse_url = Inr, rc_from_utf8_lossy = (\<lambda>_. [])\<rparr>"

definition sample_connection :: SourceConnectionRow where
  "sample_connection = new_connection_row ''c'' ''a'' IkMempool Mainnet ''b'' ''t''"

definition sample_version :: "ulid \<Rightarrow> ulid option \<Rightarrow> u8 \<Rightarrow> RawMempoolVersionRow" where
  "sample_version i superseded payload =
     \<lparr>rv_id = i, rv_source_connection_id = ''c'', rv_network = ''mainnet'', rv_txid = sample_txid,
      rv_payload_hash_sha256_hex = [], rv_payload_bytes = [payload], rv_first_observed_at = ''t'',
      rv_supersedes_raw_version_id = superseded, rv_created_at = ''t''\<rparr>"

definition sample_rq :: MempoolPageIngestionRequest where
  "sample_rq =
     \<lparr>pi_raw_sync_run_id = ''r'', pi_source_connection_id = ''c'', pi_scope_address_id = ''a'', pi_page_kind = FirstPage,
      pi_page_cursor = None, pi_scan_start_run_id = None, pi_network = Mainnet, pi_observed_at = 0\<rparr>"

definition sample_ids :: "ulid \<Rightarrow> FreshIds" where
  "sample_ids i = \<lparr>fi_candidate = (\<lambda>_. i), fi_version = (\<lambda>_. i), fi_set = ''s'', fi_observation = (\<lambda>_. i)\<rparr>"

definition sample_page :: "u8 \<Rightarrow> MempoolTransactionPage" where
  "sample_page payload =
     \<lparr>tp_request_url = ''u'', tp_http_status_code = 200,
      tp_transactions = [\<lparr>pt_txid = sample_txid, pt_payload_bytes = [payload]\<rparr>]\<rparr>"

definition sample_raw :: "RawMempoolVersionRow list \<Rightarrow> RawDb" where
  "sample_raw vs = empty_raw_db\<lparr>source_connections := [sample_connection], raw_mempool_versions := vs\<rparr>"

lemma tx_hash_parse_sample: "tx_hash_parse sample_txid = Inr sample_txid"
proof -
  have "is_ascii_hexdigit (CHR ''a'')" "ascii_lowercase (CHR ''a'') = CHR ''a''"
    by (simp_all add: is_ascii_hexdigit_def ascii_lowercase_def)
  then have "list_all is_ascii_hexdigit sample_txid" and "map ascii_lowercase sample_txid = sample_txid"
    by (simp_all only: sample_txid_def list_all_iff set_replicate map_replicate) simp_all
  moreover have "length sample_txid = 64" by (simp only: sample_txid_def length_replicate)
  ultimately show ?thesis by (simp add: tx_hash_parse_def str_trim_hex)
qed

lemmas sample_defs = sample_raw_def empty_raw_db_def sample_connection_def new_connection_row_def sample_version_def
  sample_codec_def sample_env_def sample_rq_def sample_ids_def sample_page_def

lemma sample_version_fields [simp]:
  "rv_source_connection_id (sample_version i superseded payload) = ''c''"
  "rv_txid (sample_version i superseded payload) = sample_txid"
  by (simp_all add: sample_version_def)

lemma sample_connects: "raw_step sample_env sample_codec empty_raw_db (sample_raw [])"
proof (rule raw_step.connect)
  show "source_connection_id_parse ''c'' = Inr ''c''"
    by (simp add: source_connection_id_parse_def non_empty_text_def str_trim_hex is_ascii_hexdigit_def)
  show "ensure_source_connection_for_address_tx sample_env ''c'' ''a'' Bitcoin Mainnet ''b'' 0 empty_raw_db =
      Inr (''c'', sample_raw [])"
    by (simp add: ensure_source_connection_for_address_tx_def sample_defs put_connections_def connection_row_ok_def
        connection_addresses_def List.map_filter_simps str_trim_hex is_ascii_hexdigit_def Let_def)
qed

lemma sample_ingest:
  assumes "load_current_raw_mempool_tx_head sample_env (sample_raw vs) ''c'' sample_txid = Inr (map_option
      (\<lambda>v. \<lparr>ch_raw_version_id = rv_id v, ch_txid = sample_txid, ch_payload_bytes = rv_payload_bytes v\<rparr>) head)"
    and "(case head of None \<Rightarrow> True | Some v \<Rightarrow> v \<in> set vs \<and> rv_payload_bytes v \<noteq> [payload])" and "i \<notin> rv_id ` set vs"
  shows "raw_step sample_env sample_codec (sample_raw vs) (sample_raw (vs @ [sample_version i (map_option rv_id head) payload]))"
proof -
  have "canonical_ids sample_env (fi_version (sample_ids i))" by (simp add: canonical_ids_def sample_env_def)
  moreover have "snd (ingest_mempool_page sample_env sample_codec (sample_ids i) sample_rq (sample_page payload) (sample_raw vs)) =
      sample_raw (vs @ [sample_version i (map_option rv_id head) payload])"
  proof -
    have parse: "parse_persisted_raw_mempool_transaction sample_codec i sample_txid [payload] =
        rc_parse_payload sample_codec [payload]"
      by (simp add: parse_persisted_raw_mempool_transaction_def sample_codec_def tx_hash_parse_sample)
    have codec: "rc_parse_url sample_codec u = Inr u" "rc_sha256_hex sample_codec b = []"
        "\<exists>tx. rc_parse_payload sample_codec b = Inr tx" for u b by (simp_all add: sample_codec_def)
    then obtain tx where tx: "rc_parse_payload sample_codec [payload] = Inr tx" by blast
    have insert: "insert_raw_mempool_tx_version sample_env i
        \<lparr>iv_source_connection_id = ''c'', iv_network = Mainnet, iv_txid = sample_txid, iv_payload_hash_sha256_hex = [],
         iv_payload_bytes = [payload], iv_first_observed_at = 0\<rparr> (sample_raw vs) =
        Inr (\<lparr>ir_raw_version_id = i, ir_write_outcome = InsertedNewHead\<rparr>,
          sample_raw (vs @ [sample_version i (map_option rv_id head) payload]))"
      using assms
      by (cases head) (auto simp: insert_raw_mempool_tx_version_def put_version_def sample_defs)
    show ?thesis
      by (simp add: ingest_mempool_page_def sample_page_def sample_ids_def sample_rq_def exact_payload_try_new_def parse insert codec tx
          http_status_code_try_new_def word_le_nat_alt)
        (simp add: record_raw_mempool_page_observation_def raw_observation_metadata_parse_def insert_raw_observation_set_tx_def
          non_empty_text_def sample_defs Let_def)
  qed
  ultimately show ?thesis by (metis prod.collapse raw_step.ingest)
qed

lemma sample_first_page:
  "raw_step sample_env sample_codec (sample_raw []) (sample_raw [sample_version ''1'' None 1])"
  using sample_ingest [of "[]" None 1 "''1''"] by (simp add: load_current_raw_mempool_tx_head_def sample_raw_def)

lemma sample_second_page:
  "raw_step sample_env sample_codec (sample_raw [sample_version ''1'' None 1])
     (sample_raw [sample_version ''1'' None 1, sample_version ''2'' (Some ''1'') 2])"
  using sample_ingest [of "[sample_version ''1'' None 1]" "Some (sample_version ''1'' None 1)" 2 "''2''"]
  by (simp add: load_current_raw_mempool_tx_head_def sample_defs is_head_def read_head_def tx_hash_parse_sample exact_payload_try_new_def)

theorem raw_history_one_line_witness:
  "load_current_raw_mempool_tx_head sample_env (sample_raw [sample_version ''1'' None 1, sample_version ''2'' (Some ''1'') 2])
     ''c'' (sample_txid) =
     Inr (Some \<lparr>ch_raw_version_id = ''2'', ch_txid = sample_txid, ch_payload_bytes = [2]\<rparr>)"
proof -
  let ?vs = "[sample_version ''1'' None 1, sample_version ''2'' (Some ''1'') 2]"
  have all: "versions_of (raw_mempool_versions (sample_raw ?vs)) ''c'' sample_txid = ?vs"
    by (simp add: sample_raw_def versions_of_def is_version_of_def sample_version_def)
  have "sample_version ''1'' None 1 \<in> set (raw_mempool_versions (sample_raw [sample_version ''1'' None 1]))"
    by (simp add: sample_raw_def)
  from raw_history_one_line [OF _ r_into_rtranclp [of "raw_step sample_env sample_codec", OF sample_second_page] this]
    sample_connects sample_first_page
  have "load_current_raw_mempool_tx_head sample_env (sample_raw ?vs) ''c'' sample_txid =
      Inr (Some \<lparr>ch_raw_version_id = rv_id (last ?vs), ch_txid = sample_txid, ch_payload_bytes = rv_payload_bytes (last ?vs)\<rparr>)"
    by (simp add: Let_def all rtranclp.rtrancl_into_rtrancl [OF r_into_rtranclp])
  then show ?thesis by (simp add: sample_version_def)
qed

end
