(* ===== verification/Mempool_Scan.thy ===== *)
theory Mempool_Scan
  imports Raw_Lineage
begin

section \<open>When the pages of a scan prove a history complete\<close>

text \<open>
  The validation of a strict history scan, \<open>src/src/db/transaction_sync/mempool_history.rs\<close>, with the query for the confirmed
  transactions of an address of \<open>address_loading.rs\<close>. A scan asked the provider for one page of an address after the other;
  each page was recorded with the cursor it was asked for and the one it returned. The validation reads the recorded pages,
  links each to the page that asked for its cursor, walks the links from the first page, and compares the confirmed
  transactions it meets with the provider's count and with the stored transactions. The evidence is untrusted: whatever is
  wrong with it is a reason to restart the scan. The reasons are constants shorter than 512 bytes, which are not cut.
\<close>

datatype StrictMempoolScanValidation = ScanExact | ScanRestart string

record PageObservation =
  po_metadata :: MempoolPageObservationMetadata
  po_requested_cursor :: "TxHash option"
  po_returned_cursor :: "TxHash option"
  po_confirmed_txids :: "TxHash list"
  po_membership_count :: nat

definition restart :: "string \<Rightarrow> StrictMempoolScanValidation" where
  "restart reason = ScanRestart (the (sync_error_sanitize reason))"

definition parse_cursor :: "string option \<Rightarrow> StrictMempoolScanValidation + TxHash option" where
  "parse_cursor raw =
     res_option_map (\<lambda>value. map_err (\<lambda>_. restart ''Mempool scan evidence has an invalid cursor'') (tx_hash_parse value)) raw"

subsection \<open>Reading a page\<close>

text \<open>The join of the observations of a page with their versions, in the order of the items.\<close>

definition page_memberships :: "RawDb \<Rightarrow> ulid \<Rightarrow> (string \<times> u8 list \<times> int) list" where
  "page_memberships rdb set_id =
     [(rv_txid v, rv_payload_bytes v, rmo_page_item_index q).
        q \<leftarrow> sort_key rmo_page_item_index (filter (\<lambda>q. rmo_raw_observation_set_id q = set_id) (raw_mempool_observations rdb)),
        v \<leftarrow> raw_mempool_versions rdb, rv_id v = rmo_raw_version_id q]"

definition i64_or_max :: "nat \<Rightarrow> int" where
  "i64_or_max n = (case i64_try_from (int n) of Some i \<Rightarrow> i | None \<Rightarrow> 2 ^ 63 - 1)"

fun read_membership ::
  "RawCodec \<Rightarrow> TxHash list \<times> TxHash option \<times> nat \<Rightarrow> string \<times> u8 list \<times> int \<Rightarrow>
     StrictMempoolScanValidation + TxHash list \<times> TxHash option \<times> nat" where
  "read_membership c (confirmed_txids, last_confirmed, seen) (txid_raw, payload, page_item_index) =
     (if page_item_index \<noteq> i64_or_max seen
      then Inl (restart ''Mempool scan evidence has non-contiguous page membership'')
      else
        res_bind (map_err (\<lambda>_. restart ''Mempool scan evidence has an invalid transaction id'') (tx_hash_parse txid_raw)) (\<lambda>txid.
        res_bind (map_err (\<lambda>_. restart ''Mempool scan evidence has an invalid transaction payload'') (rc_parse_payload c payload)) (\<lambda>transaction.
        res_bind (map_err (\<lambda>_. restart ''Mempool scan evidence payload has an invalid transaction id'') (tx_hash_parse (mt_txid transaction)))
          (\<lambda>payload_txid.
        if payload_txid \<noteq> txid then Inl (restart ''Mempool scan evidence transaction ids do not match'')
        else if ms_confirmed (mt_status transaction) then Inr (confirmed_txids @ [txid], Some txid, Suc seen)
        else Inr (confirmed_txids, last_confirmed, Suc seen)))))"

definition load_page_observation ::
  "Env \<Rightarrow> RawCodec \<Rightarrow> RawDb \<Rightarrow> string \<Rightarrow> string \<Rightarrow> ulid \<Rightarrow> ulid \<Rightarrow> StrictMempoolScanValidation + PageObservation" where
  "load_page_observation env c rdb id_raw metadata_raw address_id start_run_id =
     res_bind (map_err (\<lambda>_. restart ''Mempool scan evidence has an invalid page id'') (env_parse_ulid env id_raw)) (\<lambda>set_id.
     res_bind (ok_or (restart ''Mempool scan evidence has invalid page metadata'') (rc_parse_page_metadata c metadata_raw)) (\<lambda>metadata.
     if md_address_id metadata \<noteq> address_id \<or> md_scan_start_run_id metadata \<noteq> Some start_run_id
     then Inl (restart ''Mempool scan evidence does not match the requested scan'')
     else
       res_bind (parse_cursor (md_requested_cursor metadata)) (\<lambda>requested_cursor.
       res_bind (parse_cursor (md_returned_last_confirmed_cursor metadata)) (\<lambda>returned_cursor.
       res_bind (res_fold (read_membership c) ([], None, 0) (page_memberships rdb set_id)) (\<lambda>(confirmed_txids, last_confirmed, seen).
       if unat (md_item_count metadata) \<noteq> seen
       then Inl (restart ''Mempool scan evidence page count does not match its memberships'')
       else if returned_cursor \<noteq> last_confirmed
       then Inl (restart ''Mempool scan evidence cursor does not match the last confirmed transaction'')
       else Inr \<lparr>po_metadata = metadata, po_requested_cursor = requested_cursor, po_returned_cursor = returned_cursor,
                 po_confirmed_txids = confirmed_txids, po_membership_count = seen\<rparr>)))))"

definition scan_page_rows :: "RawCodec \<Rightarrow> RawDb \<Rightarrow> ulid \<Rightarrow> ulid \<Rightarrow> RawObservationSetRow list" where
  "scan_page_rows c rdb address_id start_run_id =
     sort_key (\<lambda>s. (ros_observed_at s, ros_created_at s, ros_id s))
       (filter (\<lambda>s. ros_grouping_kind s = MEMPOOL_PAGE_GROUPING \<and>
          rc_json_text c (ros_grouping_metadata_json s) ''$.address_id'' = Some address_id \<and>
          rc_json_text c (ros_grouping_metadata_json s) ''$.scan_start_run_id'' = Some start_run_id) (raw_observation_sets rdb))"

definition load_scan_pages :: "Env \<Rightarrow> RawCodec \<Rightarrow> RawDb \<Rightarrow> ulid \<Rightarrow> ulid \<Rightarrow> StrictMempoolScanValidation + PageObservation list" where
  "load_scan_pages env c rdb address_id start_run_id =
     res_mapM (\<lambda>s. load_page_observation env c rdb (ros_id s) (ros_grouping_metadata_json s) address_id start_run_id)
       (scan_page_rows c rdb address_id start_run_id)"

subsection \<open>Linking and walking the pages\<close>

definition is_first_page :: "PageObservation \<Rightarrow> bool" where
  "is_first_page page \<longleftrightarrow> md_page_kind (po_metadata page) = FirstPage \<and> po_requested_cursor page = None"

definition first_pages :: "PageObservation list \<Rightarrow> nat list" where
  "first_pages pages = filter (\<lambda>i. is_first_page (pages ! i)) [0..<length pages]"

definition link_page ::
  "PageObservation list \<Rightarrow> nat \<Rightarrow> (TxHash \<times> nat) list \<Rightarrow> nat \<Rightarrow> StrictMempoolScanValidation + (TxHash \<times> nat) list" where
  "link_page pages first successors i =
     (if i = first then Inr successors
      else if md_page_kind (po_metadata (pages ! i)) \<noteq> PaginatedAfterConfirmed
      then Inl (restart ''Mempool scan evidence contains an invalid page kind'')
      else case po_requested_cursor (pages ! i) of
             None \<Rightarrow> Inl (restart ''Mempool scan evidence contains a page without its requested cursor'')
           | Some requested \<Rightarrow>
               if map_of successors requested \<noteq> None
               then Inl (restart ''Mempool scan evidence contains duplicate cursor successors'')
               else Inr ((requested, i) # successors))"

definition link_pages :: "PageObservation list \<Rightarrow> nat \<Rightarrow> StrictMempoolScanValidation + (TxHash \<times> nat) list" where
  "link_pages pages first = res_fold (link_page pages first) [] [0..<length pages]"

definition singleton_duplicate_terminal :: "bool \<Rightarrow> TxHash list \<Rightarrow> PageObservation \<Rightarrow> bool" where
  "singleton_duplicate_terminal allow observed page \<longleftrightarrow>
     allow \<and> po_membership_count page = 1 \<and> po_requested_cursor page = po_returned_cursor page \<and>
     (case po_requested_cursor page of
        None \<Rightarrow> False
      | Some cursor \<Rightarrow>
          (case po_confirmed_txids page of [] \<Rightarrow> False | t # _ \<Rightarrow> t = cursor) \<and> cursor \<in> set observed)"

text \<open>Every step visits a page that was not visited, and pages are reached only through the links.\<close>

lemma walk_measure:
  assumes "current \<notin> set visited" and "map_of successors returned = Some next_page"
  shows "card (insert next_page (snd ` set successors) - set (current # visited)) <
    card (insert current (snd ` set successors) - set visited)"
proof (rule psubset_card_mono)
  have "next_page \<in> snd ` set successors" using assms(2) by (force dest: map_of_SomeD)
  then show "insert next_page (snd ` set successors) - set (current # visited) \<subset> insert current (snd ` set successors) - set visited"
    using assms(1) by auto
qed simp

function walk_pages ::
  "bool \<Rightarrow> PageObservation list \<Rightarrow> (TxHash \<times> nat) list \<Rightarrow> nat list \<Rightarrow> TxHash list \<Rightarrow> nat \<Rightarrow>
     StrictMempoolScanValidation + nat list \<times> TxHash list" where
  "walk_pages allow pages successors visited observed current =
     (if current \<in> set visited then Inl (restart ''Mempool scan evidence contains a cursor cycle'')
      else
        let page = pages ! current;
            observed' = fold btree_insert (po_confirmed_txids page) observed
        in case po_returned_cursor page of
             None \<Rightarrow>
               if md_item_count (po_metadata page) \<noteq> 0 \<or> po_membership_count page \<noteq> 0
               then Inl (restart ''Mempool scan evidence ended on a nonempty page'')
               else Inr (current # visited, observed')
           | Some returned \<Rightarrow>
               if po_requested_cursor page = Some returned
               then if singleton_duplicate_terminal allow observed page then Inr (current # visited, observed')
                    else Inl (restart ''Mempool scan evidence contains a non-advancing cursor'')
               else (case map_of successors returned of
                       None \<Rightarrow> Inl (restart ''Mempool scan evidence has a missing cursor link'')
                     | Some next_page \<Rightarrow> walk_pages allow pages successors (current # visited) observed' next_page))"
  by pat_completeness auto

termination
  by (relation "measure (\<lambda>(allow, pages, successors, visited, observed, current).
      card (insert current (snd ` set successors) - set visited))")
    (simp, simp only: in_measure prod.case, blast intro: walk_measure)

declare walk_pages.simps [simp del]

subsection \<open>Validating\<close>

definition load_confirmed_bitcoin_tx_hashes_for_address_conn :: "UserDb \<Rightarrow> ulid \<Rightarrow> DbError + TxHash set" where
  "load_confirmed_bitcoin_tx_hashes_for_address_conn db address_id =
     res_map set (res_mapM
       (\<lambda>raw. map_err (\<lambda>err. DbError (''Invalid bitcoin tx hash in DB: '' @ tx_hash_error_display err)) (tx_hash_parse raw))
       (btree_of_list (map ct_tx_hash (filter (\<lambda>ct. ct_asset_id ct = ''bitcoin'' \<and> ct_status ct = ''confirmed'' \<and>
          (list_ex (\<lambda>txo. txo_tx_id txo = ct_id ct \<and> txo_address_id txo = address_id) (transaction_outputs db) \<or>
           list_ex (\<lambda>ti. ti_tx_id ti = ct_id ct \<and> ti_address_id ti = address_id) (transaction_inputs db))) (chain_transactions db)))))"

definition validate_scan_pages ::
  "UserDb \<Rightarrow> PageObservation list \<Rightarrow> ulid \<Rightarrow> TransactionCount \<Rightarrow> bool \<Rightarrow> DbError + StrictMempoolScanValidation" where
  "validate_scan_pages db pages address_id expected_confirmed_count allow =
     (case first_pages pages of
        [first] \<Rightarrow>
          (case res_bind (link_pages pages first) (\<lambda>successors. walk_pages allow pages successors [] [] first) of
             Inl validation \<Rightarrow> Inr validation
           | Inr (visited, observed) \<Rightarrow>
               if length visited \<noteq> length pages then Inr (restart ''Mempool scan evidence contains an unlinked page'')
               else if length observed \<noteq> unat expected_confirmed_count
               then Inr (restart ''Mempool scan confirmed transaction count does not match the provider count'')
               else res_map (\<lambda>canonical.
                      if set observed \<noteq> canonical
                      then restart ''Mempool scan transactions do not exactly match canonical history'' else ScanExact)
                    (load_confirmed_bitcoin_tx_hashes_for_address_conn db address_id))
      | _ \<Rightarrow> Inr (restart ''Mempool scan evidence must contain exactly one first page''))"

definition validate_strict_mempool_history_scan ::
  "Env \<Rightarrow> RawCodec \<Rightarrow> RawDb \<Rightarrow> UserDb \<Rightarrow> ulid \<Rightarrow> ulid \<Rightarrow> TransactionCount \<Rightarrow> bool \<Rightarrow> DbError + StrictMempoolScanValidation" where
  "validate_strict_mempool_history_scan env c rdb db address_id start_run_id expected_confirmed_count allow =
     (if start_run_id \<notin> sr_id ` set (sync_runs rdb) then Inr (restart ''Mempool scan start evidence no longer exists'')
      else case load_scan_pages env c rdb address_id start_run_id of
             Inl validation \<Rightarrow> Inr validation
           | Inr pages \<Rightarrow> validate_scan_pages db pages address_id expected_confirmed_count allow)"

end
