(* ===== verification/Mempool_Iteration.thy ===== *)
theory Mempool_Iteration
  imports Mempool_Map Mempool_Scan
begin

section \<open>One iteration of the sync of a Bitcoin address\<close>

text \<open>
  \<open>src/src/tasks/jobs/sync/integrations/mempool/mod.rs\<close>: the first iteration asks the provider for the statistics of the
  address and decides from them and the stored proof what has to be fetched; every iteration fetches one page, keeps it as
  raw evidence, stores its transactions, moves the cursor, and publishes the proof of a complete history when the evidence
  suffices. The state is explicit: the user's database, the raw tables, the events sent to the user interface, the
  world (clocks, identifiers, the provider) and the state the integration keeps between its iterations. An action returns
  its result with the state after it; a panic is \<^term>\<open>None\<close>. Other holders of the database's lock act between the batches
  of a reconciliation only. What is logged is not modelled.
\<close>

subsection \<open>Actions\<close>

type_synonym ('s, 'a) action = "'s \<Rightarrow> ((UserTransactionMonitorError + 'a) \<times> 's) option"

definition act_return :: "'a \<Rightarrow> ('s, 'a) action" where
  "act_return a s = Some (Inr a, s)"

definition act_fail :: "UserTransactionMonitorError \<Rightarrow> ('s, 'a) action" where
  "act_fail err s = Some (Inl err, s)"

definition act_bind :: "('s, 'a) action \<Rightarrow> ('a \<Rightarrow> ('s, 'b) action) \<Rightarrow> ('s, 'b) action" where
  "act_bind m f s =
     (case m s of
        None \<Rightarrow> None
      | Some (Inl err, s') \<Rightarrow> Some (Inl err, s')
      | Some (Inr a, s') \<Rightarrow> f a s')"

definition act_lift :: "UserTransactionMonitorError + 'a \<Rightarrow> ('s, 'a) action" where
  "act_lift r s = Some (r, s)"

definition act_gets :: "('s \<Rightarrow> 'a) \<Rightarrow> ('s, 'a) action" where
  "act_gets f s = Some (Inr (f s), s)"

definition act_modify :: "('s \<Rightarrow> 's) \<Rightarrow> ('s, unit) action" where
  "act_modify f s = Some (Inr (), f s)"

definition act_when :: "bool \<Rightarrow> ('s, unit) action \<Rightarrow> ('s, unit) action" where
  "act_when b m = (if b then m else act_return ())"

definition act_map_err :: "(UserTransactionMonitorError \<Rightarrow> UserTransactionMonitorError) \<Rightarrow> ('s, 'a) action \<Rightarrow> ('s, 'a) action" where
  "act_map_err g m s = (case m s of Some (Inl err, s') \<Rightarrow> Some (Inl (g err), s') | r \<Rightarrow> r)"

subsection \<open>What an iteration acts on\<close>

record AddressStats =
  stats_tx_count :: TransactionCount
  stats_mempool_tx_count :: TransactionCount
  stats_confirmed_balance :: "UnsignedAmount option"

record MempoolRunSummary =
  mr_pages_fetched :: u32
  mr_items_seen :: u32
  mr_versions_inserted :: u32
  mr_versions_reused :: u32
  mr_parse_success_count :: u32
  mr_parse_failure_count :: u32
  mr_http_failure_count :: u32
  mr_transport_failure_count :: u32
  mr_duplicate_cursor_page_detected :: bool
  mr_backfill_active :: bool
  mr_backfill_complete :: bool
  mr_backfill_budget_exhausted :: bool
  mr_incremental_budget_exhausted :: bool
  mr_early_exit_known_confirmed :: bool

record SingleAddressProgressPlan =
  pp_account_id :: ulid
  pp_is_first_sync :: bool
  pp_expected_tx_count :: "TransactionCount option"
  pp_expected_tx_count_is_lower_bound :: "bool option"

record MempoolProgressEvent =
  pe_account_id :: ulid
  pe_for_integration :: bool
  pe_at :: time
  pe_is_first_sync :: bool
  pe_fetched_count :: TransactionCount
  pe_expected_count :: TransactionCount

record MempoolAccountProgressObservation =
  po_known_transaction_count :: TransactionCount
  po_approximate_unsynced_count :: TransactionCount

record MempoolAddressVisit =
  visit_stats :: AddressStats
  visit_tip_height :: int
  visit_account_progress :: "MempoolAccountProgressObservation option"

record MempoolIterationState =
  it_visit :: MempoolAddressVisit
  it_backfill_active :: bool
  it_proof_publication_allowed :: bool
  it_proof_published :: bool
  it_first_page_done :: bool
  it_cursor :: "string option"
  it_known_confirmed :: "string set"
  it_observed_confirmed_txids :: "string set"
  it_backfill_expected_tx_count :: "TransactionCount option"
  it_backfill_has_pending_transactions :: bool
  it_strict_scan_start_run_id :: "ulid option"
  it_run_summary :: MempoolRunSummary

record IntegrationIterationContext =
  ic_address :: SyncAddress
  ic_mempool_client :: bool
  ic_single_address_progress :: "SingleAddressProgressPlan option"
  ic_allow_known_confirmed_early_exit :: bool
  ic_chain_tip :: "int option"
  ic_raw_sync_run_id :: ulid
  ic_source_connection_id :: string
  ic_is_backfill_active :: bool
  ic_transaction_page_permitted :: bool
  ic_legacy_mempool_history_repair :: bool
  ic_mempool_history_page_frontier :: "HdMempoolHistoryFrontierUpdate option"

record 'x MempoolSystem =
  my_db :: UserDb
  my_raw :: RawDb
  my_events :: "MempoolProgressEvent list"
  my_world :: 'x

text \<open>While an iteration runs, the state of the integration is part of what it acts on.\<close>

record 'x MempoolRun = "'x MempoolSystem" +
  run_state :: MempoolIterationState

text \<open>The clock of the run and that of the database layer, new identifiers, the requests to the provider, calls into packages.\<close>

record 'x MempoolEnv =
  me_env :: Env
  me_codec :: RawCodec
  me_timestamp :: "int \<Rightarrow> time option"
  me_summary_json :: "MempoolRunSummary \<Rightarrow> string + string"
  me_utc_now :: "'x \<Rightarrow> time \<times> 'x"
  me_wall_clock :: "'x \<Rightarrow> time \<times> 'x"
  me_new_ids :: "'x \<Rightarrow> FreshIds \<times> 'x"
  me_fresh_chain_id :: "UserDb \<Rightarrow> ulid"
  me_lock :: DbLock
  me_get_address_stats :: "TrackedAddress \<Rightarrow> 'x \<Rightarrow> (MempoolError + AddressStats) \<times> 'x"
  me_fetch_first_page :: "TrackedAddress \<Rightarrow> 'x \<Rightarrow> (MempoolError + MempoolTransactionPage) \<times> 'x"
  me_fetch_page_after_confirmed :: "TrackedAddress \<Rightarrow> string \<Rightarrow> 'x \<Rightarrow> (MempoolError + MempoolTransactionPage) \<times> 'x"

definition world_action :: "('x \<Rightarrow> 'a \<times> 'x) \<Rightarrow> (('x, 'm) MempoolSystem_scheme, 'a) action" where
  "world_action f s = (case f (my_world s) of (a, x) \<Rightarrow> Some (Inr a, s\<lparr>my_world := x\<rparr>))"

definition db_read :: "(UserDb \<Rightarrow> DbError + 'a) \<Rightarrow> (('x, 'm) MempoolSystem_scheme, 'a) action" where
  "db_read f s = Some (map_err Db (f (my_db s)), s)"

definition db_write :: "(UserDb \<Rightarrow> DbError + UserDb) \<Rightarrow> (('x, 'm) MempoolSystem_scheme, unit) action" where
  "db_write f s = (case f (my_db s) of Inl err \<Rightarrow> Some (Inl (Db err), s) | Inr db \<Rightarrow> Some (Inr (), s\<lparr>my_db := db\<rparr>))"

text \<open>A write that reads the clock of the database layer.\<close>

definition db_write_now :: "'x MempoolEnv \<Rightarrow> (time \<Rightarrow> UserDb \<Rightarrow> DbError + UserDb) \<Rightarrow> (('x, 'm) MempoolSystem_scheme, unit) action" where
  "db_write_now me f = act_bind (world_action (me_wall_clock me)) (\<lambda>now. db_write (f now))"

text \<open>A provider error becomes an error of the sync, or panics.\<close>

definition act_provider_fail :: "'x MempoolEnv \<Rightarrow> MempoolError \<Rightarrow> ('s, 'a) action" where
  "act_provider_fail me err s = map_option (\<lambda>e. (Inl e, s)) (monitor_error_from_mempool (me_codec me) err)"

subsection \<open>The summary of a run\<close>

definition no_run_summary :: MempoolRunSummary where
  "no_run_summary =
     \<lparr>mr_pages_fetched = 0, mr_items_seen = 0, mr_versions_inserted = 0, mr_versions_reused = 0, mr_parse_success_count = 0,
      mr_parse_failure_count = 0, mr_http_failure_count = 0, mr_transport_failure_count = 0,
      mr_duplicate_cursor_page_detected = False, mr_backfill_active = False, mr_backfill_complete = False,
      mr_backfill_budget_exhausted = False, mr_incremental_budget_exhausted = False, mr_early_exit_known_confirmed = False\<rparr>"

definition record_page :: "MempoolPageIngestionSummary \<Rightarrow> MempoolRunSummary \<Rightarrow> MempoolRunSummary" where
  "record_page page r =
     r\<lparr>mr_pages_fetched := saturating_add_u (mr_pages_fetched r) 1,
       mr_items_seen := saturating_add_u (mr_items_seen r) (is_items_seen page),
       mr_versions_inserted := saturating_add_u (mr_versions_inserted r) (is_versions_inserted page),
       mr_versions_reused := saturating_add_u (mr_versions_reused r) (is_versions_reused page),
       mr_parse_success_count := saturating_add_u (mr_parse_success_count r) (is_parse_success_count page),
       mr_parse_failure_count := saturating_add_u (mr_parse_failure_count r) (is_parse_failure_count page)\<rparr>"

definition record_request_failure :: "MempoolError \<Rightarrow> MempoolRunSummary \<Rightarrow> MempoolRunSummary" where
  "record_request_failure err r =
     (case err of
        MempoolHttp url text \<Rightarrow> r\<lparr>mr_transport_failure_count := saturating_add_u (mr_transport_failure_count r) 1\<rparr>
      | MempoolUrlJoin text \<Rightarrow> r\<lparr>mr_transport_failure_count := saturating_add_u (mr_transport_failure_count r) 1\<rparr>
      | _ \<Rightarrow> r\<lparr>mr_http_failure_count := saturating_add_u (mr_http_failure_count r) 1\<rparr>)"

definition to_summary_json :: "'x MempoolEnv \<Rightarrow> MempoolRunSummary \<Rightarrow> UserTransactionMonitorError + string" where
  "to_summary_json me r =
     res_bind (map_err (\<lambda>err. Parse (''failed to serialize mempool sync run summary: '' @ err)) (me_summary_json me r)) (\<lambda>json.
     if str_trim json = [] then Inl (Db (DbError ''summary_json cannot be empty'')) else Inr json)"

subsection \<open>What the statistics say of the stored proof\<close>

datatype MempoolHistoryProofTransition =
    PublishProof MempoolHistoryProof
  | Preserve
  | PreserveAndRestart
  | InvalidateAndRestart
  | RestartScan

definition mempool_history_proof_transition ::
  "MempoolHistoryProof option \<Rightarrow> AddressStats \<Rightarrow> int \<Rightarrow> MempoolHistoryProofTransition" where
  "mempool_history_proof_transition existing stats tip_height =
     (case existing of
        Some pr \<Rightarrow>
          if stats_tx_count stats = proof_confirmed_tx_count pr
          then PublishProof \<lparr>proof_confirmed_tx_count = stats_tx_count stats, proof_complete_height = tip_height\<rparr>
          else if stats_tx_count stats > proof_confirmed_tx_count pr then PreserveAndRestart
          else InvalidateAndRestart
      | None \<Rightarrow>
          if stats_tx_count stats = 0 \<and> stats_mempool_tx_count stats = 0
          then PublishProof \<lparr>proof_confirmed_tx_count = 0, proof_complete_height = tip_height\<rparr>
          else RestartScan)"

definition stats_only_expected_tx_count :: "AddressStats \<Rightarrow> MempoolHistoryProof option \<Rightarrow> TransactionCount option" where
  "stats_only_expected_tx_count stats retained_proof =
     (let proven = (case retained_proof of None \<Rightarrow> 0 | Some pr \<Rightarrow> proof_confirmed_tx_count pr) in
      if stats_tx_count stats > proven then Some (stats_tx_count stats) else None)"

definition zero_stats_skip_transaction_page :: "AddressStats \<Rightarrow> bool" where
  "zero_stats_skip_transaction_page stats \<longleftrightarrow> stats_tx_count stats = 0 \<and> stats_mempool_tx_count stats = 0"

subsection \<open>Publishing a proof\<close>

definition publish_address_history_proof ::
  "'x MempoolEnv \<Rightarrow> IntegrationIterationContext \<Rightarrow> ulid option \<Rightarrow> MempoolHistoryProof \<Rightarrow>
     (('x, 'm) MempoolSystem_scheme, unit) action" where
  "publish_address_history_proof me ctx scan_start_run_id pr =
     (case sa_account_id (ic_address ctx) of
        Some account_id \<Rightarrow>
          act_bind (world_action (me_utc_now me)) (\<lambda>now s.
            case publish_bitcoin_account_completion (me_env me) (my_db s)
                   \<lparr>pub_account_id = account_id,
                    final_address_proof = Some \<lparr>pub_address_id = sa_address_id (ic_address ctx), pub_proof = pr,
                      pub_scan_start_run_id = scan_start_run_id\<rparr>,
                    completed_hd_discovery = None, observed_at = now\<rparr> of
              (Inl err, db) \<Rightarrow> Some (Inl (Db err), s\<lparr>my_db := db\<rparr>)
            | (Inr _, db) \<Rightarrow> Some (Inr (), s\<lparr>my_db := db\<rparr>))
      | None \<Rightarrow>
          db_write_now me (\<lambda>now db.
            case scan_start_run_id of
              Some start_run_id \<Rightarrow>
                publish_strict_mempool_history_proof_conn db (sa_address_id (ic_address ctx)) start_run_id pr (env_to_rfc3339 (me_env me) now)
            | None \<Rightarrow>
                publish_mempool_history_proof_conn db (sa_address_id (ic_address ctx)) pr (env_to_rfc3339 (me_env me) now)))"

definition update_state :: "(MempoolIterationState \<Rightarrow> MempoolIterationState) \<Rightarrow> ('x MempoolRun, unit) action" where
  "update_state f = act_modify (\<lambda>s. s\<lparr>run_state := f (run_state s)\<rparr>)"

definition complete_strict_mempool_history_scan ::
  "'x MempoolEnv \<Rightarrow> IntegrationIterationContext \<Rightarrow> TransactionCount \<Rightarrow> int \<Rightarrow> bool \<Rightarrow> ('x MempoolRun, unit) action" where
  "complete_strict_mempool_history_scan me ctx expected_count tip_height allow =
     act_bind (act_gets run_state) (\<lambda>st.
     act_bind (act_lift (ok_or (Parse ''strict Mempool history scan is missing its start run'') (it_strict_scan_start_run_id st))) (\<lambda>start_run_id.
     act_bind (\<lambda>s. Some (map_err Db (validate_strict_mempool_history_scan (me_env me) (me_codec me) (my_raw s) (my_db s)
                 (sa_address_id (ic_address ctx)) start_run_id expected_count allow), s)) (\<lambda>validation.
     case validation of
       ScanExact \<Rightarrow>
         act_bind (publish_address_history_proof me ctx (Some start_run_id)
           \<lparr>proof_confirmed_tx_count = expected_count, proof_complete_height = tip_height\<rparr>) (\<lambda>_.
         update_state (\<lambda>st. st\<lparr>it_proof_published := True, it_cursor := None\<rparr>))
     | ScanRestart reason \<Rightarrow>
         act_bind (db_write_now me (restart_strict_mempool_history_scan (me_env me) (sa_address_id (ic_address ctx)))) (\<lambda>_.
         act_fail (Db (DbError reason))))))"

subsection \<open>Queries of the stored transactions\<close>

definition involves_address :: "UserDb \<Rightarrow> ulid \<Rightarrow> ChainTransactionRow \<Rightarrow> bool" where
  "involves_address db address_id ct \<longleftrightarrow>
     list_ex (\<lambda>txo. txo_tx_id txo = ct_id ct \<and> txo_address_id txo = address_id) (transaction_outputs db) \<or>
     list_ex (\<lambda>ti. ti_tx_id ti = ct_id ct \<and> ti_address_id ti = address_id) (transaction_inputs db)"

definition transfers_address :: "UserDb \<Rightarrow> ulid \<Rightarrow> ChainTransactionRow \<Rightarrow> bool" where
  "transfers_address db address_id ct \<longleftrightarrow>
     list_ex (\<lambda>t. at_chain_transaction_id t = ct_id ct \<and>
       (at_from_address_id t = Some address_id \<or> at_to_address_id t = Some address_id)) (account_transfers db)"

definition load_tx_hashes_for_address_with_status ::
  "UserDb \<Rightarrow> ulid \<Rightarrow> SyncedAssetId \<Rightarrow> Network \<Rightarrow> string option \<Rightarrow> DbError + TxHash set" where
  "load_tx_hashes_for_address_with_status db address_id asset_id network status =
     res_map set (res_mapM
       (\<lambda>raw. map_err (\<lambda>err. DbError (''Invalid tx hash in DB: '' @ tx_hash_error_display err)) (tx_hash_parse raw))
       (btree_of_list (map ct_tx_hash (filter (\<lambda>ct. ct_asset_id ct = asset_as_str asset_id \<and> ct_network ct = network_as_str network \<and>
          (case status of None \<Rightarrow> True | Some text \<Rightarrow> ct_status ct = text) \<and>
          (involves_address db address_id ct \<or> transfers_address db address_id ct)) (chain_transactions db)))))"

definition load_known_tx_hashes_for_address :: "UserDb \<Rightarrow> ulid \<Rightarrow> SyncedAssetId \<Rightarrow> Network \<Rightarrow> DbError + TxHash set" where
  "load_known_tx_hashes_for_address db address_id asset_id network =
     load_tx_hashes_for_address_with_status db address_id asset_id network None"

definition load_confirmed_tx_hashes_for_address :: "UserDb \<Rightarrow> ulid \<Rightarrow> SyncedAssetId \<Rightarrow> Network \<Rightarrow> DbError + TxHash set" where
  "load_confirmed_tx_hashes_for_address db address_id asset_id network =
     load_tx_hashes_for_address_with_status db address_id asset_id network (Some ''confirmed'')"

definition address_has_pending_txs :: "UserDb \<Rightarrow> ulid \<Rightarrow> SyncedAssetId \<Rightarrow> Network \<Rightarrow> bool" where
  "address_has_pending_txs db address_id asset_id network =
     list_ex (\<lambda>ct. ct_asset_id ct = asset_as_str asset_id \<and> ct_network ct = network_as_str network \<and> ct_status ct = ''pending'' \<and>
       involves_address db address_id ct) (chain_transactions db)"

definition load_account_reported_tx_counts :: "UserDb \<Rightarrow> ulid \<Rightarrow> DbError + TransactionCount list" where
  "load_account_reported_tx_counts db account_id =
     res_mapM (parse_transaction_count ''reported_tx_count'')
       (List.map_filter tss_reported_tx_count
         (filter (\<lambda>r. tss_scope r = ADDRESS_SYNC_SCOPE \<and> owns_address db account_id (tss_address_id r)) (transaction_sync_state db)))"

definition load_canonical_confirmed_account_transaction_count :: "UserDb \<Rightarrow> ulid \<Rightarrow> DbError + TransactionCount" where
  "load_canonical_confirmed_account_transaction_count db account_id =
     parse_transaction_count ''canonical confirmed account transaction count''
       (int (length (filter (\<lambda>ct. ct_status ct = ''confirmed'' \<and> ct_id ct \<in> set (canonical_tx_ids db account_id)) (chain_transactions db))))"

definition approximate_account_unsynced_count :: "TransactionCount list \<Rightarrow> TransactionCount \<Rightarrow> TransactionCount" where
  "approximate_account_unsynced_count reported known =
     saturating_sub_u (foldl saturating_add_u 0 reported) known"

definition load_mempool_account_progress_observation ::
  "IntegrationIterationContext \<Rightarrow> UserDb \<Rightarrow> DbError + MempoolAccountProgressObservation option" where
  "load_mempool_account_progress_observation ctx db =
     (if ic_single_address_progress ctx = None then Inr None
      else case sa_account_id (ic_address ctx) of
             None \<Rightarrow> Inr None
           | Some account_id \<Rightarrow>
               res_bind (load_account_reported_tx_counts db account_id) (\<lambda>reported.
               res_bind (load_canonical_confirmed_account_transaction_count db account_id) (\<lambda>known.
               Inr (Some \<lparr>po_known_transaction_count = known,
                         po_approximate_unsynced_count = approximate_account_unsynced_count reported known\<rparr>))))"

subsection \<open>The first iteration\<close>

definition active_mempool_resume_cursor :: "IntegrationIterationContext \<Rightarrow> string option" where
  "active_mempool_resume_cursor ctx =
     (if ic_is_backfill_active ctx then sa_mempool_backfill_cursor_txid (ic_address ctx) else None)"

definition fetch_mempool_address_stats ::
  "'x MempoolEnv \<Rightarrow> IntegrationIterationContext \<Rightarrow> (('x, 'm) MempoolSystem_scheme, AddressStats) action" where
  "fetch_mempool_address_stats me ctx =
     act_bind (world_action (me_get_address_stats me (sa_address (ic_address ctx)))) (\<lambda>r.
       case r of Inl err \<Rightarrow> act_provider_fail me err | Inr stats \<Rightarrow> act_return stats)"

definition persist_mempool_observation ::
  "'x MempoolEnv \<Rightarrow> IntegrationIterationContext \<Rightarrow> AddressStats \<Rightarrow> int \<Rightarrow> (('x, 'm) MempoolSystem_scheme, unit) action" where
  "persist_mempool_observation me ctx stats tip_height =
     act_bind (world_action (me_utc_now me)) (\<lambda>now.
     db_write (persist_mempool_address_observation_success (me_env me)
       \<lparr>mo_address_id = sa_address_id (ic_address ctx), mo_confirmed_tx_count = stats_tx_count stats,
        mo_confirmed_balance = stats_confirmed_balance stats, mo_tip_height = tip_height, mo_observed_at = now\<rparr>))"

text \<open>Without permission to fetch pages a history that is not known to be complete is neither restarted nor given up.\<close>

definition effective_proof_transition :: "IntegrationIterationContext \<Rightarrow> AddressStats \<Rightarrow> int \<Rightarrow> MempoolHistoryProofTransition" where
  "effective_proof_transition ctx stats tip_height =
     (let transition = mempool_history_proof_transition (sa_mempool_history_proof (ic_address ctx)) stats tip_height in
      if \<not> ic_transaction_page_permitted ctx \<and> (transition = PreserveAndRestart \<or> transition = RestartScan) then Preserve
      else transition)"

definition apply_proof_transition ::
  "'x MempoolEnv \<Rightarrow> IntegrationIterationContext \<Rightarrow> MempoolHistoryProofTransition \<Rightarrow> (('x, 'm) MempoolSystem_scheme, bool) action" where
  "apply_proof_transition me ctx transition =
     (case transition of
        PublishProof pr \<Rightarrow>
          if \<not> ic_transaction_page_permitted ctx \<and>
            (case sa_mempool_history_proof (ic_address ctx) of
               None \<Rightarrow> False | Some existing \<Rightarrow> proof_confirmed_tx_count existing = proof_confirmed_tx_count pr)
          then act_bind (world_action (me_wall_clock me)) (\<lambda>now s.
                 case refresh_mempool_history_proof (me_env me) (sa_address_id (ic_address ctx)) pr now (my_db s) of
                   (changed, db) \<Rightarrow> Some (Inr changed, s\<lparr>my_db := db\<rparr>))
          else act_bind (publish_address_history_proof me ctx None pr) (\<lambda>_. act_return True)
      | InvalidateAndRestart \<Rightarrow>
          act_bind (db_write_now me (invalidate_mempool_history_proof (me_env me) (sa_address_id (ic_address ctx)))) (\<lambda>_. act_return False)
      | _ \<Rightarrow> act_return False)"

text \<open>The cursor the fetching resumes from, and the run that started a strict scan.\<close>

definition choose_resume_cursor ::
  "'x MempoolEnv \<Rightarrow> IntegrationIterationContext \<Rightarrow> MempoolHistoryProofTransition \<Rightarrow>
     (('x, 'm) MempoolSystem_scheme, string option) action" where
  "choose_resume_cursor me ctx transition =
     (if transition = PreserveAndRestart \<or> transition = InvalidateAndRestart
      then act_bind (db_write_now me (update_address_mempool_backfill_cursor (me_env me) (sa_address_id (ic_address ctx)) None))
             (\<lambda>_. act_return None)
      else act_return (active_mempool_resume_cursor ctx))"

definition choose_strict_scan ::
  "'x MempoolEnv \<Rightarrow> IntegrationIterationContext \<Rightarrow> AddressStats \<Rightarrow> bool \<Rightarrow> string option \<Rightarrow>
     (('x, 'm) MempoolSystem_scheme, ulid option \<times> string option) action" where
  "choose_strict_scan me ctx stats proof_published resume_cursor =
     (if ic_transaction_page_permitted ctx \<and> ic_legacy_mempool_history_repair ctx \<and> \<not> proof_published \<and>
        \<not> zero_stats_skip_transaction_page stats
      then case sa_mempool_history_scan_start_run_id (ic_address ctx) of
             Some start_run_id \<Rightarrow> act_return (Some start_run_id, resume_cursor)
           | None \<Rightarrow>
               act_bind (db_write_now me (begin_mempool_history_scan (me_env me) (sa_address_id (ic_address ctx)) (ic_raw_sync_run_id ctx)))
                 (\<lambda>_. act_return (Some (ic_raw_sync_run_id ctx), None))
      else act_return (None, resume_cursor))"

definition store_expected_count ::
  "'x MempoolEnv \<Rightarrow> IntegrationIterationContext \<Rightarrow> AddressStats \<Rightarrow> MempoolHistoryProofTransition \<Rightarrow> bool \<Rightarrow> bool \<Rightarrow>
     (('x, 'm) MempoolSystem_scheme, unit) action" where
  "store_expected_count me ctx stats transition backfill_active proof_published =
     (let store = (\<lambda>expected. db_write_now me (\<lambda>now.
            update_address_mempool_expected_tx_count (me_env me) (sa_address_id (ic_address ctx)) expected now)) in
      if backfill_active then store (Some (stats_tx_count stats))
      else if \<not> ic_transaction_page_permitted ctx
      then (let expected = stats_only_expected_tx_count stats
                  (if transition = InvalidateAndRestart then None else sa_mempool_history_proof (ic_address ctx)) in
            act_when (expected \<noteq> sa_mempool_expected_tx_count (ic_address ctx)) (store expected))
      else act_when (proof_published \<and> sa_mempool_expected_tx_count (ic_address ctx) \<noteq> None) (store None))"

definition initialize_iteration ::
  "'x MempoolEnv \<Rightarrow> IntegrationIterationContext \<Rightarrow> int \<Rightarrow> (('x, 'm) MempoolSystem_scheme, MempoolIterationState) action" where
  "initialize_iteration me ctx tip_height =
     (let address = ic_address ctx in
      act_bind (fetch_mempool_address_stats me ctx) (\<lambda>stats.
      act_bind (persist_mempool_observation me ctx stats tip_height) (\<lambda>_.
      act_bind (db_read (load_mempool_account_progress_observation ctx)) (\<lambda>account_progress.
      let transition = effective_proof_transition ctx stats tip_height;
          backfill_active = (ic_transaction_page_permitted ctx \<and>
            (ic_is_backfill_active ctx \<or> (case transition of PublishProof _ \<Rightarrow> False | _ \<Rightarrow> True)));
          allowed = (transition \<noteq> InvalidateAndRestart \<and> \<not> ic_legacy_mempool_history_repair ctx) in
      act_bind (apply_proof_transition me ctx transition) (\<lambda>published.
      act_bind (choose_resume_cursor me ctx transition) (\<lambda>resume.
      act_bind (choose_strict_scan me ctx stats published resume) (\<lambda>(scan_start, resume_cursor).
      act_bind (if backfill_active then act_return {}
                else db_read (\<lambda>db. load_known_tx_hashes_for_address db (sa_address_id address) (sa_asset_id address) (sa_network address))) (\<lambda>known.
      act_bind (if backfill_active
                then db_read (\<lambda>db. load_confirmed_tx_hashes_for_address db (sa_address_id address) (sa_asset_id address) (sa_network address))
                else act_return {}) (\<lambda>observed.
      act_bind (act_gets (\<lambda>s. (backfill_active \<and> address_has_pending_txs (my_db s) (sa_address_id address) (sa_asset_id address) (sa_network address)) \<or>
                  stats_mempool_tx_count stats > 0)) (\<lambda>pending.
      act_bind (store_expected_count me ctx stats transition backfill_active published) (\<lambda>_.
      act_return
        \<lparr>it_visit = \<lparr>visit_stats = stats, visit_tip_height = tip_height, visit_account_progress = account_progress\<rparr>,
         it_backfill_active = backfill_active, it_proof_publication_allowed = allowed, it_proof_published = published,
         it_first_page_done = (resume_cursor \<noteq> None), it_cursor = resume_cursor, it_known_confirmed = known,
         it_observed_confirmed_txids = observed,
         it_backfill_expected_tx_count = (if backfill_active then Some (stats_tx_count stats) else None),
         it_backfill_has_pending_transactions = pending, it_strict_scan_start_run_id = scan_start,
         it_run_summary = no_run_summary\<lparr>mr_backfill_active := backfill_active\<rparr>\<rparr>)))))))))))"

subsection \<open>One page\<close>

definition fetch_page ::
  "'x MempoolEnv \<Rightarrow> IntegrationIterationContext \<Rightarrow> string option \<Rightarrow> 'x \<Rightarrow> (MempoolError + MempoolTransactionPage) \<times> 'x" where
  "fetch_page me ctx page_cursor =
     (case page_cursor of
        None \<Rightarrow> me_fetch_first_page me (sa_address (ic_address ctx))
      | Some cursor \<Rightarrow> me_fetch_page_after_confirmed me (sa_address (ic_address ctx)) cursor)"

definition page_kind_of :: "string option \<Rightarrow> MempoolPageKind" where
  "page_kind_of page_cursor = (case page_cursor of None \<Rightarrow> FirstPage | Some _ \<Rightarrow> PaginatedAfterConfirmed)"

definition page_request :: "IntegrationIterationContext \<Rightarrow> string option \<Rightarrow> ulid option \<Rightarrow> time \<Rightarrow> MempoolPageIngestionRequest" where
  "page_request ctx page_cursor scan_start at =
     \<lparr>pi_raw_sync_run_id = ic_raw_sync_run_id ctx, pi_source_connection_id = ic_source_connection_id ctx,
      pi_scope_address_id = sa_address_id (ic_address ctx), pi_page_kind = page_kind_of page_cursor, pi_page_cursor = page_cursor,
      pi_scan_start_run_id = scan_start, pi_network = sa_network (ic_address ctx), pi_observed_at = at\<rparr>"

definition fetch_and_persist_mempool_transaction_page ::
  "'x MempoolEnv \<Rightarrow> IntegrationIterationContext \<Rightarrow> string option \<Rightarrow> time \<Rightarrow> ('x MempoolRun, IngestedMempoolPage) action" where
  "fetch_and_persist_mempool_transaction_page me ctx page_cursor at =
     act_bind (world_action (fetch_page me ctx page_cursor)) (\<lambda>r.
       case r of
         Inr page \<Rightarrow>
           act_bind (world_action (me_new_ids me)) (\<lambda>ids s.
             case ingest_mempool_page (me_env me) (me_codec me) ids
                    (page_request ctx page_cursor (it_strict_scan_start_run_id (run_state s)) at) page (my_raw s) of
               (result, raw) \<Rightarrow> Some (result, s\<lparr>my_raw := raw\<rparr>))
       | Inl err \<Rightarrow>
           act_bind (update_state (\<lambda>st. st\<lparr>it_run_summary := record_request_failure err (it_run_summary st)\<rparr>)) (\<lambda>_.
           act_bind (\<lambda>s.
             case record_mempool_request_failure (me_env me) (me_codec me)
                    \<lparr>rf_raw_sync_run_id = ic_raw_sync_run_id ctx, rf_scope_address_id = sa_address_id (ic_address ctx),
                     rf_page_kind = page_kind_of page_cursor, rf_page_cursor = page_cursor, rf_attempted_at = at\<rparr> err (my_raw s) of
               Inl e \<Rightarrow> Some (Inl (Db e), s)
             | Inr raw \<Rightarrow> Some (Inr (), s\<lparr>my_raw := raw\<rparr>)) (\<lambda>_.
           act_provider_fail me err)))"

text \<open>An error of the reconciliation names the histories that the transactions committed before it contradict.\<close>

definition invalidate_coverage_now :: "'x MempoolEnv \<Rightarrow> CoverageInvalidationTargets \<Rightarrow> (('x, 'm) MempoolSystem_scheme, unit) action" where
  "invalidate_coverage_now me targets =
     act_when (target_address_ids targets \<noteq> {} \<or> target_account_ids targets \<noteq> {})
       (act_bind (world_action (me_wall_clock me)) (\<lambda>now.
          act_modify (\<lambda>s. s\<lparr>my_db := invalidate_mempool_history_coverage (me_env me) targets now (my_db s)\<rparr>)))"

definition reconcile_mempool_transactions ::
  "'x MempoolEnv \<Rightarrow> IntegrationIterationContext \<Rightarrow> SyncTransactionRecord list \<Rightarrow> time \<Rightarrow>
     (('x, 'm) MempoolSystem_scheme, TransactionSyncReconcileSummary) action" where
  "reconcile_mempool_transactions me ctx records at s =
     (case reconcile_address_transactions_preserving_invalidation (me_env me) (me_fresh_chain_id me) (me_lock me)
             (sa_asset_id (ic_address ctx)) (sa_network (ic_address ctx)) records at (my_db s) of
        (Inl (err, summary), db) \<Rightarrow>
          act_bind (invalidate_coverage_now me (rs_coverage_invalidation summary)) (\<lambda>_.
            act_fail (with_coverage_invalidation (Db err) (rs_coverage_invalidation summary))) (s\<lparr>my_db := db\<rparr>)
      | (Inr summary, db) \<Rightarrow>
          act_bind (invalidate_coverage_now me (rs_coverage_invalidation summary)) (\<lambda>_. act_return summary) (s\<lparr>my_db := db\<rparr>))"

definition publish_mempool_progress :: "'x MempoolEnv \<Rightarrow> IntegrationIterationContext \<Rightarrow> ('x MempoolRun, unit) action" where
  "publish_mempool_progress me ctx =
     act_bind (act_gets (\<lambda>s. visit_account_progress (it_visit (run_state s)))) (\<lambda>observation.
       case (ic_single_address_progress ctx, observation) of
         (Some progress, Some obs) \<Rightarrow>
           act_bind (world_action (me_utc_now me)) (\<lambda>now.
             let event = (\<lambda>integration.
                   \<lparr>pe_account_id = pp_account_id progress, pe_for_integration = integration, pe_at = now,
                    pe_is_first_sync = pp_is_first_sync progress, pe_fetched_count = po_known_transaction_count obs,
                    pe_expected_count =
                      saturating_add_u (po_known_transaction_count obs) (po_approximate_unsynced_count obs)\<rparr>) in
             act_modify (\<lambda>s. s\<lparr>my_events := my_events s @ [event False, event True]\<rparr>))
       | _ \<Rightarrow> act_return ())"

definition update_cursor_after_paginated_page :: "string \<Rightarrow> string option \<Rightarrow> MempoolIterationState \<Rightarrow> MempoolIterationState" where
  "update_cursor_after_paginated_page fetched_cursor next_cursor st =
     (if next_cursor = Some fetched_cursor
      then st\<lparr>it_cursor := Some fetched_cursor, it_proof_publication_allowed := False,
              it_run_summary := (it_run_summary st)\<lparr>mr_duplicate_cursor_page_detected := True\<rparr>\<rparr>
      else st\<lparr>it_cursor := next_cursor\<rparr>)"

definition observe_backfill_expected_count_page ::
  "MempoolAddressTransaction list \<Rightarrow> MempoolIterationState \<Rightarrow> MempoolIterationState" where
  "observe_backfill_expected_count_page page st =
     (if it_backfill_expected_tx_count st = None then st
      else fold (\<lambda>tx st. if ms_confirmed (mt_status tx)
             then st\<lparr>it_observed_confirmed_txids := insert (mt_txid tx) (it_observed_confirmed_txids st)\<rparr>
             else st\<lparr>it_backfill_has_pending_transactions := True\<rparr>) page st)"

definition u32_try_from_or_max :: "nat \<Rightarrow> u32" where
  "u32_try_from_or_max n = (if n < 2 ^ 32 then word_of_nat n else - 1)"

definition complete_backfill_if_expected_count_reached ::
  "MempoolIterationState \<Rightarrow> TransactionCount option \<times> MempoolIterationState" where
  "complete_backfill_if_expected_count_reached st =
     (case it_backfill_expected_tx_count st of
        None \<Rightarrow> (None, st)
      | Some expected \<Rightarrow>
          if it_backfill_has_pending_transactions st \<or> u32_try_from_or_max (card (it_observed_confirmed_txids st)) \<noteq> expected
          then (None, st)
          else (Some expected, st\<lparr>it_cursor := None\<rparr>))"

definition strict_singleton_duplicate_completion ::
  "MempoolIterationState \<Rightarrow> string \<Rightarrow> MempoolAddressTransaction list \<Rightarrow> TransactionCount option" where
  "strict_singleton_duplicate_completion st fetched_cursor page =
     (case page of
        [tx] \<Rightarrow>
          if it_strict_scan_start_run_id st = None \<or> \<not> mr_duplicate_cursor_page_detected (it_run_summary st) \<or>
            it_backfill_has_pending_transactions st \<or> \<not> ms_confirmed (mt_status tx) \<or> mt_txid tx \<noteq> fetched_cursor
          then None
          else (case it_backfill_expected_tx_count st of
                  None \<Rightarrow> None
                | Some expected \<Rightarrow>
                    if u32_try_from_or_max (card (it_observed_confirmed_txids st)) = expected then Some expected else None)
      | _ \<Rightarrow> None)"

definition should_use_mempool_backfill_lane :: "int option \<Rightarrow> TxHash option \<Rightarrow> bool \<Rightarrow> bool" where
  "should_use_mempool_backfill_lane last_tip_height cursor allow \<longleftrightarrow> is_first_sync last_tip_height \<or> cursor \<noteq> None \<or> \<not> allow"

definition should_early_exit_for_known_confirmed_page ::
  "bool \<Rightarrow> MempoolAddressTransaction list \<Rightarrow> string set \<Rightarrow> bool" where
  "should_early_exit_for_known_confirmed_page allow page known \<longleftrightarrow>
     allow \<and> known \<noteq> {} \<and>
     (let confirmed = filter (\<lambda>tx. ms_confirmed (mt_status tx)) page in
      confirmed \<noteq> [] \<and> list_all (\<lambda>tx. mt_txid tx \<in> known) confirmed)"

subsection \<open>The iteration\<close>

text \<open>The result of an iteration that stored no transaction; the summary of the run is serialized after the clock is read.\<close>

definition empty_result ::
  "'x MempoolEnv \<Rightarrow> int \<Rightarrow> bool \<Rightarrow> UnsignedAmount option \<Rightarrow> MempoolRunSummary \<Rightarrow>
     (('x, 'm) MempoolSystem_scheme, SyncIterationResult) action" where
  "empty_result me tip_height observed_activity balance summary =
     act_bind (world_action (me_utc_now me)) (\<lambda>now.
     act_bind (act_lift (to_summary_json me summary)) (\<lambda>json.
     act_return
       \<lparr>ir_new_tx_count = 0, ir_updated_tx_count = 0, ir_coverage_invalidation = no_targets, ir_tip_height = tip_height,
        ir_completed_at = now, ir_has_more_work = False, ir_early_exited = False, ir_observed_activity = observed_activity,
        ir_ledger_rebuild_required = False, ir_raw_run_summary_json = Some json, ir_api_confirmed_balance = balance\<rparr>))"

definition empty_page_result :: "'x MempoolEnv \<Rightarrow> int \<Rightarrow> ('x MempoolRun, SyncIterationResult) action" where
  "empty_page_result me tip_height =
     act_bind (act_gets (\<lambda>s. it_run_summary (run_state s))) (empty_result me tip_height False None)"

definition advance_cursor ::
  "string option \<Rightarrow> MempoolAddressTransaction list \<Rightarrow> MempoolIterationState \<Rightarrow> UserTransactionMonitorError + MempoolIterationState" where
  "advance_cursor page_cursor page st =
     (if \<not> it_first_page_done st then Inr (st\<lparr>it_cursor := last_confirmed_txid_in_page page, it_first_page_done := True\<rparr>)
      else
        res_map (\<lambda>cursor. update_cursor_after_paginated_page cursor (last_confirmed_txid_in_page page) st)
          (ok_or (Parse ''paginated mempool page missing fetched cursor'') page_cursor))"

definition commit_page_work :: "'x MempoolEnv \<Rightarrow> IntegrationIterationContext \<Rightarrow> ('x MempoolRun, unit) action" where
  "commit_page_work me ctx =
     act_bind (act_gets run_state) (\<lambda>st.
     act_when (it_backfill_active st \<or> ic_mempool_history_page_frontier ctx \<noteq> None)
       (act_bind (act_lift
          (if it_backfill_active st
           then res_option_map (\<lambda>c. map_err (\<lambda>err. Parse (''invalid mempool resume cursor: '' @ tx_hash_error_display err)) (tx_hash_parse c))
                  (it_cursor st)
           else Inr None)) (\<lambda>next_cursor.
        db_write_now me (commit_mempool_history_page_work (me_env me)
          \<lparr>pw_address_id = sa_address_id (ic_address ctx), pw_next_cursor = next_cursor,
           pw_hd_frontier = ic_mempool_history_page_frontier ctx\<rparr>))))"

text \<open>A strict scan that ran out of pages without proving the history is given up.\<close>

definition strict_scan_exhausted :: "MempoolIterationState \<Rightarrow> bool" where
  "strict_scan_exhausted st \<longleftrightarrow>
     it_strict_scan_start_run_id st \<noteq> None \<and> \<not> it_proof_published st \<and>
     (mr_duplicate_cursor_page_detected (it_run_summary st) \<or> it_cursor st = None)"

definition give_up_exhausted_strict_scan :: "'x MempoolEnv \<Rightarrow> IntegrationIterationContext \<Rightarrow> ('x MempoolRun, unit) action" where
  "give_up_exhausted_strict_scan me ctx =
     act_bind (act_gets run_state) (\<lambda>st.
     act_when (strict_scan_exhausted st)
       (act_bind (db_write_now me (restart_strict_mempool_history_scan (me_env me) (sa_address_id (ic_address ctx)))) (\<lambda>_.
        act_fail (Db (DbError ''Strict Mempool history scan ended without an empty terminal page'')))))"

text \<open>After the page is stored: the cursor moves, the work is committed, a history that turned out complete is published.\<close>

definition finish_page ::
  "'x MempoolEnv \<Rightarrow> IntegrationIterationContext \<Rightarrow> int \<Rightarrow> string option \<Rightarrow> MempoolAddressTransaction list \<Rightarrow>
     TransactionSyncReconcileSummary \<Rightarrow> bool \<Rightarrow> ('x MempoolRun, SyncIterationResult) action" where
  "finish_page me ctx tip_height page_cursor page summary ledger_rebuild_required =
     act_bind (update_state (observe_backfill_expected_count_page page)) (\<lambda>_.
     act_bind (\<lambda>s. act_lift (advance_cursor page_cursor page (run_state s)) s) (\<lambda>st.
     act_bind (update_state (\<lambda>_. st)) (\<lambda>_.
     let singleton_completion = Option.bind page_cursor (\<lambda>cursor. strict_singleton_duplicate_completion st cursor page);
         (completed_backfill, st') =
           (if it_backfill_active st \<and> it_proof_publication_allowed st then complete_backfill_if_expected_count_reached st
            else (None, st)) in
     act_bind (update_state (\<lambda>_. st')) (\<lambda>_.
     act_bind (commit_page_work me ctx) (\<lambda>_.
     act_bind (case singleton_completion of
                 None \<Rightarrow> act_return ()
               | Some completion \<Rightarrow> complete_strict_mempool_history_scan me ctx completion tip_height True) (\<lambda>_.
     act_bind (give_up_exhausted_strict_scan me ctx) (\<lambda>_.
     act_bind (case completed_backfill of
                 None \<Rightarrow> act_return ()
               | Some completion \<Rightarrow>
                   act_bind (publish_address_history_proof me ctx None
                     \<lparr>proof_confirmed_tx_count = completion, proof_complete_height = tip_height\<rparr>) (\<lambda>_.
                   update_state (\<lambda>st. st\<lparr>it_proof_published := True\<rparr>))) (\<lambda>_.
     act_bind (act_gets run_state) (\<lambda>final.
     let early_exited = (\<not> it_backfill_active final \<and>
           should_early_exit_for_known_confirmed_page (ic_allow_known_confirmed_early_exit ctx) page (it_known_confirmed final)) in
     act_bind (world_action (me_utc_now me)) (\<lambda>now.
     act_bind (act_lift (to_summary_json me (it_run_summary final))) (\<lambda>json.
     act_return
       \<lparr>ir_new_tx_count = rs_new_tx_count summary, ir_updated_tx_count = rs_updated_tx_count summary,
        ir_coverage_invalidation = rs_coverage_invalidation summary, ir_tip_height = tip_height, ir_completed_at = now,
        ir_has_more_work = (it_cursor final \<noteq> None \<and> \<not> early_exited), ir_early_exited = early_exited,
        ir_observed_activity = False, ir_ledger_rebuild_required = ledger_rebuild_required,
        ir_raw_run_summary_json = Some json, ir_api_confirmed_balance = None\<rparr>)))))))))))"

definition run_mempool_iteration ::
  "'x MempoolEnv \<Rightarrow> IntegrationIterationContext \<Rightarrow> int \<Rightarrow> ('x MempoolRun, SyncIterationResult) action" where
  "run_mempool_iteration me ctx tip_height =
     act_bind (act_gets run_state) (\<lambda>st.
     if it_first_page_done st \<and> it_cursor st = None then empty_page_result me tip_height
     else
       let page_cursor = (if it_first_page_done st then it_cursor st else None) in
       act_bind (world_action (me_utc_now me)) (\<lambda>at.
       act_bind (fetch_and_persist_mempool_transaction_page me ctx page_cursor at) (\<lambda>ingested.
       act_bind (update_state (\<lambda>st. st\<lparr>it_run_summary := record_page (ip_summary ingested) (it_run_summary st)\<rparr>)) (\<lambda>_.
       let page = ip_transactions ingested in
       if page = [] \<and> it_strict_scan_start_run_id st \<noteq> None
       then act_bind (complete_strict_mempool_history_scan me ctx
                (case it_backfill_expected_tx_count st of None \<Rightarrow> 0 | Some expected \<Rightarrow> expected) tip_height False)
              (\<lambda>_. empty_page_result me tip_height)
       else if page = [] \<and> it_first_page_done st
       then act_bind (update_state (\<lambda>st. st\<lparr>it_cursor := None\<rparr>)) (\<lambda>_. empty_page_result me tip_height)
       else
         act_bind (act_when (confirmed_mempool_tx_count_in_page page > 0) (publish_mempool_progress me ctx)) (\<lambda>_.
         act_bind (act_lift (map_mempool_transactions (me_timestamp me) page)) (\<lambda>mapped.
         act_bind (reconcile_mempool_transactions me ctx mapped at) (\<lambda>summary.
         act_map_err (\<lambda>err. with_coverage_invalidation err (rs_coverage_invalidation summary))
           (finish_page me ctx tip_height page_cursor page summary (mapped \<noteq> [])))))))))"

text \<open>The summary of the run and, once the history is proved, the end of the bookkeeping of the backfill.\<close>

definition finalize_terminal_run ::
  "'x MempoolEnv \<Rightarrow> ulid \<Rightarrow> bool \<Rightarrow> ('x MempoolRun, string option) action" where
  "finalize_terminal_run me address_id early_exited =
     act_bind (act_gets run_state) (\<lambda>st.
     let backfill_complete = (it_backfill_active st \<and> it_cursor st = None);
         summary = (if it_backfill_active st
           then (it_run_summary st)\<lparr>mr_backfill_complete := backfill_complete,
                  mr_backfill_budget_exhausted := (\<not> backfill_complete \<and> it_first_page_done st)\<rparr>
           else (it_run_summary st)\<lparr>mr_early_exit_known_confirmed := early_exited,
                  mr_incremental_budget_exhausted := (it_cursor st \<noteq> None \<and> \<not> early_exited)\<rparr>) in
     act_bind (update_state (\<lambda>st. st\<lparr>it_run_summary := summary\<rparr>)) (\<lambda>_.
     act_bind (act_when (backfill_complete \<and> it_proof_published st)
         (act_bind (db_write_now me (update_address_mempool_backfill_cursor (me_env me) address_id None)) (\<lambda>_.
          db_write_now me (\<lambda>now. update_address_mempool_expected_tx_count (me_env me) address_id None now)))) (\<lambda>_.
     act_bind (act_lift (to_summary_json me summary)) (\<lambda>json. act_return (Some json)))))"

text \<open>
  What happens once the state is there. Beside the result, whether the state is given up (\<open>reset_iteration_state\<close>); an error
  keeps it, the caller resets it.
\<close>

definition iterate ::
  "'x MempoolEnv \<Rightarrow> IntegrationIterationContext \<Rightarrow> int \<Rightarrow> ('x MempoolRun, SyncIterationResult \<times> bool) action" where
  "iterate me ctx tip_height =
     act_bind (act_gets (\<lambda>s. it_visit (run_state s))) (\<lambda>visit.
     act_bind (publish_mempool_progress me ctx) (\<lambda>_.
     let stats = visit_stats visit; address_id = sa_address_id (ic_address ctx) in
     if \<not> ic_transaction_page_permitted ctx
     then act_bind (empty_result me tip_height (\<not> zero_stats_skip_transaction_page stats) (stats_confirmed_balance stats) no_run_summary)
            (\<lambda>r. act_return (r, False))
     else if zero_stats_skip_transaction_page stats
     then act_bind (finalize_terminal_run me address_id False) (\<lambda>json.
          act_bind (world_action (me_utc_now me)) (\<lambda>now.
          act_return
            (\<lparr>ir_new_tx_count = 0, ir_updated_tx_count = 0, ir_coverage_invalidation = no_targets,
              ir_tip_height = visit_tip_height visit, ir_completed_at = now, ir_has_more_work = False, ir_early_exited = False,
              ir_observed_activity = False, ir_ledger_rebuild_required = False, ir_raw_run_summary_json = json,
              ir_api_confirmed_balance = stats_confirmed_balance stats\<rparr>, True)))
     else
       act_bind (run_mempool_iteration me ctx tip_height) (\<lambda>r0.
       let r = r0\<lparr>ir_observed_activity := True, ir_api_confirmed_balance := stats_confirmed_balance stats\<rparr> in
       act_bind (act_map_err (\<lambda>err. preserve_iteration_error err r) (finalize_terminal_run me address_id (ir_early_exited r))) (\<lambda>json.
       act_return (r\<lparr>ir_raw_run_summary_json := json\<rparr>, \<not> ir_has_more_work r)))))"

definition system_of :: "'x MempoolRun \<Rightarrow> 'x MempoolSystem" where
  "system_of s = \<lparr>my_db = my_db s, my_raw = my_raw s, my_events = my_events s, my_world = my_world s\<rparr>"

definition with_state :: "MempoolIterationState \<Rightarrow> 'x MempoolSystem \<Rightarrow> 'x MempoolRun" where
  "with_state st s = \<lparr>my_db = my_db s, my_raw = my_raw s, my_events = my_events s, my_world = my_world s, run_state = st\<rparr>"

definition ensure_initialized ::
  "'x MempoolEnv \<Rightarrow> IntegrationIterationContext \<Rightarrow> int \<Rightarrow> MempoolIterationState option \<Rightarrow>
     ('x MempoolSystem, MempoolIterationState) action" where
  "ensure_initialized me ctx tip_height kept =
     (case kept of None \<Rightarrow> initialize_iteration me ctx tip_height | Some st \<Rightarrow> act_return st)"

definition sync_one_iteration ::
  "'x MempoolEnv \<Rightarrow> IntegrationIterationContext \<Rightarrow> MempoolIterationState option \<Rightarrow> 'x MempoolSystem \<Rightarrow>
     ((UserTransactionMonitorError + SyncIterationResult) \<times> MempoolIterationState option \<times> 'x MempoolSystem) option" where
  "sync_one_iteration me ctx kept s =
     (case ic_chain_tip ctx of
        None \<Rightarrow> Some (Inl (Parse ''mempool integration requires a chain tip height''), kept, s)
      | Some tip_height \<Rightarrow>
          if \<not> ic_mempool_client ctx
          then Some (Inl (Parse (''mempool client unavailable for '' @ asset_as_str (sa_asset_id (ic_address ctx)) @ '' sync'')), kept, s)
          else
            (case ensure_initialized me ctx tip_height kept s of
              None \<Rightarrow> None
            | Some (Inl err, s') \<Rightarrow> Some (Inl err, kept, s')
            | Some (Inr st, s') \<Rightarrow>
                (case iterate me ctx tip_height (with_state st s') of
                   None \<Rightarrow> None
                 | Some (Inl err, s'') \<Rightarrow> Some (Inl err, Some (run_state s''), system_of s'')
                 | Some (Inr (r, reset), s'') \<Rightarrow> Some (Inr r, if reset then None else Some (run_state s''), system_of s''))))"

end
