(* ===== verification/Mempool_Scan_Spec.thy ===== *)
theory Mempool_Scan_Spec
  imports Mempool_Scan
begin

section \<open>A scan is accepted exactly when its pages are one complete chain\<close>

text \<open>
  The specification of the validation, without the walk: the pages can be put in one order in which each is the page the
  one before asked for, the first is the only first page, the last ends the scan, and none is left over. The
  validation accepts the evidence if and only if there is such an order and the confirmed transactions of the pages are
  as many as the provider says and those that are stored.
\<close>

subsection \<open>The specification\<close>

definition later_page :: "PageObservation \<Rightarrow> bool" where
  "later_page page \<longleftrightarrow> md_page_kind (po_metadata page) = PaginatedAfterConfirmed \<and> po_requested_cursor page \<noteq> None"

text \<open>A scan ends with an empty page, or, where the caller allows it, with the page that repeats a known cursor alone.\<close>

definition ends_scan :: "bool \<Rightarrow> TxHash set \<Rightarrow> PageObservation \<Rightarrow> bool" where
  "ends_scan allow before page \<longleftrightarrow>
     (case po_returned_cursor page of
        None \<Rightarrow> md_item_count (po_metadata page) = 0 \<and> po_membership_count page = 0
      | Some cursor \<Rightarrow> allow \<and> po_requested_cursor page = Some cursor \<and> po_membership_count page = 1 \<and>
          (case po_confirmed_txids page of [] \<Rightarrow> False | t # _ \<Rightarrow> t = cursor) \<and> cursor \<in> before)"

definition leads_to :: "PageObservation \<Rightarrow> PageObservation \<Rightarrow> bool" where
  "leads_to page next_page \<longleftrightarrow>
     po_returned_cursor page \<noteq> None \<and> po_requested_cursor page \<noteq> po_returned_cursor page \<and>
     po_requested_cursor next_page = po_returned_cursor page"

fun chain_of_pages :: "bool \<Rightarrow> TxHash set \<Rightarrow> PageObservation list \<Rightarrow> bool" where
  "chain_of_pages allow before [] = False"
| "chain_of_pages allow before [page] = ends_scan allow before page"
| "chain_of_pages allow before (page # next_page # rest) =
     (leads_to page next_page \<and> chain_of_pages allow (before \<union> set (po_confirmed_txids page)) (next_page # rest))"

definition complete_scan :: "bool \<Rightarrow> PageObservation list \<Rightarrow> nat list \<Rightarrow> bool" where
  "complete_scan allow pages path \<longleftrightarrow>
     path \<noteq> [] \<and> distinct path \<and> set path = {0..<length pages} \<and>
     is_first_page (pages ! hd path) \<and> list_all (\<lambda>i. later_page (pages ! i)) (tl path) \<and>
     distinct (map (\<lambda>i. po_requested_cursor (pages ! i)) (tl path)) \<and> chain_of_pages allow {} (map ((!) pages) path)"

definition confirmed_of :: "PageObservation list \<Rightarrow> TxHash set" where
  "confirmed_of pages = \<Union> (set ` po_confirmed_txids ` set pages)"

subsection \<open>The links\<close>

definition requested_links :: "PageObservation list \<Rightarrow> nat list \<Rightarrow> (TxHash \<times> nat) list" where
  "requested_links pages is = rev (map (\<lambda>i. (the (po_requested_cursor (pages ! i)), i)) is)"

lemma link_fold:
  "res_fold (link_page pages first) acc is = Inr successors \<longleftrightarrow>
     (let js = filter (\<lambda>i. i \<noteq> first) is in
      list_all (\<lambda>i. later_page (pages ! i)) js \<and> successors = requested_links pages js @ acc \<and>
      distinct (map (\<lambda>i. the (po_requested_cursor (pages ! i))) js) \<and>
      (\<forall>i \<in> set js. the (po_requested_cursor (pages ! i)) \<notin> fst ` set acc))"
proof (induction "is" arbitrary: acc)
  case Nil
  show ?case by (auto simp: requested_links_def)
next
  case (Cons i "is")
  show ?case
  proof (cases "i = first")
    case True
    then show ?thesis using Cons.IH [of acc] by (simp add: link_page_def)
  next
    case False
    show ?thesis
    proof (cases "later_page (pages ! i) \<and> the (po_requested_cursor (pages ! i)) \<notin> fst ` set acc")
      case True
      then obtain cursor where c: "po_requested_cursor (pages ! i) = Some cursor" "cursor \<notin> fst ` set acc"
        by (auto simp: later_page_def)
      then have "link_page pages first acc i = Inr ((cursor, i) # acc)"
        using False True by (simp add: link_page_def later_page_def map_of_eq_None_iff)
      then show ?thesis using Cons.IH [of "(cursor, i) # acc"] c False True
        by (auto simp: requested_links_def Let_def)
    next
      case bad: False
      then have "\<exists>e. link_page pages first acc i = Inl e"
        using False by (force simp: link_page_def later_page_def map_of_eq_None_iff split: option.split)
      then show ?thesis using bad False by (auto simp: Let_def)
    qed
  qed
qed

lemma link_pages_Inr:
  "link_pages pages first = Inr successors \<longleftrightarrow>
     (let js = filter (\<lambda>i. i \<noteq> first) [0..<length pages] in
      list_all (\<lambda>i. later_page (pages ! i)) js \<and> successors = requested_links pages js \<and>
      distinct (map (\<lambda>i. the (po_requested_cursor (pages ! i))) js))"
  by (simp add: link_pages_def link_fold Let_def)

lemma map_of_requested_links:
  assumes "distinct (map (\<lambda>i. the (po_requested_cursor (pages ! i))) js)"
  shows "map_of (requested_links pages js) cursor = Some j \<longleftrightarrow> j \<in> set js \<and> the (po_requested_cursor (pages ! j)) = cursor"
proof -
  have "map fst (requested_links pages js) = rev (map (\<lambda>i. the (po_requested_cursor (pages ! i))) js)"
    by (simp add: requested_links_def rev_map comp_def)
  with assms have "distinct (map fst (requested_links pages js))" by simp
  then have "map_of (requested_links pages js) cursor = Some j \<longleftrightarrow> (cursor, j) \<in> set (requested_links pages js)"
    by (rule map_of_eq_Some_iff)
  then show ?thesis by (auto simp: requested_links_def)
qed

subsection \<open>The walk\<close>

lemma ends_scan_None:
  "po_returned_cursor page = None \<Longrightarrow>
     ends_scan allow before page \<longleftrightarrow> md_item_count (po_metadata page) = 0 \<and> po_membership_count page = 0"
  by (simp add: ends_scan_def)

lemma ends_scan_Some:
  "po_returned_cursor page = Some cursor \<Longrightarrow>
     ends_scan allow (set observed) page \<longleftrightarrow>
       po_requested_cursor page = Some cursor \<and> singleton_duplicate_terminal allow observed page"
  by (auto simp: ends_scan_def singleton_duplicate_terminal_def split: option.splits list.splits)

lemma confirmed_of_Cons: "confirmed_of (page # pages) = set (po_confirmed_txids page) \<union> confirmed_of pages"
  by (simp add: confirmed_of_def)

lemma confirmed_of_Nil [simp]: "confirmed_of [] = {}"
  by (simp add: confirmed_of_def)

text \<open>What a walk that ends has walked.\<close>

definition walked ::
  "bool \<Rightarrow> PageObservation list \<Rightarrow> (TxHash \<times> nat) list \<Rightarrow> nat list \<Rightarrow> TxHash list \<Rightarrow> nat \<Rightarrow> nat list \<times> TxHash list \<Rightarrow>
     nat list \<Rightarrow> bool" where
  "walked allow pages successors visited observed current result path \<longleftrightarrow>
     path \<noteq> [] \<and> hd path = current \<and> fst result = rev path @ visited \<and> distinct path \<and> set path \<inter> set visited = {} \<and>
     set (tl path) \<subseteq> snd ` set successors \<and> chain_of_pages allow (set observed) (map ((!) pages) path) \<and>
     set (snd result) = set observed \<union> confirmed_of (map ((!) pages) path) \<and> sorted_wrt (<) (snd result)"

lemma walk_ends:
  assumes "sorted_wrt (<) observed" and "current \<notin> set visited" and "ends_scan allow (set observed) (pages ! current)"
  shows "walked allow pages successors visited observed current
    (current # visited, fold btree_insert (po_confirmed_txids (pages ! current)) observed) [current]"
  using assms fold_btree_insert [OF assms(1)] by (auto simp: walked_def confirmed_of_Cons)

lemma walk_continues:
  assumes "current \<notin> set visited" and next_page: "map_of successors cursor = Some next_page"
    and page: "po_returned_cursor (pages ! current) = Some cursor" "po_requested_cursor (pages ! current) \<noteq> Some cursor"
    and "po_requested_cursor (pages ! next_page) = Some cursor" and sorted: "sorted_wrt (<) observed"
    and rest: "walked allow pages successors (current # visited)
      (fold btree_insert (po_confirmed_txids (pages ! current)) observed) next_page result path"
  shows "walked allow pages successors visited observed current result (current # path)"
proof -
  from rest obtain ns where path: "path = next_page # ns" by (cases path) (auto simp: walked_def)
  have "leads_to (pages ! current) (pages ! next_page)" using assms(3-5) by (simp add: leads_to_def)
  moreover have "next_page \<in> snd ` set successors" using next_page by (force dest: map_of_SomeD)
  ultimately show ?thesis
    using rest assms(1) fold_btree_insert [OF sorted]
    by (auto simp: walked_def path confirmed_of_Cons Un_ac)
qed

lemma walk_sound:
  assumes "walk_pages allow pages successors visited observed current = Inr result" and "sorted_wrt (<) observed"
    and "\<forall>cursor j. map_of successors cursor = Some j \<longrightarrow> po_requested_cursor (pages ! j) = Some cursor"
  shows "\<exists>path. walked allow pages successors visited observed current result path"
  using assms
proof (induction allow pages successors visited observed current rule: walk_pages.induct)
  case (1 allow pages successors visited observed current)
  let ?page = "pages ! current"
  let ?observed = "fold btree_insert (po_confirmed_txids ?page) observed"
  have new: "current \<notin> set visited" using "1.prems"(1) by (auto simp: walk_pages.simps [of allow pages])
  show ?case
  proof (cases "po_returned_cursor ?page")
    case None
    then have "ends_scan allow (set observed) ?page" and "result = (current # visited, ?observed)"
      using "1.prems"(1) new by (auto simp: walk_pages.simps [of allow pages] Let_def ends_scan_None split: if_splits)
    then show ?thesis using walk_ends [OF "1.prems"(2) new] by blast
  next
    case (Some cursor)
    show ?thesis
    proof (cases "po_requested_cursor ?page = Some cursor")
      case True
      then have "ends_scan allow (set observed) ?page" and "result = (current # visited, ?observed)"
        using "1.prems"(1) new Some
        by (auto simp: walk_pages.simps [of allow pages] Let_def ends_scan_Some split: if_splits)
      then show ?thesis using walk_ends [OF "1.prems"(2) new] by blast
    next
      case False
      then obtain next_page where next_page: "map_of successors cursor = Some next_page"
        and rest: "walk_pages allow pages successors (current # visited) ?observed next_page = Inr result"
        using "1.prems"(1) new Some
        by (auto simp: walk_pages.simps [of allow pages] Let_def split: option.splits)
      have "sorted_wrt (<) ?observed" using fold_btree_insert [OF "1.prems"(2)] by blast
      then obtain path where "walked allow pages successors (current # visited) ?observed next_page result path"
        using "1.IH" [OF new refl refl Some False next_page rest _ "1.prems"(3)] by blast
      moreover have "po_requested_cursor (pages ! next_page) = Some cursor" using "1.prems"(3) next_page by blast
      ultimately show ?thesis using walk_continues [OF new next_page Some False _ "1.prems"(2)] by blast
    qed
  qed
qed

text \<open>Conversely the walk follows a chain whose links are the ones it is given.\<close>

lemma walk_complete:
  assumes "chain_of_pages allow (set observed) (map ((!) pages) path)" and "distinct path"
    and "set path \<inter> set visited = {}" and "sorted_wrt (<) observed"
    and "\<forall>i \<in> set (tl path). map_of successors (the (po_requested_cursor (pages ! i))) = Some i"
  shows "\<exists>observed'. walk_pages allow pages successors visited observed (hd path) = Inr (rev path @ visited, observed')"
  using assms
proof (induction path arbitrary: visited observed)
  case Nil
  then show ?case by simp
next
  case (Cons current path)
  let ?page = "pages ! current"
  let ?observed = "fold btree_insert (po_confirmed_txids ?page) observed"
  have obs: "set ?observed = set observed \<union> set (po_confirmed_txids ?page)" "sorted_wrt (<) ?observed"
    using fold_btree_insert [OF Cons.prems(4)] by blast+
  have new: "current \<notin> set visited" using Cons.prems(3) by simp
  show ?case
  proof (cases path)
    case Nil
    with Cons.prems(1) have ends: "ends_scan allow (set observed) ?page" by simp
    then show ?thesis using new Nil
      by (cases "po_returned_cursor ?page")
        (auto simp: walk_pages.simps [of allow pages] Let_def ends_scan_None ends_scan_Some)
  next
    case (Cons next_page rest)
    with Cons.prems(1) have leads: "leads_to ?page (pages ! next_page)"
      and chain: "chain_of_pages allow (set ?observed) (map ((!) pages) path)" by (simp_all add: obs)
    from leads obtain cursor where cursor: "po_returned_cursor ?page = Some cursor" "po_requested_cursor ?page \<noteq> Some cursor"
        "po_requested_cursor (pages ! next_page) = Some cursor" by (auto simp: leads_to_def)
    then have "map_of successors cursor = Some next_page" using Cons.prems(5) Cons by simp
    then have "walk_pages allow pages successors visited observed current =
        walk_pages allow pages successors (current # visited) ?observed next_page"
      using cursor new by (simp add: walk_pages.simps [of allow pages successors visited] Let_def)
    moreover have "\<exists>observed'. walk_pages allow pages successors (current # visited) ?observed (hd path) =
        Inr (rev path @ current # visited, observed')"
      using Cons.prems(2,3,5) obs(2) Cons by (intro Cons.IH [OF chain]) auto
    ultimately show ?thesis using Cons by simp
  qed
qed

subsection \<open>Acceptance\<close>

lemma first_pages_single:
  "first_pages pages = [first] \<longleftrightarrow>
     first < length pages \<and> is_first_page (pages ! first) \<and> (\<forall>i < length pages. is_first_page (pages ! i) \<longrightarrow> i = first)"
proof -
  have d: "distinct (first_pages pages)" by (simp add: first_pages_def)
  have "first_pages pages = [first] \<longleftrightarrow> set (first_pages pages) = {first}"
  proof
    assume s: "set (first_pages pages) = {first}"
    then have "length (first_pages pages) = 1" using distinct_card [OF d] by simp
    with s show "first_pages pages = [first]" by (cases "first_pages pages") auto
  qed simp
  then show ?thesis by (auto simp: first_pages_def)
qed

lemma confirmed_of_set: "set pages = set pages' \<Longrightarrow> confirmed_of pages = confirmed_of pages'"
  by (simp add: confirmed_of_def)

lemma inj_on_the_requested:
  assumes "\<forall>i \<in> A. later_page (pages ! i)"
  shows "inj_on (\<lambda>i. the (po_requested_cursor (pages ! i))) A \<longleftrightarrow> inj_on (\<lambda>i. po_requested_cursor (pages ! i)) A"
  using assms unfolding inj_on_def later_page_def by (metis option.collapse)

lemma distinct_the_requested:
  assumes "distinct is" and "\<forall>i \<in> set is. later_page (pages ! i)"
  shows "distinct (map (\<lambda>i. the (po_requested_cursor (pages ! i))) is) \<longleftrightarrow>
    distinct (map (\<lambda>i. po_requested_cursor (pages ! i)) is)"
  using assms inj_on_the_requested [OF assms(2)] by (simp only: distinct_map simp_thms)

lemma complete_scan_walked:
  assumes first: "first_pages pages = [first]" and links: "link_pages pages first = Inr successors"
    and walk: "walk_pages allow pages successors [] [] first = Inr (visited, observed)"
    and all: "length visited = length pages"
  shows "(\<exists>path. complete_scan allow pages path) \<and> set observed = confirmed_of pages \<and> sorted_wrt (<) observed"
proof -
  define js where "js = filter (\<lambda>i. i \<noteq> first) [0..<length pages]"
  have js: "list_all (\<lambda>i. later_page (pages ! i)) js" "successors = requested_links pages js"
      "distinct (map (\<lambda>i. the (po_requested_cursor (pages ! i))) js)"
    using links unfolding link_pages_Inr js_def Let_def by blast+
  have set_js: "snd ` set successors = set js" "set js = {0..<length pages} - {first}" "distinct js"
    by (auto simp: js(2) requested_links_def js_def image_image)
  have "po_requested_cursor (pages ! j) = Some cursor" if "map_of successors cursor = Some j" for cursor j
    using that js unfolding js(2) map_of_requested_links [OF js(3)] by (auto simp: list_all_iff later_page_def)
  then obtain path where path: "walked allow pages successors [] [] first (visited, observed) path"
    using walk_sound [OF walk] by auto
  then have p: "path \<noteq> []" "hd path = first" "visited = rev path" "distinct path" "set (tl path) \<subseteq> set js"
      "chain_of_pages allow {} (map ((!) pages) path)" "set observed = confirmed_of (map ((!) pages) path)"
      "sorted_wrt (<) observed"
    by (auto simp: walked_def set_js)
  have f: "first < length pages" "is_first_page (pages ! first)" using first by (simp_all add: first_pages_single)
  obtain rest where rest: "path = first # rest" using p(1,2) by (cases path) auto
  have "set path \<subseteq> {0..<length pages}" using p(5) f set_js(2) by (auto simp: rest)
  moreover have "card (set path) = length pages" using distinct_card [OF p(4)] all p(3) by simp
  ultimately have set_path: "set path = {0..<length pages}"
    using card_subset_eq [OF finite_atLeastLessThan, of "set path" 0 "length pages"] by simp
  have "set (map ((!) pages) path) = (!) pages ` {0..<length pages}" using set_path by (simp only: set_map)
  also have "\<dots> = set pages" by (simp add: nth_image [of "length pages" pages, simplified])
  finally have "set observed = confirmed_of pages" using p(7) confirmed_of_set by metis
  moreover have "complete_scan allow pages path"
  proof -
    have later: "\<forall>i \<in> set (tl path). later_page (pages ! i)" using p(5) js(1) by (auto simp: list_all_iff)
    have "inj_on (\<lambda>i. the (po_requested_cursor (pages ! i))) (set (tl path))"
      using js(3) p(5) inj_on_subset unfolding distinct_map by blast
    then have "distinct (map (\<lambda>i. the (po_requested_cursor (pages ! i))) (tl path))"
      using p(4) distinct_tl unfolding distinct_map by blast
    then have "distinct (map (\<lambda>i. po_requested_cursor (pages ! i)) (tl path))"
      using distinct_the_requested [OF distinct_tl [OF p(4)] later] by blast
    then show ?thesis
      using p(1,2,4,6) f(2) set_path later by (simp only: complete_scan_def list_all_iff simp_thms)
  qed
  ultimately show ?thesis using p(8) by blast
qed

lemma walked_complete_scan:
  assumes scan: "complete_scan allow pages path"
  obtains successors observed where "first_pages pages = [hd path]" and "link_pages pages (hd path) = Inr successors"
    and "walk_pages allow pages successors [] [] (hd path) = Inr (rev path, observed)"
proof -
  obtain first rest where path: "path = first # rest" using scan by (cases path) (auto simp: complete_scan_def)
  have p: "distinct path" "set path = {0..<length pages}" "is_first_page (pages ! first)" "\<forall>i \<in> set rest. later_page (pages ! i)"
      "distinct (map (\<lambda>i. po_requested_cursor (pages ! i)) rest)" "chain_of_pages allow {} (map ((!) pages) path)"
    using scan by (auto simp: complete_scan_def path list_all_iff)
  define js where "js = filter (\<lambda>i. i \<noteq> first) [0..<length pages]"
  have "set js = {0..<length pages} - {first}" by (auto simp: js_def)
  moreover have "first \<notin> set rest" "insert first (set rest) = {0..<length pages}" using p(1,2) by (simp_all add: path)
  ultimately have js: "set js = set rest" "distinct js" by (blast, simp add: js_def)
  have "first < length pages" using p(2) path by (metis atLeastLessThan_iff list.set_intros(1))
  moreover have "\<not> is_first_page (pages ! i)" if "i < length pages" "i \<noteq> first" for i
    using that p(2,4) path by (auto simp: is_first_page_def later_page_def)
  ultimately have one: "first_pages pages = [hd path]" using p(3) by (auto simp: first_pages_single path)
  have "inj_on (\<lambda>i. po_requested_cursor (pages ! i)) (set rest)" using p(5) by (simp add: distinct_map)
  then have d: "distinct (map (\<lambda>i. the (po_requested_cursor (pages ! i))) js)"
    using inj_on_the_requested [OF p(4)] js by (simp add: distinct_map)
  then have links: "link_pages pages (hd path) = Inr (requested_links pages js)"
    using p(4) js(1) unfolding link_pages_Inr Let_def path list.sel js_def [symmetric] by (simp add: list_all_iff)
  have "\<forall>i \<in> set (tl path). map_of (requested_links pages js) (the (po_requested_cursor (pages ! i))) = Some i"
    using map_of_requested_links [OF d] js(1) by (simp add: path)
  then obtain observed where "walk_pages allow pages (requested_links pages js) [] [] (hd path) = Inr (rev path, observed)"
    using walk_complete [of allow "[]" pages path "[]" "requested_links pages js"] p(1,6) by auto
  with one links show ?thesis by (rule that)
qed

text \<open>An error of a step is a reason to restart, never an acceptance.\<close>

lemma walk_not_exact: "walk_pages allow pages successors visited observed current \<noteq> Inl ScanExact"
  by (induction allow pages successors visited observed current rule: walk_pages.induct)
    (subst walk_pages.simps, auto simp: restart_def Let_def split: option.split)

lemma link_page_not_exact: "link_page pages first acc i \<noteq> Inl ScanExact"
  by (simp add: link_page_def restart_def split: option.split)

lemma res_fold_not_Inl: "(\<And>acc x. f acc x \<noteq> Inl e) \<Longrightarrow> res_fold f acc xs \<noteq> Inl e"
  by (induction xs arbitrary: acc) (auto simp: res_bind_Inl_iff)

lemma res_mapM_not_Inl: "(\<And>x. f x \<noteq> Inl e) \<Longrightarrow> res_mapM f xs \<noteq> Inl e"
  by (induction xs) (auto simp: res_bind_Inl_iff)

lemma link_not_exact: "link_pages pages first \<noteq> Inl ScanExact"
  by (simp add: link_pages_def res_fold_not_Inl link_page_not_exact)

lemma load_scan_not_exact: "load_scan_pages env c rdb address_id start_run_id \<noteq> Inl ScanExact"
proof -
  have "read_membership c acc row \<noteq> Inl ScanExact" for acc row
    by (cases acc; cases row) (auto simp: res_bind_Inl_iff restart_def)
  then have fold: "res_fold (read_membership c) acc rows \<noteq> Inl ScanExact" for acc rows by (simp add: res_fold_not_Inl)
  have cursor: "parse_cursor raw \<noteq> Inl ScanExact" for raw
    by (cases raw; cases "tx_hash_parse (the raw)") (auto simp: parse_cursor_def restart_def)
  have "load_page_observation env c rdb id_raw metadata_raw a r \<noteq> Inl ScanExact" for id_raw metadata_raw a r
    using fold cursor by (auto simp: load_page_observation_def restart_def res_bind_Inl_iff split: if_splits)
  then show ?thesis unfolding load_scan_pages_def by (rule res_mapM_not_Inl)
qed

lemma validate_scan_pages_exact:
  "validate_scan_pages db pages address_id expected allow = Inr ScanExact \<longleftrightarrow>
     (\<exists>path. complete_scan allow pages path) \<and> card (confirmed_of pages) = unat expected \<and>
     load_confirmed_bitcoin_tx_hashes_for_address_conn db address_id = Inr (confirmed_of pages)"
  (is "?exact \<longleftrightarrow> ?spec")
proof
  assume e: ?exact
  obtain first where first: "first_pages pages = [first]"
    using e by (auto simp: validate_scan_pages_def restart_def split: list.splits)
  obtain successors visited observed where links: "link_pages pages first = Inr successors"
    and walk: "walk_pages allow pages successors [] [] first = Inr (visited, observed)"
    using e by (auto simp: validate_scan_pages_def first walk_not_exact link_not_exact res_bind_Inl_iff split: sum.splits)
  have rest: "length visited = length pages" "length observed = unat expected"
      "load_confirmed_bitcoin_tx_hashes_for_address_conn db address_id = Inr (set observed)"
    using e by (auto simp: validate_scan_pages_def first links walk restart_def split: if_splits sum.splits)
  from complete_scan_walked [OF first links walk rest(1)]
  have done': "\<exists>path. complete_scan allow pages path" "set observed = confirmed_of pages" "sorted_wrt (<) observed" by blast+
  moreover have "card (set observed) = length observed"
    using done'(3) distinct_card strict_sorted_iff by metis
  ultimately show ?spec using rest by simp
next
  assume s: ?spec
  then obtain path where scan: "complete_scan allow pages path" by blast
  obtain successors observed where first: "first_pages pages = [hd path]" and links: "link_pages pages (hd path) = Inr successors"
    and walk: "walk_pages allow pages successors [] [] (hd path) = Inr (rev path, observed)"
    using walked_complete_scan [OF scan] by blast
  have p: "distinct path" "set path = {0..<length pages}" using scan by (simp_all add: complete_scan_def)
  then have all: "length (rev path) = length pages" using distinct_card [OF p(1)] by simp
  from complete_scan_walked [OF first links walk all]
  have "set observed = confirmed_of pages" "sorted_wrt (<) observed" by blast+
  moreover from this(2) have "card (set observed) = length observed" using distinct_card strict_sorted_iff by metis
  ultimately show ?exact using s first links walk all by (simp add: validate_scan_pages_def)
qed


end
