(* ===== verification/Mempool_Iteration_Spec.thy ===== *)
theory Mempool_Iteration_Spec
  imports Mempool_Iteration Mempool_Scan_Spec "HOL-Library.Code_Target_Nat"
begin

section \<open>What an iteration of the sync of a Bitcoin address guarantees\<close>

text \<open>
  Facts about \<open>Mempool_Iteration\<close> for every provider, every clock and every state of the database. The facts about an action
  follow its structure: \<open>act_post m s Q E\<close> says that \<open>m\<close>, run in \<open>s\<close>, establishes \<open>Q\<close> of its result and the state after
  it, and \<open>E\<close> of its error and the state after it; there is one equation for each way of composing actions.
\<close>

subsection \<open>What holds after an action\<close>

named_theorems act_posts

definition act_post ::
  "('s, 'a) action \<Rightarrow> 's \<Rightarrow> ('a \<Rightarrow> 's \<Rightarrow> bool) \<Rightarrow> (UserTransactionMonitorError \<Rightarrow> 's \<Rightarrow> bool) \<Rightarrow> bool" where
  "act_post m s Q E \<longleftrightarrow>
     (case m s of None \<Rightarrow> True | Some (Inl err, s') \<Rightarrow> E err s' | Some (Inr a, s') \<Rightarrow> Q a s')"

lemma act_postI:
  "(\<And>a s'. m s = Some (Inr a, s') \<Longrightarrow> Q a s') \<Longrightarrow> (\<And>err s'. m s = Some (Inl err, s') \<Longrightarrow> E err s') \<Longrightarrow> act_post m s Q E"
  by (auto simp: act_post_def split: option.split sum.split)

lemma act_post_result: "act_post m s Q E \<Longrightarrow> m s = Some (Inr a, s') \<Longrightarrow> Q a s'"
  by (simp add: act_post_def)

lemma act_post_error: "act_post m s Q E \<Longrightarrow> m s = Some (Inl err, s') \<Longrightarrow> E err s'"
  by (simp add: act_post_def)

lemma act_post_mono:
  "act_post m s Q E \<Longrightarrow> (\<And>a s'. Q a s' \<Longrightarrow> Q' a s') \<Longrightarrow> (\<And>err s'. E err s' \<Longrightarrow> E' err s') \<Longrightarrow> act_post m s Q' E'"
  by (auto simp: act_post_def split: option.splits sum.splits)

lemma act_post_conj:
  "act_post m s Q E \<Longrightarrow> act_post m s Q' E' \<Longrightarrow> act_post m s (\<lambda>a s'. Q a s' \<and> Q' a s') (\<lambda>err s'. E err s' \<and> E' err s')"
  by (auto simp: act_post_def split: option.splits sum.splits)

lemma act_post_same: "m s = m' s' \<Longrightarrow> act_post m s Q E \<longleftrightarrow> act_post m' s' Q E"
  by (simp add: act_post_def)

lemma act_post_trivial [simp]: "act_post m s (\<lambda>_ _. True) (\<lambda>_ _. True)"
  by (auto simp: act_post_def split: option.splits sum.splits)

lemma act_post_bind [act_posts]: "act_post (act_bind m f) s Q E \<longleftrightarrow> act_post m s (\<lambda>a s'. act_post (f a) s' Q E) E"
  by (auto simp: act_post_def act_bind_def split: option.splits sum.splits)

lemma act_post_return [act_posts]: "act_post (act_return a) s Q E \<longleftrightarrow> Q a s"
  by (simp add: act_post_def act_return_def)

lemma act_post_fail [act_posts]: "act_post (act_fail err) s Q E \<longleftrightarrow> E err s"
  by (simp add: act_post_def act_fail_def)

lemma act_post_lift [act_posts]: "act_post (act_lift r) s Q E \<longleftrightarrow> (case r of Inl err \<Rightarrow> E err s | Inr a \<Rightarrow> Q a s)"
  by (simp add: act_post_def act_lift_def split: sum.split)

lemma act_post_lift_state [act_posts]:
  "act_post (\<lambda>s. act_lift (h s) s) s Q E \<longleftrightarrow> (case h s of Inl err \<Rightarrow> E err s | Inr a \<Rightarrow> Q a s)"
  by (simp add: act_post_def act_lift_def split: sum.split)

lemma act_post_gets [act_posts]: "act_post (act_gets f) s Q E \<longleftrightarrow> Q (f s) s"
  by (simp add: act_post_def act_gets_def)

lemma act_post_modify [act_posts]: "act_post (act_modify f) s Q E \<longleftrightarrow> Q () (f s)"
  by (simp add: act_post_def act_modify_def)

lemma act_post_when [act_posts]: "act_post (act_when b m) s Q E \<longleftrightarrow> (if b then act_post m s Q E else Q () s)"
  by (simp add: act_when_def act_post_return)

lemma act_post_if: "(b \<Longrightarrow> act_post m s Q E) \<Longrightarrow> (\<not> b \<Longrightarrow> act_post m' s Q E) \<Longrightarrow> act_post (if b then m else m') s Q E"
  by simp

lemma act_post_map_err [act_posts]: "act_post (act_map_err g m) s Q E \<longleftrightarrow> act_post m s Q (\<lambda>err. E (g err))"
  by (auto simp: act_post_def act_map_err_def split: option.splits sum.splits)

lemma act_post_update [act_posts]: "act_post (update_state f) s Q E \<longleftrightarrow> Q () (s\<lparr>run_state := f (run_state s)\<rparr>)"
  by (simp add: update_state_def act_posts)

lemma act_post_some: "act_post (\<lambda>s. Some (f s, g s)) s Q E \<longleftrightarrow> (case f s of Inl err \<Rightarrow> E err (g s) | Inr a \<Rightarrow> Q a (g s))"
  by (simp add: act_post_def)

lemma act_post_then:
  "act_post m s P E \<Longrightarrow> (\<And>a s'. P a s' \<Longrightarrow> act_post (f a) s' Q E) \<Longrightarrow> act_post (act_bind m f) s Q E"
  by (auto simp: act_post_bind intro: act_post_mono)

text \<open>Actions of which only the frame matters.\<close>

lemma act_post_world [act_posts]:
  "act_post (world_action f) s Q E \<longleftrightarrow> Q (fst (f (my_world s))) (s\<lparr>my_world := snd (f (my_world s))\<rparr>)"
  by (simp add: act_post_def world_action_def split: prod.split)

lemma act_post_read [act_posts]:
  "act_post (db_read f) s Q E \<longleftrightarrow> (case f (my_db s) of Inl err \<Rightarrow> E (Db err) s | Inr a \<Rightarrow> Q a s)"
  by (auto simp: act_post_def db_read_def split: sum.split)

lemma act_post_write [act_posts]:
  "act_post (db_write f) s Q E \<longleftrightarrow> (case f (my_db s) of Inl err \<Rightarrow> E (Db err) s | Inr db \<Rightarrow> Q () (s\<lparr>my_db := db\<rparr>))"
  by (auto simp: act_post_def db_write_def split: sum.split)

lemma act_post_write_now [act_posts]:
  "act_post (db_write_now me f) s Q E \<longleftrightarrow>
     (let now = fst (me_wall_clock me (my_world s)); s' = s\<lparr>my_world := snd (me_wall_clock me (my_world s))\<rparr> in
      case f now (my_db s) of Inl err \<Rightarrow> E (Db err) s' | Inr db \<Rightarrow> Q () (s'\<lparr>my_db := db\<rparr>))"
  by (simp add: db_write_now_def act_posts Let_def)

lemma act_post_provider_fail [act_posts]:
  "act_post (act_provider_fail me err) s Q E \<longleftrightarrow>
     (case monitor_error_from_mempool (me_codec me) err of None \<Rightarrow> True | Some e \<Rightarrow> E e s)"
  by (simp add: act_post_def act_provider_fail_def split: option.split)

subsection \<open>Where an interrupted backfill resumes\<close>

definition sync_row :: "UserDb \<Rightarrow> ulid \<Rightarrow> TransactionSyncStateRow option" where
  "sync_row db address_id = List.find (is_address_row address_id) (transaction_sync_state db)"

text \<open>The row of the address keeps the cursor that the integration keeps in memory.\<close>

definition resume_point_stored :: "IntegrationIterationContext \<Rightarrow> UserDb \<Rightarrow> string option \<Rightarrow> bool" where
  "resume_point_stored ctx db cursor \<longleftrightarrow>
     (case sync_row db (sa_address_id (ic_address ctx)) of
        None \<Rightarrow> False
      | Some r \<Rightarrow> res_option_map tx_hash_parse cursor = Inr (tss_backfill_cursor_txid r))"

lemma sync_row_updated:
  assumes "\<And>r. tss_address_id (f r) = tss_address_id r" and "\<And>r. tss_scope (f r) = tss_scope r"
  shows "sync_row (fst (update_address_row db a f)) b = map_option (\<lambda>r. if a = b then f r else r) (sync_row db b)"
  unfolding sync_row_def by (rule find_updated [OF assms])

lemma committed_cursor:
  assumes "commit_mempool_history_page_work env w now db = Inr db'"
  shows "\<exists>r. sync_row db' (pw_address_id w) = Some r \<and> tss_backfill_cursor_txid r = pw_next_cursor w"
proof -
  let ?f = "\<lambda>r. r\<lparr>tss_backfill_cursor_txid := pw_next_cursor w, tss_updated_at := env_to_rfc3339 env now\<rparr>"
  let ?u = "update_address_row db (pw_address_id w) ?f"
  from assms have "snd ?u \<noteq> 0" and rows: "transaction_sync_state db' = transaction_sync_state (fst ?u)"
    by (auto simp: commit_mempool_history_page_work_def require_row_Inr Let_def split: option.splits if_splits)
  then obtain r where "sync_row db (pw_address_id w) = Some r" by (auto simp: changed_rows sync_row_def)
  moreover have "sync_row (fst ?u) (pw_address_id w) = map_option (\<lambda>r. if pw_address_id w = pw_address_id w then ?f r else r) (sync_row db (pw_address_id w))"
    by (rule sync_row_updated) simp_all
  ultimately have "sync_row (fst ?u) (pw_address_id w) = Some (?f r)" by simp
  then show ?thesis using rows by (simp add: sync_row_def)
qed

lemma commit_page_work_post:
  "act_post (commit_page_work me ctx) s
     (\<lambda>_ s'. run_state s' = run_state s \<and> my_raw s' = my_raw s \<and>
       (it_backfill_active (run_state s) \<longrightarrow> resume_point_stored ctx (my_db s') (it_cursor (run_state s)))) (\<lambda>_ _. True)"
  by (auto simp: commit_page_work_def act_posts Let_def resume_point_stored_def dest!: committed_cursor split: sum.split option.splits)


subsection \<open>Publishing changes proofs and ledgers only\<close>

definition transactions_of where
  "transactions_of db = (digital_asset_addresses db, chain_transactions db, account_transfers db, transaction_inputs db,
     transaction_outputs db, utxos db)"

definition proof_stored :: "UserDb \<Rightarrow> ulid \<Rightarrow> MempoolHistoryProof \<Rightarrow> bool" where
  "proof_stored db address_id pr \<longleftrightarrow>
     list_ex (\<lambda>r. is_address_row address_id r \<and> tss_complete_tx_count r = Some (uint (proof_confirmed_tx_count pr)) \<and>
       tss_complete_height r = Some (proof_complete_height pr)) (transaction_sync_state db)"

lemma filter_nonempty_ex: "filter P xs \<noteq> [] \<longleftrightarrow> list_ex P xs"
  by (simp add: filter_empty_conv list_ex_iff)

lemma updated_rows_stored:
  assumes "update_sync_state db P f = (db', changed)" and "changed \<noteq> 0"
    and "\<And>r. P r \<Longrightarrow> is_address_row a (f r) \<and> tss_complete_tx_count (f r) = Some (uint (proof_confirmed_tx_count pr)) \<and>
      tss_complete_height (f r) = Some (proof_complete_height pr)"
  shows "proof_stored db' a pr \<and> transactions_of db' = transactions_of db"
proof -
  from assms(1,2) obtain r where "r \<in> set (transaction_sync_state db)" "P r"
    by (auto simp: update_sync_state_def filter_empty_conv)
  with assms(3) have "\<exists>q\<in>set (map (\<lambda>r. if P r then f r else r) (transaction_sync_state db)).
      is_address_row a q \<and> tss_complete_tx_count q = Some (uint (proof_confirmed_tx_count pr)) \<and> tss_complete_height q = Some (proof_complete_height pr)"
    by (intro bexI [of _ "f r"]) (auto simp: image_iff)
  with assms(1) show ?thesis by (auto simp: update_sync_state_def proof_stored_def transactions_of_def list_ex_iff)
qed

lemma conn_published:
  "publish_mempool_history_proof_conn db a pr t = Inr db' \<Longrightarrow> proof_stored db' a pr \<and> transactions_of db' = transactions_of db"
  "publish_strict_mempool_history_proof_conn db a run pr t = Inr db' \<Longrightarrow> proof_stored db' a pr \<and> transactions_of db' = transactions_of db"
  by (simp_all add: publish_mempool_history_proof_conn_def publish_strict_mempool_history_proof_conn_def split: prod.splits if_splits)
    (rule updated_rows_stored, assumption, simp, simp add: is_address_row_def)+

lemma address_proof_published:
  assumes "publish_address_proof env db pub = Inr db'" and "final_address_proof pub = Some ap"
  shows "proof_stored db' (pub_address_id ap) (pub_proof ap) \<and> transactions_of db' = transactions_of db"
  using assms by (auto simp: publish_address_proof_def Let_def dest: conn_published split: if_splits option.splits)

lemma ledger_change_keeps:
  "same_but_ledger account_id db db' \<Longrightarrow> transactions_of db' = transactions_of db \<and> proof_stored db' a pr = proof_stored db a pr"
  by (metis (no_types, lifting) UserDb.ext_inject UserDb.surjective UserDb.update_convs(13) proof_stored_def same_but_ledger_def transactions_of_def)

lemma completion_keeps:
  assumes "publish_bitcoin_account_completion env db pub = (r, db')" and "completed_hd_discovery pub = None"
    and "final_address_proof pub = Some ap"
  shows "transactions_of db' = transactions_of db \<and> (\<not> isl r \<longrightarrow> proof_stored db' (pub_address_id ap) (pub_proof ap))"
proof (cases "publish_bitcoin_account_completion_tx env db pub")
  case (Inl err)
  with assms show ?thesis
    using ledger_change_keeps [OF clear_account_ok(1)]
    by (auto simp: publish_bitcoin_account_completion_def Let_def split: sum.splits if_splits)
next
  case (Inr p)
  obtain complete d where p: "p = (complete, d)" by (cases p)
  note tx = Inr [unfolded publish_bitcoin_account_completion_tx_def publish_hd_discovery_def assms(2) option.case]
  from tx assms(3) obtain meta where meta: "load_meta env db (pub_account_id pub) = Inr meta" "meta_asset_id meta = Bitcoin"
    by (auto split: if_splits)
  with tx assms(3) obtain entries db1 c where "collect_entries env db (pub_account_id pub) meta = Inr entries"
      "load_candidate_bitcoin_history_coverage db1 (pub_account_id pub) (meta_network meta) entries True = Inr c"
    and db1: "publish_address_proof env db pub = Inr db1"
    and last: "(case coverage c of
        Complete h \<Rightarrow>
          (case assign_bitcoin_closing_balances entries CanonicalZero of
             (Inl err, _) \<Rightarrow> Inl err
           | (Inr _, entries') \<Rightarrow>
               res_map (Pair True)
                 (replace_account_transaction_ledger_entries_conn env db1 (pub_account_id pub) meta (observed_at pub) entries'))
      | _ \<Rightarrow> Inr (False, db1)) = Inr p"
    by (auto split: if_splits)
  from last p consider "d = db1" | m es where
      "replace_account_transaction_ledger_entries_conn env db1 (pub_account_id pub) m (observed_at pub) es = Inr d"
    by (auto split: prod.splits sum.splits BitcoinAccountHistoryCoverage.splits)
  then have "transactions_of d = transactions_of db1 \<and> proof_stored d a pr = proof_stored db1 a pr" for a pr
    using replace_conn_ok ledger_change_keeps by (cases; blast)
  with address_proof_published [OF db1 assms(3)] assms(1) Inr p show ?thesis
    by (simp add: publish_bitcoin_account_completion_def)
qed

text \<open>The database and the clock change, nothing else.\<close>

definition only_db :: "(UserDb \<Rightarrow> bool) \<Rightarrow> ('x, 'm) MempoolSystem_scheme \<Rightarrow> ('x, 'm) MempoolSystem_scheme \<Rightarrow> bool" where
  "only_db P s s' \<longleftrightarrow> s' = s\<lparr>my_world := my_world s', my_db := my_db s'\<rparr> \<and> P (my_db s')"

lemma only_db_changes [simp]:
  "only_db P s (s\<lparr>my_world := x, my_db := db\<rparr>) \<longleftrightarrow> P db"
  "only_db P s (s\<lparr>my_db := db, my_world := x\<rparr>) \<longleftrightarrow> P db"
  "only_db P s (s\<lparr>my_world := x\<rparr>) \<longleftrightarrow> P (my_db s)"
  "only_db P s (s\<lparr>my_db := db\<rparr>) \<longleftrightarrow> P db"
  "only_db P s s \<longleftrightarrow> P (my_db s)"
  by (simp_all add: only_db_def)

lemma only_db_frame:
  assumes "only_db P s s'"
  shows "P (my_db s')" "my_raw s' = my_raw s" "my_events s' = my_events s" and "s' = s\<lparr>my_world := my_world s', my_db := my_db s'\<rparr>"
proof -
  from assms show "P (my_db s')" and eq: "s' = s\<lparr>my_world := my_world s', my_db := my_db s'\<rparr>" by (simp_all add: only_db_def)
  show "my_raw s' = my_raw s" "my_events s' = my_events s" by (subst eq, simp)+
qed

lemma only_db_run:
  assumes "only_db P s s'"
  shows "run_state s' = run_state s"
  by (subst only_db_frame(4) [OF assms]) simp

lemma publish_post:
  "act_post (publish_address_history_proof me ctx run pr) s
     (\<lambda>_. only_db (\<lambda>db. transactions_of db = transactions_of (my_db s) \<and> proof_stored db (sa_address_id (ic_address ctx)) pr) s)
     (\<lambda>_. only_db (\<lambda>db. transactions_of db = transactions_of (my_db s)) s)"
proof (cases "sa_account_id (ic_address ctx)")
  case None
  then show ?thesis
    by (auto simp: publish_address_history_proof_def act_posts Let_def dest: conn_published split: option.split sum.split)
next
  case (Some account_id)
  let ?now = "fst (me_utc_now me (my_world s))"
  let ?pub = "\<lparr>pub_account_id = account_id, final_address_proof = Some \<lparr>pub_address_id = sa_address_id (ic_address ctx),
    pub_proof = pr, pub_scan_start_run_id = run\<rparr>, completed_hd_discovery = None, observed_at = ?now\<rparr>"
  obtain r db where db: "publish_bitcoin_account_completion (me_env me) (my_db s) ?pub = (r, db)" by fastforce
  from completion_keeps [OF this] have "transactions_of db = transactions_of (my_db s)"
      "\<not> isl r \<longrightarrow> proof_stored db (sa_address_id (ic_address ctx)) pr" by simp_all
  with Some db show ?thesis
    by (cases r) (simp_all add: publish_address_history_proof_def act_posts, simp_all add: act_post_def)
qed

text \<open>A strict scan is completed only on valid evidence.\<close>

definition scan_validated ::
  "'x MempoolEnv \<Rightarrow> IntegrationIterationContext \<Rightarrow> RawDb \<Rightarrow> UserDb \<Rightarrow> ulid \<Rightarrow> TransactionCount \<Rightarrow> bool \<Rightarrow> bool" where
  "scan_validated me ctx rdb db start_run_id n allow \<longleftrightarrow>
     validate_strict_mempool_history_scan (me_env me) (me_codec me) rdb db (sa_address_id (ic_address ctx)) start_run_id n allow = Inr ScanExact"

lemma complete_strict_post:
  "act_post (complete_strict_mempool_history_scan me ctx n tip allow) s
     (\<lambda>_ s'. run_state s' = (run_state s)\<lparr>it_proof_published := True, it_cursor := None\<rparr> \<and> my_raw s' = my_raw s \<and>
       transactions_of (my_db s') = transactions_of (my_db s) \<and>
       proof_stored (my_db s') (sa_address_id (ic_address ctx)) \<lparr>proof_confirmed_tx_count = n, proof_complete_height = tip\<rparr> \<and>
       (\<exists>start_run_id. it_strict_scan_start_run_id (run_state s) = Some start_run_id \<and>
          scan_validated me ctx (my_raw s) (my_db s) start_run_id n allow))
     (\<lambda>_ _. True)"
  by (auto simp: complete_strict_mempool_history_scan_def act_posts act_post_some Let_def scan_validated_def only_db_run only_db_frame(2)
      dest: only_db_frame(1) intro!: act_post_mono [OF publish_post] split: sum.split option.split StrictMempoolScanValidation.split)

lemma give_up_same: "act_post (give_up_exhausted_strict_scan me ctx) s (\<lambda>_ s'. s' = s) (\<lambda>_ _. True)"
  by (simp add: give_up_exhausted_strict_scan_def act_posts Let_def split: sum.split)


subsection \<open>An unfinished iteration\<close>

lemma advance_cursor_first_page: "advance_cursor c page st = Inr st' \<Longrightarrow> it_first_page_done st'"
  by (auto simp: advance_cursor_def update_cursor_after_paginated_page_def split: if_splits)

lemma complete_backfill_cursor:
  "complete_backfill_if_expected_count_reached st = (done_count, st') \<Longrightarrow>
     it_first_page_done st' = it_first_page_done st \<and> it_backfill_active st' = it_backfill_active st \<and>
     (done_count \<noteq> None \<longrightarrow> it_cursor st' = None)"
  by (auto simp: complete_backfill_if_expected_count_reached_def split: option.splits if_splits)

text \<open>The work that is left is found again: the state has a cursor, and so has the row when a backfill is active.\<close>

definition work_left :: "IntegrationIterationContext \<Rightarrow> 'x MempoolRun \<Rightarrow> bool" where
  "work_left ctx s \<longleftrightarrow> it_first_page_done (run_state s) \<and>
     (it_backfill_active (run_state s) \<longrightarrow> resume_point_stored ctx (my_db s) (it_cursor (run_state s)))"

text \<open>Nothing after the commit of the page's work moves the cursor, except to end the work.\<close>

lemma strict_completion_post:
  "act_post (case c of None \<Rightarrow> act_return () | Some n \<Rightarrow> complete_strict_mempool_history_scan me ctx n tip True) s
     (\<lambda>_ s'. s' = s \<or> it_cursor (run_state s') = None) (\<lambda>_ _. True)"
  by (cases c) (auto simp: act_posts intro!: act_post_mono [OF complete_strict_post])

lemma backfill_completion_post:
  "act_post (case c of None \<Rightarrow> act_return ()
     | Some n \<Rightarrow> act_bind (publish_address_history_proof me ctx None \<lparr>proof_confirmed_tx_count = n, proof_complete_height = tip\<rparr>)
         (\<lambda>_. update_state (\<lambda>st. st\<lparr>it_proof_published := True\<rparr>))) s
     (\<lambda>_ s'. if c = None then s' = s else it_cursor (run_state s') = it_cursor (run_state s)) (\<lambda>_ _. True)"
  by (cases c) (auto simp: act_posts only_db_run intro!: act_post_mono [OF publish_post])

lemma work_left_world [simp]: "work_left ctx (s\<lparr>my_world := x\<rparr>) = work_left ctx s"
  by (simp add: work_left_def)

lemma finish_page_post:
  "act_post (finish_page me ctx tip page_cursor page summary rebuild) s
     (\<lambda>r s'. ir_has_more_work r \<longrightarrow> it_cursor (run_state s') \<noteq> None \<and> work_left ctx s') (\<lambda>_ _. True)"
proof -
  have commit: "act_post (commit_page_work me ctx) s1
      (\<lambda>_ s'. work_left ctx s' \<and> run_state s' = run_state s1) (\<lambda>_ _. True)" if "it_first_page_done (run_state s1)" for s1
    using that by (intro act_post_mono [OF commit_page_work_post]) (auto simp: work_left_def)
  show ?thesis
    unfolding finish_page_def Let_def case_prod_beta
    apply (rule act_post_then [where P = "\<lambda>_ _. True"], simp)
    apply (rule act_post_then [where P = "\<lambda>st _. it_first_page_done st"])
    subgoal by (auto simp: act_posts split: sum.split dest: advance_cursor_first_page)
    apply (rule act_post_then [where P = "\<lambda>_ _. True"], simp)
    subgoal for _ _ st
      apply (cases "if it_backfill_active st \<and> it_proof_publication_allowed st then complete_backfill_if_expected_count_reached st else (None, st)")
      subgoal for completed st'
      apply (rule act_post_then [where P = "\<lambda>_ s'. run_state s' = st' \<and> it_first_page_done st' \<and> (completed \<noteq> None \<longrightarrow> it_cursor st' = None)"])
      subgoal by (auto simp: act_posts split: if_splits dest: complete_backfill_cursor)
      apply simp
      apply (elim conjE)
      apply (rule act_post_then [OF commit], simp)
      apply (rule act_post_then [OF strict_completion_post])
      apply (rule act_post_then [OF give_up_same])
      apply (rule act_post_then [OF backfill_completion_post])
      by (auto simp: act_posts split: sum.split if_splits)
    done
    done
qed


text \<open>What is left when an action that may report more work does report it.\<close>

definition leaves_work :: "IntegrationIterationContext \<Rightarrow> SyncIterationResult \<Rightarrow> 'x MempoolRun \<Rightarrow> bool" where
  "leaves_work ctx r s \<longleftrightarrow> (ir_has_more_work r \<longrightarrow> it_cursor (run_state s) \<noteq> None \<and> work_left ctx s)"

lemma act_post_after:
  "(\<And>a s'. act_post (f a) s' Q (\<lambda>_ _. True)) \<Longrightarrow> act_post (act_bind m f) s Q (\<lambda>_ _. True)"
  by (rule act_post_then [where P = "\<lambda>_ _. True"]) simp_all

lemma empty_result_leaves [simp]: "act_post (empty_result me tip observed balance summary) s (leaves_work ctx) (\<lambda>_ _. True)"
  by (auto simp: empty_result_def act_posts leaves_work_def split: sum.split)

lemma empty_page_result_leaves [simp]: "act_post (empty_page_result me tip) s (leaves_work ctx) (\<lambda>_ _. True)"
  by (simp add: empty_page_result_def act_posts)

lemma empty_result_ends [simp]: "act_post (empty_result me tip observed balance summary) s (\<lambda>r _. \<not> ir_has_more_work r) (\<lambda>_ _. True)"
  by (auto simp: empty_result_def act_posts split: sum.split)

lemma run_iteration_leaves: "act_post (run_mempool_iteration me ctx tip) s (leaves_work ctx) (\<lambda>_ _. True)"
proof -
  have finish: "act_post (finish_page me ctx tip c page summary rebuild) s (leaves_work ctx) (\<lambda>_ _. True)" for c page summary rebuild s
    by (rule act_post_mono [OF finish_page_post]) (auto simp: leaves_work_def)
  show ?thesis
    unfolding run_mempool_iteration_def Let_def
    by (intro act_post_after) (auto intro!: act_post_after simp: act_post_map_err finish)
qed

lemma finalize_same:
  "it_cursor (run_state s) \<noteq> None \<Longrightarrow>
     act_post (finalize_terminal_run me a early) s
       (\<lambda>_ s'. my_db s' = my_db s \<and> (\<exists>sm. run_state s' = (run_state s)\<lparr>it_run_summary := sm\<rparr>)) (\<lambda>_ _. True)"
  by (auto simp: finalize_terminal_run_def act_posts Let_def split: sum.split)

lemma iterate_leaves:
  "act_post (iterate me ctx tip) s (\<lambda>(r, reset) s'. leaves_work ctx r s' \<and> (reset \<longrightarrow> \<not> ir_has_more_work r)) (\<lambda>_ _. True)"
proof -
  have work: "act_post (finalize_terminal_run me a early) s (\<lambda>_ s'. leaves_work ctx r s') (\<lambda>_ _. True)"
    if "leaves_work ctx r s" for a early r s
  proof (cases "ir_has_more_work r")
    case True
    with that show ?thesis
      by (auto simp: leaves_work_def work_left_def intro!: act_post_mono [OF finalize_same])
  next
    case False
    then show ?thesis by (simp add: leaves_work_def)
  qed
  show ?thesis
    unfolding iterate_def Let_def
    apply (intro act_post_after)
    apply (auto intro!: act_post_after simp: act_posts)
    subgoal by (auto simp: leaves_work_def)
    subgoal
      by (rule act_post_mono [OF run_iteration_leaves], rule act_post_mono [OF work]) (auto simp: leaves_work_def)
    done
qed


lemma sync_one_iteration_Inr:
  assumes "sync_one_iteration me ctx kept s = Some (Inr r, kept', s')"
  obtains tip st s1 s2 reset where "ic_chain_tip ctx = Some tip" "ensure_initialized me ctx tip kept s = Some (Inr st, s1)"
    "iterate me ctx tip (with_state st s1) = Some (Inr (r, reset), s2)" "s' = system_of s2"
    "kept' = (if reset then None else Some (run_state s2))"
  using assms by (auto simp: sync_one_iteration_def split: option.splits if_splits sum.splits prod.splits)

text \<open>
  C18. Work that is left is never lost: an iteration that reports more work keeps its state, with the cursor of the next page
  and the first page behind it, and while a history is being loaded the cursor is also in the row of the address, where a
  later run finds it after the process ended.
\<close>

theorem unfinished_work_is_resumable:
  assumes "sync_one_iteration me ctx kept s = Some (Inr r, kept', s')" and "ir_has_more_work r"
  shows "\<exists>st cursor. kept' = Some st \<and> it_first_page_done st \<and> it_cursor st = Some cursor \<and>
    (it_backfill_active st \<longrightarrow>
       (\<exists>row txid. sync_row (my_db s') (sa_address_id (ic_address ctx)) = Some row \<and> tx_hash_parse cursor = Inr txid \<and>
          tss_backfill_cursor_txid row = Some txid))"
  using assms(1)
proof (rule sync_one_iteration_Inr)
  fix tip st s1 s2 reset
  assume run: "iterate me ctx tip (with_state st s1) = Some (Inr (r, reset), s2)" and s': "s' = system_of s2"
    and kept': "kept' = (if reset then None else Some (run_state s2))"
  from act_post_result [OF iterate_leaves run] assms(2)
  have "\<not> reset" and left: "work_left ctx s2" and more: "it_cursor (run_state s2) \<noteq> None" by (simp_all add: leaves_work_def)
  from more obtain cursor where cursor: "it_cursor (run_state s2) = Some cursor" by blast
  have "\<exists>row txid. sync_row (my_db s') (sa_address_id (ic_address ctx)) = Some row \<and> tx_hash_parse cursor = Inr txid \<and>
      tss_backfill_cursor_txid row = Some txid" if "it_backfill_active (run_state s2)"
    using left that by (auto simp: work_left_def resume_point_stored_def cursor s' system_of_def split: option.splits)
  with left \<open>\<not> reset\<close> kept' cursor show ?thesis by (simp add: work_left_def)
qed


subsection \<open>What a strict scan ends with\<close>

text \<open>What holds of the state that a strict scan keeps between its iterations.\<close>

definition strict_ok :: "MempoolIterationState \<Rightarrow> bool" where
  "strict_ok st \<longleftrightarrow> (it_strict_scan_start_run_id st \<noteq> None \<longrightarrow>
     it_backfill_active st \<and> \<not> it_proof_publication_allowed st \<and> \<not> it_proof_published st \<and>
     \<not> zero_stats_skip_transaction_page (visit_stats (it_visit st)) \<and> (it_first_page_done st \<longrightarrow> it_cursor st \<noteq> None))"

lemma transition_publishes:
  "act_post (apply_proof_transition me ctx transition) s
     (\<lambda>published _. ic_transaction_page_permitted ctx \<and> (\<exists>pr. transition = PublishProof pr) \<longrightarrow> published) (\<lambda>_ _. True)"
proof (cases transition)
  case (PublishProof pr)
  then show ?thesis
    by (cases "ic_transaction_page_permitted ctx")
      (auto simp: apply_proof_transition_def act_posts intro!: act_post_mono [OF act_post_trivial])
qed (auto simp: apply_proof_transition_def act_posts Let_def split: sum.split)

lemma strict_scan_chosen:
  "act_post (choose_strict_scan me ctx stats published resume) s
     (\<lambda>p _. fst p \<noteq> None \<longrightarrow> ic_transaction_page_permitted ctx \<and> ic_legacy_mempool_history_repair ctx \<and> \<not> published \<and>
        \<not> zero_stats_skip_transaction_page stats) (\<lambda>_ _. True)"
  by (auto simp: choose_strict_scan_def act_posts Let_def split: option.split sum.split)

lemma initialized_strict_ok: "act_post (initialize_iteration me ctx tip) s (\<lambda>st _. strict_ok st) (\<lambda>_ _. True)"
  unfolding initialize_iteration_def Let_def case_prod_beta
  apply (rule act_post_after, rule act_post_after, rule act_post_after)
  apply (rule act_post_then [OF transition_publishes], rule act_post_after, rule act_post_then [OF strict_scan_chosen])
  apply (rule act_post_after)+
  apply (auto simp: act_posts strict_ok_def split: MempoolHistoryProofTransition.splits)
  done


text \<open>The history is proved: valid evidence of the scan is recorded, and the proof it supports is stored.\<close>

definition history_proved :: "'x MempoolEnv \<Rightarrow> IntegrationIterationContext \<Rightarrow> ulid \<Rightarrow> int \<Rightarrow> RawDb \<Rightarrow> UserDb \<Rightarrow> bool" where
  "history_proved me ctx start_run_id tip rdb db \<longleftrightarrow>
     (\<exists>n allow. scan_validated me ctx rdb db start_run_id n allow \<and>
        proof_stored db (sa_address_id (ic_address ctx)) \<lparr>proof_confirmed_tx_count = n, proof_complete_height = tip\<rparr>)"

lemma scan_validated_cong:
  assumes "transactions_of db' = transactions_of db"
  shows "scan_validated me ctx rdb db' = scan_validated me ctx rdb db"
proof -
  from assms have "load_confirmed_bitcoin_tx_hashes_for_address_conn db' = load_confirmed_bitcoin_tx_hashes_for_address_conn db"
    by (intro ext) (simp add: load_confirmed_bitcoin_tx_hashes_for_address_conn_def transactions_of_def)
  then have "validate_scan_pages db' = validate_scan_pages db" by (intro ext) (simp only: validate_scan_pages_def)
  then show ?thesis by (intro ext) (simp only: scan_validated_def validate_strict_mempool_history_scan_def)
qed

lemma history_proved_row:
  assumes "history_proved me ctx run tip rdb db" and "\<And>r. tss_address_id (f r) = tss_address_id r" and "\<And>r. tss_scope (f r) = tss_scope r"
    and "\<And>r. tss_complete_tx_count (f r) = tss_complete_tx_count r" and "\<And>r. tss_complete_height (f r) = tss_complete_height r"
    and "require_row m (update_address_row db a f) = Inr db'"
  shows "history_proved me ctx run tip rdb db'"
proof -
  from assms(6) have db': "db' = fst (update_address_row db a f)" by (simp add: require_row_Inr)
  then have same: "transactions_of db' = transactions_of db"
    by (simp add: transactions_of_def update_address_row_def update_sync_state_def)
  have "list_ex P (map (\<lambda>r. if R r then f r else r) rs) = list_ex P rs" if "\<And>r. P (f r) = P r" for P R rs
    using that by (induction rs) auto
  then have "proof_stored db' b pr = proof_stored db b pr" for b pr
    using assms(2-5) by (simp add: db' proof_stored_def update_address_row_def update_sync_state_def is_address_row_def)
  with assms(1) same show ?thesis by (simp add: history_proved_def scan_validated_cong [OF same])
qed

lemma strict_completion_proves:
  "act_post (complete_strict_mempool_history_scan me ctx n tip allow) s
     (\<lambda>_ s'. run_state s' = (run_state s)\<lparr>it_proof_published := True, it_cursor := None\<rparr> \<and>
       (\<exists>start_run_id. it_strict_scan_start_run_id (run_state s) = Some start_run_id \<and> history_proved me ctx start_run_id tip (my_raw s') (my_db s')))
     (\<lambda>_ _. True)"
proof (rule act_post_mono [OF complete_strict_post], elim conjE exE)
  fix s' :: "'a MempoolRun" and start_run_id
  assume "transactions_of (my_db s') = transactions_of (my_db s)" "my_raw s' = my_raw s"
    "scan_validated me ctx (my_raw s) (my_db s) start_run_id n allow"
    "proof_stored (my_db s') (sa_address_id (ic_address ctx)) \<lparr>proof_confirmed_tx_count = n, proof_complete_height = tip\<rparr>"
  moreover from this(1) have "scan_validated me ctx rdb (my_db s') = scan_validated me ctx rdb (my_db s)" for rdb by (rule scan_validated_cong)
  ultimately have "history_proved me ctx start_run_id tip (my_raw s') (my_db s')" unfolding history_proved_def by metis
  moreover assume "it_strict_scan_start_run_id (run_state s) = Some start_run_id"
    "run_state s' = (run_state s)\<lparr>it_proof_published := True, it_cursor := None\<rparr>"
  ultimately show "run_state s' = (run_state s)\<lparr>it_proof_published := True, it_cursor := None\<rparr> \<and>
      (\<exists>start_run_id. it_strict_scan_start_run_id (run_state s) = Some start_run_id \<and> history_proved me ctx start_run_id tip (my_raw s') (my_db s'))" by blast
qed simp

text \<open>What a step of a page leaves of the state of a scan.\<close>

definition same_scan :: "MempoolIterationState \<Rightarrow> MempoolIterationState \<Rightarrow> bool" where
  "same_scan st st' \<longleftrightarrow>
     it_strict_scan_start_run_id st' = it_strict_scan_start_run_id st \<and> it_backfill_active st' = it_backfill_active st \<and>
     (it_proof_publication_allowed st' \<longrightarrow> it_proof_publication_allowed st) \<and> it_proof_published st' = it_proof_published st \<and>
     it_visit st' = it_visit st"

lemma same_scan_refl [simp]: "same_scan st st"
  by (simp add: same_scan_def)

lemma same_scan_trans: "same_scan st st' \<Longrightarrow> same_scan st' st'' \<Longrightarrow> same_scan st st''"
  by (auto simp: same_scan_def)

lemma advance_cursor_scan: "advance_cursor c page st = Inr st' \<Longrightarrow> same_scan st st'"
  by (auto simp: advance_cursor_def update_cursor_after_paginated_page_def same_scan_def split: if_splits)

lemma fold_same_scan:
  assumes "\<And>tx st. same_scan st (f tx st)"
  shows "same_scan st (fold f page st)"
proof (induction page arbitrary: st)
  case (Cons tx page)
  show ?case by (simp, rule same_scan_trans [OF assms Cons.IH])
qed simp

lemma observe_page_scan: "same_scan st (observe_backfill_expected_count_page page st)"
  unfolding observe_backfill_expected_count_page_def by (simp, intro impI fold_same_scan) (simp add: same_scan_def)


text \<open>How a page of a strict scan ends: with the cursor of the next one, or with a proof.\<close>

definition strict_step :: "'x MempoolEnv \<Rightarrow> IntegrationIterationContext \<Rightarrow> ulid \<Rightarrow> int \<Rightarrow> SyncIterationResult \<Rightarrow> 'x MempoolRun \<Rightarrow> bool" where
  "strict_step me ctx start_run_id tip r s \<longleftrightarrow>
     it_backfill_active (run_state s) \<and>
     (if ir_has_more_work r then strict_ok (run_state s) \<and> it_strict_scan_start_run_id (run_state s) = Some start_run_id
      else history_proved me ctx start_run_id tip (my_raw s) (my_db s))"

lemma give_up_post:
  "act_post (give_up_exhausted_strict_scan me ctx) s (\<lambda>_ s'. s' = s \<and> \<not> strict_scan_exhausted (run_state s)) (\<lambda>_ _. True)"
  by (simp add: give_up_exhausted_strict_scan_def act_posts Let_def split: sum.split)

lemma strict_page_completion:
  "it_strict_scan_start_run_id (run_state s) = Some run \<Longrightarrow>
   act_post (case c of None \<Rightarrow> act_return () | Some n \<Rightarrow> complete_strict_mempool_history_scan me ctx n tip True) s
     (\<lambda>_ s'. s' = s \<or> run_state s' = (run_state s)\<lparr>it_proof_published := True, it_cursor := None\<rparr> \<and> history_proved me ctx run tip (my_raw s') (my_db s'))
     (\<lambda>_ _. True)"
  by (cases c) (auto simp: act_posts intro!: act_post_mono [OF strict_completion_proves])

lemma finish_page_strict:
  assumes "strict_ok (run_state s)" and "it_strict_scan_start_run_id (run_state s) = Some run"
  shows "act_post (finish_page me ctx tip page_cursor page summary rebuild) s (strict_step me ctx run tip) (\<lambda>_ _. True)"
proof -
  let ?st = "run_state s"
  from assms have ok: "it_backfill_active ?st" "\<not> it_proof_publication_allowed ?st" "\<not> it_proof_published ?st"
      "\<not> zero_stats_skip_transaction_page (visit_stats (it_visit ?st))"
    by (simp_all add: strict_ok_def)
  have commit: "act_post (commit_page_work me ctx) s1 (\<lambda>_ s'. run_state s' = run_state s1) (\<lambda>_ _. True)" for s1
    by (rule act_post_mono [OF commit_page_work_post]) simp_all
  show ?thesis
    unfolding finish_page_def Let_def case_prod_beta
    apply (rule act_post_then [where P = "\<lambda>_ s'. same_scan ?st (run_state s')"])
    subgoal by (simp add: act_posts observe_page_scan)
    apply (rule act_post_then [where P = "\<lambda>st _. same_scan ?st st"])
    subgoal by (auto simp: act_posts split: sum.split dest: advance_cursor_scan intro: same_scan_trans)
    apply (rule act_post_after)
    subgoal for _ _ st
      apply (subgoal_tac "\<not> (it_backfill_active st \<and> it_proof_publication_allowed st)")
      subgoal
        apply (simp only: if_False prod.sel)
        apply (rule act_post_then [where P = "\<lambda>_ s'. run_state s' = st"])
        subgoal by (simp add: act_posts)
        apply (rule act_post_then [OF commit])
        apply (rule act_post_then [OF strict_page_completion [where run = run]])
        subgoal using assms(2) by (simp add: same_scan_def)
        apply (rule act_post_then [OF give_up_post])
        using ok assms(2)
        by (auto simp: act_posts strict_step_def strict_ok_def same_scan_def strict_scan_exhausted_def split: sum.split)
      subgoal using ok by (auto simp: same_scan_def)
      done
    done
qed


text \<open>Before the page is finished, the state of the scan does not change.\<close>

lemma fetch_scan:
  "act_post (fetch_and_persist_mempool_transaction_page me ctx c at) s (\<lambda>_ s'. run_state s' = run_state s) (\<lambda>_ _. True)"
  unfolding fetch_and_persist_mempool_transaction_page_def
  by (auto simp: act_posts split: sum.split)
    (auto simp: act_post_def act_provider_fail_def split: sum.split prod.split option.split)

lemma progress_scan: "act_post (publish_mempool_progress me ctx) s (\<lambda>_ s'. run_state s' = run_state s) (\<lambda>_ _. True)"
  by (auto simp: publish_mempool_progress_def act_posts Let_def split: option.split)

lemma reconcile_scan:
  "act_post (reconcile_mempool_transactions me ctx records at) s (\<lambda>_ s'. run_state s' = run_state s) (\<lambda>_ _. True)"
  by (auto simp: reconcile_mempool_transactions_def act_post_def invalidate_coverage_now_def act_when_def act_bind_def
      act_return_def act_fail_def act_modify_def world_action_def split: sum.split prod.split)

lemma strict_ok_summary [simp]: "strict_ok (st\<lparr>it_run_summary := sm\<rparr>) = strict_ok st"
  by (simp add: strict_ok_def)

lemma strict_step_world [simp]: "strict_step me ctx run tip r (s\<lparr>my_world := x\<rparr>) = strict_step me ctx run tip r s"
  by (simp add: strict_step_def)

lemma run_iteration_strict:
  assumes "strict_ok (run_state s)" and "it_strict_scan_start_run_id (run_state s) = Some run"
  shows "act_post (run_mempool_iteration me ctx tip) s (strict_step me ctx run tip) (\<lambda>_ _. True)"
proof -
  let ?st = "run_state s"
  have empty: "act_post (empty_page_result me tip) s1 (strict_step me ctx run tip) (\<lambda>_ _. True)"
    if "it_backfill_active (run_state s1)" "history_proved me ctx run tip (my_raw s1) (my_db s1)" for s1
    using that by (auto simp: empty_page_result_def empty_result_def act_posts strict_step_def split: sum.split)
  have some_work: "\<not> (it_first_page_done ?st \<and> it_cursor ?st = None)" using assms by (auto simp: strict_ok_def)
  show ?thesis
    unfolding run_mempool_iteration_def act_post_bind act_post_gets Let_def
    apply (subst if_not_P [OF some_work])
    apply (simp only: act_post_bind act_post_world)
    apply (rule act_post_mono [OF fetch_scan], simp_all only: act_post_update)
    subgoal for ingested s1
      apply (cases "ip_transactions ingested = []")
      subgoal
        using assms by (auto simp: act_posts strict_ok_def intro!: act_post_mono [OF strict_completion_proves] empty)
      subgoal
        apply (simp only: simp_thms if_False)
        apply (rule act_post_then [where P = "\<lambda>_ s'. run_state s' = ?st\<lparr>it_run_summary := record_page (ip_summary ingested) (it_run_summary ?st)\<rparr>"])
        subgoal by (auto simp: act_post_when intro!: act_post_mono [OF progress_scan])
        apply (rule act_post_then [where P = "\<lambda>_ s'. run_state s' = ?st\<lparr>it_run_summary := record_page (ip_summary ingested) (it_run_summary ?st)\<rparr>"])
        subgoal by (auto simp: act_post_lift split: sum.split)
        apply (rule act_post_then [OF reconcile_scan])
        using assms by (simp add: act_post_map_err finish_page_strict)
      done
    done
qed

lemma history_proved_kept:
  "update_address_mempool_backfill_cursor env a c now db = Inr db' \<Longrightarrow> history_proved me ctx run tip rdb db \<Longrightarrow>
     history_proved me ctx run tip rdb db'"
  "update_address_mempool_expected_tx_count env a n now db = Inr db' \<Longrightarrow> history_proved me ctx run tip rdb db \<Longrightarrow>
     history_proved me ctx run tip rdb db'"
  unfolding update_address_mempool_backfill_cursor_def update_address_mempool_expected_tx_count_def
  by (rule history_proved_row [rotated 5], assumption, assumption, simp_all)+

lemma finalize_strict:
  assumes "it_backfill_active (run_state s)"
  shows "act_post (finalize_terminal_run me a early) s
     (\<lambda>_ s'. (it_cursor (run_state s) \<noteq> None \<longrightarrow> my_db s' = my_db s) \<and> (\<exists>sm. run_state s' = (run_state s)\<lparr>it_run_summary := sm\<rparr>) \<and>
       (history_proved me ctx run tip (my_raw s) (my_db s) \<longrightarrow> history_proved me ctx run tip (my_raw s') (my_db s'))) (\<lambda>_ _. True)"
  using assms by (auto simp: finalize_terminal_run_def act_posts Let_def split: sum.split intro: history_proved_kept)


lemma iterate_strict:
  assumes "strict_ok (run_state s)" and "it_strict_scan_start_run_id (run_state s) = Some run" and "ic_transaction_page_permitted ctx"
  shows "act_post (iterate me ctx tip) s (\<lambda>(r, reset) s'. reset = (\<not> ir_has_more_work r) \<and> strict_step me ctx run tip r s') (\<lambda>_ _. True)"
proof -
  have skip: "\<not> zero_stats_skip_transaction_page (visit_stats (it_visit (run_state s)))" using assms(1,2) by (simp add: strict_ok_def)
  have finalize: "act_post (finalize_terminal_run me a early) s1
      (\<lambda>json. strict_step me ctx run tip (r\<lparr>ir_observed_activity := True, ir_api_confirmed_balance := b, ir_raw_run_summary_json := json\<rparr>)) (\<lambda>_ _. True)"
    if "strict_step me ctx run tip r s1" for a early s1 r b
    using that finalize_strict [where s = s1 and ctx = ctx and run = run and tip = tip and me = me and a = a and early = early]
    by (auto simp: strict_step_def elim!: act_post_mono)
  show ?thesis
    unfolding iterate_def Let_def act_post_bind act_post_gets
    apply (rule act_post_mono [OF progress_scan])
    subgoal for _ s1
      using skip assms
      by (auto simp: act_posts intro!: act_post_mono [OF run_iteration_strict] finalize)
    by simp
qed

text \<open>No action changes the run that started the scan.\<close>

definition keeps_start :: "('x MempoolRun, 'a) action \<Rightarrow> bool" where
  "keeps_start m \<longleftrightarrow> (\<forall>s. act_post m s (\<lambda>_ s'. it_strict_scan_start_run_id (run_state s') = it_strict_scan_start_run_id (run_state s)) (\<lambda>_ _. True))"

lemma keeps_start_bind: "keeps_start m \<Longrightarrow> (\<And>a. keeps_start (f a)) \<Longrightarrow> keeps_start (act_bind m f)"
  unfolding keeps_start_def by (intro allI, rule act_post_then, blast) (metis (no_types, lifting) act_post_mono)

lemma keeps_start_from:
  "(\<And>s. act_post m s (\<lambda>_ s'. run_state s' = run_state s) (\<lambda>_ _. True)) \<Longrightarrow> keeps_start m"
  unfolding keeps_start_def by (rule allI, rule act_post_mono [where E = "\<lambda>_ _. True"], assumption) simp_all

lemma keeps_start_simple [intro!]:
  "keeps_start (act_return a)" "keeps_start (act_fail err)" "keeps_start (act_lift r)" "keeps_start (act_gets f)"
  "keeps_start (world_action w)" "keeps_start (db_write_now me g)"
  by (simp_all add: keeps_start_def act_posts Let_def split: sum.split)

lemma keeps_start_parts [intro!]:
  "keeps_start (publish_mempool_progress me ctx)"
  "keeps_start (fetch_and_persist_mempool_transaction_page me ctx c at)" "keeps_start (reconcile_mempool_transactions me ctx records at)"
  "keeps_start (publish_address_history_proof me ctx run pr)" "keeps_start (commit_page_work me ctx)"
  "keeps_start (give_up_exhausted_strict_scan me ctx)"
  subgoal by (rule keeps_start_from [OF progress_scan])
  subgoal by (rule keeps_start_from [OF fetch_scan])
  subgoal by (rule keeps_start_from [OF reconcile_scan])
  subgoal by (rule keeps_start_from, rule act_post_mono [OF publish_post]) (simp_all add: only_db_run)
  subgoal by (rule keeps_start_from, rule act_post_mono [OF commit_page_work_post]) simp_all
  subgoal by (rule keeps_start_from, rule act_post_mono [OF give_up_post]) simp_all
  done

lemma keeps_start_completion [intro!]: "keeps_start (complete_strict_mempool_history_scan me ctx n tip allow)"
  unfolding keeps_start_def by (rule allI, rule act_post_mono [OF complete_strict_post]) simp_all

lemma keeps_start_update [intro!]:
  "(\<And>st. it_strict_scan_start_run_id (f st) = it_strict_scan_start_run_id st) \<Longrightarrow> keeps_start (update_state f)"
  by (simp add: keeps_start_def act_posts)

lemma keeps_start_map_err [intro!]: "keeps_start m \<Longrightarrow> keeps_start (act_map_err g m)"
  by (simp add: keeps_start_def act_post_map_err)

lemma keeps_start_when [intro!]: "keeps_start m \<Longrightarrow> keeps_start (act_when b m)"
  by (simp add: keeps_start_def act_posts)

declare keeps_start_bind [intro!]

lemma finish_page_keeps [intro!]: "keeps_start (finish_page me ctx tip c page summary rebuild)"
  unfolding keeps_start_def
proof
  fix s :: "'a MempoolRun"
  let ?run = "it_strict_scan_start_run_id (run_state s)"
  have tail: "keeps_start m \<Longrightarrow> it_strict_scan_start_run_id (run_state s1) = ?run \<Longrightarrow>
      act_post m s1 (\<lambda>_ s'. it_strict_scan_start_run_id (run_state s') = ?run) (\<lambda>_ _. True)"
    for m :: "('a MempoolRun, SyncIterationResult) action" and s1
    unfolding keeps_start_def by metis
  show "act_post (finish_page me ctx tip c page summary rebuild) s
      (\<lambda>_ s'. it_strict_scan_start_run_id (run_state s') = ?run) (\<lambda>_ _. True)"
    unfolding finish_page_def Let_def case_prod_beta
    apply (rule act_post_then [where P = "\<lambda>_ s'. same_scan (run_state s) (run_state s')"])
    subgoal by (simp add: act_posts observe_page_scan)
    apply (rule act_post_then [where P = "\<lambda>st _. same_scan (run_state s) st"])
    subgoal by (auto simp: act_posts split: sum.split dest: advance_cursor_scan intro: same_scan_trans)
    apply (rule act_post_after)
    apply (rule act_post_then [where P = "\<lambda>_ s'. it_strict_scan_start_run_id (run_state s') = ?run"])
    subgoal by (auto simp: act_posts same_scan_def complete_backfill_if_expected_count_reached_def split: option.split)
    apply (erule tail [rotated])
    apply (auto split: option.split)
    done
qed

lemma run_iteration_keeps [intro!]: "keeps_start (run_mempool_iteration me ctx tip)"
  unfolding run_mempool_iteration_def Let_def empty_page_result_def empty_result_def by auto

lemma iterate_keeps: "keeps_start (iterate me ctx tip)"
  unfolding iterate_def Let_def empty_result_def finalize_terminal_run_def by auto


text \<open>
  The states an executor may hold between the iterations of an address: none at first, and then the state of an iteration
  that reported more work; the context, the database and the provider may be any at every iteration.
\<close>

inductive kept_state :: "'x MempoolEnv \<Rightarrow> MempoolIterationState option \<Rightarrow> bool" for me where
  fresh: "kept_state me None"
| iterated: "kept_state me kept \<Longrightarrow> sync_one_iteration me ctx kept s = Some (Inr r, kept', s') \<Longrightarrow> ir_has_more_work r \<Longrightarrow> kept_state me kept'"

lemma ensured_ok:
  "ensure_initialized me ctx tip kept s = Some (Inr st, s1) \<Longrightarrow> (\<And>st. kept = Some st \<Longrightarrow> strict_ok st) \<Longrightarrow> strict_ok st"
  using act_post_result [OF initialized_strict_ok] by (auto simp: ensure_initialized_def act_return_def split: option.splits)

lemma unpermitted_ends:
  "\<not> ic_transaction_page_permitted ctx \<Longrightarrow> act_post (iterate me ctx tip) s (\<lambda>(r, reset) _. \<not> ir_has_more_work r) (\<lambda>_ _. True)"
  unfolding iterate_def Let_def act_post_bind act_post_gets
  by (rule act_post_mono [OF progress_scan]) (auto simp: act_posts)

lemma with_state_run [simp]: "run_state (with_state st s) = st"
  by (simp add: with_state_def)

lemma kept_strict_ok: "kept_state me kept \<Longrightarrow> kept = Some st \<Longrightarrow> strict_ok st"
proof (induction arbitrary: st rule: kept_state.induct)
  case (iterated kept ctx s r kept' s')
  from iterated.hyps(2) show ?case
  proof (rule sync_one_iteration_Inr)
    fix tip st0 s1 s2 reset
    assume init: "ensure_initialized me ctx tip kept s = Some (Inr st0, s1)"
      and run: "iterate me ctx tip (with_state st0 s1) = Some (Inr (r, reset), s2)"
      and kept': "kept' = (if reset then None else Some (run_state s2))"
    have ok: "strict_ok (run_state (with_state st0 s1))" using ensured_ok [OF init] iterated.IH by simp
    have permitted: "ic_transaction_page_permitted ctx"
      using act_post_result [OF unpermitted_ends run] iterated.hyps(3) by auto
    have start: "it_strict_scan_start_run_id (run_state s2) = it_strict_scan_start_run_id (run_state (with_state st0 s1))"
      by (rule act_post_result [OF iterate_keeps [unfolded keeps_start_def, rule_format] run])
    have "st = run_state s2" using kept' iterated.prems by (simp split: if_splits)
    then show "strict_ok st"
      using start act_post_result [OF iterate_strict [OF ok _ permitted] run] iterated.hyps(3)
      by (cases "it_strict_scan_start_run_id (run_state s2)") (auto simp: strict_ok_def [of "run_state s2"] strict_step_def)
  qed
qed simp

text \<open>
  C17. The strict scan that repairs the history of an address ends, without an error, only with a proof: the recorded pages of the
  scan form one complete chain whose confirmed transactions are exactly those stored, and the row of the address holds a proof
  of as many transactions at the chain's height.
\<close>

theorem strict_scan_ends_with_proof:
  assumes "kept_state me kept" and "ensure_initialized me ctx tip kept s = Some (Inr st, s1)"
    and "it_strict_scan_start_run_id st = Some start_run_id" and "ic_chain_tip ctx = Some tip" and "ic_transaction_page_permitted ctx"
    and "sync_one_iteration me ctx kept s = Some (Inr r, kept', s')" and "\<not> ir_has_more_work r"
  shows "kept' = None \<and>
    (\<exists>pages path allow n.
       load_scan_pages (me_env me) (me_codec me) (my_raw s') (sa_address_id (ic_address ctx)) start_run_id = Inr pages \<and>
       complete_scan allow pages path \<and>
       load_confirmed_bitcoin_tx_hashes_for_address_conn (my_db s') (sa_address_id (ic_address ctx)) = Inr (confirmed_of pages) \<and>
       unat n = card (confirmed_of pages) \<and>
       proof_stored (my_db s') (sa_address_id (ic_address ctx)) \<lparr>proof_confirmed_tx_count = n, proof_complete_height = tip\<rparr>)"
  using assms(6)
proof (rule sync_one_iteration_Inr)
  fix tip' st' s1' s2 reset
  assume "ic_chain_tip ctx = Some tip'" and init: "ensure_initialized me ctx tip' kept s = Some (Inr st', s1')"
    and run: "iterate me ctx tip' (with_state st' s1') = Some (Inr (r, reset), s2)"
    and s': "s' = system_of s2" and kept': "kept' = (if reset then None else Some (run_state s2))"
  with assms(2,4) have same: "tip' = tip" "st' = st" by auto
  have ok: "strict_ok (run_state (with_state st' s1'))" using ensured_ok [OF init] kept_strict_ok [OF assms(1)] by simp
  have "it_strict_scan_start_run_id (run_state (with_state st' s1')) = Some start_run_id" using assms(3) same by simp
  from act_post_result [OF iterate_strict [OF ok this assms(5)] run] assms(7)
  have "reset" and "history_proved me ctx start_run_id tip' (my_raw s2) (my_db s2)" by (simp_all add: strict_step_def)
  then obtain n allow pages path where
      "load_scan_pages (me_env me) (me_codec me) (my_raw s2) (sa_address_id (ic_address ctx)) start_run_id = Inr pages"
      "complete_scan allow pages path" "card (confirmed_of pages) = unat n"
      "load_confirmed_bitcoin_tx_hashes_for_address_conn (my_db s2) (sa_address_id (ic_address ctx)) = Inr (confirmed_of pages)"
      "proof_stored (my_db s2) (sa_address_id (ic_address ctx)) \<lparr>proof_confirmed_tx_count = n, proof_complete_height = tip'\<rparr>"
    by (auto simp: history_proved_def scan_validated_def validate_strict_mempool_history_scan_def validate_scan_pages_exact restart_def
        load_scan_not_exact split: if_splits sum.splits)
  with \<open>reset\<close> kept' s' same show ?thesis by (auto simp: system_of_def)
qed


subsection \<open>Witnesses\<close>

definition scan_codec :: RawCodec where
  "scan_codec = sample_codec\<lparr>
     rc_parse_page_metadata := (\<lambda>_. Some \<lparr>md_address_id = ''d1'', md_scan_start_run_id = Some ''r'', md_page_kind = FirstPage,
       md_requested_cursor = None, md_returned_last_confirmed_cursor = None, md_item_count = 0\<rparr>),
     rc_json_text := (\<lambda>_ path. if path = ''$.address_id'' then Some ''d1'' else Some ''r'')\<rparr>"

text \<open>A provider that answers every request for a page with one page, an address without a history, and a database with its row.\<close>

definition sample_me :: "MempoolTransactionPage \<Rightarrow> unit MempoolEnv" where
  "sample_me page =
     \<lparr>me_env = sample_env, me_codec = scan_codec, me_timestamp = Some, me_summary_json = (\<lambda>_. Inr ''{}''), me_utc_now = Pair 0,
      me_wall_clock = Pair 0, me_new_ids = Pair (sample_ids ''v''), me_fresh_chain_id = (\<lambda>_. ''x''), me_lock = (\<lambda>_ db. (db, None)),
      me_get_address_stats = (\<lambda>_ x. (Inr \<lparr>stats_tx_count = 0, stats_mempool_tx_count = 1, stats_confirmed_balance = None\<rparr>, x)),
      me_fetch_first_page = (\<lambda>_ x. (Inr page, x)), me_fetch_page_after_confirmed = (\<lambda>_ _ x. (Inr page, x))\<rparr>"

definition sample_ctx :: "bool \<Rightarrow> IntegrationIterationContext" where
  "sample_ctx repair =
     \<lparr>ic_address = (sample_address ''d1'' 0)\<lparr>sa_account_id := None\<rparr>, ic_mempool_client = True, ic_single_address_progress = None,
      ic_allow_known_confirmed_early_exit = False, ic_chain_tip = Some 9, ic_raw_sync_run_id = ''r'', ic_source_connection_id = ''c'',
      ic_is_backfill_active = True, ic_transaction_page_permitted = True, ic_legacy_mempool_history_repair = repair,
      ic_mempool_history_page_frontier = None\<rparr>"

definition sample_run_row :: SyncRunRow where
  "sample_run_row =
     \<lparr>sr_id = ''r'', sr_integration = ''mempool'', sr_scope_address_id = ''d1'', sr_source_connection_id = ''c'',
      sr_asset_id = ''bitcoin'', sr_network = ''mainnet'', sr_trigger_kind = ''x'', sr_status = ''running'', sr_started_at = ''t'',
      sr_completed_at = None, sr_summary_json = None, sr_updated_at = ''t''\<rparr>"

definition sample_system :: "unit MempoolSystem" where
  "sample_system =
     \<lparr>my_db = sync_sample_db\<lparr>chain_transactions := [], transaction_inputs := [], transaction_outputs := [], account_transfers := [], utxos := [],
        transaction_sync_state := [new_sync_row ''d1'' ''r'' ''t'' ''t'']\<rparr>,
      my_raw = (sample_raw [])\<lparr>sync_runs := [sample_run_row]\<rparr>, my_events = [], my_world = ()\<rparr>"

definition empty_sample_page :: MempoolTransactionPage where
  "empty_sample_page = \<lparr>tp_request_url = ''u'', tp_http_status_code = 200, tp_transactions = []\<rparr>"

lemma returned:
  "(case x of Some (Inr r, _, _) \<Rightarrow> P r | _ \<Rightarrow> False) \<Longrightarrow> \<exists>r kept s. x = Some (Inr r, kept, s) \<and> P r"
proof (cases x)
  case (Some y)
  moreover assume "case x of Some (Inr r, _, _) \<Rightarrow> P r | _ \<Rightarrow> False"
  ultimately show ?thesis by (cases "fst y"; cases y) auto
qed simp

lemma sample_unfinished:
  "case sync_one_iteration (sample_me (sample_page 1)) (sample_ctx False) None sample_system of
     Some (Inr r, _, _) \<Rightarrow> ir_has_more_work r | _ \<Rightarrow> False"
  by code_simp

theorem unfinished_work_is_resumable_witness:
  "\<exists>r kept' s'. sync_one_iteration (sample_me (sample_page 1)) (sample_ctx False) None sample_system = Some (Inr r, kept', s') \<and>
     ir_has_more_work r \<and> (\<exists>st cursor. kept' = Some st \<and> it_cursor st = Some cursor)"
proof -
  from returned [OF sample_unfinished] obtain r kept' s' where
    run: "sync_one_iteration (sample_me (sample_page 1)) (sample_ctx False) None sample_system = Some (Inr r, kept', s')"
      "ir_has_more_work r"
    by blast
  with unfinished_work_is_resumable [OF run] show ?thesis by blast
qed

lemma sample_strict:
  "case sync_one_iteration (sample_me empty_sample_page) (sample_ctx True) None sample_system of
     Some (Inr r, _, _) \<Rightarrow> \<not> ir_has_more_work r | _ \<Rightarrow> False"
  by code_simp

lemma sample_strict_start:
  "case ensure_initialized (sample_me empty_sample_page) (sample_ctx True) 9 None sample_system of
     Some (Inr st, _) \<Rightarrow> it_strict_scan_start_run_id st = Some ''r'' | _ \<Rightarrow> False"
  by code_simp

theorem strict_scan_ends_with_proof_witness:
  "\<exists>r s' pages n. sync_one_iteration (sample_me empty_sample_page) (sample_ctx True) None sample_system = Some (Inr r, None, s') \<and>
     load_scan_pages sample_env scan_codec (my_raw s') ''d1'' ''r'' = Inr pages \<and> unat n = card (confirmed_of pages) \<and>
     proof_stored (my_db s') ''d1'' \<lparr>proof_confirmed_tx_count = n, proof_complete_height = 9\<rparr>"
proof -
  from returned [OF sample_strict] obtain r kept' s' where
    run: "sync_one_iteration (sample_me empty_sample_page) (sample_ctx True) None sample_system = Some (Inr r, kept', s')"
    and ended: "\<not> ir_has_more_work r"
    by blast
  from sample_strict_start obtain st s1 where
    init: "ensure_initialized (sample_me empty_sample_page) (sample_ctx True) 9 None sample_system = Some (Inr st, s1)"
    and start: "it_strict_scan_start_run_id st = Some ''r''"
    by (auto split: option.splits sum.splits)
  have ctx: "ic_chain_tip (sample_ctx True) = Some 9" "ic_transaction_page_permitted (sample_ctx True)"
      "sa_address_id (ic_address (sample_ctx True)) = ''d1''" by (simp_all add: sample_ctx_def sample_address_def)
  have me: "me_env (sample_me empty_sample_page) = sample_env" "me_codec (sample_me empty_sample_page) = scan_codec"
    by (simp_all add: sample_me_def)
  from strict_scan_ends_with_proof [OF kept_state.fresh init start ctx(1,2) run ended] run show ?thesis
    unfolding ctx(3) me by blast
qed

end
