(* ===== verification/Mempool_Iteration_Outcome.thy ===== *)
theory Mempool_Iteration_Outcome
  imports Mempool_Iteration_Spec
begin

section \<open>What an iteration stores, and what its outcome says of it\<close>

text \<open>
  Facts about every outcome of an iteration (\<open>Mempool_Iteration\<close>), errors included: what an iteration without permission to
  fetch pages leaves alone, which histories an outcome names, and what happens to a proof the provider no longer supports.
\<close>

subsection \<open>Actions that keep a view of the state\<close>

text \<open>Whatever the outcome of an action, a view of the state is the same.\<close>

definition keeps :: "('s \<Rightarrow> 'b) \<Rightarrow> ('s, 'a) action \<Rightarrow> bool" where
  "keeps v m \<longleftrightarrow> (\<forall>s. act_post m s (\<lambda>_ s'. v s' = v s) (\<lambda>_ s'. v s' = v s))"

lemma keeps_post: "keeps v m \<Longrightarrow> act_post m s (\<lambda>_ s'. v s' = v s) (\<lambda>_ s'. v s' = v s)"
  by (simp add: keeps_def)

lemma keeps_outcome: "keeps v m \<Longrightarrow> m s = Some (r, s') \<Longrightarrow> v s' = v s"
  by (drule keeps_post [where s = s]) (cases r, auto simp: act_post_def)

lemma keeps_bind [intro!]:
  assumes "keeps v m" and "\<And>a. keeps v (f a)"
  shows "keeps v (act_bind m f)"
  unfolding keeps_def act_post_bind
proof
  fix s
  have "act_post (f a) s1 (\<lambda>_ s'. v s' = v s) (\<lambda>_ s'. v s' = v s)" if "v s1 = v s" for a s1
    using keeps_post [OF assms(2), where s = s1] by (simp add: that)
  then show "act_post m s (\<lambda>a s'. act_post (f a) s' (\<lambda>_ s'. v s' = v s) (\<lambda>_ s'. v s' = v s)) (\<lambda>_ s'. v s' = v s)"
    by (intro act_post_mono [OF keeps_post [OF assms(1)]])
qed

lemma keeps_simple [intro!]:
  "keeps v (act_return a)" "keeps v (act_fail err)" "keeps v (act_lift r)" "keeps v (\<lambda>s. act_lift (h s) s)" "keeps v (act_gets f)"
  "keeps v (db_read g)" "keeps v (act_provider_fail me err')" "keeps v (\<lambda>s. Some (h s, s))"
  by (auto simp: keeps_def act_posts act_post_some split: sum.split option.split)

lemma keeps_map_err [intro!]: "keeps v m \<Longrightarrow> keeps v (act_map_err g m)"
  by (simp add: keeps_def act_posts)

lemma keeps_when [intro!]: "keeps v m \<Longrightarrow> keeps v (act_when b m)"
  by (auto simp: keeps_def act_posts)

abbreviation stored_data where "stored_data s \<equiv> (my_raw s, transactions_of (my_db s))"

abbreviation transactions where "transactions s \<equiv> transactions_of (my_db s)"

lemma keeps_transactions: "keeps stored_data m \<Longrightarrow> keeps transactions m"
  unfolding keeps_def by (blast intro: act_post_mono)

lemma keeps_data_state [intro!]: "keeps stored_data (world_action w)" "keeps stored_data (update_state h)"
  by (simp_all add: keeps_def act_posts)

lemma keeps_data_publish [intro!]: "keeps stored_data (publish_address_history_proof me ctx run pr)"
  unfolding keeps_def
  by (intro allI act_post_mono [OF publish_post]) (auto simp: only_db_frame(2) dest: only_db_frame(1))

lemma keeps_data_write [intro!]: "(\<And>db db'. f db = Inr db' \<Longrightarrow> transactions_of db' = transactions_of db) \<Longrightarrow> keeps stored_data (db_write f)"
  by (auto simp: keeps_def act_posts split: sum.split)

lemma keeps_data_write_now [intro!]:
  "(\<And>now db db'. f now db = Inr db' \<Longrightarrow> transactions_of db' = transactions_of db) \<Longrightarrow> keeps stored_data (db_write_now me f)"
  by (auto simp: db_write_now_def)

lemma row_update_transactions [simp]: "transactions_of (fst (update_address_row db a f)) = transactions_of db"
  by (simp add: transactions_of_def update_address_row_def update_sync_state_def)

lemma row_writes_keep:
  "update_address_mempool_backfill_cursor env a c now db = Inr db' \<Longrightarrow> transactions_of db' = transactions_of db"
  "update_address_mempool_expected_tx_count env a n now db = Inr db' \<Longrightarrow> transactions_of db' = transactions_of db"
  "begin_mempool_history_scan env a run now db = Inr db' \<Longrightarrow> transactions_of db' = transactions_of db"
  "restart_strict_mempool_history_scan env a now db = Inr db' \<Longrightarrow> transactions_of db' = transactions_of db"
  "persist_mempool_address_observation_success env seen db = Inr db' \<Longrightarrow> transactions_of db' = transactions_of db"
  by (auto simp: update_address_mempool_backfill_cursor_def update_address_mempool_expected_tx_count_def begin_mempool_history_scan_def
      restart_strict_mempool_history_scan_def persist_mempool_address_observation_success_def require_row_Inr case_prod_beta Let_def
      split: if_splits)

lemma other_writes_keep:
  "invalidate_mempool_history_proof env a now db = Inr db' \<Longrightarrow> transactions_of db' = transactions_of db"
  "commit_mempool_history_page_work env w now db = Inr db' \<Longrightarrow> transactions_of db' = transactions_of db"
  "refresh_mempool_history_proof env a pr now db = (b, db') \<Longrightarrow> transactions_of db' = transactions_of db"
  by (auto simp: invalidate_mempool_history_proof_def commit_mempool_history_page_work_def refresh_mempool_history_proof_def
      invalidate_mempool_history_coverage_tx_def update_address_row_def update_sync_state_def transactions_of_def require_row_Inr Let_def
      split: option.splits if_splits)


lemma refresh_keeps_data:
  "keeps stored_data (\<lambda>s. Some (Inr (fst (refresh_mempool_history_proof env a pr now (my_db s))),
     s\<lparr>my_db := snd (refresh_mempool_history_proof env a pr now (my_db s))\<rparr>))"
  by (auto simp: keeps_def act_post_def intro: other_writes_keep(3) [OF prod.collapse [symmetric]])

lemma initialize_keeps_data: "keeps stored_data (initialize_iteration me ctx tip)"
  unfolding initialize_iteration_def fetch_mempool_address_stats_def persist_mempool_observation_def choose_resume_cursor_def
    choose_strict_scan_def store_expected_count_def apply_proof_transition_def Let_def case_prod_beta
  by (auto intro: row_writes_keep other_writes_keep refresh_keeps_data split: sum.split option.split MempoolHistoryProofTransition.split)


lemma progress_keeps_data [intro!]: "keeps stored_data (publish_mempool_progress me ctx)"
  by (auto simp: keeps_def publish_mempool_progress_def act_posts Let_def split: option.split)

lemma unpermitted_keeps_data: "\<not> ic_transaction_page_permitted ctx \<Longrightarrow> keeps stored_data (iterate me ctx tip)"
  unfolding iterate_def empty_result_def Let_def by auto

text \<open>The part of an iteration that does not ask for a page.\<close>

definition other_pages where
  "other_pages f g me = me\<lparr>me_fetch_first_page := f, me_fetch_page_after_confirmed := g\<rparr>"

lemma other_pages_fields:
  "me_env (other_pages f g me) = me_env me" "me_codec (other_pages f g me) = me_codec me"
  "me_summary_json (other_pages f g me) = me_summary_json me" "me_utc_now (other_pages f g me) = me_utc_now me"
  "me_wall_clock (other_pages f g me) = me_wall_clock me" "me_get_address_stats (other_pages f g me) = me_get_address_stats me"
  by (simp_all add: other_pages_def)

lemmas unpaged_defs = initialize_iteration_def fetch_mempool_address_stats_def persist_mempool_observation_def choose_resume_cursor_def
  choose_strict_scan_def store_expected_count_def apply_proof_transition_def publish_address_history_proof_def db_write_now_def
  act_provider_fail_def [abs_def] empty_result_def publish_mempool_progress_def to_summary_json_def

lemma page_functions_unused:
  "initialize_iteration (other_pages f g me) ctx tip = initialize_iteration me ctx tip"
  "publish_mempool_progress (other_pages f g me) ctx = publish_mempool_progress me ctx"
  "empty_result (other_pages f g me) tip observed balance summary = empty_result me tip observed balance summary"
  unfolding unpaged_defs other_pages_fields by (rule refl)+

lemma unpermitted_iterate: "\<not> ic_transaction_page_permitted ctx \<Longrightarrow> iterate (other_pages f g me) ctx tip = iterate me ctx tip"
  unfolding iterate_def page_functions_unused by simp


lemma view_fields [simp]:
  "my_raw (system_of s) = my_raw s" "my_db (system_of s) = my_db s" "my_raw (with_state st t) = my_raw t" "my_db (with_state st t) = my_db t"
  by (simp_all add: system_of_def with_state_def)

lemma ensured_data: "ensure_initialized me ctx tip kept s = Some (r, s1) \<Longrightarrow> stored_data s1 = stored_data s"
  using keeps_outcome [OF initialize_keeps_data, where s = s and me1 = me and ctx1 = ctx and tip1 = tip]
  by (auto simp: ensure_initialized_def act_return_def split: option.splits)

text \<open>
  C19. Without permission to fetch pages of transactions an iteration does not depend on what the provider would answer for a
  page, and it changes neither the raw evidence nor the stored addresses, transactions, transfers and outputs, whatever its outcome.
\<close>

theorem unpermitted_iteration_fetches_no_page:
  assumes "\<not> ic_transaction_page_permitted ctx"
  shows "sync_one_iteration (other_pages f g me) ctx kept s = sync_one_iteration me ctx kept s \<and>
    (\<forall>result kept' s'. sync_one_iteration me ctx kept s = Some (result, kept', s') \<longrightarrow>
       my_raw s' = my_raw s \<and> transactions_of (my_db s') = transactions_of (my_db s))"
proof (intro conjI allI impI)
  show "sync_one_iteration (other_pages f g me) ctx kept s = sync_one_iteration me ctx kept s"
    unfolding sync_one_iteration_def ensure_initialized_def page_functions_unused unpermitted_iterate [OF assms] by (rule refl)
next
  fix result kept' s'
  assume run: "sync_one_iteration me ctx kept s = Some (result, kept', s')"
  have "stored_data s' = stored_data s"
    using run unfolding sync_one_iteration_def
    by (auto split: option.splits if_splits sum.splits prod.splits
        dest!: ensured_data keeps_outcome [OF unpermitted_keeps_data [OF assms]])
  then show "my_raw s' = my_raw s" "transactions_of (my_db s') = transactions_of (my_db s)" by simp_all
qed


subsection \<open>What the outcome of an iteration names\<close>

definition within :: "CoverageInvalidationTargets \<Rightarrow> CoverageInvalidationTargets \<Rightarrow> bool" where
  "within a b \<longleftrightarrow> target_address_ids a \<subseteq> target_address_ids b \<and> target_account_ids a \<subseteq> target_account_ids b"

definition named_targets :: "UserTransactionMonitorError \<Rightarrow> CoverageInvalidationTargets" where
  "named_targets err = (case coverage_invalidation err of None \<Rightarrow> no_targets | Some targets \<Rightarrow> targets)"

lemma within_refl [simp]: "within a a"
  by (simp add: within_def)

lemma within_trans: "within a b \<Longrightarrow> within b c \<Longrightarrow> within a c"
  by (auto simp: within_def)

lemma error_names:
  "within targets (named_targets (with_coverage_invalidation err targets))"
  "within (named_targets err) (named_targets (with_coverage_invalidation err targets))"
  by (cases err; auto simp: within_def named_targets_def no_targets_def union_with_def)+

definition reconciled_targets :: "(DbError \<times> TransactionSyncReconcileSummary) + TransactionSyncReconcileSummary \<Rightarrow> CoverageInvalidationTargets" where
  "reconciled_targets r = (case r of Inl (_, summary) \<Rightarrow> rs_coverage_invalidation summary | Inr summary \<Rightarrow> rs_coverage_invalidation summary)"

text \<open>
  The stored transactions are the same, or they are what one reconciliation made of them, and the targets include the histories
  that the transactions it committed contradict.
\<close>

definition accounted ::
  "'x MempoolEnv \<Rightarrow> IntegrationIterationContext \<Rightarrow> UserDb \<Rightarrow> CoverageInvalidationTargets \<Rightarrow> UserDb \<Rightarrow> bool" where
  "accounted me ctx db targets db' \<longleftrightarrow>
     transactions_of db' = transactions_of db \<or>
     (\<exists>records at before r after.
        transactions_of before = transactions_of db \<and>
        reconcile_address_transactions_preserving_invalidation (me_env me) (me_fresh_chain_id me) (me_lock me)
          (sa_asset_id (ic_address ctx)) (sa_network (ic_address ctx)) records at before = (r, after) \<and>
        transactions_of db' = transactions_of after \<and> within (reconciled_targets r) targets)"

lemma accountedI:
  "reconcile_address_transactions_preserving_invalidation (me_env me) (me_fresh_chain_id me) (me_lock me)
     (sa_asset_id (ic_address ctx)) (sa_network (ic_address ctx)) records at before = (r, after) \<Longrightarrow>
   transactions_of before = transactions_of db \<Longrightarrow> transactions_of db' = transactions_of after \<Longrightarrow>
   within (reconciled_targets r) targets \<Longrightarrow> accounted me ctx db targets db'"
  unfolding accounted_def by blast

lemma accounted_same: "transactions_of db' = transactions_of db \<Longrightarrow> accounted me ctx db targets db'"
  by (simp add: accounted_def)

lemma accounted_later:
  "accounted me ctx db targets db' \<Longrightarrow> transactions_of db'' = transactions_of db' \<Longrightarrow> within targets targets' \<Longrightarrow>
     accounted me ctx db targets' db''"
  unfolding accounted_def by (elim disjE exE conjE) (simp, metis within_trans)

lemma reconcile_accounted:
  "act_post (reconcile_mempool_transactions me ctx records at) s
     (\<lambda>summary s'. accounted me ctx (my_db s) (rs_coverage_invalidation summary) (my_db s'))
     (\<lambda>err s'. accounted me ctx (my_db s) (named_targets err) (my_db s'))"
proof -
  obtain r db where r: "reconcile_address_transactions_preserving_invalidation (me_env me) (me_fresh_chain_id me) (me_lock me)
      (sa_asset_id (ic_address ctx)) (sa_network (ic_address ctx)) records at (my_db s) = (r, db)" by fastforce
  have invalidated: "act_post (invalidate_coverage_now me targets) (s\<lparr>my_db := db\<rparr>)
      (\<lambda>_ s'. transactions s' = transactions_of db) (\<lambda>_ _. False)" for targets
    by (simp add: invalidate_coverage_now_def act_posts invalidate_mempool_history_coverage_def
        invalidate_mempool_history_coverage_tx_def update_sync_state_def transactions_of_def)
  show ?thesis
  proof (cases r)
    case (Inl p)
    obtain err summary where p: "p = (err, summary)" by (cases p)
    have eq: "act_post (reconcile_mempool_transactions me ctx records at) s Q E \<longleftrightarrow>
        act_post (act_bind (invalidate_coverage_now me (rs_coverage_invalidation summary))
          (\<lambda>_. act_fail (with_coverage_invalidation (Db err) (rs_coverage_invalidation summary)))) (s\<lparr>my_db := db\<rparr>) Q E" for Q E
      using r by (intro act_post_same) (simp add: reconcile_mempool_transactions_def Inl p)
    show ?thesis
      unfolding eq act_post_bind act_post_fail
      by (rule act_post_mono [OF invalidated], rule accountedI [OF r])
        (simp_all add: Inl p reconciled_targets_def error_names del: with_coverage_invalidation.simps)
  next
    case (Inr summary)
    have eq: "act_post (reconcile_mempool_transactions me ctx records at) s Q E \<longleftrightarrow>
        act_post (act_bind (invalidate_coverage_now me (rs_coverage_invalidation summary)) (\<lambda>_. act_return summary)) (s\<lparr>my_db := db\<rparr>) Q E" for Q E
      using r by (intro act_post_same) (simp add: reconcile_mempool_transactions_def Inr)
    show ?thesis
      unfolding eq act_post_bind act_post_return
      by (rule act_post_mono [OF invalidated], rule accountedI [OF r]) (simp_all add: Inr reconciled_targets_def)
  qed
qed


lemma strict_completion_keeps [intro!]: "keeps stored_data (complete_strict_mempool_history_scan me ctx n tip allow)"
  unfolding complete_strict_mempool_history_scan_def
  by (auto split: StrictMempoolScanValidation.split intro: row_writes_keep)

lemma finish_page_keeps_data: "keeps stored_data (finish_page me ctx tip c page summary rebuild)"
  unfolding finish_page_def Let_def case_prod_beta commit_page_work_def give_up_exhausted_strict_scan_def
  by (auto split: option.split intro: row_writes_keep other_writes_keep)


text \<open>Actions that store no transaction, before and after the one that does.\<close>

lemma before_storing:
  assumes "keeps transactions m" and "transactions s = transactions_of db"
    and "\<And>a s'. transactions s' = transactions_of db \<Longrightarrow> act_post (f a) s' Q (\<lambda>err s'. accounted me ctx db (named_targets err) (my_db s'))"
  shows "act_post (act_bind m f) s Q (\<lambda>err s'. accounted me ctx db (named_targets err) (my_db s'))"
  unfolding act_post_bind
  by (rule act_post_mono [OF keeps_post [OF assms(1)]]) (simp_all add: assms accounted_same)

lemma after_storing:
  assumes "keeps stored_data m" and "accounted me ctx db targets (my_db s)"
    and "act_post m s (\<lambda>a _. R a) (\<lambda>_ _. True)" and "\<And>a. R a \<Longrightarrow> within targets (of_result a)" and "\<And>err. within targets (of_error err)"
  shows "act_post m s (\<lambda>a s'. accounted me ctx db (of_result a) (my_db s')) (\<lambda>err s'. accounted me ctx db (of_error err) (my_db s'))"
  by (rule act_post_mono [OF act_post_conj [OF keeps_post [OF assms(1)] assms(3)]])
    (auto intro: accounted_later [OF assms(2)] assms(4,5))

lemma finish_page_targets:
  "act_post (finish_page me ctx tip c page summary rebuild) s
     (\<lambda>r _. ir_coverage_invalidation r = rs_coverage_invalidation summary) (\<lambda>_ _. True)"
  unfolding finish_page_def Let_def case_prod_beta by (intro act_post_after) (simp add: act_posts)

lemma empty_result_keeps [intro!]: "keeps stored_data (empty_result me tip observed balance summary)"
  unfolding empty_result_def by auto

lemma empty_page_result_keeps [intro!]: "keeps stored_data (empty_page_result me tip)"
  unfolding empty_page_result_def by auto

lemma fetch_keeps_transactions: "keeps transactions (fetch_and_persist_mempool_transaction_page me ctx c at)"
  unfolding fetch_and_persist_mempool_transaction_page_def
  by (auto simp: keeps_def act_posts split: sum.split) (auto simp: act_post_def act_provider_fail_def split: sum.split prod.split option.split)


lemma no_storing:
  "keeps transactions m \<Longrightarrow> transactions s = transactions_of db \<Longrightarrow>
     act_post m s (\<lambda>a s'. accounted me ctx db (of_result a) (my_db s')) (\<lambda>err s'. accounted me ctx db (of_error err) (my_db s'))"
  by (rule act_post_mono [OF keeps_post], assumption) (rule accounted_same, simp)+

lemma page_stored_accounted:
  assumes "transactions s = transactions_of db"
  shows "act_post (act_bind (reconcile_mempool_transactions me ctx records at) (\<lambda>summary.
      act_map_err (\<lambda>err. with_coverage_invalidation err (rs_coverage_invalidation summary)) (finish_page me ctx tip c page summary rebuild))) s
    (\<lambda>r s'. accounted me ctx db (ir_coverage_invalidation r) (my_db s')) (\<lambda>err s'. accounted me ctx db (named_targets err) (my_db s'))"
proof -
  have same: "accounted me ctx (my_db s) targets db' = accounted me ctx db targets db'" for targets db'
    using assms by (simp add: accounted_def)
  show ?thesis
    unfolding act_post_bind act_post_map_err
    by (rule act_post_mono [OF reconcile_accounted])
      (auto simp: same error_names intro!: after_storing [OF finish_page_keeps_data _ finish_page_targets]
        simp del: with_coverage_invalidation.simps)
qed

lemma run_iteration_accounted:
  assumes "transactions s = transactions_of db"
  shows "act_post (run_mempool_iteration me ctx tip) s
    (\<lambda>r s'. accounted me ctx db (ir_coverage_invalidation r) (my_db s')) (\<lambda>err s'. accounted me ctx db (named_targets err) (my_db s'))"
  unfolding run_mempool_iteration_def Let_def
  apply (rule before_storing [OF _ assms], blast)
  apply (rule act_post_if)
  subgoal by (rule no_storing) (auto intro: keeps_transactions)
  apply (rule before_storing [OF _ _], (blast intro: keeps_transactions), assumption)
  apply (rule before_storing [OF fetch_keeps_transactions], assumption)
  apply (rule before_storing [OF _ _], (blast intro: keeps_transactions), assumption)
  apply (intro act_post_if)
  subgoal by (rule no_storing) (auto intro!: keeps_transactions)
  subgoal by (rule no_storing) (auto intro!: keeps_transactions)
  apply (rule before_storing [OF _ _], (blast intro: keeps_transactions), assumption)
  apply (rule before_storing [OF _ _], blast, assumption)
  by (rule page_stored_accounted)


lemma finalize_keeps [intro!]: "keeps stored_data (finalize_terminal_run me a early)"
  unfolding finalize_terminal_run_def Let_def by (auto intro: row_writes_keep)

lemma iterate_accounted:
  assumes "transactions s = transactions_of db"
  shows "act_post (iterate me ctx tip) s
    (\<lambda>p s'. accounted me ctx db (ir_coverage_invalidation (fst p)) (my_db s')) (\<lambda>err s'. accounted me ctx db (named_targets err) (my_db s'))"
proof -
  have finalize: "act_post (act_bind (act_map_err (\<lambda>err. preserve_iteration_error err r) (finalize_terminal_run me a early))
        (\<lambda>json. act_return (r\<lparr>ir_raw_run_summary_json := json\<rparr>, reset))) s1
      (\<lambda>p s'. accounted me ctx db (ir_coverage_invalidation (fst p)) (my_db s')) (\<lambda>err s'. accounted me ctx db (named_targets err) (my_db s'))"
    if "accounted me ctx db (ir_coverage_invalidation r) (my_db s1)" for r a early and reset :: bool and s1
    unfolding act_post_bind act_post_map_err act_post_return preserve_iteration_error_def
    by (rule act_post_mono [OF keeps_post [OF finalize_keeps]])
      (use that in \<open>auto intro: accounted_later error_names simp del: with_coverage_invalidation.simps\<close>)
  show ?thesis
    unfolding iterate_def Let_def
    apply (rule before_storing [OF _ assms], blast)
    apply (rule before_storing [OF _ _], (blast intro: keeps_transactions), assumption)
    apply (intro act_post_if)
    subgoal by (rule no_storing) (auto intro!: keeps_transactions)
    subgoal by (rule no_storing) (auto intro!: keeps_transactions)
    unfolding act_post_bind [of "run_mempool_iteration me ctx tip"]
    by (rule act_post_mono [OF run_iteration_accounted], assumption, rule finalize) simp_all
qed

lemma sync_one_iteration_courses:
  assumes "sync_one_iteration me ctx kept s = Some (result, kept', s')"
  obtains (early) "stored_data s' = stored_data s"
  | (ran) tip st s1 r s2 where "stored_data s1 = stored_data s" "iterate me ctx tip (with_state st s1) = Some (r, s2)"
      "s' = system_of s2" "result = (case r of Inl err \<Rightarrow> Inl err | Inr p \<Rightarrow> Inr (fst p))"
proof (cases "ic_chain_tip ctx")
  case None
  with assms show ?thesis by (intro early) (auto simp: sync_one_iteration_def)
next
  case tip: (Some tip)
  show ?thesis
  proof (cases "ic_mempool_client ctx")
    case False
    with assms tip show ?thesis by (intro early) (auto simp: sync_one_iteration_def)
  next
    case True
    with assms tip obtain q s1 where init: "ensure_initialized me ctx tip kept s = Some (q, s1)"
      by (auto simp: sync_one_iteration_def split: option.splits)
    show ?thesis
    proof (cases q)
      case (Inl err)
      with assms tip True init show ?thesis by (intro early) (auto simp: sync_one_iteration_def dest: ensured_data)
    next
      case (Inr st)
      with assms tip True init obtain r s2 where run: "iterate me ctx tip (with_state st s1) = Some (r, s2)"
        by (auto simp: sync_one_iteration_def split: option.splits)
      with assms tip True init Inr show ?thesis
        by (intro ran [OF ensured_data [OF init] run]) (auto simp: sync_one_iteration_def split: sum.splits)
    qed
  qed
qed

text \<open>
  The transactions after an iteration are those before it or what one reconciliation made of them, and the outcome, result or
  error, names every history that the transactions this reconciliation committed contradict.
\<close>

theorem iteration_names_contradicted_histories:
  assumes "sync_one_iteration me ctx kept s = Some (result, kept', s')"
  shows "accounted me ctx (my_db s) (case result of Inl err \<Rightarrow> named_targets err | Inr r \<Rightarrow> ir_coverage_invalidation r) (my_db s')"
  using assms
proof (rule sync_one_iteration_courses)
  assume "stored_data s' = stored_data s"
  then show ?thesis by (simp add: accounted_same)
next
  fix tip st s1 r s2
  assume s1: "stored_data s1 = stored_data s" and "iterate me ctx tip (with_state st s1) = Some (r, s2)" and "s' = system_of s2"
    and "result = (case r of Inl err \<Rightarrow> Inl err | Inr p \<Rightarrow> Inr (fst p))"
  moreover have "transactions (with_state st s1) = transactions_of (my_db s)" using s1 by simp
  note iterate_accounted [OF this, of me ctx tip]
  ultimately show ?thesis by (cases r) (simp_all add: act_post_def)
qed


subsection \<open>A history that shrank\<close>

definition unproved :: "UserDb \<Rightarrow> ulid \<Rightarrow> bool" where
  "unproved db address_id \<longleftrightarrow>
     list_all (\<lambda>r. is_address_row address_id r \<longrightarrow> tss_complete_tx_count r = None \<and> tss_complete_height r = None) (transaction_sync_state db)"

lemma unproved_updated:
  assumes "unproved db b" and "\<And>r. tss_address_id (f r) = tss_address_id r" and "\<And>r. tss_scope (f r) = tss_scope r"
    and "\<And>r. tss_complete_tx_count (f r) = tss_complete_tx_count r" and "\<And>r. tss_complete_height (f r) = tss_complete_height r"
  shows "unproved (fst (update_address_row db a f)) b"
  using assms by (auto simp: unproved_def update_address_row_def update_sync_state_def is_address_row_def list_all_iff)

lemma unproved_kept:
  "update_address_mempool_backfill_cursor env a c now db = Inr db' \<Longrightarrow> unproved db b \<Longrightarrow> unproved db' b"
  "update_address_mempool_expected_tx_count env a n now db = Inr db' \<Longrightarrow> unproved db b \<Longrightarrow> unproved db' b"
  "begin_mempool_history_scan env a run now db = Inr db' \<Longrightarrow> unproved db b \<Longrightarrow> unproved db' b"
  unfolding update_address_mempool_backfill_cursor_def update_address_mempool_expected_tx_count_def begin_mempool_history_scan_def
    require_row_Inr
  by (simp only:, rule unproved_updated, assumption, simp, simp, simp, simp)+

lemma list_all_updated: "(\<And>r. Q (f r)) \<Longrightarrow> list_all (\<lambda>r. P r \<longrightarrow> Q r) (map (\<lambda>r. if P r then f r else r) rs)"
  by (induction rs) auto

lemma proof_invalidated:
  assumes "invalidate_mempool_history_proof env a now db = Inr db'"
  shows "unproved db' a"
proof -
  from assms obtain accounts where
    "db' = fst (invalidate_mempool_history_coverage_tx \<lparr>target_address_ids = {a}, target_account_ids = accounts\<rparr> (env_to_rfc3339 env now) db)"
    unfolding invalidate_mempool_history_proof_def require_row_Inr by (simp add: require_row_Inr split: option.splits) blast
  then show ?thesis
    by (simp add: invalidate_mempool_history_coverage_tx_def update_sync_state_def unproved_def is_address_row_def list_all_updated)
qed

lemma initialized_shrunk:
  fixes me :: "'x MempoolEnv" and s :: "('x, 'm) MempoolSystem_scheme"
  shows "act_post (initialize_iteration me ctx tip) s (\<lambda>st s'.
    sa_mempool_history_proof (ic_address ctx) = Some pr \<and> stats_tx_count (visit_stats (it_visit st)) < proof_confirmed_tx_count pr \<longrightarrow>
    unproved (my_db s') (sa_address_id (ic_address ctx)) \<and> \<not> it_proof_published st \<and> \<not> it_proof_publication_allowed st \<and>
    it_cursor st = None \<and> \<not> it_first_page_done st) (\<lambda>_ _. True)"
proof -
  have transition: "effective_proof_transition ctx stats tip = InvalidateAndRestart"
    if "sa_mempool_history_proof (ic_address ctx) = Some pr" "stats_tx_count stats < proof_confirmed_tx_count pr" for stats
    using that by (auto simp: effective_proof_transition_def mempool_history_proof_transition_def Let_def)
  let ?a = "sa_address_id (ic_address ctx)"
  have invalidate: "act_post (apply_proof_transition me ctx InvalidateAndRestart) s1 (\<lambda>published s'. \<not> published \<and> unproved (my_db s') ?a) (\<lambda>_ _. True)"
    for s1 :: "('x, 'm) MempoolSystem_scheme"
    by (auto simp: apply_proof_transition_def act_posts Let_def dest: proof_invalidated split: sum.split)
  have resume: "act_post (choose_resume_cursor me ctx InvalidateAndRestart) s1 (\<lambda>resume s'. resume = None \<and> unproved (my_db s') ?a) (\<lambda>_ _. True)"
    if "unproved (my_db s1) ?a" for s1 :: "('x, 'm) MempoolSystem_scheme"
    using that by (auto simp: choose_resume_cursor_def act_posts Let_def dest: unproved_kept split: sum.split)
  have scan: "act_post (choose_strict_scan me ctx stats published None) s1 (\<lambda>p s'. snd p = None \<and> unproved (my_db s') ?a) (\<lambda>_ _. True)"
    if "unproved (my_db s1) ?a" for s1 :: "('x, 'm) MempoolSystem_scheme" and stats published
    using that by (auto simp: choose_strict_scan_def act_posts Let_def dest: unproved_kept split: sum.split option.split)
  have expected: "act_post (store_expected_count me ctx stats tr active published) s1 (\<lambda>_ s'. unproved (my_db s') ?a) (\<lambda>_ _. True)"
    if "unproved (my_db s1) ?a" for s1 :: "('x, 'm) MempoolSystem_scheme" and stats tr active published
    using that by (auto simp: store_expected_count_def act_posts Let_def dest: unproved_kept split: sum.split)
  show ?thesis
    unfolding initialize_iteration_def Let_def case_prod_beta
    apply (rule act_post_after)
    subgoal for stats
      apply (cases "sa_mempool_history_proof (ic_address ctx) = Some pr \<and> stats_tx_count stats < proof_confirmed_tx_count pr")
      subgoal
        apply (simp only: transition)
        apply (rule act_post_after, rule act_post_after)
        apply (rule act_post_then [OF invalidate], elim conjE)
        apply (rule act_post_then [OF resume], assumption, elim conjE, hypsubst)
        apply (rule act_post_then [OF scan], assumption)
        apply (rule act_post_then [where P = "\<lambda>_ s'. unproved (my_db s') ?a"])
        subgoal by (auto simp: act_posts split: sum.split)
        apply (rule act_post_then [where P = "\<lambda>_ s'. unproved (my_db s') ?a"])
        subgoal by (auto simp: act_posts split: sum.split)
        apply (rule act_post_then [where P = "\<lambda>_ s'. unproved (my_db s') ?a"])
        subgoal by (simp add: act_posts)
        apply (rule act_post_then [OF expected], assumption)
        by (simp add: act_posts)
      subgoal
        apply (rule act_post_after)+
        by (simp add: act_posts) blast
      done
    done
qed


text \<open>
  When the provider counts fewer confirmed transactions than the stored proof of an address, the first iteration takes the
  proof from the address's row, forgets the cursor of the backfill, and lets nothing but a strict scan publish a new proof.
\<close>

theorem shrunk_history_loses_proof:
  assumes "initialize_iteration me ctx tip s = Some (Inr st, s')" and "sa_mempool_history_proof (ic_address ctx) = Some pr"
    and "stats_tx_count (visit_stats (it_visit st)) < proof_confirmed_tx_count pr"
  shows "unproved (my_db s') (sa_address_id (ic_address ctx)) \<and> \<not> it_proof_published st \<and> \<not> it_proof_publication_allowed st \<and>
    it_cursor st = None \<and> \<not> it_first_page_done st"
  using act_post_result [OF initialized_shrunk assms(1)] assms(2,3) by blast


subsection \<open>Witnesses\<close>

definition unpermitted_ctx :: IntegrationIterationContext where
  "unpermitted_ctx = (sample_ctx False)\<lparr>ic_transaction_page_permitted := False\<rparr>"

lemma sample_unpermitted:
  "case sync_one_iteration (sample_me (sample_page 1)) unpermitted_ctx None sample_system of Some (Inr _, _, _) \<Rightarrow> True | _ \<Rightarrow> False"
  by code_simp

theorem unpermitted_iteration_fetches_no_page_witness:
  "\<exists>r kept' s'. sync_one_iteration (sample_me (sample_page 1)) unpermitted_ctx None sample_system = Some (Inr r, kept', s') \<and>
     my_raw s' = my_raw sample_system"
proof -
  from returned [OF sample_unpermitted] obtain r kept' s' where
    run: "sync_one_iteration (sample_me (sample_page 1)) unpermitted_ctx None sample_system = Some (Inr r, kept', s')"
    by blast
  have "\<not> ic_transaction_page_permitted unpermitted_ctx" by (simp add: unpermitted_ctx_def)
  from unpermitted_iteration_fetches_no_page [OF this, of _ _ "sample_me (sample_page 1)" None sample_system] run show ?thesis by blast
qed

theorem iteration_names_contradicted_histories_witness:
  "\<exists>r kept' s'. sync_one_iteration (sample_me (sample_page 1)) (sample_ctx False) None sample_system = Some (Inr r, kept', s') \<and>
     accounted (sample_me (sample_page 1)) (sample_ctx False) (my_db sample_system) (ir_coverage_invalidation r) (my_db s')"
proof -
  from returned [OF sample_unfinished] obtain r kept' s' where
    run: "sync_one_iteration (sample_me (sample_page 1)) (sample_ctx False) None sample_system = Some (Inr r, kept', s')"
    by blast
  with iteration_names_contradicted_histories [OF run] show ?thesis by auto
qed

definition shrunk_ctx :: IntegrationIterationContext where
  "shrunk_ctx = (sample_ctx False)\<lparr>ic_address := (ic_address (sample_ctx False))\<lparr>
     sa_mempool_history_proof := Some \<lparr>proof_confirmed_tx_count = 5, proof_complete_height = 3\<rparr>\<rparr>\<rparr>"

lemma sample_shrunk:
  "case initialize_iteration (sample_me (sample_page 1)) shrunk_ctx 9 sample_system of
     Some (Inr st, _) \<Rightarrow> stats_tx_count (visit_stats (it_visit st)) = 0 | _ \<Rightarrow> False"
  by code_simp

theorem shrunk_history_loses_proof_witness:
  "\<exists>st s'. initialize_iteration (sample_me (sample_page 1)) shrunk_ctx 9 sample_system = Some (Inr st, s') \<and> unproved (my_db s') ''d1''"
proof -
  from sample_shrunk obtain st s' where
    run: "initialize_iteration (sample_me (sample_page 1)) shrunk_ctx 9 sample_system = Some (Inr st, s')"
    and stats: "stats_tx_count (visit_stats (it_visit st)) = 0"
    by (auto split: option.splits sum.splits)
  have ctx: "sa_mempool_history_proof (ic_address shrunk_ctx) = Some \<lparr>proof_confirmed_tx_count = 5, proof_complete_height = 3\<rparr>"
      "sa_address_id (ic_address shrunk_ctx) = ''d1''"
    by (simp_all add: shrunk_ctx_def sample_ctx_def sample_address_def)
  from shrunk_history_loses_proof [OF run ctx(1)] stats run show ?thesis by (auto simp: ctx(2))
qed

end
