(* ===== verification/Spec2Isabelle.thy ===== *)
theory Spec2Isabelle
  imports Ledger_Publish Pairing Sync_Attempts Reconcile_Utxos Reconcile_Accounts Mempool_Iteration_Outcome
begin

text \<open>
  Verification of the core of BitGarth (Rust, \<open>src/src\<close>), a self-hosted tracker of Bitcoin and Ethereum accounts.

  \<^bold>\<open>The program.\<close> A user's wallets, accounts and addresses are kept in an SQLite file per user. A background sync asks
  providers (Mempool for Bitcoin, Etherscan for Ethereum) for the balances and transactions of each address and stores
  what it receives. From the stored transactions a ledger of entries with closing balances is rebuilt per account; a
  Bitcoin history is shown with balances only while every address carries a proof that its transactions are complete.
  Requests of users are coordinated with exclusive operations (deleting a user, changing a password) by a registry of
  leases; clients of the HTTP interface are paired with a displayed code.

  \<^bold>\<open>The theories\<close>, in the order of their imports, and the code they model:

  \<^item> \<open>Prelude\<close>: Rust's integers, results, ordered containers, decimal text, and the locale \<open>state_machine\<close> (initial states,
    steps, an invariant), interpreted by every component that is a step relation.
  \<^item> \<open>Amounts\<close> (\<open>amounts/mod.rs\<close>, \<open>db/amount_storage.rs\<close>): 128-bit amounts, their two 18-digit columns, sums of columns,
    signed changes, decimal text.
  \<^item> \<open>Domain\<close> (\<open>wallets/primitives.rs\<close>, \<open>transactions/types.rs\<close>): assets, networks, addresses, hashes, counts, sanitized messages.
  \<^item> \<open>Balances\<close> (\<open>transactions/balance.rs\<close>): balances that may be unknown, their sums and totals.
  \<^item> \<open>Ledger_Schema\<close>, \<open>Ledger_Entries\<close>, \<open>Ledger_Order\<close>, \<open>Ledger_Balances\<close>, \<open>Ledger_Publish\<close>
    (\<open>db/account_transactions/ledger_rebuild.rs\<close>): the tables; the entries of account-model and UTXO accounts; the order of
    confirmed Bitcoin entries; closing balances; coverage, the rebuilding transaction and the publication of a history.
  \<^item> \<open>Lifecycle\<close> (\<open>auth/lifecycle.rs\<close>): request leases, exclusive operations, shutdowns, the condition variable, as steps
    of threads over a shared registry; the threads that wait in either loop of an exclusive operation, or for a shutdown, are
    part of the state.
  \<^item> \<open>Pairing\<close> (\<open>pairing.rs\<close>): the store of pending pairings, its limits, approval and claims.
  \<^item> \<open>Sync_Limits\<close> (\<open>account_limits.rs\<close>, \<open>tasks/jobs/sync/rate_limit.rs\<close>): allowances and modes of accounts, rate limits.
  \<^item> \<open>Sync_Planner\<close> (\<open>tasks/jobs/sync/planner.rs\<close>, \<open>context.rs\<close>): which address is synced next, or why the run stops.
  \<^item> \<open>Sync_State\<close> (\<open>db/transaction_sync/sync_state.rs\<close>, \<open>parsers.rs\<close>): the stored state of each address's sync. Its step
    relation has every writer of these rows: starts, completions, cursors, proofs, strict scans and their restart
    (\<open>mempool_history.rs\<close>), the Etherscan writers, invalidations, the reset of \<open>db/user_data_repairs.rs\<close>, and what the deletion
    of accounts (\<open>db/wallets/deletion.rs\<close>) and of sync runs cascades to them.
  \<^item> \<open>Sync_Gate\<close> (\<open>tasks/jobs/sync/gate.rs\<close>, \<open>cycle.rs\<close>, \<open>error.rs\<close>, \<open>chain_tip.rs\<close>): one attempt to sync an address, with the
    invalidation of what its error names, which may itself fail.
  \<^item> \<open>Sync_Attempts\<close>: what holds of attempts and of runs of attempts.
  \<^item> \<open>Reconcile\<close> (\<open>db/transaction_sync/reconciliation.rs\<close>, \<open>db/chain_cleanup.rs\<close>): storing fetched transactions of both models,
    in batches that each may fail to get the database.
  \<^item> \<open>Reconcile_Rows\<close>, \<open>Reconcile_Effect\<close>: what its loops leave in the tables (the locale \<open>owned_rows_loop\<close>, interpreted on
    the loops over inputs and outputs) and what storing one transaction does; \<open>Reconcile_Spec\<close>, \<open>Reconcile_Utxos\<close>,
    \<open>Reconcile_Accounts\<close>: what its callers rely on.
  \<^item> \<open>Raw_Ingestion\<close> (\<open>db/raw_ingestion/core\<close>, \<open>tasks/jobs/raw_ingestion_executor.rs\<close>): what a provider returned, kept as it
    arrived; \<open>Raw_Lineage\<close>: the invariant of its tables over every sequence of operations.
  \<^item> \<open>Mempool_Scan\<close> (\<open>db/transaction_sync/mempool_history.rs\<close>): when the recorded pages of a scan prove a history complete;
    \<open>Mempool_Scan_Spec\<close>: the specification it implements.
  \<^item> \<open>Mempool_Map\<close> (\<open>tasks/jobs/sync/integrations/mempool/mapper.rs\<close>): a transaction of the provider as a record to store.
  \<^item> \<open>Mempool_Iteration\<close> (\<open>tasks/jobs/sync/integrations/mempool/mod.rs\<close>): one iteration of the sync of a Bitcoin address, as
    actions on the user's database, the raw tables, the events, the world and the state kept between iterations;
    \<open>Mempool_Iteration_Spec\<close>: rules for reasoning about actions, what an interrupted backfill and a strict scan guarantee;
    \<open>Mempool_Iteration_Outcome\<close>: what every outcome of an iteration, errors included, leaves and names.

  \<^bold>\<open>How the model corresponds to the code.\<close> Definitions keep the names of functions and types. Structs are records, enums
  datatypes; unsigned integers are words, signed ones integers with their range checked where the code checks it. A
  \<open>Result\<close> is a sum with the error on the left, the operator \<open>?\<close> is \<open>res_bind\<close>, a loop with early exit \<open>res_fold\<close>. Mutable
  arguments are passed and returned. The user's database is a record of tables, each a list of rows (\<open>UserDb\<close>); a query is
  the corresponding filter, join or fold, and a transaction that fails returns the database unchanged. Threads that share
  state behind a lock are step relations with one step per critical section.

  \<^bold>\<open>Parameters.\<close> What the code gets from outside is an argument: clocks, random identifiers and codes, the parsing and printing of
  timestamps and ULIDs (\<open>Env\<close>), hash functions, the order in which a hash map delivers its elements, the provider and the
  executor of an iteration (\<open>MempoolEnv\<close> for the Mempool integration). \<open>DbLock\<close> says, for each batch of fetched transactions, what
  others did to the database meanwhile and whether it can be opened. Theorems hold for all of them unless a hypothesis says
  otherwise: that the clock does not go back, that a hash set delivers each of its elements once, or
  (\<open>stored_ids_canonical\<close>) that the identifiers stored with addresses are the canonical texts the program wrote.

  \<^bold>\<open>Recursion.\<close> Loops over lists are folds; the placing of a block's entries (\<open>place_ready\<close>), the
  expiry, the cutting of a list into batches, the trimming of texts and the walk over recorded pages recurse on a decreasing
  measure. No definition has fuel.

  \<^bold>\<open>What is shown\<close>: the ledger's order, changes and closing balances are exact, atomic and independent of the order of hash
  maps; balances and stored amounts are exact; exclusive operations exclude, shutdowns quiesce, no wake-up is missed and
  waiting ends; pairing codes and verifiers stay distinct and a claim needs the key; the planner's choice is the least
  candidate; an invalidated history is not reported complete; failures, cooldowns and rate limits keep providers from
  being contacted; every attempt of a run is counted once; a fetched transaction is stored exactly and storing it again changes
  nothing, a contradiction of a stored confirmed transaction withdraws the completeness of every history it belongs to, even
  when a later transaction of the same call fails, outputs stay linked to what spends them, and the ledger of
  whoever loses an excluded transfer is the one built from the resulting database;
  payloads stored are never lost and have one head; a scan is accepted exactly when its pages are one complete chain; an
  iteration stores a cursor for the work it leaves, ends a strict scan only with a proof, fetches no page without permission,
  gives up a proof that the provider no longer supports, and names what its transactions contradict whatever happens.

  \<^bold>\<open>Not modelled\<close>: failures of SQLite other than those named above (a full disk within a transaction), poisoned
  locks of the registries, schema migrations, logging and the progress events of the sync loops, SQL text of
  pages and filters, the HTTP clients and their JSON, the Etherscan tables of raw evidence, cryptography, the user interface, prices, payments, exports,
  the command line.
\<close>

end
